(* ===== verification/Prelude.thy ===== *)
theory Prelude
  imports Main "HOL-Library.Word"
begin

text \<open>
  Shared vocabulary of the development: machine integers, byte memory with
  bounds-checked access, and the generic lemmas the component theories rest on.

  A C object is a list of bytes. A read or a write of \<open>n\<close> bytes at offset \<open>i\<close> is
  \<^const>\<open>None\<close> where the C program would leave the object, so \<open>None\<close> stands for the
  undefined behaviour of an out-of-bounds access and never for a legal result.
\<close>

unbundle bit_operations_syntax

type_synonym u8 = "8 word"
type_synonym u16 = "16 word"
type_synonym u32 = "32 word"
type_synonym u64 = "64 word"
type_synonym bytes = "u8 list"

named_theorems mem_simps "facts about bounds-checked byte memory"
named_theorems mem_len "operations that keep the size of an object"

section \<open>Bytes\<close>

definition byte_of :: "nat \<Rightarrow> u8" where
  "byte_of n = word_of_nat n"

lemma unat_byte_of [simp]: "n < 256 \<Longrightarrow> unat (byte_of n) = n"
  by (simp add: byte_of_def unat_of_nat)

lemma byte_of_unat [simp]: "byte_of (unat b) = b"
  by (simp add: byte_of_def)

lemma unat_u8_less [simp]: "unat (b :: u8) < 256"
  by (rule order_less_le_trans[OF unsigned_less]) simp

section \<open>Byte memory\<close>

definition ld :: "'a list \<Rightarrow> nat \<Rightarrow> nat \<Rightarrow> 'a list option" where
  "ld m i n = (if i + n \<le> length m then Some (take n (drop i m)) else None)"

definition st :: "'a list \<Rightarrow> nat \<Rightarrow> 'a list \<Rightarrow> 'a list option" where
  "st m i bs = (if i + length bs \<le> length m
                then Some (take i m @ bs @ drop (i + length bs) m) else None)"

lemma ld_Some_iff: "ld m i n = Some bs \<longleftrightarrow> i + n \<le> length m \<and> bs = take n (drop i m)"
  by (auto simp: ld_def)

lemma ld_in_bounds [mem_simps]: "i + n \<le> length m \<Longrightarrow> ld m i n = Some (take n (drop i m))"
  by (simp add: ld_def)

lemma ld_length: "ld m i n = Some bs \<Longrightarrow> length bs = n"
  by (auto simp: ld_def split: if_splits)

lemma st_length [mem_len]: "st m i bs = Some m' \<Longrightarrow> length m' = length m"
  by (auto simp: st_def split: if_splits)

lemma st_in_bounds [mem_simps]:
  "i + length bs \<le> length m \<Longrightarrow> st m i bs = Some (take i m @ bs @ drop (i + length bs) m)"
  by (simp add: st_def)

lemma st_nth:
  assumes "st m i bs = Some m'" and "j < length m"
  shows "m' ! j = (if i \<le> j \<and> j < i + length bs then bs ! (j - i) else m ! j)"
  using assms by (auto simp: st_def nth_append split: if_splits)

lemma ld_one [mem_simps]: "i < length m \<Longrightarrow> ld m i 1 = Some [m ! i]"
  by (simp add: ld_def take_Suc_conv_app_nth take_Suc hd_drop_conv_nth)

lemma ld_two [mem_simps]: "i + 2 \<le> length m \<Longrightarrow> ld m i 2 = Some [m ! i, m ! (i + 1)]"
  by (simp add: ld_def numeral_2_eq_2 take_Suc_conv_app_nth)

text \<open>What is left of the first \<open>n\<close> bytes of an object after \<open>i\<close> of them.\<close>

lemma drop_take_Cons: "i < n \<Longrightarrow> n \<le> length m \<Longrightarrow> drop i (take n m) = m ! i # drop (Suc i) (take n m)"
  by (subst Cons_nth_drop_Suc[symmetric]) auto

lemma take_drop_take: "i + k \<le> n \<Longrightarrow> take k (drop i (take n m)) = take k (drop i m)"
  by (simp add: drop_take min_def)

lemma st_ld_same: "st m i bs = Some m' \<Longrightarrow> ld m' i (length bs) = Some bs"
  by (auto simp: st_def ld_def split: if_splits)

text \<open>Two states of an object that differ at most in the bytes from \<open>lo\<close> up to \<open>hi\<close>.\<close>

definition agree_outside :: "nat \<Rightarrow> nat \<Rightarrow> 'a list \<Rightarrow> 'a list \<Rightarrow> bool" where
  "agree_outside lo hi m m' \<longleftrightarrow>
     length m' = length m \<and> (\<forall>j < length m. j < lo \<or> hi \<le> j \<longrightarrow> m' ! j = m ! j)"

lemma agree_outside_refl [simp, intro]: "agree_outside lo hi m m"
  by (simp add: agree_outside_def)

lemma agree_outside_trans:
  "agree_outside lo hi m m' \<Longrightarrow> agree_outside lo hi m' m'' \<Longrightarrow> agree_outside lo hi m m''"
  by (simp add: agree_outside_def)

lemma agree_outside_mono:
  "agree_outside lo hi m m' \<Longrightarrow> lo' \<le> lo \<Longrightarrow> hi \<le> hi' \<Longrightarrow> agree_outside lo' hi' m m'"
  by (auto simp: agree_outside_def)

lemma agree_outside_length: "agree_outside lo hi m m' \<Longrightarrow> length m' = length m"
  by (simp add: agree_outside_def)

lemma agree_outside_nth:
  "agree_outside lo hi m m' \<Longrightarrow> j < length m \<Longrightarrow> j < lo \<or> hi \<le> j \<Longrightarrow> m' ! j = m ! j"
  by (auto simp: agree_outside_def)

lemma agree_outside_take:
  "agree_outside lo hi m m' \<Longrightarrow> k \<le> lo \<Longrightarrow> take k m' = take k m"
  by (auto simp: agree_outside_def intro: nth_equalityI)

lemma agree_outside_drop:
  "agree_outside lo hi m m' \<Longrightarrow> hi \<le> k \<Longrightarrow> drop k m' = drop k m"
  by (auto simp: agree_outside_def intro: nth_equalityI)

lemma st_agree_outside: "st m i bs = Some m' \<Longrightarrow> agree_outside i (i + length bs) m m'"
  by (auto simp: agree_outside_def st_length st_nth)

section \<open>Outcomes\<close>

text \<open>A run ends in a failed assertion (\<open>abort\<close>), in undefined behaviour, or normally.\<close>

datatype stop = Assert_failed | Undefined

definition andthen :: "'e + 'a \<Rightarrow> ('a \<Rightarrow> 'e + 'b) \<Rightarrow> 'e + 'b" where
  "andthen r f = (case r of Inl e \<Rightarrow> Inl e | Inr x \<Rightarrow> f x)"

lemma andthen_simps [simp]: "andthen (Inl e) f = Inl e" "andthen (Inr x) f = f x"
  by (simp_all add: andthen_def)

lemma andthen_Inr: "andthen r f = Inr y \<longleftrightarrow> (\<exists>x. r = Inr x \<and> f x = Inr y)"
  by (cases r) auto

definition ASSERT :: "bool \<Rightarrow> stop + unit" where
  "ASSERT b = (if b then Inr () else Inl Assert_failed)"

lemma ASSERT_True [simp]: "ASSERT True = Inr ()"
  by (simp add: ASSERT_def)

section \<open>Words that stand for small numbers\<close>

definition W :: "nat \<Rightarrow> u64" where "W n = word_of_nat n"

lemma unat_W: "n < 2 ^ 64 \<Longrightarrow> unat (W n) = n"
  by (simp add: W_def unat_of_nat)

lemma W_unat: "W (unat w) = w"
  by (simp add: W_def)

lemma W_0: "W 0 = 0" and W_1: "W 1 = 1"
  by (simp_all add: W_def)

lemma W_add: "W a + W b = W (a + b)"
  by (simp add: W_def)

lemma W_mult: "W a * W b = W (a * b)"
  by (simp add: W_def)

lemma W_minus: "b \<le> a \<Longrightarrow> W a - W b = W (a - b)"
  by (simp add: W_def of_nat_diff)

lemma W_push: "push_bit n (W a) = W (a * 2 ^ n)"
  by (simp add: W_def push_bit_eq_mult)

lemma W_div: "a < 2 ^ 64 \<Longrightarrow> b < 2 ^ 64 \<Longrightarrow> W a div W b = W (a div b)"
  by (metis W_unat unat_W unat_div_distrib)

lemma W_mod: "a < 2 ^ 64 \<Longrightarrow> b < 2 ^ 64 \<Longrightarrow> W a mod W b = W (a mod b)"
  by (metis W_unat unat_W unat_mod_distrib)

lemma W_drop: "a < 2 ^ 64 \<Longrightarrow> drop_bit n (W a) = W (a div 2 ^ n)"
  by (metis W_unat unat_W unat_drop_bit_eq drop_bit_eq_div)

lemma W_le: "a < 2 ^ 64 \<Longrightarrow> b < 2 ^ 64 \<Longrightarrow> W a \<le> W b \<longleftrightarrow> a \<le> b"
  by (simp add: word_le_nat_alt unat_W)

lemma W_less: "a < 2 ^ 64 \<Longrightarrow> b < 2 ^ 64 \<Longrightarrow> W a < W b \<longleftrightarrow> a < b"
  by (simp add: word_less_nat_alt unat_W)

lemma W_eq: "a < 2 ^ 64 \<Longrightarrow> b < 2 ^ 64 \<Longrightarrow> W a = W b \<longleftrightarrow> a = b"
  by (metis unat_W)

lemma W_eq_0: "a < 2 ^ 64 \<Longrightarrow> W a = 0 \<longleftrightarrow> a = 0"
  using W_eq[of a 0] by (simp add: W_0)

end
