(* ===== verification/LZ4.thy ===== *)
theory LZ4
  imports Prelude
begin

text \<open>
  The LZ4 block decoder of \<open>de.c\<close> (the same text is compiled into \<open>extractor/lz4.cpp\<close>
  and \<open>python-lz4zfs.c\<close>), translated statement by statement over byte memory. Pointers
  into the source and destination objects are offsets from their start. \<open>arch64\<close> is
  \<open>LZ4_ARCH64\<close>; \<open>daddr\<close> is the address of \<open>dest\<close>, which only the overflow test of
  \<open>cpy\<close> reads. A result of \<^const>\<open>None\<close> or \<open>Fault\<close> is an access outside an object.
  The sums \<open>ip + length\<close> and, in a match, \<open>op + length\<close> are taken without wrap-around:
  a length is less than 2^40 for an input below 2 GB, so they stay below the top of a
  64-bit address space for objects that lie 2^40 bytes below it, as those of user space
  do. On the 32-bit build a length can carry the two pointers around the address space;
  what the decoder does after that is not modelled, and no theorem below says that the
  32-bit build is safe.
\<close>

section \<open>Constants and tables\<close>

definition MINMATCH :: nat where "MINMATCH = 4"
definition COPYLENGTH :: nat where "COPYLENGTH = 8"
definition ML_BITS :: nat where "ML_BITS = 4"
definition ML_MASK :: nat where "ML_MASK = 2 ^ ML_BITS - 1"
definition RUN_BITS :: nat where "RUN_BITS = 8 - ML_BITS"
definition RUN_MASK :: nat where "RUN_MASK = 2 ^ RUN_BITS - 1"

definition STEPSIZE :: "bool \<Rightarrow> nat" where
  "STEPSIZE arch64 = (if arch64 then 8 else 4)"

definition dec32table :: "nat list" where
  "dec32table = [0, 3, 2, 3, 0, 0, 0, 0]"

definition dec64table :: "int list" where
  "dec64table = [0, 0, 0, -1, 0, 1, 2, 3]"

text \<open>The width of \<open>size_t\<close> and of pointers.\<close>

definition SIZE_BITS :: "bool \<Rightarrow> nat" where
  "SIZE_BITS arch64 = (if arch64 then 64 else 32)"

section \<open>The copy macros\<close>

text \<open>
  A copy reads from \<open>b\<close> when it is \<open>Some b\<close> (the compressed input) and from the
  destination itself when it is \<open>None\<close> (a match).
\<close>

definition copy_source :: "bytes option \<Rightarrow> bytes \<Rightarrow> bytes" where
  "copy_source b dst = (case b of Some m \<Rightarrow> m | None \<Rightarrow> dst)"

definition LZ4_COPYSTEP ::
    "nat \<Rightarrow> bytes option \<Rightarrow> nat \<Rightarrow> nat \<Rightarrow> bytes \<Rightarrow> (nat \<times> nat \<times> bytes) option" where
  "LZ4_COPYSTEP n b s d dst =
     (case ld (copy_source b dst) s n of
        None \<Rightarrow> None
      | Some v \<Rightarrow> (case st dst d v of
                     None \<Rightarrow> None
                   | Some dst' \<Rightarrow> Some (s + n, d + n, dst')))"

definition LZ4_COPYPACKET ::
    "bool \<Rightarrow> bytes option \<Rightarrow> nat \<Rightarrow> nat \<Rightarrow> bytes \<Rightarrow> (nat \<times> nat \<times> bytes) option" where
  "LZ4_COPYPACKET arch64 b s d dst =
     (if arch64 then LZ4_COPYSTEP 8 b s d dst
      else (case LZ4_COPYSTEP 4 b s d dst of
              None \<Rightarrow> None
            | Some (s', d', dst') \<Rightarrow> LZ4_COPYSTEP 4 b s' d' dst'))"

lemma LZ4_COPYSTEP_shape:
  "LZ4_COPYSTEP n b s d dst = Some (s', d', dst') \<Longrightarrow> s' = s + n \<and> d' = d + n"
  by (auto simp: LZ4_COPYSTEP_def split: option.splits)

lemma LZ4_COPYPACKET_shape:
  "LZ4_COPYPACKET arch64 b s d dst = Some (s', d', dst') \<Longrightarrow> s' = s + 8 \<and> d' = d + 8"
  by (auto simp: LZ4_COPYPACKET_def dest!: LZ4_COPYSTEP_shape split: option.splits if_splits)

text \<open>\<open>do { LZ4_COPYPACKET(s, d) } while (d < e)\<close>.\<close>

function LZ4_WILDCOPY ::
    "bool \<Rightarrow> bytes option \<Rightarrow> nat \<Rightarrow> nat \<Rightarrow> int \<Rightarrow> bytes \<Rightarrow> (nat \<times> nat \<times> bytes) option" where
  "LZ4_WILDCOPY arch64 b s d e dst =
     (case LZ4_COPYPACKET arch64 b s d dst of
        None \<Rightarrow> None
      | Some (s', d', dst') \<Rightarrow>
          (if int d' < e then LZ4_WILDCOPY arch64 b s' d' e dst' else Some (s', d', dst')))"
  by pat_completeness auto
termination
  by (relation "measure (\<lambda>(arch64, b, s, d, e, dst). nat (e - int d))")
    (auto dest!: LZ4_COPYPACKET_shape)

declare LZ4_WILDCOPY.simps [simp del]

definition LZ4_SECURECOPY ::
    "bool \<Rightarrow> bytes option \<Rightarrow> nat \<Rightarrow> nat \<Rightarrow> int \<Rightarrow> bytes \<Rightarrow> (nat \<times> nat \<times> bytes) option" where
  "LZ4_SECURECOPY arch64 b s d e dst =
     (if arch64
      then (if int d < e then LZ4_WILDCOPY arch64 b s d e dst else Some (s, d, dst))
      else LZ4_WILDCOPY arch64 b s d e dst)"

text \<open>\<open>while (op < cpy) *op++ = *ref++\<close>.\<close>

function byte_copy :: "nat \<Rightarrow> nat \<Rightarrow> nat \<Rightarrow> bytes \<Rightarrow> bytes option" where
  "byte_copy ref op cpy dst =
     (if op < cpy then
        (case ld dst ref 1 of
           None \<Rightarrow> None
         | Some v \<Rightarrow> (case st dst op v of
                        None \<Rightarrow> None
                      | Some dst' \<Rightarrow> byte_copy (ref + 1) (op + 1) cpy dst'))
      else Some dst)"
  by pat_completeness auto
termination
  by (relation "measure (\<lambda>(ref, op, cpy, dst). cpy - op)") auto

declare byte_copy.simps [simp del]

section \<open>The length fields\<close>

text \<open>
  The literal-length extension: \<open>int s = 255; while ((ip < iend) && (s == 255))
  { s = *ip++; length += s; }\<close>. \<open>length\<close> is a \<open>size_t\<close> and wraps at its width.
\<close>

function run_ext :: "bool \<Rightarrow> bytes \<Rightarrow> int \<Rightarrow> nat \<Rightarrow> nat \<Rightarrow> nat \<Rightarrow> (nat \<times> nat) option" where
  "run_ext arch64 src iend s ip len =
     (if int ip < iend \<and> s = 255 then
        (case ld src ip 1 of
           None \<Rightarrow> None
         | Some v \<Rightarrow> run_ext arch64 src iend (unat (hd v)) (ip + 1) ((len + unat (hd v)) mod 2 ^ SIZE_BITS arch64))
      else Some (ip, len))"
  by pat_completeness auto
termination
  by (relation "measure (\<lambda>(arch64, src, iend, s, ip, len). nat (iend - int ip))") auto

declare run_ext.simps [simp del]

text \<open>
  The match-length extension: \<open>while (ip < iend) { int s = *ip++; length += s;
  if (s == 255) continue; break; }\<close>.
\<close>

function match_ext :: "bool \<Rightarrow> bytes \<Rightarrow> int \<Rightarrow> nat \<Rightarrow> nat \<Rightarrow> (nat \<times> nat) option" where
  "match_ext arch64 src iend ip len =
     (if int ip < iend then
        (case ld src ip 1 of
           None \<Rightarrow> None
         | Some v \<Rightarrow>
             (if unat (hd v) = 255
              then match_ext arch64 src iend (ip + 1) ((len + unat (hd v)) mod 2 ^ SIZE_BITS arch64)
              else Some (ip + 1, (len + unat (hd v)) mod 2 ^ SIZE_BITS arch64)))
      else Some (ip, len))"
  by pat_completeness auto
termination
  by (relation "measure (\<lambda>(arch64, src, iend, ip, len). nat (iend - int ip))") auto

declare match_ext.simps [simp del]

section \<open>One round of the main loop\<close>

datatype lz4_ctl =
    Continue nat nat bytes   \<comment> \<open>back to the loop test with \<open>ip\<close>, \<open>op\<close>\<close>
  | Finish nat bytes         \<comment> \<open>\<open>break\<close> with \<open>op\<close>\<close>
  | Output_error nat bytes   \<comment> \<open>\<open>goto _output_error\<close> with \<open>ip\<close>\<close>
  | Fault                    \<comment> \<open>an access outside an object\<close>

text \<open>
  The prologue of a match copy: the first \<open>STEPSIZE\<close> bytes (fewer on a 32-bit build),
  after which \<open>op - ref\<close> is a multiple of the offset that a wide copy may use.
\<close>

definition match_start ::
    "bool \<Rightarrow> nat \<Rightarrow> nat \<Rightarrow> bytes \<Rightarrow> (nat \<times> nat \<times> bytes) option" where
  "match_start arch64 ref op dst =
     (if op - ref < STEPSIZE arch64 then
        (let dec64 = (if arch64 then dec64table ! (op - ref) else 0);
             dec32 = dec32table ! (op - ref)
         in case byte_copy ref op (op + 4) dst of
              None \<Rightarrow> None
            | Some dst1 \<Rightarrow>
                (case LZ4_COPYSTEP 4 None (ref + 4 - dec32) (op + 4) dst1 of
                   None \<Rightarrow> None
                 | Some (_, _, dst2) \<Rightarrow>
                     Some (nat (int (ref + 4 - dec32) - dec64),
                           op + 4 + (STEPSIZE arch64 - 4), dst2)))
      else LZ4_COPYSTEP (STEPSIZE arch64) None ref op dst)"

text \<open>The copy of the rest of a match, up to \<open>cpy\<close>.\<close>

definition match_rest ::
    "bool \<Rightarrow> int \<Rightarrow> nat \<Rightarrow> nat \<Rightarrow> nat \<Rightarrow> nat \<Rightarrow> bytes \<Rightarrow> lz4_ctl" where
  "match_rest arch64 oend ip ref op cpy dst =
     (if int cpy > oend - int COPYLENGTH then
        (if int cpy > oend then Output_error ip dst
         else case LZ4_SECURECOPY arch64 None ref op (oend - int COPYLENGTH) dst of
             None \<Rightarrow> Fault
           | Some (ref', op', dst') \<Rightarrow>
               (case byte_copy ref' op' cpy dst' of
                  None \<Rightarrow> Fault
                | Some dst'' \<Rightarrow>
                    (if int cpy = oend then Output_error ip dst''
                     else Continue ip cpy dst'')))
      else case LZ4_SECURECOPY arch64 None ref op (int cpy) dst of
             None \<Rightarrow> Fault
           | Some (_, _, dst') \<Rightarrow> Continue ip cpy dst')"

definition lz4_match ::
    "bool \<Rightarrow> bytes \<Rightarrow> int \<Rightarrow> int \<Rightarrow> nat \<Rightarrow> nat \<Rightarrow> nat \<Rightarrow> bytes \<Rightarrow> lz4_ctl" where
  "lz4_match arch64 src iend oend token ip op dst =
     (case ld src ip 2 of
        None \<Rightarrow> Fault
      | Some v \<Rightarrow>
          (let off = unat (v ! 0) + 256 * unat (v ! 1); ip = ip + 2 in
           if int op - int off < 0 then Output_error ip dst
           else
             (let ref = op - off; len = token mod 16 in
              case (if len = ML_MASK then match_ext arch64 src iend ip len else Some (ip, len)) of
                None \<Rightarrow> Fault
              | Some (ip, len) \<Rightarrow>
                  (case match_start arch64 ref op dst of
                     None \<Rightarrow> Fault
                   | Some (ref, op, dst) \<Rightarrow>
                       match_rest arch64 oend ip ref op
                         (op + len - (STEPSIZE arch64 - 4)) dst))))"

definition lz4_step ::
    "bool \<Rightarrow> nat \<Rightarrow> bytes \<Rightarrow> int \<Rightarrow> int \<Rightarrow> nat \<Rightarrow> nat \<Rightarrow> bytes \<Rightarrow> lz4_ctl" where
  "lz4_step arch64 daddr src iend oend ip op dst =
     (case ld src ip 1 of
        None \<Rightarrow> Fault
      | Some v \<Rightarrow>
          (let token = unat (hd v); ip = ip + 1; len = token div 16 in
           case (if len = RUN_MASK then run_ext arch64 src iend 255 ip len else Some (ip, len)) of
             None \<Rightarrow> Fault
           | Some (ip, len) \<Rightarrow>
               (let cpy = op + len in
                if daddr + cpy \<ge> 2 ^ SIZE_BITS arch64 then Output_error ip dst
                else if int cpy > oend - int COPYLENGTH
                      \<or> int (ip + len) > iend - int COPYLENGTH then
                  (if int cpy > oend then Output_error ip dst
                   else if int (ip + len) \<noteq> iend then Output_error ip dst
                   else (case ld src ip len of
                           None \<Rightarrow> Fault
                         | Some lits \<Rightarrow>
                             (case st dst op lits of
                                None \<Rightarrow> Fault
                              | Some dst' \<Rightarrow> Finish (op + len) dst')))
                else (case LZ4_WILDCOPY arch64 (Some src) ip op (int cpy) dst of
                        None \<Rightarrow> Fault
                      | Some (_, _, dst') \<Rightarrow>
                          lz4_match arch64 src iend oend token (ip + len) cpy dst'))))"

section \<open>Progress\<close>

lemma run_ext_mono: "run_ext arch64 src iend s ip len = Some (ip', len') \<Longrightarrow> ip \<le> ip'"
proof (induction arch64 src iend s ip len rule: run_ext.induct)
  case (1 arch64 src iend s ip len)
  then show ?case
    by (subst (asm) (2) run_ext.simps) (fastforce split: if_splits option.splits)
qed

lemma match_ext_mono: "match_ext arch64 src iend ip len = Some (ip', len') \<Longrightarrow> ip \<le> ip'"
proof (induction arch64 src iend ip len rule: match_ext.induct)
  case (1 arch64 src iend ip len)
  then show ?case
    by (subst (asm) (2) match_ext.simps) (fastforce split: if_splits option.splits)
qed

lemma match_rest_Continue:
  "match_rest arch64 oend ip ref op cpy dst = Continue ip' op' dst' \<Longrightarrow> ip' = ip \<and> op' = cpy"
  by (auto simp: match_rest_def split: if_splits option.splits)

lemma lz4_match_progress:
  "lz4_match arch64 src iend oend token ip op dst = Continue ip' op' dst' \<Longrightarrow> ip < ip'"
  by (auto simp: lz4_match_def Let_def dest!: match_rest_Continue match_ext_mono
      split: if_splits option.splits)

lemma lz4_step_progress:
  assumes "lz4_step arch64 daddr src iend oend ip op dst = Continue ip' op' dst'"
  shows "ip < ip'"
  using assms
  by (fastforce simp: lz4_step_def Let_def dest!: lz4_match_progress run_ext_mono
      split: if_splits option.splits)

section \<open>The decoder\<close>

text \<open>The main loop; each round consumes at least the token, so it ends.\<close>

function lz4_loop ::
    "bool \<Rightarrow> nat \<Rightarrow> bytes \<Rightarrow> int \<Rightarrow> int \<Rightarrow> nat \<Rightarrow> nat \<Rightarrow> bytes \<Rightarrow> (int \<times> bytes) option" where
  "lz4_loop arch64 daddr src iend oend ip op dst =
     (if int ip < iend then
        (case lz4_step arch64 daddr src iend oend ip op dst of
           Continue ip' op' dst' \<Rightarrow> lz4_loop arch64 daddr src iend oend ip' op' dst'
         | Finish op' dst' \<Rightarrow> Some (int op', dst')
         | Output_error ip' dst' \<Rightarrow> Some (- int ip', dst')
         | Fault \<Rightarrow> None)
      else Some (int op, dst))"
  by pat_completeness auto
termination
  by (relation "measure (\<lambda>(arch64, daddr, src, iend, oend, ip, op, dst). nat (iend - int ip))")
    (auto dest!: lz4_step_progress)

declare lz4_loop.simps [simp del]

definition LZ4_uncompress_unknownOutputSize ::
    "bool \<Rightarrow> nat \<Rightarrow> bytes \<Rightarrow> bytes \<Rightarrow> int \<Rightarrow> int \<Rightarrow> (int \<times> bytes) option" where
  "LZ4_uncompress_unknownOutputSize arch64 daddr source dest isize maxOutputSize =
     lz4_loop arch64 daddr source isize maxOutputSize 0 0 dest"

end
