(* ===== verification/LZ4_Copy.thy ===== *)
theory LZ4_Copy
  imports LZ4
begin

text \<open>
  What the wide copies of the decoder do to memory. Two kinds of facts: the copy stays
  inside the destination and leaves the bytes past its end alone, whatever the contents;
  and it produces the bytes of an ideal stream \<open>F\<close> (the literals, or the periodic
  continuation of the output), whenever the copied-from bytes already follow \<open>F\<close>.
\<close>

section \<open>Bounds and frame\<close>

lemma LZ4_COPYSTEP_total:
  assumes "s + n \<le> length (copy_source b dst)" and "d + n \<le> length dst"
  obtains dst' where "LZ4_COPYSTEP n b s d dst = Some (s + n, d + n, dst')"
    and "agree_outside d (d + n) dst dst'"
  using assms st_agree_outside[of dst d "take n (drop s (copy_source b dst))"]
  by (simp add: LZ4_COPYSTEP_def mem_simps)

lemma LZ4_COPYSTEP_nth:
  assumes "LZ4_COPYSTEP n b s d dst = Some (s', d', dst')" and "d \<le> j" and "j < d + n"
  shows "dst' ! j = copy_source b dst ! (s + (j - d))"
  using assms
  by (auto simp: LZ4_COPYSTEP_def ld_def st_def nth_append min_def
      split: if_splits option.splits)

lemma LZ4_WILDCOPY_unfold64:
  "LZ4_WILDCOPY True b s d e dst =
     (case LZ4_COPYSTEP 8 b s d dst of
        None \<Rightarrow> None
      | Some (s', d', dst') \<Rightarrow>
          (if int d' < e then LZ4_WILDCOPY True b s' d' e dst' else Some (s', d', dst')))"
  by (subst LZ4_WILDCOPY.simps) (simp add: LZ4_COPYPACKET_def)

text \<open>
  A wild copy from \<open>d\<close> to \<open>e\<close> writes whole packets, so it may pass \<open>e\<close>, by seven bytes
  at most (by eight when \<open>d = e\<close>).
\<close>

definition wild_room :: "bytes option \<Rightarrow> nat \<Rightarrow> nat \<Rightarrow> int \<Rightarrow> bytes \<Rightarrow> bool" where
  "wild_room b s d e dst \<longleftrightarrow>
     int d \<le> e \<and> e + 8 \<le> int (length dst) \<and>
     (case b of Some src \<Rightarrow> int s + (e - int d) + 8 \<le> int (length src) | None \<Rightarrow> s \<le> d)"

lemma wild_room_next:
  assumes "wild_room b s d e dst" and "int (d + 8) < e" and "length dst' = length dst"
  shows "wild_room b (s + 8) (d + 8) e dst'"
  using assms by (auto simp: wild_room_def split: option.splits)

lemma LZ4_WILDCOPY_total:
  assumes "wild_room b s d e dst"
  shows "\<exists>s' d' dst'. LZ4_WILDCOPY True b s d e dst = Some (s', d', dst')
    \<and> agree_outside d (nat (e + 8)) dst dst'
    \<and> d' = d + (s' - s) \<and> s \<le> s' \<and> e \<le> int d' \<and> int d' \<le> e + 8"
  using assms
proof (induction "nat (e - int d)" arbitrary: s d dst rule: less_induct)
  case less
  have room: "s + 8 \<le> length (copy_source b dst)" "d + 8 \<le> length dst"
    using less.prems by (auto simp: wild_room_def copy_source_def split: option.splits)
  then obtain dst1 where c: "LZ4_COPYSTEP 8 b s d dst = Some (s + 8, d + 8, dst1)"
    and "agree_outside d (d + 8) dst dst1"
    by (rule LZ4_COPYSTEP_total)
  moreover have "d + 8 \<le> nat (e + 8)" using less.prems by (auto simp: wild_room_def)
  ultimately have a: "agree_outside d (nat (e + 8)) dst dst1"
    by (blast intro: agree_outside_mono)
  show ?case
  proof (cases "int (d + 8) < e")
    case True
    then have "nat (e - int (d + 8)) < nat (e - int d)" by simp
    moreover have "wild_room b (s + 8) (d + 8) e dst1"
      using less.prems True a by (blast intro: wild_room_next agree_outside_length)
    ultimately obtain s' d' dst' where r:
      "LZ4_WILDCOPY True b (s + 8) (d + 8) e dst1 = Some (s', d', dst')"
      "agree_outside (d + 8) (nat (e + 8)) dst1 dst'"
      "d' = d + 8 + (s' - (s + 8))" "s + 8 \<le> s'" "e \<le> int d'" "int d' \<le> e + 8"
      using less.hyps by blast
    then have "agree_outside d (nat (e + 8)) dst dst'"
      using a by (blast intro: agree_outside_trans agree_outside_mono le_add1)
    then show ?thesis
      using True c r by (subst LZ4_WILDCOPY_unfold64) auto
  next
    case False
    then show ?thesis
      using c a less.prems by (subst LZ4_WILDCOPY_unfold64) (auto simp: wild_room_def)
  qed
qed

lemma byte_copy_step:
  assumes "ref < length dst" and "op < cpy" and "cpy \<le> length dst"
  obtains dst1 where "byte_copy ref op cpy dst = byte_copy (ref + 1) (op + 1) cpy dst1"
    and "agree_outside op (op + 1) dst dst1" and "dst1 ! op = dst ! ref"
proof -
  let ?d = "take op dst @ take 1 (drop ref dst) @ drop (op + 1) dst"
  have len: "length (take 1 (drop ref dst)) = 1" using assms by simp
  have s: "st dst op (take 1 (drop ref dst)) = Some ?d" using assms len by (simp add: st_def)
  then have "byte_copy ref op cpy dst = byte_copy (ref + 1) (op + 1) cpy ?d"
    using assms len by (subst byte_copy.simps) (simp add: mem_simps)
  moreover have "agree_outside op (op + 1) dst ?d" using st_agree_outside[OF s] len by simp
  moreover have "?d ! op = dst ! ref" using st_nth[OF s, of op] assms len by simp
  ultimately show thesis by (rule that)
qed

lemma byte_copy_total:
  assumes "ref \<le> op" and "cpy \<le> length dst"
  shows "\<exists>dst'. byte_copy ref op cpy dst = Some dst' \<and> agree_outside op cpy dst dst'"
  using assms
proof (induction "cpy - op" arbitrary: ref op dst)
  case 0
  then show ?case by (subst byte_copy.simps) simp
next
  case (Suc n)
  then have lt: "op < cpy" "ref < length dst" by simp_all
  with Suc.prems obtain dst1 where s:
    "byte_copy ref op cpy dst = byte_copy (ref + 1) (op + 1) cpy dst1"
    "agree_outside op (op + 1) dst dst1"
    using byte_copy_step by metis
  then have "length dst1 = length dst" by (simp add: agree_outside_length)
  moreover have n: "n = cpy - (op + 1)" using Suc.hyps(2) by simp
  ultimately obtain dst' where r: "byte_copy (ref + 1) (op + 1) cpy dst1 = Some dst'"
    "agree_outside (op + 1) cpy dst1 dst'"
    using Suc.hyps(1)[OF n, of "ref + 1" dst1] Suc.prems by auto
  have "agree_outside op cpy dst dst'"
    by (rule agree_outside_trans[OF agree_outside_mono[OF s(2)] agree_outside_mono[OF r(2)]])
      (use lt in auto)
  then show ?case using s r by simp
qed

section \<open>Contents\<close>

text \<open>\<open>follows F d dst\<close>: the first \<open>d\<close> bytes of \<open>dst\<close> are those of the ideal stream.\<close>

definition follows :: "(nat \<Rightarrow> u8) \<Rightarrow> nat \<Rightarrow> bytes \<Rightarrow> bool" where
  "follows F d dst \<longleftrightarrow> (\<forall>j < d. dst ! j = F j)"

text \<open>
  \<open>feeds b F s d\<close>: reading at \<open>s\<close> gives the stream at \<open>d\<close>, from here on. Within the
  output this needs a distance of a whole packet, and a period of \<open>F\<close>.
\<close>

definition feeds :: "bytes option \<Rightarrow> (nat \<Rightarrow> u8) \<Rightarrow> nat \<Rightarrow> nat \<Rightarrow> bool" where
  "feeds b F s d \<longleftrightarrow>
     (case b of
        Some src \<Rightarrow> \<forall>i. s + i < length src \<longrightarrow> src ! (s + i) = F (d + i)
      | None \<Rightarrow> s + 8 \<le> d \<and> (\<forall>i. F (s + i) = F (d + i)))"

lemma feeds_next: "feeds b F s d \<Longrightarrow> feeds b F (s + n) (d + n)"
  unfolding feeds_def by (cases b) (auto simp: add.assoc)

lemma follows_agree:
  "follows F d dst \<Longrightarrow> agree_outside lo hi dst dst' \<Longrightarrow> d \<le> lo \<Longrightarrow> d \<le> length dst
   \<Longrightarrow> follows F d dst'"
  by (auto simp: follows_def agree_outside_def)

lemma LZ4_COPYSTEP_follows:
  assumes "LZ4_COPYSTEP n b s d dst = Some (s', d', dst')"
    and "agree_outside d (d + n) dst dst'" and "d \<le> length dst" and "follows F d dst"
    and "\<forall>i < n. copy_source b dst ! (s + i) = F (d + i)"
  shows "follows F (d + n) dst'"
  unfolding follows_def
proof (intro allI impI)
  fix j assume j: "j < d + n"
  show "dst' ! j = F j"
  proof (cases "j < d")
    case True
    then show ?thesis
      using assms follows_agree[of F d dst d "d + n" dst'] by (simp add: follows_def)
  next
    case False
    then show ?thesis
      using LZ4_COPYSTEP_nth[OF assms(1), of j] assms(5) j by (auto dest: spec[of _ "j - d"])
  qed
qed

lemma LZ4_WILDCOPY_follows:
  assumes "wild_room b s d e dst" and "follows F d dst" and "feeds b F s d"
    and "LZ4_WILDCOPY True b s d e dst = Some (s', d', dst')"
  shows "follows F d' dst' \<and> feeds b F s' d'"
  using assms
proof (induction "nat (e - int d)" arbitrary: s d dst rule: less_induct)
  case less
  have room: "s + 8 \<le> length (copy_source b dst)" "d + 8 \<le> length dst"
    using less.prems(1) by (auto simp: wild_room_def copy_source_def split: option.splits)
  then obtain dst1 where c: "LZ4_COPYSTEP 8 b s d dst = Some (s + 8, d + 8, dst1)"
    and a: "agree_outside d (d + 8) dst dst1"
    by (rule LZ4_COPYSTEP_total)
  have "\<forall>i < 8. copy_source b dst ! (s + i) = F (d + i)"
  proof (cases b)
    case None
    then show ?thesis
      using less.prems(2,3) by (auto simp: copy_source_def feeds_def follows_def)
  next
    case (Some src)
    then show ?thesis
      using less.prems(3) room by (auto simp: copy_source_def feeds_def)
  qed
  then have f: "follows F (d + 8) dst1"
    using LZ4_COPYSTEP_follows[OF c a] less.prems(2) room by simp
  have g: "feeds b F (s + 8) (d + 8)" using less.prems(3) by (rule feeds_next)
  show ?case
  proof (cases "int (d + 8) < e")
    case True
    then have "nat (e - int (d + 8)) < nat (e - int d)" by simp
    moreover have "wild_room b (s + 8) (d + 8) e dst1"
      using less.prems(1) True a by (blast intro: wild_room_next agree_outside_length)
    moreover have "LZ4_WILDCOPY True b (s + 8) (d + 8) e dst1 = Some (s', d', dst')"
      using less.prems(4) True c by (subst (asm) LZ4_WILDCOPY_unfold64) simp
    ultimately show ?thesis using f g less.hyps by blast
  next
    case False
    then have "s' = s + 8 \<and> d' = d + 8 \<and> dst' = dst1"
      using less.prems(4) c by (subst (asm) LZ4_WILDCOPY_unfold64) simp
    with f g show ?thesis by simp
  qed
qed

lemma byte_copy_follows:
  assumes "ref < op" and "cpy \<le> length dst" and "follows F op dst"
    and "\<forall>i. op + i < cpy \<longrightarrow> F (ref + i) = F (op + i)"
    and "byte_copy ref op cpy dst = Some dst'"
  shows "follows F (max op cpy) dst'"
  using assms
proof (induction "cpy - op" arbitrary: ref op dst)
  case 0
  then show ?case by (subst (asm) byte_copy.simps) (simp add: max_def)
next
  case (Suc n)
  then have lt: "op < cpy" "ref < length dst" by simp_all
  with Suc.prems obtain dst1 where s:
    "byte_copy ref op cpy dst = byte_copy (ref + 1) (op + 1) cpy dst1"
    "agree_outside op (op + 1) dst dst1" "dst1 ! op = dst ! ref"
    using byte_copy_step by metis
  have "follows F op dst1"
    using Suc.prems(3) s(2) by (rule follows_agree) (use lt Suc.prems in auto)
  moreover have "dst ! ref = F op"
    using Suc.prems(1,3,4) lt by (auto simp: follows_def dest: spec[of _ 0])
  ultimately have f: "follows F (op + 1) dst1" using s(3) by (auto simp: follows_def less_Suc_eq)
  have "\<forall>i. op + 1 + i < cpy \<longrightarrow> F (ref + 1 + i) = F (op + 1 + i)"
    using Suc.prems(4) by (auto dest: spec[of _ "Suc _"])
  moreover have n: "n = cpy - (op + 1)" using Suc.hyps(2) by simp
  ultimately have "follows F (max (op + 1) cpy) dst'"
    using Suc.hyps(1)[OF n, of "ref + 1" dst1] Suc.prems f s
    by (simp add: agree_outside_length)
  then show ?case using lt by (simp add: max_def split: if_splits)
qed

end
