(* ===== verification/LZ4_Match.thy ===== *)
theory LZ4_Match
  imports LZ4_Copy
begin

text \<open>
  The match copy. Its ideal stream is the output so far, continued periodically with the
  offset as the period, which is what copying byte by byte produces. The two tables of
  the decoder move \<open>ref\<close> so that \<open>op - ref\<close> becomes a multiple of the offset of at
  least a packet; from there wide copies are as good as single bytes.
\<close>

section \<open>The periodic stream\<close>

definition periodic :: "bytes \<Rightarrow> nat \<Rightarrow> nat \<Rightarrow> nat \<Rightarrow> u8" where
  "periodic dst p k j = (if j < p then dst ! j else dst ! (p - k + (j - p) mod k))"

lemma periodic_below: "j < p \<Longrightarrow> periodic dst p k j = dst ! j"
  by (simp add: periodic_def)

lemma periodic_shift:
  assumes "1 \<le> k" and "k \<le> p" and "p - k \<le> j"
  shows "periodic dst p k (j + k) = periodic dst p k j"
proof (cases "j < p")
  case True
  then have "(j + k - p) mod k = j + k - p" using assms by simp
  moreover have "p - k + (j + k - p) = j" using assms by simp
  moreover have "\<not> j + k < p" using assms by simp
  ultimately show ?thesis using True by (simp add: periodic_def)
next
  case False
  then have "j + k - p = (j - p) + k" by simp
  then have "(j + k - p) mod k = (j - p) mod k" by (metis mod_add_self2)
  then show ?thesis using False by (simp add: periodic_def)
qed

lemma periodic_shift_mult:
  assumes "1 \<le> k" and "k \<le> p" and "p - k \<le> j"
  shows "periodic dst p k (j + m * k) = periodic dst p k j"
proof (induction m)
  case (Suc m)
  have "periodic dst p k (j + Suc m * k) = periodic dst p k ((j + m * k) + k)"
    by (simp add: algebra_simps)
  also have "\<dots> = periodic dst p k (j + m * k)" using assms by (intro periodic_shift) auto
  finally show ?case using Suc by simp
qed simp

lemma feeds_periodic:
  assumes "1 \<le> k" and "k \<le> p" and "p - k \<le> s" and "d = s + m * k" and "s + 8 \<le> d"
  shows "feeds None (periodic dst p k) s d"
  using assms periodic_shift_mult[of k p "s + i" dst m for i]
  by (simp add: feeds_def add.assoc add.commute add.left_commute)

section \<open>The prologue\<close>

text \<open>The distances the tables aim at.\<close>

definition match_dist :: "nat \<Rightarrow> nat" where
  "match_dist k = (if k < 8 then [4, 8, 8, 9, 8, 10, 12, 14] ! k else k)"

definition match_mult :: "nat \<Rightarrow> nat" where
  "match_mult k = (if k < 8 then [0, 8, 4, 3, 2, 2, 2, 2] ! k else 1)"

lemma less_8_cases:
  fixes k :: nat
  assumes "k < 8"
  obtains "k = 0" | "k = 1" | "k = 2" | "k = 3" | "k = 4" | "k = 5" | "k = 6" | "k = 7"
  using assms by linarith

lemma match_dist_mult: "1 \<le> k \<Longrightarrow> match_dist k = match_mult k * k"
proof (cases "k < 8")
  case True
  assume "1 \<le> k"
  with True show ?thesis
    by (elim less_8_cases) (simp_all add: match_dist_def match_mult_def)
qed (simp add: match_dist_def match_mult_def)

lemma match_dist_ge: "1 \<le> k \<Longrightarrow> 8 \<le> match_dist k" "4 \<le> match_dist k" "k \<le> match_dist k"
  by (cases "k < 8"; (elim less_8_cases)?; simp add: match_dist_def)+

text \<open>What the two tables do to \<open>ref\<close>, for every small offset.\<close>

lemma dec_tables:
  assumes "k < 8"
  shows "dec32table ! k \<le> 4" and "4 \<le> k + dec32table ! k \<or> k = 0"
    and "int k + int (dec32table ! k) + dec64table ! k + 4 = int (match_dist k)"
    and "\<exists>m. k + dec32table ! k = m * k"
  using assms
  by (elim less_8_cases; simp add: dec32table_def dec64table_def match_dist_def; presburger?)+

lemma match_start_total:
  assumes "k \<le> p" and "p + 8 \<le> length dst"
  shows "\<exists>dst'. match_start True (p - k) p dst = Some (p + 8 - match_dist k, p + 8, dst')
    \<and> agree_outside p (p + 8) dst dst'"
proof (cases "k < 8")
  case False
  then have "p - k + 8 \<le> length (copy_source None dst)"
    using assms by (simp add: copy_source_def)
  then obtain dst' where "LZ4_COPYSTEP 8 None (p - k) p dst = Some (p - k + 8, p + 8, dst')"
    "agree_outside p (p + 8) dst dst'"
    using assms by (rule_tac LZ4_COPYSTEP_total[of "p - k" 8 None dst p]) auto
  then show ?thesis
    using False assms by (simp add: match_start_def STEPSIZE_def match_dist_def)
next
  case True
  note t = dec_tables[OF True]
  obtain dst1 where b: "byte_copy (p - k) p (p + 4) dst = Some dst1"
    and a1: "agree_outside p (p + 4) dst dst1"
    using byte_copy_total[of "p - k" p "p + 4" dst] assms by auto
  have len: "length dst1 = length dst" using a1 by (rule agree_outside_length)
  let ?s = "p - k + 4 - dec32table ! k"
  have "?s + 4 \<le> length (copy_source None dst1)"
    using assms len by (simp add: copy_source_def)
  moreover have "p + 4 + 4 \<le> length dst1" using assms len by simp
  ultimately obtain dst2 where
    c: "LZ4_COPYSTEP 4 None ?s (p + 4) dst1 = Some (?s + 4, p + 4 + 4, dst2)"
    and a2: "agree_outside (p + 4) (p + 4 + 4) dst1 dst2"
    by (rule LZ4_COPYSTEP_total)
  have "int ?s = int p - int k + 4 - int (dec32table ! k)" using assms t(1) by simp
  then have r: "nat (int ?s - dec64table ! k) = p + 8 - match_dist k"
    using t(3) by linarith
  have "match_start True (p - k) p dst = Some (p + 8 - match_dist k, p + 8, dst2)"
    using True assms b c r by (simp add: match_start_def STEPSIZE_def Let_def)
  moreover have "agree_outside p (p + 8) dst dst2"
    by (rule agree_outside_trans[OF agree_outside_mono[OF a1] agree_outside_mono[OF a2]]) auto
  ultimately show ?thesis by blast
qed

lemma match_start_follows:
  assumes "1 \<le> k" and "k \<le> p" and "p + 8 \<le> length dst"
    and "match_start True (p - k) p dst = Some (r, p', dst')"
  shows "follows (periodic dst p k) (p + 8) dst'"
proof -
  let ?F = "periodic dst p k"
  have f0: "follows ?F p dst" by (simp add: follows_def periodic_below)
  have per: "?F (p - k + n + i) = ?F (p + n + i)" for n i
    using periodic_shift[of k p "p - k + n + i" dst] assms
    by (simp add: add.assoc add.commute add.left_commute)
  show ?thesis
  proof (cases "k < 8")
    case False
    then have c: "LZ4_COPYSTEP 8 None (p - k) p dst = Some (r, p', dst')"
      using assms(2,4) by (simp add: match_start_def STEPSIZE_def)
    moreover have "agree_outside p (p + 8) dst dst'"
      using match_start_total[of k p dst] assms by auto
    moreover have "copy_source None dst ! (p - k + i) = ?F (p + i)" if "i < 8" for i
    proof -
      have "copy_source None dst ! (p - k + i) = ?F (p - k + i)"
        using that False assms(2) by (simp add: copy_source_def periodic_below)
      then show ?thesis using per[of 0 i] by simp
    qed
    ultimately show ?thesis using LZ4_COPYSTEP_follows f0 assms(3) by simp
  next
    case True
    note t = dec_tables[OF True]
    let ?s = "p - k + 4 - dec32table ! k"
    obtain dst1 where b: "byte_copy (p - k) p (p + 4) dst = Some dst1"
      and a1: "agree_outside p (p + 4) dst dst1"
      using byte_copy_total[of "p - k" p "p + 4" dst] assms by auto
    have f1: "follows ?F (p + 4) dst1"
      using byte_copy_follows[OF _ _ f0 _ b] per[of 0] assms by simp
    have len: "length dst1 = length dst" using a1 by (rule agree_outside_length)
    obtain s' d' where c: "LZ4_COPYSTEP 4 None ?s (p + 4) dst1 = Some (s', d', dst')"
      using assms(2,4) True b
      by (auto simp: match_start_def STEPSIZE_def Let_def split: option.splits)
    moreover have "agree_outside (p + 4) (p + 4 + 4) dst1 dst'"
    proof (rule LZ4_COPYSTEP_total[of ?s 4 None dst1 "p + 4"])
      show "?s + 4 \<le> length (copy_source None dst1)"
        using assms len by (simp add: copy_source_def)
      show "p + 4 + 4 \<le> length dst1" using assms len by simp
    qed (use c in auto)
    moreover have "\<forall>i < 4. copy_source None dst1 ! (?s + i) = ?F (p + 4 + i)"
    proof (intro allI impI)
      fix i :: nat assume i: "i < 4"
      obtain m where m: "k + dec32table ! k = m * k" using t(4) by auto
      have lt: "?s + i < p + 4" using i t(1,2) assms(1,2) by auto
      have eq: "?s + i + m * k = p + 4 + i"
        unfolding m[symmetric] using t(1,2) assms(1,2) by simp
      have "copy_source None dst1 ! (?s + i) = ?F (?s + i)"
        using f1 lt by (simp add: copy_source_def follows_def)
      also have "\<dots> = ?F (p + 4 + i)"
        using periodic_shift_mult[of k p "?s + i" dst m] eq t(1) assms(1,2) by simp
      finally show "copy_source None dst1 ! (?s + i) = ?F (p + 4 + i)" .
    qed
    ultimately have "follows ?F (p + 4 + 4) dst'"
      using LZ4_COPYSTEP_follows[of 4 None ?s "p + 4" dst1 s' d' dst' ?F] f1 len assms(3) by simp
    then show ?thesis by (simp add: add.commute)
  qed
qed

end
