(* ===== verification/LZ4_Ref.thy ===== *)
theory LZ4_Ref
  imports LZ4_Match
begin

text \<open>
  The abstract specification of an LZ4 block, over lists and one byte at a time: no
  buffers, no wide copies, no tables. \<open>lz4_format\<close> reads a block by the rules of the
  format and says what is wrong with one that breaks them; \<open>lz4_encode\<close> writes a block
  from its sequences. Between them and the code stands \<open>lz4_lax\<close>, the byte-wise reading
  that the code's control flow amounts to: it takes the end of the input for the end of
  a length, and a match for the end of a block. \<open>lz4_lax_format\<close> says what that
  leniency is: \<open>lz4_lax\<close> is \<open>lz4_format\<close> with two of its complaints ignored.
\<close>

datatype ref_result = Out bytes | Zero_offset | Malformed

datatype ref_ctl = Stop ref_result | More bytes bytes

section \<open>The lenient reading\<close>

fun ref_ext :: "nat \<Rightarrow> bytes \<Rightarrow> nat \<times> bytes" where
  "ref_ext n [] = (n, [])"
| "ref_ext n (b # bs) = (if unat b = 255 then ref_ext (n + 255) bs else (n + unat b, bs))"

definition ref_len :: "nat \<Rightarrow> bytes \<Rightarrow> nat \<times> bytes" where
  "ref_len n inp = (if n = 15 then ref_ext n inp else (n, inp))"

fun match_bytes :: "nat \<Rightarrow> nat \<Rightarrow> bytes \<Rightarrow> bytes" where
  "match_bytes off 0 out = out"
| "match_bytes off (Suc n) out =
     (let o' = match_bytes off n out in o' @ [o' ! (length o' - off)])"

definition ref_match :: "nat \<Rightarrow> bytes \<Rightarrow> bytes \<Rightarrow> ref_ctl" where
  "ref_match token inp out =
     (case inp of
        lo # hi # inp' \<Rightarrow>
          (let off = unat lo + 256 * unat hi in
           if length out < off then Stop Malformed
           else if off = 0 then Stop Zero_offset
           else (case ref_len (token mod 16) inp' of
                   (n, inp'') \<Rightarrow> More inp'' (match_bytes off (n + 4) out)))
      | _ \<Rightarrow> Stop Malformed)"

definition ref_seq :: "bytes \<Rightarrow> bytes \<Rightarrow> ref_ctl" where
  "ref_seq inp out =
     (case inp of
        [] \<Rightarrow> Stop (Out out)
      | t # inp' \<Rightarrow>
          (case ref_len (unat t div 16) inp' of
             (n, inp'') \<Rightarrow>
               (if length inp'' < n then Stop Malformed
                else if length inp'' = n then Stop (Out (out @ inp''))
                else ref_match (unat t) (drop n inp'') (out @ take n inp''))))"

lemma ref_ext_length: "ref_ext n inp = (n', inp') \<Longrightarrow> length inp' \<le> length inp"
  by (induction n inp rule: ref_ext.induct) (fastforce split: if_splits)+

lemma ref_len_length: "ref_len n inp = (n', inp') \<Longrightarrow> length inp' \<le> length inp"
  by (auto simp: ref_len_def dest: ref_ext_length split: if_splits)

lemma ref_match_shorter: "ref_match t inp out = More inp' out' \<Longrightarrow> length inp' < length inp"
  by (auto simp: ref_match_def Let_def dest!: ref_len_length
      split: list.splits if_splits prod.splits)

lemma ref_seq_shorter: "ref_seq inp out = More inp' out' \<Longrightarrow> length inp' < length inp"
  by (fastforce simp: ref_seq_def dest!: ref_len_length ref_match_shorter
      split: list.splits if_splits prod.splits)

function lz4_lax :: "bytes \<Rightarrow> bytes \<Rightarrow> ref_result" where
  "lz4_lax inp out =
     (case ref_seq inp out of Stop r \<Rightarrow> r | More inp' out' \<Rightarrow> lz4_lax inp' out')"
  by pat_completeness auto
termination
  by (relation "measure (\<lambda>(inp, out). length inp)") (auto dest: ref_seq_shorter)

declare lz4_lax.simps [simp del]

section \<open>The format\<close>

text \<open>What a sequence of bytes is as an LZ4 block: a block that stands for these bytes; one
  that stops in the middle of a match length (the bytes are those of the length so far);
  one that has no last run of literals (it is empty, or its last sequence has a match);
  one with a match at distance zero; or none at all: literals, a length of literals or
  an offset are cut off, or an offset lies before the output.\<close>

datatype block_view =
    Block bytes | Cut_length bytes | No_last_literals bytes | No_distance | No_block

fun fmt_ext :: "nat \<Rightarrow> bytes \<Rightarrow> (nat \<times> bytes) option" where
  "fmt_ext n [] = None"
| "fmt_ext n (b # bs) = (if unat b = 255 then fmt_ext (n + 255) bs else Some (n + unat b, bs))"

definition fmt_len :: "nat \<Rightarrow> bytes \<Rightarrow> (nat \<times> bytes) option" where
  "fmt_len n inp = (if n = 15 then fmt_ext n inp else Some (n, inp))"

lemma fmt_ext_length: "fmt_ext n inp = Some (n', inp') \<Longrightarrow> length inp' \<le> length inp"
  by (induction n inp rule: fmt_ext.induct) (fastforce split: if_splits)+

lemma fmt_len_length: "fmt_len n inp = Some (n', inp') \<Longrightarrow> length inp' \<le> length inp"
  by (auto simp: fmt_len_def dest: fmt_ext_length split: if_splits)

datatype fmt_ctl = Done block_view | Next bytes bytes

definition fmt_match :: "nat \<Rightarrow> bytes \<Rightarrow> bytes \<Rightarrow> fmt_ctl" where
  "fmt_match token inp out =
     (case inp of
        lo # hi # inp' \<Rightarrow>
          (let dist = unat lo + 256 * unat hi in
           if length out < dist then Done No_block
           else if dist = 0 then Done No_distance
           else (case fmt_len (token mod 16) inp' of
                   None \<Rightarrow> Done (Cut_length (match_bytes dist (15 + 255 * length inp' + 4) out))
                 | Some (n, inp'') \<Rightarrow> Next inp'' (match_bytes dist (n + 4) out)))
      | _ \<Rightarrow> Done No_block)"

definition fmt_seq :: "bytes \<Rightarrow> bytes \<Rightarrow> fmt_ctl" where
  "fmt_seq inp out =
     (case inp of
        [] \<Rightarrow> Done (No_last_literals out)
      | t # inp' \<Rightarrow>
          (case fmt_len (unat t div 16) inp' of
             None \<Rightarrow> Done No_block
           | Some (n, inp'') \<Rightarrow>
               (if length inp'' < n then Done No_block
                else if length inp'' = n then Done (Block (out @ inp''))
                else fmt_match (unat t) (drop n inp'') (out @ take n inp''))))"

lemma fmt_match_shorter: "fmt_match t inp out = Next inp' out' \<Longrightarrow> length inp' < length inp"
  by (auto simp: fmt_match_def Let_def dest!: fmt_len_length
      split: list.splits if_splits option.splits)

lemma fmt_seq_shorter: "fmt_seq inp out = Next inp' out' \<Longrightarrow> length inp' < length inp"
  by (fastforce simp: fmt_seq_def dest!: fmt_len_length fmt_match_shorter
      split: list.splits if_splits option.splits)

function lz4_format :: "bytes \<Rightarrow> bytes \<Rightarrow> block_view" where
  "lz4_format inp out =
     (case fmt_seq inp out of Done v \<Rightarrow> v | Next inp' out' \<Rightarrow> lz4_format inp' out')"
  by pat_completeness auto
termination
  by (relation "measure (\<lambda>(inp, out). length inp)") (auto dest: fmt_seq_shorter)

declare lz4_format.simps [simp del]

text \<open>How the lenient reading judges what the format says of a block.\<close>

fun lax_view :: "block_view \<Rightarrow> ref_result" where
  "lax_view (Block out) = Out out"
| "lax_view (Cut_length out) = Out out"
| "lax_view (No_last_literals out) = Out out"
| "lax_view No_distance = Zero_offset"
| "lax_view No_block = Malformed"

lemma fmt_ext_None: "fmt_ext n inp = None \<Longrightarrow> ref_ext n inp = (n + 255 * length inp, [])"
  by (induction n inp rule: fmt_ext.induct) (auto split: if_splits)

lemma fmt_ext_Some: "fmt_ext n inp = Some x \<Longrightarrow> ref_ext n inp = x"
  by (induction n inp rule: fmt_ext.induct) (auto split: if_splits)

lemma fmt_len_None: "fmt_len n inp = None \<Longrightarrow> n = 15 \<and> ref_len n inp = (15 + 255 * length inp, [])"
  by (auto simp: fmt_len_def ref_len_def dest: fmt_ext_None split: if_splits)

lemma fmt_len_Some: "fmt_len n inp = Some x \<Longrightarrow> ref_len n inp = x"
  by (auto simp: fmt_len_def ref_len_def dest: fmt_ext_Some split: if_splits)

lemma lz4_lax_Nil: "lz4_lax [] out = Out out"
  by (subst lz4_lax.simps) (simp add: ref_seq_def)

text \<open>One sequence: the two readings differ only where a match length is cut off, which ends
  the input for the lenient one.\<close>

definition ctl_agrees :: "fmt_ctl \<Rightarrow> ref_ctl \<Rightarrow> bool" where
  "ctl_agrees f r =
     (case f of
        Next inp out \<Rightarrow> r = More inp out
      | Done (Cut_length out) \<Rightarrow> r = More [] out
      | Done v \<Rightarrow> r = Stop (lax_view v))"

lemma fmt_match_agrees: "ctl_agrees (fmt_match t inp out) (ref_match t inp out)"
  by (auto simp: ctl_agrees_def fmt_match_def ref_match_def Let_def
      dest!: fmt_len_None fmt_len_Some split: list.splits option.splits)

lemma fmt_seq_agrees: "ctl_agrees (fmt_seq inp out) (ref_seq inp out)"
proof (cases inp)
  case Nil
  then show ?thesis by (simp add: ctl_agrees_def fmt_seq_def ref_seq_def)
next
  case (Cons t inp')
  show ?thesis
  proof (cases "fmt_len (unat t div 16) inp'")
    case None
    then have "ref_len (unat t div 16) inp' = (15 + 255 * length inp', [])"
      by (simp add: fmt_len_None)
    with None Cons show ?thesis by (simp add: ctl_agrees_def fmt_seq_def ref_seq_def)
  next
    case (Some p)
    then show ?thesis using fmt_len_Some[OF Some] Cons
      by (simp add: fmt_seq_def ref_seq_def fmt_match_agrees split: prod.splits)
        (auto simp: ctl_agrees_def)
  qed
qed

lemma lz4_lax_format: "lz4_lax inp out = lax_view (lz4_format inp out)"
proof (induction inp out rule: lz4_format.induct)
  case (1 inp out)
  have a: "ctl_agrees (fmt_seq inp out) (ref_seq inp out)" by (rule fmt_seq_agrees)
  show ?case
  proof (cases "fmt_seq inp out")
    case (Done v)
    with a show ?thesis
      by (cases v; subst lz4_lax.simps; subst lz4_format.simps)
        (simp_all add: ctl_agrees_def lz4_lax_Nil)
  next
    case (Next inp' out')
    with a 1[OF Next] show ?thesis
      by (subst lz4_lax.simps) (simp add: lz4_format.simps[of inp] ctl_agrees_def)
  qed
qed

lemma lax_view_OutD:
  "lz4_lax inp out = Out d \<Longrightarrow> lz4_format inp out \<in> {Block d, Cut_length d, No_last_literals d}"
  by (cases "lz4_format inp out") (simp_all add: lz4_lax_format)

lemma lax_view_Zero_offsetD: "lz4_lax inp out = Zero_offset \<Longrightarrow> lz4_format inp out = No_distance"
  by (cases "lz4_format inp out") (simp_all add: lz4_lax_format)

section \<open>Encoding\<close>

text \<open>A sequence: literals, then a match of \<open>sq_len\<close> bytes at distance \<open>sq_off\<close>.\<close>

record lz4_seq =
  sq_lits :: bytes
  sq_off :: nat
  sq_len :: nat

text \<open>A length of 15 or more is 15 in the token and the rest in bytes up to one below 255.\<close>

fun enc_ext :: "nat \<Rightarrow> bytes" where
  "enc_ext n = (if n < 255 then [byte_of n] else byte_of 255 # enc_ext (n - 255))"

declare enc_ext.simps [simp del]

definition enc_nib :: "nat \<Rightarrow> nat" where
  "enc_nib n = min 15 n"

definition enc_tail :: "nat \<Rightarrow> bytes" where
  "enc_tail n = (if n < 15 then [] else enc_ext (n - 15))"

definition enc_seq :: "lz4_seq \<Rightarrow> bytes" where
  "enc_seq s =
     byte_of (16 * enc_nib (length (sq_lits s)) + enc_nib (sq_len s - 4))
     # enc_tail (length (sq_lits s)) @ sq_lits s
     @ [byte_of (sq_off s mod 256), byte_of (sq_off s div 256)]
     @ enc_tail (sq_len s - 4)"

definition enc_last :: "bytes \<Rightarrow> bytes" where
  "enc_last lits = byte_of (16 * enc_nib (length lits)) # enc_tail (length lits) @ lits"

definition lz4_encode :: "lz4_seq list \<Rightarrow> bytes \<Rightarrow> bytes" where
  "lz4_encode seqs lits = concat (map enc_seq seqs) @ enc_last lits"

text \<open>What the sequences stand for, and when they make sense.\<close>

definition expand_seq :: "lz4_seq \<Rightarrow> bytes \<Rightarrow> bytes" where
  "expand_seq s out = match_bytes (sq_off s) (sq_len s) (out @ sq_lits s)"

definition lz4_expand :: "lz4_seq list \<Rightarrow> bytes \<Rightarrow> bytes \<Rightarrow> bytes" where
  "lz4_expand seqs lits out = fold expand_seq seqs out @ lits"

fun seqs_ok :: "lz4_seq list \<Rightarrow> bytes \<Rightarrow> bool" where
  "seqs_ok [] out = True"
| "seqs_ok (s # ss) out =
     (1 \<le> sq_off s \<and> sq_off s < 65536 \<and> sq_off s \<le> length out + length (sq_lits s)
      \<and> 4 \<le> sq_len s \<and> seqs_ok ss (expand_seq s out))"

section \<open>Round trip\<close>

lemma fmt_ext_enc_ext: "fmt_ext n (enc_ext m @ rest) = Some (n + m, rest)"
proof (induction m arbitrary: n rule: enc_ext.induct)
  case (1 m)
  show ?case
  proof (cases "m < 255")
    case True
    then show ?thesis by (subst enc_ext.simps) simp
  next
    case False
    with 1 show ?thesis by (subst enc_ext.simps) (simp add: algebra_simps)
  qed
qed

lemma fmt_len_enc: "fmt_len (enc_nib n) (enc_tail n @ rest) = Some (n, rest)"
  by (auto simp: fmt_len_def enc_nib_def enc_tail_def fmt_ext_enc_ext)

lemma token_parts:
  fixes a b :: nat
  assumes "a < 16" and "b < 16"
  shows "unat (byte_of (16 * a + b)) = 16 * a + b"
    and "(16 * a + b) div 16 = a" and "(16 * a + b) mod 16 = b"
  using assms by auto

lemma enc_nib_less: "enc_nib n < 16"
  by (simp add: enc_nib_def)

lemma enc_nib_mod [simp]: "enc_nib n mod 16 = enc_nib n"
  by (simp add: enc_nib_def)

lemma length_match_bytes: "length (match_bytes off n out) = length out + n"
  by (induction off n out rule: match_bytes.induct) (simp_all add: Let_def)

lemma fmt_seq_enc_seq:
  assumes "1 \<le> sq_off s" and "sq_off s < 65536"
    and "sq_off s \<le> length out + length (sq_lits s)" and "4 \<le> sq_len s"
  shows "fmt_seq (enc_seq s @ rest) out = Next rest (expand_seq s out)"
proof -
  let ?a = "enc_nib (length (sq_lits s))" and ?b = "enc_nib (sq_len s - 4)"
  note t = token_parts[OF enc_nib_less enc_nib_less]
  have l: "sq_len s - 4 + 4 = sq_len s" using assms(4) by simp
  have "fmt_seq (enc_seq s @ rest) out =
    fmt_match (16 * ?a + ?b)
      ([byte_of (sq_off s mod 256), byte_of (sq_off s div 256)] @ enc_tail (sq_len s - 4) @ rest)
      (out @ sq_lits s)"
    by (simp add: fmt_seq_def enc_seq_def t fmt_len_enc)
  also have "\<dots> = Next rest (expand_seq s out)"
    using assms l by (simp add: fmt_match_def t fmt_len_enc expand_seq_def)
  finally show ?thesis .
qed

lemma fmt_seq_enc_last: "fmt_seq (enc_last lits) out = Done (Block (out @ lits))"
  using token_parts[OF enc_nib_less, of 0 "length lits"] fmt_len_enc[of "length lits" lits]
  by (simp add: fmt_seq_def enc_last_def)

lemma lz4_format_encode:
  "seqs_ok seqs out \<Longrightarrow> lz4_format (lz4_encode seqs lits) out = Block (lz4_expand seqs lits out)"
proof (induction seqs arbitrary: out)
  case Nil
  then show ?case
    by (subst lz4_format.simps) (simp add: lz4_encode_def lz4_expand_def fmt_seq_enc_last)
next
  case (Cons s ss)
  then have "fmt_seq (lz4_encode (s # ss) lits) out = Next (lz4_encode ss lits) (expand_seq s out)"
    by (simp add: lz4_encode_def fmt_seq_enc_seq)
  with Cons show ?case by (subst lz4_format.simps) (simp add: lz4_expand_def)
qed

lemmas ref_len_enc = fmt_len_Some[OF fmt_len_enc]

lemma ref_seq_Next: "fmt_seq inp out = Next inp' out' \<Longrightarrow> ref_seq inp out = More inp' out'"
  using fmt_seq_agrees[of inp out] by (simp add: ctl_agrees_def)

lemma ref_seq_Block: "fmt_seq inp out = Done (Block d) \<Longrightarrow> ref_seq inp out = Stop (Out d)"
  using fmt_seq_agrees[of inp out] by (simp add: ctl_agrees_def)

lemmas ref_seq_enc_seq = ref_seq_Next[OF fmt_seq_enc_seq]
lemmas ref_seq_enc_last = ref_seq_Block[OF fmt_seq_enc_last]

lemma lz4_lax_encode:
  "seqs_ok seqs out \<Longrightarrow> lz4_lax (lz4_encode seqs lits) out = Out (lz4_expand seqs lits out)"
  by (simp add: lz4_lax_format lz4_format_encode)

section \<open>The periodic stream is the byte-wise match\<close>

lemma match_bytes_periodic:
  assumes "1 \<le> k" and "k \<le> length out"
  shows "match_bytes k n out = map (periodic out (length out) k) [0..<length out + n]"
proof (induction n)
  case 0
  have "map (periodic out (length out) k) [0..<length out] = map ((!) out) [0..<length out]"
    by (rule map_cong) (simp_all add: periodic_below)
  then show ?case by (simp add: map_nth)
next
  case (Suc n)
  have "periodic out (length out) k (length out + n) =
        periodic out (length out) k (length out + n - k)"
    using periodic_shift[of k "length out" "length out + n - k" out] assms by simp
  then show ?case using Suc assms by (simp add: Let_def)
qed

lemma periodic_take:
  assumes "1 \<le> k" and "k \<le> p"
  shows "periodic (take p dst) p k = periodic dst p k"
proof
  fix j
  have "(j - p) mod k < k" using assms(1) by simp
  then have "p - k + (j - p) mod k < p" using assms(2) by linarith
  then show "periodic (take p dst) p k j = periodic dst p k j" by (simp add: periodic_def)
qed

lemma follows_match_bytes:
  assumes "follows (periodic dst p k) (p + n) dst'" and "1 \<le> k" and "k \<le> p"
    and "p \<le> length dst" and "p + n \<le> length dst'"
  shows "take (p + n) dst' = match_bytes k n (take p dst)"
  using assms
  by (intro nth_equalityI) (auto simp: length_match_bytes match_bytes_periodic periodic_take follows_def)

end
