(* ===== verification/LZ4_Correct.thy ===== *)
theory LZ4_Correct
  imports LZ4_Ref
begin

text \<open>
  The decoder against its specification, for the 64-bit build. Every round of the main
  loop stays inside both objects, and either rejects the input, or does what one
  sequence of the lenient reading does; a round is rejected only for the reasons
  \<open>seq_fits\<close> excludes.
\<close>

section \<open>Length fields\<close>

lemma run_ext_ref:
  assumes "ip \<le> I" and "I \<le> length src" and "len + 255 * (I - ip) < 2 ^ 64"
  shows "\<exists>ip' n. run_ext True src (int I) 255 ip len = Some (ip', n) \<and> ip \<le> ip' \<and> ip' \<le> I
    \<and> ref_ext len (drop ip (take I src)) = (n, drop ip' (take I src))"
  using assms
proof (induction "I - ip" arbitrary: ip len)
  case 0
  then show ?case by (subst run_ext.simps) simp
next
  case (Suc m)
  then have lt: "ip < I" "ip < length src" by simp_all
  let ?b = "unat (src ! ip)"
  have b: "?b \<le> 255" using unat_u8_less[of "src ! ip"] by linarith
  have small: "len + ?b < 2 ^ 64" using b lt Suc.prems(3) by linarith
  have cur: "drop ip (take I src) = src ! ip # drop (Suc ip) (take I src)"
    using lt Suc.prems by (simp add: drop_take_Cons)
  have r: "run_ext True src (int I) 255 ip len = run_ext True src (int I) ?b (ip + 1) (len + ?b)"
    using lt small by (subst run_ext.simps) (simp add: ld_one[unfolded One_nat_def] SIZE_BITS_def)
  show ?case
  proof (cases "?b = 255")
    case True
    have "m = I - (ip + 1)" "ip + 1 \<le> I" using Suc.hyps(2) lt by simp_all
    moreover have "len + 255 + 255 * (I - (ip + 1)) < 2 ^ 64" using Suc.prems(3) lt by simp
    ultimately obtain ip' n where "run_ext True src (int I) 255 (ip + 1) (len + 255) = Some (ip', n)"
      "ip + 1 \<le> ip'" "ip' \<le> I"
      "ref_ext (len + 255) (drop (ip + 1) (take I src)) = (n, drop ip' (take I src))"
      using Suc.hyps(1)[of "ip + 1" "len + 255"] Suc.prems(2) by blast
    then show ?thesis using True r cur by auto
  next
    case False
    then have "run_ext True src (int I) ?b (ip + 1) (len + ?b) = Some (ip + 1, len + ?b)"
      by (subst run_ext.simps) simp
    then show ?thesis using False r cur lt by auto
  qed
qed

lemma match_ext_ref:
  assumes "ip \<le> I" and "I \<le> length src" and "len + 255 * (I - ip) < 2 ^ 64"
  shows "\<exists>ip' n. match_ext True src (int I) ip len = Some (ip', n) \<and> ip \<le> ip' \<and> ip' \<le> I
    \<and> ref_ext len (drop ip (take I src)) = (n, drop ip' (take I src))"
  using assms
proof (induction "I - ip" arbitrary: ip len)
  case 0
  then show ?case by (subst match_ext.simps) simp
next
  case (Suc m)
  then have lt: "ip < I" "ip < length src" by simp_all
  let ?b = "unat (src ! ip)"
  have b: "?b \<le> 255" using unat_u8_less[of "src ! ip"] by linarith
  have small: "len + ?b < 2 ^ 64" using b lt Suc.prems(3) by linarith
  have cur: "drop ip (take I src) = src ! ip # drop (Suc ip) (take I src)"
    using lt Suc.prems by (simp add: drop_take_Cons)
  have r: "match_ext True src (int I) ip len =
    (if ?b = 255 then match_ext True src (int I) (ip + 1) (len + ?b)
     else Some (ip + 1, len + ?b))"
    using lt small
    by (subst match_ext.simps) (simp add: ld_one[unfolded One_nat_def] SIZE_BITS_def)
  show ?case
  proof (cases "?b = 255")
    case True
    have "m = I - (ip + 1)" "ip + 1 \<le> I" using Suc.hyps(2) lt by simp_all
    moreover have "len + 255 + 255 * (I - (ip + 1)) < 2 ^ 64" using Suc.prems(3) lt by simp
    ultimately obtain ip' n where "match_ext True src (int I) (ip + 1) (len + 255) = Some (ip', n)"
      "ip + 1 \<le> ip'" "ip' \<le> I"
      "ref_ext (len + 255) (drop (ip + 1) (take I src)) = (n, drop ip' (take I src))"
      using Suc.hyps(1)[of "ip + 1" "len + 255"] Suc.prems(2) by blast
    then show ?thesis using True r cur by auto
  next
    case False
    then show ?thesis using r cur lt by auto
  qed
qed

lemma ext_bound: "15 + 255 * I < (2::nat) ^ 64 \<Longrightarrow> 15 + 255 * (I - ip) < 2 ^ 64"
  by (erule le_less_trans[rotated]) simp

lemma run_len_ref:
  assumes "ip \<le> I" and "I \<le> length src" and "15 + 255 * I < 2 ^ 64"
  shows "\<exists>ip' n. (if t = RUN_MASK then run_ext True src (int I) 255 ip t else Some (ip, t))
      = Some (ip', n) \<and> ip \<le> ip' \<and> ip' \<le> I
    \<and> ref_len t (drop ip (take I src)) = (n, drop ip' (take I src))"
  using run_ext_ref[OF assms(1,2) ext_bound[OF assms(3)]] assms(1)
  by (auto simp: ref_len_def RUN_MASK_def RUN_BITS_def ML_BITS_def)

lemma match_len_ref:
  assumes "ip \<le> I" and "I \<le> length src" and "15 + 255 * I < 2 ^ 64"
  shows "\<exists>ip' n. (if t = ML_MASK then match_ext True src (int I) ip t else Some (ip, t))
      = Some (ip', n) \<and> ip \<le> ip' \<and> ip' \<le> I
    \<and> ref_len t (drop ip (take I src)) = (n, drop ip' (take I src))"
  using match_ext_ref[OF assms(1,2) ext_bound[OF assms(3)]] assms(1)
  by (auto simp: ref_len_def ML_MASK_def ML_BITS_def)

section \<open>The rest of a match\<close>

lemma LZ4_SECURECOPY_spec:
  assumes "r \<le> op" and "op \<le> N" and "e + 8 \<le> int N" and "N \<le> length dst"
  shows "\<exists>r' op' dst'. LZ4_SECURECOPY True None r op e dst = Some (r', op', dst')
    \<and> agree_outside op N dst dst' \<and> r' \<le> op' \<and> op \<le> op' \<and> e \<le> int op'
    \<and> (\<forall>F. follows F op dst \<and> feeds None F r op \<longrightarrow> follows F op' dst' \<and> feeds None F r' op')"
proof (cases "int op < e")
  case True
  then have w: "wild_room None r op e dst" using assms by (simp add: wild_room_def)
  obtain r' op' dst' where c: "LZ4_WILDCOPY True None r op e dst = Some (r', op', dst')"
    "agree_outside op (nat (e + 8)) dst dst'" "op' = op + (r' - r)" "r \<le> r'" "e \<le> int op'"
    using LZ4_WILDCOPY_total[OF w] by blast
  moreover have "agree_outside op N dst dst'"
    by (rule agree_outside_mono[OF c(2)]) (use assms in auto)
  ultimately show ?thesis
    using True assms LZ4_WILDCOPY_follows[OF w _ _ c(1)] by (auto simp: LZ4_SECURECOPY_def)
qed (use assms in \<open>auto simp: LZ4_SECURECOPY_def\<close>)

lemma match_rest_spec:
  assumes "r \<le> op" and "op \<le> N" and "8 \<le> N" and "N \<le> length dst"
  shows "(N < cpy \<and> match_rest True (int N) ip r op cpy dst = Output_error ip dst)
    \<or> (cpy \<le> N \<and> (\<exists>dst'. match_rest True (int N) ip r op cpy dst =
          (if cpy = N then Output_error ip dst' else Continue ip cpy dst')
        \<and> agree_outside op N dst dst'
        \<and> (\<forall>F. follows F op dst \<and> feeds None F r op \<longrightarrow> follows F cpy dst')))"
proof (cases "int cpy > int N - 8")
  case False
  obtain r' op' dst' where c: "LZ4_SECURECOPY True None r op (int cpy) dst = Some (r', op', dst')"
    "agree_outside op N dst dst'" "int cpy \<le> int op'"
    "\<forall>F. follows F op dst \<and> feeds None F r op \<longrightarrow> follows F op' dst' \<and> feeds None F r' op'"
    using LZ4_SECURECOPY_spec[of r op N "int cpy" dst] assms False by auto
  have "\<forall>F. follows F op dst \<and> feeds None F r op \<longrightarrow> follows F cpy dst'"
    using c(3,4) by (auto simp: follows_def)
  then show ?thesis
    using False c assms by (auto simp: match_rest_def COPYLENGTH_def)
next
  case True
  show ?thesis
  proof (cases "N < cpy")
    case True
    then show ?thesis by (simp add: match_rest_def COPYLENGTH_def)
  next
    case False
    obtain r' op' dst1 where
      c: "LZ4_SECURECOPY True None r op (int N - 8) dst = Some (r', op', dst1)"
      "agree_outside op N dst dst1" "r' \<le> op'" "op \<le> op'"
      "\<forall>F. follows F op dst \<and> feeds None F r op \<longrightarrow> follows F op' dst1 \<and> feeds None F r' op'"
      using LZ4_SECURECOPY_spec[of r op N "int N - 8" dst] assms by auto
    have len: "cpy \<le> length dst1" using False assms agree_outside_length[OF c(2)] by simp
    then obtain dst' where b: "byte_copy r' op' cpy dst1 = Some dst'"
      and a: "agree_outside op' cpy dst1 dst'"
      using byte_copy_total[OF c(3)] by blast
    have "agree_outside op N dst dst'"
      by (rule agree_outside_trans[OF c(2) agree_outside_mono[OF a]]) (use False c(4) in auto)
    moreover have "\<forall>F. follows F op dst \<and> feeds None F r op \<longrightarrow> follows F cpy dst'"
    proof (intro allI impI)
      fix F assume "follows F op dst \<and> feeds None F r op"
      then have f: "follows F op' dst1" "feeds None F r' op'" using c(5) by blast+
      then have "r' < op'" "\<forall>i. F (r' + i) = F (op' + i)" by (auto simp: feeds_def)
      then have "follows F (max op' cpy) dst'" using byte_copy_follows[OF _ len f(1) _ b] by blast
      then show "follows F cpy dst'" by (auto simp: follows_def)
    qed
    ultimately show ?thesis
      using True False c(1) b by (auto simp: match_rest_def COPYLENGTH_def)
  qed
qed

section \<open>A whole match\<close>

text \<open>
  How a match round of the decoder (\<open>ip\<close>, \<open>p\<close> after the literals) relates to the
  one of the lenient reading: rejected, or the same output.
\<close>

definition match_agrees ::
    "bytes \<Rightarrow> nat \<Rightarrow> nat \<Rightarrow> ref_ctl \<Rightarrow> nat \<Rightarrow> nat \<Rightarrow> bytes \<Rightarrow> lz4_ctl \<Rightarrow> bool" where
  "match_agrees src I N ref ip p dst c =
     (case c of
        Continue ip' op' dst' \<Rightarrow>
          ip < ip' \<and> ip' \<le> I \<and> p \<le> op' \<and> op' \<le> N \<and> agree_outside p N dst dst' \<and>
          (ref = Stop Zero_offset \<or> ref = More (drop ip' (take I src)) (take op' dst'))
      | Output_error ip' dst' \<Rightarrow>
          ip < ip' \<and> ip' \<le> I \<and> agree_outside p N dst dst' \<and>
          (ref = Stop Malformed \<or> ref = Stop Zero_offset \<or> (\<exists>i o'. ref = More i o' \<and> N \<le> length o'))
      | _ \<Rightarrow> False)"

lemma match_copy_spec:
  assumes "k \<le> p" and "p + 8 \<le> N" and "N \<le> length dst"
  shows "\<exists>r dst1. match_start True (p - k) p dst = Some (r, p + 8, dst1)
    \<and> r \<le> p + 8 \<and> agree_outside p N dst dst1
    \<and> (1 \<le> k \<longrightarrow> follows (periodic dst p k) (p + 8) dst1
              \<and> feeds None (periodic dst p k) r (p + 8))"
proof -
  have room: "p + 8 \<le> length dst" using assms by simp
  obtain dst1 where m: "match_start True (p - k) p dst = Some (p + 8 - match_dist k, p + 8, dst1)"
    and a: "agree_outside p (p + 8) dst dst1"
    using match_start_total[OF assms(1) room] by blast
  have "feeds None (periodic dst p k) (p + 8 - match_dist k) (p + 8)" if k: "1 \<le> k"
  proof (rule feeds_periodic[OF k assms(1), where m = "match_mult k"])
    have d: "match_dist k \<le> k + 8" using k
      by (cases "k < 8") (auto elim!: less_8_cases simp: match_dist_def)
    show "p - k \<le> p + 8 - match_dist k" using d assms(1) by simp
    show "p + 8 = p + 8 - match_dist k + match_mult k * k"
      using match_dist_mult[OF k] d assms(1) by simp
    show "p + 8 - match_dist k + 8 \<le> p + 8" using match_dist_ge(1)[OF k] d assms(1) by linarith
  qed
  moreover have "agree_outside p N dst dst1" using a by (rule agree_outside_mono) (use assms in auto)
  ultimately show ?thesis
    using m match_start_follows[OF _ assms(1) room m] by auto
qed

lemma lz4_match_spec:
  assumes "ip + 2 \<le> I" and "I \<le> length src" and "p + 8 \<le> N" and "N \<le> length dst"
    and "15 + 255 * I < 2 ^ 64"
  shows "match_agrees src I N (ref_match token (drop ip (take I src)) (take p dst)) ip p dst
    (lz4_match True src (int I) (int N) token ip p dst)"
proof -
  let ?lo = "src ! ip" and ?hi = "src ! (ip + 1)"
  let ?k = "unat ?lo + 256 * unat ?hi" and ?inp = "drop (ip + 2) (take I src)"
  have cur: "drop ip (take I src) = ?lo # ?hi # ?inp"
    using assms(1,2) by (simp add: drop_take_Cons)
  have two: "ld src ip 2 = Some [?lo, ?hi]" using assms(1,2) by (intro ld_two) simp
  have lp: "length (take p dst) = p" using assms(3,4) by simp
  show ?thesis
  proof (cases "p < ?k")
    case True
    then show ?thesis
      using assms(1) lp two by (simp add: match_agrees_def lz4_match_def ref_match_def cur)
  next
    case False
    then have kp: "?k \<le> p" by simp
    obtain ip' n where e:
      "(if token mod 16 = ML_MASK then match_ext True src (int I) (ip + 2) (token mod 16)
        else Some (ip + 2, token mod 16)) = Some (ip', n)"
      "ip + 2 \<le> ip'" "ip' \<le> I" "ref_len (token mod 16) ?inp = (n, drop ip' (take I src))"
      using match_len_ref[OF assms(1,2,5)] by blast
    obtain r dst1 where m: "match_start True (p - ?k) p dst = Some (r, p + 8, dst1)" "r \<le> p + 8"
      "agree_outside p N dst dst1"
      "1 \<le> ?k \<longrightarrow> follows (periodic dst p ?k) (p + 8) dst1
          \<and> feeds None (periodic dst p ?k) r (p + 8)"
      using match_copy_spec[OF kp assms(3,4)] by blast
    let ?cpy = "p + 8 + n - 4"
    have run: "lz4_match True src (int I) (int N) token ip p dst =
        match_rest True (int N) ip' r (p + 8) ?cpy dst1"
      using False two e(1) m(1)
      by (auto simp: lz4_match_def Let_def STEPSIZE_def split: if_splits)
    have ref: "ref_match token (drop ip (take I src)) (take p dst) =
        (if ?k = 0 then Stop Zero_offset
         else More (drop ip' (take I src)) (match_bytes ?k (n + 4) (take p dst)))"
      using False lp e(4) by (simp add: ref_match_def cur)
    have cpy: "?cpy = p + (n + 4)" by simp
    have mlen: "length (match_bytes ?k (n + 4) (take p dst)) = ?cpy"
      using lp by (simp add: length_match_bytes)
    have len1: "length dst1 = length dst" using m(3) by (rule agree_outside_length)
    consider (over) "N < ?cpy" "match_rest True (int N) ip' r (p + 8) ?cpy dst1 = Output_error ip' dst1"
      | (fit) dst' where "?cpy \<le> N" "match_rest True (int N) ip' r (p + 8) ?cpy dst1 =
          (if ?cpy = N then Output_error ip' dst' else Continue ip' ?cpy dst')"
        "agree_outside (p + 8) N dst1 dst'"
        "\<forall>F. follows F (p + 8) dst1 \<and> feeds None F r (p + 8) \<longrightarrow> follows F ?cpy dst'"
      using match_rest_spec[OF m(2), of N dst1 ?cpy ip'] assms(3,4) len1 by auto
    then show ?thesis
    proof cases
      case over
      then show ?thesis
        using run ref e(2,3) m(3) mlen by (auto simp: match_agrees_def)
    next
      case fit
      have a: "agree_outside p N dst dst'"
        by (rule agree_outside_trans[OF m(3) agree_outside_mono[OF fit(3)]]) auto
      have "take ?cpy dst' = match_bytes ?k (n + 4) (take p dst)" if k: "?k \<noteq> 0"
        unfolding cpy
      proof (rule follows_match_bytes)
        have k1: "1 \<le> ?k" using k by linarith
        then show "follows (periodic dst p ?k) (p + (n + 4)) dst'"
          using fit(4) m(4) unfolding cpy by blast
        show "p + (n + 4) \<le> length dst'" using fit(1) cpy assms(4) agree_outside_length[OF a] by simp
      qed (use k kp assms(3,4) in auto)
      then show ?thesis
        using run ref e(2,3) fit(1,2) a mlen by (auto simp: match_agrees_def)
    qed
  qed
qed

section \<open>A round of the main loop\<close>

definition seq_agrees ::
    "bytes \<Rightarrow> nat \<Rightarrow> nat \<Rightarrow> ref_ctl \<Rightarrow> nat \<Rightarrow> nat \<Rightarrow> bytes \<Rightarrow> lz4_ctl \<Rightarrow> bool" where
  "seq_agrees src I N ref ip op dst c =
     (case c of
        Continue ip' op' dst' \<Rightarrow>
          ip < ip' \<and> ip' \<le> I \<and> op \<le> op' \<and> op' \<le> N \<and> agree_outside op N dst dst' \<and>
          (ref = Stop Zero_offset \<or> ref = More (drop ip' (take I src)) (take op' dst'))
      | Finish op' dst' \<Rightarrow>
          op \<le> op' \<and> op' \<le> N \<and> agree_outside op N dst dst' \<and> ref = Stop (Out (take op' dst'))
      | Output_error ip' dst' \<Rightarrow> ip < ip' \<and> ip' \<le> I \<and> agree_outside op N dst dst'
      | Fault \<Rightarrow> False)"

text \<open>
  Enough room for a round: either the literals end the block, or eight bytes of input and
  of output follow them and the match ends before the end of the output.
\<close>

definition seq_fits :: "nat \<Rightarrow> bytes \<Rightarrow> bytes \<Rightarrow> bool" where
  "seq_fits N inp out =
     (case inp of
        [] \<Rightarrow> True
      | t # inp' \<Rightarrow>
          (case ref_len (unat t div 16) inp' of
             (n, inp'') \<Rightarrow>
               (if length inp'' = n then length out + n \<le> N
                else n + 8 \<le> length inp'' \<and> length out + n + 8 \<le> N \<and>
                  (case ref_match (unat t) (drop n inp'') (out @ take n inp'') of
                     More _ o' \<Rightarrow> length o' < N
                   | Stop _ \<Rightarrow> False))))"

lemma ref_seq_Cons:
  "ref_len (unat t div 16) inp' = (n, inp'') \<Longrightarrow> ref_seq (t # inp') out =
     (if length inp'' < n then Stop Malformed
      else if length inp'' = n then Stop (Out (out @ inp''))
      else ref_match (unat t) (drop n inp'') (out @ take n inp''))"
  by (simp add: ref_seq_def)

lemma seq_fits_Cons:
  "ref_len (unat t div 16) inp' = (n, inp'') \<Longrightarrow> seq_fits N (t # inp') out =
     (if length inp'' = n then length out + n \<le> N
      else n + 8 \<le> length inp'' \<and> length out + n + 8 \<le> N \<and>
        (case ref_match (unat t) (drop n inp'') (out @ take n inp'') of
           More _ o' \<Rightarrow> length o' < N | Stop _ \<Rightarrow> False))"
  by (simp add: seq_fits_def)

lemma literal_copy_spec:
  assumes "op + n + 8 \<le> N" and "N \<le> length dst" and "ip + n + 8 \<le> length src"
  shows "\<exists>s' d' dst'. LZ4_WILDCOPY True (Some src) ip op (int (op + n)) dst = Some (s', d', dst')
    \<and> agree_outside op N dst dst' \<and> take (op + n) dst' = take op dst @ take n (drop ip src)"
proof -
  let ?F = "\<lambda>j. if j < op then dst ! j else src ! (ip + (j - op))"
  have w: "wild_room (Some src) ip op (int (op + n)) dst" using assms by (simp add: wild_room_def)
  then obtain s' d' dst' where
    c: "LZ4_WILDCOPY True (Some src) ip op (int (op + n)) dst = Some (s', d', dst')"
    and a: "agree_outside op (nat (int (op + n) + 8)) dst dst'" and d: "int (op + n) \<le> int d'"
    using LZ4_WILDCOPY_total by blast
  have "follows ?F d' dst'"
    using LZ4_WILDCOPY_follows[OF w _ _ c, of ?F] by (simp add: follows_def feeds_def)
  moreover have "length dst' = length dst" using a by (rule agree_outside_length)
  ultimately have "take (op + n) dst' = take op dst @ take n (drop ip src)"
    using d assms by (intro nth_equalityI) (auto simp: follows_def nth_append)
  moreover have "agree_outside op N dst dst'"
    using a by (rule agree_outside_mono) (use assms in auto)
  ultimately show ?thesis using c by blast
qed

lemma final_literals_spec:
  assumes "op + n \<le> N" and "N \<le> length dst" and "ip + n \<le> length src"
  shows "\<exists>lits dst'. ld src ip n = Some lits \<and> st dst op lits = Some dst'
    \<and> agree_outside op N dst dst' \<and> take (op + n) dst' = take op dst @ take n (drop ip src)"
proof -
  let ?l = "take n (drop ip src)"
  have len: "length ?l = n" using assms(3) by simp
  have s: "st dst op ?l = Some (take op dst @ ?l @ drop (op + n) dst)"
    using assms(1,2) len by (simp add: st_def)
  have "agree_outside op N dst (take op dst @ ?l @ drop (op + n) dst)"
    using st_agree_outside[OF s] by (rule agree_outside_mono) (use assms len in auto)
  moreover have "ld src ip n = Some ?l" using assms(3) by (rule ld_in_bounds)
  ultimately show ?thesis using s len assms by auto
qed

text \<open>
  The two decoders at one sequence, once the length of its literals is read: \<open>n\<close>
  literals at \<open>ip1\<close>, for the token \<open>t\<close>.
\<close>

definition read_literals :: "bytes \<Rightarrow> nat \<Rightarrow> nat \<Rightarrow> nat \<Rightarrow> nat \<Rightarrow> nat \<Rightarrow> bool" where
  "read_literals src I ip t ip1 n \<longleftrightarrow>
     t = unat (src ! ip) \<and> ip < ip1 \<and> ip1 \<le> I \<and> I \<le> length src \<and>
     (if t div 16 = RUN_MASK then run_ext True src (int I) 255 (ip + 1) (t div 16)
      else Some (ip + 1, t div 16)) = Some (ip1, n) \<and>
     ref_len (t div 16) (drop (ip + 1) (take I src)) = (n, drop ip1 (take I src))"

lemma read_literals_total:
  assumes "ip < I" and "I \<le> length src" and "15 + 255 * I < 2 ^ 64"
  obtains ip1 n where "read_literals src I ip (unat (src ! ip)) ip1 n"
  using run_len_ref[of "ip + 1" I src "unat (src ! ip) div 16"] assms
  by (auto simp: read_literals_def less_eq_Suc_le)

lemma read_literals_ref:
  assumes "read_literals src I ip t ip1 n" and "ip < I"
  shows "ref_seq (drop ip (take I src)) out =
      (if I < ip1 + n then Stop Malformed
       else if ip1 + n = I then Stop (Out (out @ take n (drop ip1 src)))
       else ref_match t (drop (ip1 + n) (take I src)) (out @ take n (drop ip1 src)))"
    and "seq_fits N (drop ip (take I src)) out =
      (if ip1 + n = I then length out + n \<le> N
       else ip1 + n + 8 \<le> I \<and> length out + n + 8 \<le> N \<and>
         (case ref_match t (drop (ip1 + n) (take I src)) (out @ take n (drop ip1 src)) of
            More _ o' \<Rightarrow> length o' < N | Stop _ \<Rightarrow> False))"
proof -
  note r = assms(1)[unfolded read_literals_def]
  have cur: "drop ip (take I src) = src ! ip # drop (ip + 1) (take I src)"
    using r assms(2) by (simp add: drop_take_Cons)
  have le: "ip1 \<le> I" and t: "unat (src ! ip) = t" using r by simp_all
  have e: "ref_len (unat (src ! ip) div 16) (drop (ip + 1) (take I src)) = (n, drop ip1 (take I src))"
    using r unfolding t by blast
  have li: "length (drop ip1 (take I src)) = I - ip1" using r by simp
  have tk: "ip1 + n \<le> I \<Longrightarrow> take n (drop ip1 (take I src)) = take n (drop ip1 src)"
    by (rule take_drop_take)
  have all: "ip1 + n = I \<Longrightarrow> drop ip1 (take I src) = take n (drop ip1 src)"
    by (auto simp: drop_take)
  have dr: "drop n (drop ip1 (take I src)) = drop (ip1 + n) (take I src)"
    by (simp add: add.commute)
  show "ref_seq (drop ip (take I src)) out =
      (if I < ip1 + n then Stop Malformed
       else if ip1 + n = I then Stop (Out (out @ take n (drop ip1 src)))
       else ref_match t (drop (ip1 + n) (take I src)) (out @ take n (drop ip1 src)))"
    unfolding cur ref_seq_Cons[OF e] li dr t using le tk all by auto
  show "seq_fits N (drop ip (take I src)) out =
      (if ip1 + n = I then length out + n \<le> N
       else ip1 + n + 8 \<le> I \<and> length out + n + 8 \<le> N \<and>
         (case ref_match t (drop (ip1 + n) (take I src)) (out @ take n (drop ip1 src)) of
            More _ o' \<Rightarrow> length o' < N | Stop _ \<Rightarrow> False))"
    unfolding cur seq_fits_Cons[OF e] li dr t using le tk by (cases "ip1 + n \<le> I") auto
qed

lemma read_literals_step:
  assumes "read_literals src I ip t ip1 n" and "ip < I"
  shows "lz4_step True daddr src (int I) (int N) ip op dst =
     (if daddr + (op + n) \<ge> 2 ^ 64 then Output_error ip1 dst
      else if N < op + n + 8 \<or> I < ip1 + n + 8 then
        (if N < op + n \<or> ip1 + n \<noteq> I then Output_error ip1 dst
         else (case ld src ip1 n of None \<Rightarrow> Fault
               | Some lits \<Rightarrow> (case st dst op lits of None \<Rightarrow> Fault
                                | Some dst' \<Rightarrow> Finish (op + n) dst')))
      else (case LZ4_WILDCOPY True (Some src) ip1 op (int (op + n)) dst of
              None \<Rightarrow> Fault
            | Some (_, _, dst') \<Rightarrow>
                lz4_match True src (int I) (int N) t (ip1 + n) (op + n) dst'))"
proof -
  note r = assms(1)[unfolded read_literals_def]
  have one: "ld src ip 1 = Some [src ! ip]" using r assms(2) by (intro ld_one) simp
  have t: "unat (src ! ip) = t" using r by simp
  have len: "(if unat (src ! ip) div 16 = RUN_MASK
      then run_ext True src (int I) 255 (ip + 1) (unat (src ! ip) div 16)
      else Some (ip + 1, unat (src ! ip) div 16)) = Some (ip1, n)"
    using r unfolding t by blast
  have c: "int (op + n) > int N - 8 \<longleftrightarrow> N < op + n + 8"
    "int (ip1 + n) > int I - 8 \<longleftrightarrow> I < ip1 + n + 8"
    "int (op + n) > int N \<longleftrightarrow> N < op + n" "int (ip1 + n) \<noteq> int I \<longleftrightarrow> ip1 + n \<noteq> I"
    by linarith+
  show ?thesis
    unfolding t[symmetric] lz4_step_def one option.case Let_def list.sel len prod.case
    by (simp add: COPYLENGTH_def SIZE_BITS_def c[simplified])
qed

lemma seq_agrees_error:
  "read_literals src I ip t ip1 n \<Longrightarrow> seq_agrees src I N r ip op dst (Output_error ip1 dst)"
  by (simp add: seq_agrees_def read_literals_def)

lemma lz4_step_final:
  assumes "read_literals src I ip t ip1 n" and "ip < I" and "op + n \<le> N" and "N \<le> length dst"
    and "ip1 + n = I" and "daddr + (op + n) < 2 ^ 64"
  shows "\<exists>dst'. lz4_step True daddr src (int I) (int N) ip op dst = Finish (op + n) dst'
    \<and> agree_outside op N dst dst'
    \<and> ref_seq (drop ip (take I src)) (take op dst) = Stop (Out (take (op + n) dst'))"
proof -
  have "ip1 + n \<le> length src" using assms(1,5) by (simp add: read_literals_def)
  then obtain lits dst' where f: "ld src ip1 n = Some lits" "st dst op lits = Some dst'"
    "agree_outside op N dst dst'" "take (op + n) dst' = take op dst @ take n (drop ip1 src)"
    using final_literals_spec[OF assms(3,4)] by blast
  then show ?thesis
    using assms read_literals_step[OF assms(1,2)] read_literals_ref[OF assms(1,2)] by auto
qed

lemma lz4_step_match:
  assumes "read_literals src I ip t ip1 n" and "ip < I" and "op + n + 8 \<le> N"
    and "N \<le> length dst" and "ip1 + n + 8 \<le> I" and "daddr + (op + n) < 2 ^ 64"
    and "15 + 255 * I < 2 ^ 64"
  shows "\<exists>dst'. agree_outside op N dst dst'
    \<and> match_agrees src I N (ref_seq (drop ip (take I src)) (take op dst)) (ip1 + n) (op + n) dst'
        (lz4_step True daddr src (int I) (int N) ip op dst)"
proof -
  have src: "I \<le> length src" using assms(1) by (simp add: read_literals_def)
  then have "ip1 + n + 8 \<le> length src" using assms(5) by simp
  then obtain s' d' dst' where
    w: "LZ4_WILDCOPY True (Some src) ip1 op (int (op + n)) dst = Some (s', d', dst')"
    "agree_outside op N dst dst'" "take (op + n) dst' = take op dst @ take n (drop ip1 src)"
    using literal_copy_spec[OF assms(3,4)] by blast
  have "ref_seq (drop ip (take I src)) (take op dst)
      = ref_match t (drop (ip1 + n) (take I src)) (take (op + n) dst')"
    using read_literals_ref(1)[OF assms(1,2)] assms(5) w(3) by simp
  moreover have "lz4_step True daddr src (int I) (int N) ip op dst
      = lz4_match True src (int I) (int N) t (ip1 + n) (op + n) dst'"
    using read_literals_step[OF assms(1,2)] assms(3,5,6) w(1) by simp
  moreover have "match_agrees src I N (ref_match t (drop (ip1 + n) (take I src)) (take (op + n) dst'))
      (ip1 + n) (op + n) dst' (lz4_match True src (int I) (int N) t (ip1 + n) (op + n) dst')"
    using assms src agree_outside_length[OF w(2)] by (intro lz4_match_spec) auto
  ultimately show ?thesis using w(2) by auto
qed

lemma match_agrees_seq:
  assumes "match_agrees src I N r ip1 op1 dst1 c" and "agree_outside op N dst dst1"
    and "ip < ip1" and "op \<le> op1"
  shows "seq_agrees src I N r ip op dst c"
proof -
  have "agree_outside op N dst d" if "agree_outside op1 N dst1 d" for d
    using assms(2,4) that by (blast intro: agree_outside_trans agree_outside_mono)
  then show ?thesis
    using assms by (auto simp: match_agrees_def seq_agrees_def split: lz4_ctl.splits)
qed

lemma lz4_step_spec:
  assumes "ip < I" and "I \<le> length src" and "op \<le> N" and "N \<le> length dst"
    and "15 + 255 * I < 2 ^ 64"
  shows "seq_agrees src I N (ref_seq (drop ip (take I src)) (take op dst)) ip op dst
    (lz4_step True daddr src (int I) (int N) ip op dst)"
proof -
  obtain ip1 n where r: "read_literals src I ip (unat (src ! ip)) ip1 n"
    using read_literals_total[OF assms(1,2,5)] .
  consider (wrap) "2 ^ 64 \<le> daddr + (op + n)"
    | (bad) "N < op + n + 8 \<or> I < ip1 + n + 8" "N < op + n \<or> ip1 + n \<noteq> I"
    | (last) "daddr + (op + n) < 2 ^ 64" "op + n \<le> N" "ip1 + n = I"
    | (match) "daddr + (op + n) < 2 ^ 64" "op + n + 8 \<le> N" "ip1 + n + 8 \<le> I"
    by linarith
  then show ?thesis
  proof cases
    case last
    then show ?thesis
      using lz4_step_final[OF r assms(1) last(2) assms(4) last(3,1)]
      by (auto simp: seq_agrees_def)
  next
    case match
    have "ip < ip1 + n" using r by (simp add: read_literals_def)
    then show ?thesis
      using lz4_step_match[OF r assms(1) match(2) assms(4) match(3,1) assms(5)]
      by (auto intro: match_agrees_seq)
  qed (use seq_agrees_error[OF r] read_literals_step[OF r assms(1)] in auto)
qed

lemma lz4_step_fits:
  assumes "ip < I" and "I \<le> length src" and "op \<le> N" and "N \<le> length dst"
    and "15 + 255 * I < 2 ^ 64" and "daddr + N < 2 ^ 64"
    and "seq_fits N (drop ip (take I src)) (take op dst)"
    and "ref_seq (drop ip (take I src)) (take op dst) \<noteq> Stop Zero_offset"
  shows "lz4_step True daddr src (int I) (int N) ip op dst \<noteq> Output_error ip' dst'"
proof -
  obtain ip1 n where r: "read_literals src I ip (unat (src ! ip)) ip1 n"
    using read_literals_total[OF assms(1,2,5)] .
  note ref = read_literals_ref[OF r assms(1)]
  have lo: "length (take op dst) = op" using assms(3,4) by simp
  show ?thesis
  proof (cases "ip1 + n = I")
    case True
    then have "op + n \<le> N" "daddr + (op + n) < 2 ^ 64" using ref(2) assms(6,7) lo by auto
    then show ?thesis using lz4_step_final[OF r assms(1) _ assms(4) True, of op daddr] by auto
  next
    case False
    then have f: "ip1 + n + 8 \<le> I" "op + n + 8 \<le> N"
      and m: "\<exists>i o'. ref_seq (drop ip (take I src)) (take op dst) = More i o' \<and> length o' < N"
      using ref assms(7) lo by (auto split: ref_ctl.splits if_splits)
    then have "daddr + (op + n) < 2 ^ 64" using assms(6) by simp
    from lz4_step_match[OF r assms(1) f(2) assms(4) f(1) this assms(5)] m
    show ?thesis by (auto simp: match_agrees_def)
  qed
qed

end
