(* ===== verification/LZ4_Block.thy ===== *)
theory LZ4_Block
  imports LZ4_Correct
begin

text \<open>
  The main loop as a whole: the decoder returns on every input, keeps inside its buffers,
  agrees with the lenient reading of the block where it accepts, and accepts every block that
  \<open>lz4_encode\<close> writes under the end-of-block rule of the format.
\<close>

section \<open>The whole block\<close>

lemma lz4_loop_unfold:
  "ip < I \<Longrightarrow> lz4_loop True daddr src (int I) (int N) ip op dst =
     (case lz4_step True daddr src (int I) (int N) ip op dst of
        Continue ip' op' dst' \<Rightarrow> lz4_loop True daddr src (int I) (int N) ip' op' dst'
      | Finish op' dst' \<Rightarrow> Some (int op', dst')
      | Output_error ip' dst' \<Rightarrow> Some (- int ip', dst')
      | Fault \<Rightarrow> None)"
  by (subst lz4_loop.simps) simp

lemma lz4_loop_end: "lz4_loop True daddr src (int I) (int N) I op dst = Some (int op, dst)"
  by (subst lz4_loop.simps) simp

text \<open>A result: an error position, or the decoded length with its bytes in place.\<close>

definition result_agrees :: "nat \<Rightarrow> nat \<Rightarrow> ref_result \<Rightarrow> bytes \<Rightarrow> int \<times> bytes \<Rightarrow> bool" where
  "result_agrees I N ref dst res \<longleftrightarrow>
     (case res of (r, dst') \<Rightarrow>
        agree_outside 0 N dst dst' \<and>
        (if r < 0 then - int I \<le> r
         else r \<le> int N \<and> (ref = Zero_offset \<or> ref = Out (take (nat r) dst'))))"

lemma lz4_loop_spec:
  assumes "ip \<le> I" and "I \<le> length src" and "op \<le> N" and "N \<le> length dst"
    and "15 + 255 * I < 2 ^ 64"
  shows "\<exists>res. lz4_loop True daddr src (int I) (int N) ip op dst = Some res
    \<and> result_agrees I N (lz4_lax (drop ip (take I src)) (take op dst)) dst res"
  using assms(1,3,4)
proof (induction "I - ip" arbitrary: ip op dst rule: less_induct)
  case less
  show ?case
  proof (cases "ip = I")
    case True
    then have "lz4_lax (drop ip (take I src)) (take op dst) = Out (take op dst)"
      by (subst lz4_lax.simps) (simp add: ref_seq_def)
    then show ?thesis using True less.prems by (simp add: lz4_loop_end result_agrees_def)
  next
    case False
    then have lt: "ip < I" using less.prems by simp
    let ?ref = "ref_seq (drop ip (take I src)) (take op dst)"
    have a: "seq_agrees src I N ?ref ip op dst
        (lz4_step True daddr src (int I) (int N) ip op dst)"
      by (rule lz4_step_spec[OF lt assms(2) less.prems(2,3) assms(5)])
    have zero: "lz4_lax (drop ip (take I src)) (take op dst) = Zero_offset"
      if "?ref = Stop Zero_offset" using that by (subst lz4_lax.simps) simp
    show ?thesis
    proof (cases "lz4_step True daddr src (int I) (int N) ip op dst")
      case (Continue ip' op' dst')
      with a have c: "ip < ip'" "ip' \<le> I" "op' \<le> N" "agree_outside op N dst dst'"
        "?ref = Stop Zero_offset \<or> ?ref = More (drop ip' (take I src)) (take op' dst')"
        by (auto simp: seq_agrees_def)
      have "N \<le> length dst'" using less.prems(3) agree_outside_length[OF c(4)] by simp
      moreover have "I - ip' < I - ip" using c(1) lt by simp
      ultimately obtain res where
        r: "lz4_loop True daddr src (int I) (int N) ip' op' dst' = Some res"
        "result_agrees I N (lz4_lax (drop ip' (take I src)) (take op' dst')) dst' res"
        using less.hyps c(2,3) by blast
      have "lz4_lax (drop ip (take I src)) (take op dst) = Zero_offset
          \<or> lz4_lax (drop ip (take I src)) (take op dst)
            = lz4_lax (drop ip' (take I src)) (take op' dst')"
        using c(5) zero by (auto simp: lz4_lax.simps[of "drop ip (take I src)"])
      moreover have "agree_outside 0 N dst d" if "agree_outside 0 N dst' d" for d
        using agree_outside_trans[OF agree_outside_mono[OF c(4)] that] by simp
      ultimately have "result_agrees I N (lz4_lax (drop ip (take I src)) (take op dst)) dst res"
        using r(2) by (auto simp: result_agrees_def split: if_splits)
      then show ?thesis using Continue r(1) lt by (simp add: lz4_loop_unfold)
    next
      case (Finish op' dst')
      with a have c: "op' \<le> N" "agree_outside 0 N dst dst'" "?ref = Stop (Out (take op' dst'))"
        by (auto simp: seq_agrees_def intro: agree_outside_mono)
      then have "lz4_lax (drop ip (take I src)) (take op dst) = Out (take op' dst')"
        by (subst lz4_lax.simps) simp
      then show ?thesis using Finish c lt by (simp add: lz4_loop_unfold result_agrees_def)
    next
      case (Output_error ip' dst')
      with a have "ip < ip'" "ip' \<le> I" "agree_outside 0 N dst dst'"
        by (auto simp: seq_agrees_def intro: agree_outside_mono)
      then show ?thesis using Output_error lt by (simp add: lz4_loop_unfold result_agrees_def)
    next
      case Fault
      with a show ?thesis by (simp add: seq_agrees_def)
    qed
  qed
qed

section \<open>Blocks the format allows are decoded\<close>

lemma length_expand_ge:
  "length out + length lits \<le> length (lz4_expand seqs lits out)"
proof (induction seqs arbitrary: out)
  case (Cons s ss)
  have "length out \<le> length (expand_seq s out)"
    by (simp add: expand_seq_def length_match_bytes)
  then show ?case using Cons[of "expand_seq s out"] by (simp add: lz4_expand_def)
qed (simp add: lz4_expand_def)

lemma length_encode_ge: "length lits < length (lz4_encode seqs lits)"
  by (simp add: lz4_encode_def enc_last_def)

lemma seq_fits_last: "length out + length lits \<le> N \<Longrightarrow> seq_fits N (enc_last lits) out"
  using token_parts[OF enc_nib_less, of 0 "length lits"] ref_len_enc[of "length lits" lits]
  by (simp add: seq_fits_def enc_last_def)

lemma seq_fits_seq:
  assumes "1 \<le> sq_off s" "sq_off s < 65536" "sq_off s \<le> length out + length (sq_lits s)"
    "4 \<le> sq_len s" and "6 \<le> length rest" and "length (expand_seq s out) + 5 \<le> N"
  shows "seq_fits N (enc_seq s @ rest) out"
proof -
  let ?a = "enc_nib (length (sq_lits s))" and ?b = "enc_nib (sq_len s - 4)"
  let ?tail = "[byte_of (sq_off s mod 256), byte_of (sq_off s div 256)]
    @ enc_tail (sq_len s - 4) @ rest"
  note t = token_parts[OF enc_nib_less enc_nib_less, of "length (sq_lits s)" "sq_len s - 4"]
  have r: "ref_len (unat (byte_of (16 * ?a + ?b)) div 16)
      (enc_tail (length (sq_lits s)) @ sq_lits s @ ?tail) = (length (sq_lits s), sq_lits s @ ?tail)"
    by (simp only: t ref_len_enc)
  have enc: "enc_seq s @ rest = byte_of (16 * ?a + ?b)
      # enc_tail (length (sq_lits s)) @ sq_lits s @ ?tail"
    by (simp add: enc_seq_def)
  have m: "ref_match (unat (byte_of (16 * ?a + ?b))) ?tail (out @ sq_lits s)
      = More rest (expand_seq s out)"
    using ref_seq_enc_seq[OF assms(1-4), of rest] unfolding enc ref_seq_Cons[OF r]
    by (simp split: if_splits)
  have "length out + length (sq_lits s) + 4 \<le> length (expand_seq s out)"
    using assms(4) by (simp add: expand_seq_def length_match_bytes)
  then show ?thesis
    unfolding enc seq_fits_Cons[OF r] using assms(5,6) m by simp
qed

lemma seq_fits_encode:
  assumes "seqs_ok seqs out" and "5 \<le> length lits \<or> seqs = []"
    and "length (lz4_expand seqs lits out) \<le> N"
  shows "seq_fits N (lz4_encode seqs lits) out"
proof (cases seqs)
  case Nil
  then show ?thesis using assms by (simp add: lz4_encode_def lz4_expand_def seq_fits_last)
next
  case (Cons s ss)
  have "length (expand_seq s out) + 5 \<le> N"
    using assms length_expand_ge[of "expand_seq s out" lits ss] Cons by (auto simp: lz4_expand_def)
  moreover have "6 \<le> length (lz4_encode ss lits)"
    using assms(2) Cons length_encode_ge[of lits ss] by simp
  ultimately have "seq_fits N (enc_seq s @ lz4_encode ss lits) out"
    using assms(1) Cons by (intro seq_fits_seq) auto
  then show ?thesis using Cons by (simp add: lz4_encode_def)
qed

lemma lz4_loop_encode:
  assumes "drop ip (take I src) = lz4_encode seqs lits" and "ip < I" and "I \<le> length src"
    and "op \<le> N" and "N \<le> length dst" and "15 + 255 * I < 2 ^ 64" and "daddr + N < 2 ^ 64"
    and "seqs_ok seqs (take op dst)" and "5 \<le> length lits \<or> seqs = []"
    and "length (lz4_expand seqs lits (take op dst)) \<le> N"
  shows "\<exists>dst'. lz4_loop True daddr src (int I) (int N) ip op dst
    = Some (int (length (lz4_expand seqs lits (take op dst))), dst')"
  using assms(1,2,4,5,8-10)
proof (induction seqs arbitrary: ip op dst)
  case Nil
  have ref: "ref_seq (drop ip (take I src)) (take op dst) = Stop (Out (take op dst @ lits))"
    using Nil.prems(1) by (simp add: lz4_encode_def ref_seq_enc_last)
  have f: "seq_fits N (drop ip (take I src)) (take op dst)"
    unfolding Nil.prems(1) using Nil.prems by (intro seq_fits_encode) auto
  obtain op' dst' where c: "lz4_step True daddr src (int I) (int N) ip op dst = Finish op' dst'"
    "op' \<le> N" "agree_outside op N dst dst'" "take op' dst' = take op dst @ lits"
    using lz4_step_spec[OF Nil.prems(2) assms(3) Nil.prems(3,4) assms(6), of daddr]
      lz4_step_fits[OF Nil.prems(2) assms(3) Nil.prems(3,4) assms(6,7) f] ref
    by (auto simp: seq_agrees_def split: lz4_ctl.splits)
  have "length (take op' dst') = op'"
    using c(2,3) Nil.prems(4) agree_outside_length by (metis length_take min.absorb2 order.trans)
  then have "op' = length (take op dst @ lits)" using c(4) by metis
  then show ?case using c(1) Nil.prems(2) by (simp add: lz4_loop_unfold lz4_expand_def)
next
  case (Cons s ss)
  have ok: "1 \<le> sq_off s" "sq_off s < 65536" "sq_off s \<le> length (take op dst) + length (sq_lits s)"
    "4 \<le> sq_len s" "seqs_ok ss (expand_seq s (take op dst))"
    using Cons.prems(5) by simp_all
  have ref: "ref_seq (drop ip (take I src)) (take op dst)
      = More (lz4_encode ss lits) (expand_seq s (take op dst))"
    unfolding Cons.prems(1) using ref_seq_enc_seq[OF ok(1-4)] by (simp add: lz4_encode_def)
  have f: "seq_fits N (drop ip (take I src)) (take op dst)"
    unfolding Cons.prems(1) using Cons.prems by (intro seq_fits_encode) auto
  obtain ip' op' dst' where
    c: "lz4_step True daddr src (int I) (int N) ip op dst = Continue ip' op' dst'"
    "ip' \<le> I" "op' \<le> N" "agree_outside op N dst dst'"
    "drop ip' (take I src) = lz4_encode ss lits" "take op' dst' = expand_seq s (take op dst)"
    using lz4_step_spec[OF Cons.prems(2) assms(3) Cons.prems(3,4) assms(6), of daddr]
      lz4_step_fits[OF Cons.prems(2) assms(3) Cons.prems(3,4) assms(6,7) f] ref
    by (auto simp: seq_agrees_def split: lz4_ctl.splits)
  have "lz4_encode ss lits \<noteq> []" using length_encode_ge[of lits ss] by auto
  then have "ip' < I" using c(2,5) by (metis drop_eq_Nil length_take min.bounded_iff nat_less_le order.refl
      le_trans not_le)
  moreover have "N \<le> length dst'" using Cons.prems(4) agree_outside_length[OF c(4)] by simp
  ultimately obtain d where "lz4_loop True daddr src (int I) (int N) ip' op' dst'
      = Some (int (length (lz4_expand ss lits (take op' dst'))), d)"
    using Cons.IH[OF c(5) _ c(3), of dst'] Cons.prems(6,7) ok(5) c(6)
    by (auto simp: lz4_expand_def)
  then show ?case using c Cons.prems(2) by (simp add: lz4_loop_unfold lz4_expand_def)
qed

end
