(* ===== verification/Byteorder.thy ===== *)
theory Byteorder
  imports Prelude "HOL-Library.Monad_Syntax"
begin

text \<open>
  The byte-order macros of \<open>de.c\<close> and \<open>sys/byteorder.h\<close>: reading and writing unaligned
  big- and little-endian integers, and reversing bytes. Reads and writes go through
  bounds-checked memory; a word is its value, so a cast to a wider type is \<^const>\<open>ucast\<close>.
\<close>

section \<open>Reading\<close>

definition BE_IN8 :: "bytes \<Rightarrow> nat \<Rightarrow> u8 option" where
  "BE_IN8 m xa = do { v \<leftarrow> ld m xa 1; Some (hd v) }"

definition BE_IN16 :: "bytes \<Rightarrow> nat \<Rightarrow> u16 option" where
  "BE_IN16 m xa = do { h \<leftarrow> BE_IN8 m xa; l \<leftarrow> BE_IN8 m (xa + 1);
                       Some (push_bit 8 (ucast h) OR ucast l) }"

definition BE_IN32 :: "bytes \<Rightarrow> nat \<Rightarrow> u32 option" where
  "BE_IN32 m xa = do { h \<leftarrow> BE_IN16 m xa; l \<leftarrow> BE_IN16 m (xa + 2);
                       Some (push_bit 16 (ucast h) OR ucast l) }"

definition BE_IN64 :: "bytes \<Rightarrow> nat \<Rightarrow> u64 option" where
  "BE_IN64 m xa = do { h \<leftarrow> BE_IN32 m xa; l \<leftarrow> BE_IN32 m (xa + 4);
                       Some (push_bit 32 (ucast h) OR ucast l) }"

definition LE_IN8 :: "bytes \<Rightarrow> nat \<Rightarrow> u8 option" where
  "LE_IN8 m xa = do { v \<leftarrow> ld m xa 1; Some (hd v) }"

definition LE_IN16 :: "bytes \<Rightarrow> nat \<Rightarrow> u16 option" where
  "LE_IN16 m xa = do { h \<leftarrow> LE_IN8 m (xa + 1); l \<leftarrow> LE_IN8 m xa;
                       Some (push_bit 8 (ucast h) OR ucast l) }"

definition LE_IN32 :: "bytes \<Rightarrow> nat \<Rightarrow> u32 option" where
  "LE_IN32 m xa = do { h \<leftarrow> LE_IN16 m (xa + 2); l \<leftarrow> LE_IN16 m xa;
                       Some (push_bit 16 (ucast h) OR ucast l) }"

definition LE_IN64 :: "bytes \<Rightarrow> nat \<Rightarrow> u64 option" where
  "LE_IN64 m xa = do { h \<leftarrow> LE_IN32 m (xa + 4); l \<leftarrow> LE_IN32 m xa;
                       Some (push_bit 32 (ucast h) OR ucast l) }"

section \<open>Writing\<close>

definition BE_OUT8 :: "bytes \<Rightarrow> nat \<Rightarrow> u64 \<Rightarrow> bytes option" where
  "BE_OUT8 m xa yv = st m xa [ucast yv]"

definition BE_OUT16 :: "bytes \<Rightarrow> nat \<Rightarrow> u64 \<Rightarrow> bytes option" where
  "BE_OUT16 m xa yv = do { m \<leftarrow> BE_OUT8 m (xa + 1) yv; BE_OUT8 m xa (drop_bit 8 yv) }"

definition BE_OUT32 :: "bytes \<Rightarrow> nat \<Rightarrow> u64 \<Rightarrow> bytes option" where
  "BE_OUT32 m xa yv = do { m \<leftarrow> BE_OUT16 m (xa + 2) yv; BE_OUT16 m xa (drop_bit 16 yv) }"

definition BE_OUT64 :: "bytes \<Rightarrow> nat \<Rightarrow> u64 \<Rightarrow> bytes option" where
  "BE_OUT64 m xa yv = do { m \<leftarrow> BE_OUT32 m (xa + 4) yv; BE_OUT32 m xa (drop_bit 32 yv) }"

definition LE_OUT8 :: "bytes \<Rightarrow> nat \<Rightarrow> u64 \<Rightarrow> bytes option" where
  "LE_OUT8 m xa yv = st m xa [ucast yv]"

definition LE_OUT16 :: "bytes \<Rightarrow> nat \<Rightarrow> u64 \<Rightarrow> bytes option" where
  "LE_OUT16 m xa yv = do { m \<leftarrow> LE_OUT8 m xa yv; LE_OUT8 m (xa + 1) (drop_bit 8 yv) }"

definition LE_OUT32 :: "bytes \<Rightarrow> nat \<Rightarrow> u64 \<Rightarrow> bytes option" where
  "LE_OUT32 m xa yv = do { m \<leftarrow> LE_OUT16 m xa yv; LE_OUT16 m (xa + 2) (drop_bit 16 yv) }"

definition LE_OUT64 :: "bytes \<Rightarrow> nat \<Rightarrow> u64 \<Rightarrow> bytes option" where
  "LE_OUT64 m xa yv = do { m \<leftarrow> LE_OUT32 m xa yv; LE_OUT32 m (xa + 4) (drop_bit 32 yv) }"

section \<open>Reversing\<close>

text \<open>
  The masks and swaps are macros on any integer type; here on 64-bit values, the widest
  they are used at. A narrower swap reads only the low bytes of its argument.
\<close>

definition BSWAP_8 :: "u64 \<Rightarrow> u64" where "BSWAP_8 x = x AND 0xff"
definition BSWAP_16 :: "u64 \<Rightarrow> u64" where
  "BSWAP_16 x = push_bit 8 (BSWAP_8 x) OR BSWAP_8 (drop_bit 8 x)"
definition BSWAP_32 :: "u64 \<Rightarrow> u64" where
  "BSWAP_32 x = push_bit 16 (BSWAP_16 x) OR BSWAP_16 (drop_bit 16 x)"
definition BSWAP_64 :: "u64 \<Rightarrow> u64" where
  "BSWAP_64 x = push_bit 32 (BSWAP_32 x) OR BSWAP_32 (drop_bit 32 x)"

definition BMASK_8 :: "u64 \<Rightarrow> u64" where "BMASK_8 x = x AND 0xff"
definition BMASK_16 :: "u64 \<Rightarrow> u64" where "BMASK_16 x = x AND 0xffff"
definition BMASK_32 :: "u64 \<Rightarrow> u64" where "BMASK_32 x = x AND 0xffffffff"
definition BMASK_64 :: "u64 \<Rightarrow> u64" where "BMASK_64 x = x"

section \<open>In terms of byte lists\<close>

lemma BE_IN8_in: "xa < length m \<Longrightarrow> BE_IN8 m xa = Some (m ! xa)"
  by (simp add: BE_IN8_def ld_one[unfolded One_nat_def])

lemma LE_IN8_in: "xa < length m \<Longrightarrow> LE_IN8 m xa = Some (m ! xa)"
  by (simp add: LE_IN8_def ld_one[unfolded One_nat_def])

lemma BE_IN32_in:
  "xa + 4 \<le> length m \<Longrightarrow> BE_IN32 m xa =
     Some (push_bit 16 (ucast (push_bit 8 (ucast (m ! xa)) OR ucast (m ! (xa + 1)) :: u16))
           OR ucast (push_bit 8 (ucast (m ! (xa + 2))) OR ucast (m ! (xa + 3)) :: u16))"
  by (simp add: BE_IN32_def BE_IN16_def BE_IN8_in numeral_3_eq_3)

lemma BE_IN32_fault: "length m < xa + 4 \<Longrightarrow> BE_IN32 m xa = None"
  by (auto simp: BE_IN32_def BE_IN16_def BE_IN8_def ld_def bind_eq_None_conv)

section \<open>Writes as one store\<close>

lemma st_append_fwd:
  "(do { m1 \<leftarrow> st m a x; st m1 (a + length x) y }) = st m a (x @ y)"
  by (auto simp: st_def add_ac)

lemma st_append_bwd:
  "(do { m1 \<leftarrow> st m (a + length x) y; st m1 a x }) = st m a (x @ y)"
  by (auto simp: st_def add_ac)

lemma LE_OUT16_st: "LE_OUT16 m xa v = st m xa [ucast v, ucast (drop_bit 8 v)]"
  using st_append_fwd[of m xa "[ucast v]" "[ucast (drop_bit 8 v)]"]
  by (simp add: LE_OUT16_def LE_OUT8_def)

lemma LE_OUT32_st:
  "LE_OUT32 m xa v =
     st m xa [ucast v, ucast (drop_bit 8 v), ucast (drop_bit 16 v), ucast (drop_bit 24 v)]"
  using st_append_fwd[of m xa "[ucast v, ucast (drop_bit 8 v)]"
      "[ucast (drop_bit 16 v), ucast (drop_bit 24 v)]"]
  by (simp add: LE_OUT32_def LE_OUT16_st)

lemma LE_OUT64_st:
  "LE_OUT64 m xa v =
     st m xa [ucast v, ucast (drop_bit 8 v), ucast (drop_bit 16 v), ucast (drop_bit 24 v),
       ucast (drop_bit 32 v), ucast (drop_bit 40 v), ucast (drop_bit 48 v), ucast (drop_bit 56 v)]"
  using st_append_fwd[of m xa
      "[ucast v, ucast (drop_bit 8 v), ucast (drop_bit 16 v), ucast (drop_bit 24 v)]"
      "[ucast (drop_bit 32 v), ucast (drop_bit 40 v), ucast (drop_bit 48 v), ucast (drop_bit 56 v)]"]
  by (simp add: LE_OUT64_def LE_OUT32_st eval_nat_numeral)

lemma BE_OUT16_st: "BE_OUT16 m xa v = st m xa [ucast (drop_bit 8 v), ucast v]"
  using st_append_bwd[of m xa "[ucast (drop_bit 8 v)]" "[ucast v]"]
  by (simp add: BE_OUT16_def BE_OUT8_def)

lemma BE_OUT32_st:
  "BE_OUT32 m xa v =
     st m xa [ucast (drop_bit 24 v), ucast (drop_bit 16 v), ucast (drop_bit 8 v), ucast v]"
  using st_append_bwd[of m xa "[ucast (drop_bit 24 v), ucast (drop_bit 16 v)]"
      "[ucast (drop_bit 8 v), ucast v]"]
  by (simp add: BE_OUT32_def BE_OUT16_st)

lemma BE_OUT64_st:
  "BE_OUT64 m xa v =
     st m xa [ucast (drop_bit 56 v), ucast (drop_bit 48 v), ucast (drop_bit 40 v),
       ucast (drop_bit 32 v), ucast (drop_bit 24 v), ucast (drop_bit 16 v), ucast (drop_bit 8 v),
       ucast v]"
  using st_append_bwd[of m xa "[ucast (drop_bit 56 v), ucast (drop_bit 48 v),
       ucast (drop_bit 40 v), ucast (drop_bit 32 v)]"
      "[ucast (drop_bit 24 v), ucast (drop_bit 16 v), ucast (drop_bit 8 v), ucast v]"]
  by (simp add: BE_OUT64_def BE_OUT32_st eval_nat_numeral)

section \<open>Reads as one load\<close>

text \<open>The value of bytes, most significant first, each above the next.\<close>

definition glue64 :: "bytes \<Rightarrow> u64" where
  "glue64 bs = foldl (\<lambda>a b. push_bit 8 a OR ucast b) 0 bs"

lemma bit_u8_high: "8 \<le> n \<Longrightarrow> \<not> bit (b :: u8) n"
  by (auto dest: bit_imp_le_length)

lemma widen16: "ucast (push_bit 8 (ucast h) OR ucast l :: u16)
    = (push_bit 8 (ucast (h :: u8)) OR ucast (l :: u8) :: u32)"
  by (rule bit_word_eqI) (auto simp: bit_simps dest: bit_imp_le_length)

lemma widen32:
  "ucast (push_bit 24 (ucast a) OR push_bit 16 (ucast b) OR push_bit 8 (ucast c) OR ucast d :: u32)
   = (push_bit 24 (ucast (a :: u8)) OR push_bit 16 (ucast (b :: u8)) OR push_bit 8 (ucast (c :: u8))
      OR ucast (d :: u8) :: u64)"
  by (rule bit_word_eqI) (auto simp: bit_simps dest: bit_imp_le_length)

lemma join4:
  "ucast (push_bit 16 (ucast (push_bit 8 (ucast a) OR ucast b :: u16))
     OR ucast (push_bit 8 (ucast c) OR ucast d :: u16) :: u32) = glue64 [a, b, c, d]"
  by (simp add: widen16 widen32 glue64_def push_bit_or or.assoc)

lemma join8:
  "push_bit 32 (glue64 [a, b, c, d]) OR glue64 [e, f, g, h] = glue64 [a, b, c, d, e, f, g, h]"
  by (simp add: glue64_def push_bit_or or.assoc)

lemma LE_IN64_in:
  assumes "xa + 8 \<le> length m"
  shows "LE_IN64 m xa = Some (glue64 (rev (take 8 (drop xa m))))"
proof -
  have t: "take 8 (drop xa m) = [m ! xa, m ! (xa + 1), m ! (xa + 2), m ! (xa + 3),
    m ! (xa + 4), m ! (xa + 5), m ! (xa + 6), m ! (xa + 7)]"
    using assms by (intro nth_equalityI) (auto simp: less_Suc_eq eval_nat_numeral)
  have "LE_IN64 m xa = Some (push_bit 32 (glue64 [m ! (xa + 7), m ! (xa + 6), m ! (xa + 5), m ! (xa + 4)])
      OR glue64 [m ! (xa + 3), m ! (xa + 2), m ! (xa + 1), m ! xa])"
    using assms
    by (simp add: LE_IN64_def LE_IN32_def LE_IN16_def LE_IN8_in join4[symmetric] eval_nat_numeral)
  then show ?thesis unfolding t join8 by simp
qed

lemma BE_IN64_in:
  assumes "xa + 8 \<le> length m"
  shows "BE_IN64 m xa = Some (glue64 (take 8 (drop xa m)))"
proof -
  have t: "take 8 (drop xa m) = [m ! xa, m ! (xa + 1), m ! (xa + 2), m ! (xa + 3),
    m ! (xa + 4), m ! (xa + 5), m ! (xa + 6), m ! (xa + 7)]"
    using assms by (intro nth_equalityI) (auto simp: less_Suc_eq eval_nat_numeral)
  have "BE_IN64 m xa = Some (push_bit 32 (glue64 [m ! xa, m ! (xa + 1), m ! (xa + 2), m ! (xa + 3)])
      OR glue64 [m ! (xa + 4), m ! (xa + 5), m ! (xa + 6), m ! (xa + 7)])"
    using assms
    by (simp add: BE_IN64_def BE_IN32_def BE_IN16_def BE_IN8_in join4[symmetric] eval_nat_numeral)
  then show ?thesis unfolding t join8 by simp
qed

section \<open>Round trips\<close>

definition le8 :: "u64 \<Rightarrow> bytes" where
  "le8 v = [ucast v, ucast (drop_bit 8 v), ucast (drop_bit 16 v), ucast (drop_bit 24 v),
     ucast (drop_bit 32 v), ucast (drop_bit 40 v), ucast (drop_bit 48 v), ucast (drop_bit 56 v)]"

lemma length_le8 [simp]: "length (le8 v) = 8"
  by (simp add: le8_def)

lemma peel_byte: "push_bit 8 (drop_bit 8 x) OR ucast (ucast x :: u8) = (x :: u64)"
  by (rule bit_word_eqI) (auto simp: bit_simps dest: bit_imp_le_length)

lemma top_byte: "ucast (ucast (drop_bit 56 x) :: u8) = (drop_bit 56 x :: u64)"
  by (rule bit_word_eqI) (auto simp: bit_simps dest: bit_imp_le_length)

lemma glue64_le8: "glue64 (rev (le8 v)) = v"
  using peel_byte[of v] peel_byte[of "drop_bit 8 v"] peel_byte[of "drop_bit 16 v"]
    peel_byte[of "drop_bit 24 v"] peel_byte[of "drop_bit 32 v"] peel_byte[of "drop_bit 40 v"]
    peel_byte[of "drop_bit 48 v"] top_byte[of v]
  by (simp add: glue64_def le8_def)

lemma stored_bytes: "st m xa bs = Some m' \<Longrightarrow> take (length bs) (drop xa m') = bs \<and> xa + length bs \<le> length m'"
  by (auto simp: st_def split: if_splits)

lemma LE_64_roundtrip: "LE_OUT64 m xa v = Some m' \<Longrightarrow> LE_IN64 m' xa = Some v"
  using stored_bytes[of m xa "le8 v" m'] glue64_le8[of v] LE_IN64_in[of xa m']
  by (simp add: LE_OUT64_st le8_def[symmetric])

lemma BE_64_roundtrip: "BE_OUT64 m xa v = Some m' \<Longrightarrow> BE_IN64 m' xa = Some v"
proof -
  have "BE_OUT64 m xa v = st m xa (rev (le8 v))" by (simp add: BE_OUT64_st le8_def)
  then show "BE_OUT64 m xa v = Some m' \<Longrightarrow> BE_IN64 m' xa = Some v"
    using stored_bytes[of m xa "rev (le8 v)" m'] glue64_le8[of v] BE_IN64_in[of xa m'] by simp
qed

lemma le8_glue64: "length bs = 8 \<Longrightarrow> le8 (glue64 (rev bs)) = bs"
proof -
  assume "length bs = 8"
  then obtain a b c d e f g h where bs: "bs = [a, b, c, d, e, f, g, h]"
    by (auto simp: eval_nat_numeral length_Suc_conv)
  have byte: "ucast (drop_bit (8 * k) (glue64 (rev bs))) = bs ! k" if "k < 8" for k
  proof (rule bit_word_eqI)
    fix n assume n: "n < LENGTH(8)"
    have "k = 0 \<or> k = 1 \<or> k = 2 \<or> k = 3 \<or> k = 4 \<or> k = 5 \<or> k = 6 \<or> k = 7"
      using that by linarith
    then show "bit (ucast (drop_bit (8 * k) (glue64 (rev bs))) :: u8) n = bit (bs ! k) n"
      using n by (elim disjE) (simp_all add: bs glue64_def bit_simps bit_u8_high)
  qed
  show ?thesis
    using byte[of 0] byte[of 1] byte[of 2] byte[of 3] byte[of 4] byte[of 5] byte[of 6] byte[of 7]
    by (simp add: le8_def bs)
qed

section \<open>Swapping\<close>

lemma byte_mask: "y AND 0xff = (ucast (ucast (y :: u64) :: u8) :: u64)"
proof -
  have e: "(0xff :: u64) = mask 8" by (simp add: mask_eq_exp_minus_1)
  show ?thesis unfolding e by (rule bit_word_eqI) (auto simp: bit_simps simp del: mask_numeral)
qed

lemma BSWAP_64_glue: "BSWAP_64 x = glue64 (le8 x)"
  by (simp add: BSWAP_64_def BSWAP_32_def BSWAP_16_def BSWAP_8_def byte_mask glue64_def le8_def
      push_bit_or or.assoc)

lemma BSWAP_64_involution: "BSWAP_64 (BSWAP_64 x) = x"
  using le8_glue64[of "rev (le8 x)"] by (simp add: BSWAP_64_glue glue64_le8)

lemma BE_64_swaps_LE: "xa + 8 \<le> length m \<Longrightarrow> BE_IN64 m xa = map_option BSWAP_64 (LE_IN64 m xa)"
  by (simp add: BE_IN64_in LE_IN64_in BSWAP_64_glue le8_glue64)

end
