(* ===== verification/LZ4_Wrap.thy ===== *)
theory LZ4_Wrap
  imports LZ4_Block Byteorder
begin

text \<open>
  The decoder at the types of its C interface, and its callers: \<open>lz4_decompress_zfs\<close> of
  \<open>de.c\<close>, which reads the size a ZFS block starts with, and the Python extension
  \<open>lz4zfs.decompress\<close>. The extension's objects come from the interpreter: \<open>alloc n\<close> is
  what \<open>PyBytes_FromStringAndSize(NULL, n)\<close> returns, \<^const>\<open>None\<close> for \<open>NULL\<close>.
\<close>

section \<open>The decoder at \<open>int\<close> sizes\<close>

lemma decoder_negative_isize:
  "isize \<le> 0 \<Longrightarrow> LZ4_uncompress_unknownOutputSize arch64 daddr source dest isize n = Some (0, dest)"
  by (simp add: LZ4_uncompress_unknownOutputSize_def lz4_loop.simps)

lemma step_no_room:
  assumes "0 < I" and "I \<le> length src" and "15 + 255 * I < 2 ^ 64" and "oend < 0"
  shows "\<exists>ip'. lz4_step True daddr src (int I) oend 0 op dst = Output_error ip' dst
    \<and> 0 < ip' \<and> ip' \<le> I"
proof -
  obtain ip' n where r: "(if unat (src ! 0) div 16 = RUN_MASK
      then run_ext True src (int I) 255 1 (unat (src ! 0) div 16)
      else Some (1, unat (src ! 0) div 16)) = Some (ip', n)" "1 \<le> ip'" "ip' \<le> I"
    using run_len_ref[of 1 I src "unat (src ! 0) div 16"] assms by auto
  have "0 < length src" using assms(1,2) by linarith
  note l = ld_one[OF this]
  have "lz4_step True daddr src (int I) oend 0 op dst = Output_error ip' dst"
    using r(1) assms(4) by (simp add: lz4_step_def l Let_def COPYLENGTH_def del: One_nat_def)
  then show ?thesis using r by auto
qed

lemma decoder_no_room:
  assumes "0 < I" and "I \<le> length source" and "15 + 255 * I < 2 ^ 64" and "n < 0"
  shows "\<exists>r. LZ4_uncompress_unknownOutputSize True daddr source dest (int I) n = Some (r, dest)
    \<and> - int I \<le> r \<and> r < 0"
proof -
  obtain ip' where "lz4_step True daddr source (int I) n 0 0 dest = Output_error ip' dest"
    "0 < ip'" "ip' \<le> I"
    using step_no_room[OF assms(1-4)] by blast
  then show ?thesis
    using assms(1) by (simp add: LZ4_uncompress_unknownOutputSize_def lz4_loop.simps)
qed

text \<open>What a call of the decoder promises for sizes that describe its objects.\<close>

definition decoder_result :: "bytes \<Rightarrow> bytes \<Rightarrow> int \<Rightarrow> int \<Rightarrow> int \<Rightarrow> bytes \<Rightarrow> bool" where
  "decoder_result source dest isize n r dest' \<longleftrightarrow>
     agree_outside 0 (nat n) dest dest' \<and> - max 0 isize \<le> r \<and> r \<le> max 0 n \<and>
     (0 \<le> r \<longrightarrow> lz4_lax (take (nat isize) source) [] \<in> {Zero_offset, Out (take (nat r) dest')})"

lemma decoder_bounds: "I < 2 ^ 31 \<Longrightarrow> 15 + 255 * (I :: nat) < 2 ^ 64"
  by simp

lemma decoder_ok:
  assumes "isize \<le> int (length source)" and "isize < 2 ^ 31" and "n \<le> int (length dest)"
  shows "\<exists>r dest'. LZ4_uncompress_unknownOutputSize True daddr source dest isize n = Some (r, dest')
    \<and> decoder_result source dest isize n r dest'"
proof (cases "0 < isize")
  case False
  then have "lz4_lax (take (nat isize) source) [] = Out []"
    by (subst lz4_lax.simps) (simp add: ref_seq_def)
  then show ?thesis using False by (simp add: decoder_negative_isize decoder_result_def)
next
  case True
  obtain I where I: "isize = int I" "0 < I" using True by (metis of_nat_0_less_iff zero_less_imp_eq_int)
  have b: "I \<le> length source" "15 + 255 * I < 2 ^ 64"
    using assms(1,2) I(1) decoder_bounds[of I] by auto
  show ?thesis
  proof (cases "n < 0")
    case True
    with decoder_no_room[OF I(2) b True] show ?thesis
      using I(1) by (fastforce simp: decoder_result_def)
  next
    case False
    then obtain N where N: "n = int N" using nonneg_int_cases[of n] by auto
    obtain r dest' where "lz4_loop True daddr source (int I) (int N) 0 0 dest = Some (r, dest')"
      "result_agrees I N (lz4_lax (take I source) []) dest (r, dest')"
      using lz4_loop_spec[of 0 I source 0 N dest daddr] b assms(3) N by fastforce
    then show ?thesis
      using I N
      by (auto simp: LZ4_uncompress_unknownOutputSize_def decoder_result_def result_agrees_def
          split: if_splits)
  qed
qed

lemma decoder_encoded:
  assumes "I \<le> length source" and "I < 2 ^ 31" and "N \<le> length dest" and "daddr + N < 2 ^ 64"
    and "take I source = lz4_encode seqs lits" and "seqs_ok seqs []"
    and "5 \<le> length lits \<or> seqs = []" and "length (lz4_expand seqs lits []) \<le> N"
  shows "\<exists>dest'. LZ4_uncompress_unknownOutputSize True daddr source dest (int I) (int N)
      = Some (int (length (lz4_expand seqs lits [])), dest')
    \<and> take (length (lz4_expand seqs lits [])) dest' = lz4_expand seqs lits []
    \<and> agree_outside 0 N dest dest'"
proof -
  have I: "0 < I" using assms(1,5) length_encode_ge[of lits seqs] by (cases I) auto
  obtain dest' where l: "LZ4_uncompress_unknownOutputSize True daddr source dest (int I) (int N)
      = Some (int (length (lz4_expand seqs lits [])), dest')"
    using lz4_loop_encode[of 0 I source seqs lits 0 N dest daddr] assms I decoder_bounds[of I]
    by (auto simp: LZ4_uncompress_unknownOutputSize_def)
  moreover obtain r d where "LZ4_uncompress_unknownOutputSize True daddr source dest (int I) (int N)
      = Some (r, d)" "decoder_result source dest (int I) (int N) r d"
    using decoder_ok[of "int I" source "int N" dest daddr] assms by auto
  ultimately show ?thesis
    using lz4_lax_encode[OF assms(6), of lits] assms(5) by (auto simp: decoder_result_def)
qed

section \<open>C conversions\<close>

text \<open>Conversion of an integer to the 32-bit \<open>int\<close>, and of a \<open>uint32_t\<close> to \<open>long\<close>.\<close>

definition C_int :: "int \<Rightarrow> int" where
  "C_int x = sint (word_of_int x :: u32)"

definition C_long :: "bool \<Rightarrow> u32 \<Rightarrow> int" where
  "C_long arch64 w = (if arch64 then uint w else sint w)"

definition INT_MAX :: int where "INT_MAX = 2 ^ 31 - 1"

lemma C_int_mod: "C_int x = (x + 2 ^ 31) mod 2 ^ 32 - 2 ^ 31"
  by (simp add: C_int_def int_word_sint)

lemma C_int_id: "- (2 ^ 31) \<le> x \<Longrightarrow> x < 2 ^ 31 \<Longrightarrow> C_int x = x"
  by (simp add: C_int_mod)

lemma C_int_wrap: "2 ^ 31 \<le> x \<Longrightarrow> x < 2 ^ 32 \<Longrightarrow> C_int x = x - 2 ^ 32"
proof -
  assume x: "2 ^ 31 \<le> x" "x < 2 ^ 32"
  have "C_int x = C_int (x - 2 ^ 32)"
    using minus_mod_self2[of "x + 2 ^ 31" "2 ^ 32"] by (simp add: C_int_mod algebra_simps)
  then show "C_int x = x - 2 ^ 32" using C_int_id[of "x - 2 ^ 32"] x by simp
qed

lemma uint_u32_less: "0 \<le> uint (w :: u32) \<and> uint w < 2 ^ 32"
  using uint_lt2p[of w] uint_nonnegative[of w] by simp

lemma unat_u32_less: "unat (w :: u32) < 2 ^ 32"
  using unsigned_less[of w, where ?'a = nat] by simp

lemma C_int_uint_less: "C_int (uint (w :: u32)) < 2 ^ 31 \<and> C_int (uint w) \<le> uint w"
  using C_int_id[of "uint w"] C_int_wrap[of "uint w"] uint_u32_less[of w]
  by (cases "uint w < 2 ^ 31") simp_all

section \<open>A block with the header ZFS puts before it\<close>

definition lz4_decompress_zfs ::
    "bool \<Rightarrow> nat \<Rightarrow> bytes \<Rightarrow> bytes \<Rightarrow> nat \<Rightarrow> nat \<Rightarrow> (int \<times> bytes) option" where
  "lz4_decompress_zfs arch64 daddr s_start d_start s_len d_len =
     do { bufsiz \<leftarrow> BE_IN32 s_start 0;
          if (unat bufsiz + 4) mod 2 ^ SIZE_BITS arch64 > s_len then Some (1, d_start)
          else do {
            (l, d) \<leftarrow> LZ4_uncompress_unknownOutputSize arch64 daddr (drop 4 s_start) d_start
                        (C_int (uint bufsiz)) (C_int (int d_len));
            Some (if l < 0 then 1 else 0, d) } }"

lemma zfs_unfold:
  assumes "BE_IN32 s 0 = Some w"
  shows "lz4_decompress_zfs True daddr s d s_len d_len =
    (if unat w + 4 > s_len then Some (1, d)
     else do { (l, d') \<leftarrow> LZ4_uncompress_unknownOutputSize True daddr (drop 4 s) d
                          (C_int (uint w)) (C_int (int d_len));
               Some (if l < 0 then 1 else 0, d') })"
proof -
  have "unat w + 4 < 2 ^ 64" using unat_u32_less[of w] by simp
  then show ?thesis using assms by (simp add: lz4_decompress_zfs_def SIZE_BITS_def)
qed

lemma BE_IN32_bound: "BE_IN32 m xa = Some w \<Longrightarrow> xa + 4 \<le> length m"
  using BE_IN32_fault[of m xa] by fastforce

lemma uint_int_unat: "uint (w :: u32) = int (unat w)"
  by simp

lemma uint_less_unat: "uint (w :: u32) < 2 ^ 31 \<longleftrightarrow> unat w < 2 ^ 31"
  using of_nat_less_iff[of "unat w" "2 ^ 31", where ?'a = int] by simp

lemma C_int_unat: "unat (w :: u32) < 2 ^ 31 \<Longrightarrow> C_int (uint w) = int (unat w)"
  using C_int_id[of "uint w"] uint_less_unat[of w] uint_u32_less[of w] by simp

lemma C_int_le_unat: "C_int (uint (w :: u32)) \<le> int (unat w)"
  using C_int_uint_less[of w] uint_int_unat[of w] by linarith

lemma C_int_le: "0 \<le> x \<Longrightarrow> C_int x \<le> x"
proof -
  assume "0 \<le> x"
  then have "(x + 2 ^ 31) mod 2 ^ 32 \<le> x + 2 ^ 31" by (intro zmod_le_nonneg_dividend) simp
  then show ?thesis by (simp add: C_int_mod)
qed

text \<open>What \<open>lz4_decompress_zfs\<close> promises of its result code and of the output buffer.\<close>

definition zfs_result :: "bytes \<Rightarrow> nat \<Rightarrow> u32 \<Rightarrow> bytes \<Rightarrow> int \<Rightarrow> bytes \<Rightarrow> bool" where
  "zfs_result s d_len w d r d' \<longleftrightarrow>
     r \<in> {0, 1} \<and> agree_outside 0 d_len d d' \<and>
     (r = 0 \<and> unat w < 2 ^ 31 \<longrightarrow>
       lz4_lax (take (unat w) (drop 4 s)) [] = Zero_offset \<or>
       (\<exists>n \<le> d_len. lz4_lax (take (unat w) (drop 4 s)) [] = Out (take n d')))"

lemma zfs_ok:
  assumes "BE_IN32 s 0 = Some w" and "s_len \<le> length s" and "d_len \<le> length d"
  shows "\<exists>r d'. lz4_decompress_zfs True daddr s d s_len d_len = Some (r, d')
    \<and> zfs_result s d_len w d r d'"
proof (cases "unat w + 4 > s_len")
  case True
  then show ?thesis using assms(1) by (simp add: zfs_unfold zfs_result_def)
next
  case False
  let ?i = "C_int (uint w)" and ?n = "C_int (int d_len)"
  have "int (unat w) \<le> int (length (drop 4 s))" using False assms(2) by (simp del: of_nat_unat)
  then have i: "?i \<le> int (length (drop 4 s))" "?i < 2 ^ 31"
    using C_int_le_unat[of w] C_int_uint_less[of w] by linarith+
  have n: "?n \<le> int d_len" using C_int_le[of "int d_len"] by simp
  obtain r d' where l: "LZ4_uncompress_unknownOutputSize True daddr (drop 4 s) d ?i ?n = Some (r, d')"
    "decoder_result (drop 4 s) d ?i ?n r d'"
    using decoder_ok[OF i, of ?n d daddr] n assms(3) by auto
  have "nat ?i = unat w" if "unat w < 2 ^ 31" using C_int_unat[OF that] by simp
  moreover have "nat r \<le> d_len" using l(2) n by (auto simp: decoder_result_def)
  ultimately have "zfs_result s d_len w d (if r < 0 then 1 else 0) d'"
    using l(2) n agree_outside_mono[of 0 "nat ?n" d d' 0 d_len]
    by (auto simp: zfs_result_def decoder_result_def)
  then show ?thesis using False l(1) assms(1) by (simp add: zfs_unfold)
qed

lemma zfs_encoded:
  assumes "BE_IN32 s 0 = Some w" and "unat w + 4 \<le> s_len" and "s_len \<le> length s"
    and "unat w < 2 ^ 31" and "d_len \<le> length d" and "d_len < 2 ^ 31" and "daddr + d_len < 2 ^ 64"
    and "take (unat w) (drop 4 s) = lz4_encode seqs lits" and "seqs_ok seqs []"
    and "5 \<le> length lits \<or> seqs = []" and "length (lz4_expand seqs lits []) \<le> d_len"
  shows "\<exists>d'. lz4_decompress_zfs True daddr s d s_len d_len = Some (0, d')
    \<and> take (length (lz4_expand seqs lits [])) d' = lz4_expand seqs lits []
    \<and> agree_outside 0 d_len d d'"
proof -
  have c: "C_int (uint w) = int (unat w)" "C_int (int d_len) = int d_len"
    using C_int_unat[OF assms(4)] C_int_id[of "int d_len"] assms(6) by auto
  have "unat w \<le> length (drop 4 s)" using assms(2,3) by simp
  then obtain d' where "LZ4_uncompress_unknownOutputSize True daddr (drop 4 s) d (int (unat w)) (int d_len)
      = Some (int (length (lz4_expand seqs lits [])), d')"
    "take (length (lz4_expand seqs lits [])) d' = lz4_expand seqs lits []" "agree_outside 0 d_len d d'"
    using decoder_encoded[of "unat w" "drop 4 s" d_len d daddr seqs lits] assms by auto
  then show ?thesis using assms(1,2) by (simp add: zfs_unfold c)
qed

lemma zfs_huge:
  assumes "BE_IN32 s 0 = Some w" and "2 ^ 31 \<le> unat w" and "unat w + 4 \<le> s_len"
  shows "lz4_decompress_zfs True daddr s d s_len d_len = Some (0, d)"
proof -
  have "2 ^ 31 \<le> uint w" using assms(2) uint_less_unat[of w] by simp
  then have "C_int (uint w) \<le> 0" using C_int_wrap[of "uint w"] uint_u32_less[of w] by simp
  then show ?thesis using assms by (simp add: zfs_unfold decoder_negative_isize)
qed

section \<open>The Python extension\<close>

datatype py_error =
    Input_too_short | Invalid_size int | Corrupt_input int | No_memory

definition hdr_size :: nat where "hdr_size = 4"

definition py_lz4_uncompress ::
    "bool \<Rightarrow> nat \<Rightarrow> (int \<Rightarrow> bytes option) \<Rightarrow> bytes \<Rightarrow> int \<Rightarrow> int \<Rightarrow> (py_error + bytes) option" where
  "py_lz4_uncompress arch64 daddr alloc source buf_size dest_size =
     do { hdr \<leftarrow> BE_IN32 source 0;
          let source_size = C_long arch64 hdr;
          if source_size > buf_size then Some (Inl Input_too_short)
          else if source_size > INT_MAX then Some (Inl (Invalid_size source_size))
          else (case alloc dest_size of
                  None \<Rightarrow> Some (Inl No_memory)
                | Some dest \<Rightarrow>
                    (if dest_size > 0 then do {
                       (osize, dest') \<leftarrow> LZ4_uncompress_unknownOutputSize arch64 daddr
                          (drop hdr_size source) dest (C_int source_size) (C_int dest_size);
                       if osize < 0 then Some (Inl (Corrupt_input (- osize))) else Some (Inr dest') }
                     else Some (Inr dest))) }"

lemma py_ok:
  assumes "BE_IN32 source 0 = Some w" and "unat w + 4 \<le> length source" and "unat w < 2 ^ 31"
    and "\<And>dest. alloc dest_size = Some dest \<Longrightarrow> length dest = nat dest_size"
    and "dest_size < 2 ^ 31"
  shows "\<exists>res. py_lz4_uncompress True daddr alloc source buf_size dest_size = Some res
    \<and> (\<forall>out. res = Inr out \<longrightarrow> length out = nat dest_size)"
proof (cases "alloc dest_size")
  case None
  then show ?thesis using assms(1) by (auto simp: py_lz4_uncompress_def Let_def)
next
  case (Some dest)
  show ?thesis
  proof (cases "dest_size > 0")
    case False
    then show ?thesis using assms(1) assms(4)[OF Some] Some by (auto simp: py_lz4_uncompress_def Let_def)
  next
    case True
    have c: "C_int (uint w) = int (unat w)" "C_int dest_size = dest_size"
      using C_int_unat[OF assms(3)] C_int_id[of dest_size] assms(5) True by auto
    have "int (unat w) \<le> int (length (drop hdr_size source))"
      using assms(2) by (simp add: hdr_size_def del: of_nat_unat)
    then obtain r d' where l: "LZ4_uncompress_unknownOutputSize True daddr (drop hdr_size source) dest
        (int (unat w)) dest_size = Some (r, d')"
      "decoder_result (drop hdr_size source) dest (int (unat w)) dest_size r d'"
      using decoder_ok[of "int (unat w)" "drop hdr_size source" dest_size dest daddr]
        assms(3) assms(4)[OF Some] True uint_less_unat[of w] by auto
    have "length d' = nat dest_size"
      using l(2) assms(4)[OF Some] agree_outside_length[of 0 "nat dest_size" dest d']
      by (simp add: decoder_result_def)
    then show ?thesis
      using assms(1) Some True l(1) c by (auto simp: py_lz4_uncompress_def C_long_def Let_def)
  qed
qed

section \<open>The bindings to the system library\<close>

text \<open>
  \<open>python-lz4.c\<close> puts a little-endian length before what the system's LZ4 library
  produces. The library is not part of the repository: \<open>bound\<close>, \<open>compress\<close> (the bytes
  it writes at \<open>dest\<close>) and \<open>decompress\<close> (its result code and the output object) are
  arguments, and \<open>resize r n\<close> is what \<open>_PyBytes_Resize\<close> leaves in \<open>result\<close>.
\<close>

definition store_le32 :: "bytes \<Rightarrow> nat \<Rightarrow> u32 \<Rightarrow> bytes option" where
  "store_le32 m c x =
     do { m \<leftarrow> st m c [ucast (x AND 0xff)];
          m \<leftarrow> st m (c + 1) [ucast (drop_bit 8 x AND 0xff)];
          m \<leftarrow> st m (c + 2) [ucast (drop_bit 16 x AND 0xff)];
          st m (c + 3) [ucast (drop_bit 24 x AND 0xff)] }"

definition load_le32 :: "bytes \<Rightarrow> nat \<Rightarrow> u32 option" where
  "load_le32 m c =
     do { d0 \<leftarrow> ld m c 1; d1 \<leftarrow> ld m (c + 1) 1; d2 \<leftarrow> ld m (c + 2) 1; d3 \<leftarrow> ld m (c + 3) 1;
          Some (ucast (hd d0) OR push_bit 8 (ucast (hd d1)) OR push_bit 16 (ucast (hd d2))
                OR push_bit 24 (ucast (hd d3))) }"

definition compress_with ::
    "(int \<Rightarrow> int) \<Rightarrow> (bytes \<Rightarrow> bytes) \<Rightarrow> (int \<Rightarrow> bytes option) \<Rightarrow> (bytes \<Rightarrow> nat \<Rightarrow> bytes option)
     \<Rightarrow> bytes \<Rightarrow> int \<Rightarrow> (py_error + bytes) option" where
  "compress_with bound compress alloc resize source src_size =
     (let dest_size = int hdr_size + bound src_size
      in case alloc dest_size of
           None \<Rightarrow> Some (Inl No_memory)
         | Some result \<Rightarrow> do {
             result \<leftarrow> store_le32 result 0 (word_of_int src_size);
             if src_size > 0 then do {
               let out = compress (take (nat src_size) source);
               result \<leftarrow> st result hdr_size out;
               let actual_size = hdr_size + length out;
               if int actual_size < dest_size div 4 * 3
               then (case resize result actual_size of
                       None \<Rightarrow> Some (Inl No_memory) | Some r \<Rightarrow> Some (Inr r))
               else Some (Inr (take actual_size result)) }
             else Some (Inr result) })"

definition sys_lz4_uncompress ::
    "(bytes \<Rightarrow> bytes \<Rightarrow> int \<times> bytes) \<Rightarrow> (int \<Rightarrow> bytes option) \<Rightarrow> bytes \<Rightarrow> int
     \<Rightarrow> (py_error + bytes) option" where
  "sys_lz4_uncompress decompress alloc source src_size =
     (if src_size < int hdr_size then Some (Inl Input_too_short)
      else do {
        dest_size \<leftarrow> load_le32 source 0;
        if uint dest_size > INT_MAX then Some (Inl (Invalid_size (uint dest_size)))
        else (case alloc (uint dest_size) of
                None \<Rightarrow> Some (Inl No_memory)
              | Some dest \<Rightarrow>
                  (if dest_size > 0 then
                     (case decompress (take (nat src_size - hdr_size) (drop hdr_size source)) dest of
                        (osize, dest') \<Rightarrow>
                          (if osize < 0 then Some (Inl (Corrupt_input (- osize)))
                           else Some (Inr dest')))
                   else Some (Inr dest))) })"

lemma st_after:
  "length bs \<le> length t \<Longrightarrow> st (h @ t) (length h) bs = Some (h @ bs @ drop (length bs) t)"
  by (simp add: st_def)

lemma take_header: "length h = 4 \<Longrightarrow> take (4 + length bs) (h @ bs @ t) = h @ bs"
  by simp

lemma st_then_st:
  "(do { m1 \<leftarrow> st m c x; m2 \<leftarrow> st m1 (c + length x) y; k m2 }) = (do { m2 \<leftarrow> st m c (x @ y); k m2 })"
  by (simp add: st_append_fwd[symmetric])

lemma st_bytes4:
  "(do { m \<leftarrow> st m c [x0]; m \<leftarrow> st m (c + 1) [x1]; m \<leftarrow> st m (c + 2) [x2]; st m (c + 3) [x3] })
   = st m c [x0, x1, x2, x3]"
  using st_then_st[of m c "[x0]" "[x1]" "\<lambda>m. do { m \<leftarrow> st m (c + 2) [x2]; st m (c + 3) [x3] }"]
    st_then_st[of m c "[x0, x1]" "[x2]" "\<lambda>m. st m (c + 3) [x3]"]
    st_append_fwd[of m c "[x0, x1, x2]" "[x3]"]
  by (simp add: numeral_2_eq_2 numeral_3_eq_3)

lemma low_byte32: "ucast (x AND 0xff :: u32) = (ucast (x :: u32) :: u8)"
proof -
  have e: "(0xff :: u32) = mask 8" by (simp add: mask_eq_exp_minus_1)
  show ?thesis unfolding e by (rule bit_word_eqI) (auto simp: bit_simps simp del: mask_numeral)
qed

lemma byte_of_wide: "ucast (drop_bit k (ucast (x :: u32) :: u64)) = (ucast (drop_bit k x) :: u8)"
  by (rule bit_word_eqI) (auto simp: bit_simps dest: bit_imp_le_length)

lemma store_le32_st:
  "store_le32 m c x = st m c [ucast x, ucast (drop_bit 8 x), ucast (drop_bit 16 x), ucast (drop_bit 24 x)]"
  by (simp only: store_le32_def low_byte32 st_bytes4)

lemma store_le32_LE: "store_le32 m c x = LE_OUT32 m c (ucast x)"
  using byte_of_wide[of 0 x] by (simp add: store_le32_st LE_OUT32_st byte_of_wide)

lemma load_le32_in:
  "c + 4 \<le> length m \<Longrightarrow> load_le32 m c = Some (ucast (m ! c) OR push_bit 8 (ucast (m ! (c + 1)))
     OR push_bit 16 (ucast (m ! (c + 2))) OR push_bit 24 (ucast (m ! (c + 3))))"
  using ld_one[of c m] ld_one[of "c + 1" m] ld_one[of "c + 2" m] ld_one[of "c + 3" m]
  by (simp add: load_le32_def)

lemma load_le32_bytes:
  "load_le32 (ucast x # ucast (drop_bit 8 x) # ucast (drop_bit 16 x) # ucast (drop_bit 24 x) # m) 0
   = Some x"
proof -
  have "ucast (ucast x :: u8) OR push_bit 8 (ucast (ucast (drop_bit 8 x) :: u8))
      OR push_bit 16 (ucast (ucast (drop_bit 16 x) :: u8)) OR push_bit 24 (ucast (ucast (drop_bit 24 x) :: u8))
    = (x :: u32)" (is "?l = x")
  proof (rule bit_word_eqI)
    fix n assume "n < LENGTH(32)"
    then show "bit ?l n = bit x n"
      by (cases "24 \<le> n"; cases "16 \<le> n") (auto simp: bit_simps not_less dest: bit_imp_le_length)
  qed
  then show ?thesis by (subst load_le32_in) simp_all
qed

section \<open>What the system library promises\<close>

definition LZ4_MAX_INPUT_SIZE :: nat where "LZ4_MAX_INPUT_SIZE = 0x7E000000"

locale lz4_library =
  fixes bound :: "int \<Rightarrow> int"
    and compress :: "bytes \<Rightarrow> bytes"
    and decompress :: "bytes \<Rightarrow> bytes \<Rightarrow> int \<times> bytes"
  assumes compress_bound:
      "length src \<le> LZ4_MAX_INPUT_SIZE \<Longrightarrow> int (length (compress src)) \<le> bound (int (length src))"
    and decompress_compress:
      "src \<noteq> [] \<Longrightarrow> length src \<le> LZ4_MAX_INPUT_SIZE \<Longrightarrow> length dest = length src
        \<Longrightarrow> decompress (compress src) dest = (int (length src), src)"
begin

lemma compress_result:
  assumes "src \<noteq> []" and "length src \<le> LZ4_MAX_INPUT_SIZE"
    and "alloc (4 + bound (int (length src))) = Some result"
    and "length result = nat (4 + bound (int (length src)))"
    and "\<forall>r n. resize r n = Some (take n r)"
  shows "compress_with bound compress alloc resize src (int (length src))
    = Some (Inr (ucast (word_of_nat (length src) :: u32)
        # ucast (drop_bit 8 (word_of_nat (length src) :: u32))
        # ucast (drop_bit 16 (word_of_nat (length src) :: u32))
        # ucast (drop_bit 24 (word_of_nat (length src) :: u32)) # compress src))"
proof -
  let ?x = "word_of_nat (length src) :: u32"
  let ?h = "[ucast ?x, ucast (drop_bit 8 ?x), ucast (drop_bit 16 ?x), ucast (drop_bit 24 ?x)] :: bytes"
  have c: "4 + length (compress src) \<le> length result"
    using compress_bound[OF assms(2)] assms(4) by linarith
  have h: "store_le32 result 0 ?x = Some (?h @ drop 4 result)"
    using c by (simp add: store_le32_st st_def eval_nat_numeral)
  have d: "st (?h @ drop 4 result) hdr_size (compress src)
      = Some (?h @ compress src @ drop (4 + length (compress src)) result)"
    using c st_after[of "compress src" "drop 4 result" ?h] by (simp add: hdr_size_def add.commute eval_nat_numeral)
  show ?thesis
    using assms(1,3,5) h d take_header[of ?h "compress src"]
    by (simp add: compress_with_def hdr_size_def Let_def)
qed

lemma wrapper_roundtrip:
  assumes "src \<noteq> []" and "length src \<le> LZ4_MAX_INPUT_SIZE"
    and "alloc (4 + bound (int (length src))) = Some result"
    and "length result = nat (4 + bound (int (length src)))"
    and "\<forall>r n. resize r n = Some (take n r)"
    and "alloc (int (length src)) = Some dest" and "length dest = length src"
  shows "\<exists>out. compress_with bound compress alloc resize src (int (length src)) = Some (Inr out)
    \<and> sys_lz4_uncompress decompress alloc out (int (length out)) = Some (Inr src)"
proof -
  have u: "unat (word_of_nat (length src) :: u32) = length src"
    using assms(2) by (simp add: unat_of_nat LZ4_MAX_INPUT_SIZE_def)
  then have i: "uint (word_of_nat (length src) :: u32) = int (length src)"
    using uint_int_unat by metis
  have z: "(0 :: u32) < word_of_nat (length src)"
    using u assms(1) by (metis length_0_conv unat_0 word_gt_0)
  show ?thesis
    using compress_result[where src = src and alloc = alloc and resize = resize and result = result,
        OF assms(1-5)] assms(2,6) decompress_compress[OF assms(1,2,7)] i z
    by (auto simp: sys_lz4_uncompress_def hdr_size_def load_le32_bytes INT_MAX_def
        LZ4_MAX_INPUT_SIZE_def)
qed

end

text \<open>
  The decoder of \<open>de.c\<close>, with the encoder that stores every byte as a literal, keeps
  these promises.
\<close>

definition literal_bound :: "int \<Rightarrow> int" where
  "literal_bound n = n + n div 255 + 16"

definition decode_block :: "bytes \<Rightarrow> bytes \<Rightarrow> int \<times> bytes" where
  "decode_block s d =
     (case LZ4_uncompress_unknownOutputSize True 0 s d (int (length s)) (int (length d)) of
        Some r \<Rightarrow> r | None \<Rightarrow> (- 1, d))"

lemma length_enc_ext: "length (enc_ext n) = n div 255 + 1"
proof (induction n rule: enc_ext.induct)
  case (1 n)
  then show ?case by (subst enc_ext.simps) (simp add: le_div_geq)
qed

lemma literal_size: "length (lz4_encode [] src) \<le> length src + length src div 255 + 2"
proof -
  have "(length src - 15) div 255 \<le> length src div 255" by (rule div_le_mono) simp
  then show ?thesis by (simp add: lz4_encode_def enc_last_def enc_tail_def length_enc_ext)
qed

lemma literal_size_int: "int (length (lz4_encode [] src)) \<le> literal_bound (int (length src))"
  using literal_size[of src] by (simp add: literal_bound_def zdiv_int)

lemma literal_roundtrip:
  assumes "length src \<le> LZ4_MAX_INPUT_SIZE" and "length dest = length src"
  shows "decode_block (lz4_encode [] src) dest = (int (length src), src)"
proof -
  have "length src div 255 \<le> LZ4_MAX_INPUT_SIZE div 255" by (rule div_le_mono[OF assms(1)])
  then have s: "length (lz4_encode [] src) < 2 ^ 31"
    using literal_size[of src] assms(1) by (simp add: LZ4_MAX_INPUT_SIZE_def)
  obtain d where "LZ4_uncompress_unknownOutputSize True 0 (lz4_encode [] src) dest
      (int (length (lz4_encode [] src))) (int (length src)) = Some (int (length src), d)"
    "take (length src) d = src" "agree_outside 0 (length src) dest d"
    using decoder_encoded[of "length (lz4_encode [] src)" "lz4_encode [] src" "length src" dest 0 "[]" src]
      assms s by (auto simp: lz4_expand_def LZ4_MAX_INPUT_SIZE_def)
  then show ?thesis
    using assms(2) agree_outside_length[of 0 "length src" dest d] by (simp add: decode_block_def)
qed

lemma stored_library: "lz4_library literal_bound (lz4_encode []) decode_block"
  by unfold_locales (simp_all add: literal_size_int literal_roundtrip)

interpretation stored: lz4_library literal_bound "lz4_encode []" decode_block
  by (rule stored_library)

end
