(* ===== verification/LZ4_Props.thy ===== *)
theory LZ4_Props
  imports LZ4_Wrap "HOL-Library.Code_Target_Nat"
begin

text \<open>
  The properties of the LZ4 decoder and of its callers. The 64-bit build decodes every
  block within its buffers and to the bytes the format gives it; it also accepts three
  kinds of blocks that the format does not have. The 32-bit build and the Python binding
  do not keep all that their comments promise.
\<close>

section \<open>The decoder\<close>

text \<open>C1: On the 64-bit build the decoder is safe for every input and every pair of sizes
  that fit the two objects, negative ones included: it returns, reads and writes inside
  the objects, changes nothing past the first \<open>maxOutputSize\<close> bytes, and its result is a
  count of decoded bytes within \<open>maxOutputSize\<close> or a negated position within the input.\<close>

theorem lz4_decoder_safe:
  assumes "isize \<le> int (length source)" and "isize < 2 ^ 31"
    and "maxOutputSize \<le> int (length dest)"
  shows "\<exists>r dest'. LZ4_uncompress_unknownOutputSize True daddr source dest isize maxOutputSize
      = Some (r, dest')
    \<and> agree_outside 0 (nat maxOutputSize) dest dest'
    \<and> - max 0 isize \<le> r \<and> r \<le> max 0 maxOutputSize"
  using decoder_ok[OF assms, of daddr] by (auto simp: decoder_result_def)

theorem lz4_decoder_safe_witness:
  "\<exists>r dest'. LZ4_uncompress_unknownOutputSize True 4096 [0x1f, 7, 9, 0, 255] [0, 0, 0, 0] 5 (- 3)
      = Some (r, dest')
    \<and> agree_outside 0 (nat (- 3)) [0, 0, 0, 0] dest' \<and> - max 0 5 \<le> r \<and> r \<le> max 0 (- 3)"
  using lz4_decoder_safe[of 5 "[0x1f, 7, 9, 0, 255]" "- 3" "[0, 0, 0, 0]" 4096] by simp

text \<open>C3: What the decoder of the 64-bit build accepts (a result that is not negative), with
  sizes that fit the two buffers and an input below 2 GB, is, as a block of the LZ4 format, one of four things: a block of that many bytes, and they are
  what the output holds; a block that stops in the middle of a match length, or one
  without a last run of literals, where the output holds the bytes read so far; or a
  block with a match at distance zero. Everything else (literals, a length of literals or
  an offset cut off, an offset before the output) gets a negative result.\<close>

theorem lz4_decoder_sound:
  assumes "LZ4_uncompress_unknownOutputSize True daddr source dest isize maxOutputSize = Some (r, dest')"
    and "isize \<le> int (length source)" and "isize < 2 ^ 31"
    and "maxOutputSize \<le> int (length dest)" and "0 \<le> r"
  shows "lz4_format (take (nat isize) source) []
    \<in> {Block (take (nat r) dest'), Cut_length (take (nat r) dest'),
       No_last_literals (take (nat r) dest'), No_distance}"
  using decoder_ok[OF assms(2-4), of daddr] assms(1,5)
  by (auto simp: decoder_result_def dest!: lax_view_OutD lax_view_Zero_offsetD)

text \<open>C2: On the 64-bit build every block written from well-formed sequences (an offset into what is already
  decoded, matches of four or more bytes, and five or more last literals) is decoded to
  the bytes the sequences stand for, as soon as the output has room for them.\<close>

theorem lz4_roundtrip:
  assumes "isize \<le> length source" and "isize < 2 ^ 31"
    and "n \<le> length dest" and "daddr + n < 2 ^ 64"
    and "take isize source = lz4_encode seqs lits" and "seqs_ok seqs []"
    and "5 \<le> length lits \<or> seqs = []" and "length (lz4_expand seqs lits []) \<le> n"
  shows "\<exists>dest'. LZ4_uncompress_unknownOutputSize True daddr source dest (int isize) (int n)
      = Some (int (length (lz4_expand seqs lits [])), dest')
    \<and> take (length (lz4_expand seqs lits [])) dest' = lz4_expand seqs lits []
    \<and> agree_outside 0 n dest dest'"
  by (rule decoder_encoded[OF assms])

text \<open>A block of one match and five last literals, used by the examples below.\<close>

definition example_seqs :: "lz4_seq list" where
  "example_seqs = [\<lparr>sq_lits = [1, 2, 3, 4], sq_off = 4, sq_len = 4\<rparr>]"

definition example_lits :: bytes where "example_lits = [5, 6, 7, 8, 9]"

definition example_block :: bytes where
  "example_block = [0x40, 1, 2, 3, 4, 4, 0, 0x50, 5, 6, 7, 8, 9]"

lemma example_encode: "lz4_encode example_seqs example_lits = example_block"
  by code_simp

lemma example_expand: "lz4_expand example_seqs example_lits [] = [1, 2, 3, 4, 1, 2, 3, 4, 5, 6, 7, 8, 9]"
  by code_simp

lemma example_ok: "seqs_ok example_seqs []"
  by code_simp

lemma example_decode:
  "LZ4_uncompress_unknownOutputSize True 4096 example_block (replicate 13 0) 13 13
   = Some (13, [1, 2, 3, 4, 1, 2, 3, 4, 5, 6, 7, 8, 9])"
  by code_simp

theorem lz4_decoder_sound_witness:
  "lz4_format example_block []
    \<in> {Block [1, 2, 3, 4, 1, 2, 3, 4, 5, 6, 7, 8, 9], Cut_length [1, 2, 3, 4, 1, 2, 3, 4, 5, 6, 7, 8, 9],
       No_last_literals [1, 2, 3, 4, 1, 2, 3, 4, 5, 6, 7, 8, 9], No_distance}"
proof -
  have l: "length example_block = 13" by (simp add: example_block_def)
  show ?thesis
    using lz4_decoder_sound[OF example_decode] by (simp add: l)
qed

theorem lz4_roundtrip_witness:
  "\<exists>dest'. LZ4_uncompress_unknownOutputSize True 4096 example_block (replicate 20 0) (int 13) (int 20)
      = Some (13, dest')
    \<and> take (length (lz4_expand example_seqs example_lits [])) dest' = [1, 2, 3, 4, 1, 2, 3, 4, 5, 6, 7, 8, 9]
    \<and> agree_outside 0 20 (replicate 20 0) dest'"
proof -
  have l: "length example_block = 13" by (simp add: example_block_def)
  show ?thesis
    using lz4_roundtrip[of 13 example_block 20 "replicate 20 0" 4096 example_seqs example_lits]
    by (simp add: l example_encode example_ok example_expand) (simp add: example_lits_def)
qed

text \<open>Blocks the decoder accepts although the format does not have them (the comment before
  the decoder promises a negative result for a corrupted input): one that is cut off
  inside a match length, and one that ends with a match. (Eight bytes must follow the
  literals of the last sequence, so its match length takes six bytes or more.)\<close>

lemma decoder_only_match:
  assumes "0 < I" and "I \<le> length src" and "N \<le> length dst" and "15 + 255 * I < 2 ^ 64"
    and "daddr + N < 2 ^ 64" and "seq_fits N (take I src) []" and "ref_seq (take I src) [] = More [] out"
  shows "\<exists>d. LZ4_uncompress_unknownOutputSize True daddr src dst (int I) (int N)
      = Some (int (length out), d) \<and> take (length out) d = out"
proof -
  obtain ip' op' dst' where
    c: "lz4_step True daddr src (int I) (int N) 0 0 dst = Continue ip' op' dst'"
    "ip' \<le> I" "op' \<le> N" "agree_outside 0 N dst dst'" "drop ip' (take I src) = []" "take op' dst' = out"
    using lz4_step_spec[OF assms(1,2) le0 assms(3,4), of daddr]
      lz4_step_fits[OF assms(1,2) le0 assms(3,4,5)] assms(6,7)
    by (fastforce simp: seq_agrees_def split: lz4_ctl.splits)
  have "ip' = I" "op' = length out"
    using c assms(2,3) agree_outside_length[OF c(4)] by (auto simp: min_def split: if_splits)
  then show ?thesis
    using c(1,6) assms(1) by (simp add: LZ4_uncompress_unknownOutputSize_def lz4_loop_unfold lz4_loop_end)
qed

definition cut_block :: bytes where "cut_block = [0x1f, 7, 1, 0, 255, 255, 255, 255, 255, 255]"

definition match_block :: bytes where "match_block = [0x1f, 7, 1, 0, 255, 255, 255, 255, 255, 0]"

theorem lz4_accepts_cut_length:
  "lz4_format cut_block [] = Cut_length (match_bytes 1 1549 [7])
   \<and> (\<exists>d. LZ4_uncompress_unknownOutputSize True 4096 cut_block (replicate 2000 0) 10 2000 = Some (1550, d))"
  using decoder_only_match[of 10 cut_block 2000 "replicate 2000 0" 4096 "match_bytes 1 1549 [7]"]
  by (auto simp: cut_block_def seq_fits_def ref_seq_def ref_len_def ref_match_def length_match_bytes
      lz4_format.simps fmt_seq_def fmt_len_def fmt_match_def del: match_bytes.simps)

theorem lz4_accepts_last_match:
  "lz4_format match_block [] = No_last_literals (match_bytes 1 1294 [7])
   \<and> (\<exists>d. LZ4_uncompress_unknownOutputSize True 4096 match_block (replicate 2000 0) 10 2000 = Some (1295, d))"
  using decoder_only_match[of 10 match_block 2000 "replicate 2000 0" 4096 "match_bytes 1 1294 [7]"]
  by (auto simp: match_block_def seq_fits_def ref_seq_def ref_len_def ref_match_def length_match_bytes
      lz4_format.simps fmt_seq_def fmt_len_def fmt_match_def del: match_bytes.simps)

text \<open>On the 32-bit build the same well-formed block makes the decoder write past the end
  of the output buffer: there \<open>LZ4_SECURECOPY\<close> is the plain wide copy, whose first eight
  bytes nothing tests. (The comment before the decoder promises that it never writes
  outside of the output buffer.)\<close>

theorem lz4_32bit_overflow:
  "LZ4_uncompress_unknownOutputSize False 4096 example_block (replicate 13 0) 13 13 = None
   \<and> LZ4_uncompress_unknownOutputSize True 4096 example_block (replicate 13 0) 13 13
     = Some (13, [1, 2, 3, 4, 1, 2, 3, 4, 5, 6, 7, 8, 9])"
  using example_decode by code_simp

definition zero_offset_block :: bytes where
  "zero_offset_block = [0x1b, 1, 0, 0, 0x50, 5, 6, 7, 8, 9]"

text \<open>A match at distance zero is accepted and copies what the output buffer happened to
  hold before the call: the same block decodes to 21 bytes that differ between buffers.\<close>

theorem lz4_zero_offset_leaks:
  "\<exists>d1 d2. LZ4_uncompress_unknownOutputSize True 4096 zero_offset_block (replicate 32 0x11) 10 32
      = Some (21, d1)
    \<and> LZ4_uncompress_unknownOutputSize True 4096 zero_offset_block (replicate 32 0x22) 10 32
      = Some (21, d2)
    \<and> take 21 d1 = [1, 0, 0, 80, 5, 6, 7, 8, 0x11, 6, 7, 8, 0x11, 0x11, 0x11, 0x11, 5, 6, 7, 8, 9]
    \<and> take 21 d2 = [1, 0, 0, 80, 5, 6, 7, 8, 0x22, 6, 7, 8, 0x22, 0x22, 0x22, 0x22, 5, 6, 7, 8, 9]"
proof -
  have "LZ4_uncompress_unknownOutputSize True 4096 zero_offset_block (replicate 32 b) 10 32
      = Some (21, [1, 0, 0, 80, 5, 6, 7, 8, b, 6, 7, 8, b, b, b, b, 5, 6, 7, 8, 9] @ replicate 11 b)"
    if "b = 0x11 \<or> b = 0x22" for b
    using that by (elim disjE) (hypsubst, code_simp)+
  from this[of "0x11"] this[of "0x22"] show ?thesis by simp
qed

section \<open>The callers\<close>

text \<open>C11: On the 64-bit build \<open>lz4_decompress_zfs\<close> is total on every buffer that holds the size
  field: it returns 0 or 1 and leaves the output past \<open>d_len\<close> untouched. With 0 and a size
  below 2 GB the output starts with the bytes of the block, which may also be one that
  stops in a match length or has no last literals; or the block has a match at distance
  zero, and then nothing is said of what the output holds.\<close>

theorem lz4_zfs_safe:
  assumes "BE_IN32 s_start 0 = Some bufsiz" and "s_len \<le> length s_start" and "d_len \<le> length d_start"
  shows "\<exists>r d. lz4_decompress_zfs True daddr s_start d_start s_len d_len = Some (r, d)
    \<and> r \<in> {0, 1} \<and> agree_outside 0 d_len d_start d
    \<and> (r = 0 \<and> unat bufsiz < 2 ^ 31 \<longrightarrow>
        lz4_format (take (unat bufsiz) (drop 4 s_start)) [] = No_distance \<or>
        (\<exists>n \<le> d_len. lz4_format (take (unat bufsiz) (drop 4 s_start)) []
          \<in> {Block (take n d), Cut_length (take n d), No_last_literals (take n d)}))"
  using zfs_ok[OF assms, of daddr]
  by (fastforce simp: zfs_result_def dest!: lax_view_OutD lax_view_Zero_offsetD)

definition example_zfs :: bytes where
  "example_zfs = [0, 0, 0, 13] @ example_block @ [0, 0, 0]"

lemma example_header: "BE_IN32 example_zfs 0 = Some 13"
  by code_simp

lemma example_zfs_length: "length example_zfs = 20"
  by code_simp

lemma example_zfs_payload: "take 13 (drop 4 example_zfs) = lz4_encode example_seqs example_lits"
  by code_simp

theorem lz4_zfs_safe_witness:
  "\<exists>r d. lz4_decompress_zfs True 4096 example_zfs (replicate 16 0) 20 16 = Some (r, d)
    \<and> r \<in> {0, 1} \<and> agree_outside 0 16 (replicate 16 0) d
    \<and> (r = 0 \<and> unat (13 :: u32) < 2 ^ 31 \<longrightarrow>
        lz4_format (take (unat (13 :: u32)) (drop 4 example_zfs)) [] = No_distance \<or>
        (\<exists>n \<le> 16. lz4_format (take (unat (13 :: u32)) (drop 4 example_zfs)) []
          \<in> {Block (take n d), Cut_length (take n d), No_last_literals (take n d)}))"
  by (rule lz4_zfs_safe[OF example_header]) (simp_all add: example_zfs_length)

text \<open>C12: On the 64-bit build a ZFS block (big-endian size, then an LZ4 block of that size, then padding) written
  from well-formed sequences decompresses with result 0 to the bytes they stand for.\<close>

theorem lz4_zfs_roundtrip:
  assumes "BE_IN32 s_start 0 = Some bufsiz" and "unat bufsiz + 4 \<le> s_len"
    and "s_len \<le> length s_start" and "unat bufsiz < 2 ^ 31"
    and "d_len \<le> length d_start" and "d_len < 2 ^ 31" and "daddr + d_len < 2 ^ 64"
    and "take (unat bufsiz) (drop 4 s_start) = lz4_encode seqs lits" and "seqs_ok seqs []"
    and "5 \<le> length lits \<or> seqs = []" and "length (lz4_expand seqs lits []) \<le> d_len"
  shows "\<exists>d. lz4_decompress_zfs True daddr s_start d_start s_len d_len = Some (0, d)
    \<and> take (length (lz4_expand seqs lits [])) d = lz4_expand seqs lits []
    \<and> agree_outside 0 d_len d_start d"
  by (rule zfs_encoded[OF assms])

theorem lz4_zfs_roundtrip_witness:
  "\<exists>d. lz4_decompress_zfs True 4096 example_zfs (replicate 16 0) 20 16 = Some (0, d)
    \<and> take (length (lz4_expand example_seqs example_lits [])) d = lz4_expand example_seqs example_lits []
    \<and> agree_outside 0 16 (replicate 16 0) d"
  by (rule lz4_zfs_roundtrip[OF example_header])
    (simp_all add: example_zfs_length example_zfs_payload example_ok example_expand,
     simp add: example_lits_def)

text \<open>A size field of 2 GB or more (which the test against \<open>s_len\<close> lets through for a
  large enough buffer) is negative as the decoder's \<open>int\<close>: the call reports success and
  decodes nothing.\<close>

theorem lz4_zfs_huge_size:
  assumes "BE_IN32 s_start 0 = Some bufsiz" and "2 ^ 31 \<le> unat bufsiz" and "unat bufsiz + 4 \<le> s_len"
  shows "lz4_decompress_zfs True daddr s_start d_start s_len d_len = Some (0, d_start)"
  by (rule zfs_huge[OF assms])

lemma huge_header: "BE_IN32 (0x80 # 0 # 0 # 0 # m) 0 = Some 0x80000000"
  by (subst BE_IN32_in) simp_all

theorem lz4_zfs_huge_size_witness:
  "lz4_decompress_zfs True 4096 (0x80 # 0 # 0 # 0 # replicate (2 ^ 31) 1) [7, 7] (2 ^ 31 + 4) 2
   = Some (0, [7, 7])"
  by (rule lz4_zfs_huge_size[OF huge_header]) simp_all

text \<open>The Python binding decodes inside its objects, and a bytes object it returns has the
  size that was asked for, when the whole block (header included) lies in the input object
  and the size asked for is an \<open>int\<close>.\<close>

theorem py_decompress_safe:
  assumes "BE_IN32 source 0 = Some w" and "unat w + 4 \<le> length source" and "unat w < 2 ^ 31"
    and "\<And>dest. alloc dest_size = Some dest \<Longrightarrow> length dest = nat dest_size"
    and "dest_size < 2 ^ 31"
  shows "\<exists>res. py_lz4_uncompress True daddr alloc source buf_size dest_size = Some res
    \<and> (\<forall>out. res = Inr out \<longrightarrow> length out = nat dest_size)"
  by (rule py_ok[OF assms])

theorem py_decompress_safe_witness:
  "\<exists>res. py_lz4_uncompress True 4096 (\<lambda>n. if 0 \<le> n then Some (replicate (nat n) 0) else None)
        example_zfs 19 16 = Some res
    \<and> (\<forall>out. res = Inr out \<longrightarrow> length out = nat 16)"
  by (rule py_decompress_safe[OF example_header]) (auto simp: example_zfs_length)

text \<open>The binding compares the size field with the size of the input without the four
  bytes of the header itself: an input of nine bytes (a bytes object of ten, with its
  final zero) whose header says nine is decoded past the end of the object.\<close>

theorem py_decompress_overread:
  "py_lz4_uncompress True 4096 (\<lambda>n. Some (replicate (nat n) 0))
     [0, 0, 0, 9, 0x80, 1, 2, 3, 4, 0] 9 16 = None"
  by code_simp

text \<open>The binding returns the whole object of \<open>dest_size\<close> bytes, also when the block decodes
  to fewer: the rest of the result is what the allocator left there.\<close>

theorem py_decompress_stale_tail:
  "py_lz4_uncompress True 4096 (\<lambda>n. Some (replicate (nat n) 0x11)) [0, 0, 0, 3, 0x20, 1, 2, 0] 7 4
     = Some (Inr [1, 2, 0x11, 0x11])
   \<and> py_lz4_uncompress True 4096 (\<lambda>n. Some (replicate (nat n) 0x22)) [0, 0, 0, 3, 0x20, 1, 2, 0] 7 4
     = Some (Inr [1, 2, 0x22, 0x22])"
  by code_simp

text \<open>With an LZ4 library that keeps its documented promises, what \<open>compress_with\<close> writes
  is uncompressed to the same bytes, for every non-empty input of the supported size.\<close>

theorem py_lz4_roundtrip:
  assumes "lz4_library bound compress decompress"
    and "src \<noteq> []" and "length src \<le> LZ4_MAX_INPUT_SIZE"
    and "alloc (4 + bound (int (length src))) = Some result"
    and "length result = nat (4 + bound (int (length src)))"
    and "\<forall>r n. resize r n = Some (take n r)"
    and "alloc (int (length src)) = Some dest" and "length dest = length src"
  shows "\<exists>out. compress_with bound compress alloc resize src (int (length src)) = Some (Inr out)
    \<and> sys_lz4_uncompress decompress alloc out (int (length out)) = Some (Inr src)"
  by (rule lz4_library.wrapper_roundtrip[OF assms])

theorem py_lz4_roundtrip_witness:
  "\<exists>out. compress_with literal_bound (lz4_encode []) (\<lambda>n. Some (replicate (nat n) 0))
        (\<lambda>r n. Some (take n r)) [3, 1, 4, 1, 5] (int (length [3, 1, 4, 1, 5 :: u8])) = Some (Inr out)
    \<and> sys_lz4_uncompress decode_block (\<lambda>n. Some (replicate (nat n) 0)) out (int (length out))
      = Some (Inr [3, 1, 4, 1, 5])"
  by (rule py_lz4_roundtrip[OF stored_library, where result = "replicate 25 0" and dest = "replicate 5 0"])
    (simp_all add: LZ4_MAX_INPUT_SIZE_def literal_bound_def)

end
