(* ===== verification/LZ4_Steps.thy ===== *)
theory LZ4_Steps
  imports LZ4
begin

text \<open>
  The main loop of \<open>LZ4_uncompress_unknownOutputSize\<close> (de.c) as a transition system: a
  state is the two positions and the output, a round is one pass through the body of the
  loop, a stop is one of its four exits. The loop function is shown to be the run of this
  system to its first stop, and every run is at most as long as the input.
\<close>

section \<open>Rounds and stops\<close>

type_synonym lz4_state = "nat \<times> nat \<times> bytes"

inductive lz4_round :: "bool \<Rightarrow> nat \<Rightarrow> bytes \<Rightarrow> int \<Rightarrow> int \<Rightarrow> lz4_state \<Rightarrow> lz4_state \<Rightarrow> bool"
  for arch64 daddr src iend oend where
  round: "\<lbrakk>int ip < iend; lz4_step arch64 daddr src iend oend ip op dst = Continue ip' op' dst'\<rbrakk> \<Longrightarrow>
     lz4_round arch64 daddr src iend oend (ip, op, dst) (ip', op', dst')"

inductive lz4_stop :: "bool \<Rightarrow> nat \<Rightarrow> bytes \<Rightarrow> int \<Rightarrow> int \<Rightarrow> lz4_state \<Rightarrow> (int \<times> bytes) option \<Rightarrow> bool"
  for arch64 daddr src iend oend where
  input_used: "iend \<le> int ip \<Longrightarrow>
     lz4_stop arch64 daddr src iend oend (ip, op, dst) (Some (int op, dst))"
| finish: "\<lbrakk>int ip < iend; lz4_step arch64 daddr src iend oend ip op dst = Finish op' dst'\<rbrakk> \<Longrightarrow>
     lz4_stop arch64 daddr src iend oend (ip, op, dst) (Some (int op', dst'))"
| output_error: "\<lbrakk>int ip < iend; lz4_step arch64 daddr src iend oend ip op dst = Output_error ip' dst'\<rbrakk> \<Longrightarrow>
     lz4_stop arch64 daddr src iend oend (ip, op, dst) (Some (- int ip', dst'))"
| fault: "\<lbrakk>int ip < iend; lz4_step arch64 daddr src iend oend ip op dst = Fault\<rbrakk> \<Longrightarrow>
     lz4_stop arch64 daddr src iend oend (ip, op, dst) None"

inductive_cases lz4_roundE: "lz4_round arch64 daddr src iend oend s s'"
inductive_simps lz4_round_simp: "lz4_round arch64 daddr src iend oend (ip, op, dst) s'"
inductive_simps lz4_stop_simp: "lz4_stop arch64 daddr src iend oend (ip, op, dst) r"

lemmas lz4_run_simps = lz4_round_simp lz4_stop_simp

section \<open>The system is deterministic and every state either stops or goes on\<close>

lemma lz4_round_det:
  "\<lbrakk>lz4_round arch64 daddr src iend oend s s1; lz4_round arch64 daddr src iend oend s s2\<rbrakk> \<Longrightarrow> s1 = s2"
  by (cases s) (auto simp: lz4_round_simp)

lemma lz4_stop_stuck:
  "lz4_stop arch64 daddr src iend oend s r \<Longrightarrow> \<not> lz4_round arch64 daddr src iend oend s s'"
  by (cases s) (auto simp: lz4_run_simps)

lemma lz4_stop_or_round:
  "(\<exists>r. lz4_stop arch64 daddr src iend oend s r) \<or> (\<exists>s'. lz4_round arch64 daddr src iend oend s s')"
proof (cases s)
  case (fields ip op dst)
  then show ?thesis
    by (cases "int ip < iend"; cases "lz4_step arch64 daddr src iend oend ip op dst")
      (auto simp: lz4_run_simps)
qed

lemma lz4_round_consumes:
  "lz4_round arch64 daddr src iend oend s s' \<Longrightarrow> fst s < fst s' \<and> int (fst s) < iend"
  by (erule lz4_roundE) (auto dest: lz4_step_progress)

section \<open>The loop is the run to the first stop\<close>

lemma lz4_loop_stop:
  "lz4_stop arch64 daddr src iend oend (ip, op, dst) r \<Longrightarrow>
     lz4_loop arch64 daddr src iend oend ip op dst = r"
  by (auto simp: lz4_stop_simp lz4_loop.simps [of _ _ _ _ _ ip op dst])

lemma lz4_loop_round:
  "lz4_round arch64 daddr src iend oend (ip, op, dst) (ip', op', dst') \<Longrightarrow>
     lz4_loop arch64 daddr src iend oend ip op dst = lz4_loop arch64 daddr src iend oend ip' op' dst'"
  by (simp add: lz4_round_simp lz4_loop.simps [of _ _ _ _ _ ip op dst])

lemma lz4_run_to_stop:
  "\<exists>n s'. (lz4_round arch64 daddr src iend oend ^^ n) s s'
     \<and> lz4_stop arch64 daddr src iend oend s'
         (lz4_loop arch64 daddr src iend oend (fst s) (fst (snd s)) (snd (snd s)))"
proof (induction s rule: measure_induct_rule [where f = "\<lambda>s. nat (iend - int (fst s))"])
  case (less s)
  show ?case
  proof (cases "\<exists>s'. lz4_round arch64 daddr src iend oend s s'")
    case False
    then obtain r where "lz4_stop arch64 daddr src iend oend s r" using lz4_stop_or_round by blast
    then show ?thesis by (intro exI [of _ 0] exI [of _ s]) (cases s, simp add: lz4_loop_stop)
  next
    case True
    then obtain t where t: "lz4_round arch64 daddr src iend oend s t" by blast
    obtain n s' where run: "(lz4_round arch64 daddr src iend oend ^^ n) t s'"
      and stop: "lz4_stop arch64 daddr src iend oend s'
        (lz4_loop arch64 daddr src iend oend (fst t) (fst (snd t)) (snd (snd t)))"
      using less.IH [of t] lz4_round_consumes [OF t] by auto
    have "(lz4_round arch64 daddr src iend oend ^^ Suc n) s s'" using t run by (rule relpowp_Suc_I2)
    moreover have "lz4_loop arch64 daddr src iend oend (fst t) (fst (snd t)) (snd (snd t))
        = lz4_loop arch64 daddr src iend oend (fst s) (fst (snd s)) (snd (snd s))"
      using t by (cases s; cases t) (simp add: lz4_loop_round)
    ultimately show ?thesis using stop by metis
  qed
qed

section \<open>No run is longer than the input\<close>

lemma lz4_run_length:
  "(lz4_round arch64 daddr src iend oend ^^ n) s s' \<Longrightarrow> n \<le> nat (iend - int (fst s))"
proof (induction n arbitrary: s)
  case (Suc n)
  from Suc.prems obtain t where t: "lz4_round arch64 daddr src iend oend s t"
    and run: "(lz4_round arch64 daddr src iend oend ^^ n) t s'" by (blast dest: relpowp_Suc_D2)
  show ?case using Suc.IH [OF run] lz4_round_consumes [OF t] by linarith
qed simp

lemma relpowp_det:
  fixes R :: "'a \<Rightarrow> 'a \<Rightarrow> bool"
  assumes det: "\<And>x y z. R x y \<Longrightarrow> R x z \<Longrightarrow> y = z"
  shows "\<lbrakk>(R ^^ n) s t; (R ^^ n) s u\<rbrakk> \<Longrightarrow> t = u"
proof (induction n arbitrary: t u)
  case (Suc n)
  obtain v where v: "(R ^^ n) s v" "R v t" using Suc.prems(1) by (rule relpowp_Suc_E)
  obtain w where w: "(R ^^ n) s w" "R w u" using Suc.prems(2) by (rule relpowp_Suc_E)
  have "v = w" using v(1) w(1) by (rule Suc.IH)
  then show ?case using det v(2) w(2) by blast
qed simp

lemma relpowp_split:
  fixes R :: "'a \<Rightarrow> 'a \<Rightarrow> bool"
  shows "(R ^^ (m + n)) s u \<longleftrightarrow> (\<exists>t. (R ^^ m) s t \<and> (R ^^ n) t u)"
  by (auto simp: relpowp_add)

lemma relpowp_ends:
  fixes R :: "'a \<Rightarrow> 'a \<Rightarrow> bool"
  assumes det: "\<And>x y z. R x y \<Longrightarrow> R x z \<Longrightarrow> y = z" and run: "(R ^^ n) s s'" and stuck: "\<And>t. \<not> R s' t"
  shows "{k. \<exists>t. (R ^^ k) s t} = {..n}"
proof (intro equalityI subsetI)
  fix k assume "k \<in> {k. \<exists>t. (R ^^ k) s t}"
  then obtain t where t: "(R ^^ k) s t" by blast
  show "k \<in> {..n}"
  proof (rule ccontr)
    assume "k \<notin> {..n}"
    then obtain m where "k = n + Suc m" using less_iff_Suc_add by (auto simp: not_le)
    then obtain u where u: "(R ^^ n) s u" and more: "(R ^^ Suc m) u t" using t by (metis relpowp_split)
    have "u = s'" using relpowp_det [of R, OF det u run] .
    with more stuck show False by (metis relpowp_Suc_D2)
  qed
next
  fix k assume "k \<in> {..n}"
  then obtain m where "n = k + m" using le_Suc_ex by auto
  with run show "k \<in> {k. \<exists>t. (R ^^ k) s t}" by (auto simp: relpowp_split)
qed

lemma lz4_run_ends:
  "\<lbrakk>(lz4_round arch64 daddr src iend oend ^^ n) s s'; lz4_stop arch64 daddr src iend oend s' r\<rbrakk>
     \<Longrightarrow> {k. \<exists>t. (lz4_round arch64 daddr src iend oend ^^ k) s t} = {..n}"
  by (rule relpowp_ends) (auto dest: lz4_round_det lz4_stop_stuck)

text \<open>C30: The decoder terminates on every input, whatever the sizes, the build and the
  contents: from the start there is exactly one run of rounds, it has at most one round per
  byte of the declared input, it ends in one of the four exits of the loop, and the result of
  the decoder (an access outside an object included) is the one of that exit.\<close>

theorem lz4_decoder_terminates:
  "\<exists>n s. n \<le> nat isize \<and> (lz4_round arch64 daddr source isize maxOutputSize ^^ n) (0, 0, dest) s
     \<and> {k. \<exists>t. (lz4_round arch64 daddr source isize maxOutputSize ^^ k) (0, 0, dest) t} = {..n}
     \<and> lz4_stop arch64 daddr source isize maxOutputSize s
         (LZ4_uncompress_unknownOutputSize arch64 daddr source dest isize maxOutputSize)"
proof -
  let ?R = "lz4_round arch64 daddr source isize maxOutputSize"
  obtain n s where run: "(?R ^^ n) (0, 0, dest) s"
    and stop: "lz4_stop arch64 daddr source isize maxOutputSize s
      (lz4_loop arch64 daddr source isize maxOutputSize 0 0 dest)"
    using lz4_run_to_stop [of arch64 daddr source isize maxOutputSize "(0, 0, dest)"] by auto
  have "n \<le> nat isize" using lz4_run_length [OF run] by simp
  then show ?thesis using run stop lz4_run_ends [OF run stop]
    unfolding LZ4_uncompress_unknownOutputSize_def by blast
qed

end
