(* ===== verification/Sysmacros.thy ===== *)
theory Sysmacros
  imports Prelude
begin

text \<open>
  The power-of-two macros of \<open>libspl/include/sys/sysmacros.h\<close> at \<open>uint64_t\<close>, and what
  they compute when the alignment is a power of two.
\<close>

section \<open>The macros\<close>

definition P2ALIGN :: "u64 \<Rightarrow> u64 \<Rightarrow> u64" where
  "P2ALIGN x align = x AND - align"

definition P2CROSS :: "u64 \<Rightarrow> u64 \<Rightarrow> u64 \<Rightarrow> bool" where
  "P2CROSS x y align \<longleftrightarrow> x XOR y > align - 1"

definition P2ROUNDUP :: "u64 \<Rightarrow> u64 \<Rightarrow> u64" where
  "P2ROUNDUP x align = ((x - 1) OR (align - 1)) + 1"

definition P2BOUNDARY :: "u64 \<Rightarrow> u64 \<Rightarrow> u64 \<Rightarrow> bool" where
  "P2BOUNDARY off len align \<longleftrightarrow> off XOR (off + len - 1) > align - 1"

definition P2PHASE :: "u64 \<Rightarrow> u64 \<Rightarrow> u64" where
  "P2PHASE x align = x AND (align - 1)"

definition P2NPHASE :: "u64 \<Rightarrow> u64 \<Rightarrow> u64" where
  "P2NPHASE x align = - x AND (align - 1)"

definition ISP2 :: "u64 \<Rightarrow> bool" where
  "ISP2 x \<longleftrightarrow> x AND (x - 1) = 0"

definition IS_P2ALIGNED :: "u64 \<Rightarrow> u64 \<Rightarrow> bool" where
  "IS_P2ALIGNED v a \<longleftrightarrow> v AND (a - 1) = 0"

definition P2END_TYPED :: "u64 \<Rightarrow> u64 \<Rightarrow> u64" where
  "P2END_TYPED x align = - (NOT x AND - align)"

definition P2PHASEUP_TYPED :: "u64 \<Rightarrow> u64 \<Rightarrow> u64 \<Rightarrow> u64" where
  "P2PHASEUP_TYPED x align phase = phase - ((phase - x) AND - align)"

definition P2SAMEHIGHBIT_TYPED :: "u64 \<Rightarrow> u64 \<Rightarrow> bool" where
  "P2SAMEHIGHBIT_TYPED x y \<longleftrightarrow> x XOR y < x AND y"

definition DIV_ROUND_UP :: "u64 \<Rightarrow> u64 \<Rightarrow> u64" where
  "DIV_ROUND_UP n d = (n + d - 1) div d"

section \<open>At a power of two\<close>

lemma exp_less_mask: "(2 :: u64) ^ k - 1 = mask k"
  by (simp add: mask_eq_exp_minus_1)

lemma minus_exp_mask: "- ((2 :: u64) ^ k) = NOT (mask k)"
  by (simp add: minus_exp_eq_not_mask)

lemma exp_less_64: "k < 64 \<Longrightarrow> (2 :: nat) ^ k < 2 ^ 64"
  by (rule power_strict_increasing) simp_all

lemma unat_exp: "k < 64 \<Longrightarrow> unat ((2 :: u64) ^ k) = 2 ^ k"
  using unat_W[OF exp_less_64[of k]] by (simp add: W_def)

lemma P2PHASE_take: "P2PHASE x (2 ^ k) = take_bit k x"
  by (simp add: P2PHASE_def exp_less_mask take_bit_eq_mask)

lemma unat_P2PHASE: "unat (P2PHASE x (2 ^ k)) = unat x mod 2 ^ k"
  using unsigned_take_bit_eq[of k x, where ?'a = nat] by (simp add: P2PHASE_take take_bit_eq_mod[of _ "unat x"])

lemma P2ALIGN_split: "P2ALIGN x (2 ^ k) OR P2PHASE x (2 ^ k) = x"
  by (rule bit_word_eqI) (auto simp: P2ALIGN_def P2PHASE_def exp_less_mask minus_exp_mask bit_simps)

lemma P2ALIGN_sum: "P2ALIGN x (2 ^ k) + P2PHASE x (2 ^ k) = x"
proof -
  have "P2ALIGN x (2 ^ k) AND P2PHASE x (2 ^ k) = 0"
    by (rule bit_word_eqI) (auto simp: P2ALIGN_def P2PHASE_def exp_less_mask minus_exp_mask bit_simps)
  then show ?thesis using P2ALIGN_split[of x k] by (simp add: disjunctive_add_eq_or)
qed

lemma unat_P2ALIGN: "unat (P2ALIGN x (2 ^ k)) = unat x - unat x mod 2 ^ k"
proof -
  have e: "P2ALIGN x (2 ^ k) = x - P2PHASE x (2 ^ k)" using P2ALIGN_sum[of x k] by (simp add: algebra_simps)
  have "P2PHASE x (2 ^ k) \<le> x" by (simp add: word_le_nat_alt unat_P2PHASE)
  then show ?thesis by (simp add: e unat_sub unat_P2PHASE)
qed

lemma IS_P2ALIGNED_dvd: "IS_P2ALIGNED x (2 ^ k) \<longleftrightarrow> 2 ^ k dvd unat x"
proof -
  have "IS_P2ALIGNED x (2 ^ k) \<longleftrightarrow> unat (P2PHASE x (2 ^ k)) = 0"
    by (simp only: IS_P2ALIGNED_def P2PHASE_def unat_0_iff)
  then show ?thesis by (simp only: unat_P2PHASE dvd_eq_mod_eq_0)
qed

lemma unat_P2NPHASE: "unat (P2NPHASE x (2 ^ k)) = (2 ^ 64 - unat x) mod 2 ^ k" if "k \<le> 64"
proof -
  have "P2NPHASE x (2 ^ k) = P2PHASE (- x) (2 ^ k)" by (simp add: P2NPHASE_def P2PHASE_def)
  then have "unat (P2NPHASE x (2 ^ k)) = unat (- x) mod 2 ^ k" by (simp only: unat_P2PHASE)
  moreover have "unat (- x) = (2 ^ 64 - unat x) mod 2 ^ 64"
  proof -
    have "unat x \<le> 2 ^ 64" using unsigned_less[of x, where ?'a = nat] by simp
    then have "- x = W (2 ^ 64 - unat x)" using W_minus[of "unat x" "2 ^ 64"] by (simp add: W_unat) (simp add: W_def)
    then show ?thesis by (simp add: W_def unat_of_nat)
  qed
  moreover have "(2 :: nat) ^ k dvd 2 ^ 64" using that by (rule le_imp_power_dvd)
  ultimately show ?thesis by (simp only: mod_mod_cancel)
qed

lemma xor_zero_iff: "a XOR b = 0 \<longleftrightarrow> a = (b :: u64)"
  by (auto simp: bit_eq_iff bit_simps)

lemma P2CROSS_div: "k < 64 \<Longrightarrow> P2CROSS x y (2 ^ k) \<longleftrightarrow> unat x div 2 ^ k \<noteq> unat y div 2 ^ k"
proof -
  assume k: "k < 64"
  have "unat (2 ^ k - 1 :: u64) = 2 ^ k - 1"
    using unat_W[of "2 ^ k - 1"] exp_less_64[OF k] by (simp add: W_def of_nat_diff)
  then have "P2CROSS x y (2 ^ k) \<longleftrightarrow> 2 ^ k \<le> unat (x XOR y)"
    using Suc_le_eq[of "2 ^ k - 1" "unat (x XOR y)"] by (simp add: P2CROSS_def word_less_nat_alt)
  also have "\<dots> \<longleftrightarrow> unat (drop_bit k (x XOR y)) \<noteq> 0"
    unfolding unat_drop_bit_eq by (simp add: drop_bit_eq_div[of k "unat w" for w] div_greater_zero_iff)
  also have "\<dots> \<longleftrightarrow> drop_bit k x \<noteq> drop_bit k y" by (simp only: unat_0_iff drop_bit_xor xor_zero_iff)
  also have "\<dots> \<longleftrightarrow> unat (drop_bit k x) \<noteq> unat (drop_bit k y)" by (metis W_unat)
  finally show ?thesis
    unfolding unat_drop_bit_eq by (simp add: drop_bit_eq_div[of k "unat w" for w])
qed

lemma P2ROUNDUP_align: "P2ROUNDUP x (2 ^ k) = P2ALIGN (x - 1) (2 ^ k) + 2 ^ k"
proof -
  have "P2ALIGN (x - 1) (2 ^ k) AND mask k = 0"
    by (rule bit_word_eqI) (auto simp: P2ALIGN_def minus_exp_mask bit_simps)
  then have "P2ALIGN (x - 1) (2 ^ k) + mask k = P2ALIGN (x - 1) (2 ^ k) OR mask k"
    by (rule disjunctive_add_eq_or)
  also have "\<dots> = (x - 1) OR mask k"
    by (rule bit_word_eqI) (auto simp: P2ALIGN_def minus_exp_mask bit_simps)
  finally show ?thesis
    by (simp add: P2ROUNDUP_def exp_less_mask[symmetric] algebra_simps)
qed

lemma unat_P2ROUNDUP:
  assumes "k < 64" and "unat x + 2 ^ k \<le> 2 ^ 64"
  shows "unat (P2ROUNDUP x (2 ^ k)) = (unat x + (2 ^ k - 1)) div 2 ^ k * 2 ^ k"
proof (cases "x = 0")
  case True
  have "(- 1 :: u64) OR y = - 1" for y by (rule bit_word_eqI) (auto simp: bit_simps)
  then show ?thesis using True by (simp add: P2ROUNDUP_def)
next
  case False
  let ?u = "unat x" and ?e = "(2 :: nat) ^ k"
  have u: "0 < ?u" "unat (x - 1) = ?u - 1"
    using False by (simp_all add: unat_minus_one unat_gt_0)
  have a: "?u - 1 - (?u - 1) mod ?e = (?u - 1) div ?e * ?e"
    by (simp add: minus_mod_eq_div_mult)
  have "unat (P2ALIGN (x - 1) (2 ^ k)) = (?u - 1) div ?e * ?e"
    unfolding unat_P2ALIGN u(2) by (rule a)
  moreover have "(?u - 1) div ?e * ?e + ?e < 2 ^ 64"
  proof -
    have "(?u - 1) div ?e * ?e \<le> ?u - 1" by simp
    then show ?thesis using u(1) assms(2) by linarith
  qed
  ultimately have "unat (P2ROUNDUP x (2 ^ k)) = (?u - 1) div ?e * ?e + ?e"
    using unat_exp[OF assms(1)] by (simp add: P2ROUNDUP_align unat_word_ariths)
  also have "\<dots> = ((?u - 1) div ?e + 1) * ?e" by simp
  also have "(?u - 1) div ?e + 1 = (?u - 1 + ?e) div ?e"
    by (rule div_add_self2[symmetric]) simp
  also have "?u - 1 + ?e = ?u + (?e - 1)" using u(1) by simp
  finally show ?thesis .
qed

text \<open>A non-empty range crosses a boundary when its first and last byte lie in different
  blocks.\<close>

lemma P2BOUNDARY_div:
  "k < 64 \<Longrightarrow> P2BOUNDARY off len (2 ^ k) \<longleftrightarrow> unat off div 2 ^ k \<noteq> unat (off + len - 1) div 2 ^ k"
  using P2CROSS_div[of k off "off + len - 1"] by (simp add: P2BOUNDARY_def P2CROSS_def)

lemma ISP2_exp: "ISP2 (2 ^ k)"
  by (simp add: ISP2_def exp_less_mask) (rule bit_word_eqI, auto simp: bit_simps)

text \<open>Clearing the lowest set bit leaves nothing exactly when at most one bit is set.\<close>

lemma lowest_bit:
  assumes "x \<noteq> (0 :: u64)"
  shows "\<exists>k < 64. bit x k \<and> take_bit k x = 0"
proof -
  obtain n where n: "bit x n" using assms by (metis bit_word_eqI bit_0_eq bot_apply bot_bool_def)
  define k where "k = (LEAST n. bit x n)"
  have k: "bit x k" unfolding k_def by (rule LeastI[of "bit x", OF n])
  have "\<not> bit x j" if "j < k" for j using that not_less_Least unfolding k_def by blast
  then have "take_bit k x = 0" by (intro bit_word_eqI) (auto simp: bit_simps)
  moreover have "k < 64" using k bit_imp_le_length[OF k] by simp
  ultimately show ?thesis using k by blast
qed

lemma clear_lowest:
  assumes "bit (x :: u64) k" and "take_bit k x = 0"
  shows "x AND (x - 1) = x - 2 ^ k"
proof -
  let ?h = "x AND NOT (mask (Suc k))"
  have split: "x = ?h + 2 ^ k"
  proof -
    have "?h AND 2 ^ k = 0" by (rule bit_word_eqI) (auto simp: bit_simps)
    then have "?h + 2 ^ k = ?h OR 2 ^ k" by (rule disjunctive_add_eq_or)
    also have "\<dots> = x"
    proof (rule bit_word_eqI)
      fix n assume n: "n < LENGTH(64)"
      have "\<not> bit x n" if "n < k" using assms(2) that n by (metis bit_take_bit_iff bit_0_eq bot_apply bot_bool_def)
      then show "bit (?h OR 2 ^ k) n = bit x n" using assms(1) n by (auto simp: bit_simps less_Suc_eq)
    qed
    finally show ?thesis by simp
  qed
  have "?h AND mask k = 0" by (rule bit_word_eqI) (auto simp: bit_simps)
  then have m: "x - 1 = ?h OR mask k"
    using split disjunctive_add_eq_or[of ?h "mask k"] by (metis add_diff_eq exp_less_mask)
  have "x AND (x - 1) = ?h"
  proof (rule bit_word_eqI)
    fix n assume n: "n < LENGTH(64)"
    have "\<not> bit x n" if "n < k" using assms(2) that n by (metis bit_take_bit_iff bit_0_eq bot_apply bot_bool_def)
    then show "bit (x AND (x - 1)) n = bit ?h n" using n by (auto simp: m bit_simps)
  qed
  then show ?thesis using split by (metis add_diff_cancel_right')
qed

lemma ISP2_iff: "ISP2 x \<longleftrightarrow> x = 0 \<or> (\<exists>k < 64. x = 2 ^ k)"
proof
  assume x: "ISP2 x"
  show "x = 0 \<or> (\<exists>k < 64. x = 2 ^ k)"
  proof (cases "x = 0")
    case False
    then obtain k where k: "k < 64" "bit x k" "take_bit k x = 0" using lowest_bit by blast
    then have "x - 2 ^ k = 0" using x clear_lowest by (simp add: ISP2_def)
    then show ?thesis using k by auto
  qed simp
next
  assume "x = 0 \<or> (\<exists>k < 64. x = 2 ^ k)"
  then show "ISP2 x" using ISP2_exp by (auto simp: ISP2_def[of 0])
qed

end
