(* ===== verification/Bitfield.thy ===== *)
theory Bitfield
  imports Sysmacros
begin

text \<open>
  The bit fields of \<open>sys/spa.h\<close>: reading and writing \<open>len\<close> bits at bit \<open>low\<close> of a 32- or
  64-bit word, plainly or scaled by \<open>shift\<close> and offset by \<open>bias\<close>. A store first asserts
  that the value fits, so its result is an outcome.
\<close>

section \<open>The macros\<close>

definition BF64_DECODE :: "u64 \<Rightarrow> nat \<Rightarrow> nat \<Rightarrow> u64" where
  "BF64_DECODE x low len = P2PHASE (drop_bit low x) (push_bit len 1)"

definition BF64_ENCODE :: "u64 \<Rightarrow> nat \<Rightarrow> nat \<Rightarrow> u64" where
  "BF64_ENCODE x low len = push_bit low (P2PHASE x (push_bit len 1))"

definition BF64_GET :: "u64 \<Rightarrow> nat \<Rightarrow> nat \<Rightarrow> u64" where
  "BF64_GET x low len = BF64_DECODE x low len"

definition BF64_SET :: "u64 \<Rightarrow> nat \<Rightarrow> nat \<Rightarrow> u64 \<Rightarrow> stop + u64" where
  "BF64_SET x low len val =
     andthen (ASSERT (val < push_bit len 1)) (\<lambda>_.
     andthen (ASSERT (low + len \<le> 64)) (\<lambda>_.
     Inr (x XOR BF64_ENCODE (drop_bit low x XOR val) low len)))"

definition BF64_GET_SB :: "u64 \<Rightarrow> nat \<Rightarrow> nat \<Rightarrow> nat \<Rightarrow> u64 \<Rightarrow> u64" where
  "BF64_GET_SB x low len shift bias = push_bit shift (BF64_GET x low len + bias)"

definition BF64_SET_SB :: "u64 \<Rightarrow> nat \<Rightarrow> nat \<Rightarrow> nat \<Rightarrow> u64 \<Rightarrow> u64 \<Rightarrow> stop + u64" where
  "BF64_SET_SB x low len shift bias val =
     andthen (ASSERT (IS_P2ALIGNED val (push_bit shift 1))) (\<lambda>_.
     andthen (ASSERT (sint (drop_bit shift val) \<ge> sint bias)) (\<lambda>_.
     BF64_SET x low len (drop_bit shift val - bias)))"

definition BF32_DECODE :: "u32 \<Rightarrow> nat \<Rightarrow> nat \<Rightarrow> u32" where
  "BF32_DECODE x low len = drop_bit low x AND (push_bit len 1 - 1)"

definition BF32_ENCODE :: "u32 \<Rightarrow> nat \<Rightarrow> nat \<Rightarrow> u32" where
  "BF32_ENCODE x low len = push_bit low (x AND (push_bit len 1 - 1))"

definition BF32_GET :: "u32 \<Rightarrow> nat \<Rightarrow> nat \<Rightarrow> u32" where
  "BF32_GET x low len = BF32_DECODE x low len"

definition BF32_SET :: "u32 \<Rightarrow> nat \<Rightarrow> nat \<Rightarrow> u32 \<Rightarrow> stop + u32" where
  "BF32_SET x low len val =
     andthen (ASSERT (val < push_bit len 1)) (\<lambda>_.
     andthen (ASSERT (low + len \<le> 32)) (\<lambda>_.
     Inr (x XOR BF32_ENCODE (drop_bit low x XOR val) low len)))"

section \<open>Their bits\<close>

named_theorems bf_simps "reading a bit field of a word some of whose fields were written"

lemma push_one: "push_bit len (1 :: u64) = 2 ^ len"
  by (simp add: push_bit_eq_mult)

lemma BF64_GET_take: "BF64_GET x low len = take_bit len (drop_bit low x)"
  by (simp add: BF64_GET_def BF64_DECODE_def push_one P2PHASE_take)

lemma bit_BF64_GET: "bit (BF64_GET x low len) n \<longleftrightarrow> n < len \<and> bit x (low + n)"
  by (auto simp: BF64_GET_take bit_simps dest: bit_imp_le_length)

lemma BF64_GET_less: "len < 64 \<Longrightarrow> unat (BF64_GET x low len) < 2 ^ len"
  using unat_P2PHASE[of "drop_bit low x" len] by (simp add: BF64_GET_def BF64_DECODE_def push_one)

lemma unat_BF64_GET: "unat (BF64_GET x low len) = unat x div 2 ^ low mod 2 ^ len"
  unfolding BF64_GET_def BF64_DECODE_def push_one unat_P2PHASE unat_drop_bit_eq
  by (simp only: drop_bit_eq_div)

lemma fits_bits: "len < 64 \<Longrightarrow> val < 2 ^ len \<longleftrightarrow> take_bit len val = (val :: u64)"
proof -
  assume len: "len < 64"
  have "take_bit len val = val \<longleftrightarrow> unat (P2PHASE val (2 ^ len)) = unat val"
    by (simp only: P2PHASE_take) (metis W_unat)
  then have "take_bit len val = val \<longleftrightarrow> unat val < 2 ^ len"
    unfolding unat_P2PHASE by (metis mod_less mod_less_divisor zero_less_numeral zero_less_power)
  then show ?thesis using len by (simp add: word_less_nat_alt unat_exp)
qed

lemma bit_fits: "len < 64 \<Longrightarrow> val < 2 ^ len \<Longrightarrow> bit (val :: u64) n \<Longrightarrow> n < len"
  using fits_bits[of len val] by (metis bit_take_bit_iff)

text \<open>The word a store leaves: the value in the field, every other bit as it was.\<close>

definition with_field :: "u64 \<Rightarrow> nat \<Rightarrow> nat \<Rightarrow> u64 \<Rightarrow> u64" where
  "with_field x low len val = x XOR push_bit low (take_bit len (drop_bit low x XOR val))"

lemma bit_with_field:
  "n < 64 \<Longrightarrow> bit (with_field x low len val) n \<longleftrightarrow>
     (if low \<le> n \<and> n < low + len then bit val (n - low) else bit x n)"
  by (auto simp: with_field_def bit_simps)

lemma BF64_SET_ok:
  "len < 64 \<Longrightarrow> low + len \<le> 64 \<Longrightarrow> val < 2 ^ len \<Longrightarrow> BF64_SET x low len val = Inr (with_field x low len val)"
  by (simp add: BF64_SET_def push_one BF64_ENCODE_def with_field_def P2PHASE_take)

lemma BF64_SET_stops: "\<not> val < 2 ^ len \<Longrightarrow> BF64_SET x low len val = Inl Assert_failed"
  by (simp add: BF64_SET_def push_one ASSERT_def)

lemma get_with_field:
  assumes "len < 64" and "low + len \<le> 64" and "val < 2 ^ len"
  shows "BF64_GET (with_field x low len val) low len = val"
proof (rule bit_word_eqI)
  fix n assume "n < LENGTH(64)"
  show "bit (BF64_GET (with_field x low len val) low len) n = bit val n"
    using assms bit_fits[OF assms(1,3), of n]
    by (cases "n < len") (auto simp: bit_BF64_GET bit_with_field)
qed

lemma get_other_field:
  assumes "low' + len' \<le> low \<or> low + len \<le> low'"
  shows "BF64_GET (with_field x low len val) low' len' = BF64_GET x low' len'"
proof (rule bit_word_eqI)
  fix n assume "n < LENGTH(64)"
  show "bit (BF64_GET (with_field x low len val) low' len') n = bit (BF64_GET x low' len') n"
    using assms by (cases "low' + n < 64") (auto simp: bit_BF64_GET bit_with_field dest: bit_imp_le_length)
qed

lemma with_field_get: "with_field x low len (BF64_GET x low len) = x"
  by (rule bit_word_eqI) (auto simp: bit_with_field bit_BF64_GET)

lemma with_field_twice: "with_field (with_field x low len v) low len w = with_field x low len w"
  by (rule bit_word_eqI) (auto simp: bit_with_field)

lemma with_field_commute:
  assumes "low' + len' \<le> low \<or> low + len \<le> low'"
  shows "with_field (with_field x low len v) low' len' w = with_field (with_field x low' len' w) low len v"
  using assms by (intro bit_word_eqI) (auto simp: bit_with_field)

section \<open>Scaled fields\<close>

text \<open>A scaled value that can be stored: a multiple of the unit, at least the bias, in range.\<close>

definition sb_fits :: "nat \<Rightarrow> nat \<Rightarrow> nat \<Rightarrow> u64 \<Rightarrow> bool" where
  "sb_fits len shift bias val \<longleftrightarrow>
     2 ^ shift dvd unat val \<and> unat val div 2 ^ shift < 2 ^ 63
     \<and> bias \<le> unat val div 2 ^ shift \<and> unat val div 2 ^ shift - bias < 2 ^ len"

lemma sint_small: "unat (w :: u64) < 2 ^ 63 \<Longrightarrow> sint w = int (unat w)"
proof -
  assume "unat w < 2 ^ 63"
  then have "uint w < 2 ^ 63" using of_nat_less_iff[of "unat w" "2 ^ 63", where ?'a = int] by simp
  then have "signed_take_bit 63 (uint w) = uint w" 
    using uint_nonnegative[of w] by (intro signed_take_bit_int_eq_self) linarith+
  then show ?thesis by (simp add: sint_uint)
qed

lemma SB_value:
  assumes "sb_fits len shift bias val" and "bias < 2 ^ 63"
  shows "drop_bit shift val - W bias = W (unat val div 2 ^ shift - bias)"
    and "drop_bit shift val = W (unat val div 2 ^ shift)"
proof -
  show d: "drop_bit shift val = W (unat val div 2 ^ shift)"
    by (metis W_unat unat_drop_bit_eq drop_bit_eq_div)
  show "drop_bit shift val - W bias = W (unat val div 2 ^ shift - bias)"
    using assms(1) by (simp add: d W_minus sb_fits_def)
qed

lemma BF64_SET_SB_ok:
  assumes f: "sb_fits len shift bias val" and "len < 64" and "low + len \<le> 64" and b: "bias < 2 ^ 63"
  shows "BF64_SET_SB x low len shift (W bias) val
    = Inr (with_field x low len (W (unat val div 2 ^ shift - bias)))"
proof -
  let ?v = "unat val div 2 ^ shift"
  have v: "bias \<le> ?v" "?v < 2 ^ 63" "?v - bias < 2 ^ len" "2 ^ shift dvd unat val"
    using f by (simp_all add: sb_fits_def)
  have "sint (W bias) = int bias" "sint (W ?v) = int ?v"
    using b v by (simp_all add: sint_small unat_W)
  moreover have "W (?v - bias) < 2 ^ len"
    using v exp_less_64[OF assms(2)] by (simp add: word_less_nat_alt unat_W unat_exp assms(2))
  ultimately show ?thesis
    using v BF64_SET_ok[OF assms(2,3), of "W (?v - bias)" x] IS_P2ALIGNED_dvd[of val shift]
    by (simp add: BF64_SET_SB_def push_one SB_value(2)[OF f b] W_minus)
qed

lemma get_SB_with_field:
  assumes f: "sb_fits len shift bias val" and "len < 64" and "low + len \<le> 64" and b: "bias < 2 ^ 63"
  shows "BF64_GET_SB (with_field x low len (W (unat val div 2 ^ shift - bias))) low len shift (W bias) = val"
proof -
  let ?v = "unat val div 2 ^ shift"
  have v: "bias \<le> ?v" "?v - bias < 2 ^ len" "?v < 2 ^ 63" "2 ^ shift dvd unat val"
    using f by (simp_all add: sb_fits_def)
  have "W (?v - bias) < 2 ^ len"
    using v exp_less_64[OF assms(2)] by (simp add: word_less_nat_alt unat_W unat_exp assms(2))
  then have "BF64_GET_SB (with_field x low len (W (?v - bias))) low len shift (W bias)
      = push_bit shift (W (?v - bias) + W bias)"
    by (simp add: BF64_GET_SB_def get_with_field[OF assms(2,3)])
  also have "\<dots> = W (?v * 2 ^ shift)" using v(1) by (simp add: W_add W_push)
  also have "\<dots> = val" using v(4) by (simp add: dvd_div_mult_self W_unat)
  finally show ?thesis .
qed

lemma get_SB_other_field:
  "low' + len' \<le> low \<or> low + len \<le> low' \<Longrightarrow>
   BF64_GET_SB (with_field x low len val) low' len' shift bias = BF64_GET_SB x low' len' shift bias"
  by (simp add: BF64_GET_SB_def get_other_field)

end
