(* ===== verification/Cenum.thy ===== *)
theory Cenum
  imports Prelude "HOL-Library.Code_Target_Nat"
begin

text \<open>
  C enumerations as their declarations: the names in order, each with its initialiser (a
  number, a bit \<open>1 << k\<close>, an earlier name or several of them joined by \<open>|\<close>), and the
  language's rule for the numbers. A declaration is sound when no name comes twice;
  then every name has one number, and the names without an initialiser count up.
\<close>

datatype enum_init = Next | Is int | Same string | Bit nat | Ors "string list"

type_synonym c_enum = "(string \<times> enum_init) list"

definition enum_env :: "(string \<times> int) list \<Rightarrow> string \<Rightarrow> int" where
  "enum_env env x = (case map_of env x of Some k \<Rightarrow> k | None \<Rightarrow> 0)"

fun enum_values :: "c_enum \<Rightarrow> (string \<times> int) list \<Rightarrow> int \<Rightarrow> (string \<times> int) list" where
  "enum_values [] env n = rev env"
| "enum_values ((x, i) # es) env n =
     (let v = (case i of Next \<Rightarrow> n | Is k \<Rightarrow> k | Same y \<Rightarrow> enum_env env y | Bit k \<Rightarrow> 2 ^ k
               | Ors ys \<Rightarrow> foldr (\<lambda>y a. enum_env env y OR a) ys 0)
      in enum_values es ((x, v) # env) (v + 1))"

definition enum_table :: "c_enum \<Rightarrow> (string \<times> int) list" where
  "enum_table es = enum_values es [] 0"

definition enum_val :: "c_enum \<Rightarrow> string \<Rightarrow> int option" where
  "enum_val es x = map_of (enum_table es) x"

definition plain :: "string list \<Rightarrow> c_enum" where
  "plain = map (\<lambda>x. (x, Next))"

lemma enum_values_names: "map fst (enum_values es env n) = map fst (rev env) @ map fst es"
  by (induction es env n rule: enum_values.induct) (simp_all add: Let_def)

lemma enum_table_names: "map fst (enum_table es) = map fst es"
  by (simp add: enum_table_def enum_values_names)

lemma enum_values_plain:
  "enum_values (plain xs) env n = rev env @ zip xs (map (\<lambda>i. n + int i) [0..<length xs])"
proof (induction xs arbitrary: env n)
  case (Cons x xs)
  have "map (\<lambda>i. n + int i) [0..<Suc (length xs)] = n # map (\<lambda>i. n + 1 + int i) [0..<length xs]"
    by (simp add: map_upt_Suc algebra_simps del: upt_Suc)
  then show ?case using Cons[of "(x, n) # env" "n + 1"] by (simp add: plain_def del: upt_Suc)
qed (simp add: plain_def)

section \<open>Declarations without repeated names\<close>

locale enumeration =
  fixes es :: c_enum
  assumes names_distinct: "distinct (map fst es)"
begin

lemma table_distinct: "distinct (map fst (enum_table es))"
  by (simp add: enum_table_names names_distinct)

lemma val_iff: "enum_val es x = Some v \<longleftrightarrow> (x, v) \<in> set (enum_table es)"
  using table_distinct by (simp add: enum_val_def)

lemma val_total: "(\<exists>v. enum_val es x = Some v) \<longleftrightarrow> x \<in> fst ` set es"
proof -
  have "fst ` set (enum_table es) = fst ` set es"
    using enum_table_names[of es] by (metis set_map)
  moreover have "(\<exists>v. (x, v) \<in> S) \<longleftrightarrow> x \<in> fst ` S" for S :: "(string \<times> int) set"
    by force
  ultimately show ?thesis by (simp add: val_iff)
qed

lemma val_nth: "i < length es \<Longrightarrow> enum_val es (fst (es ! i)) = Some (snd (enum_table es ! i))"
proof -
  assume i: "i < length es"
  have l: "length (enum_table es) = length es" using enum_table_names by (metis length_map)
  then have "fst (enum_table es ! i) = fst (es ! i)" using i enum_table_names by (metis nth_map)
  then show ?thesis using i l val_iff by (metis nth_mem prod.collapse)
qed

end

section \<open>Flags\<close>

text \<open>A declaration whose names are distinct bits: any two of its values are disjoint.\<close>

fun is_bit :: "enum_init \<Rightarrow> bool" where
  "is_bit (Bit k) = True"
| "is_bit _ = False"

fun bit_value :: "enum_init \<Rightarrow> int" where
  "bit_value (Bit k) = 2 ^ k"
| "bit_value _ = 0"

lemma enum_values_bits:
  "list_all (\<lambda>e. is_bit (snd e)) es \<Longrightarrow>
    enum_values es env n = rev env @ map (\<lambda>e. (fst e, bit_value (snd e))) es"
proof (induction es env n rule: enum_values.induct)
  case (2 x i es env n)
  then show ?case by (cases i) simp_all
qed simp

lemma power_of_two_and: "j \<noteq> k \<Longrightarrow> (2 ^ j :: int) AND 2 ^ k = 0"
  by (rule bit_eqI) (auto simp: bit_simps)

locale flag_enumeration = enumeration +
  assumes all_bits: "list_all (\<lambda>e. is_bit (snd e)) es"
    and bits_distinct: "distinct (map snd es)"
begin

lemma table_bits: "enum_table es = map (\<lambda>e. (fst e, bit_value (snd e))) es"
  by (simp add: enum_table_def enum_values_bits[OF all_bits])

lemma flag_bit: "(x, i) \<in> set es \<Longrightarrow> \<exists>k. i = Bit k \<and> enum_val es x = Some (2 ^ k)"
proof -
  assume x: "(x, i) \<in> set es"
  with all_bits have "is_bit i" by (auto simp: list_all_iff)
  then obtain k where k: "i = Bit k" by (cases i) auto
  have "(x, bit_value i) \<in> set (enum_table es)" using x by (force simp: table_bits)
  then show ?thesis using k val_iff by simp
qed

lemma flags_disjoint:
  assumes "enum_val es x = Some v" and "enum_val es y = Some w" and "x \<noteq> y"
  shows "v AND w = 0"
proof -
  obtain i j where ij: "(x, i) \<in> set es" "(y, j) \<in> set es"
    using assms(1,2) val_total by fastforce
  obtain k l where kl: "i = Bit k" "enum_val es x = Some (2 ^ k)" "j = Bit l" "enum_val es y = Some (2 ^ l)"
    using flag_bit[OF ij(1)] flag_bit[OF ij(2)] by blast
  have "i \<noteq> j"
    using bits_distinct ij assms(3) unfolding distinct_map inj_on_def by (metis prod.inject snd_conv)
  then show ?thesis using kl assms(1,2) power_of_two_and by auto
qed

end

end
