(* ===== verification/Dmu.thy ===== *)
theory Dmu
  imports Cenum
begin

text \<open>
  Object types: the enumerations of \<open>sys/dmu.h\<close> and of \<open>extractor/defs.h\<close>, the names
  \<open>zio.cpp\<close> prints for them, and the macros that read the flags packed into a new-style
  type. The table \<open>dmu_ot\<close> of the old types is defined outside of the repository and is
  an argument.
\<close>

section \<open>Types that carry their flags\<close>

definition DMU_BSWAP :: c_enum where
  "DMU_BSWAP = plain
     [''DMU_BSWAP_UINT8'', ''DMU_BSWAP_UINT16'', ''DMU_BSWAP_UINT32'', ''DMU_BSWAP_UINT64'',
      ''DMU_BSWAP_ZAP'', ''DMU_BSWAP_DNODE'', ''DMU_BSWAP_OBJSET'', ''DMU_BSWAP_ZNODE'',
      ''DMU_BSWAP_OLDACL'', ''DMU_BSWAP_ACL'', ''DMU_BSWAP_NUMFUNCS'']"

definition DMU_OT_NEWTYPE :: int where "DMU_OT_NEWTYPE = 0x80"
definition DMU_OT_METADATA :: int where "DMU_OT_METADATA = 0x40"
definition DMU_OT_ENCRYPTED :: int where "DMU_OT_ENCRYPTED = 0x20"
definition DMU_OT_BYTESWAP_MASK :: int where "DMU_OT_BYTESWAP_MASK = 0x1f"
definition DMU_BSWAP_NUMFUNCS :: int where "DMU_BSWAP_NUMFUNCS = 10"
definition DMU_OT_NUMTYPES :: int where "DMU_OT_NUMTYPES = 54"

definition DMU_OT :: "int \<Rightarrow> bool \<Rightarrow> bool \<Rightarrow> int" where
  "DMU_OT byteswap metadata encrypted =
     DMU_OT_NEWTYPE OR (if metadata then DMU_OT_METADATA else 0)
     OR (if encrypted then DMU_OT_ENCRYPTED else 0) OR (byteswap AND DMU_OT_BYTESWAP_MASK)"

record dmu_object_type_info =
  ot_byteswap :: int
  ot_metadata :: bool
  ot_encrypt :: bool
  ot_name :: string

definition DMU_OT_IS_VALID :: "int \<Rightarrow> bool" where
  "DMU_OT_IS_VALID ot =
     (if ot AND DMU_OT_NEWTYPE \<noteq> 0 then ot AND DMU_OT_BYTESWAP_MASK < DMU_BSWAP_NUMFUNCS
      else ot < DMU_OT_NUMTYPES)"

definition DMU_OT_IS_METADATA :: "(int \<Rightarrow> dmu_object_type_info) \<Rightarrow> int \<Rightarrow> bool" where
  "DMU_OT_IS_METADATA dmu_ot ot =
     (if ot AND DMU_OT_NEWTYPE \<noteq> 0 then ot AND DMU_OT_METADATA \<noteq> 0 else ot_metadata (dmu_ot ot))"

definition DMU_OT_IS_ENCRYPTED :: "(int \<Rightarrow> dmu_object_type_info) \<Rightarrow> int \<Rightarrow> bool" where
  "DMU_OT_IS_ENCRYPTED dmu_ot ot =
     (if ot AND DMU_OT_NEWTYPE \<noteq> 0 then ot AND DMU_OT_ENCRYPTED \<noteq> 0 else ot_encrypt (dmu_ot ot))"

definition DMU_OT_HAS_FILL :: "int \<Rightarrow> bool" where
  "DMU_OT_HAS_FILL ot \<longleftrightarrow> ot = 10 \<or> ot = 11"

definition DMU_OT_BYTESWAP :: "(int \<Rightarrow> dmu_object_type_info) \<Rightarrow> int \<Rightarrow> int" where
  "DMU_OT_BYTESWAP dmu_ot ot =
     (if ot AND DMU_OT_NEWTYPE \<noteq> 0 then ot AND DMU_OT_BYTESWAP_MASK else ot_byteswap (dmu_ot ot))"

section \<open>The two enumerations\<close>

definition dmu_object_type :: c_enum where
  "dmu_object_type =
    [
     (''DMU_OT_NONE'', Next), (''DMU_OT_OBJECT_DIRECTORY'', Next),
     (''DMU_OT_OBJECT_ARRAY'', Next), (''DMU_OT_PACKED_NVLIST'', Next),
     (''DMU_OT_PACKED_NVLIST_SIZE'', Next), (''DMU_OT_BPOBJ'', Next),
     (''DMU_OT_BPOBJ_HDR'', Next), (''DMU_OT_SPACE_MAP_HEADER'', Next),
     (''DMU_OT_SPACE_MAP'', Next), (''DMU_OT_INTENT_LOG'', Next), (''DMU_OT_DNODE'', Next),
     (''DMU_OT_OBJSET'', Next), (''DMU_OT_DSL_DIR'', Next),
     (''DMU_OT_DSL_DIR_CHILD_MAP'', Next), (''DMU_OT_DSL_DS_SNAP_MAP'', Next),
     (''DMU_OT_DSL_PROPS'', Next), (''DMU_OT_DSL_DATASET'', Next), (''DMU_OT_ZNODE'', Next),
     (''DMU_OT_OLDACL'', Next), (''DMU_OT_PLAIN_FILE_CONTENTS'', Next),
     (''DMU_OT_DIRECTORY_CONTENTS'', Next), (''DMU_OT_MASTER_NODE'', Next),
     (''DMU_OT_UNLINKED_SET'', Next), (''DMU_OT_ZVOL'', Next), (''DMU_OT_ZVOL_PROP'', Next),
     (''DMU_OT_PLAIN_OTHER'', Next), (''DMU_OT_UINT64_OTHER'', Next),
     (''DMU_OT_ZAP_OTHER'', Next), (''DMU_OT_ERROR_LOG'', Next), (''DMU_OT_SPA_HISTORY'', Next),
     (''DMU_OT_SPA_HISTORY_OFFSETS'', Next), (''DMU_OT_POOL_PROPS'', Next),
     (''DMU_OT_DSL_PERMS'', Next), (''DMU_OT_ACL'', Next), (''DMU_OT_SYSACL'', Next),
     (''DMU_OT_FUID'', Next), (''DMU_OT_FUID_SIZE'', Next), (''DMU_OT_NEXT_CLONES'', Next),
     (''DMU_OT_SCAN_QUEUE'', Next), (''DMU_OT_USERGROUP_USED'', Next),
     (''DMU_OT_USERGROUP_QUOTA'', Next), (''DMU_OT_USERREFS'', Next),
     (''DMU_OT_DDT_ZAP'', Next), (''DMU_OT_DDT_STATS'', Next), (''DMU_OT_SA'', Next),
     (''DMU_OT_SA_MASTER_NODE'', Next), (''DMU_OT_SA_ATTR_REGISTRATION'', Next),
     (''DMU_OT_SA_ATTR_LAYOUTS'', Next), (''DMU_OT_SCAN_XLATE'', Next),
     (''DMU_OT_DEDUP'', Next), (''DMU_OT_DEADLIST'', Next), (''DMU_OT_DEADLIST_HDR'', Next),
     (''DMU_OT_DSL_CLONES'', Next), (''DMU_OT_BPOBJ_SUBOBJ'', Next),
     (''DMU_OT_NUMTYPES'', Next), (''DMU_OTN_UINT8_DATA'', Is (DMU_OT 0 False False)),
     (''DMU_OTN_UINT8_METADATA'', Is (DMU_OT 0 True False)),
     (''DMU_OTN_UINT16_DATA'', Is (DMU_OT 1 False False)),
     (''DMU_OTN_UINT16_METADATA'', Is (DMU_OT 1 True False)),
     (''DMU_OTN_UINT32_DATA'', Is (DMU_OT 2 False False)),
     (''DMU_OTN_UINT32_METADATA'', Is (DMU_OT 2 True False)),
     (''DMU_OTN_UINT64_DATA'', Is (DMU_OT 3 False False)),
     (''DMU_OTN_UINT64_METADATA'', Is (DMU_OT 3 True False)),
     (''DMU_OTN_ZAP_DATA'', Is (DMU_OT 4 False False)),
     (''DMU_OTN_ZAP_METADATA'', Is (DMU_OT 4 True False)),
     (''DMU_OTN_UINT8_ENC_DATA'', Is (DMU_OT 0 False True)),
     (''DMU_OTN_UINT8_ENC_METADATA'', Is (DMU_OT 0 True True)),
     (''DMU_OTN_UINT16_ENC_DATA'', Is (DMU_OT 1 False True)),
     (''DMU_OTN_UINT16_ENC_METADATA'', Is (DMU_OT 1 True True)),
     (''DMU_OTN_UINT32_ENC_DATA'', Is (DMU_OT 2 False True)),
     (''DMU_OTN_UINT32_ENC_METADATA'', Is (DMU_OT 2 True True)),
     (''DMU_OTN_UINT64_ENC_DATA'', Is (DMU_OT 3 False True)),
     (''DMU_OTN_UINT64_ENC_METADATA'', Is (DMU_OT 3 True True)),
     (''DMU_OTN_ZAP_ENC_DATA'', Is (DMU_OT 4 False True)),
     (''DMU_OTN_ZAP_ENC_METADATA'', Is (DMU_OT 4 True True))]"

definition defs_object_type :: c_enum where
  "defs_object_type =
    [
     (''DMU_OT_NONE'', Next), (''DMU_OT_OBJECT_DIRECTORY'', Next),
     (''DMU_OT_OBJECT_ARRAY'', Next), (''DMU_OT_PACKED_NVLIST'', Next),
     (''DMU_OT_PACKED_NVLIST_SIZE'', Next), (''DMU_OT_BPOBJ'', Next),
     (''DMU_OT_BPOBJ_HDR'', Next), (''DMU_OT_SPACE_MAP_HEADER'', Next),
     (''DMU_OT_SPACE_MAP'', Next), (''DMU_OT_INTENT_LOG'', Next), (''DMU_OT_DNODE'', Next),
     (''DMU_OT_OBJSET'', Next), (''DMU_OT_DSL_DIR'', Next),
     (''DMU_OT_DSL_DIR_CHILD_MAP'', Next), (''DMU_OT_DSL_DS_SNAP_MAP'', Next),
     (''DMU_OT_DSL_PROPS'', Next), (''DMU_OT_DSL_DATASET'', Next), (''DMU_OT_ZNODE'', Next),
     (''DMU_OT_OLDACL'', Next), (''DMU_OT_PLAIN_FILE_CONTENTS'', Next),
     (''DMU_OT_DIRECTORY_CONTENTS'', Next), (''DMU_OT_MASTER_NODE'', Next),
     (''DMU_OT_UNLINKED_SET'', Next), (''DMU_OT_ZVOL'', Next), (''DMU_OT_ZVOL_PROP'', Next),
     (''DMU_OT_PLAIN_OTHER'', Next), (''DMU_OT_UINT64_OTHER'', Next),
     (''DMU_OT_ZAP_OTHER'', Next), (''DMU_OT_ERROR_LOG'', Next), (''DMU_OT_SPA_HISTORY'', Next),
     (''DMU_OT_SPA_HISTORY_OFFSETS'', Next), (''DMU_OT_POOL_PROPS'', Next),
     (''DMU_OT_DSL_PERMS'', Next), (''DMU_OT_ACL'', Next), (''DMU_OT_SYSACL'', Next),
     (''DMU_OT_FUID'', Next), (''DMU_OT_FUID_SIZE'', Next), (''DMU_OT_NEXT_CLONES'', Next),
     (''DMU_OT_SCAN_QUEUE'', Next), (''DMU_OT_USERGROUP_USED'', Next),
     (''DMU_OT_USERGROUP_QUOTA'', Next), (''DMU_OT_USERREFS'', Next),
     (''DMU_OT_DDT_ZAP'', Next), (''DMU_OT_DDT_STATS'', Next), (''DMU_OT_SA'', Next),
     (''DMU_OT_SA_MASTER_NODE'', Next), (''DMU_OT_SA_ATTR_REGISTRATION'', Next),
     (''DMU_OT_SA_ATTR_LAYOUTS'', Next), (''DMU_OT_SCAN_XLATE'', Next),
     (''DMU_OT_DEDUP'', Next), (''DMU_OT_DEADLIST'', Next), (''DMU_OT_DEADLIST_HDR'', Next),
     (''DMU_OT_DSL_CLONES'', Next), (''DMU_OT_BPOBJ_SUBOBJ'', Next),
     (''DMU_OT_NUMTYPES'', Next), (''DMU_OTN_ZAP_DATA'', Is 196)]"

definition DMU_TYPE_DESC :: "string list" where
  "DMU_TYPE_DESC =
    [
     ''unallocated'', ''object directory'', ''object array'', ''packed nvlist'',
     ''packed nvlist size'', ''bpobj'', ''bpobj header'', ''SPA space map header'',
     ''SPA space map'', ''ZIL intent log'', ''DMU dnode'', ''DMU objset'', ''DSL directory'',
     ''DSL directory child map'', ''DSL dataset snap map'', ''DSL props'', ''DSL dataset'',
     ''ZFS znode'', ''ZFS V0 ACL'', ''ZFS plain file'', ''ZFS directory'', ''ZFS master node'',
     ''ZFS delete queue'', ''zvol object'', ''zvol prop'', ''other uint8[]'',
     ''other uint64[]'', ''other ZAP'', ''persistent error log'', ''SPA history'',
     ''SPA history offsets'', ''Pool properties'', ''DSL permissions'', ''ZFS ACL'',
     ''ZFS SYSACL'', ''FUID table'', ''FUID table size'', ''DSL dataset next clones'',
     ''scan work queue'', ''ZFS user/group used'', ''ZFS user/group quota'',
     ''snapshot refcount tags'', ''DDT ZAP algorithm'', ''DDT statistics'',
     ''System attributes'', ''SA master node'', ''SA attr registration'', ''SA attr layouts'',
     ''scan translations'', ''deduplicated block'', ''DSL deadlist map'',
     ''DSL deadlist map hdr'', ''DSL dir clones'', ''bpobj subobj'']"

interpretation bswap: enumeration DMU_BSWAP
  by unfold_locales (code_simp)

interpretation ot: enumeration dmu_object_type
  by unfold_locales (code_simp)

interpretation defs_ot: enumeration defs_object_type
  by unfold_locales (code_simp)

section \<open>Reading back what was packed\<close>

lemma packed_flags_table:
  "list_all (\<lambda>b. list_all (\<lambda>(m, e).
      let ot = DMU_OT b m e in
        (ot AND DMU_OT_NEWTYPE \<noteq> 0) \<and> (ot AND DMU_OT_METADATA \<noteq> 0) = m
        \<and> (ot AND DMU_OT_ENCRYPTED \<noteq> 0) = e \<and> ot AND DMU_OT_BYTESWAP_MASK = b
        \<and> 0 \<le> ot \<and> ot < 256)
      [(True, True), (True, False), (False, True), (False, False)]) [0..31]"
  by code_simp

lemma packed_flags:
  assumes "0 \<le> b" and "b < 32"
  shows "DMU_OT b m e AND DMU_OT_NEWTYPE \<noteq> 0" and "DMU_OT b m e AND DMU_OT_METADATA \<noteq> 0 \<longleftrightarrow> m"
    and "DMU_OT b m e AND DMU_OT_ENCRYPTED \<noteq> 0 \<longleftrightarrow> e"
    and "DMU_OT b m e AND DMU_OT_BYTESWAP_MASK = b" and "0 \<le> DMU_OT b m e" and "DMU_OT b m e < 256"
proof -
  have "b \<in> set [0..31]" using assms by simp
  then have "list_all (\<lambda>(m, e).
      let ot = DMU_OT b m e in
        (ot AND DMU_OT_NEWTYPE \<noteq> 0) \<and> (ot AND DMU_OT_METADATA \<noteq> 0) = m
        \<and> (ot AND DMU_OT_ENCRYPTED \<noteq> 0) = e \<and> ot AND DMU_OT_BYTESWAP_MASK = b
        \<and> 0 \<le> ot \<and> ot < 256)
      [(True, True), (True, False), (False, True), (False, False)]"
    using packed_flags_table unfolding list_all_iff by blast
  then show "DMU_OT b m e AND DMU_OT_NEWTYPE \<noteq> 0" and "DMU_OT b m e AND DMU_OT_METADATA \<noteq> 0 \<longleftrightarrow> m"
    and "DMU_OT b m e AND DMU_OT_ENCRYPTED \<noteq> 0 \<longleftrightarrow> e"
    and "DMU_OT b m e AND DMU_OT_BYTESWAP_MASK = b" and "0 \<le> DMU_OT b m e" and "DMU_OT b m e < 256"
    by (cases m; cases e; simp add: Let_def)+
qed

section \<open>Properties\<close>

text \<open>A new-style object type carries its byteswap function, its metadata flag and
  its encryption flag in one byte, and the macros read each of them back; whatever the
  table of the old types holds, it is not consulted.\<close>

theorem dmu_ot_flags:
  assumes "0 \<le> b" and "b < 32"
  shows "DMU_OT_BYTESWAP dmu_ot (DMU_OT b m e) = b \<and> DMU_OT_IS_METADATA dmu_ot (DMU_OT b m e) = m
    \<and> DMU_OT_IS_ENCRYPTED dmu_ot (DMU_OT b m e) = e \<and> DMU_OT_IS_VALID (DMU_OT b m e) = (b < 10)
    \<and> 0 \<le> DMU_OT b m e \<and> DMU_OT b m e < 256"
  using packed_flags[OF assms, of m e]
  by (simp add: DMU_OT_BYTESWAP_def DMU_OT_IS_METADATA_def DMU_OT_IS_ENCRYPTED_def DMU_OT_IS_VALID_def
      DMU_BSWAP_NUMFUNCS_def)

theorem dmu_ot_flags_witness:
  "DMU_OT_BYTESWAP (\<lambda>_. \<lparr>ot_byteswap = 0, ot_metadata = False, ot_encrypt = False, ot_name = []\<rparr>)
     (DMU_OT 4 True False) = 4
   \<and> DMU_OT_IS_METADATA (\<lambda>_. \<lparr>ot_byteswap = 0, ot_metadata = False, ot_encrypt = False, ot_name = []\<rparr>)
     (DMU_OT 4 True False)
   \<and> \<not> DMU_OT_IS_ENCRYPTED (\<lambda>_. \<lparr>ot_byteswap = 0, ot_metadata = False, ot_encrypt = False, ot_name = []\<rparr>)
     (DMU_OT 4 True False)
   \<and> DMU_OT_IS_VALID (DMU_OT 4 True False) \<and> 0 \<le> DMU_OT 4 True False \<and> DMU_OT 4 True False < 256"
  using dmu_ot_flags[of 4 "\<lambda>_. \<lparr>ot_byteswap = 0, ot_metadata = False, ot_encrypt = False, ot_name = []\<rparr>" True False]
  by simp

text \<open>The extractor's copy of the object types gives every old type the number
  it has in \<open>sys/dmu.h\<close> and the extractor's table of names has one name for each of them;
  but the copy's \<open>DMU_OTN_ZAP_DATA\<close> is 196, the number of \<open>DMU_OTN_ZAP_METADATA\<close>: a type
  flagged as metadata under the name of plain data.\<close>

theorem object_types_agree:
  "take 55 (enum_table defs_object_type) = take 55 (enum_table dmu_object_type)
   \<and> enum_val defs_object_type ''DMU_OT_NUMTYPES'' = Some (int (length DMU_TYPE_DESC))
   \<and> enum_val dmu_object_type ''DMU_OTN_ZAP_DATA'' = Some 132
   \<and> enum_val defs_object_type ''DMU_OTN_ZAP_DATA'' = Some 196
   \<and> enum_val dmu_object_type ''DMU_OTN_ZAP_METADATA'' = Some 196
   \<and> 196 AND DMU_OT_METADATA \<noteq> 0"
  by (intro conjI; code_simp)

end
