(* ===== verification/Blkptr.thy ===== *)
theory Blkptr
  imports Bitfield Dmu Byteorder
begin

text \<open>
  Block pointers of \<open>sys/spa.h\<close>: the 128-byte \<open>blkptr_t\<close> with its three DVAs, and the
  macros that read and write the fields packed into their words. A macro that asserts
  something of its argument has an outcome as its result. Arrays are lists of the length the
  declaration gives them.
\<close>

section \<open>The structures\<close>

definition SPA_MINBLOCKSHIFT :: nat where "SPA_MINBLOCKSHIFT = 9"
definition SPA_OLD_MAXBLOCKSHIFT :: nat where "SPA_OLD_MAXBLOCKSHIFT = 17"
definition SPA_MAXBLOCKSHIFT :: nat where "SPA_MAXBLOCKSHIFT = 24"
definition SPA_MINBLOCKSIZE :: u64 where "SPA_MINBLOCKSIZE = push_bit SPA_MINBLOCKSHIFT 1"
definition SPA_OLD_MAXBLOCKSIZE :: u64 where "SPA_OLD_MAXBLOCKSIZE = push_bit SPA_OLD_MAXBLOCKSHIFT 1"
definition SPA_MAXBLOCKSIZE :: u64 where "SPA_MAXBLOCKSIZE = push_bit SPA_MAXBLOCKSHIFT 1"
definition SPA_LSIZEBITS :: nat where "SPA_LSIZEBITS = 16"
definition SPA_PSIZEBITS :: nat where "SPA_PSIZEBITS = 16"
definition SPA_ASIZEBITS :: nat where "SPA_ASIZEBITS = 24"
definition SPA_COMPRESSBITS :: nat where "SPA_COMPRESSBITS = 7"
definition SPA_BLKPTRSHIFT :: nat where "SPA_BLKPTRSHIFT = 7"
definition SPA_DVAS_PER_BP :: nat where "SPA_DVAS_PER_BP = 3"

record dva_t =
  dva_word :: "u64 list"

record zio_cksum_t =
  zc_word :: "u64 list"

record blkptr_t =
  blk_dva :: "dva_t list"
  blk_prop :: u64
  blk_pad :: "u64 list"
  blk_phys_birth :: u64
  blk_birth :: u64
  blk_fill :: u64
  blk_cksum :: zio_cksum_t

definition dva_wf :: "dva_t \<Rightarrow> bool" where
  "dva_wf d \<longleftrightarrow> length (dva_word d) = 2"

definition blkptr_wf :: "blkptr_t \<Rightarrow> bool" where
  "blkptr_wf bp \<longleftrightarrow> length (blk_dva bp) = SPA_DVAS_PER_BP \<and> list_all dva_wf (blk_dva bp)
     \<and> length (blk_pad bp) = 2 \<and> length (zc_word (blk_cksum bp)) = 4"

section \<open>Checksums\<close>

definition ZIO_SET_CHECKSUM :: "zio_cksum_t \<Rightarrow> u64 \<Rightarrow> u64 \<Rightarrow> u64 \<Rightarrow> u64 \<Rightarrow> zio_cksum_t" where
  "ZIO_SET_CHECKSUM zc w0 w1 w2 w3 = zc\<lparr>zc_word := (zc_word zc)[0 := w0, 1 := w1, 2 := w2, 3 := w3]\<rparr>"

definition ZIO_CHECKSUM_EQUAL :: "zio_cksum_t \<Rightarrow> zio_cksum_t \<Rightarrow> bool" where
  "ZIO_CHECKSUM_EQUAL zc1 zc2 \<longleftrightarrow>
     0 = ((zc_word zc1 ! 0 - zc_word zc2 ! 0) OR (zc_word zc1 ! 1 - zc_word zc2 ! 1)
          OR (zc_word zc1 ! 2 - zc_word zc2 ! 2) OR (zc_word zc1 ! 3 - zc_word zc2 ! 3))"

definition ZIO_CHECKSUM_IS_ZERO :: "zio_cksum_t \<Rightarrow> bool" where
  "ZIO_CHECKSUM_IS_ZERO zc \<longleftrightarrow>
     0 = (zc_word zc ! 0 OR zc_word zc ! 1 OR zc_word zc ! 2 OR zc_word zc ! 3)"

definition ZIO_CHECKSUM_BSWAP :: "zio_cksum_t \<Rightarrow> zio_cksum_t" where
  "ZIO_CHECKSUM_BSWAP zc = zc\<lparr>zc_word := (zc_word zc)[0 := BSWAP_64 (zc_word zc ! 0),
     1 := BSWAP_64 (zc_word zc ! 1), 2 := BSWAP_64 (zc_word zc ! 2), 3 := BSWAP_64 (zc_word zc ! 3)]\<rparr>"

section \<open>DVAs\<close>

definition set_dva :: "dva_t \<Rightarrow> nat \<Rightarrow> (u64 \<Rightarrow> stop + u64) \<Rightarrow> stop + dva_t" where
  "set_dva d i f = andthen (f (dva_word d ! i)) (\<lambda>w. Inr (d\<lparr>dva_word := (dva_word d)[i := w]\<rparr>))"

definition DVA_GET_ASIZE :: "dva_t \<Rightarrow> u64" where
  "DVA_GET_ASIZE d = BF64_GET_SB (dva_word d ! 0) 0 SPA_ASIZEBITS SPA_MINBLOCKSHIFT 0"
definition DVA_SET_ASIZE :: "dva_t \<Rightarrow> u64 \<Rightarrow> stop + dva_t" where
  "DVA_SET_ASIZE d x = set_dva d 0 (\<lambda>w. BF64_SET_SB w 0 SPA_ASIZEBITS SPA_MINBLOCKSHIFT 0 x)"

definition DVA_GET_GRID :: "dva_t \<Rightarrow> u64" where "DVA_GET_GRID d = BF64_GET (dva_word d ! 0) 24 8"
definition DVA_SET_GRID :: "dva_t \<Rightarrow> u64 \<Rightarrow> stop + dva_t" where
  "DVA_SET_GRID d x = set_dva d 0 (\<lambda>w. BF64_SET w 24 8 x)"

definition DVA_GET_VDEV :: "dva_t \<Rightarrow> u64" where "DVA_GET_VDEV d = BF64_GET (dva_word d ! 0) 32 32"
definition DVA_SET_VDEV :: "dva_t \<Rightarrow> u64 \<Rightarrow> stop + dva_t" where
  "DVA_SET_VDEV d x = set_dva d 0 (\<lambda>w. BF64_SET w 32 32 x)"

definition DVA_GET_OFFSET :: "dva_t \<Rightarrow> u64" where
  "DVA_GET_OFFSET d = BF64_GET_SB (dva_word d ! 1) 0 63 SPA_MINBLOCKSHIFT 0"
definition DVA_SET_OFFSET :: "dva_t \<Rightarrow> u64 \<Rightarrow> stop + dva_t" where
  "DVA_SET_OFFSET d x = set_dva d 1 (\<lambda>w. BF64_SET_SB w 0 63 SPA_MINBLOCKSHIFT 0 x)"

definition DVA_GET_GANG :: "dva_t \<Rightarrow> u64" where "DVA_GET_GANG d = BF64_GET (dva_word d ! 1) 63 1"
definition DVA_SET_GANG :: "dva_t \<Rightarrow> u64 \<Rightarrow> stop + dva_t" where
  "DVA_SET_GANG d x = set_dva d 1 (\<lambda>w. BF64_SET w 63 1 x)"

definition DVA_EQUAL :: "dva_t \<Rightarrow> dva_t \<Rightarrow> bool" where
  "DVA_EQUAL d1 d2 \<longleftrightarrow> dva_word d1 ! 1 = dva_word d2 ! 1 \<and> dva_word d1 ! 0 = dva_word d2 ! 0"

definition DVA_IS_VALID :: "dva_t \<Rightarrow> bool" where "DVA_IS_VALID d \<longleftrightarrow> DVA_GET_ASIZE d \<noteq> 0"

definition DVA_IS_EMPTY :: "dva_t \<Rightarrow> bool" where
  "DVA_IS_EMPTY d \<longleftrightarrow> dva_word d ! 0 = 0 \<and> dva_word d ! 1 = 0"

section \<open>The property word\<close>

definition set_prop :: "blkptr_t \<Rightarrow> (u64 \<Rightarrow> stop + u64) \<Rightarrow> stop + blkptr_t" where
  "set_prop bp f = andthen (f (blk_prop bp)) (\<lambda>w. Inr (bp\<lparr>blk_prop := w\<rparr>))"

definition BP_IS_EMBEDDED :: "blkptr_t \<Rightarrow> bool" where
  "BP_IS_EMBEDDED bp \<longleftrightarrow> BF64_GET (blk_prop bp) 39 1 \<noteq> 0"
definition BP_SET_EMBEDDED :: "blkptr_t \<Rightarrow> u64 \<Rightarrow> stop + blkptr_t" where
  "BP_SET_EMBEDDED bp x = set_prop bp (\<lambda>w. BF64_SET w 39 1 x)"

definition BPE_GET_ETYPE :: "blkptr_t \<Rightarrow> stop + u64" where
  "BPE_GET_ETYPE bp = andthen (ASSERT (BP_IS_EMBEDDED bp)) (\<lambda>_. Inr (BF64_GET (blk_prop bp) 40 8))"
definition BPE_SET_ETYPE :: "blkptr_t \<Rightarrow> u64 \<Rightarrow> stop + blkptr_t" where
  "BPE_SET_ETYPE bp t =
     andthen (ASSERT (BP_IS_EMBEDDED bp)) (\<lambda>_. set_prop bp (\<lambda>w. BF64_SET w 40 8 t))"

definition BPE_GET_LSIZE :: "blkptr_t \<Rightarrow> stop + u64" where
  "BPE_GET_LSIZE bp =
     andthen (ASSERT (BP_IS_EMBEDDED bp)) (\<lambda>_. Inr (BF64_GET_SB (blk_prop bp) 0 25 0 1))"
definition BPE_SET_LSIZE :: "blkptr_t \<Rightarrow> u64 \<Rightarrow> stop + blkptr_t" where
  "BPE_SET_LSIZE bp x =
     andthen (ASSERT (BP_IS_EMBEDDED bp)) (\<lambda>_. set_prop bp (\<lambda>w. BF64_SET_SB w 0 25 0 1 x))"

definition BPE_GET_PSIZE :: "blkptr_t \<Rightarrow> stop + u64" where
  "BPE_GET_PSIZE bp =
     andthen (ASSERT (BP_IS_EMBEDDED bp)) (\<lambda>_. Inr (BF64_GET_SB (blk_prop bp) 25 7 0 1))"
definition BPE_SET_PSIZE :: "blkptr_t \<Rightarrow> u64 \<Rightarrow> stop + blkptr_t" where
  "BPE_SET_PSIZE bp x =
     andthen (ASSERT (BP_IS_EMBEDDED bp)) (\<lambda>_. set_prop bp (\<lambda>w. BF64_SET_SB w 25 7 0 1 x))"

definition BP_EMBEDDED_TYPE_DATA :: u64 where "BP_EMBEDDED_TYPE_DATA = 0"
definition BPE_NUM_WORDS :: nat where "BPE_NUM_WORDS = 14"
definition BPE_PAYLOAD_SIZE :: nat where "BPE_PAYLOAD_SIZE = BPE_NUM_WORDS * 8"

definition BP_GET_LSIZE :: "blkptr_t \<Rightarrow> stop + u64" where
  "BP_GET_LSIZE bp =
     (if BP_IS_EMBEDDED bp then
        andthen (BPE_GET_ETYPE bp) (\<lambda>t. if t = BP_EMBEDDED_TYPE_DATA then BPE_GET_LSIZE bp else Inr 0)
      else Inr (BF64_GET_SB (blk_prop bp) 0 SPA_LSIZEBITS SPA_MINBLOCKSHIFT 1))"
definition BP_SET_LSIZE :: "blkptr_t \<Rightarrow> u64 \<Rightarrow> stop + blkptr_t" where
  "BP_SET_LSIZE bp x =
     andthen (ASSERT (\<not> BP_IS_EMBEDDED bp))
       (\<lambda>_. set_prop bp (\<lambda>w. BF64_SET_SB w 0 SPA_LSIZEBITS SPA_MINBLOCKSHIFT 1 x))"

definition BP_GET_PSIZE :: "blkptr_t \<Rightarrow> u64" where
  "BP_GET_PSIZE bp =
     (if BP_IS_EMBEDDED bp then 0 else BF64_GET_SB (blk_prop bp) 16 SPA_PSIZEBITS SPA_MINBLOCKSHIFT 1)"
definition BP_SET_PSIZE :: "blkptr_t \<Rightarrow> u64 \<Rightarrow> stop + blkptr_t" where
  "BP_SET_PSIZE bp x =
     andthen (ASSERT (\<not> BP_IS_EMBEDDED bp))
       (\<lambda>_. set_prop bp (\<lambda>w. BF64_SET_SB w 16 SPA_PSIZEBITS SPA_MINBLOCKSHIFT 1 x))"

definition BP_GET_COMPRESS :: "blkptr_t \<Rightarrow> u64" where
  "BP_GET_COMPRESS bp = BF64_GET (blk_prop bp) 32 SPA_COMPRESSBITS"
definition BP_SET_COMPRESS :: "blkptr_t \<Rightarrow> u64 \<Rightarrow> stop + blkptr_t" where
  "BP_SET_COMPRESS bp x = set_prop bp (\<lambda>w. BF64_SET w 32 SPA_COMPRESSBITS x)"

text \<open>\<open>ZIO_CHECKSUM_OFF\<close> is the third value of \<open>enum zio_checksum\<close>.\<close>

definition ZIO_CHECKSUM_OFF :: u64 where "ZIO_CHECKSUM_OFF = 2"

definition BP_GET_CHECKSUM :: "blkptr_t \<Rightarrow> u64" where
  "BP_GET_CHECKSUM bp = (if BP_IS_EMBEDDED bp then ZIO_CHECKSUM_OFF else BF64_GET (blk_prop bp) 40 8)"
definition BP_SET_CHECKSUM :: "blkptr_t \<Rightarrow> u64 \<Rightarrow> stop + blkptr_t" where
  "BP_SET_CHECKSUM bp x =
     andthen (ASSERT (\<not> BP_IS_EMBEDDED bp)) (\<lambda>_. set_prop bp (\<lambda>w. BF64_SET w 40 8 x))"

definition BP_GET_TYPE :: "blkptr_t \<Rightarrow> u64" where "BP_GET_TYPE bp = BF64_GET (blk_prop bp) 48 8"
definition BP_SET_TYPE :: "blkptr_t \<Rightarrow> u64 \<Rightarrow> stop + blkptr_t" where
  "BP_SET_TYPE bp x = set_prop bp (\<lambda>w. BF64_SET w 48 8 x)"

definition BP_GET_LEVEL :: "blkptr_t \<Rightarrow> u64" where "BP_GET_LEVEL bp = BF64_GET (blk_prop bp) 56 5"
definition BP_SET_LEVEL :: "blkptr_t \<Rightarrow> u64 \<Rightarrow> stop + blkptr_t" where
  "BP_SET_LEVEL bp x = set_prop bp (\<lambda>w. BF64_SET w 56 5 x)"

definition BP_USES_CRYPT :: "blkptr_t \<Rightarrow> bool" where
  "BP_USES_CRYPT bp \<longleftrightarrow> BF64_GET (blk_prop bp) 61 1 \<noteq> 0"
definition BP_SET_CRYPT :: "blkptr_t \<Rightarrow> u64 \<Rightarrow> stop + blkptr_t" where
  "BP_SET_CRYPT bp x = set_prop bp (\<lambda>w. BF64_SET w 61 1 x)"

definition BP_GET_DEDUP :: "blkptr_t \<Rightarrow> u64" where "BP_GET_DEDUP bp = BF64_GET (blk_prop bp) 62 1"
definition BP_SET_DEDUP :: "blkptr_t \<Rightarrow> u64 \<Rightarrow> stop + blkptr_t" where
  "BP_SET_DEDUP bp x = set_prop bp (\<lambda>w. BF64_SET w 62 1 x)"

definition BP_GET_BYTEORDER :: "blkptr_t \<Rightarrow> u64" where
  "BP_GET_BYTEORDER bp = BF64_GET (blk_prop bp) 63 1"
definition BP_SET_BYTEORDER :: "blkptr_t \<Rightarrow> u64 \<Rightarrow> stop + blkptr_t" where
  "BP_SET_BYTEORDER bp x = set_prop bp (\<lambda>w. BF64_SET w 63 1 x)"

definition ZFS_HOST_BYTEORDER :: "bool \<Rightarrow> u64" where
  "ZFS_HOST_BYTEORDER big_endian = (if big_endian then 0 else 1)"

definition BP_SHOULD_BYTESWAP :: "bool \<Rightarrow> blkptr_t \<Rightarrow> bool" where
  "BP_SHOULD_BYTESWAP big_endian bp \<longleftrightarrow> BP_GET_BYTEORDER bp \<noteq> ZFS_HOST_BYTEORDER big_endian"

section \<open>Kinds of blocks\<close>

type_synonym dmu_ot_table = "int \<Rightarrow> dmu_object_type_info"

definition BP_IS_ENCRYPTED :: "dmu_ot_table \<Rightarrow> blkptr_t \<Rightarrow> bool" where
  "BP_IS_ENCRYPTED dmu_ot bp \<longleftrightarrow>
     BP_USES_CRYPT bp \<and> BP_GET_LEVEL bp \<le> 0 \<and> DMU_OT_IS_ENCRYPTED dmu_ot (uint (BP_GET_TYPE bp))"

definition BP_IS_AUTHENTICATED :: "dmu_ot_table \<Rightarrow> blkptr_t \<Rightarrow> bool" where
  "BP_IS_AUTHENTICATED dmu_ot bp \<longleftrightarrow>
     BP_USES_CRYPT bp \<and> BP_GET_LEVEL bp \<le> 0 \<and> \<not> DMU_OT_IS_ENCRYPTED dmu_ot (uint (BP_GET_TYPE bp))"

definition BP_HAS_INDIRECT_MAC_CKSUM :: "blkptr_t \<Rightarrow> bool" where
  "BP_HAS_INDIRECT_MAC_CKSUM bp \<longleftrightarrow> BP_USES_CRYPT bp \<and> BP_GET_LEVEL bp > 0"

definition BP_IS_PROTECTED :: "dmu_ot_table \<Rightarrow> blkptr_t \<Rightarrow> bool" where
  "BP_IS_PROTECTED dmu_ot bp \<longleftrightarrow> BP_IS_ENCRYPTED dmu_ot bp \<or> BP_IS_AUTHENTICATED dmu_ot bp"

definition BP_IS_METADATA :: "dmu_ot_table \<Rightarrow> blkptr_t \<Rightarrow> bool" where
  "BP_IS_METADATA dmu_ot bp \<longleftrightarrow>
     BP_GET_LEVEL bp > 0 \<or> DMU_OT_IS_METADATA dmu_ot (uint (BP_GET_TYPE bp))"

definition BP_IDENTITY :: "blkptr_t \<Rightarrow> stop + dva_t" where
  "BP_IDENTITY bp = andthen (ASSERT (\<not> BP_IS_EMBEDDED bp)) (\<lambda>_. Inr (blk_dva bp ! 0))"

definition BP_IS_GANG :: "blkptr_t \<Rightarrow> stop + bool" where
  "BP_IS_GANG bp =
     (if BP_IS_EMBEDDED bp then Inr False
      else andthen (BP_IDENTITY bp) (\<lambda>d. Inr (DVA_GET_GANG d \<noteq> 0)))"

definition BP_IS_HOLE :: "blkptr_t \<Rightarrow> stop + bool" where
  "BP_IS_HOLE bp =
     (if BP_IS_EMBEDDED bp then Inr False
      else andthen (BP_IDENTITY bp) (\<lambda>d. Inr (DVA_IS_EMPTY d)))"

definition BP_IS_RAIDZ :: "blkptr_t \<Rightarrow> bool" where
  "BP_IS_RAIDZ bp \<longleftrightarrow> DVA_GET_ASIZE (blk_dva bp ! 0) > BP_GET_PSIZE bp"

section \<open>Births, fill counts and sizes\<close>

definition BP_PHYSICAL_BIRTH :: "blkptr_t \<Rightarrow> u64" where
  "BP_PHYSICAL_BIRTH bp =
     (if BP_IS_EMBEDDED bp then 0
      else if blk_phys_birth bp \<noteq> 0 then blk_phys_birth bp else blk_birth bp)"

definition BP_SET_BIRTH :: "blkptr_t \<Rightarrow> u64 \<Rightarrow> u64 \<Rightarrow> stop + blkptr_t" where
  "BP_SET_BIRTH bp logical physical =
     andthen (ASSERT (\<not> BP_IS_EMBEDDED bp)) (\<lambda>_.
     Inr (bp\<lparr>blk_birth := logical, blk_phys_birth := (if logical = physical then 0 else physical)\<rparr>))"

definition BP_GET_FILL :: "dmu_ot_table \<Rightarrow> blkptr_t \<Rightarrow> u64" where
  "BP_GET_FILL dmu_ot bp =
     (if BP_IS_ENCRYPTED dmu_ot bp then BF64_GET (blk_fill bp) 0 32
      else if BP_IS_EMBEDDED bp then 1 else blk_fill bp)"

definition BP_SET_FILL :: "dmu_ot_table \<Rightarrow> blkptr_t \<Rightarrow> u64 \<Rightarrow> stop + blkptr_t" where
  "BP_SET_FILL dmu_ot bp fill =
     (if BP_IS_ENCRYPTED dmu_ot bp
      then andthen (BF64_SET (blk_fill bp) 0 32 fill) (\<lambda>w. Inr (bp\<lparr>blk_fill := w\<rparr>))
      else Inr (bp\<lparr>blk_fill := fill\<rparr>))"

definition BP_GET_IV2 :: "dmu_ot_table \<Rightarrow> blkptr_t \<Rightarrow> stop + u64" where
  "BP_GET_IV2 dmu_ot bp =
     andthen (ASSERT (BP_IS_ENCRYPTED dmu_ot bp)) (\<lambda>_. Inr (BF64_GET (blk_fill bp) 32 32))"

definition BP_SET_IV2 :: "dmu_ot_table \<Rightarrow> blkptr_t \<Rightarrow> u64 \<Rightarrow> stop + blkptr_t" where
  "BP_SET_IV2 dmu_ot bp iv2 =
     andthen (ASSERT (BP_IS_ENCRYPTED dmu_ot bp)) (\<lambda>_.
     andthen (BF64_SET (blk_fill bp) 32 32 iv2) (\<lambda>w. Inr (bp\<lparr>blk_fill := w\<rparr>)))"

definition BP_GET_ASIZE :: "dmu_ot_table \<Rightarrow> blkptr_t \<Rightarrow> u64" where
  "BP_GET_ASIZE dmu_ot bp =
     (if BP_IS_EMBEDDED bp then 0
      else DVA_GET_ASIZE (blk_dva bp ! 0) + DVA_GET_ASIZE (blk_dva bp ! 1)
           + DVA_GET_ASIZE (blk_dva bp ! 2) * of_bool (\<not> BP_IS_ENCRYPTED dmu_ot bp))"

definition BP_GET_UCSIZE :: "dmu_ot_table \<Rightarrow> blkptr_t \<Rightarrow> stop + u64" where
  "BP_GET_UCSIZE dmu_ot bp =
     (if BP_IS_METADATA dmu_ot bp then Inr (BP_GET_PSIZE bp) else BP_GET_LSIZE bp)"

definition BP_GET_NDVAS :: "dmu_ot_table \<Rightarrow> blkptr_t \<Rightarrow> nat" where
  "BP_GET_NDVAS dmu_ot bp =
     (if BP_IS_EMBEDDED bp then 0
      else of_bool (DVA_GET_ASIZE (blk_dva bp ! 0) \<noteq> 0) + of_bool (DVA_GET_ASIZE (blk_dva bp ! 1) \<noteq> 0)
           + of_bool (DVA_GET_ASIZE (blk_dva bp ! 2) \<noteq> 0) * of_bool (\<not> BP_IS_ENCRYPTED dmu_ot bp))"

definition BP_COUNT_GANG :: "dmu_ot_table \<Rightarrow> blkptr_t \<Rightarrow> u64" where
  "BP_COUNT_GANG dmu_ot bp =
     (if BP_IS_EMBEDDED bp then 0
      else DVA_GET_GANG (blk_dva bp ! 0) + DVA_GET_GANG (blk_dva bp ! 1)
           + DVA_GET_GANG (blk_dva bp ! 2) * of_bool (\<not> BP_IS_ENCRYPTED dmu_ot bp))"

definition BP_EQUAL :: "blkptr_t \<Rightarrow> blkptr_t \<Rightarrow> bool" where
  "BP_EQUAL bp1 bp2 \<longleftrightarrow>
     BP_PHYSICAL_BIRTH bp1 = BP_PHYSICAL_BIRTH bp2 \<and> blk_birth bp1 = blk_birth bp2
     \<and> DVA_EQUAL (blk_dva bp1 ! 0) (blk_dva bp2 ! 0) \<and> DVA_EQUAL (blk_dva bp1 ! 1) (blk_dva bp2 ! 1)
     \<and> DVA_EQUAL (blk_dva bp1 ! 2) (blk_dva bp2 ! 2)"

definition zero_dva :: "dva_t \<Rightarrow> dva_t" where
  "zero_dva d = d\<lparr>dva_word := (dva_word d)[0 := 0, 1 := 0]\<rparr>"

definition BP_ZERO :: "blkptr_t \<Rightarrow> blkptr_t" where
  "BP_ZERO bp = bp\<lparr>blk_dva := (blk_dva bp)[0 := zero_dva (blk_dva bp ! 0),
       1 := zero_dva (blk_dva bp ! 1), 2 := zero_dva (blk_dva bp ! 2)],
     blk_prop := 0, blk_pad := (blk_pad bp)[0 := 0, 1 := 0], blk_phys_birth := 0, blk_birth := 0,
     blk_fill := 0, blk_cksum := ZIO_SET_CHECKSUM (blk_cksum bp) 0 0 0 0\<rparr>"

end
