(* ===== verification/Blkptr_Props.thy ===== *)
theory Blkptr_Props
  imports Blkptr
begin

text \<open>
  What the block-pointer macros promise: a field that is set reads back and no other field
  changes, so a property word is built field by field; holes, gang blocks, births and the
  three kinds of protected blocks are told apart.
\<close>

lemmas outcome_simps = set_prop_def set_dva_def BF64_SET_ok BF64_SET_SB_ok andthen_simps ASSERT_True

lemma W_0_1: "(0 :: u64) = W 0" "(1 :: u64) = W 1"
  by (simp_all add: W_def)

lemma small_values: "v < 2 \<Longrightarrow> (v :: u64) < 2 ^ 1"
  by simp

section \<open>DVAs\<close>

lemma DVA_SET_ASIZE_ok:
  "sb_fits 24 9 0 x \<Longrightarrow> DVA_SET_ASIZE d x
     = Inr (d\<lparr>dva_word := (dva_word d)[0 := with_field (dva_word d ! 0) 0 24 (W (unat x div 512))]\<rparr>)"
  using BF64_SET_SB_ok[of 24 9 0 x 0 "dva_word d ! 0"]
  by (simp add: DVA_SET_ASIZE_def set_dva_def SPA_ASIZEBITS_def SPA_MINBLOCKSHIFT_def W_0)

lemma DVA_SET_OFFSET_ok:
  "sb_fits 63 9 0 x \<Longrightarrow> DVA_SET_OFFSET d x
     = Inr (d\<lparr>dva_word := (dva_word d)[1 := with_field (dva_word d ! 1) 0 63 (W (unat x div 512))]\<rparr>)"
  using BF64_SET_SB_ok[of 63 9 0 x 0 "dva_word d ! 1"]
  by (simp add: DVA_SET_OFFSET_def set_dva_def SPA_MINBLOCKSHIFT_def W_0)

lemma DVA_SET_plain_ok:
  "g < 2 ^ 8 \<Longrightarrow> DVA_SET_GRID d g = Inr (d\<lparr>dva_word := (dva_word d)[0 := with_field (dva_word d ! 0) 24 8 g]\<rparr>)"
  "v < 2 ^ 32 \<Longrightarrow> DVA_SET_VDEV d v = Inr (d\<lparr>dva_word := (dva_word d)[0 := with_field (dva_word d ! 0) 32 32 v]\<rparr>)"
  "k < 2 ^ 1 \<Longrightarrow> DVA_SET_GANG d k = Inr (d\<lparr>dva_word := (dva_word d)[1 := with_field (dva_word d ! 1) 63 1 k]\<rparr>)"
  by (simp_all add: DVA_SET_GRID_def DVA_SET_VDEV_def DVA_SET_GANG_def set_dva_def BF64_SET_ok)

definition DVA_SET_ALL :: "dva_t \<Rightarrow> u64 \<Rightarrow> u64 \<Rightarrow> u64 \<Rightarrow> u64 \<Rightarrow> u64 \<Rightarrow> stop + dva_t" where
  "DVA_SET_ALL d asize grid vdev offset gang =
     andthen (DVA_SET_ASIZE d asize) (\<lambda>d. andthen (DVA_SET_GRID d grid) (\<lambda>d.
     andthen (DVA_SET_VDEV d vdev) (\<lambda>d. andthen (DVA_SET_OFFSET d offset) (\<lambda>d. DVA_SET_GANG d gang))))"

lemmas DVA_getters = DVA_GET_ASIZE_def DVA_GET_GRID_def DVA_GET_VDEV_def DVA_GET_OFFSET_def
  DVA_GET_GANG_def SPA_ASIZEBITS_def SPA_MINBLOCKSHIFT_def

lemma get_SB_zero_bias:
  assumes "sb_fits len shift 0 val" and "len < 64" and "low + len \<le> 64"
  shows "BF64_GET_SB (with_field x low len (W (unat val div 2 ^ shift))) low len shift 0 = val"
  using get_SB_with_field[OF assms, of x] by (simp add: W_0)

text \<open>The five fields of a DVA (allocated size, RAID-Z layout, device, offset and
  gang bit) are independent: written one after the other into any DVA, each of them reads
  back, for every size and offset that is a multiple of 512 bytes and fits its field.\<close>

theorem dva_roundtrip:
  assumes "dva_wf d" and "sb_fits 24 9 0 asize" and "grid < 2 ^ 8" and "vdev < 2 ^ 32"
    and "sb_fits 63 9 0 offset" and "gang < 2 ^ 1"
  shows "\<exists>d'. DVA_SET_ALL d asize grid vdev offset gang = Inr d' \<and> dva_wf d'
    \<and> DVA_GET_ASIZE d' = asize \<and> DVA_GET_GRID d' = grid \<and> DVA_GET_VDEV d' = vdev
    \<and> DVA_GET_OFFSET d' = offset \<and> DVA_GET_GANG d' = gang"
proof -
  have l: "length (dva_word d) = 2" using assms(1) by (simp add: dva_wf_def)
  show ?thesis
    using l get_SB_zero_bias[OF assms(2)] get_SB_zero_bias[OF assms(5)] assms(3,4,6)
    by (simp add: DVA_SET_ALL_def DVA_SET_ASIZE_ok[OF assms(2)] DVA_SET_OFFSET_ok[OF assms(5)]
        DVA_SET_plain_ok DVA_getters dva_wf_def get_with_field get_other_field get_SB_other_field)
qed

theorem dva_roundtrip_witness:
  "\<exists>d'. DVA_SET_ALL \<lparr>dva_word = [- 1, - 1]\<rparr> 0x2000 3 7 0x5a000 1 = Inr d' \<and> dva_wf d'
    \<and> DVA_GET_ASIZE d' = 0x2000 \<and> DVA_GET_GRID d' = 3 \<and> DVA_GET_VDEV d' = 7
    \<and> DVA_GET_OFFSET d' = 0x5a000 \<and> DVA_GET_GANG d' = 1"
  by (rule dva_roundtrip) (simp_all add: dva_wf_def sb_fits_def)

section \<open>The property word\<close>

definition BP_SET_ALL ::
    "blkptr_t \<Rightarrow> u64 \<Rightarrow> u64 \<Rightarrow> u64 \<Rightarrow> u64 \<Rightarrow> u64 \<Rightarrow> u64 \<Rightarrow> u64 \<Rightarrow> u64 \<Rightarrow> u64 \<Rightarrow> stop + blkptr_t" where
  "BP_SET_ALL bp lsize psize cmp cksum typ lvl crypt dedup order =
     andthen (BP_SET_LSIZE bp lsize) (\<lambda>bp. andthen (BP_SET_PSIZE bp psize) (\<lambda>bp.
     andthen (BP_SET_COMPRESS bp cmp) (\<lambda>bp. andthen (BP_SET_CHECKSUM bp cksum) (\<lambda>bp.
     andthen (BP_SET_TYPE bp typ) (\<lambda>bp. andthen (BP_SET_LEVEL bp lvl) (\<lambda>bp.
     andthen (BP_SET_CRYPT bp crypt) (\<lambda>bp. andthen (BP_SET_DEDUP bp dedup) (\<lambda>bp.
     BP_SET_BYTEORDER bp order))))))))"

lemma embedded_prop: "BP_IS_EMBEDDED (bp\<lparr>blk_prop := with_field w low len v\<rparr>) \<longleftrightarrow> BP_IS_EMBEDDED (bp\<lparr>blk_prop := w\<rparr>)"
  if "low + len \<le> 39 \<or> 40 \<le> low"
  using that get_other_field[of 39 1 low len w v] by (auto simp: BP_IS_EMBEDDED_def)

lemma BP_SET_sizes_ok:
  "\<not> BP_IS_EMBEDDED bp \<Longrightarrow> sb_fits 16 9 1 x \<Longrightarrow> BP_SET_LSIZE bp x
     = Inr (bp\<lparr>blk_prop := with_field (blk_prop bp) 0 16 (W (unat x div 512 - 1))\<rparr>)"
  "\<not> BP_IS_EMBEDDED bp \<Longrightarrow> sb_fits 16 9 1 x \<Longrightarrow> BP_SET_PSIZE bp x
     = Inr (bp\<lparr>blk_prop := with_field (blk_prop bp) 16 16 (W (unat x div 512 - 1))\<rparr>)"
  using BF64_SET_SB_ok[of 16 9 1 x 0 "blk_prop bp"] BF64_SET_SB_ok[of 16 9 1 x 16 "blk_prop bp"]
  by (simp_all add: BP_SET_LSIZE_def BP_SET_PSIZE_def set_prop_def SPA_LSIZEBITS_def SPA_PSIZEBITS_def
      SPA_MINBLOCKSHIFT_def W_1[unfolded One_nat_def])

lemma get_SB_bias_one:
  assumes "sb_fits len shift 1 val" and "len < 64" and "low + len \<le> 64"
  shows "BF64_GET_SB (with_field x low len (W (unat val div 2 ^ shift - 1))) low len shift 1 = val"
  using get_SB_with_field[OF assms, of x] by (simp add: W_1[unfolded One_nat_def])

lemmas BP_setters = BP_SET_COMPRESS_def BP_SET_CHECKSUM_def BP_SET_TYPE_def BP_SET_LEVEL_def
  BP_SET_CRYPT_def BP_SET_DEDUP_def BP_SET_BYTEORDER_def set_prop_def SPA_COMPRESSBITS_def

lemmas BP_getters = BP_GET_LSIZE_def BP_GET_PSIZE_def BP_GET_COMPRESS_def BP_GET_CHECKSUM_def
  BP_GET_TYPE_def BP_GET_LEVEL_def BP_USES_CRYPT_def BP_GET_DEDUP_def BP_GET_BYTEORDER_def
  SPA_LSIZEBITS_def SPA_PSIZEBITS_def SPA_COMPRESSBITS_def SPA_MINBLOCKSHIFT_def

lemma BP_SET_ALL_word:
  assumes "\<not> BP_IS_EMBEDDED bp" and "sb_fits 16 9 1 lsize" and "sb_fits 16 9 1 psize"
    and "cmp < 2 ^ 7" and "cksum < 2 ^ 8" and "typ < 2 ^ 8" and "lvl < 2 ^ 5"
    and "crypt < 2 ^ 1" and "dedup < 2 ^ 1" and "order < 2 ^ 1"
  shows "BP_SET_ALL bp lsize psize cmp cksum typ lvl crypt dedup order = Inr (bp\<lparr>blk_prop :=
    with_field (with_field (with_field (with_field (with_field (with_field (with_field (with_field
      (with_field (blk_prop bp) 0 16 (W (unat lsize div 512 - 1))) 16 16 (W (unat psize div 512 - 1)))
      32 7 cmp) 40 8 cksum) 48 8 typ) 56 5 lvl) 61 1 crypt) 62 1 dedup) 63 1 order\<rparr>)"
  using assms
  by (simp add: BP_SET_ALL_def BP_SET_sizes_ok embedded_prop BP_setters BF64_SET_ok)

text \<open>C29: The nine fields of the property word of a normal block pointer are
  independent: written one after the other into any block pointer that is not embedded,
  each of them reads back, the block pointer stays a normal one, and nothing but the
  property word changes. Sizes are multiples of 512 bytes up to 32 MB.\<close>

theorem bp_roundtrip:
  assumes "\<not> BP_IS_EMBEDDED bp" and "sb_fits 16 9 1 lsize" and "sb_fits 16 9 1 psize"
    and "cmp < 2 ^ 7" and "cksum < 2 ^ 8" and "typ < 2 ^ 8" and "lvl < 2 ^ 5"
    and "crypt < 2 ^ 1" and "dedup < 2 ^ 1" and "order < 2 ^ 1"
  shows "\<exists>bp'. BP_SET_ALL bp lsize psize cmp cksum typ lvl crypt dedup order = Inr bp'
    \<and> \<not> BP_IS_EMBEDDED bp' \<and> BP_GET_LSIZE bp' = Inr lsize \<and> BP_GET_PSIZE bp' = psize
    \<and> BP_GET_COMPRESS bp' = cmp \<and> BP_GET_CHECKSUM bp' = cksum \<and> BP_GET_TYPE bp' = typ
    \<and> BP_GET_LEVEL bp' = lvl \<and> BP_USES_CRYPT bp' = (crypt \<noteq> 0) \<and> BP_GET_DEDUP bp' = dedup
    \<and> BP_GET_BYTEORDER bp' = order \<and> bp'\<lparr>blk_prop := blk_prop bp\<rparr> = bp"
proof -
  note w = BP_SET_ALL_word[OF assms]
  have e: "BF64_GET (blk_prop bp) 39 1 = 0" using assms(1) by (simp add: BP_IS_EMBEDDED_def)
  show ?thesis
    unfolding w using e assms get_SB_bias_one[OF assms(2)] get_SB_bias_one[OF assms(3)]
    by (simp add: BP_getters BP_IS_EMBEDDED_def get_with_field get_other_field get_SB_other_field)
qed

definition blank_bp :: blkptr_t where
  "blank_bp = \<lparr>blk_dva = [\<lparr>dva_word = [0, 0]\<rparr>, \<lparr>dva_word = [0, 0]\<rparr>, \<lparr>dva_word = [0, 0]\<rparr>],
     blk_prop = 0, blk_pad = [0, 0], blk_phys_birth = 0, blk_birth = 0, blk_fill = 0,
     blk_cksum = \<lparr>zc_word = [0, 0, 0, 0]\<rparr>\<rparr>"

lemma zero_field [simp]: "BF64_GET 0 low len = 0"
  by (simp add: BF64_GET_take)

lemma blank_normal: "\<not> BP_IS_EMBEDDED blank_bp"
  by (simp add: BP_IS_EMBEDDED_def blank_bp_def)

theorem bp_roundtrip_witness:
  "\<exists>bp'. BP_SET_ALL blank_bp 0x4000 0x2000 15 7 16 1 1 0 1 = Inr bp'
    \<and> \<not> BP_IS_EMBEDDED bp' \<and> BP_GET_LSIZE bp' = Inr 0x4000 \<and> BP_GET_PSIZE bp' = 0x2000
    \<and> BP_GET_COMPRESS bp' = 15 \<and> BP_GET_CHECKSUM bp' = 7 \<and> BP_GET_TYPE bp' = 16
    \<and> BP_GET_LEVEL bp' = 1 \<and> BP_USES_CRYPT bp' = ((1 :: u64) \<noteq> 0) \<and> BP_GET_DEDUP bp' = 0
    \<and> BP_GET_BYTEORDER bp' = 1 \<and> bp'\<lparr>blk_prop := blk_prop blank_bp\<rparr> = blank_bp"
  by (rule bp_roundtrip[OF blank_normal]) (simp_all add: sb_fits_def)

section \<open>Embedded block pointers\<close>

text \<open>Marking a block pointer as embedded and then setting the type, the logical
  size (1 byte to 32 MB) and the physical size (1 to 128 bytes) of its payload reads back;
  a logical size is reported only for payloads of plain data, the physical size and the
  number of DVAs are 0.\<close>

theorem bpe_roundtrip:
  assumes "etype < 2 ^ 8" and "sb_fits 25 0 1 lsize" and "sb_fits 7 0 1 psize"
  shows "\<exists>bp'. andthen (BP_SET_EMBEDDED bp 1) (\<lambda>bp. andthen (BPE_SET_ETYPE bp etype) (\<lambda>bp.
      andthen (BPE_SET_LSIZE bp lsize) (\<lambda>bp. BPE_SET_PSIZE bp psize))) = Inr bp'
    \<and> BP_IS_EMBEDDED bp' \<and> BPE_GET_ETYPE bp' = Inr etype \<and> BPE_GET_LSIZE bp' = Inr lsize
    \<and> BPE_GET_PSIZE bp' = Inr psize \<and> BP_GET_LSIZE bp' = Inr (if etype = 0 then lsize else 0)
    \<and> BP_GET_PSIZE bp' = 0 \<and> BP_GET_NDVAS dmu_ot bp' = 0"
proof -
  let ?w1 = "with_field (blk_prop bp) 39 1 1"
  let ?w2 = "with_field ?w1 40 8 etype"
  let ?w3 = "with_field ?w2 0 25 (W (unat lsize div 2 ^ 0 - 1))"
  let ?w4 = "with_field ?w3 25 7 (W (unat psize div 2 ^ 0 - 1))"
  have s1: "BP_SET_EMBEDDED bp 1 = Inr (bp\<lparr>blk_prop := ?w1\<rparr>)"
    by (simp add: BP_SET_EMBEDDED_def set_prop_def BF64_SET_ok)
  have m: "BF64_GET ?w1 39 1 = 1" "BF64_GET ?w2 39 1 = 1" "BF64_GET ?w3 39 1 = 1" "BF64_GET ?w4 39 1 = 1"
    by (simp_all add: get_other_field get_with_field)
  have s2: "BPE_SET_ETYPE (bp\<lparr>blk_prop := ?w1\<rparr>) etype = Inr (bp\<lparr>blk_prop := ?w2\<rparr>)"
    using m assms(1) by (simp add: BPE_SET_ETYPE_def BP_IS_EMBEDDED_def set_prop_def BF64_SET_ok)
  have s3: "BPE_SET_LSIZE (bp\<lparr>blk_prop := ?w2\<rparr>) lsize = Inr (bp\<lparr>blk_prop := ?w3\<rparr>)"
    using m BF64_SET_SB_ok[OF assms(2), of 0 ?w2]
    by (simp add: BPE_SET_LSIZE_def BP_IS_EMBEDDED_def set_prop_def W_1[unfolded One_nat_def])
  have s4: "BPE_SET_PSIZE (bp\<lparr>blk_prop := ?w3\<rparr>) psize = Inr (bp\<lparr>blk_prop := ?w4\<rparr>)"
    using m BF64_SET_SB_ok[OF assms(3), of 25 ?w3]
    by (simp add: BPE_SET_PSIZE_def BP_IS_EMBEDDED_def set_prop_def W_1[unfolded One_nat_def])
  have g: "BF64_GET ?w4 40 8 = etype" using assms(1) by (simp add: get_other_field get_with_field)
  have l: "BF64_GET_SB ?w4 0 25 0 1 = lsize"
    using get_SB_bias_one[OF assms(2), of 0 ?w2] by (simp add: get_SB_other_field)
  have p: "BF64_GET_SB ?w4 25 7 0 1 = psize"
    using get_SB_bias_one[OF assms(3), of 25 ?w3] by simp
  define w where "w = ?w4"
  note f = m(4)[folded w_def] g[folded w_def] l[folded w_def] p[folded w_def]
  have "andthen (BP_SET_EMBEDDED bp 1) (\<lambda>bp. andthen (BPE_SET_ETYPE bp etype) (\<lambda>bp.
      andthen (BPE_SET_LSIZE bp lsize) (\<lambda>bp. BPE_SET_PSIZE bp psize))) = Inr (bp\<lparr>blk_prop := w\<rparr>)"
    by (simp only: s1 s2 s3 s4[folded w_def] andthen_simps)
  then show ?thesis
    using f by (simp add: BPE_GET_ETYPE_def BPE_GET_LSIZE_def BPE_GET_PSIZE_def BP_IS_EMBEDDED_def
        BP_GET_LSIZE_def BP_GET_PSIZE_def BP_GET_NDVAS_def BP_EMBEDDED_TYPE_DATA_def)
qed

theorem bpe_roundtrip_witness:
  "\<exists>bp'. andthen (BP_SET_EMBEDDED blank_bp 1) (\<lambda>bp. andthen (BPE_SET_ETYPE bp 0) (\<lambda>bp.
      andthen (BPE_SET_LSIZE bp 4096) (\<lambda>bp. BPE_SET_PSIZE bp 112))) = Inr bp'
    \<and> BP_IS_EMBEDDED bp' \<and> BPE_GET_ETYPE bp' = Inr 0 \<and> BPE_GET_LSIZE bp' = Inr 4096
    \<and> BPE_GET_PSIZE bp' = Inr 112 \<and> BP_GET_LSIZE bp' = Inr (if (0 :: u64) = 0 then 4096 else 0)
    \<and> BP_GET_PSIZE bp' = 0
    \<and> BP_GET_NDVAS (\<lambda>_. \<lparr>ot_byteswap = 0, ot_metadata = False, ot_encrypt = False, ot_name = []\<rparr>) bp' = 0"
  by (rule bpe_roundtrip) (simp_all add: sb_fits_def)

section \<open>Kinds of block pointers\<close>

text \<open>The macros that read sizes, holes and gang blocks never trip the assertions
  of the macros they are made of, on any block pointer, embedded or not.\<close>

theorem bp_macros_total:
  "(\<exists>v. BP_GET_LSIZE bp = Inr v) \<and> (\<exists>v. BP_GET_UCSIZE dmu_ot bp = Inr v)
   \<and> (\<exists>b. BP_IS_HOLE bp = Inr b) \<and> (\<exists>b. BP_IS_GANG bp = Inr b)"
  by (auto simp: BP_GET_LSIZE_def BP_GET_UCSIZE_def BP_IS_HOLE_def BP_IS_GANG_def BPE_GET_ETYPE_def
      BPE_GET_LSIZE_def BP_IDENTITY_def)

text \<open>\<open>BP_ZERO\<close> leaves a hole: a well-formed block pointer that is not embedded and
  not a gang block, uses no encryption, has no DVA, no allocated size and no birth.\<close>

theorem bp_zero_hole:
  assumes "blkptr_wf bp"
  shows "blkptr_wf (BP_ZERO bp) \<and> BP_IS_HOLE (BP_ZERO bp) = Inr True
    \<and> \<not> BP_IS_EMBEDDED (BP_ZERO bp) \<and> BP_IS_GANG (BP_ZERO bp) = Inr False
    \<and> \<not> BP_USES_CRYPT (BP_ZERO bp) \<and> BP_GET_NDVAS dmu_ot (BP_ZERO bp) = 0
    \<and> BP_GET_ASIZE dmu_ot (BP_ZERO bp) = 0 \<and> BP_PHYSICAL_BIRTH (BP_ZERO bp) = 0
    \<and> ZIO_CHECKSUM_IS_ZERO (blk_cksum (BP_ZERO bp))"
proof -
  have l: "length (blk_dva bp) = 3" "length (blk_pad bp) = 2" "length (zc_word (blk_cksum bp)) = 4"
    and d: "list_all dva_wf (blk_dva bp)"
    using assms by (simp_all add: blkptr_wf_def SPA_DVAS_PER_BP_def)
  then have d2: "length (dva_word (blk_dva bp ! i)) = 2" if "i < 3" for i
    using that by (simp add: list_all_length dva_wf_def)
  have z: "dva_word (blk_dva (BP_ZERO bp) ! i) ! j = 0" if "i < 3" "j < 2" for i j
  proof -
    have "i = 0 \<or> i = 1 \<or> i = 2" "j = 0 \<or> j = 1" using that by linarith+
    then show ?thesis using l d2[of 0] d2[of 1] d2[of 2]
      by (elim disjE) (simp_all add: BP_ZERO_def zero_dva_def nth_list_update)
  qed
  have e: "\<not> BP_IS_EMBEDDED (BP_ZERO bp)" by (simp add: BP_IS_EMBEDDED_def BP_ZERO_def)
  have sb: "BF64_GET_SB 0 low len shift 0 = 0" for low len shift by (simp add: BF64_GET_SB_def)
  have "list_all dva_wf (blk_dva (BP_ZERO bp))"
    using l d d2[of 0] d2[of 1] d2[of 2]
    by (auto simp: BP_ZERO_def zero_dva_def list_all_length dva_wf_def nth_list_update)
  then have wf: "blkptr_wf (BP_ZERO bp)"
    using l by (simp add: blkptr_wf_def BP_ZERO_def ZIO_SET_CHECKSUM_def SPA_DVAS_PER_BP_def)
  show ?thesis
    using wf e z[of 0 0] z[of 0 1] z[of 1 0] z[of 1 1] z[of 2 0] z[of 2 1] l
    by (simp add: BP_IS_HOLE_def BP_IS_GANG_def BP_IDENTITY_def DVA_IS_EMPTY_def DVA_GET_GANG_def
        DVA_GET_ASIZE_def BP_GET_NDVAS_def BP_GET_ASIZE_def BP_USES_CRYPT_def BP_PHYSICAL_BIRTH_def sb)
      (simp add: BP_ZERO_def ZIO_CHECKSUM_IS_ZERO_def ZIO_SET_CHECKSUM_def)
qed

theorem bp_zero_hole_witness:
  "blkptr_wf (BP_ZERO blank_bp) \<and> BP_IS_HOLE (BP_ZERO blank_bp) = Inr True
    \<and> \<not> BP_IS_EMBEDDED (BP_ZERO blank_bp) \<and> BP_IS_GANG (BP_ZERO blank_bp) = Inr False
    \<and> \<not> BP_USES_CRYPT (BP_ZERO blank_bp)
    \<and> BP_GET_NDVAS (\<lambda>_. \<lparr>ot_byteswap = 0, ot_metadata = False, ot_encrypt = False, ot_name = []\<rparr>) (BP_ZERO blank_bp) = 0
    \<and> BP_GET_ASIZE (\<lambda>_. \<lparr>ot_byteswap = 0, ot_metadata = False, ot_encrypt = False, ot_name = []\<rparr>) (BP_ZERO blank_bp) = 0
    \<and> BP_PHYSICAL_BIRTH (BP_ZERO blank_bp) = 0
    \<and> ZIO_CHECKSUM_IS_ZERO (blk_cksum (BP_ZERO blank_bp))"
  by (rule bp_zero_hole) (simp add: blank_bp_def blkptr_wf_def dva_wf_def SPA_DVAS_PER_BP_def)

text \<open>After \<open>BP_SET_BIRTH\<close> the logical birth is the one given and so is the physical one,
  except that a physical birth of 0 reads as the logical birth.\<close>

theorem bp_birth:
  assumes "\<not> BP_IS_EMBEDDED bp"
  shows "\<exists>bp'. BP_SET_BIRTH bp logical physical = Inr bp' \<and> blk_birth bp' = logical
    \<and> BP_PHYSICAL_BIRTH bp' = (if physical = 0 then logical else physical)
    \<and> blk_prop bp' = blk_prop bp"
  using assms by (auto simp: BP_SET_BIRTH_def BP_PHYSICAL_BIRTH_def BP_IS_EMBEDDED_def)

theorem bp_birth_witness:
  "\<exists>bp'. BP_SET_BIRTH blank_bp 2937 2935 = Inr bp' \<and> blk_birth bp' = 2937
    \<and> BP_PHYSICAL_BIRTH bp' = (if (2935 :: u64) = 0 then 2937 else 2935)
    \<and> blk_prop bp' = blk_prop blank_bp"
  by (rule bp_birth[OF blank_normal])

text \<open>In an encrypted block pointer the fill count and the last 32 bits of the IV share
  a word and do not disturb each other.\<close>

theorem bp_fill_iv:
  assumes "BP_IS_ENCRYPTED dmu_ot bp" and "fill < 2 ^ 32" and "iv2 < 2 ^ 32"
  shows "\<exists>bp'. andthen (BP_SET_FILL dmu_ot bp fill) (\<lambda>bp. BP_SET_IV2 dmu_ot bp iv2) = Inr bp'
    \<and> BP_GET_FILL dmu_ot bp' = fill \<and> BP_GET_IV2 dmu_ot bp' = Inr iv2 \<and> BP_IS_ENCRYPTED dmu_ot bp'"
proof -
  have e: "BP_IS_ENCRYPTED dmu_ot (bp\<lparr>blk_fill := w\<rparr>)" for w
    using assms(1) by (simp add: BP_IS_ENCRYPTED_def BP_USES_CRYPT_def BP_GET_LEVEL_def BP_GET_TYPE_def)
  show ?thesis
    using assms e
    by (simp add: BP_SET_FILL_def BP_SET_IV2_def BP_GET_FILL_def BP_GET_IV2_def BF64_SET_ok
        get_with_field get_other_field)
qed

theorem bp_fill_iv_witness:
  "\<exists>bp'. andthen (BP_SET_FILL (\<lambda>_. \<lparr>ot_byteswap = 0, ot_metadata = False, ot_encrypt = True, ot_name = []\<rparr>)
        (blank_bp\<lparr>blk_prop := 0x2000000000000000\<rparr>) 5)
      (\<lambda>bp. BP_SET_IV2 (\<lambda>_. \<lparr>ot_byteswap = 0, ot_metadata = False, ot_encrypt = True, ot_name = []\<rparr>) bp 9) = Inr bp'
    \<and> BP_GET_FILL (\<lambda>_. \<lparr>ot_byteswap = 0, ot_metadata = False, ot_encrypt = True, ot_name = []\<rparr>) bp' = 5
    \<and> BP_GET_IV2 (\<lambda>_. \<lparr>ot_byteswap = 0, ot_metadata = False, ot_encrypt = True, ot_name = []\<rparr>) bp' = Inr 9
    \<and> BP_IS_ENCRYPTED (\<lambda>_. \<lparr>ot_byteswap = 0, ot_metadata = False, ot_encrypt = True, ot_name = []\<rparr>) bp'"
proof (rule bp_fill_iv)
  show "BP_IS_ENCRYPTED (\<lambda>_. \<lparr>ot_byteswap = 0, ot_metadata = False, ot_encrypt = True, ot_name = []\<rparr>)
      (blank_bp\<lparr>blk_prop := 0x2000000000000000\<rparr>)"
    by (simp add: BP_IS_ENCRYPTED_def BP_USES_CRYPT_def BP_GET_LEVEL_def BP_GET_TYPE_def
        DMU_OT_IS_ENCRYPTED_def BF64_GET_take take_bit_eq_mod DMU_OT_NEWTYPE_def)
qed simp_all

end
