(* ===== verification/Abd.thy ===== *)
theory Abd
  imports Prelude
begin

text \<open>
  The buffers of \<open>extractor/zio.cpp\<close>: an explicit heap of byte buffers and of \<open>abd_t\<close>
  headers, with \<open>abd_alloc_linear\<close>, \<open>abd_get_offset_size\<close> and \<open>abd_free\<close>. A buffer or a
  header is named by its position in the heap; freeing it leaves a hole, and any use of a
  hole is \<open>Undefined\<close>. A byte of a fresh buffer is \<^const>\<open>None\<close> until it is written.
\<close>

section \<open>The heap\<close>

definition ABD_FLAG_LINEAR :: nat where "ABD_FLAG_LINEAR = 2 ^ 0"
definition ABD_FLAG_OWNER :: nat where "ABD_FLAG_OWNER = 2 ^ 1"
definition ABD_FLAG_META :: nat where "ABD_FLAG_META = 2 ^ 2"
definition ABD_FLAG_MULTI_ZONE :: nat where "ABD_FLAG_MULTI_ZONE = 2 ^ 3"
definition ABD_FLAG_MULTI_CHUNK :: nat where "ABD_FLAG_MULTI_CHUNK = 2 ^ 4"

type_synonym cells = "u8 option list"

record abd_t =
  abd_flags :: nat
  abd_size :: u64
  abd_parent :: "nat option"
  abd_buf :: "nat \<times> nat"     \<comment> \<open>a buffer and an offset into it\<close>

record heap =
  hp_bufs :: "cells option list"
  hp_abds :: "abd_t option list"

definition live_abd :: "heap \<Rightarrow> nat \<Rightarrow> abd_t option" where
  "live_abd h p = (if p < length (hp_abds h) then hp_abds h ! p else None)"

definition live_buf :: "heap \<Rightarrow> nat \<Rightarrow> cells option" where
  "live_buf h b = (if b < length (hp_bufs h) then hp_bufs h ! b else None)"

definition new_abd :: "abd_t \<Rightarrow> heap \<Rightarrow> nat \<times> heap" where
  "new_abd a h = (length (hp_abds h), h\<lparr>hp_abds := hp_abds h @ [Some a]\<rparr>)"

definition malloc_buf :: "u64 \<Rightarrow> heap \<Rightarrow> nat \<times> heap" where
  "malloc_buf sz h =
     (length (hp_bufs h), h\<lparr>hp_bufs := hp_bufs h @ [Some (replicate (unat sz) None)]\<rparr>)"

definition free_buf :: "nat \<Rightarrow> heap \<Rightarrow> stop + heap" where
  "free_buf b h =
     (if live_buf h b = None then Inl Undefined else Inr (h\<lparr>hp_bufs := (hp_bufs h)[b := None]\<rparr>))"

definition free_abd :: "nat \<Rightarrow> heap \<Rightarrow> stop + heap" where
  "free_abd p h =
     (if live_abd h p = None then Inl Undefined else Inr (h\<lparr>hp_abds := (hp_abds h)[p := None]\<rparr>))"

section \<open>The operations\<close>

definition abd_alloc_linear :: "u64 \<Rightarrow> heap \<Rightarrow> nat \<times> heap" where
  "abd_alloc_linear sz h =
     (case malloc_buf sz h of
        (b, h) \<Rightarrow> new_abd \<lparr>abd_flags = ABD_FLAG_OWNER OR ABD_FLAG_LINEAR, abd_size = sz,
                           abd_parent = None, abd_buf = (b, 0)\<rparr> h)"

definition abd_get_offset_size :: "nat \<Rightarrow> u64 \<Rightarrow> u64 \<Rightarrow> heap \<Rightarrow> stop + nat \<times> heap" where
  "abd_get_offset_size sabd off sz h =
     (case live_abd h sabd of
        None \<Rightarrow> Inl Undefined
      | Some s \<Rightarrow> Inr (new_abd \<lparr>abd_flags = 0, abd_size = sz, abd_parent = Some sabd,
                              abd_buf = (fst (abd_buf s), snd (abd_buf s) + unat off)\<rparr> h))"

text \<open>\<open>free(abd->abd_buf)\<close> is defined only for the address \<open>malloc\<close> returned.\<close>

definition abd_free :: "nat \<Rightarrow> heap \<Rightarrow> stop + heap" where
  "abd_free abd h =
     (case live_abd h abd of
        None \<Rightarrow> Inl Undefined
      | Some a \<Rightarrow>
          andthen (if abd_flags a AND ABD_FLAG_OWNER \<noteq> 0
                   then (if snd (abd_buf a) = 0 then free_buf (fst (abd_buf a)) h else Inl Undefined)
                   else Inr h)
            (free_abd abd))"

text \<open>A write of \<open>bs\<close> through \<open>abd->abd_buf\<close>, as \<open>pread64\<close> does it.\<close>

definition abd_write :: "nat \<Rightarrow> bytes \<Rightarrow> heap \<Rightarrow> stop + heap" where
  "abd_write abd bs h =
     (case live_abd h abd of
        None \<Rightarrow> Inl Undefined
      | Some a \<Rightarrow>
          (case live_buf h (fst (abd_buf a)) of
             None \<Rightarrow> Inl Undefined
           | Some m \<Rightarrow>
               (case st m (snd (abd_buf a)) (map Some bs) of
                  None \<Rightarrow> Inl Undefined
                | Some m' \<Rightarrow> Inr (h\<lparr>hp_bufs := (hp_bufs h)[fst (abd_buf a) := Some m']\<rparr>))))"

section \<open>What the operations do to the heap\<close>

lemma live_abd_append: "p < length (hp_abds h) \<Longrightarrow>
    live_abd (h\<lparr>hp_abds := hp_abds h @ xs\<rparr>) p = live_abd h p"
  by (simp add: live_abd_def nth_append)

lemma abd_alloc_linear_eq:
  "abd_alloc_linear sz h = (length (hp_abds h),
     \<lparr>hp_bufs = hp_bufs h @ [Some (replicate (unat sz) None)],
      hp_abds = hp_abds h @ [Some \<lparr>abd_flags = 3, abd_size = sz, abd_parent = None,
                                   abd_buf = (length (hp_bufs h), 0)\<rparr>]\<rparr>)"
proof -

  show ?thesis
    by (simp add: abd_alloc_linear_def malloc_buf_def new_abd_def ABD_FLAG_OWNER_def ABD_FLAG_LINEAR_def)
qed

end
