(* ===== verification/Raidz.thy ===== *)
theory Raidz
  imports Abd
begin

text \<open>
  The RAID-Z address map of \<open>extractor/zio.cpp\<close>: \<open>vdev_raidz_map_alloc\<close> splits a request
  into one column per child device and gives each column its buffer, \<open>vdev_raidz_free\<close>
  gives the buffers back. All sizes are \<open>uint64_t\<close> and wrap; a shift by 64 or more, a
  division by zero and an access to \<open>rm_col\<close> past its \<open>rm_scols\<close> elements are
  \<open>Undefined\<close>.
\<close>

section \<open>State\<close>

record raidz_col =
  rc_devidx :: u64
  rc_offset :: u64
  rc_size :: u64
  rc_abd :: "nat option"
  rc_gdata :: "nat option"
  rc_error :: int
  rc_tried :: u8
  rc_skipped :: u8

record raidz_map =
  rm_cols :: u64
  rm_scols :: u64
  rm_bigcols :: u64
  rm_asize :: u64
  rm_missingdata :: u64
  rm_missingparity :: u64
  rm_firstdatacol :: u64
  rm_nskip :: u64
  rm_skipstart :: u64
  rm_abd_copy :: "nat option"
  rm_reports :: u64
  rm_freed :: u8
  rm_ecksuminjected :: u8
  rm_col :: "raidz_col list"

record zio_t =
  io_offset :: u64
  io_size :: u64
  io_abd :: nat
  io_vsd :: "nat option"

definition roundup :: "u64 \<Rightarrow> u64 \<Rightarrow> u64" where
  "roundup x y = (x + (y - 1)) div y * y"

definition u64_min :: "u64 \<Rightarrow> u64 \<Rightarrow> u64" where
  "u64_min x y = (if x < y then x else y)"

section \<open>The columns\<close>

text \<open>The body of the loop over the columns, without the sum in \<open>asize\<close>.\<close>

definition raidz_init_col ::
    "u64 \<Rightarrow> u64 \<Rightarrow> u64 \<Rightarrow> u64 \<Rightarrow> u64 \<Rightarrow> u64 \<Rightarrow> u64 \<Rightarrow> u64 \<Rightarrow> raidz_col" where
  "raidz_init_col f ob q bc acols dcols ashift c =
     (let col = f + c; coff = ob;
          (col, coff) = (if col \<ge> dcols then (col - dcols, coff + push_bit (unat ashift) 1)
                         else (col, coff))
      in \<lparr>rc_devidx = col, rc_offset = coff,
          rc_size = (if c \<ge> acols then 0
                     else if c < bc then push_bit (unat ashift) (q + 1)
                     else push_bit (unat ashift) q),
          rc_abd = None, rc_gdata = None, rc_error = 0, rc_tried = 0, rc_skipped = 0\<rparr>)"

fun raidz_init_cols ::
    "(nat \<Rightarrow> raidz_col) \<Rightarrow> nat \<Rightarrow> nat \<Rightarrow> u64 \<Rightarrow> raidz_col list \<times> u64" where
  "raidz_init_cols body c 0 asize = ([], asize)"
| "raidz_init_cols body c (Suc n) asize =
     (let col = body c; (cols, asize) = raidz_init_cols body (c + 1) n (asize + rc_size col)
      in (col # cols, asize))"

section \<open>The buffers of the columns\<close>

definition set_col :: "raidz_col list \<Rightarrow> nat \<Rightarrow> (raidz_col \<Rightarrow> raidz_col) \<Rightarrow> raidz_col list" where
  "set_col cols c f = cols[c := f (cols ! c)]"

text \<open>\<open>for (; c < last; c++) rm_col[c].rc_abd = abd_alloc_linear(rm_col[c].rc_size, B_FALSE)\<close>,
  \<open>n\<close> rounds from \<open>c\<close> on.\<close>

fun raidz_alloc_parity :: "nat \<Rightarrow> nat \<Rightarrow> raidz_col list \<Rightarrow> heap \<Rightarrow> stop + raidz_col list \<times> heap" where
  "raidz_alloc_parity 0 c cols h = Inr (cols, h)"
| "raidz_alloc_parity (Suc n) c cols h =
     (if c < length cols then
        (case abd_alloc_linear (rc_size (cols ! c)) h of
           (p, h) \<Rightarrow> raidz_alloc_parity n (c + 1) (set_col cols c (rc_abd_update (\<lambda>_. Some p))) h)
      else Inl Undefined)"

text \<open>The data columns share the buffer of the request, one after the other from \<open>off\<close> on.\<close>

fun raidz_slice_data ::
    "nat \<Rightarrow> nat \<Rightarrow> u64 \<Rightarrow> nat \<Rightarrow> raidz_col list \<Rightarrow> heap \<Rightarrow> stop + raidz_col list \<times> heap" where
  "raidz_slice_data 0 c off sabd cols h = Inr (cols, h)"
| "raidz_slice_data (Suc n) c off sabd cols h =
     (if c < length cols then
        andthen (abd_get_offset_size sabd off (rc_size (cols ! c)) h)
          (\<lambda>(p, h). raidz_slice_data n (c + 1) (off + rc_size (cols ! c)) sabd
                      (set_col cols c (rc_abd_update (\<lambda>_. Some p))) h)
      else Inl Undefined)"

text \<open>The exchange of the first two columns, every other megabyte, for single parity.\<close>

definition raidz_swap :: "raidz_map \<Rightarrow> raidz_map" where
  "raidz_swap rm =
     (let cols = rm_col rm; devidx = rc_devidx (cols ! 0); ob = rc_offset (cols ! 0);
          c0 = (cols ! 0)\<lparr>rc_devidx := rc_devidx (cols ! 1), rc_offset := rc_offset (cols ! 1)\<rparr>;
          c1 = (cols ! 1)\<lparr>rc_devidx := devidx, rc_offset := ob\<rparr>
      in rm\<lparr>rm_col := cols[0 := c0, 1 := c1],
            rm_skipstart := (if rm_skipstart rm = 0 then 1 else rm_skipstart rm)\<rparr>)"

section \<open>\<open>vdev_raidz_map_alloc\<close> and \<open>vdev_raidz_free\<close>\<close>

definition vdev_raidz_map_alloc ::
    "zio_t \<Rightarrow> u64 \<Rightarrow> u64 \<Rightarrow> u64 \<Rightarrow> heap \<Rightarrow> stop + raidz_map \<times> heap" where
  "vdev_raidz_map_alloc zio ashift dcols nparity h =
     (if ashift \<ge> 64 \<or> dcols = 0 \<or> dcols - nparity = 0 \<or> nparity + 1 = 0 then Inl Undefined
      else
      let b = drop_bit (unat ashift) (io_offset zio);
          s = drop_bit (unat ashift) (io_size zio);
          f = b mod dcols;
          ob = push_bit (unat ashift) (b div dcols);
          q = s div (dcols - nparity);
          r = s - q * (dcols - nparity);
          bc = (if r = 0 then 0 else r + nparity);
          tot = s + nparity * (q + (if r = 0 then 0 else 1));
          (acols, scols) = (if q = 0 then (bc, u64_min dcols (roundup bc (nparity + 1)))
                            else (dcols, dcols))
      in andthen (ASSERT (acols \<le> scols)) (\<lambda>_.
      let (cols, asize) = raidz_init_cols
            (\<lambda>c. raidz_init_col f ob q bc acols dcols ashift (word_of_nat c)) 0 (unat scols) 0
      in andthen (ASSERT (asize = push_bit (unat ashift) tot)) (\<lambda>_.
      let unit = push_bit (unat ashift) (nparity + 1) in
      if unit = 0 then Inl Undefined else
      let rm_asize = roundup asize unit;
          rm_nskip = roundup tot (nparity + 1) - tot
      in andthen (ASSERT (rm_asize - asize = push_bit (unat ashift) rm_nskip)) (\<lambda>_.
         andthen (ASSERT (rm_nskip \<le> nparity)) (\<lambda>_.
         andthen (raidz_alloc_parity (unat nparity) 0 cols h) (\<lambda>(cols, h).
         andthen (raidz_slice_data (max 1 (unat acols - unat nparity)) (unat nparity) 0 (io_abd zio)
                    cols h) (\<lambda>(cols, h).
      let rm = \<lparr>rm_cols = acols, rm_scols = scols, rm_bigcols = bc, rm_asize = rm_asize,
                rm_missingdata = 0, rm_missingparity = 0, rm_firstdatacol = nparity,
                rm_nskip = rm_nskip, rm_skipstart = bc, rm_abd_copy = None, rm_reports = 0,
                rm_freed = 0, rm_ecksuminjected = 0, rm_col = cols\<rparr>
      in andthen (ASSERT (acols \<ge> 2)) (\<lambda>_.
         if length cols < 2 then Inl Undefined else
         andthen (ASSERT (rc_size (cols ! 0) = rc_size (cols ! 1))) (\<lambda>_.
         Inr (if nparity = 1 \<and> io_offset zio AND push_bit 20 1 \<noteq> 0 then raidz_swap rm else rm,
              h))))))))))"

fun raidz_free_cols :: "raidz_col list \<Rightarrow> heap \<Rightarrow> stop + heap" where
  "raidz_free_cols [] h = Inr h"
| "raidz_free_cols (c # cs) h =
     (case rc_abd c of None \<Rightarrow> Inl Undefined
      | Some p \<Rightarrow> andthen (abd_free p h) (raidz_free_cols cs))"

definition vdev_raidz_free :: "raidz_map \<Rightarrow> heap \<Rightarrow> stop + heap" where
  "vdev_raidz_free rm h =
     (if length (rm_col rm) < unat (rm_cols rm) then Inl Undefined
      else raidz_free_cols (take (unat (rm_cols rm)) (rm_col rm)) h)"

end
