(* ===== verification/Raidz_Spec.thy ===== *)
theory Raidz_Spec
  imports Raidz
begin

text \<open>
  The address map over natural numbers, without wrap-around, and the arithmetic that makes
  it right: the column lengths add up to the data and parity sectors of the request, the
  columns lie on distinct devices, and together they occupy one run of consecutive sectors
  of the RAID-Z device. \<open>O\<close> and \<open>Z\<close> are the request's offset and size in bytes.
\<close>

section \<open>The specification\<close>

definition rz_b :: "nat \<Rightarrow> nat \<Rightarrow> nat" where "rz_b A ofs = ofs div 2 ^ A"
definition rz_q :: "nat \<Rightarrow> nat \<Rightarrow> nat \<Rightarrow> nat" where "rz_q D P s = s div (D - P)"
definition rz_r :: "nat \<Rightarrow> nat \<Rightarrow> nat \<Rightarrow> nat" where "rz_r D P s = s mod (D - P)"

definition rz_bc :: "nat \<Rightarrow> nat \<Rightarrow> nat \<Rightarrow> nat" where
  "rz_bc D P s = (if rz_r D P s = 0 then 0 else rz_r D P s + P)"

definition rz_tot :: "nat \<Rightarrow> nat \<Rightarrow> nat \<Rightarrow> nat" where
  "rz_tot D P s = s + P * (rz_q D P s + (if rz_r D P s = 0 then 0 else 1))"

definition nat_roundup :: "nat \<Rightarrow> nat \<Rightarrow> nat" where
  "nat_roundup x y = (x + (y - 1)) div y * y"

definition rz_acols :: "nat \<Rightarrow> nat \<Rightarrow> nat \<Rightarrow> nat" where
  "rz_acols D P s = (if rz_q D P s = 0 then rz_bc D P s else D)"

definition rz_scols :: "nat \<Rightarrow> nat \<Rightarrow> nat \<Rightarrow> nat" where
  "rz_scols D P s = (if rz_q D P s = 0 then min D (nat_roundup (rz_bc D P s) (P + 1)) else D)"

text \<open>The sectors of column \<open>c\<close>: how many, and the number of the first one on the RAID-Z
  device, where sector \<open>n\<close> is sector \<open>n div D\<close> of child \<open>n mod D\<close>.\<close>

definition rz_len :: "nat \<Rightarrow> nat \<Rightarrow> nat \<Rightarrow> nat \<Rightarrow> nat" where
  "rz_len D P s c =
     (if c \<ge> rz_acols D P s then 0 else if c < rz_bc D P s then rz_q D P s + 1 else rz_q D P s)"

definition rz_col_sectors :: "nat \<Rightarrow> nat \<Rightarrow> nat \<Rightarrow> nat \<Rightarrow> nat \<Rightarrow> nat set" where
  "rz_col_sectors D P s b c = (\<lambda>k. b + c + k * D) ` {..<rz_len D P s c}"

section \<open>Rounding up\<close>

lemma nat_roundup_bounds:
  assumes "0 < y"
  shows "x \<le> nat_roundup x y" and "nat_roundup x y < x + y"
proof -
  have "(x + (y - 1)) mod y \<le> y - 1" using assms by (simp add: Suc_pred' less_Suc_eq_le[symmetric])
  moreover have "nat_roundup x y + (x + (y - 1)) mod y = x + (y - 1)"
    by (simp add: nat_roundup_def)
  ultimately show "x \<le> nat_roundup x y" "nat_roundup x y < x + y" using assms by linarith+
qed

lemma nat_roundup_scale: "0 < k \<Longrightarrow> 0 < y \<Longrightarrow> nat_roundup (x * k) (y * k) = nat_roundup x y * k"
proof -
  assume k: "0 < k" "0 < y"
  have "x * k + (y * k - 1) = (x + (y - 1)) * k + (k - 1)"
    using k by (cases y) (auto simp: algebra_simps)
  then have "(x * k + (y * k - 1)) div (y * k) = (((x + (y - 1)) * k + (k - 1)) div k) div y"
    by (simp add: div_mult2_eq mult.commute)
  also have "((x + (y - 1)) * k + (k - 1)) div k = x + (y - 1)"
    using div_mult_self1[of k "k - 1" "x + (y - 1)"] k by (simp add: add.commute)
  finally show ?thesis by (simp add: nat_roundup_def mult_ac)
qed

section \<open>Arithmetic of the columns\<close>

lemma rz_s: "s = rz_q D P s * (D - P) + rz_r D P s"
  by (simp only: rz_q_def rz_r_def div_mult_mod_eq)

lemma rz_r_less: "P < D \<Longrightarrow> rz_r D P s < D - P"
  by (simp add: rz_r_def)

lemma rz_bc_less: "P < D \<Longrightarrow> rz_bc D P s < D"
  using rz_r_less[of P D s] by (auto simp: rz_bc_def)

lemma rz_acols_bounds:
  assumes "1 \<le> P" and "P < D" and "0 < s"
  shows "P < rz_acols D P s" and "rz_acols D P s \<le> rz_scols D P s" and "rz_scols D P s \<le> D"
proof -
  have "0 < rz_bc D P s - P" if "rz_q D P s = 0"
    using rz_s[of s D P] that assms(3) by (simp add: rz_bc_def)
  then show "P < rz_acols D P s" using assms(2) by (auto simp: rz_acols_def)
  show "rz_acols D P s \<le> rz_scols D P s"
    using rz_bc_less[OF assms(2), of s] nat_roundup_bounds(1)[of "P + 1" "rz_bc D P s"]
    by (auto simp: rz_acols_def rz_scols_def)
  show "rz_scols D P s \<le> D" by (simp add: rz_scols_def)
qed

lemma rz_two_cols:
  assumes "1 \<le> P" and "P < D" and "0 < s"
  shows "2 \<le> rz_acols D P s" and "rz_len D P s 0 = rz_len D P s 1"
proof -
  show "2 \<le> rz_acols D P s" using rz_acols_bounds(1)[OF assms] assms(1) by linarith
  moreover have "rz_bc D P s = 0 \<or> 2 \<le> rz_bc D P s" using assms(1) by (auto simp: rz_bc_def)
  ultimately show "rz_len D P s 0 = rz_len D P s 1" by (auto simp: rz_len_def)
qed

lemma sum_two_steps:
  fixes a n :: nat
  shows "a \<le> n \<Longrightarrow> (\<Sum>c<n. if c < a then x + 1 else x) = n * x + a"
proof (induction n)
  case (Suc n)
  show ?case
  proof (cases "a = Suc n")
    case True
    have "(\<Sum>c<n. if c < a then x + 1 else x) = (\<Sum>c<n. x + 1)"
      using True by (intro sum.cong) auto
    then show ?thesis using True by simp
  next
    case False
    then show ?thesis using Suc by simp
  qed
qed simp

lemma rz_len_sum_acols:
  assumes "1 \<le> P" and "P < D" and "0 < s"
  shows "(\<Sum>c<rz_acols D P s. rz_len D P s c) = rz_tot D P s"
proof -
  let ?q = "rz_q D P s" and ?r = "rz_r D P s" and ?bc = "rz_bc D P s" and ?a = "rz_acols D P s"
  have le: "?bc \<le> ?a" using rz_bc_less[OF assms(2), of s] by (auto simp: rz_acols_def)
  have "(\<Sum>c<?a. rz_len D P s c) = (\<Sum>c<?a. if c < ?bc then ?q + 1 else ?q)"
    by (rule sum.cong) (auto simp: rz_len_def)
  also have "\<dots> = ?a * ?q + ?bc" by (rule sum_two_steps[OF le])
  also have "\<dots> = rz_tot D P s"
  proof (cases "?q = 0")
    case True
    then show ?thesis using rz_s[of s D P] assms(3) by (auto simp: rz_tot_def rz_bc_def)
  next
    case False
    have "D * ?q = ?q * (D - P) + P * ?q"
      using assms(2) by (simp add: algebra_simps)
    then show ?thesis using False rz_s[of s D P]
      by (auto simp: rz_tot_def rz_bc_def rz_acols_def algebra_simps)
  qed
  finally show ?thesis .
qed

lemma rz_len_sum:
  assumes "1 \<le> P" and "P < D" and "0 < s"
  shows "(\<Sum>c<rz_scols D P s. rz_len D P s c) = rz_tot D P s"
proof -
  have "(\<Sum>c<rz_scols D P s. rz_len D P s c) = (\<Sum>c<rz_acols D P s. rz_len D P s c)"
    using rz_acols_bounds(2)[OF assms] by (intro sum.mono_neutral_right) (auto simp: rz_len_def)
  then show ?thesis using rz_len_sum_acols[OF assms] by simp
qed

text \<open>The data columns hold the request, the parity columns as many sectors as the longest.\<close>

lemma rz_len_data_sum:
  assumes "1 \<le> P" and "P < D" and "0 < s"
  shows "(\<Sum>c = P..<rz_acols D P s. rz_len D P s c) = s"
proof -
  have "rz_len D P s c = rz_q D P s + (if rz_r D P s = 0 then 0 else 1)" if "c < P" for c
    using that rz_acols_bounds(1)[OF assms] by (auto simp: rz_len_def rz_bc_def)
  then have "(\<Sum>c<P. rz_len D P s c) = P * (rz_q D P s + (if rz_r D P s = 0 then 0 else 1))"
    by simp
  moreover have "(\<Sum>c<rz_acols D P s. rz_len D P s c)
      = (\<Sum>c<P. rz_len D P s c) + (\<Sum>c = P..<rz_acols D P s. rz_len D P s c)"
    using rz_acols_bounds(1)[OF assms] by (simp add: lessThan_atLeast0 sum.atLeastLessThan_concat)
  ultimately show ?thesis using rz_len_sum_acols[OF assms] by (simp add: rz_tot_def)
qed

section \<open>Where the columns lie\<close>

lemma rz_tot_eq:
  assumes "1 \<le> P" and "P < D" and "0 < s"
  shows "rz_tot D P s = D * rz_q D P s + rz_bc D P s"
proof -
  have "D * rz_q D P s = rz_q D P s * (D - P) + P * rz_q D P s"
    using assms(2) by (simp add: algebra_simps)
  then show ?thesis using rz_s[of s D P] by (auto simp: rz_tot_def rz_bc_def algebra_simps)
qed

lemma rz_len_less_iff:
  assumes "1 \<le> P" and "P < D" and "0 < s" and "c < D"
  shows "k < rz_len D P s c \<longleftrightarrow> c + k * D < rz_tot D P s"
proof -
  let ?q = "rz_q D P s" and ?bc = "rz_bc D P s"
  have t: "rz_tot D P s = ?q * D + ?bc" using rz_tot_eq[OF assms(1-3)] by simp
  have len: "rz_len D P s c = (if c < ?bc then ?q + 1 else ?q)"
    using assms(4) by (auto simp: rz_len_def rz_acols_def)
  have bc: "?bc < D" by (rule rz_bc_less[OF assms(2)])
  consider "k < ?q" | "k = ?q" | "?q < k" by linarith
  then show ?thesis
  proof cases
    case 1
    then have "k * D + D \<le> ?q * D" using mult_le_mono1[of "Suc k" ?q D] by simp
    then show ?thesis using 1 assms(4) t len by auto
  next
    case 2
    then show ?thesis using t len by auto
  next
    case 3
    then have "?q * D + D \<le> k * D" using mult_le_mono1[of "Suc ?q" k D] by simp
    then show ?thesis using 3 bc t len by auto
  qed
qed

lemma rz_columns_cover:
  assumes "1 \<le> P" and "P < D" and "0 < s"
  shows "(\<Union>c < rz_acols D P s. rz_col_sectors D P s b c) = {b ..< b + rz_tot D P s}"
proof (rule set_eqI, rule iffI)
  fix n assume "n \<in> (\<Union>c < rz_acols D P s. rz_col_sectors D P s b c)"
  then obtain c k where ck: "c < rz_acols D P s" "k < rz_len D P s c" "n = b + c + k * D"
    by (auto simp: rz_col_sectors_def)
  then have "c < D" using rz_acols_bounds(2,3)[OF assms] by linarith
  then show "n \<in> {b ..< b + rz_tot D P s}" using ck rz_len_less_iff[OF assms] by auto
next
  fix n assume n: "n \<in> {b ..< b + rz_tot D P s}"
  let ?c = "(n - b) mod D" and ?k = "(n - b) div D"
  have c: "?c < D" using assms(2) by simp
  have "?c + ?k * D < rz_tot D P s" using n by (simp add: mod_div_mult_eq less_diff_conv2)
  then have k: "?k < rz_len D P s ?c" using rz_len_less_iff[OF assms c] by blast
  then have "?c < rz_acols D P s" by (auto simp: rz_len_def split: if_splits)
  moreover have "n = b + ?c + ?k * D" using n by (simp add: mod_div_mult_eq add.assoc)
  then have "n \<in> rz_col_sectors D P s b ?c" using k unfolding rz_col_sectors_def by blast
  ultimately show "n \<in> (\<Union>c < rz_acols D P s. rz_col_sectors D P s b c)" by blast
qed

lemma rz_columns_disjoint:
  assumes "c < D" and "c' < D" and "c \<noteq> c'"
  shows "rz_col_sectors D P s b c \<inter> rz_col_sectors D P s b c' = {}"
proof -
  have "(c + k * D) mod D = c" if "c < D" for c k using that by simp
  then have "c + k * D \<noteq> c' + k' * D" for k k' using assms by metis
  then show ?thesis by (auto simp: rz_col_sectors_def add.assoc)
qed

lemma rz_devices_distinct:
  fixes b c c' D :: nat
  assumes "c < D" and "c' < D" and "(b + c) mod D = (b + c') mod D"
  shows "c = c'"
proof -
  have d: "\<And>x y :: nat. x < D \<Longrightarrow> y < D \<Longrightarrow> x \<le> y \<Longrightarrow> (b + x) mod D = (b + y) mod D \<Longrightarrow> x = y"
  proof -
    fix x y :: nat assume xy: "x < D" "y < D" "x \<le> y" "(b + x) mod D = (b + y) mod D"
    then have "D dvd (b + y) - (b + x)" by (metis mod_eq_dvd_iff_nat nat_add_left_cancel_le)
    then have "D dvd y - x" using xy(3) by simp
    then show "x = y" using xy by (metis dvd_imp_le diff_is_0_eq le_antisym less_imp_diff_less not_le zero_less_diff)
  qed
  show ?thesis using d[of c c'] d[of c' c] assms by (cases "c \<le> c'") auto
qed

end
