(* ===== verification/Raidz_Map.thy ===== *)
theory Raidz_Map
  imports Raidz_Spec
begin

text \<open>
  \<open>vdev_raidz_map_alloc\<close> implements the specification: for every request of at least one
  sector the 64-bit arithmetic does not wrap, no assertion fails, no access leaves the map,
  and the columns, their buffers and the heap are the ones \<open>Raidz_Spec\<close> describes.
\<close>

section \<open>Rounding up on words\<close>

lemma W_roundup:
  assumes "0 < y" and "x + y < 2 ^ 64"
  shows "roundup (W x) (W y) = W (nat_roundup x y)"
proof -
  have "W y - 1 = W (y - 1)" using assms(1) W_minus[of 1 y, unfolded W_1] by simp
  then have "W x + (W y - 1) = W (x + (y - 1))" by (simp only: W_add)
  then show ?thesis
    using assms by (simp add: roundup_def nat_roundup_def W_div W_mult)
qed

section \<open>The requests in question\<close>

text \<open>At most 255 children, sectors up to 64 KB, at least one sector, at most 4 GB.\<close>

definition raidz_request_ok :: "nat \<Rightarrow> nat \<Rightarrow> nat \<Rightarrow> nat \<Rightarrow> nat \<Rightarrow> bool" where
  "raidz_request_ok ofs sz A D P \<longleftrightarrow>
     A \<le> 16 \<and> 1 \<le> P \<and> P < D \<and> D < 256 \<and> 2 ^ A \<le> sz \<and> sz \<le> 2 ^ 34 \<and> ofs < 2 ^ 63"

lemma ok_sectors:
  assumes "raidz_request_ok ofs sz A D P"
  shows "0 < sz div 2 ^ A" and "sz div 2 ^ A * 2 ^ A \<le> 2 ^ 34"
proof -
  have "2 ^ A \<le> sz" using assms by (simp add: raidz_request_ok_def)
  then show "0 < sz div 2 ^ A" by (simp add: div_greater_zero_iff)
  have "sz div 2 ^ A * 2 ^ A \<le> sz" by (rule div_times_less_eq_dividend)
  then show "sz div 2 ^ A * 2 ^ A \<le> 2 ^ 34" using assms unfolding raidz_request_ok_def by linarith
qed

lemma pow_A_bound: "A \<le> 16 \<Longrightarrow> (2 :: nat) ^ A \<le> 65536"
  using power_increasing[of A 16 "2 :: nat"] by simp

lemma rz_q_le: "rz_q D P s \<le> s"
  by (simp add: rz_q_def)

lemma rz_tot_bound:
  assumes "raidz_request_ok ofs sz A D P"
  shows "rz_tot D P (sz div 2 ^ A) * 2 ^ A < 2 ^ 43" and "rz_tot D P (sz div 2 ^ A) < 2 ^ 43"
proof -
  let ?s = "sz div 2 ^ A" and ?e = "(2 :: nat) ^ A"
  have P: "P \<le> 255" using assms by (simp add: raidz_request_ok_def)
  have e: "?e \<le> 65536" using assms pow_A_bound by (simp add: raidz_request_ok_def)
  have "rz_q D P ?s + (if rz_r D P ?s = 0 then 0 else 1) \<le> ?s + 1" using rz_q_le[of D P ?s] by simp
  then have "rz_tot D P ?s \<le> ?s + P * (?s + 1)"
    unfolding rz_tot_def by (intro add_left_mono mult_le_mono2)
  also have "\<dots> \<le> ?s + 255 * (?s + 1)" using mult_le_mono1[OF P, of "?s + 1"] by simp
  finally have "rz_tot D P ?s * ?e \<le> (?s + 255 * (?s + 1)) * ?e" by (rule mult_le_mono1)
  also have "\<dots> = 256 * (?s * ?e) + 255 * ?e" by (simp add: algebra_simps)
  also have "\<dots> \<le> 256 * 2 ^ 34 + 255 * 65536" using ok_sectors(2)[OF assms] e by simp
  also have "\<dots> < 2 ^ 43" by simp
  finally show m: "rz_tot D P ?s * ?e < 2 ^ 43" .
  have "rz_tot D P ?s \<le> rz_tot D P ?s * ?e" by simp
  then show "rz_tot D P ?s < 2 ^ 43" using m by linarith
qed

section \<open>The columns\<close>

definition rz_column :: "nat \<Rightarrow> nat \<Rightarrow> nat \<Rightarrow> nat \<Rightarrow> nat \<Rightarrow> nat \<Rightarrow> raidz_col" where
  "rz_column A D P s b c =
     \<lparr>rc_devidx = W ((b + c) mod D), rc_offset = W ((b + c) div D * 2 ^ A),
      rc_size = W (rz_len D P s c * 2 ^ A),
      rc_abd = None, rc_gdata = None, rc_error = 0, rc_tried = 0, rc_skipped = 0\<rparr>"

lemma next_sector:
  fixes b c D :: nat
  assumes "c < D"
  shows "(b + c) mod D = (if D \<le> b mod D + c then b mod D + c - D else b mod D + c)"
    and "(b + c) div D = (if D \<le> b mod D + c then b div D + 1 else b div D)"
proof -
  have m: "b mod D < D" using assms by simp
  have "(b + c) mod D = (b mod D + c) mod D" by (simp add: mod_add_left_eq)
  moreover have "b mod D + c - D < D" using m assms by linarith
  ultimately show "(b + c) mod D = (if D \<le> b mod D + c then b mod D + c - D else b mod D + c)"
    using m assms by (simp add: le_mod_geq)
  have "(b + c) div D = b div D + (b mod D + c) div D"
    using assms div_add1_eq[of b c D] by simp
  moreover have "b mod D + c - D < D" using m assms by linarith
  ultimately show "(b + c) div D = (if D \<le> b mod D + c then b div D + 1 else b div D)"
    using m assms by (simp add: le_div_geq)
qed

lemma W_2A: "push_bit (unat (W A)) 1 = W (2 ^ A)" if "A < 64"
  using that W_push[of A 1] by (simp add: W_1[symmetric] unat_W)

lemma init_cols_map:
  "raidz_init_cols body c n a = (map body [c..<c + n], a + (\<Sum>i = c..<c + n. rc_size (body i)))"
proof (induction n arbitrary: c a)
  case (Suc n)
  have "[c..<c + Suc n] = c # [c + 1..<c + 1 + n]" by (simp add: upt_conv_Cons)
  moreover have "(\<Sum>i = c..<c + Suc n. rc_size (body i)) = rc_size (body c) + (\<Sum>i = c + 1..<c + 1 + n. rc_size (body i))"
    by (simp add: sum.atLeast_Suc_lessThan)
  ultimately show ?case using Suc[of "c + 1" "a + rc_size (body c)"] by (simp add: add.assoc Let_def)
qed simp

lemma W_sum: "(\<Sum>i\<in>I. W (f i)) = W (\<Sum>i\<in>I. f i)"
  by (simp add: W_def of_nat_sum)

lemma init_col_eq:
  assumes ok: "raidz_request_ok ofs sz A D P" and c: "c < rz_scols D P (sz div 2 ^ A)"
  shows "raidz_init_col (W (ofs div 2 ^ A mod D)) (W (ofs div 2 ^ A div D * 2 ^ A))
      (W (rz_q D P (sz div 2 ^ A))) (W (rz_bc D P (sz div 2 ^ A))) (W (rz_acols D P (sz div 2 ^ A)))
      (W D) (W A) (W c)
    = rz_column A D P (sz div 2 ^ A) (ofs div 2 ^ A) c"
proof -
  let ?s = "sz div 2 ^ A" and ?b = "ofs div 2 ^ A"
  have p: "A \<le> 16" "1 \<le> P" "P < D" "D < 256" using ok by (simp_all add: raidz_request_ok_def)
  have s: "0 < ?s" by (rule ok_sectors(1)[OF ok])
  have cD: "c < D" using c rz_acols_bounds(3)[OF p(2,3) s] by linarith
  have m: "?b mod D < D" using p by simp
  have a: "rz_acols D P ?s \<le> D" using rz_acols_bounds(2,3)[OF p(2,3) s] by linarith
  have sum: "?b mod D + c < 512" using p cD m by linarith
  have small: "D < 2 ^ 64" "c < 2 ^ 64" "A < 2 ^ 64" "A < 64" "?b mod D + c < 2 ^ 64"
    "rz_acols D P ?s < 2 ^ 64" "rz_bc D P ?s < 2 ^ 64"
    using p cD a sum rz_bc_less[OF p(3), of ?s] by auto
  have q: "rz_acols D P ?s \<le> c \<Longrightarrow> rz_len D P ?s c = 0"
    "\<not> rz_acols D P ?s \<le> c \<Longrightarrow> c < rz_bc D P ?s \<Longrightarrow> rz_len D P ?s c = rz_q D P ?s + 1"
    "\<not> rz_acols D P ?s \<le> c \<Longrightarrow> \<not> c < rz_bc D P ?s \<Longrightarrow> rz_len D P ?s c = rz_q D P ?s"
    by (simp_all add: rz_len_def)
  have plus1: "W (rz_q D P ?s) + 1 = W (rz_q D P ?s + 1)" using W_add[of _ 1] by (simp add: W_1[unfolded One_nat_def])
  have size: "(if W (rz_acols D P ?s) \<le> W c then 0
      else if W c < W (rz_bc D P ?s) then push_bit (unat (W A)) (W (rz_q D P ?s) + 1)
      else push_bit (unat (W A)) (W (rz_q D P ?s))) = W (rz_len D P ?s c * 2 ^ A)"
    using q by (simp only: W_le[OF small(6,2)] W_less[OF small(2,7)] plus1 W_push unat_W[OF small(3)])
      (simp add: W_0)
  show ?thesis
    unfolding raidz_init_col_def rz_column_def W_add W_le[OF small(1,5)] W_2A[OF small(4)] Let_def size
    using next_sector[OF cD, of ?b] W_minus[of D "?b mod D + c"] by (simp add: W_def algebra_simps)
qed

section \<open>The buffers\<close>

definition give_abd :: "nat \<Rightarrow> raidz_col \<Rightarrow> raidz_col" where
  "give_abd p col = col\<lparr>rc_abd := Some p\<rparr>"

text \<open>Columns \<open>c\<close> to \<open>c + n - 1\<close> get the headers numbered from \<open>p\<close> on.\<close>

definition give_abds :: "nat \<Rightarrow> nat \<Rightarrow> nat \<Rightarrow> raidz_col list \<Rightarrow> raidz_col list" where
  "give_abds p c n cols =
     take c cols @ map (\<lambda>i. give_abd (p + i) (cols ! (c + i))) [0..<n] @ drop (c + n) cols"

lemma map_upt_shift: "map f [0..<Suc n] = f 0 # map (\<lambda>i. f (Suc i)) [0..<n]"
  by (simp add: map_upt_Suc del: upt_Suc)

lemma give_abds_Suc:
  assumes "c < length cols"
  shows "give_abds (Suc p) (Suc c) n (set_col cols c (give_abd p)) = give_abds p c (Suc n) cols"
proof -
  have "take (Suc c) (set_col cols c (give_abd p)) = take c cols @ [give_abd p (cols ! c)]"
    using assms by (simp add: set_col_def take_Suc_conv_app_nth)
  moreover have "map (\<lambda>i. give_abd (Suc p + i) (set_col cols c (give_abd p) ! (Suc c + i))) [0..<n]
      = map (\<lambda>i. give_abd (p + Suc i) (cols ! (c + Suc i))) [0..<n]"
    by (simp add: set_col_def)
  ultimately show ?thesis
    using assms by (simp add: give_abds_def set_col_def map_upt_shift del: upt_Suc)
qed

lemma length_give_abds [simp]: "c + n \<le> length cols \<Longrightarrow> length (give_abds p c n cols) = length cols"
  by (simp add: give_abds_def)

lemma give_abds_nth:
  "c + n \<le> length cols \<Longrightarrow> i < length cols \<Longrightarrow> give_abds p c n cols ! i =
     (if c \<le> i \<and> i < c + n then give_abd (p + (i - c)) (cols ! i) else cols ! i)"
  by (auto simp: give_abds_def nth_append)

definition own_abd :: "u64 \<Rightarrow> nat \<Rightarrow> abd_t" where
  "own_abd sz b = \<lparr>abd_flags = 3, abd_size = sz, abd_parent = None, abd_buf = (b, 0)\<rparr>"

lemma alloc_parity_eq:
  "c + n \<le> length cols \<Longrightarrow> raidz_alloc_parity n c cols h =
     Inr (give_abds (length (hp_abds h)) c n cols,
          \<lparr>hp_bufs = hp_bufs h
             @ map (\<lambda>i. Some (replicate (unat (rc_size (cols ! (c + i)))) None)) [0..<n],
           hp_abds = hp_abds h
             @ map (\<lambda>i. Some (own_abd (rc_size (cols ! (c + i))) (length (hp_bufs h) + i))) [0..<n]\<rparr>)"
proof (induction n arbitrary: c cols h)
  case 0
  then show ?case by (simp add: give_abds_def)
next
  case (Suc n)
  let ?p = "length (hp_abds h)"
  let ?cols = "set_col cols c (give_abd ?p)"
  have c: "c < length cols" using Suc.prems by simp
  have g: "rc_abd_update (\<lambda>_. Some ?p) = give_abd ?p" by (rule ext) (simp add: give_abd_def)
  have l: "Suc c + n \<le> length ?cols" using Suc.prems by (simp add: set_col_def)
  have same: "?cols ! Suc (c + i) = cols ! Suc (c + i)" for i by (simp add: set_col_def)
  show ?case
    using c Suc.IH[OF l] give_abds_Suc[OF c, of ?p n] g
    by (simp add: abd_alloc_linear_eq same map_upt_shift own_abd_def del: upt_Suc)
qed

definition part_abd :: "abd_t \<Rightarrow> nat \<Rightarrow> u64 \<Rightarrow> u64 \<Rightarrow> abd_t" where
  "part_abd s sabd ofs sz = \<lparr>abd_flags = 0, abd_size = sz, abd_parent = Some sabd,
     abd_buf = (fst (abd_buf s), snd (abd_buf s) + unat ofs)\<rparr>"

lemma live_abd_new: "live_abd h sabd = Some s \<Longrightarrow> live_abd (h\<lparr>hp_abds := hp_abds h @ xs\<rparr>) sabd = Some s"
  by (auto simp: live_abd_def nth_append split: if_splits)

lemma slice_data_eq:
  "c + n \<le> length cols \<Longrightarrow> live_abd h sabd = Some s \<Longrightarrow> raidz_slice_data n c ofs sabd cols h =
     Inr (give_abds (length (hp_abds h)) c n cols,
          h\<lparr>hp_abds := hp_abds h
             @ map (\<lambda>i. Some (part_abd s sabd (ofs + (\<Sum>j<i. rc_size (cols ! (c + j))))
                         (rc_size (cols ! (c + i))))) [0..<n]\<rparr>)"
proof (induction n arbitrary: c ofs cols h)
  case 0
  then show ?case by (simp add: give_abds_def)
next
  case (Suc n)
  let ?p = "length (hp_abds h)"
  let ?cols = "set_col cols c (give_abd ?p)"
  let ?sz = "rc_size (cols ! c)"
  let ?h = "h\<lparr>hp_abds := hp_abds h @ [Some (part_abd s sabd ofs ?sz)]\<rparr>"
  have c: "c < length cols" using Suc.prems by simp
  have g: "rc_abd_update (\<lambda>_. Some ?p) = give_abd ?p" by (rule ext) (simp add: give_abd_def)
  have l: "Suc c + n \<le> length ?cols" using Suc.prems by (simp add: set_col_def)
  have same: "?cols ! Suc (c + i) = cols ! Suc (c + i)" for i by (simp add: set_col_def)
  have sum: "(\<Sum>j<Suc i. rc_size (cols ! (c + j))) = ?sz + (\<Sum>j<i. rc_size (cols ! Suc (c + j)))" for i
    by (subst sum.lessThan_Suc_shift) simp
  have a: "abd_get_offset_size sabd ofs ?sz h = Inr (?p, ?h)"
    using Suc.prems(2) by (simp add: abd_get_offset_size_def new_abd_def part_abd_def)
  have live: "live_abd ?h sabd = Some s" by (rule live_abd_new[OF Suc.prems(2)])
  show ?case
    using c a Suc.IH[OF l live, of "ofs + ?sz"] give_abds_Suc[OF c, of ?p n] g
    by (simp add: same sum map_upt_shift add.assoc del: upt_Suc sum.lessThan_Suc)
qed

section \<open>The whole map\<close>

definition rz_cols :: "nat \<Rightarrow> nat \<Rightarrow> nat \<Rightarrow> nat \<Rightarrow> nat \<Rightarrow> nat \<Rightarrow> raidz_col list" where
  "rz_cols p A D P s b =
     map (\<lambda>c. if c < rz_acols D P s then give_abd (p + c) (rz_column A D P s b c)
              else rz_column A D P s b c) [0..<rz_scols D P s]"

definition rz_map :: "nat \<Rightarrow> nat \<Rightarrow> nat \<Rightarrow> nat \<Rightarrow> nat \<Rightarrow> nat \<Rightarrow> raidz_map" where
  "rz_map p A D P s b =
     \<lparr>rm_cols = W (rz_acols D P s), rm_scols = W (rz_scols D P s), rm_bigcols = W (rz_bc D P s),
      rm_asize = W (nat_roundup (rz_tot D P s) (P + 1) * 2 ^ A), rm_missingdata = 0,
      rm_missingparity = 0, rm_firstdatacol = W P,
      rm_nskip = W (nat_roundup (rz_tot D P s) (P + 1) - rz_tot D P s),
      rm_skipstart = W (rz_bc D P s), rm_abd_copy = None, rm_reports = 0, rm_freed = 0,
      rm_ecksuminjected = 0, rm_col = rz_cols p A D P s b\<rparr>"

text \<open>Byte position of data column \<open>P + i\<close> in the request's buffer.\<close>

definition rz_pos :: "nat \<Rightarrow> nat \<Rightarrow> nat \<Rightarrow> nat \<Rightarrow> nat \<Rightarrow> nat" where
  "rz_pos A D P s i = (\<Sum>j<i. rz_len D P s (P + j) * 2 ^ A)"

definition rz_heap :: "nat \<Rightarrow> abd_t \<Rightarrow> nat \<Rightarrow> nat \<Rightarrow> nat \<Rightarrow> nat \<Rightarrow> heap \<Rightarrow> heap" where
  "rz_heap sabd sa A D P s h =
     \<lparr>hp_bufs = hp_bufs h @ map (\<lambda>i. Some (replicate (rz_len D P s i * 2 ^ A) None)) [0..<P],
      hp_abds = hp_abds h
        @ map (\<lambda>i. Some (own_abd (W (rz_len D P s i * 2 ^ A)) (length (hp_bufs h) + i))) [0..<P]
        @ map (\<lambda>i. Some (part_abd sa sabd (W (rz_pos A D P s i)) (W (rz_len D P s (P + i) * 2 ^ A))))
            [0..<rz_acols D P s - P]\<rparr>"

lemma rz_len_bound:
  assumes "raidz_request_ok ofs sz A D P"
  shows "rz_len D P (sz div 2 ^ A) c * 2 ^ A < 2 ^ 64"
proof -
  let ?s = "sz div 2 ^ A"
  have p: "A \<le> 16" using assms by (simp add: raidz_request_ok_def)
  have "rz_len D P ?s c \<le> ?s + 1" using rz_q_le[of D P ?s] by (simp add: rz_len_def)
  then have "rz_len D P ?s c * 2 ^ A \<le> (?s + 1) * 2 ^ A" by (rule mult_le_mono1)
  also have "\<dots> = ?s * 2 ^ A + 2 ^ A" by (simp add: algebra_simps)
  also have "\<dots> \<le> 2 ^ 34 + 65536" using ok_sectors(2)[OF assms] pow_A_bound[OF p] by simp
  finally show ?thesis by simp
qed

lemma init_cols_eq:
  assumes ok: "raidz_request_ok ofs sz A D P"
  shows "raidz_init_cols (\<lambda>c. raidz_init_col (W (ofs div 2 ^ A mod D))
      (W (ofs div 2 ^ A div D * 2 ^ A)) (W (rz_q D P (sz div 2 ^ A))) (W (rz_bc D P (sz div 2 ^ A)))
      (W (rz_acols D P (sz div 2 ^ A))) (W D) (W A) (word_of_nat c)) 0 (rz_scols D P (sz div 2 ^ A)) 0
    = (map (rz_column A D P (sz div 2 ^ A) (ofs div 2 ^ A)) [0..<rz_scols D P (sz div 2 ^ A)],
       W (rz_tot D P (sz div 2 ^ A) * 2 ^ A))"
proof -
  let ?s = "sz div 2 ^ A" and ?b = "ofs div 2 ^ A"
  have p: "1 \<le> P" "P < D" using ok by (simp_all add: raidz_request_ok_def)
  have e: "raidz_init_col (W (?b mod D)) (W (?b div D * 2 ^ A)) (W (rz_q D P ?s)) (W (rz_bc D P ?s))
      (W (rz_acols D P ?s)) (W D) (W A) (word_of_nat c) = rz_column A D P ?s ?b c"
    if "c < rz_scols D P ?s" for c
    using init_col_eq[OF ok that] by (simp only: W_def)
  have "(\<Sum>c = 0..<rz_scols D P ?s. W (rz_len D P ?s c * 2 ^ A)) = W (rz_tot D P ?s * 2 ^ A)"
    using rz_len_sum[OF p ok_sectors(1)[OF ok]]
    by (simp add: W_sum sum_distrib_right[symmetric] lessThan_atLeast0)
  then show ?thesis
    by (simp add: init_cols_map e) (simp add: rz_column_def)
qed

lemma rz_bufs_eq:
  assumes ok: "raidz_request_ok ofs sz A D P" and live: "live_abd h sabd = Some sa"
  shows "andthen (raidz_alloc_parity P 0
        (map (rz_column A D P (sz div 2 ^ A) b) [0..<rz_scols D P (sz div 2 ^ A)]) h)
      (\<lambda>(cols, h). raidz_slice_data (rz_acols D P (sz div 2 ^ A) - P) P 0 sabd cols h)
    = Inr (rz_cols (length (hp_abds h)) A D P (sz div 2 ^ A) b, rz_heap sabd sa A D P (sz div 2 ^ A) h)"
proof -
  let ?s = "sz div 2 ^ A" and ?p = "length (hp_abds h)"
  let ?ac = "rz_acols D P ?s" and ?sc = "rz_scols D P ?s"
  let ?c0 = "map (rz_column A D P ?s b) [0..<?sc]"
  have p: "1 \<le> P" "P < D" using ok by (simp_all add: raidz_request_ok_def)
  note n = rz_acols_bounds[OF p ok_sectors(1)[OF ok]]
  let ?c1 = "give_abds ?p 0 P ?c0"
  let ?h1 = "\<lparr>hp_bufs = hp_bufs h @ map (\<lambda>i. Some (replicate (unat (rc_size (?c0 ! i))) None)) [0..<P],
      hp_abds = hp_abds h @ map (\<lambda>i. Some (own_abd (rc_size (?c0 ! i)) (length (hp_bufs h) + i))) [0..<P]\<rparr>"
  have par: "raidz_alloc_parity P 0 ?c0 h = Inr (?c1, ?h1)"
    using alloc_parity_eq[of 0 P ?c0 h] n by simp
  have live1: "live_abd ?h1 sabd = Some sa"
    using live by (auto simp: live_abd_def nth_append split: if_splits)
  have len1: "P + (?ac - P) \<le> length ?c1" using n by simp
  have size1: "rc_size (?c1 ! i) = W (rz_len D P ?s i * 2 ^ A)" if "i < ?sc" for i
    using that n by (auto simp: give_abds_nth give_abd_def rz_column_def)
  have size0: "rc_size (?c0 ! i) = W (rz_len D P ?s i * 2 ^ A)" if "i < P" for i
    using that n by (simp add: rz_column_def)
  have pos: "(\<Sum>j<i. rc_size (?c1 ! (P + j))) = W (rz_pos A D P ?s i)" if "i < ?ac - P" for i
  proof -
    have "(\<Sum>j<i. rc_size (?c1 ! (P + j))) = (\<Sum>j<i. W (rz_len D P ?s (P + j) * 2 ^ A))"
      using that n by (intro sum.cong) (simp_all add: size1)
    then show ?thesis by (simp add: W_sum rz_pos_def)
  qed
  have parts: "map (\<lambda>i. Some (part_abd sa sabd (0 + (\<Sum>j<i. rc_size (?c1 ! (P + j)))) (rc_size (?c1 ! (P + i)))))
        [0..<?ac - P]
      = map (\<lambda>i. Some (part_abd sa sabd (W (rz_pos A D P ?s i)) (W (rz_len D P ?s (P + i) * 2 ^ A))))
        [0..<?ac - P]"
  proof (rule map_cong[OF refl])
    fix i assume "i \<in> set [0..<?ac - P]"
    then have "i < ?ac - P" "P + i < ?sc" using n by auto
    then show "Some (part_abd sa sabd (0 + (\<Sum>j<i. rc_size (?c1 ! (P + j)))) (rc_size (?c1 ! (P + i))))
      = Some (part_abd sa sabd (W (rz_pos A D P ?s i)) (W (rz_len D P ?s (P + i) * 2 ^ A)))"
      by (simp only: pos size1 add_0)
  qed
  have len2: "length (hp_abds ?h1) = ?p + P" by simp
  have slice: "raidz_slice_data (?ac - P) P 0 sabd ?c1 ?h1 =
     Inr (give_abds (?p + P) P (?ac - P) ?c1,
       ?h1\<lparr>hp_abds := hp_abds ?h1 @ map (\<lambda>i. Some (part_abd sa sabd (W (rz_pos A D P ?s i))
            (W (rz_len D P ?s (P + i) * 2 ^ A)))) [0..<?ac - P]\<rparr>)"
    using slice_data_eq[OF len1 live1, of 0] unfolding parts len2 .
  have "give_abds (?p + P) P (?ac - P) ?c1 = rz_cols ?p A D P ?s b"
    using n by (intro nth_equalityI) (auto simp: give_abds_nth rz_cols_def)
  moreover have "?h1\<lparr>hp_abds := hp_abds ?h1 @ map (\<lambda>i. Some (part_abd sa sabd (W (rz_pos A D P ?s i))
            (W (rz_len D P ?s (P + i) * 2 ^ A)))) [0..<?ac - P]\<rparr> = rz_heap sabd sa A D P ?s h"
    using rz_len_bound[OF ok] by (auto simp: rz_heap_def size0 unat_W)
  ultimately show ?thesis by (simp only: par slice andthen_simps prod.case)
qed

lemma map_alloc_eq:
  assumes ok: "raidz_request_ok ofs sz A D P"
    and zio: "io_offset zio = W ofs" "io_size zio = W sz"
    and live: "live_abd h (io_abd zio) = Some sa"
  shows "vdev_raidz_map_alloc zio (W A) (W D) (W P) h =
    (let rm = rz_map (length (hp_abds h)) A D P (sz div 2 ^ A) (ofs div 2 ^ A)
     in Inr (if W P = 1 \<and> io_offset zio AND push_bit 20 1 \<noteq> 0 then raidz_swap rm else rm,
             rz_heap (io_abd zio) sa A D P (sz div 2 ^ A) h))"
proof -
  let ?s = "sz div 2 ^ A" and ?b = "ofs div 2 ^ A"
  let ?q = "rz_q D P ?s" and ?r = "rz_r D P ?s" and ?bc = "rz_bc D P ?s" and ?tot = "rz_tot D P ?s"
  let ?ac = "rz_acols D P ?s" and ?sc = "rz_scols D P ?s" and ?nr = "nat_roundup ?tot (P + 1)"
  have p: "A \<le> 16" "1 \<le> P" "P < D" "D < 256" "sz \<le> 2 ^ 34" "ofs < 2 ^ 63"
    using ok by (simp_all add: raidz_request_ok_def)
  have s: "0 < ?s" by (rule ok_sectors(1)[OF ok])
  note n = rz_acols_bounds[OF p(2,3) s]
  have s32: "?s \<le> 2 ^ 34" using ok_sectors(2)[OF ok] by (metis One_nat_def Suc_leI le_trans mult.commute mult_le_mono2 nat_mult_1_right zero_less_numeral zero_less_power)
  have q32: "?q \<le> 2 ^ 34" using rz_q_le[of D P ?s] s32 by linarith
  have r: "?r < 256" using rz_r_less[OF p(3), of ?s] p by linarith
  have bc: "?bc < 256" using rz_bc_less[OF p(3), of ?s] p by linarith
  have ac: "?ac < 256" "?sc < 256" using n p by linarith+
  have e: "(2 :: nat) ^ A \<le> 65536" by (rule pow_A_bound[OF p(1)])
  note t = rz_tot_bound[OF ok]
  have nr: "?tot \<le> ?nr" "?nr < ?tot + (P + 1)" using nat_roundup_bounds[of "P + 1" ?tot] by simp_all
  have b: "?b < 2 ^ 63" using p(6) by (meson div_le_dividend le_less_trans)
  have uA: "unat (W A) = A" using p by (simp add: unat_W)
  have sub: "W D - W P = W (D - P)" "W P + 1 = W (P + 1)"
    using p W_add[of P 1] by (simp_all add: W_minus W_1[unfolded One_nat_def])
  have e1: "(W A \<ge> 64 \<or> W D = 0 \<or> W D - W P = 0 \<or> W P + 1 = 0) = False"
    using p uA by (simp add: sub W_eq_0 word_le_nat_alt)
  have e_b: "drop_bit (unat (W A)) (io_offset zio) = W ?b" "drop_bit (unat (W A)) (io_size zio) = W ?s"
    using p by (simp_all add: zio W_drop uA)
  have e_f: "W ?b mod W D = W (?b mod D)" using b p by (simp add: W_mod)
  have e_ob: "push_bit (unat (W A)) (W ?b div W D) = W (?b div D * 2 ^ A)"
    using b p by (simp add: W_div W_push uA)
  have e_q: "W ?s div (W D - W P) = W ?q" using s32 p by (simp add: sub W_div rz_q_def)
  have e_r: "W ?s - W ?q * (W D - W P) = W ?r"
  proof -
    have "?s - ?q * (D - P) = ?r" using rz_s[of ?s D P] by linarith
    moreover have "?q * (D - P) \<le> ?s" using rz_s[of ?s D P] by linarith
    ultimately show ?thesis using W_minus[of "?q * (D - P)" ?s] by (simp only: sub W_mult)
  qed
  have e_r0: "(W ?r = 0) = (?r = 0)" using r by (simp add: W_eq_0)
  have e_bc: "(if ?r = 0 then 0 else W ?r + W P) = W ?bc" by (simp add: rz_bc_def W_add W_0)
  have e_tot: "W ?s + W P * (W ?q + (if ?r = 0 then 0 else 1)) = W ?tot"
    using W_add[of ?q 1] W_add[of ?q 0]
    by (cases "?r = 0") (simp_all only: rz_tot_def W_add W_mult W_1 W_0 if_True if_False simp_thms)
  have e_q0: "(W ?q = 0) = (?q = 0)" using q32 by (simp add: W_eq_0)
  have e_ru: "roundup (W ?bc) (W P + 1) = W (nat_roundup ?bc (P + 1))"
    using bc p by (simp add: sub W_roundup)
  have e_min: "u64_min (W D) (W (nat_roundup ?bc (P + 1))) = W (min D (nat_roundup ?bc (P + 1)))"
    using nat_roundup_bounds(2)[of "P + 1" ?bc] bc p by (simp add: u64_min_def W_less min_def)
  have e_cols: "(if ?q = 0 then (W ?bc, W (min D (nat_roundup ?bc (P + 1)))) else (W D, W D)) = (W ?ac, W ?sc)"
    by (simp add: rz_acols_def rz_scols_def)
  have e_a1: "(W ?ac \<le> W ?sc) = True" using n ac by (simp add: W_le)
  have u_sc: "unat (W ?sc) = ?sc" "unat (W P) = P" "unat (W ?ac) = ?ac" using ac p by (simp_all add: unat_W)
  have e_a2: "push_bit (unat (W A)) (W ?tot) = W (?tot * 2 ^ A)" by (simp add: W_push uA)
  have e_unit: "push_bit (unat (W A)) (W P + 1) = W ((P + 1) * 2 ^ A)" by (simp only: sub W_push uA)
  have unit_b: "(P + 1) * 2 ^ A \<le> 256 * 65536" using p e by (intro mult_le_mono) auto
  have e_unit0: "(W ((P + 1) * 2 ^ A) = 0) = False" using unit_b by (subst W_eq_0) auto
  have e_asz: "roundup (W (?tot * 2 ^ A)) (W ((P + 1) * 2 ^ A)) = W (?nr * 2 ^ A)"
    using t(1) unit_b by (subst W_roundup) (simp_all add: nat_roundup_scale del: mult_Suc)
  have e_nsk: "roundup (W ?tot) (W P + 1) - W ?tot = W (?nr - ?tot)"
    using t(2) p nr by (simp add: sub W_roundup W_minus)
  have e_a3: "(W (?nr * 2 ^ A) - W (?tot * 2 ^ A) = push_bit (unat (W A)) (W (?nr - ?tot))) = True"
    using nr by (simp add: W_minus W_push uA diff_mult_distrib)
  have e_a4: "(W (?nr - ?tot) \<le> W P) = True" using nr p by (simp add: W_le)
  have e_n: "max 1 (?ac - P) = ?ac - P" using n by simp
  have e_2: "(W ?ac \<ge> 2) = True" using rz_two_cols(1)[OF p(2,3) s] u_sc by (simp add: word_le_nat_alt)
  let ?cols = "rz_cols (length (hp_abds h)) A D P ?s ?b"
  have e_len: "(length ?cols < 2) = False" using rz_two_cols(1)[OF p(2,3) s] n by (simp add: rz_cols_def)
  have e_eq: "(rc_size (?cols ! 0) = rc_size (?cols ! 1)) = True"
    using rz_two_cols[OF p(2,3) s] n by (simp add: rz_cols_def give_abd_def rz_column_def)
  obtain c1 h1 where par: "raidz_alloc_parity P 0 (map (rz_column A D P ?s ?b) [0..<?sc]) h = Inr (c1, h1)"
    and slice: "raidz_slice_data (?ac - P) P 0 (io_abd zio) c1 h1
      = Inr (?cols, rz_heap (io_abd zio) sa A D P ?s h)"
    using rz_bufs_eq[OF ok live, of ?b] by (auto simp: andthen_Inr)
  show ?thesis
    by (simp only: vdev_raidz_map_alloc_def Let_def e1 e_b e_f e_ob e_q e_r e_r0 e_bc e_tot e_q0 e_ru e_min
        e_cols prod.case e_a1 ASSERT_True andthen_simps u_sc init_cols_eq[OF ok] e_a2 e_unit e_unit0 e_asz
        e_nsk e_a3 e_a4 e_n par slice e_2 e_len e_eq if_False rz_map_def simp_thms)
qed

end
