(* ===== verification/Raidz_Place.thy ===== *)
theory Raidz_Place
  imports Raidz_Map
begin

text \<open>
  Where the columns of a map lie, read off the map itself: sector \<open>n\<close> of the RAID-Z device
  is sector \<open>n div D\<close> of child \<open>n mod D\<close>, so a column's device, offset and size name a set of
  sectors. The columns of a map made for a request occupy exactly the sectors of the
  request and its parity, each once, on distinct children.
\<close>

section \<open>One column\<close>

definition raidz_place :: "bool \<Rightarrow> nat \<Rightarrow> nat" where
  "raidz_place sw c = (if sw \<and> c < 2 then 1 - c else c)"

definition swap_if :: "bool \<Rightarrow> raidz_map \<Rightarrow> raidz_map" where
  "swap_if sw rm = (if sw then raidz_swap rm else rm)"

lemma raidz_place_less: "2 \<le> n \<Longrightarrow> raidz_place sw c < n \<longleftrightarrow> c < n"
  by (auto simp: raidz_place_def)

lemma raidz_place_place [simp]: "raidz_place sw (raidz_place sw c) = c"
  by (auto simp: raidz_place_def)

lemma raidz_place_inj: "raidz_place sw c = raidz_place sw c' \<Longrightarrow> c = c'"
  by (metis raidz_place_place)

lemma raidz_place_range: "2 \<le> n \<Longrightarrow> raidz_place sw ` {..<n} = {..<n}"
proof (intro equalityI subsetI)
  fix x assume "2 \<le> n" "x \<in> {..<n}"
  then have "raidz_place sw (raidz_place sw x) \<in> raidz_place sw ` {..<n}"
    by (intro imageI) (simp add: raidz_place_less)
  then show "x \<in> raidz_place sw ` {..<n}" by simp
qed (auto simp: raidz_place_less)

lemma next_offset_bound:
  assumes "raidz_request_ok ofs sz A D P" and "c < D"
  shows "(ofs div 2 ^ A + c) div D * 2 ^ A < 2 ^ 64"
proof -
  have p: "A \<le> 16" "D < 256" "ofs < 2 ^ 63" using assms(1) by (simp_all add: raidz_request_ok_def)
  have "(ofs div 2 ^ A + c) div D * 2 ^ A \<le> (ofs div 2 ^ A + c) * 2 ^ A" by (intro mult_le_mono1) simp
  also have "\<dots> = ofs div 2 ^ A * 2 ^ A + c * 2 ^ A" by (simp add: algebra_simps)
  also have "\<dots> \<le> ofs + 256 * 65536"
    using pow_A_bound[OF p(1)] assms(2) p(2) by (intro add_mono mult_le_mono div_times_less_eq_dividend) simp_all
  also have "\<dots> < 2 ^ 64" using p(3) by simp
  finally show ?thesis .
qed

lemma map_col_nth:
  fixes sw :: bool and p :: nat
  assumes ok: "raidz_request_ok ofs sz A D P" and c: "c < rz_acols D P (sz div 2 ^ A)"
  defines "col \<equiv> rm_col (swap_if sw (rz_map p A D P (sz div 2 ^ A) (ofs div 2 ^ A))) ! c"
  shows "rc_abd col = Some (p + c)" and "rc_size col = W (rz_len D P (sz div 2 ^ A) c * 2 ^ A)"
    and "unat (rc_devidx col) = (ofs div 2 ^ A + raidz_place sw c) mod D"
    and "unat (rc_offset col) = (ofs div 2 ^ A + raidz_place sw c) div D * 2 ^ A"
proof -
  let ?s = "sz div 2 ^ A" and ?b = "ofs div 2 ^ A"
  have pd: "1 \<le> P" "P < D" "D < 256" using ok by (simp_all add: raidz_request_ok_def)
  note n = rz_acols_bounds[OF pd(1,2) ok_sectors(1)[OF ok]] and two = rz_two_cols[OF pd(1,2) ok_sectors(1)[OF ok]]
  have F: "col = (give_abd (p + c) (rz_column A D P ?s ?b c))
       \<lparr>rc_devidx := W ((?b + raidz_place sw c) mod D),
        rc_offset := W ((?b + raidz_place sw c) div D * 2 ^ A)\<rparr>"
  proof -
    consider "c = 0" | "c = 1" | "2 \<le> c" by linarith
    then show ?thesis
      using c n two unfolding col_def
      by cases (simp_all add: swap_if_def Let_def rz_map_def raidz_swap_def rz_cols_def give_abd_def
          rz_column_def raidz_place_def nth_list_update)
  qed
  have pl: "raidz_place sw c < D" using c n two(1) by (auto simp: raidz_place_def)
  have "(?b + raidz_place sw c) mod D < D" using pd by simp
  then have dev: "(?b + raidz_place sw c) mod D < 2 ^ 64" using pd(3) by simp
  show "rc_abd col = Some (p + c)" "rc_size col = W (rz_len D P ?s c * 2 ^ A)"
    by (simp_all add: F give_abd_def rz_column_def)
  show "unat (rc_devidx col) = (?b + raidz_place sw c) mod D"
    using dev by (simp add: F unat_W)
  show "unat (rc_offset col) = (?b + raidz_place sw c) div D * 2 ^ A"
    using next_offset_bound[OF ok pl] by (simp add: F unat_W)
qed

section \<open>All columns\<close>

definition col_sectors :: "nat \<Rightarrow> nat \<Rightarrow> raidz_col \<Rightarrow> nat set" where
  "col_sectors A D c =
     (\<lambda>k. (unat (rc_offset c) div 2 ^ A + k) * D + unat (rc_devidx c)) ` {..<unat (rc_size c) div 2 ^ A}"

definition used_cols :: "raidz_map \<Rightarrow> raidz_col list" where
  "used_cols rm = take (unat (rm_cols rm)) (rm_col rm)"

lemma place_len:
  assumes "1 \<le> P" and "P < D" and "0 < s"
  shows "rz_len D P s (raidz_place sw c) = rz_len D P s c"
  using rz_two_cols(2)[OF assms] by (auto simp: raidz_place_def less_2_cases_iff)

lemma map_col_sectors:
  assumes ok: "raidz_request_ok ofs sz A D P" and c: "c < rz_acols D P (sz div 2 ^ A)"
  shows "col_sectors A D (rm_col (swap_if sw (rz_map p A D P (sz div 2 ^ A) (ofs div 2 ^ A))) ! c)
    = rz_col_sectors D P (sz div 2 ^ A) (ofs div 2 ^ A) (raidz_place sw c)"
proof -
  let ?b = "ofs div 2 ^ A + raidz_place sw c"
  have pd: "1 \<le> P" "P < D" using ok by (simp_all add: raidz_request_ok_def)
  have "(?b div D + k) * D + ?b mod D = ?b + k * D" for k
    using div_mult_mod_eq[of ?b D] by (simp add: algebra_simps)
  then show ?thesis
    using place_len[OF pd ok_sectors(1)[OF ok], of sw c] rz_len_bound[OF ok, of c]
    by (simp add: col_sectors_def rz_col_sectors_def map_col_nth[OF ok c] unat_W)
qed

lemma swap_if_used:
  fixes sw :: bool and p :: nat
  assumes ok: "raidz_request_ok ofs sz A D P"
  defines "rm \<equiv> swap_if sw (rz_map p A D P (sz div 2 ^ A) (ofs div 2 ^ A))"
  shows "unat (rm_cols rm) = rz_acols D P (sz div 2 ^ A)"
    and "used_cols rm = map ((!) (rm_col rm)) [0..<rz_acols D P (sz div 2 ^ A)]"
    and "rm_firstdatacol rm = W P"
proof -
  let ?s = "sz div 2 ^ A"
  have pd: "1 \<le> P" "P < D" "D < 256" using ok by (simp_all add: raidz_request_ok_def)
  note n = rz_acols_bounds[OF pd(1,2) ok_sectors(1)[OF ok]]
  have "rm_cols rm = W (rz_acols D P ?s)" "length (rm_col rm) = rz_scols D P ?s"
    by (simp_all add: rm_def swap_if_def raidz_swap_def rz_map_def rz_cols_def Let_def)
  moreover show "rm_firstdatacol rm = W P"
    by (simp add: rm_def swap_if_def raidz_swap_def rz_map_def Let_def)
  ultimately show "unat (rm_cols rm) = rz_acols D P ?s"
    "used_cols rm = map ((!) (rm_col rm)) [0..<rz_acols D P ?s]"
    using n pd(3) by (auto simp: unat_W used_cols_def intro!: nth_equalityI)
qed

lemma map_cols_cover:
  fixes sw :: bool and p :: nat
  assumes ok: "raidz_request_ok ofs sz A D P"
  defines "rm \<equiv> swap_if sw (rz_map p A D P (sz div 2 ^ A) (ofs div 2 ^ A))"
  shows "(\<Union>c \<in> set (used_cols rm). col_sectors A D c)
    = {ofs div 2 ^ A ..< ofs div 2 ^ A + rz_tot D P (sz div 2 ^ A)}"
proof -
  let ?s = "sz div 2 ^ A" and ?b = "ofs div 2 ^ A"
  have pd: "1 \<le> P" "P < D" using ok by (simp_all add: raidz_request_ok_def)
  note s = ok_sectors(1)[OF ok]
  have "(\<Union>c \<in> set (used_cols rm). col_sectors A D c)
      = (\<Union>c < rz_acols D P ?s. rz_col_sectors D P ?s ?b (raidz_place sw c))"
    unfolding rm_def swap_if_used(2)[OF ok] by (auto simp: map_col_sectors[OF ok])
  also have "\<dots> = \<Union> (rz_col_sectors D P ?s ?b ` raidz_place sw ` {..<rz_acols D P ?s})"
    by (simp add: image_image)
  also have "\<dots> = (\<Union>c < rz_acols D P ?s. rz_col_sectors D P ?s ?b c)"
    by (simp add: raidz_place_range[OF rz_two_cols(1)[OF pd s]])
  finally show ?thesis using rz_columns_cover[OF pd s] by simp
qed

lemma map_cols_apart:
  fixes sw :: bool and p :: nat
  assumes ok: "raidz_request_ok ofs sz A D P"
  defines "rm \<equiv> swap_if sw (rz_map p A D P (sz div 2 ^ A) (ofs div 2 ^ A))"
  shows "distinct (map rc_devidx (used_cols rm))" and "\<forall>c \<in> set (used_cols rm). unat (rc_devidx c) < D"
proof -
  let ?s = "sz div 2 ^ A" and ?b = "ofs div 2 ^ A" and ?n = "rz_acols D P (sz div 2 ^ A)"
  have pd: "1 \<le> P" "P < D" using ok by (simp_all add: raidz_request_ok_def)
  note s = ok_sectors(1)[OF ok] and two = rz_two_cols(1)[OF pd ok_sectors(1)[OF ok]]
  note nD = order_less_le_trans[OF _ order_trans[OF rz_acols_bounds(2,3)[OF pd s]]]
  show "distinct (map rc_devidx (used_cols rm))"
  proof (unfold rm_def swap_if_used(2)[OF ok] distinct_map map_map, intro conjI inj_onI)
    fix c c' assume cc: "c \<in> set [0..<?n]" "c' \<in> set [0..<?n]"
      "(rc_devidx \<circ> (!) (rm_col (swap_if sw (rz_map p A D P ?s ?b)))) c
        = (rc_devidx \<circ> (!) (rm_col (swap_if sw (rz_map p A D P ?s ?b)))) c'"
    then have "(?b + raidz_place sw c) mod D = (?b + raidz_place sw c') mod D"
      using map_col_nth(3)[OF ok, of c sw p] map_col_nth(3)[OF ok, of c' sw p] by simp
    moreover have "raidz_place sw c < D" "raidz_place sw c' < D"
      using cc nD raidz_place_less[OF two] by auto
    ultimately show "c = c'" using rz_devices_distinct raidz_place_inj by blast
  qed simp
  show "\<forall>c \<in> set (used_cols rm). unat (rc_devidx c) < D"
    unfolding rm_def swap_if_used(2)[OF ok] using pd by (auto simp: map_col_nth(3)[OF ok])
qed

end
