(* ===== verification/Device.thy ===== *)
theory Device
  imports Raidz_Place
begin

text \<open>
  Reading through the map: \<open>Raidz1Device::read_at\<close> and \<open>read_physical\<close> of
  \<open>extractor/zio.cpp\<close>. The disks are outside of the program: \<open>disk d ofs n\<close> is what
  \<open>pread64\<close> delivers from child \<open>d\<close>, at most \<open>n\<close> bytes and none when the file cannot be
  opened or read. \<open>nvdevs\<close> is the number of files the device was made with.
\<close>

section \<open>The operations\<close>

definition NPARITY :: u64 where "NPARITY = 1"
definition DCOLS :: u64 where "DCOLS = 3"
definition ASHIFT :: u64 where "ASHIFT = 12"

type_synonym disks = "nat \<Rightarrow> nat \<Rightarrow> nat \<Rightarrow> bytes"

text \<open>
  \<open>read_at\<close> and the other functions declared \<open>int\<close> have no \<open>return\<close>. For the C++ standard a
  call that reaches the end of such a function is undefined; with the makefile's \<open>gcc -g\<close>
  (no optimisation) it comes back with an unspecified value, which no caller here looks
  at. \<open>std\<close> chooses between the two: under the standard the end of the function is the
  outcome \<open>Undefined\<close>, else it is the effect of the function.
\<close>

definition fall_off :: "bool \<Rightarrow> 'a \<Rightarrow> stop + 'a" where
  "fall_off std x = (if std then Inl Undefined else Inr x)"

lemma fall_off_simps [simp]: "fall_off True x = Inl Undefined" "fall_off False = Inr"
  by (simp_all add: fall_off_def fun_eq_iff)

definition read_at :: "bool \<Rightarrow> nat \<Rightarrow> disks \<Rightarrow> nat \<Rightarrow> u64 \<Rightarrow> u64 \<Rightarrow> u64 \<Rightarrow> heap \<Rightarrow> stop + heap" where
  "read_at std nvdevs disk c vdev ofs psize h =
     (if nvdevs \<le> unat vdev then Inl Undefined
      else andthen (abd_write c (disk (unat vdev) (unat ofs) (unat psize)) h) (fall_off std))"

fun read_cols :: "bool \<Rightarrow> nat \<Rightarrow> disks \<Rightarrow> raidz_col list \<Rightarrow> heap \<Rightarrow> stop + heap" where
  "read_cols std nvdevs disk [] h = Inr h"
| "read_cols std nvdevs disk (c # cs) h =
     (case rc_abd c of None \<Rightarrow> Inl Undefined
      | Some p \<Rightarrow> andthen (read_at std nvdevs disk p (rc_devidx c) (rc_offset c) (rc_size c) h)
                    (read_cols std nvdevs disk cs))"

definition read_physical :: "bool \<Rightarrow> nat \<Rightarrow> disks \<Rightarrow> u64 \<Rightarrow> u64 \<Rightarrow> heap \<Rightarrow> stop + nat \<times> heap" where
  "read_physical std nvdevs disk ofs psize h =
     (case abd_alloc_linear psize h of
        (c, h) \<Rightarrow>
          andthen (vdev_raidz_map_alloc
                     \<lparr>io_offset = ofs, io_size = psize, io_abd = c, io_vsd = None\<rparr>
                     ASHIFT DCOLS NPARITY h) (\<lambda>(rm, h).
          andthen (if length (rm_col rm) < unat (rm_cols rm) then Inl Undefined
                   else read_cols std nvdevs disk (take (unat (rm_cols rm)) (rm_col rm)) h) (\<lambda>h.
          andthen (vdev_raidz_free rm h) (\<lambda>h. Inr (c, h)))))"

lemma read_at_std [simp]: "read_at True nvdevs disk c vdev ofs n h = Inl Undefined"
  by (auto simp: read_at_def abd_write_def andthen_def split: option.splits)

lemma read_cols_std: "cs \<noteq> [] \<Longrightarrow> read_cols True nvdevs disk cs h = Inl Undefined"
  by (cases cs) (auto split: option.splits)

section \<open>Writing columns\<close>

text \<open>What a column's part of the buffer holds after its read: the bytes that arrived, and
  the rest as it was allocated.\<close>

definition arrived :: "nat \<Rightarrow> bytes \<Rightarrow> cells" where
  "arrived n bs = map Some bs @ replicate (n - length bs) None"

lemma length_arrived [simp]: "length bs \<le> n \<Longrightarrow> length (arrived n bs) = n"
  by (simp add: arrived_def)

definition disk_ok :: "disks \<Rightarrow> bool" where
  "disk_ok disk \<longleftrightarrow> (\<forall>d ofs n. length (disk d ofs n) \<le> n)"

lemma disk_ok_length: "disk_ok disk \<Longrightarrow> length (disk d ofs n) \<le> n"
  by (simp add: disk_ok_def)

definition col_bytes :: "disks \<Rightarrow> raidz_col \<Rightarrow> bytes" where
  "col_bytes disk c = disk (unat (rc_devidx c)) (unat (rc_offset c)) (unat (rc_size c))"

definition col_cells :: "disks \<Rightarrow> raidz_col \<Rightarrow> cells" where
  "col_cells disk c = arrived (unat (rc_size c)) (col_bytes disk c)"

lemma length_col_cells: "disk_ok disk \<Longrightarrow> length (col_cells disk c) = unat (rc_size c)"
  by (simp add: col_cells_def col_bytes_def disk_ok_length)

text \<open>A read into a part of a buffer that is as it was allocated.\<close>

lemma abd_write_fresh:
  assumes "live_abd h p = Some a" and "abd_buf a = (b, length pre)"
    and "live_buf h b = Some (pre @ replicate n None @ post)" and "length bs \<le> n"
  shows "abd_write p bs h = Inr (h\<lparr>hp_bufs := (hp_bufs h)[b := Some (pre @ arrived n bs @ post)]\<rparr>)"
proof -
  have "st (pre @ replicate n None @ post) (length pre) (map Some bs)
      = Some (pre @ arrived n bs @ post)"
    using assms(4) by (simp add: st_def arrived_def)
  then show ?thesis using assms by (simp add: abd_write_def)
qed

lemma read_col_fresh:
  assumes "disk_ok disk" and "unat (rc_devidx c) < nvdevs"
    and "live_abd h p = Some a" and "abd_buf a = (b, length pre)"
    and "live_buf h b = Some (pre @ replicate (unat (rc_size c)) None @ post)"
  shows "read_at False nvdevs disk p (rc_devidx c) (rc_offset c) (rc_size c) h
    = Inr (h\<lparr>hp_bufs := (hp_bufs h)[b := Some (pre @ col_cells disk c @ post)]\<rparr>)"
  using abd_write_fresh[OF assms(3-5) disk_ok_length[OF assms(1)]] assms(2)
  by (simp add: read_at_def col_cells_def col_bytes_def)

text \<open>The data columns fill the buffer one after the other.\<close>

lemma read_cols_fill:
  assumes "disk_ok disk" and "\<forall>c \<in> set cs. unat (rc_devidx c) < nvdevs"
    and "\<forall>i < length cs. rc_abd (cs ! i) = Some (p + i)
      \<and> (\<exists>a. live_abd h (p + i) = Some a
          \<and> abd_buf a = (b, length pre + (\<Sum>j<i. unat (rc_size (cs ! j)))))"
    and "b < length (hp_bufs h)"
    and "hp_bufs h ! b = Some (pre @ replicate ((\<Sum>j<length cs. unat (rc_size (cs ! j))) + n) None)"
  shows "read_cols False nvdevs disk cs h =
    Inr (h\<lparr>hp_bufs := (hp_bufs h)[b := Some (pre @ concat (map (col_cells disk) cs) @ replicate n None)]\<rparr>)"
  using assms(2-)
proof (induction cs arbitrary: h p pre)
  case Nil
  then have "(hp_bufs h)[b := Some (pre @ replicate n None)] = hp_bufs h"
    by (simp add: list_update_same_conv)
  then show ?case by simp
next
  case (Cons c cs)
  let ?k = "unat (rc_size c)" and ?rest = "\<Sum>j<length cs. unat (rc_size (cs ! j))"
  have sum: "(\<Sum>j<Suc i. unat (rc_size ((c # cs) ! j))) = ?k + (\<Sum>j<i. unat (rc_size (cs ! j)))" for i
    by (subst sum.lessThan_Suc_shift) simp
  obtain a where a: "rc_abd c = Some p" "live_abd h p = Some a" "abd_buf a = (b, length pre)"
    using Cons.prems(2) by force
  have buf: "live_buf h b = Some (pre @ replicate ?k None @ replicate (?rest + n) None)"
    using Cons.prems(3,4) sum[of "length cs"]
    by (simp add: live_buf_def replicate_add[symmetric] add.assoc del: sum.lessThan_Suc)
  let ?h = "h\<lparr>hp_bufs := (hp_bufs h)[b := Some (pre @ col_cells disk c @ replicate (?rest + n) None)]\<rparr>"
  have r: "read_at False nvdevs disk p (rc_devidx c) (rc_offset c) (rc_size c) h = Inr ?h"
    using Cons.prems(1) by (intro read_col_fresh[OF assms(1) _ a(2,3) buf]) simp
  have "\<forall>i < length cs. rc_abd (cs ! i) = Some (Suc p + i)
      \<and> (\<exists>a. live_abd ?h (Suc p + i) = Some a
          \<and> abd_buf a = (b, length (pre @ col_cells disk c) + (\<Sum>j<i. unat (rc_size (cs ! j)))))"
  proof (intro allI impI)
    fix i assume i: "i < length cs"
    then obtain a' where "rc_abd ((c # cs) ! Suc i) = Some (p + Suc i)" "live_abd h (p + Suc i) = Some a'"
      "abd_buf a' = (b, length pre + (\<Sum>j<Suc i. unat (rc_size ((c # cs) ! j))))"
      using Cons.prems(2) by (metis Suc_less_eq length_Cons)
    then show "rc_abd (cs ! i) = Some (Suc p + i)
      \<and> (\<exists>a. live_abd ?h (Suc p + i) = Some a
          \<and> abd_buf a = (b, length (pre @ col_cells disk c) + (\<Sum>j<i. unat (rc_size (cs ! j)))))"
      using length_col_cells[OF assms(1), of c] sum[of i]
      by (auto simp: live_abd_def add.assoc simp del: sum.lessThan_Suc split: if_splits)
  qed
  from Cons.IH[OF _ this] show ?case
    using Cons.prems(1,3) a(1) r by simp
qed

section \<open>Giving the buffers back\<close>

lemma free_parts:
  assumes "hp_abds h = pre @ map Some as @ post" and "length as = length cs"
    and "\<forall>i < length cs. rc_abd (cs ! i) = Some (length pre + i)"
    and "\<forall>a \<in> set as. abd_flags a = 0"
  shows "raidz_free_cols cs h = Inr (h\<lparr>hp_abds := pre @ replicate (length cs) None @ post\<rparr>)"
  using assms
proof (induction cs arbitrary: h pre as)
  case Nil
  then show ?case by simp
next
  case (Cons c cs)
  then obtain a as' where as: "as = a # as'" by (cases as) auto
  let ?h = "h\<lparr>hp_abds := (pre @ [None]) @ map Some as' @ post\<rparr>"
  have c: "rc_abd c = Some (length pre)" using Cons.prems(3) by force
  have live: "live_abd h (length pre) = Some a" using Cons.prems(1) as by (simp add: live_abd_def nth_append)
  have "abd_flags a = 0" using Cons.prems(4) as by simp
  then have f: "abd_free (length pre) h = Inr ?h"
    using live Cons.prems(1) as by (simp add: abd_free_def free_abd_def)
  have "raidz_free_cols cs ?h = Inr (?h\<lparr>hp_abds := (pre @ [None]) @ replicate (length cs) None @ post\<rparr>)"
    using Cons.prems as by (intro Cons.IH) auto
  then show ?case using c f by simp
qed

lemma free_owner:
  assumes "live_abd h p = Some (own_abd sz b)" and "live_buf h b = Some m"
  shows "abd_free p h = Inr \<lparr>hp_bufs = (hp_bufs h)[b := None], hp_abds = (hp_abds h)[p := None]\<rparr>"
  using assms
  by (auto simp: abd_free_def own_abd_def ABD_FLAG_OWNER_def free_buf_def free_abd_def live_abd_def
      split: if_splits)

text \<open>The two loops of \<open>read_physical\<close> over a map whose columns have their buffers side by side.\<close>

lemma take_cols: "0 < n \<Longrightarrow> n \<le> length F \<Longrightarrow> take n F = F ! 0 # map ((!) F) [1..<n]"
  by (intro nth_equalityI) (auto simp: nth_Cons')

lemma read_all_cols:
  assumes disk: "disk_ok disk" and n: "0 < n" "n \<le> length F"
    and at: "\<And>c. c < n \<Longrightarrow> rc_abd (F ! c) = Some (p + c) \<and> unat (rc_devidx (F ! c)) < nvdevs"
    and par: "live_abd h p = Some (own_abd sz b')" "b' \<noteq> b"
      "live_buf h b' = Some (replicate (unat (rc_size (F ! 0))) None)"
    and parts: "\<And>i. i < n - 1 \<Longrightarrow> \<exists>a. live_abd h (p + 1 + i) = Some a
      \<and> abd_buf a = (b, \<Sum>j<i. unat (rc_size (F ! (1 + j))))"
    and buf: "live_buf h b = Some (replicate ((\<Sum>j<n - 1. unat (rc_size (F ! (1 + j)))) + k) None)"
  shows "read_cols False nvdevs disk (take n F) h = Inr (h\<lparr>hp_bufs := (hp_bufs h)[b' := Some (col_cells disk (F ! 0)),
    b := Some (concat (map (\<lambda>c. col_cells disk (F ! c)) [1..<n]) @ replicate k None)]\<rparr>)"
proof -
  let ?cs = "map ((!) F) [1..<n]"
  let ?h = "h\<lparr>hp_bufs := (hp_bufs h)[b' := Some (col_cells disk (F ! 0))]\<rparr>"
  have r0: "read_at False nvdevs disk p (rc_devidx (F ! 0)) (rc_offset (F ! 0)) (rc_size (F ! 0)) h = Inr ?h"
    using read_col_fresh[OF disk _ par(1), of "F ! 0" nvdevs b' "[]" "[]"] at[OF n(1)] par(3)
    by (simp add: own_abd_def)
  have sums: "(\<Sum>j<i. unat (rc_size (?cs ! j))) = (\<Sum>j<i. unat (rc_size (F ! (1 + j))))" if "i \<le> n - 1" for i
    using that by (intro sum.cong) auto
  have "read_cols False nvdevs disk ?cs ?h = Inr (?h\<lparr>hp_bufs := (hp_bufs ?h)[b :=
      Some ([] @ concat (map (col_cells disk) ?cs) @ replicate k None)]\<rparr>)"
  proof (rule read_cols_fill[OF disk, where p = "p + 1"])
    show "\<forall>c\<in>set ?cs. unat (rc_devidx c) < nvdevs" using at by auto
    show "b < length (hp_bufs ?h)" using buf by (auto simp: live_buf_def split: if_splits)
    show "hp_bufs ?h ! b = Some ([] @ replicate ((\<Sum>j<length ?cs. unat (rc_size (?cs ! j))) + k) None)"
      using buf par(2) sums[of "n - 1"] by (auto simp: live_buf_def split: if_splits)
    show "\<forall>i<length ?cs. rc_abd (?cs ! i) = Some (p + 1 + i) \<and> (\<exists>a. live_abd ?h (p + 1 + i) = Some a
        \<and> abd_buf a = (b, length ([] :: cells) + (\<Sum>j<i. unat (rc_size (?cs ! j)))))"
    proof (intro allI impI)
      fix i assume "i < length ?cs"
      then have i: "i < n - 1" "1 + i < n" by simp_all
      have l: "live_abd ?h q = live_abd h q" for q by (simp add: live_abd_def)
      show "rc_abd (?cs ! i) = Some (p + 1 + i) \<and> (\<exists>a. live_abd ?h (p + 1 + i) = Some a
        \<and> abd_buf a = (b, length ([] :: cells) + (\<Sum>j<i. unat (rc_size (?cs ! j)))))"
        using at[OF i(2)] parts[OF i(1)] i unfolding l sums[OF less_imp_le[OF i(1)]] by simp
    qed
  qed
  then show ?thesis
    using at[OF n(1)] r0 unfolding take_cols[OF n] by (simp add: comp_def)
qed

lemma free_all_cols:
  assumes abds: "hp_abds h = pre @ Some (own_abd sz b) # map Some as @ post" and n: "0 < n" "n \<le> length F"
    and as: "length as = n - 1" "\<forall>a \<in> set as. abd_flags a = 0"
    and at: "\<And>c. c < n \<Longrightarrow> rc_abd (F ! c) = Some (length pre + c)" and buf: "live_buf h b = Some m"
  shows "raidz_free_cols (take n F) h
    = Inr \<lparr>hp_bufs = (hp_bufs h)[b := None], hp_abds = pre @ replicate n None @ post\<rparr>"
proof -
  let ?h = "\<lparr>hp_bufs = (hp_bufs h)[b := None], hp_abds = (pre @ [None]) @ map Some as @ post\<rparr>"
  have "live_abd h (length pre) = Some (own_abd sz b)" using abds by (simp add: live_abd_def nth_append)
  from free_owner[OF this buf] have f: "abd_free (length pre) h = Inr ?h"
    using abds by (simp add: list_update_append)
  have "raidz_free_cols (map ((!) F) [1..<n]) ?h
      = Inr (?h\<lparr>hp_abds := (pre @ [None]) @ replicate (length (map ((!) F) [1..<n])) None @ post\<rparr>)"
    using as at by (intro free_parts[where as = as]) auto
  moreover have "None # replicate (n - 1) None = replicate n None" using n by (cases n) auto
  ultimately show ?thesis
    using at[OF n(1)] f unfolding take_cols[OF n] by simp
qed

section \<open>One read\<close>

text \<open>The columns \<open>read_physical\<close> reads, with the exchange of the first two on odd megabytes.\<close>

definition read_swaps :: "u64 \<Rightarrow> bool" where
  "read_swaps ofs \<longleftrightarrow> ofs AND push_bit 20 1 \<noteq> 0"

definition read_dev :: "u64 \<Rightarrow> nat \<Rightarrow> nat" where
  "read_dev ofs c = (unat ofs div 4096 + raidz_place (read_swaps ofs) c) mod 3"

definition read_ofs :: "u64 \<Rightarrow> nat \<Rightarrow> nat" where
  "read_ofs ofs c = (unat ofs div 4096 + raidz_place (read_swaps ofs) c) div 3 * 4096"

definition read_len :: "u64 \<Rightarrow> nat \<Rightarrow> nat" where
  "read_len psize c = rz_len 3 1 (unat psize div 4096) c * 4096"

definition read_cells :: "disks \<Rightarrow> u64 \<Rightarrow> u64 \<Rightarrow> cells" where
  "read_cells disk ofs psize =
     concat (map (\<lambda>c. arrived (read_len psize c) (disk (read_dev ofs c) (read_ofs ofs c) (read_len psize c)))
               [1..<rz_acols 3 1 (unat psize div 4096)])
     @ replicate (unat psize mod 4096) None"

lemma read_request_ok:
  assumes "4096 \<le> unat psize" and "unat psize \<le> 2 ^ 34" and "unat ofs < 2 ^ 63"
  shows "raidz_request_ok (unat ofs) (unat psize) 12 3 1"
  using assms by (simp add: raidz_request_ok_def)

definition read_map :: "nat \<Rightarrow> u64 \<Rightarrow> u64 \<Rightarrow> raidz_map" where
  "read_map p ofs psize =
     swap_if (read_swaps ofs) (rz_map p 12 3 1 (unat psize div 4096) (unat ofs div 4096))"

lemma read_map_cols:
  "rm_cols (read_map p ofs psize) = W (rz_acols 3 1 (unat psize div 4096))"
  "length (rm_col (read_map p ofs psize)) = rz_scols 3 1 (unat psize div 4096)"
  by (simp_all add: read_map_def swap_if_def Let_def rz_map_def raidz_swap_def rz_cols_def)

lemma read_map_nth:
  assumes ps: "4096 \<le> unat psize" "unat psize \<le> 2 ^ 34" and of: "unat ofs < 2 ^ 63"
    and c: "c < rz_acols 3 1 (unat psize div 4096)"
  shows "rc_abd (rm_col (read_map p ofs psize) ! c) = Some (p + c)"
    and "rc_size (rm_col (read_map p ofs psize) ! c) = W (read_len psize c)"
    and "unat (rc_devidx (rm_col (read_map p ofs psize) ! c)) = read_dev ofs c"
    and "unat (rc_offset (rm_col (read_map p ofs psize) ! c)) = read_ofs ofs c"
  using map_col_nth[OF read_request_ok[OF ps of], of c "read_swaps ofs" p] c
  by (simp_all add: read_map_def read_len_def read_dev_def read_ofs_def)

lemma read_lens:
  assumes "4096 \<le> unat psize" and "unat psize \<le> 2 ^ 34"
  shows "read_len psize c < 2 ^ 64"
    and "(\<Sum>j<rz_acols 3 1 (unat psize div 4096) - 1. read_len psize (1 + j)) + unat psize mod 4096 = unat psize"
proof -
  let ?s = "unat psize div 4096" and ?ac = "rz_acols 3 1 (unat psize div 4096)"
  have s: "0 < ?s" using assms(1) by (simp add: div_greater_zero_iff)
  note n = rz_acols_bounds(1)[of 1 3 ?s, OF _ _ s, simplified]
  have "raidz_request_ok 0 (unat psize) 12 3 1" using assms by (simp add: raidz_request_ok_def)
  from rz_len_bound[OF this, of c] show "read_len psize c < 2 ^ 64" by (simp add: read_len_def)
  have "(\<Sum>j<?ac - 1. read_len psize (1 + j)) = (\<Sum>c = 1..<?ac. read_len psize c)"
    using n sum.shift_bounds_nat_ivl[of "read_len psize" 0 1 "?ac - 1"] by (simp add: lessThan_atLeast0)
  also have "\<dots> = ?s * 4096"
    using rz_len_data_sum[of 1 3 ?s, OF _ _ s] by (simp add: read_len_def sum_distrib_right[symmetric])
  finally show "(\<Sum>j<?ac - 1. read_len psize (1 + j)) + unat psize mod 4096 = unat psize" by simp
qed

text \<open>Where the data columns lie in the buffer of the request.\<close>

lemma read_pos:
  assumes "4096 \<le> unat psize" and "unat psize \<le> 2 ^ 34" and i: "i < rz_acols 3 1 (unat psize div 4096) - 1"
  shows "rz_pos 12 3 1 (unat psize div 4096) i = (\<Sum>j<i. read_len psize (1 + j))"
    and "rz_pos 12 3 1 (unat psize div 4096) i < 2 ^ 64"
proof -
  let ?ac = "rz_acols 3 1 (unat psize div 4096)"
  show e: "rz_pos 12 3 1 (unat psize div 4096) i = (\<Sum>j<i. read_len psize (1 + j))"
    by (simp add: rz_pos_def read_len_def)
  have "(\<Sum>j<i. read_len psize (1 + j)) \<le> (\<Sum>j<?ac - 1. read_len psize (1 + j))"
    using i by (intro sum_mono2) auto
  also have "\<dots> \<le> unat psize" using read_lens(2)[OF assms(1,2)] by linarith
  also have "\<dots> < 2 ^ 64" using assms(2) by simp
  finally show "rz_pos 12 3 1 (unat psize div 4096) i < 2 ^ 64" using e by simp
qed

definition read_parts :: "nat \<Rightarrow> nat \<Rightarrow> u64 \<Rightarrow> abd_t list" where
  "read_parts p b psize = map (\<lambda>i. part_abd (own_abd psize b) p
      (W (rz_pos 12 3 1 (unat psize div 4096) i)) (W (read_len psize (1 + i))))
    [0..<rz_acols 3 1 (unat psize div 4096) - 1]"

lemma read_map_alloc:
  assumes ps: "4096 \<le> unat psize" "unat psize \<le> 2 ^ 34" and of: "unat ofs < 2 ^ 63"
    and h0: "h0 = \<lparr>hp_bufs = hp_bufs h @ [Some (replicate (unat psize) None)],
      hp_abds = hp_abds h @ [Some (own_abd psize (length (hp_bufs h)))]\<rparr>"
  shows "vdev_raidz_map_alloc \<lparr>io_offset = ofs, io_size = psize, io_abd = length (hp_abds h), io_vsd = None\<rparr>
      ASHIFT DCOLS NPARITY h0
    = Inr (read_map (length (hp_abds h) + 1) ofs psize,
        \<lparr>hp_bufs = hp_bufs h @ [Some (replicate (unat psize) None), Some (replicate (read_len psize 0) None)],
         hp_abds = (hp_abds h @ [Some (own_abd psize (length (hp_bufs h)))])
           @ Some (own_abd (W (read_len psize 0)) (length (hp_bufs h) + 1))
           # map Some (read_parts (length (hp_abds h)) (length (hp_bufs h)) psize)\<rparr>)"
proof -
  let ?zio = "\<lparr>io_offset = ofs, io_size = psize, io_abd = length (hp_abds h), io_vsd = None\<rparr>"
  have live: "live_abd h0 (io_abd ?zio) = Some (own_abd psize (length (hp_bufs h)))"
    by (simp add: h0 live_abd_def)
  have w: "W 12 = ASHIFT" "W 3 = DCOLS" "W (Suc 0) = NPARITY" "NPARITY = 1"
    by (simp_all add: W_def ASHIFT_def DCOLS_def NPARITY_def)
  show ?thesis
    using map_alloc_eq[OF read_request_ok[OF ps of], of ?zio h0] live
    by (simp add: W_unat w Let_def read_map_def swap_if_def read_swaps_def rz_heap_def read_len_def read_parts_def h0)
qed

lemma read_physical_eq:
  assumes disk: "disk_ok disk" and nv: "3 \<le> nvdevs"
    and ps: "4096 \<le> unat psize" "unat psize \<le> 2 ^ 34" and of: "unat ofs < 2 ^ 63"
  shows "read_physical False nvdevs disk ofs psize h = Inr (length (hp_abds h),
    \<lparr>hp_bufs = hp_bufs h @ [Some (read_cells disk ofs psize), None],
     hp_abds = hp_abds h @ Some (own_abd psize (length (hp_bufs h)))
       # replicate (rz_acols 3 1 (unat psize div 4096)) None\<rparr>)"
proof -
  let ?n = "rz_acols 3 1 (unat psize div 4096)" and ?nb = "length (hp_bufs h)" and ?na = "length (hp_abds h)"
  let ?own = "own_abd psize ?nb" and ?parts = "read_parts ?na ?nb psize"
  let ?par = "own_abd (W (read_len psize 0)) (?nb + 1)"
  let ?F = "rm_col (read_map (?na + 1) ofs psize)"
  have "0 < unat psize div 4096" using ps(1) by (simp add: div_greater_zero_iff)
  note b = rz_acols_bounds[of 1 3, OF _ _ this, simplified]
  have F: "0 < ?n" "?n \<le> length ?F" "unat (rm_cols (read_map (?na + 1) ofs psize)) = ?n"
    using b read_map_cols[of "?na + 1" ofs psize] by (simp_all add: unat_W)
  note col = read_map_nth[OF ps of, of _ "?na + 1"]
  have dev: "unat (rc_devidx (?F ! c)) < nvdevs" if "c < ?n" for c
    using col(3)[OF that] nv by (simp add: read_dev_def order_less_le_trans[OF mod_less_divisor])
  have len: "unat (rc_size (?F ! c)) = read_len psize c" if "c < ?n" for c
    using col(2)[OF that] read_lens(1)[OF ps] by (simp add: unat_W)
  have lens: "(\<Sum>j<i. unat (rc_size (?F ! (1 + j)))) = (\<Sum>j<i. read_len psize (1 + j))" if "i \<le> ?n - 1" for i
    using that len by (intro sum.cong) auto
  have cell: "col_cells disk (?F ! c)
      = arrived (read_len psize c) (disk (read_dev ofs c) (read_ofs ofs c) (read_len psize c))" if "c < ?n" for c
    using col[OF that] len[OF that] by (simp add: col_cells_def col_bytes_def)
  have cells: "concat (map (\<lambda>c. col_cells disk (?F ! c)) [1..<?n]) @ replicate (unat psize mod 4096) None
      = read_cells disk ofs psize"
    unfolding read_cells_def by (intro arg_cong2[where f = append] arg_cong[where f = concat] map_cong refl cell) simp
  have lp: "length ?parts = ?n - 1" by (simp add: read_parts_def)
  let ?h1 = "\<lparr>hp_bufs = hp_bufs h @ [Some (replicate (unat psize) None), Some (replicate (read_len psize 0) None)],
    hp_abds = (hp_abds h @ [Some ?own]) @ Some ?par # map Some ?parts\<rparr>"
  have parts: "\<exists>a. live_abd ?h1 (?na + 1 + 1 + i) = Some a
      \<and> abd_buf a = (?nb, \<Sum>j<i. unat (rc_size (?F ! (1 + j))))" if i: "i < ?n - 1" for i
  proof (intro exI conjI)
    show "live_abd ?h1 (?na + 1 + 1 + i) = Some (?parts ! i)"
      using i lp by (simp add: live_abd_def nth_append)
    show "abd_buf (?parts ! i) = (?nb, \<Sum>j<i. unat (rc_size (?F ! (1 + j))))"
      using i read_pos[OF ps i] lens[of i] by (simp add: read_parts_def part_abd_def own_abd_def unat_W)
  qed
  have reads: "read_cols False nvdevs disk (take ?n ?F) ?h1 = Inr (?h1\<lparr>hp_bufs :=
      hp_bufs h @ [Some (read_cells disk ofs psize), Some (col_cells disk (?F ! 0))]\<rparr>)"
  proof -
    have at: "rc_abd (?F ! c) = Some (?na + 1 + c) \<and> unat (rc_devidx (?F ! c)) < nvdevs" if "c < ?n" for c
      using col(1)[OF that] dev[OF that] by simp
    have par: "live_abd ?h1 (?na + 1) = Some ?par"
      "live_buf ?h1 (?nb + 1) = Some (replicate (unat (rc_size (?F ! 0))) None)"
      by (simp_all only: len[OF F(1)]) (simp_all add: live_abd_def live_buf_def nth_append)
    have "(\<Sum>j<?n - 1. unat (rc_size (?F ! (1 + j)))) + unat psize mod 4096 = unat psize"
      unfolding lens[OF order_refl] by (rule read_lens(2)[OF ps])
    then have buf: "live_buf ?h1 ?nb
        = Some (replicate ((\<Sum>j<?n - 1. unat (rc_size (?F ! (1 + j)))) + unat psize mod 4096) None)"
      by (simp only:) (simp add: live_buf_def nth_append)
    have ne: "?nb + 1 \<noteq> ?nb" by simp
    show ?thesis
      using read_all_cols[OF disk F(1,2) at par(1) ne par(2) parts buf, unfolded cells]
      by (simp add: list_update_append)
  qed
  have frees: "raidz_free_cols (take ?n ?F) (?h1\<lparr>hp_bufs :=
      hp_bufs h @ [Some (read_cells disk ofs psize), Some (col_cells disk (?F ! 0))]\<rparr>)
    = Inr \<lparr>hp_bufs = hp_bufs h @ [Some (read_cells disk ofs psize), None],
        hp_abds = hp_abds h @ Some ?own # replicate ?n None\<rparr>"
  proof -
    have at: "rc_abd (?F ! c) = Some (length (hp_abds h @ [Some ?own]) + c)" if "c < ?n" for c
      using col(1)[OF that] by simp
    have buf: "live_buf (?h1\<lparr>hp_bufs :=
        hp_bufs h @ [Some (read_cells disk ofs psize), Some (col_cells disk (?F ! 0))]\<rparr>) (?nb + 1)
      = Some (col_cells disk (?F ! 0))" by (simp add: live_buf_def nth_append)
    have flags: "\<forall>a \<in> set ?parts. abd_flags a = 0" by (auto simp: read_parts_def part_abd_def)
    show ?thesis
      by (subst free_all_cols[where pre = "hp_abds h @ [Some ?own]" and as = ?parts and post = "[]",
            OF _ F(1,2) lp flags at buf]) (simp_all add: list_update_append)
  qed
  have "abd_alloc_linear psize h
      = (?na, \<lparr>hp_bufs = hp_bufs h @ [Some (replicate (unat psize) None)], hp_abds = hp_abds h @ [Some ?own]\<rparr>)"
    by (simp add: abd_alloc_linear_eq own_abd_def)
  then show ?thesis
    using read_map_alloc[OF ps of refl, of h] reads frees F
    by (simp add: read_physical_def vdev_raidz_free_def)
qed

lemma read_physical_std:
  assumes ps: "4096 \<le> unat psize" "unat psize \<le> 2 ^ 34" and of: "unat ofs < 2 ^ 63"
  shows "read_physical True nvdevs disk ofs psize h = Inl Undefined"
proof -
  let ?rm = "read_map (length (hp_abds h) + 1) ofs psize" and ?n = "rz_acols 3 1 (unat psize div 4096)"
  have "0 < unat psize div 4096" using ps(1) by (simp add: div_greater_zero_iff)
  note b = rz_acols_bounds[of 1 3, OF _ _ this, simplified]
  have F: "0 < ?n" "?n \<le> length (rm_col ?rm)" "unat (rm_cols ?rm) = ?n"
    using b read_map_cols[of "length (hp_abds h) + 1" ofs psize] by (simp_all add: unat_W)
  then have "take (unat (rm_cols ?rm)) (rm_col ?rm) \<noteq> []" by auto
  moreover have "abd_alloc_linear psize h
      = (length (hp_abds h), \<lparr>hp_bufs = hp_bufs h @ [Some (replicate (unat psize) None)],
          hp_abds = hp_abds h @ [Some (own_abd psize (length (hp_bufs h)))]\<rparr>)"
    by (simp add: abd_alloc_linear_eq own_abd_def)
  ultimately show ?thesis
    using read_map_alloc[OF ps of refl, of h] F by (simp add: read_physical_def read_cols_std)
qed

end
