(* ===== verification/Codec.thy ===== *)
theory Codec
  imports Byteorder
begin

text \<open>
  On-disk structures as bytes. A structure is encoded in the host's (little-endian) layout;
  the interface \<open>codec\<close> says that encoding and decoding are inverse between well-formed
  values and the byte strings of the structure's size, and \<open>word_struct\<close> is the case of a
  structure made of 64-bit words only.
\<close>

section \<open>The interface\<close>

locale codec =
  fixes wf :: "'a \<Rightarrow> bool" and enc :: "'a \<Rightarrow> bytes" and dec :: "bytes \<Rightarrow> 'a" and sz :: nat
  assumes enc_length: "wf x \<Longrightarrow> length (enc x) = sz"
    and dec_enc: "wf x \<Longrightarrow> dec (enc x) = x"
    and dec_wf: "length bs = sz \<Longrightarrow> wf (dec bs)"
    and enc_dec: "length bs = sz \<Longrightarrow> enc (dec bs) = bs"
begin

lemma enc_inj: "wf x \<Longrightarrow> wf y \<Longrightarrow> enc x = enc y \<Longrightarrow> x = y"
  by (metis dec_enc)

lemma dec_inj: "length a = sz \<Longrightarrow> length b = sz \<Longrightarrow> dec a = dec b \<Longrightarrow> a = b"
  by (metis enc_dec)

text \<open>The \<open>i\<close>-th of several structures that lie \<open>stride\<close> bytes apart.\<close>

definition dec_nth :: "nat \<Rightarrow> nat \<Rightarrow> bytes \<Rightarrow> 'a" where
  "dec_nth stride i bs = dec (take sz (drop (i * stride) bs))"

lemma dec_nth_written:
  assumes "wf x" and "length pre = i * stride"
  shows "dec_nth stride i (pre @ enc x @ post) = x"
  using assms by (simp add: dec_nth_def enc_length dec_enc)

lemma dec_nth_wf: "i * stride + sz \<le> length bs \<Longrightarrow> wf (dec_nth stride i bs)"
  by (simp add: dec_nth_def dec_wf)

end

section \<open>Words as bytes\<close>

definition get64 :: "bytes \<Rightarrow> nat \<Rightarrow> u64" where
  "get64 bs k = glue64 (rev (take 8 (drop k bs)))"

definition get_words :: "nat \<Rightarrow> bytes \<Rightarrow> u64 list" where
  "get_words n bs = map (\<lambda>i. get64 bs (8 * i)) [0..<n]"

definition put_words :: "u64 list \<Rightarrow> bytes" where
  "put_words ws = concat (map le8 ws)"

lemma length_get_words [simp]: "length (get_words n bs) = n"
  by (simp add: get_words_def)

lemma length_put_words [simp]: "length (put_words ws) = 8 * length ws"
  by (induction ws) (simp_all add: put_words_def)

lemma get_words_Suc: "get_words (Suc n) bs = get64 bs 0 # get_words n (drop 8 bs)"
  by (simp add: get_words_def get64_def map_upt_Suc add.commute del: upt_Suc)

lemma get_words_put: "get_words (length ws) (put_words ws @ post) = ws"
proof (induction ws)
  case (Cons w ws)
  then show ?case
    by (simp add: get_words_Suc get64_def put_words_def glue64_le8)
qed (simp add: get_words_def)

lemma put_words_get: "length bs = 8 * n \<Longrightarrow> put_words (get_words n bs) = bs"
proof (induction n arbitrary: bs)
  case 0
  then show ?case by (simp add: get_words_def put_words_def)
next
  case (Suc n)
  have "le8 (get64 bs 0) = take 8 bs"
    using le8_glue64[of "take 8 bs"] Suc.prems by (simp add: get64_def)
  then show ?case
    using Suc.IH[of "drop 8 bs"] Suc.prems by (simp add: get_words_Suc put_words_def)
qed

locale word_struct =
  fixes wf :: "'a \<Rightarrow> bool" and to_words :: "'a \<Rightarrow> u64 list" and of_words :: "u64 list \<Rightarrow> 'a" and n :: nat
  assumes to_length: "wf x \<Longrightarrow> length (to_words x) = n"
    and of_to: "wf x \<Longrightarrow> of_words (to_words x) = x"
    and of_wf: "length ws = n \<Longrightarrow> wf (of_words ws)"
    and to_of: "length ws = n \<Longrightarrow> to_words (of_words ws) = ws"

sublocale word_struct \<subseteq> codec wf "\<lambda>x. put_words (to_words x)" "\<lambda>bs. of_words (get_words n bs)" "8 * n"
proof unfold_locales
  fix x assume x: "wf x"
  then show "length (put_words (to_words x)) = 8 * n" by (simp add: to_length)
  show "of_words (get_words n (put_words (to_words x))) = x"
    using get_words_put[of "to_words x" "[]"] x by (simp add: to_length of_to)
next
  fix bs :: bytes assume l: "length bs = 8 * n"
  show "wf (of_words (get_words n bs))" by (simp add: of_wf)
  show "put_words (to_words (of_words (get_words n bs))) = bs"
    by (simp add: to_of put_words_get[OF l])
qed

section \<open>Sixteen-bit fields\<close>

definition le2 :: "u16 \<Rightarrow> bytes" where
  "le2 v = [ucast v, ucast (drop_bit 8 v)]"

definition get16 :: "bytes \<Rightarrow> nat \<Rightarrow> u16" where
  "get16 bs k = push_bit 8 (ucast (bs ! (k + 1))) OR ucast (bs ! k)"

lemma length_le2 [simp]: "length (le2 v) = 2"
  by (simp add: le2_def)

lemma le2_value: "push_bit 8 (ucast (ucast (drop_bit 8 v) :: u8)) OR ucast (ucast v :: u8) = (v :: u16)"
  by (rule bit_word_eqI) (auto simp: bit_simps dest: bit_imp_le_length)

lemma value_le2: "le2 (push_bit 8 (ucast b) OR ucast a) = [a, b]"
proof -
  have "ucast (push_bit 8 (ucast b) OR ucast a :: u16) = a" 
    by (rule bit_word_eqI) (auto simp: bit_simps)
  moreover have "ucast (drop_bit 8 (push_bit 8 (ucast b) OR ucast a :: u16)) = b"
    by (rule bit_word_eqI) (auto simp: bit_simps dest: bit_imp_le_length)
  ultimately show ?thesis by (simp add: le2_def)
qed

end
