(* ===== verification/Ondisk.thy ===== *)
theory Ondisk
  imports Codec Blkptr Cenum
begin

text \<open>
  The on-disk structures of \<open>extractor/defs.h\<close> and their layout: block pointers, uberblocks,
  the DSL directory and dataset, the ZAP header, checksummed label parts, labels and dnodes.
  Every structure is an instance of the \<open>codec\<close> interface, with the size the comments of
  the header give it.
\<close>

section \<open>Block pointers and uberblocks\<close>

definition blkptr_words :: "blkptr_t \<Rightarrow> u64 list" where
  "blkptr_words bp = concat (map dva_word (blk_dva bp)) @ [blk_prop bp] @ blk_pad bp
     @ [blk_phys_birth bp, blk_birth bp, blk_fill bp] @ zc_word (blk_cksum bp)"

definition words_blkptr :: "u64 list \<Rightarrow> blkptr_t" where
  "words_blkptr ws =
     \<lparr>blk_dva = [\<lparr>dva_word = [ws ! 0, ws ! 1]\<rparr>, \<lparr>dva_word = [ws ! 2, ws ! 3]\<rparr>, \<lparr>dva_word = [ws ! 4, ws ! 5]\<rparr>],
      blk_prop = ws ! 6, blk_pad = [ws ! 7, ws ! 8], blk_phys_birth = ws ! 9, blk_birth = ws ! 10,
      blk_fill = ws ! 11, blk_cksum = \<lparr>zc_word = [ws ! 12, ws ! 13, ws ! 14, ws ! 15]\<rparr>\<rparr>"

record uberblock =
  ub_magic :: u64
  ub_version :: u64
  ub_txg :: u64
  ub_guid_sum :: u64
  ub_timestamp :: u64
  ub_rootbp :: blkptr_t
  ub_software_version :: u64
  ub_mmp_magic :: u64
  ub_mmp_delay :: u64
  ub_mmp_seq :: u64
  ub_checkpoint_txg :: u64

definition UBERBLOCK_MAGIC :: u64 where "UBERBLOCK_MAGIC = 0x00bab10c"
definition UBERBLOCK_SHIFT :: nat where "UBERBLOCK_SHIFT = 10"
definition MMP_MAGIC :: u64 where "MMP_MAGIC = 0xa11cea11"

definition uberblock_wf :: "uberblock \<Rightarrow> bool" where
  "uberblock_wf u \<longleftrightarrow> blkptr_wf (ub_rootbp u)"

definition uberblock_words :: "uberblock \<Rightarrow> u64 list" where
  "uberblock_words u =
     [ub_magic u, ub_version u, ub_txg u, ub_guid_sum u, ub_timestamp u] @ blkptr_words (ub_rootbp u)
     @ [ub_software_version u, ub_mmp_magic u, ub_mmp_delay u, ub_mmp_seq u, ub_checkpoint_txg u]"

definition words_uberblock :: "u64 list \<Rightarrow> uberblock" where
  "words_uberblock ws =
     \<lparr>ub_magic = ws ! 0, ub_version = ws ! 1, ub_txg = ws ! 2, ub_guid_sum = ws ! 3,
      ub_timestamp = ws ! 4, ub_rootbp = words_blkptr (take 16 (drop 5 ws)),
      ub_software_version = ws ! 21, ub_mmp_magic = ws ! 22, ub_mmp_delay = ws ! 23,
      ub_mmp_seq = ws ! 24, ub_checkpoint_txg = ws ! 25\<rparr>"

text \<open>Reading the words of a list one by one gives the list back.\<close>

lemma upt_zero_numeral: "[0..<numeral n] = 0 # [Suc 0..<numeral n]"
  by (simp add: upt_rec)

lemma upt_one_numeral: "[Suc 0..<numeral n] = (if Suc 0 < numeral n then Suc 0 # [2..<numeral n] else [])"
  by (simp add: upt_rec numeral_2_eq_2)

lemmas upt_numerals = upt_zero_numeral upt_one_numeral upt_rec_numeral

lemma all_words: "length ws = n \<Longrightarrow> map ((!) ws) [0..<n] = ws"
  using map_nth[of ws] by simp

lemma words_seg: "b \<le> length ws \<Longrightarrow> take (b - a) (drop a ws) = map ((!) ws) [a..<b]"
  by (rule nth_equalityI) auto

lemma words_split: "a \<le> b \<Longrightarrow> b \<le> n \<Longrightarrow> [0..<a] @ [a..<b] @ [b..<n] = [0..<n]"
  using upt_add_eq_append[of 0 a "b - a"] upt_add_eq_append[of 0 b "n - b"] by simp

lemma length_2: "length xs = 2 \<longleftrightarrow> (\<exists>a b. xs = [a, b])"
  by (auto simp: numeral_2_eq_2 length_Suc_conv)

lemma length_3: "length xs = 3 \<longleftrightarrow> (\<exists>a b c. xs = [a, b, c])"
  by (auto simp: numeral_3_eq_3 length_Suc_conv)

lemma length_4: "length xs = 4 \<longleftrightarrow> (\<exists>a b c d. xs = [a, b, c, d])"
  by (auto simp: eval_nat_numeral length_Suc_conv)

lemma blkptr_words_of:
  assumes "length ws = 16"
  shows "blkptr_words (words_blkptr ws) = ws"
proof -
  have "blkptr_words (words_blkptr ws) = map ((!) ws) [0..<16]"
    by (simp add: blkptr_words_def words_blkptr_def upt_numerals)
  then show ?thesis using all_words[OF assms] by simp
qed

interpretation blkptr: word_struct blkptr_wf blkptr_words words_blkptr 16
proof unfold_locales
  fix x assume x: "blkptr_wf x"
  obtain d0 d1 d2 where d: "blk_dva x = [d0, d1, d2]" "dva_wf d0" "dva_wf d1" "dva_wf d2"
    using x by (auto simp: blkptr_wf_def SPA_DVAS_PER_BP_def length_3)
  obtain a b where p: "blk_pad x = [a, b]" using x by (auto simp: blkptr_wf_def length_2)
  obtain e f g h where c: "zc_word (blk_cksum x) = [e, f, g, h]"
    using x by (auto simp: blkptr_wf_def length_4)
  have dva: "\<exists>u v. d = \<lparr>dva_word = [u, v]\<rparr>" if "dva_wf d" for d
    using that by (cases d) (auto simp: dva_wf_def length_2)
  obtain u0 v0 u1 v1 u2 v2 where
    ds: "blk_dva x = [\<lparr>dva_word = [u0, v0]\<rparr>, \<lparr>dva_word = [u1, v1]\<rparr>, \<lparr>dva_word = [u2, v2]\<rparr>]"
    using dva[OF d(2)] dva[OF d(3)] dva[OF d(4)] d(1) by blast
  have ck: "blk_cksum x = \<lparr>zc_word = [e, f, g, h]\<rparr>" using c by simp
  show "length (blkptr_words x) = 16" by (simp add: blkptr_words_def ds p c)
  show "words_blkptr (blkptr_words x) = x"
    unfolding blkptr_words_def words_blkptr_def ds p c by (simp add: ds p ck)
next
  fix ws :: "u64 list" assume l: "length ws = 16"
  show "blkptr_wf (words_blkptr ws)"
    by (simp add: words_blkptr_def blkptr_wf_def dva_wf_def SPA_DVAS_PER_BP_def)
  show "blkptr_words (words_blkptr ws) = ws" by (rule blkptr_words_of[OF l])
qed

interpretation uberblock: word_struct uberblock_wf uberblock_words words_uberblock 26
proof unfold_locales
  fix x assume x: "uberblock_wf x"
  then have w: "length (blkptr_words (ub_rootbp x)) = 16" "words_blkptr (blkptr_words (ub_rootbp x)) = ub_rootbp x"
    by (simp_all add: uberblock_wf_def blkptr.to_length blkptr.of_to)
  then show "length (uberblock_words x) = 26" "words_uberblock (uberblock_words x) = x"
    by (cases x; simp add: uberblock_words_def words_uberblock_def nth_append)+
next
  fix ws :: "u64 list" assume l: "length ws = 26"
  then show "uberblock_wf (words_uberblock ws)"
    by (simp add: words_uberblock_def uberblock_wf_def blkptr.of_wf)
  have "uberblock_words (words_uberblock ws) = map ((!) ws) ([0..<5] @ [5..<21] @ [21..<26])"
    using l words_seg[of 21 ws 5]
    by (simp add: uberblock_words_def words_uberblock_def blkptr_words_of upt_numerals)
  then show "uberblock_words (words_uberblock ws) = ws"
    using all_words[OF l] words_split[of 5 21 26] by (simp add: upt_numerals)
qed

section \<open>The DSL directory and dataset\<close>

definition dd_used :: c_enum where
  "dd_used = plain [''DD_USED_HEAD'', ''DD_USED_SNAP'', ''DD_USED_CHILD'', ''DD_USED_CHILD_RSRV'',
     ''DD_USED_REFRSRV'', ''DD_USED_NUM'']"

definition DD_USED_NUM :: nat where "DD_USED_NUM = 5"

record dsl_dir_phys =
  dd_creation_time :: u64
  dd_head_dataset_obj :: u64
  dd_parent_obj :: u64
  dd_origin_obj :: u64
  dd_child_dir_zapobj :: u64
  dd_used_bytes :: u64
  dd_compressed_bytes :: u64
  dd_uncompressed_bytes :: u64
  dd_quota :: u64
  dd_reserved :: u64
  dd_props_zapobj :: u64
  dd_deleg_zapobj :: u64
  dd_flags :: u64
  dd_used_breakdown :: "u64 list"
  dd_clones :: u64
  dd_pad :: "u64 list"

definition dsl_dir_wf :: "dsl_dir_phys \<Rightarrow> bool" where
  "dsl_dir_wf d \<longleftrightarrow> length (dd_used_breakdown d) = DD_USED_NUM \<and> length (dd_pad d) = 13"

definition dsl_dir_words :: "dsl_dir_phys \<Rightarrow> u64 list" where
  "dsl_dir_words d =
     [dd_creation_time d, dd_head_dataset_obj d, dd_parent_obj d, dd_origin_obj d,
     dd_child_dir_zapobj d, dd_used_bytes d, dd_compressed_bytes d, dd_uncompressed_bytes d,
     dd_quota d, dd_reserved d, dd_props_zapobj d, dd_deleg_zapobj d, dd_flags d] @
     dd_used_breakdown d @ [dd_clones d] @ dd_pad d"

definition words_dsl_dir :: "u64 list \<Rightarrow> dsl_dir_phys" where
  "words_dsl_dir ws =
     \<lparr>dd_creation_time = ws ! 0, dd_head_dataset_obj = ws ! 1, dd_parent_obj = ws ! 2,
      dd_origin_obj = ws ! 3, dd_child_dir_zapobj = ws ! 4, dd_used_bytes = ws ! 5,
      dd_compressed_bytes = ws ! 6, dd_uncompressed_bytes = ws ! 7, dd_quota = ws ! 8,
      dd_reserved = ws ! 9, dd_props_zapobj = ws ! 10, dd_deleg_zapobj = ws ! 11, dd_flags =
      ws ! 12, dd_used_breakdown = take 5 (drop 13 ws), dd_clones = ws ! 18, dd_pad = take
      13 (drop 19 ws)\<rparr>"

interpretation dsl_dir: word_struct dsl_dir_wf dsl_dir_words words_dsl_dir 32
proof unfold_locales
  fix d assume "dsl_dir_wf d"
  then show "length (dsl_dir_words d) = 32" "words_dsl_dir (dsl_dir_words d) = d"
    by (cases d; simp add: dsl_dir_wf_def DD_USED_NUM_def dsl_dir_words_def words_dsl_dir_def nth_append)+
next
  fix ws :: "u64 list" assume l: "length ws = 32"
  then show "dsl_dir_wf (words_dsl_dir ws)"
    by (simp add: words_dsl_dir_def dsl_dir_wf_def DD_USED_NUM_def)
  have "dsl_dir_words (words_dsl_dir ws) = map ((!) ws) ([0..<13] @ [13..<19] @ [19..<32])"
    using l words_seg[of 18 ws 13] words_seg[of 32 ws 19]
    by (simp add: dsl_dir_words_def words_dsl_dir_def upt_numerals)
  then show "dsl_dir_words (words_dsl_dir ws) = ws"
    using all_words[OF l] words_split[of 13 19 32] by (simp add: upt_numerals)
qed

record dsl_dataset_phys =
  ds_dir_obj :: u64
  ds_prev_snap_obj :: u64
  ds_prev_snap_txg :: u64
  ds_next_snap_obj :: u64
  ds_snapnames_zapobj :: u64
  ds_num_children :: u64
  ds_creation_time :: u64
  ds_creation_txg :: u64
  ds_deadlist_obj :: u64
  ds_referenced_bytes :: u64
  ds_compressed_bytes :: u64
  ds_uncompressed_bytes :: u64
  ds_unique_bytes :: u64
  ds_fsid_guid :: u64
  ds_guid :: u64
  ds_flags :: u64
  ds_bp :: blkptr_t
  ds_next_clones_obj :: u64
  ds_props_obj :: u64
  ds_userrefs_obj :: u64
  ds_pad :: "u64 list"

definition dsl_dataset_wf :: "dsl_dataset_phys \<Rightarrow> bool" where
  "dsl_dataset_wf d \<longleftrightarrow> blkptr_wf (ds_bp d) \<and> length (ds_pad d) = 5"

definition dsl_dataset_words :: "dsl_dataset_phys \<Rightarrow> u64 list" where
  "dsl_dataset_words d =
     [ds_dir_obj d, ds_prev_snap_obj d, ds_prev_snap_txg d, ds_next_snap_obj d,
     ds_snapnames_zapobj d, ds_num_children d, ds_creation_time d, ds_creation_txg d,
     ds_deadlist_obj d, ds_referenced_bytes d, ds_compressed_bytes d, ds_uncompressed_bytes
     d, ds_unique_bytes d, ds_fsid_guid d, ds_guid d, ds_flags d] @ blkptr_words (ds_bp d) @
     [ds_next_clones_obj d, ds_props_obj d, ds_userrefs_obj d] @ ds_pad d"

definition words_dsl_dataset :: "u64 list \<Rightarrow> dsl_dataset_phys" where
  "words_dsl_dataset ws =
     \<lparr>ds_dir_obj = ws ! 0, ds_prev_snap_obj = ws ! 1, ds_prev_snap_txg = ws ! 2,
      ds_next_snap_obj = ws ! 3, ds_snapnames_zapobj = ws ! 4, ds_num_children = ws ! 5,
      ds_creation_time = ws ! 6, ds_creation_txg = ws ! 7, ds_deadlist_obj = ws ! 8,
      ds_referenced_bytes = ws ! 9, ds_compressed_bytes = ws ! 10, ds_uncompressed_bytes =
      ws ! 11, ds_unique_bytes = ws ! 12, ds_fsid_guid = ws ! 13, ds_guid = ws ! 14,
      ds_flags = ws ! 15, ds_bp = words_blkptr (take 16 (drop 16 ws)), ds_next_clones_obj =
      ws ! 32, ds_props_obj = ws ! 33, ds_userrefs_obj = ws ! 34, ds_pad = take 5 (drop 35
      ws)\<rparr>"

interpretation dsl_dataset: word_struct dsl_dataset_wf dsl_dataset_words words_dsl_dataset 40
proof unfold_locales
  fix d assume "dsl_dataset_wf d"
  then show "length (dsl_dataset_words d) = 40" "words_dsl_dataset (dsl_dataset_words d) = d"
    by (cases d; simp add: dsl_dataset_wf_def dsl_dataset_words_def words_dsl_dataset_def nth_append
        blkptr.to_length blkptr.of_to)+
next
  fix ws :: "u64 list" assume l: "length ws = 40"
  then show "dsl_dataset_wf (words_dsl_dataset ws)"
    by (simp add: words_dsl_dataset_def dsl_dataset_wf_def blkptr.of_wf)
  have "dsl_dataset_words (words_dsl_dataset ws) = map ((!) ws) ([0..<16] @ [16..<32] @ [32..<40])"
    using l words_seg[of 32 ws 16] words_seg[of 40 ws 35]
    by (simp add: dsl_dataset_words_def words_dsl_dataset_def blkptr_words_of upt_numerals)
  then show "dsl_dataset_words (words_dsl_dataset ws) = ws"
    using all_words[OF l] words_split[of 16 32 40] by (simp add: upt_numerals)
qed

section \<open>The ZAP header and checksummed parts\<close>

record zap_table_phys =
  zt_blk :: u64
  zt_numblks :: u64
  zt_shift :: u64
  zt_nextblk :: u64
  zt_blks_copied :: u64

record zap_phys =
  zap_block_type :: u64
  zap_magic :: u64
  zap_ptrtbl :: zap_table_phys
  zap_freeblk :: u64
  zap_num_leafs :: u64
  zap_num_entries :: u64
  zap_salt :: u64
  zap_normflags :: u64
  zap_flags :: u64

definition zap_phys_words :: "zap_phys \<Rightarrow> u64 list" where
  "zap_phys_words z =
     [zap_block_type z, zap_magic z, zt_blk (zap_ptrtbl z), zt_numblks (zap_ptrtbl z),
      zt_shift (zap_ptrtbl z), zt_nextblk (zap_ptrtbl z), zt_blks_copied (zap_ptrtbl z),
      zap_freeblk z, zap_num_leafs z, zap_num_entries z, zap_salt z, zap_normflags z,
      zap_flags z]"

definition words_zap_phys :: "u64 list \<Rightarrow> zap_phys" where
  "words_zap_phys ws =
     \<lparr>zap_block_type = ws ! 0, zap_magic = ws ! 1,
      zap_ptrtbl = \<lparr>zt_blk = ws ! 2, zt_numblks = ws ! 3, zt_shift = ws ! 4, zt_nextblk = ws
                    ! 5, zt_blks_copied = ws ! 6\<rparr>,
      zap_freeblk = ws ! 7, zap_num_leafs = ws ! 8, zap_num_entries = ws ! 9, zap_salt = ws
      ! 10, zap_normflags = ws ! 11, zap_flags = ws ! 12\<rparr>"

interpretation zap_hdr: word_struct "\<lambda>_. True" zap_phys_words words_zap_phys 13
proof unfold_locales
  fix z show "length (zap_phys_words z) = 13" "words_zap_phys (zap_phys_words z) = z"
    by (simp_all add: zap_phys_words_def words_zap_phys_def)
next
  fix ws :: "u64 list" assume l: "length ws = 13"
  have "zap_phys_words (words_zap_phys ws) = map ((!) ws) [0..<13]"
    by (simp add: zap_phys_words_def words_zap_phys_def upt_numerals)
  then show "zap_phys_words (words_zap_phys ws) = ws" using all_words[OF l] by simp
qed simp

record zio_eck =
  zec_magic :: u64
  zec_cksum :: zio_cksum_t

definition zio_eck_wf :: "zio_eck \<Rightarrow> bool" where
  "zio_eck_wf e \<longleftrightarrow> length (zc_word (zec_cksum e)) = 4"

definition zio_eck_words :: "zio_eck \<Rightarrow> u64 list" where
  "zio_eck_words e = zec_magic e # zc_word (zec_cksum e)"

definition words_zio_eck :: "u64 list \<Rightarrow> zio_eck" where
  "words_zio_eck ws = \<lparr>zec_magic = ws ! 0, zec_cksum = \<lparr>zc_word = take 4 (drop 1 ws)\<rparr>\<rparr>"

interpretation eck: word_struct zio_eck_wf zio_eck_words words_zio_eck 5
proof unfold_locales
  fix e assume "zio_eck_wf e"
  then show "length (zio_eck_words e) = 5" "words_zio_eck (zio_eck_words e) = e"
    by (simp_all add: zio_eck_wf_def zio_eck_words_def words_zio_eck_def)
next
  fix ws :: "u64 list" assume l: "length ws = 5"
  then show "zio_eck_wf (words_zio_eck ws)" by (simp add: words_zio_eck_def zio_eck_wf_def)
  show "zio_eck_words (words_zio_eck ws) = ws"
    using l by (cases ws) (simp_all add: zio_eck_words_def words_zio_eck_def)
qed

end
