(* ===== verification/Label.thy ===== *)
theory Label
  imports Ondisk
begin

text \<open>
  The vdev label of \<open>extractor/defs.h\<close>: 256K at the start of a child device, with the
  packed pool configuration in a checksummed part and the ring of uberblocks behind it.
\<close>

section \<open>The structures\<close>

definition VDEV_PHYS_SIZE :: nat where "VDEV_PHYS_SIZE = push_bit 10 112"
definition VDEV_PAD_SIZE :: nat where "VDEV_PAD_SIZE = push_bit 10 8"
definition VDEV_UBERBLOCK_RING :: nat where "VDEV_UBERBLOCK_RING = push_bit 10 128"

lemma vdev_sizes [simp]:
  "VDEV_PHYS_SIZE = 114688" "VDEV_PAD_SIZE = 8192" "VDEV_UBERBLOCK_RING = 131072"
  by (simp_all add: VDEV_PHYS_SIZE_def VDEV_PAD_SIZE_def VDEV_UBERBLOCK_RING_def push_bit_eq_mult)

record vdev_phys =
  vp_nvlist :: bytes
  vp_zbt :: zio_eck

record vdev_label =
  vl_pad1 :: bytes
  vl_pad2 :: bytes
  vl_vdev_phys :: vdev_phys
  vl_uberblock :: bytes

definition sizeof_zio_eck :: nat where "sizeof_zio_eck = 40"

definition vdev_phys_wf :: "vdev_phys \<Rightarrow> bool" where
  "vdev_phys_wf p \<longleftrightarrow> length (vp_nvlist p) = VDEV_PHYS_SIZE - sizeof_zio_eck \<and> zio_eck_wf (vp_zbt p)"

definition vdev_phys_bytes :: "vdev_phys \<Rightarrow> bytes" where
  "vdev_phys_bytes p = vp_nvlist p @ put_words (zio_eck_words (vp_zbt p))"

definition bytes_vdev_phys :: "bytes \<Rightarrow> vdev_phys" where
  "bytes_vdev_phys bs =
     \<lparr>vp_nvlist = take (VDEV_PHYS_SIZE - sizeof_zio_eck) bs,
      vp_zbt = words_zio_eck (get_words 5 (drop (VDEV_PHYS_SIZE - sizeof_zio_eck) bs))\<rparr>"

definition vdev_label_wf :: "vdev_label \<Rightarrow> bool" where
  "vdev_label_wf l \<longleftrightarrow> length (vl_pad1 l) = VDEV_PAD_SIZE \<and> length (vl_pad2 l) = VDEV_PAD_SIZE
     \<and> vdev_phys_wf (vl_vdev_phys l) \<and> length (vl_uberblock l) = VDEV_UBERBLOCK_RING"

definition vdev_label_bytes :: "vdev_label \<Rightarrow> bytes" where
  "vdev_label_bytes l =
     vl_pad1 l @ vl_pad2 l @ vdev_phys_bytes (vl_vdev_phys l) @ vl_uberblock l"

definition bytes_vdev_label :: "bytes \<Rightarrow> vdev_label" where
  "bytes_vdev_label bs =
     \<lparr>vl_pad1 = take VDEV_PAD_SIZE bs, vl_pad2 = take VDEV_PAD_SIZE (drop VDEV_PAD_SIZE bs),
      vl_vdev_phys = bytes_vdev_phys (take VDEV_PHYS_SIZE (drop (2 * VDEV_PAD_SIZE) bs)),
      vl_uberblock = drop (2 * VDEV_PAD_SIZE + VDEV_PHYS_SIZE) bs\<rparr>"

definition sizeof_vdev_label :: nat where
  "sizeof_vdev_label = 2 * VDEV_PAD_SIZE + VDEV_PHYS_SIZE + VDEV_UBERBLOCK_RING"

section \<open>They lie on disk as they are declared\<close>

interpretation vphys: codec vdev_phys_wf vdev_phys_bytes bytes_vdev_phys VDEV_PHYS_SIZE
proof unfold_locales
  fix p assume "vdev_phys_wf p"
  then show "length (vdev_phys_bytes p) = VDEV_PHYS_SIZE" "bytes_vdev_phys (vdev_phys_bytes p) = p"
    using eck.dec_enc[of "vp_zbt p"] eck.enc_length[of "vp_zbt p"]
    by (simp_all add: vdev_phys_wf_def vdev_phys_bytes_def bytes_vdev_phys_def sizeof_zio_eck_def)
next
  fix bs :: bytes assume l: "length bs = VDEV_PHYS_SIZE"
  then show "vdev_phys_wf (bytes_vdev_phys bs)"
    by (simp add: vdev_phys_wf_def bytes_vdev_phys_def sizeof_zio_eck_def eck.of_wf)
  show "vdev_phys_bytes (bytes_vdev_phys bs) = bs"
    using l eck.enc_dec[of "drop (VDEV_PHYS_SIZE - sizeof_zio_eck) bs"]
    by (simp add: vdev_phys_bytes_def bytes_vdev_phys_def sizeof_zio_eck_def)
qed

interpretation vlabel: codec vdev_label_wf vdev_label_bytes bytes_vdev_label sizeof_vdev_label
proof unfold_locales
  fix l assume "vdev_label_wf l"
  then show "length (vdev_label_bytes l) = sizeof_vdev_label"
    "bytes_vdev_label (vdev_label_bytes l) = l"
    using vphys.dec_enc[of "vl_vdev_phys l"] vphys.enc_length[of "vl_vdev_phys l"]
    by (simp_all add: vdev_label_wf_def vdev_label_bytes_def bytes_vdev_label_def sizeof_vdev_label_def)
next
  fix bs :: bytes assume l: "length bs = sizeof_vdev_label"
  then show "vdev_label_wf (bytes_vdev_label bs)"
    by (simp add: vdev_label_wf_def bytes_vdev_label_def sizeof_vdev_label_def vphys.dec_wf)
  have "bs = take 8192 bs @ take 8192 (drop 8192 bs) @ take 114688 (drop 16384 bs) @ drop 131072 bs"
    using append_take_drop_id[of 8192 bs] append_take_drop_id[of 8192 "drop 8192 bs"]
      append_take_drop_id[of 114688 "drop 16384 bs"] by (simp add: drop_drop)
  then show "vdev_label_bytes (bytes_vdev_label bs) = bs"
    using l vphys.enc_dec[of "take 114688 (drop 16384 bs)"]
    by (simp add: vdev_label_bytes_def bytes_vdev_label_def sizeof_vdev_label_def)
qed

lemma sizeof_vdev_label_eq: "sizeof_vdev_label = 262144"
  by (simp add: sizeof_vdev_label_def)

lemma ring_offset: "length bs = sizeof_vdev_label \<Longrightarrow> vl_uberblock (bytes_vdev_label bs) = drop 131072 bs"
  by (simp add: bytes_vdev_label_def)

end
