(* ===== verification/Dnode.thy ===== *)
theory Dnode
  imports Ondisk
begin

text \<open>
  The dnode of \<open>extractor/defs.h\<close>: a header of 64 bytes with fields of three widths, and a
  tail that is read as block pointers, as a bonus buffer behind the first block pointer, or
  as a bonus buffer with a spill block pointer at its end.
\<close>

section \<open>Constants\<close>

definition DNODE_SHIFT :: nat where "DNODE_SHIFT = 9"
definition DN_MIN_INDBLKSHIFT :: nat where "DN_MIN_INDBLKSHIFT = 12"
definition DN_MAX_INDBLKSHIFT :: nat where "DN_MAX_INDBLKSHIFT = 17"
definition DNODE_BLOCK_SHIFT :: nat where "DNODE_BLOCK_SHIFT = 14"
definition DNODE_CORE_SIZE :: nat where "DNODE_CORE_SIZE = 64"
definition DN_MAX_OBJECT_SHIFT :: nat where "DN_MAX_OBJECT_SHIFT = 48"
definition DN_MAX_OFFSET_SHIFT :: nat where "DN_MAX_OFFSET_SHIFT = 64"
definition DNODE_MIN_SIZE :: nat where "DNODE_MIN_SIZE = push_bit DNODE_SHIFT 1"
definition DNODE_MAX_SIZE :: nat where "DNODE_MAX_SIZE = push_bit DNODE_BLOCK_SHIFT 1"
definition DNODE_BLOCK_SIZE :: nat where "DNODE_BLOCK_SIZE = push_bit DNODE_BLOCK_SHIFT 1"
definition DNODE_MIN_SLOTS :: nat where "DNODE_MIN_SLOTS = drop_bit DNODE_SHIFT DNODE_MIN_SIZE"
definition DNODE_MAX_SLOTS :: nat where "DNODE_MAX_SLOTS = drop_bit DNODE_SHIFT DNODE_MAX_SIZE"

definition DN_BONUS_SIZE :: "int \<Rightarrow> int" where
  "DN_BONUS_SIZE dnsize = dnsize - int DNODE_CORE_SIZE - push_bit SPA_BLKPTRSHIFT 1"

definition DN_SLOTS_TO_BONUSLEN :: "int \<Rightarrow> int" where
  "DN_SLOTS_TO_BONUSLEN slots = DN_BONUS_SIZE (push_bit DNODE_SHIFT slots)"

definition DN_OLD_MAX_BONUSLEN :: int where
  "DN_OLD_MAX_BONUSLEN = DN_BONUS_SIZE (int DNODE_MIN_SIZE)"

definition DN_MAX_NBLKPTR :: nat where
  "DN_MAX_NBLKPTR = drop_bit SPA_BLKPTRSHIFT (DNODE_MIN_SIZE - DNODE_CORE_SIZE)"

definition DN_MAX_OBJECT :: u64 where "DN_MAX_OBJECT = push_bit DN_MAX_OBJECT_SHIFT 1"

definition DN_ZERO_BONUSLEN :: int where
  "DN_ZERO_BONUSLEN = DN_BONUS_SIZE (int DNODE_MAX_SIZE) + 1"

definition DN_KILL_SPILLBLK :: int where "DN_KILL_SPILLBLK = 1"

text \<open>A slot of the in-memory dnode block is a pointer or one of the first four numbers.\<close>

definition DN_SLOT_UNINIT :: u64 where "DN_SLOT_UNINIT = 0"
definition DN_SLOT_FREE :: u64 where "DN_SLOT_FREE = 1"
definition DN_SLOT_ALLOCATED :: u64 where "DN_SLOT_ALLOCATED = 2"
definition DN_SLOT_INTERIOR :: u64 where "DN_SLOT_INTERIOR = 3"
definition DN_SLOT_IS_PTR :: "u64 \<Rightarrow> bool" where "DN_SLOT_IS_PTR dn \<longleftrightarrow> dn > DN_SLOT_INTERIOR"
definition DN_SLOT_IS_VALID :: "u64 \<Rightarrow> bool" where "DN_SLOT_IS_VALID dn \<longleftrightarrow> dn \<noteq> 0"

definition DNODES_PER_BLOCK_SHIFT :: nat where
  "DNODES_PER_BLOCK_SHIFT = DNODE_BLOCK_SHIFT - DNODE_SHIFT"

definition DNODES_PER_BLOCK :: u64 where "DNODES_PER_BLOCK = push_bit DNODES_PER_BLOCK_SHIFT 1"

section \<open>The structure\<close>

record dnode_phys =
  dn_type :: u8
  dn_indblkshift :: u8
  dn_nlevels :: u8
  dn_nblkptr :: u8
  dn_bonustype :: u8
  dn_checksum :: u8
  dn_compress :: u8
  dn_flags :: u8
  dn_datablkszsec :: u16
  dn_bonuslen :: u16
  dn_extra_slots :: u8
  dn_pad2 :: bytes
  dn_maxblkid :: u64
  dn_used :: u64
  dn_pad3 :: "u64 list"
  dn_tail :: bytes

definition sizeof_dnode_phys :: nat where "sizeof_dnode_phys = 512"

definition dnode_phys_wf :: "dnode_phys \<Rightarrow> bool" where
  "dnode_phys_wf d \<longleftrightarrow> length (dn_pad2 d) = 3 \<and> length (dn_pad3 d) = 4 \<and> length (dn_tail d) = 448"

definition dnode_phys_bytes :: "dnode_phys \<Rightarrow> bytes" where
  "dnode_phys_bytes d =
     [dn_type d, dn_indblkshift d, dn_nlevels d, dn_nblkptr d, dn_bonustype d, dn_checksum d,
      dn_compress d, dn_flags d] @ le2 (dn_datablkszsec d) @ le2 (dn_bonuslen d)
     @ [dn_extra_slots d] @ dn_pad2 d @ put_words (dn_maxblkid d # dn_used d # dn_pad3 d) @ dn_tail d"

definition bytes_dnode_phys :: "bytes \<Rightarrow> dnode_phys" where
  "bytes_dnode_phys bs =
     \<lparr>dn_type = bs ! 0, dn_indblkshift = bs ! 1, dn_nlevels = bs ! 2, dn_nblkptr = bs ! 3,
      dn_bonustype = bs ! 4, dn_checksum = bs ! 5, dn_compress = bs ! 6, dn_flags = bs ! 7,
      dn_datablkszsec = get16 bs 8, dn_bonuslen = get16 bs 10, dn_extra_slots = bs ! 12,
      dn_pad2 = take 3 (drop 13 bs), dn_maxblkid = get64 bs 16, dn_used = get64 bs 24,
      dn_pad3 = get_words 4 (drop 32 bs), dn_tail = drop 64 bs\<rparr>"

text \<open>The views of the tail.\<close>

definition dn_blkptr :: "dnode_phys \<Rightarrow> nat \<Rightarrow> blkptr_t" where
  "dn_blkptr d i = words_blkptr (get_words 16 (drop (128 * i) (dn_tail d)))"

definition dn_bonus :: "dnode_phys \<Rightarrow> bytes" where
  "dn_bonus d = drop 128 (dn_tail d)"

definition dn_spill :: "dnode_phys \<Rightarrow> blkptr_t" where
  "dn_spill d = words_blkptr (get_words 16 (drop (128 + (nat DN_OLD_MAX_BONUSLEN - 128)) (dn_tail d)))"

section \<open>It lies on disk as it is declared\<close>

lemma get_words_6: "get_words 6 bs = get64 bs 0 # get64 bs 8 # get_words 4 (drop 16 bs)"
  by (simp add: get_words_def get64_def drop_drop upt_numerals)

lemma le2_get16: "k + 2 \<le> length bs \<Longrightarrow> le2 (get16 bs k) = take 2 (drop k bs)"
proof -
  assume k: "k + 2 \<le> length bs"
  have "take 2 (drop k bs) = [bs ! k, bs ! (k + 1)]"
    using k by (intro nth_equalityI) (auto simp: less_2_cases_iff)
  then show ?thesis by (simp add: get16_def value_le2)
qed

lemma dnode_bytes_length: "dnode_phys_wf d \<Longrightarrow> length (dnode_phys_bytes d) = sizeof_dnode_phys"
  by (simp add: dnode_phys_bytes_def dnode_phys_wf_def sizeof_dnode_phys_def)

lemma dnode_dec_enc:
  assumes d: "dnode_phys_wf d"
  shows "bytes_dnode_phys (dnode_phys_bytes d) = d"
proof -
  obtain a b c where p: "dn_pad2 d = [a, b, c]" using d by (auto simp: dnode_phys_wf_def length_3)
  have ws: "length (dn_maxblkid d # dn_used d # dn_pad3 d) = 6" using d by (simp add: dnode_phys_wf_def)
  let ?w = "put_words (dn_maxblkid d # dn_used d # dn_pad3 d)"
  have lw: "length ?w = 48" using ws by simp
  have w: "get64 (?w @ dn_tail d) 0 = dn_maxblkid d" "get64 (?w @ dn_tail d) 8 = dn_used d"
    "get_words 4 (drop 16 (?w @ dn_tail d)) = dn_pad3 d"
    using get_words_put[of "dn_maxblkid d # dn_used d # dn_pad3 d" "dn_tail d"]
    unfolding ws get_words_6 by simp_all
  have at: "drop 16 (dnode_phys_bytes d) = ?w @ dn_tail d"
    by (simp add: dnode_phys_bytes_def p le2_def)
  have g: "get64 (dnode_phys_bytes d) 16 = dn_maxblkid d" "get64 (dnode_phys_bytes d) 24 = dn_used d"
    "get_words 4 (drop 32 (dnode_phys_bytes d)) = dn_pad3 d"
    using w[folded at] by (simp_all add: get64_def drop_drop)
  have t: "drop 64 (dnode_phys_bytes d) = dn_tail d"
    using at lw drop_drop[of 48 16 "dnode_phys_bytes d"] by simp
  have h: "get16 (dnode_phys_bytes d) 8 = dn_datablkszsec d" "get16 (dnode_phys_bytes d) 10 = dn_bonuslen d"
    by (simp_all add: get16_def dnode_phys_bytes_def le2_def le2_value)
  show ?thesis
    unfolding bytes_dnode_phys_def g t h
    using d by (cases d) (simp add: dnode_phys_bytes_def dnode_phys_wf_def le2_def)
qed

lemma dnode_enc_dec:
  assumes l: "length bs = sizeof_dnode_phys"
  shows "dnode_phys_bytes (bytes_dnode_phys bs) = bs"
proof -
  have w: "get64 bs 16 # get64 bs 24 # get_words 4 (drop 32 bs) = get_words 6 (drop 16 bs)"
    by (simp add: get_words_6 get64_def drop_drop)
  have pw: "put_words (get_words 6 (drop 16 bs)) = take 48 (drop 16 bs)"
  proof -
    have "get_words 6 (drop 16 bs) = get_words 6 (take 48 (drop 16 bs))"
      by (simp add: get_words_def get64_def upt_numerals take_drop)
    then show ?thesis using put_words_get[of "take 48 (drop 16 bs)" 6] l
      by (simp add: sizeof_dnode_phys_def)
  qed
  have h8: "[bs ! 0, bs ! 1, bs ! 2, bs ! 3, bs ! 4, bs ! 5, bs ! 6, bs ! 7] = take 8 bs"
    using words_seg[of 8 bs 0] l by (simp add: sizeof_dnode_phys_def upt_numerals)
  have e: "[bs ! 12] = take 1 (drop 12 bs)"
    using words_seg[of 13 bs 12] l by (simp add: sizeof_dnode_phys_def)
  have le: "le2 (get16 bs 8) = take 2 (drop 8 bs)" "le2 (get16 bs 10) = take 2 (drop 10 bs)"
    using l by (simp_all add: le2_get16 sizeof_dnode_phys_def)
  have "dnode_phys_bytes (bytes_dnode_phys bs) = take 8 bs @ take 2 (drop 8 bs) @ take 2 (drop 10 bs)
      @ take 1 (drop 12 bs) @ take 3 (drop 13 bs) @ take 48 (drop 16 bs) @ drop 64 bs"
    unfolding dnode_phys_bytes_def bytes_dnode_phys_def dnode_phys.simps h8 e le w pw by simp
  also have "\<dots> = bs"
    using append_take_drop_id[of 8 bs] append_take_drop_id[of 2 "drop 8 bs"]
      append_take_drop_id[of 2 "drop 10 bs"] append_take_drop_id[of 1 "drop 12 bs"]
      append_take_drop_id[of 3 "drop 13 bs"] append_take_drop_id[of 48 "drop 16 bs"]
    by (simp add: drop_drop)
  finally show "dnode_phys_bytes (bytes_dnode_phys bs) = bs" .
qed

interpretation dnode: codec dnode_phys_wf dnode_phys_bytes bytes_dnode_phys sizeof_dnode_phys
proof unfold_locales
  fix bs :: bytes assume "length bs = sizeof_dnode_phys"
  then show "dnode_phys_wf (bytes_dnode_phys bs)"
    by (simp add: dnode_phys_wf_def bytes_dnode_phys_def sizeof_dnode_phys_def)
qed (simp_all add: dnode_bytes_length dnode_dec_enc dnode_enc_dec)

lemma dn_constants:
  "DN_OLD_MAX_BONUSLEN = 320" "DN_MAX_NBLKPTR = 3" "DNODES_PER_BLOCK = 32" "DN_ZERO_BONUSLEN = 16193"
  by (simp_all add: DN_OLD_MAX_BONUSLEN_def DN_BONUS_SIZE_def DNODE_MIN_SIZE_def DNODE_SHIFT_def
      DNODE_CORE_SIZE_def SPA_BLKPTRSHIFT_def DN_MAX_NBLKPTR_def DNODES_PER_BLOCK_def
      DNODES_PER_BLOCK_SHIFT_def DNODE_BLOCK_SHIFT_def DN_ZERO_BONUSLEN_def DNODE_MAX_SIZE_def
      push_bit_eq_mult drop_bit_eq_div)

end
