(* ===== verification/Extractor.thy ===== *)
theory Extractor
  imports Device Label Dnode Dmu
begin

text \<open>
  The rest of \<open>Raidz1Device\<close> (\<open>extractor/zio.cpp\<close>) and what \<open>main\<close> does with it: reading a
  label into the table of uberblocks, following a block pointer, loading a dnode and the
  meta object set. A C++ pointer is an option; \<open>std::map\<close> is a map whose \<open>[]\<close> puts a zeroed
  uberblock under a missing key. \<open>loadLabel\<close>, \<open>loadMos\<close> and \<open>loadChildDS\<close> are declared \<open>int\<close> and
  have no \<open>return\<close>: they end in \<open>fall_off std\<close>, undefined under the C++ standard and with the
  effect of the function in the makefile's build (no caller looks at a value).
\<close>

section \<open>The device\<close>

record raidz1_device =
  vdevs :: "string list"
  tgxs :: "u64 \<rightharpoonup> uberblock"
  datasets :: "u64 \<rightharpoonup> dnode_phys"

definition Raidz1Device :: "string list \<Rightarrow> stop + raidz1_device" where
  "Raidz1Device vs =
     andthen (ASSERT (length vs = unat DCOLS)) (\<lambda>_.
       Inr \<lparr>vdevs = vs, tgxs = Map.empty, datasets = Map.empty\<rparr>)"

section \<open>The label\<close>

text \<open>Reading a structure out of memory: every byte of it must have been written.\<close>

definition load_bytes :: "cells \<Rightarrow> nat \<Rightarrow> nat \<Rightarrow> stop + bytes" where
  "load_bytes m k n =
     (let part = take n (drop k m)
      in if length part = n \<and> list_all (\<lambda>c. c \<noteq> None) part then Inr (map the part) else Inl Undefined)"

definition sizeof_uberblock :: nat where "sizeof_uberblock = 208"

definition load_uberblock :: "cells \<Rightarrow> nat \<Rightarrow> stop + uberblock" where
  "load_uberblock m k =
     andthen (load_bytes m k sizeof_uberblock) (\<lambda>bs. Inr (words_uberblock (get_words 26 bs)))"

fun load_ring :: "cells \<Rightarrow> nat \<Rightarrow> nat \<Rightarrow> nat \<Rightarrow> (u64 \<rightharpoonup> uberblock) \<Rightarrow> stop + (u64 \<rightharpoonup> uberblock)" where
  "load_ring ring usz i 0 t = Inr t"
| "load_ring ring usz i (Suc n) t =
     andthen (load_uberblock ring (i * usz)) (\<lambda>u. load_ring ring usz (i + 1) n (t(ub_txg u \<mapsto> u)))"

text \<open>The label is on the stack: \<open>sizeof (vdev_label_t)\<close> bytes, unwritten before the read. The
  call of \<open>read_at\<close>, which may run off its end, is the first step.\<close>

definition loadLabel :: "bool \<Rightarrow> disks \<Rightarrow> nat \<Rightarrow> nat \<Rightarrow> raidz1_device \<Rightarrow> stop + raidz1_device" where
  "loadLabel std disk dev labidx r =
     (if length (vdevs r) \<le> dev then Inl Undefined
      else andthen (fall_off std (disk dev 0 sizeof_vdev_label)) (\<lambda>bs.
        let l = arrived sizeof_vdev_label bs;
            usz = push_bit (unat ASHIFT) 1;
            ucnt = VDEV_UBERBLOCK_RING div usz;
            ring = drop (2 * VDEV_PAD_SIZE + VDEV_PHYS_SIZE) l
        in andthen (load_ring ring usz 0 ucnt (tgxs r)) (\<lambda>t. fall_off std (r\<lparr>tgxs := t\<rparr>))))"

section \<open>Block pointers and dnodes\<close>

definition dva_asize :: "dva_t \<Rightarrow> u64" where
  "dva_asize d = push_bit 9 (dva_word d ! 0 AND 0xffffff)"

definition dva_offset :: "dva_t \<Rightarrow> u64" where
  "dva_offset d = dva_word d ! 1 AND 0x7fffffffffffffff"

fun load_dvas :: "bool \<Rightarrow> nat \<Rightarrow> disks \<Rightarrow> dva_t list \<Rightarrow> heap \<Rightarrow> stop + nat option \<times> heap" where
  "load_dvas std nvdevs disk [] h = Inr (None, h)"
| "load_dvas std nvdevs disk (d # ds) h =
     andthen (read_physical std nvdevs disk (dva_offset d) (dva_asize d) h) (\<lambda>(p, h).
       let c = Some p in if c \<noteq> None then Inr (c, h) else load_dvas std nvdevs disk ds h)"

definition loadBlkPtr :: "bool \<Rightarrow> nat \<Rightarrow> disks \<Rightarrow> blkptr_t \<Rightarrow> heap \<Rightarrow> stop + nat option \<times> heap" where
  "loadBlkPtr std nvdevs disk p h =
     (if length (blk_dva p) < 3 then Inl Undefined else load_dvas std nvdevs disk (take 3 (blk_dva p)) h)"

text \<open>The byte \<open>d->dn_type\<close> of a buffer: it must exist, what it holds decides nothing.\<close>

definition abd_byte :: "heap \<Rightarrow> nat \<Rightarrow> nat \<Rightarrow> stop + u8 option" where
  "abd_byte h p k =
     (case live_abd h p of None \<Rightarrow> Inl Undefined
      | Some a \<Rightarrow>
          (case live_buf h (fst (abd_buf a)) of None \<Rightarrow> Inl Undefined
           | Some m \<Rightarrow> if snd (abd_buf a) + k < length m then Inr (m ! (snd (abd_buf a) + k))
                     else Inl Undefined))"

text \<open>A \<open>DNode\<close> object and its subclass part: the count of a \<open>DSLDataset\<close>.\<close>

record dnode_obj =
  do_phys :: dnode_phys
  do_cnt :: u64

definition DMU_OT_DSL_DIR :: u8 where "DMU_OT_DSL_DIR = 12"
definition DMU_OT_DSL_DATASET :: u8 where "DMU_OT_DSL_DATASET = 16"
definition DMU_OT_OBJECT_DIRECTORY :: u8 where "DMU_OT_OBJECT_DIRECTORY = 1"

definition loadDnode :: "bool \<Rightarrow> nat \<Rightarrow> disks \<Rightarrow> blkptr_t \<Rightarrow> heap \<Rightarrow> stop + dnode_obj option \<times> heap" where
  "loadDnode std nvdevs disk p h =
     andthen (loadBlkPtr std nvdevs disk p h) (\<lambda>(c, h).
       (case c of None \<Rightarrow> Inr (None, h)
        | Some c \<Rightarrow>
            andthen (abd_byte h c 0) (\<lambda>t.
              if t = Some DMU_OT_DSL_DIR then Inr (None, h)
              else if t = Some DMU_OT_DSL_DATASET then Inr (None, h)
              else Inr (None, h))))"

section \<open>The meta object set\<close>

definition dnode_type :: "dnode_obj option \<Rightarrow> stop + u8" where
  "dnode_type d = (case d of None \<Rightarrow> Inl Undefined | Some d \<Rightarrow> Inr (dn_type (do_phys d)))"

text \<open>\<open>DSLDataset::operator[]\<close> and \<open>Zap::operator[]\<close> as they are in the headers.\<close>

definition dataset_at :: "dnode_obj \<Rightarrow> u64 \<Rightarrow> dnode_obj option" where
  "dataset_at mos i = None"

definition zap_at :: "string \<Rightarrow> u64" where
  "zap_at key = 0"

fun scan_datasets :: "dnode_obj \<Rightarrow> nat \<Rightarrow> nat \<Rightarrow> (u64 \<rightharpoonup> dnode_phys) \<Rightarrow> stop + (u64 \<rightharpoonup> dnode_phys)" where
  "scan_datasets mos i 0 ds = Inr ds"
| "scan_datasets mos i (Suc n) ds =
     (case dataset_at mos (word_of_nat i) of
        None \<Rightarrow> scan_datasets mos (i + 1) n ds
      | Some e \<Rightarrow> scan_datasets mos (i + 1) n
          (if dn_type (do_phys e) = DMU_OT_DSL_DATASET then ds(word_of_nat i \<mapsto> do_phys e) else ds))"

definition zero_uberblock :: uberblock where
  "zero_uberblock = words_uberblock (replicate 26 0)"

definition load_objects :: "dnode_obj option \<Rightarrow> raidz1_device \<Rightarrow> stop + raidz1_device" where
  "load_objects d r =
     andthen (dnode_type d) (\<lambda>t.
     andthen (ASSERT (t = DMU_OT_DSL_DATASET)) (\<lambda>_.
       (case d of None \<Rightarrow> Inl Undefined
        | Some mos \<Rightarrow>
            andthen (scan_datasets mos 0 (unat (do_cnt mos)) (datasets r)) (\<lambda>ds.
              let root_ds = dataset_at mos 1
              in andthen (dnode_type root_ds) (\<lambda>t.
                 andthen (ASSERT (t = DMU_OT_OBJECT_DIRECTORY)) (\<lambda>_.
                   let rdir = dataset_at mos (zap_at ''root_dataset'')
                   in Inr (r\<lparr>datasets := ds\<rparr>)))))))"

definition loadMos :: "bool \<Rightarrow> disks \<Rightarrow> u64 \<Rightarrow> raidz1_device \<Rightarrow> heap \<Rightarrow> stop + raidz1_device \<times> heap" where
  "loadMos std disk tgx r h =
     (let u = (case tgxs r tgx of None \<Rightarrow> zero_uberblock | Some u \<Rightarrow> u);
          r = r\<lparr>tgxs := (tgxs r)(tgx \<mapsto> u)\<rparr>
      in andthen (loadDnode std (length (vdevs r)) disk (ub_rootbp u) h) (\<lambda>(d, h).
         andthen (load_objects d r) (\<lambda>r. fall_off std (r, h))))"

text \<open>What \<open>main\<close> does once it has the list of files; \<open>loadChildDS\<close> is empty.\<close>

definition loadChildDS :: "bool \<Rightarrow> u64 \<Rightarrow> raidz1_device \<Rightarrow> stop + raidz1_device" where
  "loadChildDS std dsid r = fall_off std r"

definition extract_main :: "bool \<Rightarrow> disks \<Rightarrow> string list \<Rightarrow> u64 \<Rightarrow> stop + raidz1_device" where
  "extract_main std disk vs dsid =
     andthen (Raidz1Device vs) (\<lambda>r.
     andthen (loadLabel std disk 0 0 r) (\<lambda>r.
     andthen (loadMos std disk 2937 r \<lparr>hp_bufs = [], hp_abds = []\<rparr>) (\<lambda>(r, h).
       loadChildDS std dsid r)))"

end
