(* ===== verification/Extractor_Props.thy ===== *)
theory Extractor_Props
  imports Extractor Blkptr_Props
begin

text \<open>
  What the extractor does: the address map is right, a read delivers the data columns and
  gives back every temporary buffer, a label fills the table of uberblocks, block pointers
  are followed through their first DVA only, and no run gets past the meta object set.
\<close>

section \<open>The address map and one read\<close>

lemma ceil_div:
  fixes s d :: nat
  assumes d: "0 < d"
  shows "(s + (d - 1)) div d = s div d + (if s mod d = 0 then 0 else 1)"
proof (cases "s mod d = 0")
  case True
  then show ?thesis using div_add1_eq[of s "d - 1" d] d by simp
next
  case False
  then obtain r where r: "s mod d = Suc r" by (cases "s mod d") auto
  then have "r < d" using mod_less_divisor[OF d, of s] by simp
  moreover have "Suc r + (d - 1) = r + d" using d by simp
  ultimately have "(s mod d + (d - 1)) div d = 1" using d unfolding r by (simp add: div_add_self2)
  then show ?thesis using False div_add1_eq[of s "d - 1" d] d by simp
qed

lemma rz_tot_rows: "P < D \<Longrightarrow> rz_tot D P s = s + P * ((s + (D - P - 1)) div (D - P))"
  by (simp only: ceil_div zero_less_diff rz_tot_def rz_q_def rz_r_def)

lemma data_cols_sum:
  fixes sw :: bool and p :: nat
  assumes ok: "raidz_request_ok ofs sz A D P"
  shows "sum_list (map (\<lambda>c. unat (rc_size c))
      (drop P (used_cols (swap_if sw (rz_map p A D P (sz div 2 ^ A) (ofs div 2 ^ A)))))) = sz div 2 ^ A * 2 ^ A"
proof -
  let ?s = "sz div 2 ^ A"
  have pd: "1 \<le> P" "P < D" using ok by (simp_all add: raidz_request_ok_def)
  have "sum_list (map (\<lambda>c. unat (rc_size c)) (drop P (used_cols (swap_if sw (rz_map p A D P ?s (ofs div 2 ^ A))))))
      = sum_list (map (\<lambda>c. rz_len D P ?s c * 2 ^ A) [P..<rz_acols D P ?s])"
    unfolding swap_if_used(2)[OF ok] drop_map drop_upt map_map
    using rz_len_bound[OF ok] by (intro arg_cong[where f = sum_list] map_cong)
      (simp_all add: map_col_nth(2)[OF ok] unat_W)
  also have "\<dots> = (\<Sum>c = P..<rz_acols D P ?s. rz_len D P ?s c) * 2 ^ A"
    by (simp add: sum_list_distinct_conv_sum_set sum_distrib_right)
  finally show ?thesis using rz_len_data_sum[OF pd ok_sectors(1)[OF ok]] by simp
qed

text \<open>C4: For every request within the bounds (single or more parity, at least one
  sector), \<open>vdev_raidz_map_alloc\<close> returns a map with no assertion failing: its columns lie
  on distinct children and occupy exactly the run of sectors that starts at the request's
  offset and holds its data sectors and one parity sector per row and parity column, and
  the data columns together have the size of the request in whole sectors.\<close>

theorem raidz_map_places:
  assumes ok: "raidz_request_ok ofs sz A D P"
    and zio: "io_offset zio = W ofs" "io_size zio = W sz"
    and live: "live_abd h (io_abd zio) \<noteq> None"
  shows "\<exists>rm h'. vdev_raidz_map_alloc zio (W A) (W D) (W P) h = Inr (rm, h')
    \<and> (\<Union>c \<in> set (used_cols rm). col_sectors A D c)
        = {ofs div 2 ^ A ..< ofs div 2 ^ A + (sz div 2 ^ A + P * ((sz div 2 ^ A + (D - P - 1)) div (D - P)))}
    \<and> distinct (map rc_devidx (used_cols rm)) \<and> (\<forall>c \<in> set (used_cols rm). unat (rc_devidx c) < D)
    \<and> sum_list (map (\<lambda>c. unat (rc_size c)) (drop P (used_cols rm))) = sz div 2 ^ A * 2 ^ A"
proof -
  obtain sa where sa: "live_abd h (io_abd zio) = Some sa" using live by auto
  let ?sw = "W P = 1 \<and> io_offset zio AND push_bit 20 1 \<noteq> 0"
  let ?rm = "swap_if ?sw (rz_map (length (hp_abds h)) A D P (sz div 2 ^ A) (ofs div 2 ^ A))"
  have "P < D" using ok by (simp add: raidz_request_ok_def)
  note tot = rz_tot_rows[OF this]
  have "vdev_raidz_map_alloc zio (W A) (W D) (W P) h
      = Inr (?rm, rz_heap (io_abd zio) sa A D P (sz div 2 ^ A) h)"
    using map_alloc_eq[OF ok zio sa] by (simp add: swap_if_def Let_def)
  then show ?thesis
    using map_cols_cover[OF ok, of ?sw] map_cols_apart[OF ok, of ?sw] data_cols_sum[OF ok, of ?sw]
    unfolding tot by blast
qed

theorem raidz_map_places_witness:
  "\<exists>rm h'. vdev_raidz_map_alloc \<lparr>io_offset = W 0x15a000, io_size = W 0x5000, io_abd = 0, io_vsd = None\<rparr>
        (W 12) (W 3) (W 1) (snd (abd_alloc_linear 0x5000 \<lparr>hp_bufs = [], hp_abds = []\<rparr>)) = Inr (rm, h')
    \<and> (\<Union>c \<in> set (used_cols rm). col_sectors 12 3 c)
        = {0x15a000 div 2 ^ 12 ..< 0x15a000 div 2 ^ 12 + (0x5000 div 2 ^ 12 + 1 * ((0x5000 div 2 ^ 12 + (3 - 1 - 1)) div (3 - 1)))}
    \<and> distinct (map rc_devidx (used_cols rm)) \<and> (\<forall>c \<in> set (used_cols rm). unat (rc_devidx c) < 3)
    \<and> sum_list (map (\<lambda>c. unat (rc_size c)) (drop 1 (used_cols rm))) = 0x5000 div 2 ^ 12 * 2 ^ 12"
  by (rule raidz_map_places) (simp_all add: raidz_request_ok_def abd_alloc_linear_eq live_abd_def)

text \<open>C5: A read of at least one sector from a device of three files. As the makefile builds
  the program (\<open>read_at\<close> comes back from its end with an unspecified value that nothing
  looks at) it returns a buffer that holds the data columns one after the other, each as
  its child delivers it, and everything else the read allocated (the map's parity buffer
  and all column headers) has been freed; the caller's buffers are untouched. By the C++
  standard the read is undefined at the end of its first \<open>read_at\<close>, which has no \<open>return\<close>.\<close>

theorem read_physical_delivers:
  assumes "disk_ok disk" and "3 \<le> nvdevs"
    and "4096 \<le> unat psize" and "unat psize \<le> 2 ^ 34" and "unat ofs < 2 ^ 63"
  shows "(\<exists>n. read_physical False nvdevs disk ofs psize h = Inr (length (hp_abds h),
      \<lparr>hp_bufs = hp_bufs h @ [Some (read_cells disk ofs psize), None],
       hp_abds = hp_abds h @ Some (own_abd psize (length (hp_bufs h))) # replicate n None\<rparr>))
    \<and> read_physical True nvdevs disk ofs psize h = Inl Undefined"
  using read_physical_eq[OF assms] read_physical_std[OF assms(3-5)] by blast

theorem read_physical_delivers_witness:
  "(\<exists>n. read_physical False 3 (\<lambda>d ofs n. replicate n (of_nat (d + 1))) 0x15a000 0x3000 \<lparr>hp_bufs = [], hp_abds = []\<rparr>
      = Inr (length (hp_abds \<lparr>hp_bufs = [], hp_abds = []\<rparr>),
      \<lparr>hp_bufs = hp_bufs \<lparr>hp_bufs = [], hp_abds = []\<rparr>
         @ [Some (read_cells (\<lambda>d ofs n. replicate n (of_nat (d + 1))) 0x15a000 0x3000), None],
       hp_abds = hp_abds \<lparr>hp_bufs = [], hp_abds = []\<rparr>
         @ Some (own_abd 0x3000 (length (hp_bufs \<lparr>hp_bufs = [], hp_abds = []\<rparr>))) # replicate n None\<rparr>))
    \<and> read_physical True 3 (\<lambda>d ofs n. replicate n (of_nat (d + 1))) 0x15a000 0x3000 \<lparr>hp_bufs = [], hp_abds = []\<rparr>
      = Inl Undefined"
  by (rule read_physical_delivers) (simp_all add: disk_ok_def)

text \<open>A read of less than one sector, as a hole's or an empty DVA asks for, has
  no columns: the map's first column is used outside of its array.\<close>

theorem read_physical_below_sector:
  assumes "unat psize < 4096"
  shows "read_physical std nvdevs disk ofs psize h = Inl Undefined"
proof -
  have "unat (drop_bit 12 psize) = 0"
    using assms by (simp only: unat_drop_bit_eq) (simp add: drop_bit_eq_div)
  then have "drop_bit 12 psize = 0" by (simp only: unat_eq_0)
  then show ?thesis
    by (simp add: read_physical_def abd_alloc_linear_eq vdev_raidz_map_alloc_def ASHIFT_def DCOLS_def
        NPARITY_def Let_def u64_min_def roundup_def ASSERT_def)
qed

theorem read_physical_below_sector_witness:
  "read_physical False 3 (\<lambda>d ofs n. []) 0 0 \<lparr>hp_bufs = [], hp_abds = []\<rparr> = Inl Undefined"
  by (rule read_physical_below_sector) simp

section \<open>The label\<close>

definition ring_slot :: "bytes \<Rightarrow> nat \<Rightarrow> uberblock" where
  "ring_slot ring i = words_uberblock (get_words 26 (take 208 (drop (i * 4096) ring)))"

definition put_ub :: "(u64 \<rightharpoonup> uberblock) \<Rightarrow> uberblock \<Rightarrow> u64 \<rightharpoonup> uberblock" where
  "put_ub t u = t(ub_txg u \<mapsto> u)"

lemma load_bytes_written: "k + n \<le> length bs \<Longrightarrow> load_bytes (map Some bs) k n = Inr (take n (drop k bs))"
  by (simp add: load_bytes_def take_map drop_map list_all_iff comp_def)

lemma load_ring_written:
  "(i + n) * 4096 \<le> length ring \<Longrightarrow>
    load_ring (map Some ring) 4096 i n t = Inr (foldl put_ub t (map (ring_slot ring) [i..<i + n]))"
proof (induction n arbitrary: i t)
  case (Suc n)
  have "load_uberblock (map Some ring) (i * 4096) = Inr (ring_slot ring i)"
    using Suc.prems by (simp add: load_uberblock_def load_bytes_written sizeof_uberblock_def ring_slot_def)
  moreover have "[i..<i + Suc n] = i # [i + 1..<i + 1 + n]" by (simp add: upt_conv_Cons)
  ultimately show ?case
    using Suc.IH[of "i + 1"] Suc.prems by (simp add: put_ub_def[symmetric] del: upt_Suc)
qed simp

lemma last_put:
  "foldl put_ub t us k = (case filter (\<lambda>u. ub_txg u = k) us of [] \<Rightarrow> t k | v # vs \<Rightarrow> Some (last (v # vs)))"
  by (induction us rule: rev_induct) (auto simp: put_ub_def split: list.splits)

lemma loadLabel_full:
  assumes "dev < length (vdevs r)" and l: "length (disk dev 0 sizeof_vdev_label) = sizeof_vdev_label"
  shows "loadLabel False disk dev labidx r = Inr (r\<lparr>tgxs := foldl put_ub (tgxs r)
    (map (ring_slot (vl_uberblock (bytes_vdev_label (disk dev 0 sizeof_vdev_label)))) [0..<32])\<rparr>)"
proof -
  let ?bs = "disk dev 0 sizeof_vdev_label"
  have "arrived sizeof_vdev_label ?bs = map Some ?bs" using l by (simp add: arrived_def)
  moreover have "drop (2 * VDEV_PAD_SIZE + VDEV_PHYS_SIZE) ?bs = vl_uberblock (bytes_vdev_label ?bs)"
    by (simp add: bytes_vdev_label_def)
  moreover have "(0 + 32) * 4096 \<le> length (vl_uberblock (bytes_vdev_label ?bs))"
    using l by (simp add: bytes_vdev_label_def sizeof_vdev_label_def)
  from load_ring_written[OF this] have "load_ring (map Some (vl_uberblock (bytes_vdev_label ?bs))) 4096 0 32 (tgxs r)
    = Inr (foldl put_ub (tgxs r) (map (ring_slot (vl_uberblock (bytes_vdev_label ?bs))) [0..<32]))" by simp
  moreover have "push_bit (unat ASHIFT) 1 = (4096 :: nat)" by (simp add: ASHIFT_def push_bit_eq_mult)
  ultimately show ?thesis using assms(1) by (simp add: loadLabel_def drop_map)
qed

text \<open>A ring whose slots were written from uberblocks holds these uberblocks.\<close>

definition slot_bytes :: "uberblock \<times> bytes \<Rightarrow> bytes" where
  "slot_bytes s = put_words (uberblock_words (fst s)) @ snd s"

definition slot_ok :: "uberblock \<times> bytes \<Rightarrow> bool" where
  "slot_ok s \<longleftrightarrow> uberblock_wf (fst s) \<and> length (snd s) = 4096 - sizeof_uberblock"

lemma length_slot: "slot_ok s \<Longrightarrow> length (slot_bytes s) = 4096"
  using uberblock.enc_length[of "fst s"] by (simp add: slot_ok_def slot_bytes_def sizeof_uberblock_def)

lemma length_slots: "list_all slot_ok ss \<Longrightarrow> length (concat (map slot_bytes ss)) = 4096 * length ss"
  by (induction ss) (simp_all add: length_slot)

lemma drop_slots:
  "list_all slot_ok ss \<Longrightarrow> i < length ss \<Longrightarrow>
    drop (i * 4096) (concat (map slot_bytes ss)) = slot_bytes (ss ! i) @ concat (map slot_bytes (drop (Suc i) ss))"
proof -
  assume ok: "list_all slot_ok ss" and i: "i < length ss"
  have "concat (map slot_bytes ss) = concat (map slot_bytes (take i ss)) @ slot_bytes (ss ! i)
      @ concat (map slot_bytes (drop (Suc i) ss))"
    by (subst id_take_nth_drop[OF i]) simp
  moreover have "list_all slot_ok (take i ss)" using ok by (auto simp: list_all_iff dest: in_set_takeD)
  from length_slots[OF this] have "length (concat (map slot_bytes (take i ss))) = i * 4096"
    using i by (simp add: mult.commute)
  ultimately show ?thesis by simp
qed

lemma ring_slot_written:
  assumes ok: "list_all slot_ok ss" and i: "i < length ss"
  shows "ring_slot (concat (map slot_bytes ss)) i = fst (ss ! i)"
proof -
  have s: "slot_ok (ss ! i)" using ok i by (simp add: list_all_length)
  then have "length (put_words (uberblock_words (fst (ss ! i)))) = 208"
    using uberblock.enc_length[of "fst (ss ! i)"] by (simp add: slot_ok_def)
  then have "take 208 (drop (i * 4096) (concat (map slot_bytes ss))) = put_words (uberblock_words (fst (ss ! i)))"
    unfolding drop_slots[OF ok i] slot_bytes_def by simp
  then show ?thesis using uberblock.dec_enc[of "fst (ss ! i)"] s by (simp add: ring_slot_def slot_ok_def)
qed

lemma loadLabel_std: "loadLabel True disk dev labidx r = Inl Undefined"
  by (simp add: loadLabel_def)

text \<open>C28: From a child whose label was written with the 32 uberblocks \<open>ss\<close> in its ring, each
  in a slot of one sector, \<open>loadLabel\<close> as the makefile builds it puts into the table, under
  every transaction group, the last of these uberblocks with that number, whatever its
  magic, and keeps what the table had for all other groups. By the C++ standard the call
  is undefined, like every call of a function that runs off its end.\<close>

theorem loadLabel_roundtrip:
  assumes "dev < length (vdevs r)" and "vdev_label_wf l"
    and "disk dev 0 sizeof_vdev_label = vdev_label_bytes l"
    and "vl_uberblock l = concat (map slot_bytes ss)" and "length ss = 32" and "list_all slot_ok ss"
  shows "(\<exists>r'. loadLabel False disk dev labidx r = Inr r' \<and> vdevs r' = vdevs r \<and> datasets r' = datasets r
      \<and> (\<forall>k. tgxs r' k = (case filter (\<lambda>u. ub_txg u = k) (map fst ss) of
                [] \<Rightarrow> tgxs r k | v # vs \<Rightarrow> Some (last (v # vs)))))
    \<and> loadLabel True disk dev labidx r = Inl Undefined"
proof -
  have "map (ring_slot (vl_uberblock l)) [0..<32] = map fst ss"
    using assms(5) ring_slot_written[OF assms(6)] by (intro nth_equalityI) (simp_all add: assms(4))
  moreover have "bytes_vdev_label (vdev_label_bytes l) = l" by (rule vlabel.dec_enc[OF assms(2)])
  moreover have "length (vdev_label_bytes l) = sizeof_vdev_label" by (rule vlabel.enc_length[OF assms(2)])
  ultimately show ?thesis
    using loadLabel_full[OF assms(1), of disk] assms(3) by (simp add: last_put loadLabel_std)
qed

definition example_label :: "(uberblock \<times> bytes) list \<Rightarrow> vdev_label" where
  "example_label ss =
     \<lparr>vl_pad1 = replicate 8192 0, vl_pad2 = replicate 8192 0,
      vl_vdev_phys = \<lparr>vp_nvlist = replicate 114648 0, vp_zbt = \<lparr>zec_magic = 0, zec_cksum = \<lparr>zc_word = [0, 0, 0, 0]\<rparr>\<rparr>\<rparr>,
      vl_uberblock = concat (map slot_bytes ss)\<rparr>"

definition example_slots :: "(uberblock \<times> bytes) list" where
  "example_slots = replicate 31 (zero_uberblock, replicate 3888 0) @ [(zero_uberblock\<lparr>ub_txg := 2937\<rparr>, replicate 3888 0)]"

theorem loadLabel_roundtrip_witness:
  "(\<exists>r'. loadLabel False (\<lambda>d ofs n. vdev_label_bytes (example_label example_slots)) 0 0
        \<lparr>vdevs = [''a'', ''b'', ''c''], tgxs = Map.empty, datasets = Map.empty\<rparr> = Inr r'
    \<and> vdevs r' = vdevs \<lparr>vdevs = [''a'', ''b'', ''c''], tgxs = Map.empty, datasets = Map.empty\<rparr>
    \<and> datasets r' = datasets \<lparr>vdevs = [''a'', ''b'', ''c''], tgxs = Map.empty, datasets = Map.empty\<rparr>
    \<and> (\<forall>k. tgxs r' k = (case filter (\<lambda>u. ub_txg u = k) (map fst example_slots) of
         [] \<Rightarrow> tgxs \<lparr>vdevs = [''a'', ''b'', ''c''], tgxs = Map.empty, datasets = Map.empty\<rparr> k
       | v # vs \<Rightarrow> Some (last (v # vs)))))
    \<and> loadLabel True (\<lambda>d ofs n. vdev_label_bytes (example_label example_slots)) 0 0
        \<lparr>vdevs = [''a'', ''b'', ''c''], tgxs = Map.empty, datasets = Map.empty\<rparr> = Inl Undefined"
proof (rule loadLabel_roundtrip)
  have w: "blkptr_wf (ub_rootbp zero_uberblock)"
    by (simp add: zero_uberblock_def words_uberblock_def blkptr.of_wf)
  show ok: "list_all slot_ok example_slots"
    using w by (simp add: example_slots_def list_all_iff slot_ok_def uberblock_wf_def sizeof_uberblock_def)
  show "length example_slots = 32" by (simp add: example_slots_def)
  then show "vdev_label_wf (example_label example_slots)"
    using length_slots[OF ok]
    by (simp add: example_label_def vdev_label_wf_def vdev_phys_wf_def sizeof_zio_eck_def zio_eck_wf_def)
qed (simp_all add: example_label_def)

section \<open>Block pointers and the meta object set\<close>

lemma dva_asize_eq: "dva_asize d = DVA_GET_ASIZE d"
proof -
  have "dva_word d ! 0 AND 0xffffff = take_bit 24 (dva_word d ! 0)"
    by (simp add: take_bit_eq_mask mask_eq_exp_minus_1)
  then show ?thesis
    by (simp add: dva_asize_def DVA_getters BF64_GET_SB_def BF64_GET_take)
qed

lemma dva_offset_eq: "push_bit 9 (dva_offset d) = DVA_GET_OFFSET d"
proof -
  have "dva_word d ! 1 AND 0x7fffffffffffffff = take_bit 63 (dva_word d ! 1)"
    by (simp add: take_bit_eq_mask mask_eq_exp_minus_1)
  then show ?thesis
    by (simp add: dva_offset_def DVA_getters BF64_GET_SB_def BF64_GET_take)
qed

text \<open>Following a block pointer is one read through its first DVA; the other two are
  never tried, as a read never returns a null pointer. The size is the DVA's allocated
  size, while the offset passed on is in units of 512 bytes: 512 times it is the byte
  offset the DVA means.\<close>

theorem loadBlkPtr_first_dva:
  assumes "blkptr_wf bp"
  shows "\<exists>ofs. push_bit 9 ofs = DVA_GET_OFFSET (blk_dva bp ! 0)
    \<and> loadBlkPtr std nvdevs disk bp h
        = andthen (read_physical std nvdevs disk ofs (DVA_GET_ASIZE (blk_dva bp ! 0)) h) (\<lambda>(p, h). Inr (Some p, h))"
proof (intro exI conjI)
  show "push_bit 9 (dva_offset (blk_dva bp ! 0)) = DVA_GET_OFFSET (blk_dva bp ! 0)" by (rule dva_offset_eq)
  obtain d ds where "blk_dva bp = d # ds" "length ds = 2"
    using assms by (auto simp: blkptr_wf_def SPA_DVAS_PER_BP_def length_3)
  then show "loadBlkPtr std nvdevs disk bp h
      = andthen (read_physical std nvdevs disk (dva_offset (blk_dva bp ! 0)) (DVA_GET_ASIZE (blk_dva bp ! 0)) h)
          (\<lambda>(p, h). Inr (Some p, h))"
    by (simp add: loadBlkPtr_def dva_asize_eq Let_def)
qed

theorem loadBlkPtr_first_dva_witness:
  "\<exists>ofs. push_bit 9 ofs = DVA_GET_OFFSET (blk_dva (words_blkptr (replicate 16 5)) ! 0)
    \<and> loadBlkPtr False 3 (\<lambda>d ofs n. []) (words_blkptr (replicate 16 5)) \<lparr>hp_bufs = [], hp_abds = []\<rparr>
        = andthen (read_physical False 3 (\<lambda>d ofs n. []) ofs (DVA_GET_ASIZE (blk_dva (words_blkptr (replicate 16 5)) ! 0))
            \<lparr>hp_bufs = [], hp_abds = []\<rparr>) (\<lambda>(p, h). Inr (Some p, h))"
  by (rule loadBlkPtr_first_dva) (simp add: blkptr.of_wf)

lemma andthen_no_result: "(\<And>x. m = Inr x \<Longrightarrow> \<exists>s. f x = Inl s) \<Longrightarrow> \<exists>s. andthen m f = Inl s"
  by (cases m) simp_all

lemma loadDnode_null: "loadDnode std nvdevs disk p h = Inr (d, h') \<Longrightarrow> d = None"
  by (auto simp: loadDnode_def andthen_def split: sum.splits option.splits if_splits)

lemma load_objects_fails: "\<exists>s. load_objects d r = Inl s"
  unfolding load_objects_def
  by (intro andthen_no_result) (auto simp: dataset_at_def dnode_type_def Let_def intro!: andthen_no_result split: option.splits)

lemma load_objects_never [simp]: "load_objects d r \<noteq> Inr x"
  using load_objects_fails[of d r] by auto

text \<open>\<open>loadMos\<close> has no result for any device, any disks and any transaction group:
  \<open>loadDnode\<close> returns a null pointer whatever it reads, and the next statement uses it.
  Even if a dnode came back, the object set it stands for would have no object directory.\<close>

theorem loadMos_no_result:
  "(\<exists>s. loadMos std disk tgx r h = Inl s)
    \<and> (\<forall>nvdevs p d h'. loadDnode std nvdevs disk p h \<noteq> Inr (Some d, h'))
    \<and> (\<forall>d. \<exists>s. load_objects (Some d) r = Inl s)"
proof (intro conjI allI)
  show "\<exists>s. loadMos std disk tgx r h = Inl s"
    unfolding loadMos_def Let_def
    by (rule andthen_no_result) (auto simp: load_objects_never intro!: andthen_no_result)
  show "loadDnode std nvdevs disk p h \<noteq> Inr (Some d, h')" for nvdevs p d h'
    using loadDnode_null by fastforce
qed (rule load_objects_fails)

lemma loadMos_never: "loadMos std disk tgx r h \<noteq> Inr x"
  by (auto simp: loadMos_def Let_def andthen_Inr)

text \<open>So the extractor as a whole never finishes its work: for every list of files and
  whatever the disks hold, it stops at an assertion or does something undefined.\<close>

theorem extract_no_result: "\<exists>s. extract_main std disk vs dsid = Inl s"
  unfolding extract_main_def
  by (intro andthen_no_result) (auto simp: loadMos_never intro!: andthen_no_result)

end
