(* ===== verification/Zio.thy ===== *)
theory Zio
  imports Ondisk
begin

text \<open>
  The I/O layer's tables and macros: checksum, encryption and compression functions, the
  flags of an I/O and what its children inherit of them, the stages of the pipeline
  (\<open>sys/zio_impl.h\<close>) and the pipelines built of them, bookmarks and gang block headers.
\<close>

section \<open>Functions and flags\<close>

definition zio_checksum :: c_enum where
  "zio_checksum =
    [(''ZIO_CHECKSUM_INHERIT'', Is 0), (''ZIO_CHECKSUM_ON'', Next),
     (''ZIO_CHECKSUM_OFF'', Next), (''ZIO_CHECKSUM_LABEL'', Next),
     (''ZIO_CHECKSUM_GANG_HEADER'', Next), (''ZIO_CHECKSUM_ZILOG'', Next),
     (''ZIO_CHECKSUM_FLETCHER_2'', Next), (''ZIO_CHECKSUM_FLETCHER_4'', Next),
     (''ZIO_CHECKSUM_SHA256'', Next), (''ZIO_CHECKSUM_ZILOG2'', Next),
     (''ZIO_CHECKSUM_NOPARITY'', Next), (''ZIO_CHECKSUM_SHA512'', Next),
     (''ZIO_CHECKSUM_SKEIN'', Next), (''ZIO_CHECKSUM_EDONR'', Next),
     (''ZIO_CHECKSUM_FUNCTIONS'', Next)]"

definition zio_encrypt :: c_enum where
  "zio_encrypt =
    [(''ZIO_CRYPT_INHERIT'', Is 0), (''ZIO_CRYPT_ON'', Next), (''ZIO_CRYPT_OFF'', Next),
     (''ZIO_CRYPT_AES_128_CCM'', Next), (''ZIO_CRYPT_AES_192_CCM'', Next),
     (''ZIO_CRYPT_AES_256_CCM'', Next), (''ZIO_CRYPT_AES_128_GCM'', Next),
     (''ZIO_CRYPT_AES_192_GCM'', Next), (''ZIO_CRYPT_AES_256_GCM'', Next),
     (''ZIO_CRYPT_FUNCTIONS'', Next)]"

definition zio_compress :: c_enum where
  "zio_compress =
    [(''ZIO_COMPRESS_INHERIT'', Is 0), (''ZIO_COMPRESS_ON'', Next),
     (''ZIO_COMPRESS_OFF'', Next), (''ZIO_COMPRESS_LZJB'', Next),
     (''ZIO_COMPRESS_EMPTY'', Next), (''ZIO_COMPRESS_GZIP_1'', Next),
     (''ZIO_COMPRESS_GZIP_2'', Next), (''ZIO_COMPRESS_GZIP_3'', Next),
     (''ZIO_COMPRESS_GZIP_4'', Next), (''ZIO_COMPRESS_GZIP_5'', Next),
     (''ZIO_COMPRESS_GZIP_6'', Next), (''ZIO_COMPRESS_GZIP_7'', Next),
     (''ZIO_COMPRESS_GZIP_8'', Next), (''ZIO_COMPRESS_GZIP_9'', Next),
     (''ZIO_COMPRESS_ZLE'', Next), (''ZIO_COMPRESS_LZ4'', Next),
     (''ZIO_COMPRESS_FUNCTIONS'', Next)]"

definition zio_checksum_flags :: c_enum where
  "zio_checksum_flags =
    [(''ZCHECKSUM_FLAG_METADATA'', Bit 1), (''ZCHECKSUM_FLAG_EMBEDDED'', Bit 2),
     (''ZCHECKSUM_FLAG_DEDUP'', Bit 3), (''ZCHECKSUM_FLAG_SALTED'', Bit 4),
     (''ZCHECKSUM_FLAG_NOPWRITE'', Bit 5)]"

definition zio_priority :: c_enum where
  "zio_priority = plain
    [''ZIO_PRIORITY_SYNC_READ'', ''ZIO_PRIORITY_SYNC_WRITE'', ''ZIO_PRIORITY_ASYNC_READ'',
     ''ZIO_PRIORITY_ASYNC_WRITE'', ''ZIO_PRIORITY_SCRUB'', ''ZIO_PRIORITY_NUM_QUEUEABLE'',
     ''ZIO_PRIORITY_NOW'']"

definition zio_crypt_type :: c_enum where
  "zio_crypt_type =
    [(''ZC_TYPE_NONE'', Is 0), (''ZC_TYPE_CCM'', Next), (''ZC_TYPE_GCM'', Next)]"

definition zio_suspend_reason :: c_enum where
  "zio_suspend_reason =
    [(''ZIO_SUSPEND_NONE'', Is 0), (''ZIO_SUSPEND_IOERR'', Next), (''ZIO_SUSPEND_MMP'', Next)]"

definition zio_flag :: c_enum where
  "zio_flag =
    [(''ZIO_FLAG_DONT_AGGREGATE'', Bit 0), (''ZIO_FLAG_IO_REPAIR'', Bit 1),
     (''ZIO_FLAG_SELF_HEAL'', Bit 2), (''ZIO_FLAG_RESILVER'', Bit 3),
     (''ZIO_FLAG_SCRUB'', Bit 4), (''ZIO_FLAG_SCAN_THREAD'', Bit 5),
     (''ZIO_FLAG_PHYSICAL'', Bit 6), (''ZIO_FLAG_CANFAIL'', Bit 7),
     (''ZIO_FLAG_SPECULATIVE'', Bit 8), (''ZIO_FLAG_CONFIG_WRITER'', Bit 9),
     (''ZIO_FLAG_DONT_RETRY'', Bit 10), (''ZIO_FLAG_DONT_CACHE'', Bit 11),
     (''ZIO_FLAG_NODATA'', Bit 12), (''ZIO_FLAG_INDUCE_DAMAGE'', Bit 13),
     (''ZIO_FLAG_IO_ALLOCATING'', Bit 14), (''ZIO_FLAG_IO_RETRY'', Bit 15),
     (''ZIO_FLAG_PROBE'', Bit 16), (''ZIO_FLAG_TRYHARD'', Bit 17),
     (''ZIO_FLAG_OPTIONAL'', Bit 18), (''ZIO_FLAG_DONT_QUEUE'', Bit 19),
     (''ZIO_FLAG_DONT_PROPAGATE'', Bit 20), (''ZIO_FLAG_IO_BYPASS'', Bit 21),
     (''ZIO_FLAG_IO_REWRITE'', Bit 22), (''ZIO_FLAG_RAW_COMPRESS'', Bit 23),
     (''ZIO_FLAG_RAW_ENCRYPT'', Bit 24), (''ZIO_FLAG_GANG_CHILD'', Bit 25),
     (''ZIO_FLAG_DDT_CHILD'', Bit 26), (''ZIO_FLAG_GODFATHER'', Bit 27),
     (''ZIO_FLAG_NOPWRITE'', Bit 28), (''ZIO_FLAG_REEXECUTED'', Bit 29),
     (''ZIO_FLAG_DELEGATED'', Bit 30), (''ZIO_FLAG_FASTWRITE'', Bit 31)]"

definition zio_child :: c_enum where
  "zio_child =
    [(''ZIO_CHILD_VDEV'', Is 0), (''ZIO_CHILD_GANG'', Next), (''ZIO_CHILD_DDT'', Next),
     (''ZIO_CHILD_LOGICAL'', Next), (''ZIO_CHILD_TYPES'', Next)]"

definition zio_wait_type :: c_enum where
  "zio_wait_type =
    [(''ZIO_WAIT_READY'', Is 0), (''ZIO_WAIT_DONE'', Next), (''ZIO_WAIT_TYPES'', Next)]"

interpretation zio_flags: flag_enumeration zio_flag
  by unfold_locales (code_simp)+

interpretation cksum_flags: flag_enumeration zio_checksum_flags
  by unfold_locales (code_simp)+

interpretation compress: enumeration zio_compress
  by unfold_locales (code_simp)

text \<open>The value of an enumerator in an expression of type \<open>uint32_t\<close>.\<close>

definition enum_u32 :: "c_enum \<Rightarrow> string \<Rightarrow> u32" where
  "enum_u32 es x = word_of_int (case enum_val es x of Some v \<Rightarrow> v | None \<Rightarrow> 0)"

definition ZIO_FLAG_AGG_INHERIT :: u32 where
  "ZIO_FLAG_AGG_INHERIT = enum_u32 zio_flag ''ZIO_FLAG_CANFAIL'' - 1"
definition ZIO_FLAG_DDT_INHERIT :: u32 where
  "ZIO_FLAG_DDT_INHERIT = enum_u32 zio_flag ''ZIO_FLAG_IO_RETRY'' - 1"
definition ZIO_FLAG_GANG_INHERIT :: u32 where
  "ZIO_FLAG_GANG_INHERIT = enum_u32 zio_flag ''ZIO_FLAG_IO_RETRY'' - 1"
definition ZIO_FLAG_VDEV_INHERIT :: u32 where
  "ZIO_FLAG_VDEV_INHERIT = enum_u32 zio_flag ''ZIO_FLAG_DONT_QUEUE'' - 1"
definition ZIO_FLAG_MUSTSUCCEED :: u32 where "ZIO_FLAG_MUSTSUCCEED = 0"
definition ZIO_FLAG_RAW :: u32 where
  "ZIO_FLAG_RAW = enum_u32 zio_flag ''ZIO_FLAG_RAW_COMPRESS'' OR enum_u32 zio_flag ''ZIO_FLAG_RAW_ENCRYPT''"

definition ZIO_DDT_CHILD_FLAGS :: "u32 \<Rightarrow> u32" where
  "ZIO_DDT_CHILD_FLAGS io_flags =
     io_flags AND ZIO_FLAG_DDT_INHERIT OR enum_u32 zio_flag ''ZIO_FLAG_DDT_CHILD''
       OR enum_u32 zio_flag ''ZIO_FLAG_CANFAIL''"

definition ZIO_GANG_CHILD_FLAGS :: "u32 \<Rightarrow> u32" where
  "ZIO_GANG_CHILD_FLAGS io_flags =
     io_flags AND ZIO_FLAG_GANG_INHERIT OR enum_u32 zio_flag ''ZIO_FLAG_GANG_CHILD''
       OR enum_u32 zio_flag ''ZIO_FLAG_CANFAIL''"

definition ZIO_VDEV_CHILD_FLAGS :: "u32 \<Rightarrow> u32" where
  "ZIO_VDEV_CHILD_FLAGS io_flags =
     io_flags AND ZIO_FLAG_VDEV_INHERIT OR enum_u32 zio_flag ''ZIO_FLAG_CANFAIL''"

definition BOOTFS_COMPRESS_VALID :: "int \<Rightarrow> bool" where
  "BOOTFS_COMPRESS_VALID compress \<longleftrightarrow>
     list_ex (\<lambda>x. enum_val zio_compress x = Some compress)
       [''ZIO_COMPRESS_LZJB'', ''ZIO_COMPRESS_LZ4'', ''ZIO_COMPRESS_GZIP_1'', ''ZIO_COMPRESS_GZIP_2'',
        ''ZIO_COMPRESS_GZIP_3'', ''ZIO_COMPRESS_GZIP_4'', ''ZIO_COMPRESS_GZIP_5'', ''ZIO_COMPRESS_GZIP_6'',
        ''ZIO_COMPRESS_GZIP_7'', ''ZIO_COMPRESS_GZIP_8'', ''ZIO_COMPRESS_GZIP_9'', ''ZIO_COMPRESS_ZLE'',
        ''ZIO_COMPRESS_ON'', ''ZIO_COMPRESS_OFF'']"

definition ZIO_CHILD_BIT :: "nat \<Rightarrow> nat" where "ZIO_CHILD_BIT x = push_bit x 1"
definition ZIO_CHILD_BIT_IS_SET :: "nat \<Rightarrow> nat \<Rightarrow> bool" where
  "ZIO_CHILD_BIT_IS_SET val x \<longleftrightarrow> val AND push_bit x 1 \<noteq> 0"
definition ZIO_CHILD_ALL_BITS :: nat where
  "ZIO_CHILD_ALL_BITS = ZIO_CHILD_BIT 0 OR ZIO_CHILD_BIT 1 OR ZIO_CHILD_BIT 2 OR ZIO_CHILD_BIT 3"

section \<open>The stages and the pipelines\<close>

datatype zio_stage =
  ZIO_STAGE_OPEN | ZIO_STAGE_READ_BP_INIT | ZIO_STAGE_WRITE_BP_INIT | ZIO_STAGE_FREE_BP_INIT
  | ZIO_STAGE_ISSUE_ASYNC | ZIO_STAGE_WRITE_COMPRESS | ZIO_STAGE_ENCRYPT |
  ZIO_STAGE_CHECKSUM_GENERATE | ZIO_STAGE_NOP_WRITE | ZIO_STAGE_DDT_READ_START |
  ZIO_STAGE_DDT_READ_DONE | ZIO_STAGE_DDT_WRITE | ZIO_STAGE_DDT_FREE |
  ZIO_STAGE_GANG_ASSEMBLE | ZIO_STAGE_GANG_ISSUE | ZIO_STAGE_DVA_THROTTLE |
  ZIO_STAGE_DVA_ALLOCATE | ZIO_STAGE_DVA_FREE | ZIO_STAGE_DVA_CLAIM | ZIO_STAGE_READY |
  ZIO_STAGE_VDEV_IO_START | ZIO_STAGE_VDEV_IO_DONE | ZIO_STAGE_VDEV_IO_ASSESS |
  ZIO_STAGE_CHECKSUM_VERIFY | ZIO_STAGE_DONE

definition zio_stages :: "zio_stage list" where
  "zio_stages =
    [ZIO_STAGE_OPEN, ZIO_STAGE_READ_BP_INIT, ZIO_STAGE_WRITE_BP_INIT, ZIO_STAGE_FREE_BP_INIT,
     ZIO_STAGE_ISSUE_ASYNC, ZIO_STAGE_WRITE_COMPRESS, ZIO_STAGE_ENCRYPT,
     ZIO_STAGE_CHECKSUM_GENERATE, ZIO_STAGE_NOP_WRITE, ZIO_STAGE_DDT_READ_START,
     ZIO_STAGE_DDT_READ_DONE, ZIO_STAGE_DDT_WRITE, ZIO_STAGE_DDT_FREE, ZIO_STAGE_GANG_ASSEMBLE,
     ZIO_STAGE_GANG_ISSUE, ZIO_STAGE_DVA_THROTTLE, ZIO_STAGE_DVA_ALLOCATE, ZIO_STAGE_DVA_FREE,
     ZIO_STAGE_DVA_CLAIM, ZIO_STAGE_READY, ZIO_STAGE_VDEV_IO_START, ZIO_STAGE_VDEV_IO_DONE,
     ZIO_STAGE_VDEV_IO_ASSESS, ZIO_STAGE_CHECKSUM_VERIFY, ZIO_STAGE_DONE]"

primrec stage_bit :: "zio_stage \<Rightarrow> nat" where
  "stage_bit ZIO_STAGE_OPEN = 0"
| "stage_bit ZIO_STAGE_READ_BP_INIT = 1"
| "stage_bit ZIO_STAGE_WRITE_BP_INIT = 2"
| "stage_bit ZIO_STAGE_FREE_BP_INIT = 3"
| "stage_bit ZIO_STAGE_ISSUE_ASYNC = 4"
| "stage_bit ZIO_STAGE_WRITE_COMPRESS = 5"
| "stage_bit ZIO_STAGE_ENCRYPT = 6"
| "stage_bit ZIO_STAGE_CHECKSUM_GENERATE = 7"
| "stage_bit ZIO_STAGE_NOP_WRITE = 8"
| "stage_bit ZIO_STAGE_DDT_READ_START = 9"
| "stage_bit ZIO_STAGE_DDT_READ_DONE = 10"
| "stage_bit ZIO_STAGE_DDT_WRITE = 11"
| "stage_bit ZIO_STAGE_DDT_FREE = 12"
| "stage_bit ZIO_STAGE_GANG_ASSEMBLE = 13"
| "stage_bit ZIO_STAGE_GANG_ISSUE = 14"
| "stage_bit ZIO_STAGE_DVA_THROTTLE = 15"
| "stage_bit ZIO_STAGE_DVA_ALLOCATE = 16"
| "stage_bit ZIO_STAGE_DVA_FREE = 17"
| "stage_bit ZIO_STAGE_DVA_CLAIM = 18"
| "stage_bit ZIO_STAGE_READY = 19"
| "stage_bit ZIO_STAGE_VDEV_IO_START = 20"
| "stage_bit ZIO_STAGE_VDEV_IO_DONE = 21"
| "stage_bit ZIO_STAGE_VDEV_IO_ASSESS = 22"
| "stage_bit ZIO_STAGE_CHECKSUM_VERIFY = 23"
| "stage_bit ZIO_STAGE_DONE = 24"

text \<open>The kinds of I/O a stage is for, from the comments at the stages: read, write, free, claim
  and ioctl.\<close>

datatype zio_op = Read | Write | Free | Claim | Ioctl

primrec stage_ops :: "zio_stage \<Rightarrow> zio_op list" where
  "stage_ops ZIO_STAGE_OPEN = [Read, Write, Free, Claim, Ioctl]"
| "stage_ops ZIO_STAGE_READ_BP_INIT = [Read]"
| "stage_ops ZIO_STAGE_WRITE_BP_INIT = [Write]"
| "stage_ops ZIO_STAGE_FREE_BP_INIT = [Free]"
| "stage_ops ZIO_STAGE_ISSUE_ASYNC = [Read, Write, Free]"
| "stage_ops ZIO_STAGE_WRITE_COMPRESS = [Write]"
| "stage_ops ZIO_STAGE_ENCRYPT = [Write]"
| "stage_ops ZIO_STAGE_CHECKSUM_GENERATE = [Write]"
| "stage_ops ZIO_STAGE_NOP_WRITE = [Write]"
| "stage_ops ZIO_STAGE_DDT_READ_START = [Read]"
| "stage_ops ZIO_STAGE_DDT_READ_DONE = [Read]"
| "stage_ops ZIO_STAGE_DDT_WRITE = [Write]"
| "stage_ops ZIO_STAGE_DDT_FREE = [Free]"
| "stage_ops ZIO_STAGE_GANG_ASSEMBLE = [Read, Write, Free, Claim]"
| "stage_ops ZIO_STAGE_GANG_ISSUE = [Read, Write, Free, Claim]"
| "stage_ops ZIO_STAGE_DVA_THROTTLE = [Write]"
| "stage_ops ZIO_STAGE_DVA_ALLOCATE = [Write]"
| "stage_ops ZIO_STAGE_DVA_FREE = [Free]"
| "stage_ops ZIO_STAGE_DVA_CLAIM = [Claim]"
| "stage_ops ZIO_STAGE_READY = [Read, Write, Free, Claim, Ioctl]"
| "stage_ops ZIO_STAGE_VDEV_IO_START = [Read, Write, Ioctl]"
| "stage_ops ZIO_STAGE_VDEV_IO_DONE = [Read, Write, Ioctl]"
| "stage_ops ZIO_STAGE_VDEV_IO_ASSESS = [Read, Write, Ioctl]"
| "stage_ops ZIO_STAGE_CHECKSUM_VERIFY = [Read]"
| "stage_ops ZIO_STAGE_DONE = [Read, Write, Free, Claim, Ioctl]"

type_synonym pipeline = "zio_stage list"

text \<open>A set of stages as the C code has it, one bit per stage.\<close>

definition stage_mask :: "zio_stage list \<Rightarrow> u32" where
  "stage_mask ss = foldr (\<lambda>s m. push_bit (stage_bit s) 1 OR m) ss 0"

definition stages_in :: "u32 \<Rightarrow> zio_stage list" where
  "stages_in m = filter (\<lambda>s. bit m (stage_bit s)) zio_stages"

definition ZIO_INTERLOCK_STAGES :: u32 where
  "ZIO_INTERLOCK_STAGES =
     stage_mask [ZIO_STAGE_READY, ZIO_STAGE_DONE]"

definition ZIO_INTERLOCK_PIPELINE :: u32 where
  "ZIO_INTERLOCK_PIPELINE =
     ZIO_INTERLOCK_STAGES"

definition ZIO_VDEV_IO_STAGES :: u32 where
  "ZIO_VDEV_IO_STAGES =
     stage_mask [ZIO_STAGE_VDEV_IO_START, ZIO_STAGE_VDEV_IO_DONE, ZIO_STAGE_VDEV_IO_ASSESS]"

definition ZIO_VDEV_CHILD_PIPELINE :: u32 where
  "ZIO_VDEV_CHILD_PIPELINE =
     ZIO_VDEV_IO_STAGES OR stage_mask [ZIO_STAGE_DONE]"

definition ZIO_READ_COMMON_STAGES :: u32 where
  "ZIO_READ_COMMON_STAGES =
     ZIO_INTERLOCK_STAGES OR ZIO_VDEV_IO_STAGES OR stage_mask [ZIO_STAGE_CHECKSUM_VERIFY]"

definition ZIO_READ_PHYS_PIPELINE :: u32 where
  "ZIO_READ_PHYS_PIPELINE =
     ZIO_READ_COMMON_STAGES"

definition ZIO_READ_PIPELINE :: u32 where
  "ZIO_READ_PIPELINE =
     ZIO_READ_COMMON_STAGES OR stage_mask [ZIO_STAGE_READ_BP_INIT]"

definition ZIO_DDT_CHILD_READ_PIPELINE :: u32 where
  "ZIO_DDT_CHILD_READ_PIPELINE =
     ZIO_READ_COMMON_STAGES"

definition ZIO_DDT_READ_PIPELINE :: u32 where
  "ZIO_DDT_READ_PIPELINE =
     ZIO_INTERLOCK_STAGES OR stage_mask [ZIO_STAGE_READ_BP_INIT, ZIO_STAGE_DDT_READ_START,
      ZIO_STAGE_DDT_READ_DONE]"

definition ZIO_WRITE_COMMON_STAGES :: u32 where
  "ZIO_WRITE_COMMON_STAGES =
     ZIO_INTERLOCK_STAGES OR ZIO_VDEV_IO_STAGES OR stage_mask [ZIO_STAGE_ISSUE_ASYNC,
      ZIO_STAGE_CHECKSUM_GENERATE]"

definition ZIO_WRITE_PHYS_PIPELINE :: u32 where
  "ZIO_WRITE_PHYS_PIPELINE =
     ZIO_WRITE_COMMON_STAGES"

definition ZIO_REWRITE_PIPELINE :: u32 where
  "ZIO_REWRITE_PIPELINE =
     ZIO_WRITE_COMMON_STAGES OR stage_mask [ZIO_STAGE_WRITE_COMPRESS, ZIO_STAGE_ENCRYPT,
      ZIO_STAGE_WRITE_BP_INIT]"

definition ZIO_WRITE_PIPELINE :: u32 where
  "ZIO_WRITE_PIPELINE =
     ZIO_WRITE_COMMON_STAGES OR stage_mask [ZIO_STAGE_WRITE_BP_INIT,
      ZIO_STAGE_WRITE_COMPRESS, ZIO_STAGE_ENCRYPT, ZIO_STAGE_DVA_THROTTLE,
      ZIO_STAGE_DVA_ALLOCATE]"

definition ZIO_DDT_CHILD_WRITE_PIPELINE :: u32 where
  "ZIO_DDT_CHILD_WRITE_PIPELINE =
     ZIO_INTERLOCK_STAGES OR ZIO_VDEV_IO_STAGES OR stage_mask [ZIO_STAGE_DVA_THROTTLE,
      ZIO_STAGE_DVA_ALLOCATE]"

definition ZIO_DDT_WRITE_PIPELINE :: u32 where
  "ZIO_DDT_WRITE_PIPELINE =
     ZIO_INTERLOCK_STAGES OR stage_mask [ZIO_STAGE_WRITE_BP_INIT, ZIO_STAGE_ISSUE_ASYNC,
      ZIO_STAGE_WRITE_COMPRESS, ZIO_STAGE_ENCRYPT, ZIO_STAGE_CHECKSUM_GENERATE,
      ZIO_STAGE_DDT_WRITE]"

definition ZIO_GANG_STAGES :: u32 where
  "ZIO_GANG_STAGES =
     stage_mask [ZIO_STAGE_GANG_ASSEMBLE, ZIO_STAGE_GANG_ISSUE]"

definition ZIO_FREE_PIPELINE :: u32 where
  "ZIO_FREE_PIPELINE =
     ZIO_INTERLOCK_STAGES OR stage_mask [ZIO_STAGE_FREE_BP_INIT, ZIO_STAGE_DVA_FREE]"

definition ZIO_DDT_FREE_PIPELINE :: u32 where
  "ZIO_DDT_FREE_PIPELINE =
     ZIO_INTERLOCK_STAGES OR stage_mask [ZIO_STAGE_FREE_BP_INIT, ZIO_STAGE_ISSUE_ASYNC,
      ZIO_STAGE_DDT_FREE]"

definition ZIO_CLAIM_PIPELINE :: u32 where
  "ZIO_CLAIM_PIPELINE =
     ZIO_INTERLOCK_STAGES OR stage_mask [ZIO_STAGE_DVA_CLAIM]"

definition ZIO_IOCTL_PIPELINE :: u32 where
  "ZIO_IOCTL_PIPELINE =
     ZIO_INTERLOCK_STAGES OR stage_mask [ZIO_STAGE_VDEV_IO_START, ZIO_STAGE_VDEV_IO_ASSESS]"

definition ZIO_BLOCKING_STAGES :: u32 where
  "ZIO_BLOCKING_STAGES =
     stage_mask [ZIO_STAGE_DVA_ALLOCATE, ZIO_STAGE_DVA_CLAIM, ZIO_STAGE_VDEV_IO_START]"

lemmas pipeline_defs = ZIO_INTERLOCK_STAGES_def ZIO_INTERLOCK_PIPELINE_def ZIO_VDEV_IO_STAGES_def
  ZIO_VDEV_CHILD_PIPELINE_def ZIO_READ_COMMON_STAGES_def ZIO_READ_PHYS_PIPELINE_def
  ZIO_READ_PIPELINE_def ZIO_DDT_CHILD_READ_PIPELINE_def ZIO_DDT_READ_PIPELINE_def
  ZIO_WRITE_COMMON_STAGES_def ZIO_WRITE_PHYS_PIPELINE_def ZIO_REWRITE_PIPELINE_def
  ZIO_WRITE_PIPELINE_def ZIO_DDT_CHILD_WRITE_PIPELINE_def ZIO_DDT_WRITE_PIPELINE_def
  ZIO_GANG_STAGES_def ZIO_FREE_PIPELINE_def ZIO_DDT_FREE_PIPELINE_def ZIO_CLAIM_PIPELINE_def
  ZIO_IOCTL_PIPELINE_def ZIO_BLOCKING_STAGES_def

section \<open>Bookmarks and gang blocks\<close>

record zbookmark_phys =
  zb_objset :: u64
  zb_object :: u64
  zb_level :: u64    \<comment> \<open>\<open>int64_t\<close>, as its bits\<close>
  zb_blkid :: u64

definition SET_BOOKMARK :: "u64 \<Rightarrow> u64 \<Rightarrow> u64 \<Rightarrow> u64 \<Rightarrow> zbookmark_phys \<Rightarrow> zbookmark_phys" where
  "SET_BOOKMARK objset object level blkid zb =
     zb\<lparr>zb_objset := objset, zb_object := object, zb_level := level, zb_blkid := blkid\<rparr>"

definition ZB_DESTROYED_OBJSET :: u64 where "ZB_DESTROYED_OBJSET = - 1"
definition ZB_ROOT_OBJECT :: u64 where "ZB_ROOT_OBJECT = 0"
definition ZB_ROOT_LEVEL :: u64 where "ZB_ROOT_LEVEL = - 1"
definition ZB_ROOT_BLKID :: u64 where "ZB_ROOT_BLKID = 0"
definition ZB_ZIL_OBJECT :: u64 where "ZB_ZIL_OBJECT = 0"
definition ZB_ZIL_LEVEL :: u64 where "ZB_ZIL_LEVEL = - 2"
definition ZB_DNODE_LEVEL :: u64 where "ZB_DNODE_LEVEL = - 3"
definition ZB_DNODE_BLKID :: u64 where "ZB_DNODE_BLKID = 0"

definition ZB_IS_ZERO :: "zbookmark_phys \<Rightarrow> bool" where
  "ZB_IS_ZERO zb \<longleftrightarrow> zb_objset zb = 0 \<and> zb_object zb = 0 \<and> zb_level zb = 0 \<and> zb_blkid zb = 0"

definition ZB_IS_ROOT :: "zbookmark_phys \<Rightarrow> bool" where
  "ZB_IS_ROOT zb \<longleftrightarrow> zb_object zb = ZB_ROOT_OBJECT \<and> zb_level zb = ZB_ROOT_LEVEL
     \<and> zb_blkid zb = ZB_ROOT_BLKID"

definition zbookmark_words :: "zbookmark_phys \<Rightarrow> u64 list" where
  "zbookmark_words zb = [zb_objset zb, zb_object zb, zb_level zb, zb_blkid zb]"

definition words_zbookmark :: "u64 list \<Rightarrow> zbookmark_phys" where
  "words_zbookmark ws =
     \<lparr>zb_objset = ws ! 0, zb_object = ws ! 1, zb_level = ws ! 2, zb_blkid = ws ! 3\<rparr>"

interpretation zbookmark: word_struct "\<lambda>_. True" zbookmark_words words_zbookmark 4
  by unfold_locales (auto simp: zbookmark_words_def words_zbookmark_def length_4)

definition ZEC_MAGIC :: u64 where "ZEC_MAGIC = 0x210da7ab10c7a11"
definition SPA_GANGBLOCKSIZE :: nat where "SPA_GANGBLOCKSIZE = 512"
definition SPA_GBH_NBLKPTRS :: nat where "SPA_GBH_NBLKPTRS = (SPA_GANGBLOCKSIZE - 40) div 128"
definition SPA_GBH_FILLER :: nat where
  "SPA_GBH_FILLER = (SPA_GANGBLOCKSIZE - 40 - SPA_GBH_NBLKPTRS * 128) div 8"

record zio_gbh =
  zg_blkptr :: "blkptr_t list"
  zg_filler :: "u64 list"
  zg_tail :: zio_eck

definition zio_gbh_wf :: "zio_gbh \<Rightarrow> bool" where
  "zio_gbh_wf g \<longleftrightarrow> length (zg_blkptr g) = SPA_GBH_NBLKPTRS \<and> list_all blkptr_wf (zg_blkptr g)
     \<and> length (zg_filler g) = SPA_GBH_FILLER \<and> zio_eck_wf (zg_tail g)"

definition zio_gbh_words :: "zio_gbh \<Rightarrow> u64 list" where
  "zio_gbh_words g = concat (map blkptr_words (zg_blkptr g)) @ zg_filler g @ zio_eck_words (zg_tail g)"

definition words_zio_gbh :: "u64 list \<Rightarrow> zio_gbh" where
  "words_zio_gbh ws =
     \<lparr>zg_blkptr = [words_blkptr (take 16 ws), words_blkptr (take 16 (drop 16 ws)),
                   words_blkptr (take 16 (drop 32 ws))],
      zg_filler = take 11 (drop 48 ws), zg_tail = words_zio_eck (take 5 (drop 59 ws))\<rparr>"

lemma gbh_sizes: "SPA_GBH_NBLKPTRS = 3" "SPA_GBH_FILLER = 11"
  by (simp_all add: SPA_GBH_NBLKPTRS_def SPA_GBH_FILLER_def SPA_GANGBLOCKSIZE_def)

interpretation gbh: word_struct zio_gbh_wf zio_gbh_words words_zio_gbh 64
proof unfold_locales
  fix g assume g: "zio_gbh_wf g"
  then obtain a b c where bp: "zg_blkptr g = [a, b, c]" "blkptr_wf a" "blkptr_wf b" "blkptr_wf c"
    by (auto simp: zio_gbh_wf_def gbh_sizes length_3)
  have f: "length (zg_filler g) = 11" "zio_eck_wf (zg_tail g)" using g by (simp_all add: zio_gbh_wf_def gbh_sizes)
  note len = blkptr.to_length[OF bp(2)] blkptr.to_length[OF bp(3)] blkptr.to_length[OF bp(4)] eck.to_length[OF f(2)]
  show "length (zio_gbh_words g) = 64" using len f by (simp add: zio_gbh_words_def bp(1))
  show "words_zio_gbh (zio_gbh_words g) = g"
    using len f bp blkptr.of_to eck.of_to[OF f(2)]
    by (cases g) (simp add: zio_gbh_words_def words_zio_gbh_def)
next
  fix ws :: "u64 list" assume l: "length ws = 64"
  then show "zio_gbh_wf (words_zio_gbh ws)"
    by (simp add: words_zio_gbh_def zio_gbh_wf_def gbh_sizes blkptr.of_wf eck.of_wf)
  have "zio_gbh_words (words_zio_gbh ws) = take 16 ws @ take 16 (drop 16 ws) @ take 16 (drop 32 ws)
      @ take 11 (drop 48 ws) @ take 5 (drop 59 ws)"
    using l by (simp add: zio_gbh_words_def words_zio_gbh_def blkptr_words_of eck.to_of)
  also have "\<dots> = ws"
    using l append_take_drop_id[of 16 ws] append_take_drop_id[of 16 "drop 16 ws"]
      append_take_drop_id[of 16 "drop 32 ws"] append_take_drop_id[of 11 "drop 48 ws"] by simp
  finally show "zio_gbh_words (words_zio_gbh ws) = ws" .
qed

section \<open>Properties\<close>

lemma stage_bit_inj: "stage_bit s = stage_bit t \<longleftrightarrow> s = t"
  by (cases s; cases t) simp_all

lemma stage_bit_less: "stage_bit s < 25"
  by (cases s) simp_all

lemma set_zio_stages: "s \<in> set zio_stages"
  by (cases s) (simp_all add: zio_stages_def)

lemma bit_stage_mask: "bit (stage_mask ss) (stage_bit s) \<longleftrightarrow> s \<in> set ss"
proof (induction ss)
  case (Cons t ss)
  have "stage_bit s < 32" using stage_bit_less[of s] by simp
  then have "bit (push_bit (stage_bit t) 1 :: u32) (stage_bit s) \<longleftrightarrow> s = t"
    using stage_bit_inj[of s t] by (auto simp: bit_simps)
  then show ?case using Cons by (simp add: stage_mask_def bit_simps)
qed (simp add: stage_mask_def)

lemma stage_mask_or: "stage_mask ss OR stage_mask ts = stage_mask (ss @ ts)"
  by (induction ss) (simp_all add: stage_mask_def or.assoc)

lemma stages_in_eq: "stages_in (stage_mask ss) = filter (\<lambda>s. s \<in> set ss) zio_stages"
  by (simp add: stages_in_def bit_stage_mask)

lemma stages_in_mask: "set (stages_in (stage_mask ss)) = set ss"
  using set_zio_stages by (auto simp: stages_in_eq)

lemma list_all_stages: "list_all P (stages_in (stage_mask ss)) = list_all P ss"
  by (simp add: list_all_iff stages_in_mask)

definition pipelines :: "(zio_op \<times> u32) list" where
  "pipelines =
     [(Read, ZIO_READ_PHYS_PIPELINE), (Read, ZIO_READ_PIPELINE), (Read, ZIO_DDT_CHILD_READ_PIPELINE),
      (Read, ZIO_DDT_READ_PIPELINE), (Write, ZIO_WRITE_PHYS_PIPELINE), (Write, ZIO_REWRITE_PIPELINE),
      (Write, ZIO_WRITE_PIPELINE), (Write, ZIO_DDT_CHILD_WRITE_PIPELINE), (Write, ZIO_DDT_WRITE_PIPELINE),
      (Free, ZIO_FREE_PIPELINE), (Free, ZIO_DDT_FREE_PIPELINE), (Claim, ZIO_CLAIM_PIPELINE),
      (Ioctl, ZIO_IOCTL_PIPELINE)]"

text \<open>Every pipeline has only stages that are for its kind of I/O, begins to be ready
  and ends: it contains the interlock stages. The gang stages are in no pipeline, and the
  ioctl pipeline leaves out \<open>ZIO_STAGE_VDEV_IO_DONE\<close>, which is marked as one of its stages.\<close>

theorem pipelines_fit_stages:
  "list_all (\<lambda>(op, p). list_all (\<lambda>s. op \<in> set (stage_ops s)) (stages_in p)
      \<and> list_all (\<lambda>s. s \<in> set (stages_in p)) (stages_in ZIO_INTERLOCK_STAGES)
      \<and> list_all (\<lambda>s. s \<notin> set (stages_in p)) (stages_in ZIO_GANG_STAGES)) pipelines
   \<and> Ioctl \<in> set (stage_ops ZIO_STAGE_VDEV_IO_DONE)
   \<and> ZIO_STAGE_VDEV_IO_DONE \<notin> set (stages_in ZIO_IOCTL_PIPELINE)"
  by (simp add: pipelines_def pipeline_defs stage_mask_or list_all_stages stages_in_mask)

lemma flag_values:
  "enum_val zio_flag ''ZIO_FLAG_CANFAIL'' = Some (2 ^ 7)"
  "enum_val zio_flag ''ZIO_FLAG_IO_RETRY'' = Some (2 ^ 15)"
  "enum_val zio_flag ''ZIO_FLAG_DONT_QUEUE'' = Some (2 ^ 19)"
  "enum_val zio_flag ''ZIO_FLAG_GANG_CHILD'' = Some (2 ^ 25)"
  "enum_val zio_flag ''ZIO_FLAG_DDT_CHILD'' = Some (2 ^ 26)"
  by code_simp+

lemma child_flag_masks:
  "ZIO_FLAG_DDT_INHERIT = mask 15" "ZIO_FLAG_GANG_INHERIT = mask 15" "ZIO_FLAG_VDEV_INHERIT = mask 19"
  "enum_u32 zio_flag ''ZIO_FLAG_CANFAIL'' = push_bit 7 1"
  "enum_u32 zio_flag ''ZIO_FLAG_DDT_CHILD'' = push_bit 26 1"
  "enum_u32 zio_flag ''ZIO_FLAG_GANG_CHILD'' = push_bit 25 1"
  by (simp_all add: enum_u32_def flag_values ZIO_FLAG_DDT_INHERIT_def ZIO_FLAG_GANG_INHERIT_def
      ZIO_FLAG_VDEV_INHERIT_def mask_eq_exp_minus_1 push_bit_eq_mult)

lemma bit_child_flag: "i < 32 \<Longrightarrow> bit (f AND mask k OR push_bit i 1 :: u32) n \<longleftrightarrow> (n < k \<and> bit f n) \<or> n = i"
  by (auto simp: bit_simps dest: bit_imp_le_length)

lemma bit_child_flags: "i < 32 \<Longrightarrow> j < 32 \<Longrightarrow>
    bit (f AND mask k OR push_bit i 1 OR push_bit j 1 :: u32) n \<longleftrightarrow> (n < k \<and> bit f n) \<or> n = i \<or> n = j"
  by (auto simp: bit_simps dest: bit_imp_le_length)

text \<open>A child I/O inherits exactly the flags below the first one of the next group (bits
  0 to 14 for dedup and gang children, 0 to 18 for device children), may always fail
  (bit 7), and a dedup or gang child is marked as such.\<close>

theorem child_flags_inherit:
  "bit (ZIO_DDT_CHILD_FLAGS f) n = ((n < 15 \<and> bit f n) \<or> n = 7 \<or> n = 26)
   \<and> bit (ZIO_GANG_CHILD_FLAGS f) n = ((n < 15 \<and> bit f n) \<or> n = 7 \<or> n = 25)
   \<and> bit (ZIO_VDEV_CHILD_FLAGS f) n = ((n < 19 \<and> bit f n) \<or> n = 7)"
  unfolding ZIO_DDT_CHILD_FLAGS_def ZIO_GANG_CHILD_FLAGS_def ZIO_VDEV_CHILD_FLAGS_def child_flag_masks
  by (intro conjI) (auto simp only: bit_child_flags bit_child_flag one_less_numeral_iff numeral_less_iff num.simps less_num_simps)

end
