(* ===== verification/Gf.thy ===== *)
theory Gf
  imports Raidz Cenum
begin

text \<open>
  The Galois field of \<open>sys/vdev_raidz_impl.h\<close>: \<open>gf_mul\<close>, \<open>gf_div\<close>, \<open>gf_inv\<close>, \<open>gf_exp2\<close>,
  \<open>gf_exp4\<close> and \<open>vdev_raidz_exp2\<close> over the two tables of powers and logarithms, which the
  header only declares. The tables are parameters; what the header says of them (the powers
  of 2 in the field, and their logarithms) is the interface \<open>gf_tables\<close>. A table access
  past its 256 entries is \<open>Undefined\<close>. Also the names of the generation and reconstruction
  methods and the accessors of a map.
\<close>

section \<open>Methods and accessors\<close>

definition raidz_math_gen_op :: c_enum where
  "raidz_math_gen_op =
    [(''RAIDZ_GEN_P'', Is 0), (''RAIDZ_GEN_PQ'', Next), (''RAIDZ_GEN_PQR'', Next),
     (''RAIDZ_GEN_NUM'', Is 3)]"

definition raidz_rec_op :: c_enum where
  "raidz_rec_op =
    [(''RAIDZ_REC_P'', Is 0), (''RAIDZ_REC_Q'', Next), (''RAIDZ_REC_R'', Next),
     (''RAIDZ_REC_PQ'', Next), (''RAIDZ_REC_PR'', Next), (''RAIDZ_REC_QR'', Next),
     (''RAIDZ_REC_PQR'', Next), (''RAIDZ_REC_NUM'', Is 7)]"

definition raidz_mul_info :: c_enum where
  "raidz_mul_info =
    [(''MUL_Q_X'', Is 0), (''MUL_R_X'', Is 0), (''MUL_PQ_X'', Is 0), (''MUL_PQ_Y'', Is 1),
     (''MUL_PR_X'', Is 0), (''MUL_PR_Y'', Is 1), (''MUL_QR_XQ'', Is 0), (''MUL_QR_X'', Is 1),
     (''MUL_QR_YQ'', Is 2), (''MUL_QR_Y'', Is 3), (''MUL_PQR_XP'', Is 0),
     (''MUL_PQR_XQ'', Is 1), (''MUL_PQR_XR'', Is 2), (''MUL_PQR_YU'', Is 3),
     (''MUL_PQR_YP'', Is 4), (''MUL_PQR_YQ'', Is 5), (''MUL_CNT'', Is 6)]"

definition TARGET_X :: nat where "TARGET_X = 0"
definition TARGET_Y :: nat where "TARGET_Y = 1"
definition TARGET_Z :: nat where "TARGET_Z = 2"
definition CODE_P :: nat where "CODE_P = 0"
definition CODE_Q :: nat where "CODE_Q = 1"
definition CODE_R :: nat where "CODE_R = 2"
definition RAIDZ_IMPL_NAME_MAX :: nat where "RAIDZ_IMPL_NAME_MAX = 16"

definition raidz_parity :: "raidz_map \<Rightarrow> u64" where "raidz_parity rm = rm_firstdatacol rm"
definition raidz_ncols :: "raidz_map \<Rightarrow> u64" where "raidz_ncols rm = rm_cols rm"
definition raidz_nbigcols :: "raidz_map \<Rightarrow> u64" where "raidz_nbigcols rm = rm_bigcols rm"

definition raidz_col_p :: "raidz_map \<Rightarrow> nat \<Rightarrow> stop + raidz_col" where
  "raidz_col_p rm c = (if c < length (rm_col rm) then Inr (rm_col rm ! c) else Inl Undefined)"

definition raidz_col_size :: "raidz_map \<Rightarrow> nat \<Rightarrow> stop + u64" where
  "raidz_col_size rm c = andthen (raidz_col_p rm c) (\<lambda>col. Inr (rc_size col))"

definition raidz_big_size :: "raidz_map \<Rightarrow> stop + u64" where
  "raidz_big_size rm = raidz_col_size rm CODE_P"

definition raidz_short_size :: "raidz_map \<Rightarrow> stop + u64" where
  "raidz_short_size rm = raidz_col_size rm (unat (raidz_ncols rm - 1))"

section \<open>The field operations\<close>

type_synonym gf_t = u32

definition tbl :: "u8 list \<Rightarrow> u32 \<Rightarrow> stop + u32" where
  "tbl t i = (if unat i < 256 \<and> unat i < length t then Inr (ucast (t ! unat i)) else Inl Undefined)"

definition vdev_raidz_exp2 :: "u8 list \<Rightarrow> u8 list \<Rightarrow> u8 \<Rightarrow> u32 \<Rightarrow> stop + u32" where
  "vdev_raidz_exp2 pow2 log2 a e =
     (if a = 0 then Inr 0
      else andthen (tbl log2 (ucast a)) (\<lambda>l. tbl pow2 ((e + l) mod 255)))"

definition gf_mul :: "u8 list \<Rightarrow> u8 list \<Rightarrow> gf_t \<Rightarrow> gf_t \<Rightarrow> stop + gf_t" where
  "gf_mul pow2 log2 a b =
     (if a = 0 \<or> b = 0 then Inr 0
      else andthen (tbl log2 a) (\<lambda>la. andthen (tbl log2 b) (\<lambda>lb. tbl pow2 ((la + lb) mod 255))))"

definition gf_div :: "u8 list \<Rightarrow> u8 list \<Rightarrow> gf_t \<Rightarrow> gf_t \<Rightarrow> stop + gf_t" where
  "gf_div pow2 log2 a b =
     andthen (ASSERT (b > 0)) (\<lambda>_.
     if a = 0 then Inr 0
     else andthen (tbl log2 a) (\<lambda>la. andthen (tbl log2 b) (\<lambda>lb. tbl pow2 ((255 + la - lb) mod 255))))"

definition gf_inv :: "u8 list \<Rightarrow> u8 list \<Rightarrow> gf_t \<Rightarrow> stop + gf_t" where
  "gf_inv pow2 log2 a =
     andthen (ASSERT (a > 0)) (\<lambda>_. andthen (tbl log2 a) (\<lambda>la. tbl pow2 (255 - la)))"

definition gf_exp2 :: "u8 list \<Rightarrow> u32 \<Rightarrow> stop + gf_t" where
  "gf_exp2 pow2 e = tbl pow2 (e mod 255)"

definition gf_exp4 :: "u8 list \<Rightarrow> u32 \<Rightarrow> stop + gf_t" where
  "gf_exp4 pow2 e = andthen (ASSERT (e \<le> 255)) (\<lambda>_. tbl pow2 (2 * e mod 255))"

section \<open>The field\<close>

text \<open>Multiplication by 2 modulo \<open>x^8 + x^4 + x^3 + x^2 + 1\<close>, and the product as the sum of
  the doublings of one factor that the bits of the other select.\<close>

definition gf_double :: "u8 \<Rightarrow> u8" where
  "gf_double x = push_bit 1 x XOR (if bit x 7 then 0x1d else 0)"

definition gf_pow :: "nat \<Rightarrow> u8" where
  "gf_pow n = (gf_double ^^ n) 1"

definition gf_times :: "u8 \<Rightarrow> u8 \<Rightarrow> u8" where
  "gf_times a b = foldr (\<lambda>i s. (if bit b i then (gf_double ^^ i) a else 0) XOR s) [0..<8] 0"

text \<open>The powers of 2, as numbers.\<close>

definition gf_pow2_table :: "nat list" where
  "gf_pow2_table =
    [1, 2, 4, 8, 16, 32, 64, 128, 29, 58, 116, 232, 205, 135, 19, 38, 76, 152, 45, 90, 180,
     117, 234, 201, 143, 3, 6, 12, 24, 48, 96, 192, 157, 39, 78, 156, 37, 74, 148, 53, 106,
     212, 181, 119, 238, 193, 159, 35, 70, 140, 5, 10, 20, 40, 80, 160, 93, 186, 105, 210, 185,
     111, 222, 161, 95, 190, 97, 194, 153, 47, 94, 188, 101, 202, 137, 15, 30, 60, 120, 240,
     253, 231, 211, 187, 107, 214, 177, 127, 254, 225, 223, 163, 91, 182, 113, 226, 217, 175,
     67, 134, 17, 34, 68, 136, 13, 26, 52, 104, 208, 189, 103, 206, 129, 31, 62, 124, 248, 237,
     199, 147, 59, 118, 236, 197, 151, 51, 102, 204, 133, 23, 46, 92, 184, 109, 218, 169, 79,
     158, 33, 66, 132, 21, 42, 84, 168, 77, 154, 41, 82, 164, 85, 170, 73, 146, 57, 114, 228,
     213, 183, 115, 230, 209, 191, 99, 198, 145, 63, 126, 252, 229, 215, 179, 123, 246, 241,
     255, 227, 219, 171, 75, 150, 49, 98, 196, 149, 55, 110, 220, 165, 87, 174, 65, 130, 25,
     50, 100, 200, 141, 7, 14, 28, 56, 112, 224, 221, 167, 83, 166, 81, 162, 89, 178, 121, 242,
     249, 239, 195, 155, 43, 86, 172, 69, 138, 9, 18, 36, 72, 144, 61, 122, 244, 245, 247, 243,
     251, 235, 203, 139, 11, 22, 44, 88, 176, 125, 250, 233, 207, 131, 27, 54, 108, 216, 173,
     71, 142, 1]"

section \<open>Arithmetic of the field\<close>

text \<open>A map of bytes that respects \<open>XOR\<close> is known from the eight powers of two.\<close>

definition additive :: "(u8 \<Rightarrow> u8) \<Rightarrow> bool" where
  "additive f \<longleftrightarrow> (\<forall>x y. f (x XOR y) = f x XOR f y)"

lemma additive_zero: "additive f \<Longrightarrow> f 0 = 0"
  unfolding additive_def by (metis xor_self_eq)

text \<open>Sums over a list of selected terms.\<close>

definition gf_sum :: "(nat \<Rightarrow> bool) \<Rightarrow> (nat \<Rightarrow> u8) \<Rightarrow> nat list \<Rightarrow> u8" where
  "gf_sum P g is = foldr (\<lambda>i s. (if P i then g i else 0) XOR s) is 0"

lemma gf_sum_simps [simp]: "gf_sum P g [] = 0" "gf_sum P g (i # is) = (if P i then g i else 0) XOR gf_sum P g is"
  by (simp_all add: gf_sum_def)

lemma gf_sum_xor: "gf_sum (\<lambda>i. P i \<noteq> Q i) g is = gf_sum P g is XOR gf_sum Q g is"
proof (induction "is")
  case (Cons i "is")
  have "(g i XOR x) XOR (g i XOR y) = x XOR y" for x y
    by (metis xor.assoc xor.commute xor_self_eq xor.left_neutral)
  then show ?case using Cons by (cases "P i"; cases "Q i") (simp_all add: xor.assoc xor.left_commute)
qed simp

lemma gf_sum_none: "i \<notin> set is \<Longrightarrow> gf_sum (\<lambda>j. j = i) g is = 0"
  by (induction "is") auto

lemma gf_sum_single: "distinct is \<Longrightarrow> i \<in> set is \<Longrightarrow> gf_sum (\<lambda>j. j = i) g is = g i"
  by (induction "is") (auto simp: gf_sum_none)

lemma bit_gf_sum:
  "distinct is \<Longrightarrow> n < 8 \<Longrightarrow> bit (gf_sum P (\<lambda>i. push_bit i 1) is) n \<longleftrightarrow> n \<in> set is \<and> P n"
  by (induction "is") (auto simp: bit_simps)

lemma byte_bits: "gf_sum (bit a) (\<lambda>i. push_bit i 1) [0..<8] = a"
proof (rule bit_word_eqI)
  fix n assume "n < LENGTH(8)"
  then show "bit (gf_sum (bit a) (\<lambda>i. push_bit i 1) [0..<8]) n = bit a n"
    using bit_gf_sum[of "[0..<8]" n "bit a"] by simp
qed

lemma additive_sum: "additive f \<Longrightarrow> f (gf_sum P g is) = gf_sum P (\<lambda>i. f (g i)) is"
  by (induction "is") (simp_all add: additive_zero, simp add: additive_def)

lemma gf_sum_cong: "(\<And>i. i \<in> set is \<Longrightarrow> g i = h i) \<Longrightarrow> gf_sum P g is = gf_sum P h is"
  by (induction "is") auto

lemma additive_eqI:
  assumes "additive f" and "additive g" and "\<And>i. i < 8 \<Longrightarrow> f (push_bit i 1) = g (push_bit i 1)"
  shows "f a = g a"
proof -
  have "f a = gf_sum (bit a) (\<lambda>i. f (push_bit i 1)) [0..<8]"
    using additive_sum[OF assms(1)] byte_bits[of a] by metis
  also have "\<dots> = gf_sum (bit a) (\<lambda>i. g (push_bit i 1)) [0..<8]"
    using assms(3) by (intro gf_sum_cong) auto
  also have "\<dots> = g a"
    using additive_sum[OF assms(2)] byte_bits[of a] by metis
  finally show ?thesis .
qed

lemma gf_double_additive: "additive gf_double"
  by (auto simp: additive_def gf_double_def push_bit_xor bit_xor_iff xor.assoc xor.left_commute)

lemma additive_comp: "additive f \<Longrightarrow> additive g \<Longrightarrow> additive (\<lambda>x. f (g x))"
  by (simp add: additive_def)

lemma additive_xor: "additive f \<Longrightarrow> additive g \<Longrightarrow> additive (\<lambda>x. f x XOR g x)"
  by (simp add: additive_def xor.assoc xor.left_commute)

lemma additive_id: "additive (\<lambda>x. x)"
  by (simp add: additive_def)

lemma gf_double_pow_additive: "additive (gf_double ^^ n)"
  by (induction n) (simp_all add: additive_def gf_double_additive[unfolded additive_def])

lemma less_8: "i < 8 \<Longrightarrow> i = 0 \<or> i = 1 \<or> i = 2 \<or> i = 3 \<or> i = 4 \<or> i = 5 \<or> i = 6 \<or> i = (7 :: nat)"
  by auto

text \<open>The eighth doubling is the one the polynomial reduces.\<close>

lemma gf_steps:
  "(gf_double ^^ 2) x = gf_double (gf_double x)" "(gf_double ^^ 3) x = gf_double ((gf_double ^^ 2) x)"
  "(gf_double ^^ 4) x = gf_double ((gf_double ^^ 3) x)" "(gf_double ^^ 5) x = gf_double ((gf_double ^^ 4) x)"
  "(gf_double ^^ 6) x = gf_double ((gf_double ^^ 5) x)" "(gf_double ^^ 7) x = gf_double ((gf_double ^^ 6) x)"
  "(gf_double ^^ 8) x = gf_double ((gf_double ^^ 7) x)"
  by (simp_all add: eval_nat_numeral)

lemma gf_double_8:
  "(gf_double ^^ 8) a = a XOR (gf_double ^^ 2) a XOR (gf_double ^^ 3) a XOR (gf_double ^^ 4) a"
proof (rule additive_eqI[where f = "gf_double ^^ 8"])
  show "additive (\<lambda>a. a XOR (gf_double ^^ 2) a XOR (gf_double ^^ 3) a XOR (gf_double ^^ 4) a)"
    by (intro additive_xor additive_id gf_double_pow_additive)
  fix i :: nat assume "i < 8"
  from less_8[OF this] show "(gf_double ^^ 8) (push_bit i 1) = push_bit i 1 XOR (gf_double ^^ 2) (push_bit i 1)
      XOR (gf_double ^^ 3) (push_bit i 1) XOR (gf_double ^^ 4) (push_bit i 1)"
    by (elim disjE) (simp_all add: gf_steps gf_double_def)
qed (rule gf_double_pow_additive)

lemma gf_times_sum: "gf_times a b = gf_sum (bit b) (\<lambda>i. (gf_double ^^ i) a) [0..<8]"
  by (simp add: gf_times_def gf_sum_def)

lemma gf_times_additive_right: "additive (gf_times a)"
proof (unfold additive_def, intro allI)
  fix x y :: u8
  have "bit (x XOR y) = (\<lambda>i. bit x i \<noteq> bit y i)" by (simp add: fun_eq_iff bit_xor_iff)
  then show "gf_times a (x XOR y) = gf_times a x XOR gf_times a y"
    by (simp only: gf_times_sum gf_sum_xor)
qed

lemma gf_times_power: "i < 8 \<Longrightarrow> gf_times a (push_bit i 1) = (gf_double ^^ i) a"
proof -
  assume i: "i < 8"
  have "bit (push_bit i 1 :: u8) = (\<lambda>j. j = i)" using i by (auto simp: bit_simps)
  then show ?thesis using i by (simp add: gf_times_sum gf_sum_single)
qed

lemma gf_times_double: "gf_times a (gf_double b) = gf_double (gf_times a b)"
proof (rule additive_eqI[where f = "\<lambda>b. gf_times a (gf_double b)"])
  show "additive (\<lambda>b. gf_times a (gf_double b))"
    by (rule additive_comp[OF gf_times_additive_right gf_double_additive])
  show "additive (\<lambda>b. gf_double (gf_times a b))"
    by (rule additive_comp[OF gf_double_additive gf_times_additive_right])
  fix i :: nat assume i: "i < 8"
  show "gf_times a (gf_double (push_bit i 1)) = gf_double (gf_times a (push_bit i 1))"
  proof (cases "i < 7")
    case True
    then have "gf_double (push_bit i 1) = push_bit (Suc i) 1"
      by (auto simp: gf_double_def bit_simps)
    then show ?thesis using gf_times_power[of "Suc i" a] gf_times_power[of i a] True by simp
  next
    case False
    then have "i = 7" using i by simp
    moreover have "gf_double (push_bit 7 1) = 0x1d" by (simp add: gf_double_def)
    moreover have "gf_times a 0x1d = a XOR (gf_double ^^ 2) a XOR (gf_double ^^ 3) a XOR (gf_double ^^ 4) a"
      by (simp add: gf_times_sum upt_conv_Cons gf_steps)
    ultimately show ?thesis
      using gf_double_8[of a] gf_times_power[of 7 a] by (simp add: gf_steps(7))
  qed
qed

lemma gf_times_zero_left: "gf_times 0 b = 0"
proof -
  have "gf_sum P (\<lambda>i. 0) is = 0" for P "is" by (induction "is") simp_all
  then show ?thesis by (simp add: gf_times_sum additive_zero[OF gf_double_pow_additive])
qed

lemma gf_times_pow: "gf_times a (gf_pow n) = (gf_double ^^ n) a"
proof (induction n)
  case 0
  show ?case using gf_times_power[of 0 a] by (simp add: gf_pow_def)
next
  case (Suc n)
  then show ?case by (simp add: gf_pow_def gf_times_double)
qed

lemma gf_pow_add: "gf_times (gf_pow m) (gf_pow n) = gf_pow (m + n)"
  unfolding gf_times_pow by (simp add: gf_pow_def funpow_add add.commute[of m])

section \<open>The tables\<close>

lemma gf_table_steps: "list_all (\<lambda>(x, y). gf_double (word_of_nat x) = word_of_nat y) (zip gf_pow2_table (tl gf_pow2_table))"
  by (simp add: gf_pow2_table_def gf_double_def)

lemma gf_table_no_one: "list_all (\<lambda>x. 1 < x \<and> x < 256) (butlast (tl gf_pow2_table))"
  by (simp add: gf_pow2_table_def)

lemma gf_table_ends: "length gf_pow2_table = 256" "hd gf_pow2_table = 1" "last gf_pow2_table = 1"
  by (simp_all add: gf_pow2_table_def)

lemma gf_table_nth: "n < 256 \<Longrightarrow> word_of_nat (gf_pow2_table ! n) = gf_pow n"
proof (induction n)
  case 0
  then show ?case using gf_table_ends by (simp add: gf_pow_def hd_conv_nth[symmetric] length_greater_0_conv[symmetric])
next
  case (Suc n)
  have "(gf_pow2_table ! n, gf_pow2_table ! Suc n) \<in> set (zip gf_pow2_table (tl gf_pow2_table))"
    using Suc.prems gf_table_ends(1) by (auto simp: in_set_zip nth_tl intro!: exI[of _ n])
  then have "gf_double (word_of_nat (gf_pow2_table ! n)) = word_of_nat (gf_pow2_table ! Suc n)"
    using gf_table_steps by (auto simp: list_all_iff)
  then show ?case using Suc by (simp add: gf_pow_def)
qed

lemma gf_pow_255: "gf_pow 255 = 1"
  using gf_table_nth[of 255] gf_table_ends last_conv_nth[of gf_pow2_table]
  by (simp add: length_greater_0_conv[symmetric] del: length_greater_0_conv)

lemma gf_pow_not_one: "0 < n \<Longrightarrow> n < 255 \<Longrightarrow> gf_pow n \<noteq> 1"
proof -
  assume n: "0 < n" "n < 255"
  then have "gf_pow2_table ! n = butlast (tl gf_pow2_table) ! (n - 1)" "n - 1 < length (butlast (tl gf_pow2_table))"
    using gf_table_ends(1) by (simp_all add: nth_butlast nth_tl)
  then have b: "1 < gf_pow2_table ! n" "gf_pow2_table ! n < 256"
    using gf_table_no_one by (auto simp: list_all_length)
  then have "unat (word_of_nat (gf_pow2_table ! n) :: u8) = gf_pow2_table ! n" by (simp add: unat_of_nat)
  then show "gf_pow n \<noteq> 1" using gf_table_nth[of n] n(2) b(1) by force
qed

lemma gf_double_255: "(gf_double ^^ 255) a = a"
  using gf_times_pow[of a 255] gf_times_pow[of a 0] gf_pow_255 by (simp add: gf_pow_def)

lemma gf_double_pow_inj: "(gf_double ^^ n) x = (gf_double ^^ n) y \<Longrightarrow> x = y"
proof (induction n)
  case (Suc n)
  have "(gf_double ^^ 254) (gf_double z) = z" for z
    using gf_double_255[of z] funpow_swap1[of gf_double 254 z] funpow.simps(2)[of 254 gf_double] by (simp add: comp_def)
  then have "(gf_double ^^ n) x = (gf_double ^^ n) y" using Suc.prems by (metis comp_apply funpow.simps(2))
  then show ?case by (rule Suc.IH)
qed simp

lemma gf_pow_inj: "inj_on gf_pow {..<255}"
proof (rule inj_onI, rule ccontr)
  fix i j :: nat assume ij: "i \<in> {..<255}" "j \<in> {..<255}" "gf_pow i = gf_pow j" "i \<noteq> j"
  have no: "gf_pow m \<noteq> gf_pow (m + d)" if "0 < d" "d < 255" for m d
  proof
    assume "gf_pow m = gf_pow (m + d)"
    then have "(gf_double ^^ m) 1 = (gf_double ^^ m) (gf_pow d)" by (simp add: gf_pow_def funpow_add)
    then have "gf_pow d = 1" using gf_double_pow_inj by fastforce
    then show False using gf_pow_not_one that by blast
  qed
  have "j - i < 255" "i - j < 255" using ij by auto
  then show False using no[of "j - i" i] no[of "i - j" j] ij by (cases "i < j") auto
qed

lemma gf_pow_nonzero: "gf_pow n \<noteq> 0"
  using gf_double_pow_inj[of n 1 0] additive_zero[OF gf_double_pow_additive] by (auto simp: gf_pow_def)

text \<open>Every byte but 0 is a power of 2.\<close>

lemma gf_pow_onto: "a \<noteq> 0 \<Longrightarrow> \<exists>n<255. gf_pow n = a"
proof -
  assume a: "a \<noteq> 0"
  have "gf_pow ` {..<255} \<subseteq> UNIV - {0}" using gf_pow_nonzero by auto
  moreover have "card (gf_pow ` {..<255}) = card (UNIV - {0 :: u8})"
    by (simp add: card_image[OF gf_pow_inj] card_word)
  ultimately have "gf_pow ` {..<255} = UNIV - {0}" by (intro card_subset_eq) simp_all
  then have "a \<in> gf_pow ` {..<255}" using a by simp
  then show ?thesis by auto
qed

lemma gf_pow_mod: "gf_pow (n mod 255) = gf_pow n"
proof -
  have "gf_pow (255 * k + m) = gf_pow m" for k m
    using gf_pow_add[of "255 * k" m] by (induction k) (simp_all add: gf_pow_def funpow_add gf_double_255)
  then show ?thesis by (metis mult_div_mod_eq)
qed

section \<open>The interface and its users\<close>

text \<open>What the header says of the two tables it declares.\<close>

locale gf_tables =
  fixes pow2 log2 :: "u8 list"
  assumes pow2_length: "length pow2 = 256" and log2_length: "length log2 = 256"
    and pow2_nth: "n < 256 \<Longrightarrow> pow2 ! n = gf_pow n"
    and log2_less: "a \<noteq> 0 \<Longrightarrow> unat (log2 ! unat (a :: u8)) < 255"
    and log2_nth: "a \<noteq> 0 \<Longrightarrow> gf_pow (unat (log2 ! unat (a :: u8))) = a"
begin

definition lg :: "u8 \<Rightarrow> nat" where "lg a = unat (log2 ! unat a)"

lemma lg: "a \<noteq> 0 \<Longrightarrow> lg a < 255" "a \<noteq> 0 \<Longrightarrow> gf_pow (lg a) = a"
  using log2_less log2_nth by (simp_all add: lg_def)

lemma tbl_pow2: "unat w < 256 \<Longrightarrow> tbl pow2 w = Inr (ucast (gf_pow (unat w)))"
  by (simp add: tbl_def pow2_length pow2_nth)

lemma tbl_log2: "tbl log2 (ucast (a :: u8)) = Inr (word_of_nat (lg a))"
proof -
  have "unat a < 256" using unsigned_less[of a, where ?'a = nat] by simp
  moreover have "unat (ucast a :: u32) = unat a"
    by (simp add: unsigned_ucast_eq take_bit_nat_eq_self order_less_trans[OF unat_u8_less])
  ultimately show ?thesis by (simp add: tbl_def log2_length lg_def)
qed

lemma ucast_byte_0: "ucast (a :: u8) = (0 :: u32) \<longleftrightarrow> a = 0"
  by transfer simp

lemma unat_lg: "a \<noteq> 0 \<Longrightarrow> unat (word_of_nat (lg a) :: u32) = lg a"
  using lg(1)[of a] by (simp add: unat_of_nat)

lemma mod_small: "unat (w mod 255 :: u32) < 256"
  by (simp add: unat_mod)

lemma mul_times: "gf_mul pow2 log2 (ucast a) (ucast b) = Inr (ucast (gf_times a b))"
proof (cases "a = 0 \<or> b = 0")
  case True
  then show ?thesis
    using gf_times_zero_left[of b] additive_zero[OF gf_times_additive_right, of a] by (auto simp: gf_mul_def ucast_byte_0)
next
  case False
  let ?l = "(word_of_nat (lg a) + word_of_nat (lg b)) mod 255 :: u32"
  have l: "unat ?l = (lg a + lg b) mod 255"
    using False lg(1)[of a] lg(1)[of b] unat_lg[of a] unat_lg[of b]
    by (simp add: unat_mod unat_word_ariths)
  have "gf_pow (unat ?l) = gf_times a b"
    using gf_pow_add[of "lg a" "lg b"] gf_pow_mod[of "lg a + lg b"] lg(2) False l by simp
  then show ?thesis using False tbl_pow2[OF mod_small] by (simp add: gf_mul_def tbl_log2 ucast_byte_0)
qed

lemma div_times:
  assumes "b \<noteq> 0"
  shows "\<exists>q. gf_div pow2 log2 (ucast a) (ucast b) = Inr (ucast q) \<and> gf_times q b = a"
proof (cases "a = 0")
  case True
  then show ?thesis using assms gf_times_zero_left[of b]
    by (intro exI[of _ 0]) (simp add: gf_div_def ASSERT_def word_gt_0 ucast_byte_0)
next
  case False
  let ?l = "(255 + word_of_nat (lg a) - word_of_nat (lg b)) mod 255 :: u32"
  have "unat (255 + word_of_nat (lg a) :: u32) = 255 + lg a"
    using lg(1)[OF False] unat_lg[OF False] by (simp add: unat_word_ariths)
  moreover have "unat (word_of_nat (lg b) :: u32) \<le> 255 + lg a"
    using lg(1)[OF assms] unat_lg[OF assms] by simp
  ultimately have l: "unat ?l = (255 + lg a - lg b) mod 255"
    using unat_lg[OF assms] by (simp add: unat_mod unat_sub word_le_nat_alt)
  have "gf_times (gf_pow (unat ?l)) b = gf_pow (255 + lg a - lg b + lg b)"
    using gf_pow_add[of "255 + lg a - lg b" "lg b"] gf_pow_mod[of "255 + lg a - lg b"] lg(2)[OF assms] l by simp
  also have "\<dots> = gf_pow ((255 + lg a) mod 255)"
    using lg(1)[OF assms] by (subst gf_pow_mod) simp
  also have "\<dots> = a" using lg[OF False] by simp
  finally show ?thesis
    using False assms tbl_pow2[OF mod_small] by (auto simp: gf_div_def ASSERT_def word_gt_0 ucast_byte_0 tbl_log2)
qed

lemma inv_times:
  assumes "a \<noteq> 0"
  shows "\<exists>q. gf_inv pow2 log2 (ucast a) = Inr (ucast q) \<and> gf_times q a = 1"
proof -
  let ?l = "255 - word_of_nat (lg a) :: u32"
  have l: "unat ?l = 255 - lg a"
    using lg(1)[OF assms] unat_lg[OF assms] by (simp add: unat_sub word_le_nat_alt)
  have "gf_times (gf_pow (unat ?l)) a = gf_pow (255 - lg a + lg a)"
    using gf_pow_add[of "255 - lg a" "lg a"] lg(2)[OF assms] l by simp
  then have "gf_times (gf_pow (unat ?l)) a = 1" using lg(1)[OF assms] gf_pow_255 by simp
  moreover have "unat ?l < 256" using l by simp
  ultimately show ?thesis
    using assms tbl_pow2[of ?l] by (auto simp: gf_inv_def ASSERT_def word_gt_0 ucast_byte_0 tbl_log2)
qed

lemma exp2_pow: "gf_exp2 pow2 e = Inr (ucast (gf_pow (unat e)))"
  using tbl_pow2[OF mod_small, of e] gf_pow_mod[of "unat e"] by (simp add: gf_exp2_def unat_mod)

lemma exp4_pow: "e \<le> 255 \<Longrightarrow> gf_exp4 pow2 e = Inr (ucast (gf_pow (2 * unat e)))"
proof -
  assume e: "e \<le> 255"
  then have "unat e \<le> 255" by (simp add: word_le_nat_alt)
  then have "unat (2 * e) = 2 * unat e" by (simp add: unat_word_ariths)
  then show ?thesis
    using e tbl_pow2[OF mod_small, of "2 * e"] gf_pow_mod[of "2 * unat e"]
    by (simp add: gf_exp4_def ASSERT_def unat_mod)
qed

lemma raidz_exp2_times:
  assumes "unat e + 255 \<le> 2 ^ 32"
  shows "vdev_raidz_exp2 pow2 log2 a e = Inr (ucast (gf_times a (gf_pow (unat e))))"
proof (cases "a = 0")
  case True
  then show ?thesis using gf_times_zero_left by (simp add: vdev_raidz_exp2_def)
next
  case False
  let ?l = "(e + word_of_nat (lg a)) mod 255"
  have "unat ?l = (unat e + lg a) mod 255"
    using assms lg(1)[OF False] unat_lg[OF False] by (simp add: unat_mod unat_word_ariths)
  then have "gf_pow (unat ?l) = gf_times (gf_pow (lg a)) (gf_pow (unat e))"
    using gf_pow_mod[of "unat e + lg a"] gf_pow_add[of "lg a" "unat e"] by (simp add: add.commute)
  then show ?thesis
    using False lg(2)[OF False] tbl_pow2[OF mod_small] by (simp add: vdev_raidz_exp2_def tbl_log2)
qed

end

text \<open>The tables of powers and of logarithms, computed.\<close>

definition gf_log :: "u8 \<Rightarrow> nat" where
  "gf_log a = (case find (\<lambda>n. gf_pow n = a) [0..<255] of Some n \<Rightarrow> n | None \<Rightarrow> 0)"

definition zfs_pow2 :: "u8 list" where "zfs_pow2 = map word_of_nat gf_pow2_table"
definition zfs_log2 :: "u8 list" where
  "zfs_log2 = map (\<lambda>k. word_of_nat (gf_log (word_of_nat k))) [0..<256]"

lemma gf_log: "a \<noteq> 0 \<Longrightarrow> gf_log a < 255 \<and> gf_pow (gf_log a) = a"
proof -
  assume "a \<noteq> 0"
  then obtain n where "n < 255" "gf_pow n = a" using gf_pow_onto by blast
  then obtain k where "find (\<lambda>n. gf_pow n = a) [0..<255] = Some k"
    by (cases "find (\<lambda>n. gf_pow n = a) [0..<255]") (auto simp: find_None_iff)
  then have "gf_log a = k" and "k < 255" and "gf_pow k = a"
    by (simp_all add: gf_log_def) (auto simp: find_Some_iff)
  then show ?thesis by simp
qed

interpretation zfs_gf: gf_tables zfs_pow2 zfs_log2
proof unfold_locales
  fix a :: u8 assume a: "a \<noteq> 0"
  have "unat a < 256" using unsigned_less[of a, where ?'a = nat] by simp
  then have "zfs_log2 ! unat a = word_of_nat (gf_log a)" by (simp add: zfs_log2_def)
  moreover have "unat (word_of_nat (gf_log a) :: u8) = gf_log a" using gf_log[OF a] by (simp add: unat_of_nat)
  ultimately show "unat (zfs_log2 ! unat a) < 255" "gf_pow (unat (zfs_log2 ! unat a)) = a"
    using gf_log[OF a] by simp_all
qed (simp_all add: zfs_pow2_def zfs_log2_def gf_table_nth gf_table_ends)

section \<open>Properties\<close>

text \<open>C13: With tables that hold the powers of 2 in the field and their logarithms, \<open>gf_mul\<close>
  is the product of polynomials over the two-element field modulo x^8+x^4+x^3+x^2+1 (the
  sum of shifted factors), \<open>gf_div\<close> and \<open>gf_inv\<close> undo it, \<open>gf_exp2\<close> and \<open>gf_exp4\<close> are
  powers of 2 and 4, and \<open>vdev_raidz_exp2\<close> multiplies by a power of 2, for divisors other than 0
  and exponents up to 255; no access leaves the tables and no sum of logarithms wraps.\<close>

theorem raidz_field:
  assumes t: "gf_tables pow2 log2" and b: "b \<noteq> 0" and e: "e \<le> 255"
  shows "gf_mul pow2 log2 (ucast a) (ucast b) = Inr (ucast (gf_times a b))
    \<and> (\<exists>q. gf_div pow2 log2 (ucast a) (ucast b) = Inr (ucast q) \<and> gf_times q b = a)
    \<and> (\<exists>q. gf_inv pow2 log2 (ucast b) = Inr (ucast q) \<and> gf_times q b = 1)
    \<and> gf_exp2 pow2 e = Inr (ucast (gf_pow (unat e))) \<and> gf_exp4 pow2 e = Inr (ucast (gf_pow (2 * unat e)))
    \<and> vdev_raidz_exp2 pow2 log2 a e = Inr (ucast (gf_times a (gf_pow (unat e))))"
proof -
  have "unat e + 255 \<le> 2 ^ 32" using e by (simp add: word_le_nat_alt)
  then show ?thesis
    using gf_tables.mul_times[OF t] gf_tables.div_times[OF t b] gf_tables.inv_times[OF t b]
      gf_tables.exp2_pow[OF t] gf_tables.exp4_pow[OF t e] gf_tables.raidz_exp2_times[OF t] by simp
qed

theorem raidz_field_witness:
  "gf_mul zfs_pow2 zfs_log2 (ucast (0x53 :: u8)) (ucast (0xca :: u8)) = Inr (ucast (gf_times 0x53 0xca))
    \<and> (\<exists>q. gf_div zfs_pow2 zfs_log2 (ucast (0x53 :: u8)) (ucast (0xca :: u8)) = Inr (ucast q) \<and> gf_times q 0xca = 0x53)
    \<and> (\<exists>q. gf_inv zfs_pow2 zfs_log2 (ucast (0xca :: u8)) = Inr (ucast q) \<and> gf_times q 0xca = 1)
    \<and> gf_exp2 zfs_pow2 9 = Inr (ucast (gf_pow (unat (9 :: u32)))) \<and> gf_exp4 zfs_pow2 9 = Inr (ucast (gf_pow (2 * unat (9 :: u32))))
    \<and> vdev_raidz_exp2 zfs_pow2 zfs_log2 0x53 9 = Inr (ucast (gf_times 0x53 (gf_pow (unat (9 :: u32)))))"
  by (rule raidz_field[OF zfs_gf.gf_tables_axioms]) simp_all

end
