(* ===== verification/Layout.thy ===== *)
theory Layout
  imports Codec
begin

text \<open>
  The layout a C compiler gives a structure: every member at the next offset its alignment
  allows, the size rounded up to the alignment of the whole, the members of a union on top
  of each other. What differs between the machines that share these structures is the size
  of a pointer and the alignment of 64-bit integers, an \<open>abi\<close>. A structure is flattened to
  its leaves, the scalar members and byte arrays with their offsets, and the interface
  \<open>struct_layout\<close> turns the facts about leaves into reading and writing laws.
\<close>

section \<open>Types\<close>

named_theorems layout "the declared structures"
named_theorems layout_eval "what evaluates a layout"

record abi =
  abi_ptr :: nat
  abi_align64 :: nat

definition LP64 :: abi where "LP64 = \<lparr>abi_ptr = 8, abi_align64 = 8\<rparr>"
definition ILP32 :: abi where "ILP32 = \<lparr>abi_ptr = 4, abi_align64 = 8\<rparr>"
definition I386 :: abi where "I386 = \<lparr>abi_ptr = 4, abi_align64 = 4\<rparr>"

lemma abi_fields [layout_eval]:
  "abi_ptr LP64 = 8" "abi_align64 LP64 = 8" "abi_ptr ILP32 = 4" "abi_align64 ILP32 = 8"
  "abi_ptr I386 = 4" "abi_align64 I386 = 4"
  by (simp_all add: LP64_def ILP32_def I386_def)

datatype c_type = U8 | U16 | U32 | U64 | Ptr | Chars nat | Arr nat c_type
  | Struct "(string \<times> c_type) list" | Union "(string \<times> c_type) list"

definition align_up :: "nat \<Rightarrow> nat \<Rightarrow> nat" where [layout_eval]:
  "align_up o' a = (o' + a - 1) div a * a"

fun alignof :: "abi \<Rightarrow> c_type \<Rightarrow> nat" where
  "alignof A U8 = 1"
| "alignof A U16 = 2"
| "alignof A U32 = 4"
| "alignof A U64 = abi_align64 A"
| "alignof A Ptr = abi_ptr A"
| "alignof A (Chars n) = 1"
| "alignof A (Arr n t) = alignof A t"
| "alignof A (Struct fs) = foldr (\<lambda>p m. max (alignof A (snd p)) m) fs 1"
| "alignof A (Union fs) = foldr (\<lambda>p m. max (alignof A (snd p)) m) fs 1"

fun sizeof :: "abi \<Rightarrow> c_type \<Rightarrow> nat" where
  "sizeof A U8 = 1"
| "sizeof A U16 = 2"
| "sizeof A U32 = 4"
| "sizeof A U64 = 8"
| "sizeof A Ptr = abi_ptr A"
| "sizeof A (Chars n) = n"
| "sizeof A (Arr n t) = n * sizeof A t"
| "sizeof A (Struct fs) =
     align_up (foldl (\<lambda>o' p. align_up o' (alignof A (snd p)) + sizeof A (snd p)) 0 fs) (alignof A (Struct fs))"
| "sizeof A (Union fs) =
     align_up (foldr (\<lambda>p m. max (sizeof A (snd p)) m) fs 0) (alignof A (Union fs))"

text \<open>The offset of each member of a structure.\<close>

fun members :: "abi \<Rightarrow> nat \<Rightarrow> (string \<times> c_type) list \<Rightarrow> (string \<times> nat \<times> c_type) list" where
  "members A o' [] = []"
| "members A o' ((x, t) # fs) =
     (let k = align_up o' (alignof A t) in (x, k, t) # members A (k + sizeof A t) fs)"

fun offsetof :: "abi \<Rightarrow> c_type \<Rightarrow> string list \<Rightarrow> nat option" where
  "offsetof A t [] = Some 0"
| "offsetof A (Struct fs) (x # xs) =
     (case map_of (members A 0 fs) x of None \<Rightarrow> None | Some (k, t) \<Rightarrow> map_option ((+) k) (offsetof A t xs))"
| "offsetof A (Union fs) (x # xs) =
     (case map_of fs x of None \<Rightarrow> None | Some t \<Rightarrow> offsetof A t xs)"
| "offsetof A t (x # xs) = None"

text \<open>The leaves of a type placed at an offset: name, offset and width.\<close>

type_synonym leaf = "string \<times> nat \<times> nat"

lemma member_size: "(x, t) \<in> set fs \<Longrightarrow> size t < Suc (size_list (size_prod (\<lambda>x. 0) size) fs)"
  by (induction fs) (auto simp: less_Suc_eq)

abbreviation off :: "leaf \<Rightarrow> nat" where "off l \<equiv> fst (snd l)"
abbreviation wid :: "leaf \<Rightarrow> nat" where "wid l \<equiv> snd (snd l)"

definition shift_leaf :: "nat \<Rightarrow> leaf \<Rightarrow> leaf" where [layout_eval]:
  "shift_leaf j = (\<lambda>(x, k, w). (x, j + k, w))"

function (sequential) leaves :: "abi \<Rightarrow> string \<Rightarrow> c_type \<Rightarrow> leaf list"
  and member_leaves :: "abi \<Rightarrow> nat \<Rightarrow> (string \<times> c_type) list \<Rightarrow> leaf list" where
  "leaves A x (Arr n t) = concat (map (\<lambda>i. map (shift_leaf (i * sizeof A t)) (leaves A x t)) [0..<n])"
| "leaves A x (Struct fs) = member_leaves A 0 fs"
| "leaves A x (Union fs) = concat (map (\<lambda>p. leaves A (fst p) (snd p)) fs)"
| "leaves A x t = [(x, 0, sizeof A t)]"
| "member_leaves A k [] = []"
| "member_leaves A k ((x, t) # fs) =
     map (shift_leaf (align_up k (alignof A t))) (leaves A x t)
     @ member_leaves A (align_up k (alignof A t) + sizeof A t) fs"
  by pat_completeness auto
termination
  by (relation "measure (case_sum (\<lambda>(A, x, t). 2 * size t) (\<lambda>(A, k, fs). 2 * size (Struct fs) - 1))")
    (auto dest: member_size)

section \<open>Where the leaves are\<close>

text \<open>An order of the machine's alignments: each divides the next, as on every machine above.\<close>

definition abi_ok :: "abi \<Rightarrow> bool" where
  "abi_ok A \<longleftrightarrow> abi_ptr A \<in> {4, 8} \<and> abi_align64 A \<in> {4, 8}"

lemma abis [simp]: "abi_ok LP64" "abi_ok ILP32" "abi_ok I386"
  by (simp_all add: abi_ok_def LP64_def ILP32_def I386_def)

lemma align_up_ge: "0 < a \<Longrightarrow> k \<le> align_up k a"
proof -
  assume a: "0 < a"
  then have "k + a - 1 < a + (k + a - 1) div a * a" by (rule dividend_less_div_times)
  then show ?thesis by (simp add: align_up_def algebra_simps)
qed

lemma align_up_dvd: "a dvd align_up k a"
  by (simp add: align_up_def)

lemma alignof_pos: "abi_ok A \<Longrightarrow> 0 < alignof A t"
proof (induction A t rule: alignof.induct)
  case (8 A fs)
  then show ?case by (induction fs) auto
next
  case (9 A fs)
  then show ?case by (induction fs) auto
qed (auto simp: abi_ok_def)

fun no_union :: "c_type \<Rightarrow> bool" where
  "no_union (Arr n t) = no_union t"
| "no_union (Struct fs) = list_all (\<lambda>p. no_union (snd p)) fs"
| "no_union (Union fs) = False"
| "no_union t = True"

text \<open>Leaves that follow each other inside an interval.\<close>

definition within :: "nat \<Rightarrow> nat \<Rightarrow> leaf list \<Rightarrow> bool" where
  "within lo hi ls \<longleftrightarrow> sorted_wrt (\<lambda>l m. off l + wid l \<le> off m) ls
     \<and> (\<forall>l \<in> set ls. lo \<le> off l \<and> off l + wid l \<le> hi)"

lemma within_append: "within lo mid ls \<Longrightarrow> within mid' hi ms \<Longrightarrow> mid \<le> mid' \<Longrightarrow> lo \<le> mid' \<Longrightarrow> mid \<le> hi \<Longrightarrow> within lo hi (ls @ ms)"
  by (fastforce simp: within_def sorted_wrt_append)

lemma within_mono: "within lo hi ls \<Longrightarrow> lo' \<le> lo \<Longrightarrow> hi \<le> hi' \<Longrightarrow> within lo' hi' ls"
  by (fastforce simp: within_def)

definition fields_end :: "abi \<Rightarrow> nat \<Rightarrow> (string \<times> c_type) list \<Rightarrow> nat" where
  "fields_end A = foldl (\<lambda>k p. align_up k (alignof A (snd p)) + sizeof A (snd p))"

lemma fields_end_simps [simp]:
  "fields_end A k [] = k"
  "fields_end A k ((x, t) # fs) = fields_end A (align_up k (alignof A t) + sizeof A t) fs"
  by (simp_all add: fields_end_def)

lemma fields_end_ge: "abi_ok A \<Longrightarrow> k \<le> fields_end A k fs"
proof (induction fs arbitrary: k)
  case (Cons p fs)
  obtain x t where p: "p = (x, t)" by (cases p)
  have "k \<le> align_up k (alignof A t) + sizeof A t"
    using align_up_ge[OF alignof_pos[OF Cons.prems], of k t] by simp
  also have "\<dots> \<le> fields_end A \<dots> fs" using Cons by simp
  finally show ?case by (simp add: p)
qed simp

lemma sizeof_struct: "sizeof A (Struct fs) = align_up (fields_end A 0 fs) (alignof A (Struct fs))"
  by (simp add: fields_end_def)

lemma sizeof_struct_ge: "abi_ok A \<Longrightarrow> fields_end A 0 fs \<le> sizeof A (Struct fs)"
  unfolding sizeof_struct by (rule align_up_ge[OF alignof_pos])

lemma within_shift: "within lo hi ls \<Longrightarrow> within (j + lo) (j + hi) (map (shift_leaf j) ls)"
  by (auto simp: within_def sorted_wrt_map shift_leaf_def case_prod_beta)

lemma within_rows:
  "within 0 s ls \<Longrightarrow> within 0 (n * s) (concat (map (\<lambda>i. map (shift_leaf (i * s)) ls) [0..<n]))"
proof (induction n)
  case (Suc n)
  have "within (n * s) (Suc n * s) (map (shift_leaf (n * s)) ls)"
    using within_shift[OF Suc.prems, of "n * s"] by (simp add: add.commute)
  then show ?case using Suc by (auto intro!: within_append[where mid = "n * s" and mid' = "n * s"])
qed (simp add: within_def)

lemma leaves_within:
  "abi_ok A \<Longrightarrow> no_union t \<Longrightarrow> within 0 (sizeof A t) (leaves A x t)"
  "abi_ok A \<Longrightarrow> no_union (Struct fs) \<Longrightarrow> within k (fields_end A k fs) (member_leaves A k fs)"
proof (induction A x t and A k fs rule: leaves_member_leaves.induct)
  case (1 A x n t)
  then show ?case by (cases "n = 0") (simp_all add: within_rows, simp add: within_def)
next
  case (2 A x fs)
  then show ?case using within_mono[of 0 "fields_end A 0 fs" _ 0 "sizeof A (Struct fs)"] sizeof_struct_ge by simp
next
  case (6 A k x t fs)
  let ?o = "align_up k (alignof A t)"
  have o: "k \<le> ?o" by (rule align_up_ge[OF alignof_pos[OF 6(3)]])
  have "within k (?o + sizeof A t) (map (shift_leaf ?o) (leaves A x t))"
    using within_mono[OF within_shift[OF 6(1)]] 6 o by simp
  then show ?case
    using within_append[OF _ 6(2)] 6(3,4) o fields_end_ge[OF 6(3)] by simp
qed (simp_all add: within_def)

section \<open>Structures without hidden padding\<close>

definition fetch :: "leaf \<Rightarrow> bytes \<Rightarrow> bytes" where
  "fetch l bs = take (wid l) (drop (off l) bs)"

definition packed :: "abi \<Rightarrow> c_type \<Rightarrow> bool" where [layout_eval]:
  "packed A t \<longleftrightarrow> no_union t \<and> sum_list (map wid (leaves A [] t)) = sizeof A t"

text \<open>The same bytes mean the same on every machine of the list.\<close>

definition portable :: "c_type \<Rightarrow> bool" where [layout_eval]:
  "portable t \<longleftrightarrow> leaves ILP32 [] t = leaves LP64 [] t \<and> sizeof ILP32 t = sizeof LP64 t
     \<and> leaves I386 [] t = leaves LP64 [] t \<and> sizeof I386 t = sizeof LP64 t"

declare numeral_2_eq_2 [symmetric, layout_eval]

lemma upt_layout [layout_eval]:
  "[0..<numeral n] = 0 # [Suc 0..<numeral n]"
  "[Suc 0..<numeral n] = (if Suc 0 < numeral n then Suc 0 # [2..<numeral n] else [])"
  by (simp_all add: upt_rec numeral_2_eq_2)

declare upt_rec_numeral [layout_eval]

lemma within_Cons:
  "within lo hi (l # ls) \<longleftrightarrow> lo \<le> off l \<and> off l + wid l \<le> hi \<and> within (off l + wid l) hi ls"
  by (fastforce simp: within_def)

lemma within_sum: "within lo hi ls \<Longrightarrow> lo \<le> hi \<Longrightarrow> lo + sum_list (map wid ls) \<le> hi"
proof (induction ls arbitrary: lo)
  case (Cons l ls)
  then show ?case using Cons.IH[of "off l + wid l"] by (force simp: within_Cons)
qed simp

lemma tiles:
  assumes "within lo hi ls" and "lo + sum_list (map wid ls) = hi" and "hi \<le> length bs"
  shows "concat (map (\<lambda>l. fetch l bs) ls) = take (hi - lo) (drop lo bs)"
  using assms
proof (induction ls arbitrary: lo)
  case (Cons l ls)
  then have w: "within (off l + wid l) hi ls" "off l + wid l \<le> hi" "lo \<le> off l" by (simp_all add: within_Cons)
  have o: "off l = lo" using within_sum[OF w(1,2)] w(3) Cons.prems(2) by simp
  have "take (hi - lo) (drop lo bs) = take (wid l) (drop lo bs) @ take (hi - lo - wid l) (drop (lo + wid l) bs)"
    using w(2) o take_add[of "wid l" "hi - lo - wid l" "drop lo bs"] by (simp add: add.commute)
  then show ?case using Cons.IH[of "off l + wid l"] w Cons.prems(2,3) o by (simp add: fetch_def add.commute)
qed simp

lemma fetch_written:
  assumes "within lo hi ls" and "lo + sum_list (map wid ls) = hi" and "length pre = lo"
    and "map length vs = map wid ls"
  shows "map (\<lambda>l. fetch l (pre @ concat vs)) ls = vs"
  using assms
proof (induction ls arbitrary: lo pre vs)
  case (Cons l ls)
  then obtain v vs' where vs: "vs = v # vs'" "length v = wid l" "map length vs' = map wid ls" by (cases vs) auto
  have w: "within (off l + wid l) hi ls" "off l + wid l \<le> hi" "lo \<le> off l"
    using Cons.prems(1) by (simp_all add: within_Cons)
  have o: "off l = lo" using within_sum[OF w(1,2)] w(3) Cons.prems(2) by simp
  show ?case
    using Cons.IH[OF w(1), of "pre @ v" vs'] Cons.prems(2,3) vs o by (simp add: fetch_def)
qed simp

locale packed_struct =
  fixes A :: abi and t :: c_type
  assumes machine: "abi_ok A" and packed: "packed A t"
begin

abbreviation fields :: "leaf list" where "fields \<equiv> leaves A [] t"

lemma fields_within: "within 0 (sizeof A t) fields"
  using leaves_within(1)[OF machine] packed by (simp add: packed_def)

lemma fields_sum: "0 + sum_list (map wid fields) = sizeof A t"
  using packed by (simp add: packed_def)

end

sublocale packed_struct \<subseteq> codec "\<lambda>vs. map length vs = map wid (leaves A [] t)" concat
  "\<lambda>bs. map (\<lambda>l. fetch l bs) (leaves A [] t)" "sizeof A t"
proof unfold_locales
  fix vs :: "bytes list" assume vs: "map length vs = map wid fields"
  then show "length (concat vs) = sizeof A t" using fields_sum by (simp add: length_concat)
  show "map (\<lambda>l. fetch l (concat vs)) fields = vs"
    using fetch_written[OF fields_within fields_sum, of "[]"] vs by simp
next
  fix bs :: bytes assume l: "length bs = sizeof A t"
  have "length (fetch l' bs) = wid l'" if "l' \<in> set fields" for l'
    using that fields_within l by (auto simp: fetch_def within_def)
  then show "map length (map (\<lambda>l. fetch l bs) fields) = map wid fields" by simp
  show "concat (map (\<lambda>l. fetch l bs) fields) = bs"
    using tiles[OF fields_within fields_sum, of bs] l by simp
qed

context packed_struct begin

lemma fields_codec:
  "codec (\<lambda>vs. map length vs = map wid (leaves A [] t)) concat
    (\<lambda>bs. map (\<lambda>l. fetch l bs) (leaves A [] t)) (sizeof A t)"
  by unfold_locales

end

section \<open>Scalar members of an object in memory\<close>

text \<open>An object is its bytes; a member is read at its offset. A path that names no member reads
  past the end, whose bytes are unspecified.\<close>

definition get32 :: "bytes \<Rightarrow> nat \<Rightarrow> u32" where
  "get32 bs k = ucast (glue64 (rev (take 4 (drop k bs))))"

definition member :: "c_type \<Rightarrow> string \<Rightarrow> nat" where
  "member t x = (case offsetof LP64 t [x] of Some k \<Rightarrow> k | None \<Rightarrow> sizeof LP64 t)"

definition field8 :: "c_type \<Rightarrow> string \<Rightarrow> bytes \<Rightarrow> u8" where
  "field8 t x bs = bs ! member t x"
definition field16 :: "c_type \<Rightarrow> string \<Rightarrow> bytes \<Rightarrow> u16" where
  "field16 t x bs = get16 bs (member t x)"
definition field32 :: "c_type \<Rightarrow> string \<Rightarrow> bytes \<Rightarrow> u32" where
  "field32 t x bs = get32 bs (member t x)"
definition field64 :: "c_type \<Rightarrow> string \<Rightarrow> bytes \<Rightarrow> u64" where
  "field64 t x bs = get64 bs (member t x)"

end
