(* ===== verification/Pool_Layout.thy ===== *)
theory Pool_Layout
  imports Layout
begin

text \<open>
  The persistent structures of the pool as the headers under \<open>extractor/include/sys\<close> declare
  them: checksums and block pointers, the uberblock and the label, dnodes and object sets,
  the DSL objects, space maps, and the znodes of old file systems. Types are named after the
  C types, with \<open>_layout\<close> where the name is already the type of a record.
\<close>

section \<open>Block pointers and labels\<close>

definition zio_cksum_layout :: c_type where [layout]:
  "zio_cksum_layout = Struct
    [(''zc_word'', Arr 4 U64)]"

definition dva_layout :: c_type where [layout]:
  "dva_layout = Struct
    [(''dva_word'', Arr 2 U64)]"

definition blkptr_layout :: c_type where [layout]:
  "blkptr_layout = Struct
    [(''blk_dva'', Arr 3 dva_layout), (''blk_prop'', U64), (''blk_pad'', Arr 2 U64),
     (''blk_phys_birth'', U64), (''blk_birth'', U64), (''blk_fill'', U64),
     (''blk_cksum'', zio_cksum_layout)]"

definition zio_eck_layout :: c_type where [layout]:
  "zio_eck_layout = Struct
    [(''zec_magic'', U64), (''zec_cksum'', zio_cksum_layout)]"

definition zbookmark_phys_layout :: c_type where [layout]:
  "zbookmark_phys_layout = Struct
    [(''zb_objset'', U64), (''zb_object'', U64), (''zb_level'', U64), (''zb_blkid'', U64)]"

definition uberblock_layout :: c_type where [layout]:
  "uberblock_layout = Struct
    [(''ub_magic'', U64), (''ub_version'', U64), (''ub_txg'', U64), (''ub_guid_sum'', U64),
     (''ub_timestamp'', U64), (''ub_rootbp'', blkptr_layout), (''ub_software_version'', U64),
     (''ub_mmp_magic'', U64), (''ub_mmp_delay'', U64), (''ub_mmp_seq'', U64),
     (''ub_checkpoint_txg'', U64)]"

definition vdev_phys_layout :: c_type where [layout]:
  "vdev_phys_layout = Struct
    [(''vp_nvlist'', Chars 114648), (''vp_zbt'', zio_eck_layout)]"

definition vdev_label_layout :: c_type where [layout]:
  "vdev_label_layout = Struct
    [(''vl_pad1'', Chars 8192), (''vl_pad2'', Chars 8192), (''vl_vdev_phys'', vdev_phys_layout),
     (''vl_uberblock'', Chars 131072)]"

section \<open>Objects\<close>

definition zil_header_t :: c_type where [layout]:
  "zil_header_t = Struct
    [(''zh_claim_txg'', U64), (''zh_replay_seq'', U64), (''zh_log'', blkptr_layout),
     (''zh_claim_blk_seq'', U64), (''zh_flags'', U64), (''zh_claim_lr_seq'', U64),
     (''zh_pad'', Arr 3 U64)]"

definition dnode_phys_layout :: c_type where [layout]:
  "dnode_phys_layout = Struct
    [(''dn_type'', U8), (''dn_indblkshift'', U8), (''dn_nlevels'', U8), (''dn_nblkptr'', U8),
     (''dn_bonustype'', U8), (''dn_checksum'', U8), (''dn_compress'', U8), (''dn_flags'', U8),
     (''dn_datablkszsec'', U16), (''dn_bonuslen'', U16), (''dn_extra_slots'', U8),
     (''dn_pad2'', Chars 3), (''dn_maxblkid'', U64), (''dn_used'', U64),
     (''dn_pad3'', Arr 4 U64), ([], Union [(''dn_blkptr'', Arr 3 blkptr_layout), ([], Struct
     [(''__dn_ignore1'', blkptr_layout), (''dn_bonus'', Chars 320)]), ([], Struct
     [(''__dn_ignore2'', blkptr_layout), (''__dn_ignore3'', Chars 192),
     (''dn_spill'', blkptr_layout)])])]"

definition objset_phys_t :: c_type where [layout]:
  "objset_phys_t = Struct
    [(''os_meta_dnode'', dnode_phys_layout), (''os_zil_header'', zil_header_t),
     (''os_type'', U64), (''os_flags'', U64), (''os_portable_mac'', Chars 32),
     (''os_local_mac'', Chars 32), (''os_pad0'', Chars 240),
     (''os_userused_dnode'', dnode_phys_layout), (''os_groupused_dnode'', dnode_phys_layout),
     (''os_projectused_dnode'', dnode_phys_layout), (''os_pad1'', Chars 1536)]"

definition dsl_dir_layout :: c_type where [layout]:
  "dsl_dir_layout = Struct
    [(''dd_creation_time'', U64), (''dd_head_dataset_obj'', U64), (''dd_parent_obj'', U64),
     (''dd_origin_obj'', U64), (''dd_child_dir_zapobj'', U64), (''dd_used_bytes'', U64),
     (''dd_compressed_bytes'', U64), (''dd_uncompressed_bytes'', U64), (''dd_quota'', U64),
     (''dd_reserved'', U64), (''dd_props_zapobj'', U64), (''dd_deleg_zapobj'', U64),
     (''dd_flags'', U64), (''dd_used_breakdown'', Arr 5 U64), (''dd_clones'', U64),
     (''dd_pad'', Arr 13 U64)]"

definition dsl_dataset_layout :: c_type where [layout]:
  "dsl_dataset_layout = Struct
    [(''ds_dir_obj'', U64), (''ds_prev_snap_obj'', U64), (''ds_prev_snap_txg'', U64),
     (''ds_next_snap_obj'', U64), (''ds_snapnames_zapobj'', U64), (''ds_num_children'', U64),
     (''ds_creation_time'', U64), (''ds_creation_txg'', U64), (''ds_deadlist_obj'', U64),
     (''ds_referenced_bytes'', U64), (''ds_compressed_bytes'', U64),
     (''ds_uncompressed_bytes'', U64), (''ds_unique_bytes'', U64), (''ds_fsid_guid'', U64),
     (''ds_guid'', U64), (''ds_flags'', U64), (''ds_bp'', blkptr_layout),
     (''ds_next_clones_obj'', U64), (''ds_props_obj'', U64), (''ds_userrefs_obj'', U64),
     (''ds_pad'', Arr 5 U64)]"

definition dsl_deadlist_phys_t :: c_type where [layout]:
  "dsl_deadlist_phys_t = Struct
    [(''dl_used'', U64), (''dl_comp'', U64), (''dl_uncomp'', U64), (''dl_pad'', Arr 37 U64)]"

definition bpobj_phys_t :: c_type where [layout]:
  "bpobj_phys_t = Struct
    [(''bpo_num_blkptrs'', U64), (''bpo_bytes'', U64), (''bpo_comp'', U64),
     (''bpo_uncomp'', U64), (''bpo_subobjs'', U64), (''bpo_num_subobjs'', U64)]"

definition bptree_phys_t :: c_type where [layout]:
  "bptree_phys_t = Struct
    [(''bt_begin'', U64), (''bt_end'', U64), (''bt_bytes'', U64), (''bt_comp'', U64),
     (''bt_uncomp'', U64)]"

definition bptree_entry_phys_t :: c_type where [layout]:
  "bptree_entry_phys_t = Struct
    [(''be_bp'', blkptr_layout), (''be_birth_txg'', U64), (''be_zb'', zbookmark_phys_layout)]"

definition space_map_phys_t :: c_type where [layout]:
  "space_map_phys_t = Struct
    [(''smp_object'', U64), (''smp_objsize'', U64), (''smp_alloc'', U64),
     (''smp_pad'', Arr 5 U64), (''smp_histogram'', Arr 32 U64)]"

definition spa_history_phys_t :: c_type where [layout]:
  "spa_history_phys_t = Struct
    [(''sh_pool_create_len'', U64), (''sh_phys_max_off'', U64), (''sh_bof'', U64),
     (''sh_eof'', U64), (''sh_records_lost'', U64)]"

definition zfs_bookmark_phys_t :: c_type where [layout]:
  "zfs_bookmark_phys_t = Struct
    [(''zbm_guid'', U64), (''zbm_creation_txg'', U64), (''zbm_creation_time'', U64)]"

definition ddt_key_t :: c_type where [layout]:
  "ddt_key_t = Struct
    [(''ddk_cksum'', zio_cksum_layout), (''ddk_prop'', U64)]"

definition ddt_phys_t :: c_type where [layout]:
  "ddt_phys_t = Struct
    [(''ddp_dva'', Arr 3 dva_layout), (''ddp_refcnt'', U64), (''ddp_phys_birth'', U64)]"

definition ddt_bookmark_t :: c_type where [layout]:
  "ddt_bookmark_t = Struct
    [(''ddb_class'', U64), (''ddb_type'', U64), (''ddb_checksum'', U64), (''ddb_cursor'', U64)]"

section \<open>Files\<close>

definition zfs_ace_hdr_t :: c_type where [layout]:
  "zfs_ace_hdr_t = Struct
    [(''z_type'', U16), (''z_flags'', U16), (''z_access_mask'', U32)]"

definition zfs_ace_layout :: c_type where [layout]:
  "zfs_ace_layout = Struct
    [(''z_hdr'', zfs_ace_hdr_t), (''z_fuid'', U64)]"

definition zfs_object_ace_t :: c_type where [layout]:
  "zfs_object_ace_t = Struct
    [(''z_ace'', zfs_ace_layout), (''z_object_type'', Chars 16), (''z_inherit_type'', Chars 16)]"

definition zfs_oldace_t :: c_type where [layout]:
  "zfs_oldace_t = Struct
    [(''z_fuid'', U32), (''z_access_mask'', U32), (''z_flags'', U16), (''z_type'', U16)]"

definition zfs_acl_phys_v0_t :: c_type where [layout]:
  "zfs_acl_phys_v0_t = Struct
    [(''z_acl_extern_obj'', U64), (''z_acl_count'', U32), (''z_acl_version'', U16),
     (''z_acl_pad'', U16), (''z_ace_data'', Arr 6 zfs_oldace_t)]"

definition zfs_acl_phys_t :: c_type where [layout]:
  "zfs_acl_phys_t = Struct
    [(''z_acl_extern_obj'', U64), (''z_acl_size'', U32), (''z_acl_version'', U16),
     (''z_acl_count'', U16), (''z_ace_data'', Chars 72)]"

definition znode_phys_t :: c_type where [layout]:
  "znode_phys_t = Struct
    [(''zp_atime'', Arr 2 U64), (''zp_mtime'', Arr 2 U64), (''zp_ctime'', Arr 2 U64),
     (''zp_crtime'', Arr 2 U64), (''zp_gen'', U64), (''zp_mode'', U64), (''zp_size'', U64),
     (''zp_parent'', U64), (''zp_links'', U64), (''zp_xattr'', U64), (''zp_rdev'', U64),
     (''zp_flags'', U64), (''zp_uid'', U64), (''zp_gid'', U64), (''zp_zap'', U64),
     (''zp_pad'', Arr 3 U64), (''zp_acl'', zfs_acl_phys_t)]"

section \<open>Sizes and offsets\<close>

text \<open>The structures with the sizes that the comments and constants of the headers give them.\<close>

definition pool_structures :: "(c_type \<times> nat) list" where
  "pool_structures =
     [(zio_cksum_layout, 32), (dva_layout, 16), (blkptr_layout, 128), (zio_eck_layout, 40),
      (zbookmark_phys_layout, 32), (uberblock_layout, 208), (vdev_phys_layout, 114688),
      (vdev_label_layout, 262144), (zil_header_t, 192), (dnode_phys_layout, 512),
      (objset_phys_t, 4096), (dsl_dir_layout, 256), (dsl_dataset_layout, 320),
      (dsl_deadlist_phys_t, 320), (bpobj_phys_t, 48), (bptree_phys_t, 40),
      (bptree_entry_phys_t, 168), (space_map_phys_t, 320), (spa_history_phys_t, 40),
      (zfs_bookmark_phys_t, 24), (ddt_key_t, 40), (ddt_phys_t, 64), (ddt_bookmark_t, 32),
      (zfs_ace_hdr_t, 8), (zfs_ace_layout, 16), (zfs_object_ace_t, 48), (zfs_oldace_t, 12),
      (zfs_acl_phys_v0_t, 88), (zfs_acl_phys_t, 88), (znode_phys_t, 264)]"

text \<open>A dnode is large enough to be evaluated once.\<close>

lemma dnode_same:
    "leaves ILP32 x dnode_phys_layout = leaves LP64 x dnode_phys_layout"
    "leaves I386 x dnode_phys_layout = leaves LP64 x dnode_phys_layout"
  by (simp_all add: layout layout_eval)

lemma dnode_sizes:
    "sizeof LP64 dnode_phys_layout = 512" "sizeof ILP32 dnode_phys_layout = 512"
    "sizeof I386 dnode_phys_layout = 512" "alignof LP64 dnode_phys_layout = 8"
    "alignof ILP32 dnode_phys_layout = 8" "alignof I386 dnode_phys_layout = 4"
  by (simp_all add: layout layout_eval)

lemma objset_portable: "portable objset_phys_t" "sizeof LP64 objset_phys_t = 4096"
  by (simp_all add: dnode_same dnode_sizes portable_def objset_phys_t_def zil_header_t_def
      blkptr_layout_def dva_layout_def zio_cksum_layout_def layout_eval)

lemma blocks_portable: "list_all (\<lambda>p. portable (fst p) \<and> sizeof LP64 (fst p) = snd p) (take 10 pool_structures)"
  by (simp add: pool_structures_def layout layout_eval)

lemma objects_portable: "list_all (\<lambda>p. portable (fst p) \<and> sizeof LP64 (fst p) = snd p) (drop 11 pool_structures)"
  by (simp add: pool_structures_def layout layout_eval)

lemma pool_structures_split:
  "pool_structures = take 10 pool_structures @ (objset_phys_t, 4096) # drop 11 pool_structures"
  by (simp add: pool_structures_def)

text \<open>The offsets that comments give: those of a znode and those an object set is found at.\<close>

definition znode_offsets :: "(string \<times> nat) list" where
  "znode_offsets =
     [(''zp_atime'', 0), (''zp_mtime'', 16), (''zp_ctime'', 32), (''zp_crtime'', 48), (''zp_gen'', 64),
      (''zp_mode'', 72), (''zp_size'', 80), (''zp_parent'', 88), (''zp_links'', 96),
      (''zp_xattr'', 104), (''zp_rdev'', 112), (''zp_flags'', 120), (''zp_uid'', 128),
      (''zp_gid'', 136), (''zp_zap'', 144), (''zp_pad'', 152), (''zp_acl'', 176)]"

lemma znode_at: "list_all (\<lambda>p. offsetof LP64 znode_phys_t [fst p] = Some (snd p)) znode_offsets"
  by (simp add: znode_offsets_def layout layout_eval)

lemma objset_at: "offsetof LP64 objset_phys_t [''os_userused_dnode''] = Some 1024"
    "offsetof LP64 objset_phys_t [''os_projectused_dnode''] = Some 2048"
    "offsetof LP64 objset_phys_t [''os_zil_header''] = Some 512"
  by (simp_all add: dnode_sizes objset_phys_t_def zil_header_t_def blkptr_layout_def dva_layout_def
      zio_cksum_layout_def layout_eval)

text \<open>Every persistent structure of the pool has the size that its comment or
  constant promises, and the same offset for every member on 64-bit machines and on 32-bit
  machines with either alignment of 64-bit integers; the members of a znode lie at the
  offsets written beside them, and the accounting dnodes of an object set start where the
  older, shorter versions of the structure ended.\<close>

theorem pool_structures_layout:
  "list_all (\<lambda>p. portable (fst p) \<and> sizeof LP64 (fst p) = snd p) pool_structures
   \<and> list_all (\<lambda>p. offsetof LP64 znode_phys_t [fst p] = Some (snd p)) znode_offsets
   \<and> offsetof LP64 objset_phys_t [''os_userused_dnode''] = Some 1024
   \<and> offsetof LP64 objset_phys_t [''os_projectused_dnode''] = Some 2048"
proof -
  have "list_all (\<lambda>p. portable (fst p) \<and> sizeof LP64 (fst p) = snd p) pool_structures"
    using blocks_portable objects_portable objset_portable
    by (subst pool_structures_split) (simp only: list_all_append list.pred_inject fst_conv snd_conv)
  then show ?thesis using znode_at objset_at by simp
qed

text \<open>Those without a union hold no hidden byte either: they are their leaves, end to end.\<close>

interpretation blkptr_fields: packed_struct LP64 blkptr_layout
  by unfold_locales (simp_all add: layout layout_eval)

interpretation uberblock_fields: packed_struct LP64 uberblock_layout
  by unfold_locales (simp_all add: layout layout_eval)

interpretation label_fields: packed_struct LP64 vdev_label_layout
  by unfold_locales (simp_all add: layout layout_eval)

interpretation dataset_fields: packed_struct LP64 dsl_dataset_layout
  by unfold_locales (simp_all add: layout layout_eval)

interpretation znode_fields: packed_struct LP64 znode_phys_t
  by unfold_locales (simp_all add: layout layout_eval)

end
