(* ===== verification/Zil.thy ===== *)
theory Zil
  imports Pool_Layout Bitfield Dnode
begin

text \<open>
  The intent log of \<open>sys/zil.h\<close>: the chain of log blocks, the transaction types and the
  layout of their records, and the object id of a record, whose upper byte holds the number
  of dnode slots.
\<close>

section \<open>Blocks\<close>

definition zil_chain_t :: c_type where [layout]:
  "zil_chain_t = Struct
    [(''zc_pad'', U64), (''zc_next_blk'', blkptr_layout), (''zc_nused'', U64),
     (''zc_eck'', zio_eck_layout)]"

definition ZIL_REPLAY_NEEDED :: u64 where "ZIL_REPLAY_NEEDED = 1"
definition ZIL_CLAIM_LR_SEQ_VALID :: u64 where "ZIL_CLAIM_LR_SEQ_VALID = 2"
definition ZIL_MIN_BLKSZ :: u64 where "ZIL_MIN_BLKSZ = 4096"
definition ZIL_ZC_GUID_0 :: nat where "ZIL_ZC_GUID_0 = 0"
definition ZIL_ZC_GUID_1 :: nat where "ZIL_ZC_GUID_1 = 1"
definition ZIL_ZC_OBJSET :: nat where "ZIL_ZC_OBJSET = 2"
definition ZIL_ZC_SEQ :: nat where "ZIL_ZC_SEQ = 3"

definition zil_create :: c_enum where
  "zil_create = plain
    [''Z_FILE'', ''Z_DIR'', ''Z_XATTRDIR'']"

definition itx_wr_state_t :: c_enum where
  "itx_wr_state_t = plain
    [''WR_INDIRECT'', ''WR_COPIED'', ''WR_NEED_COPY'', ''WR_NUM_STATES'']"

section \<open>Transaction types\<close>

definition TX_COMMIT :: u64 where "TX_COMMIT = 0"
definition TX_CREATE :: u64 where "TX_CREATE = 1"
definition TX_MKDIR :: u64 where "TX_MKDIR = 2"
definition TX_MKXATTR :: u64 where "TX_MKXATTR = 3"
definition TX_SYMLINK :: u64 where "TX_SYMLINK = 4"
definition TX_REMOVE :: u64 where "TX_REMOVE = 5"
definition TX_RMDIR :: u64 where "TX_RMDIR = 6"
definition TX_LINK :: u64 where "TX_LINK = 7"
definition TX_RENAME :: u64 where "TX_RENAME = 8"
definition TX_WRITE :: u64 where "TX_WRITE = 9"
definition TX_TRUNCATE :: u64 where "TX_TRUNCATE = 10"
definition TX_SETATTR :: u64 where "TX_SETATTR = 11"
definition TX_ACL_V0 :: u64 where "TX_ACL_V0 = 12"
definition TX_ACL :: u64 where "TX_ACL = 13"
definition TX_CREATE_ACL :: u64 where "TX_CREATE_ACL = 14"
definition TX_CREATE_ATTR :: u64 where "TX_CREATE_ATTR = 15"
definition TX_CREATE_ACL_ATTR :: u64 where "TX_CREATE_ACL_ATTR = 16"
definition TX_MKDIR_ACL :: u64 where "TX_MKDIR_ACL = 17"
definition TX_MKDIR_ATTR :: u64 where "TX_MKDIR_ATTR = 18"
definition TX_MKDIR_ACL_ATTR :: u64 where "TX_MKDIR_ACL_ATTR = 19"
definition TX_WRITE2 :: u64 where "TX_WRITE2 = 20"
definition TX_MAX_TYPE :: u64 where "TX_MAX_TYPE = 21"
definition TX_CI :: u64 where "TX_CI = push_bit 63 1"

definition TX_OOO :: "u64 \<Rightarrow> bool" where
  "TX_OOO txtype \<longleftrightarrow> txtype = TX_WRITE \<or> txtype = TX_TRUNCATE \<or> txtype = TX_SETATTR
     \<or> txtype = TX_ACL_V0 \<or> txtype = TX_ACL \<or> txtype = TX_WRITE2"

definition LR_FOID_GET_SLOTS :: "u64 \<Rightarrow> u64" where
  "LR_FOID_GET_SLOTS oid = BF64_GET oid 56 8 + 1"

definition LR_FOID_SET_SLOTS :: "u64 \<Rightarrow> u64 \<Rightarrow> stop + u64" where
  "LR_FOID_SET_SLOTS oid x = BF64_SET oid 56 8 (x - 1)"

definition LR_FOID_GET_OBJ :: "u64 \<Rightarrow> u64" where
  "LR_FOID_GET_OBJ oid = BF64_GET oid 0 DN_MAX_OBJECT_SHIFT"

definition LR_FOID_SET_OBJ :: "u64 \<Rightarrow> u64 \<Rightarrow> stop + u64" where
  "LR_FOID_SET_OBJ oid x = BF64_SET oid 0 DN_MAX_OBJECT_SHIFT x"

section \<open>Records\<close>

definition lr_t :: c_type where [layout]:
  "lr_t = Struct
    [(''lrc_txtype'', U64), (''lrc_reclen'', U64), (''lrc_txg'', U64), (''lrc_seq'', U64)]"

definition lr_ooo_t :: c_type where [layout]:
  "lr_ooo_t = Struct
    [(''lr_common'', lr_t), (''lr_foid'', U64)]"

definition lr_attr_t :: c_type where [layout]:
  "lr_attr_t = Struct
    [(''lr_attr_masksize'', U32), (''lr_attr_bitmap'', U32)]"

definition lr_create_t :: c_type where [layout]:
  "lr_create_t = Struct
    [(''lr_common'', lr_t), (''lr_doid'', U64), (''lr_foid'', U64), (''lr_mode'', U64),
     (''lr_uid'', U64), (''lr_gid'', U64), (''lr_gen'', U64), (''lr_crtime'', Arr 2 U64),
     (''lr_rdev'', U64)]"

definition lr_acl_create_t :: c_type where [layout]:
  "lr_acl_create_t = Struct
    [(''lr_create'', lr_create_t), (''lr_aclcnt'', U64), (''lr_domcnt'', U64),
     (''lr_fuidcnt'', U64), (''lr_acl_bytes'', U64), (''lr_acl_flags'', U64)]"

definition lr_remove_t :: c_type where [layout]:
  "lr_remove_t = Struct
    [(''lr_common'', lr_t), (''lr_doid'', U64)]"

definition lr_link_t :: c_type where [layout]:
  "lr_link_t = Struct
    [(''lr_common'', lr_t), (''lr_doid'', U64), (''lr_link_obj'', U64)]"

definition lr_rename_t :: c_type where [layout]:
  "lr_rename_t = Struct
    [(''lr_common'', lr_t), (''lr_sdoid'', U64), (''lr_tdoid'', U64)]"

definition lr_write_t :: c_type where [layout]:
  "lr_write_t = Struct
    [(''lr_common'', lr_t), (''lr_foid'', U64), (''lr_offset'', U64), (''lr_length'', U64),
     (''lr_blkoff'', U64), (''lr_blkptr'', blkptr_layout)]"

definition lr_truncate_t :: c_type where [layout]:
  "lr_truncate_t = Struct
    [(''lr_common'', lr_t), (''lr_foid'', U64), (''lr_offset'', U64), (''lr_length'', U64)]"

definition lr_setattr_t :: c_type where [layout]:
  "lr_setattr_t = Struct
    [(''lr_common'', lr_t), (''lr_foid'', U64), (''lr_mask'', U64), (''lr_mode'', U64),
     (''lr_uid'', U64), (''lr_gid'', U64), (''lr_size'', U64), (''lr_atime'', Arr 2 U64),
     (''lr_mtime'', Arr 2 U64)]"

definition lr_acl_v0_t :: c_type where [layout]:
  "lr_acl_v0_t = Struct
    [(''lr_common'', lr_t), (''lr_foid'', U64), (''lr_aclcnt'', U64)]"

definition lr_acl_t :: c_type where [layout]:
  "lr_acl_t = Struct
    [(''lr_common'', lr_t), (''lr_foid'', U64), (''lr_aclcnt'', U64), (''lr_domcnt'', U64),
     (''lr_fuidcnt'', U64), (''lr_acl_bytes'', U64), (''lr_acl_flags'', U64)]"

text \<open>The extended attributes of a record: a bitmap of \<open>mapsize\<close> words, a word of attributes,
  the creation time and the scan stamp.\<close>

definition ZIL_XVAT_SIZE :: "abi \<Rightarrow> nat \<Rightarrow> nat" where
  "ZIL_XVAT_SIZE A mapsize = sizeof A lr_attr_t + sizeof A U32 * (mapsize - 1) + sizeof A U64 * 7"

text \<open>The record each transaction type is logged with, as the comments at the structures say.\<close>

definition lr_record :: "u64 \<Rightarrow> c_type" where
  "lr_record tx =
     (if tx \<in> {TX_CREATE, TX_MKDIR, TX_MKXATTR, TX_SYMLINK, TX_CREATE_ATTR, TX_MKDIR_ATTR} then lr_create_t
      else if tx \<in> {TX_CREATE_ACL, TX_CREATE_ACL_ATTR, TX_MKDIR_ACL, TX_MKDIR_ACL_ATTR} then lr_acl_create_t
      else if tx \<in> {TX_REMOVE, TX_RMDIR} then lr_remove_t
      else if tx = TX_LINK then lr_link_t
      else if tx = TX_RENAME then lr_rename_t
      else if tx \<in> {TX_WRITE, TX_WRITE2} then lr_write_t
      else if tx = TX_TRUNCATE then lr_truncate_t
      else if tx = TX_SETATTR then lr_setattr_t
      else if tx = TX_ACL_V0 then lr_acl_v0_t
      else if tx = TX_ACL then lr_acl_t
      else lr_t)"

lemmas tx_defs = TX_COMMIT_def TX_CREATE_def TX_MKDIR_def TX_MKXATTR_def TX_SYMLINK_def TX_REMOVE_def
  TX_RMDIR_def TX_LINK_def TX_RENAME_def TX_WRITE_def TX_TRUNCATE_def TX_SETATTR_def TX_ACL_V0_def
  TX_ACL_def TX_CREATE_ACL_def TX_CREATE_ATTR_def TX_CREATE_ACL_ATTR_def TX_MKDIR_ACL_def
  TX_MKDIR_ATTR_def TX_MKDIR_ACL_ATTR_def TX_WRITE2_def

section \<open>Their layout\<close>

definition log_records :: "c_type list" where
  "log_records = [lr_t, lr_create_t, lr_acl_create_t, lr_remove_t, lr_link_t, lr_rename_t,
     lr_write_t, lr_truncate_t, lr_setattr_t, lr_acl_v0_t, lr_acl_t]"

lemma record_listed: "lr_record tx \<in> set log_records"
  by (simp add: lr_record_def log_records_def)

lemma records_portable: "list_all portable log_records"
  by (simp add: log_records_def layout layout_eval)

lemma records_packed: "list_all (packed LP64) log_records"
  by (simp add: log_records_def layout layout_eval)

lemma foid_at: "TX_OOO tx \<Longrightarrow> offsetof LP64 (lr_record tx) [''lr_foid''] = offsetof LP64 lr_ooo_t [''lr_foid'']"
  by (elim disjE[OF iffD1[OF TX_OOO_def]] disjE; simp add: lr_record_def tx_defs)
    (simp_all add: layout layout_eval)

text \<open>Every intent-log record lies the same on 64-bit and 32-bit machines and has no
  hidden padding, so its bytes and its members determine each other; and the records of the
  transactions that may be logged out of order all have the object id where the common
  start of such records has it.\<close>

theorem log_records_layout:
  "portable (lr_record tx) \<and> packed LP64 (lr_record tx)
   \<and> codec (\<lambda>vs. map length vs = map wid (leaves LP64 [] (lr_record tx))) concat
       (\<lambda>bs. map (\<lambda>l. fetch l bs) (leaves LP64 [] (lr_record tx))) (sizeof LP64 (lr_record tx))
   \<and> (TX_OOO tx \<longrightarrow> offsetof LP64 (lr_record tx) [''lr_foid''] = offsetof LP64 lr_ooo_t [''lr_foid''])"
proof -
  have p: "packed LP64 (lr_record tx)" using records_packed record_listed by (simp add: list_all_iff)
  then have "packed_struct LP64 (lr_record tx)" by unfold_locales simp_all
  then show ?thesis
    using p records_portable record_listed foid_at packed_struct.fields_codec by (simp add: list_all_iff)
qed

theorem log_records_layout_witness:
  "offsetof LP64 (lr_record TX_SETATTR) [''lr_foid''] = offsetof LP64 lr_ooo_t [''lr_foid'']
   \<and> portable (lr_record TX_SETATTR)"
  using log_records_layout[of TX_SETATTR] by (simp add: TX_OOO_def)

lemma slots_fit: "0 < unat x \<Longrightarrow> unat (x :: u64) \<le> 256 \<Longrightarrow> x - 1 < 2 ^ 8"
proof -
  assume "0 < unat x" "unat x \<le> 256"
  moreover from this have "unat (x - 1) = unat x - 1" by (intro unat_minus_one) auto
  ultimately show ?thesis by (simp add: word_less_nat_alt)
qed

lemma slots_overflow: "unat z = 0 \<or> 256 < unat (z :: u64) \<Longrightarrow> \<not> z - 1 < 2 ^ 8"
proof (cases "z = 0")
  case False
  assume "unat z = 0 \<or> 256 < unat z"
  then show ?thesis using False by (simp add: word_less_nat_alt unat_minus_one unat_eq_0)
qed simp

text \<open>The object id of a record is its two fields: storing a slot count of 1 to 256 and an
  object below 2^48, in either order, gives an id from which both are read back; a single
  slot leaves an id below 2^48 as it is, and a count of 0 or above 256 trips the assertion.\<close>

theorem lr_foid_fields:
  assumes x: "0 < unat x" "unat x \<le> 256" and y: "unat y < 2 ^ 48" and z: "unat z = 0 \<or> 256 < unat z"
  shows "(\<exists>oid. andthen (LR_FOID_SET_SLOTS w x) (\<lambda>v. LR_FOID_SET_OBJ v y) = Inr oid
      \<and> andthen (LR_FOID_SET_OBJ w y) (\<lambda>v. LR_FOID_SET_SLOTS v x) = Inr oid
      \<and> LR_FOID_GET_SLOTS oid = x \<and> LR_FOID_GET_OBJ oid = y)
    \<and> LR_FOID_SET_SLOTS y 1 = Inr y \<and> LR_FOID_SET_SLOTS w z = Inl Assert_failed"
proof -
  have fx: "x - 1 < 2 ^ 8" by (rule slots_fit[OF x])
  have fy: "y < 2 ^ 48" using y by (simp add: word_less_nat_alt)
  let ?oid = "with_field (with_field w 56 8 (x - 1)) 0 48 y"
  have "with_field (with_field w 0 48 y) 56 8 (x - 1) = ?oid" by (rule with_field_commute) simp
  moreover have "BF64_GET ?oid 56 8 = x - 1" "BF64_GET ?oid 0 48 = y"
    using fx fy get_with_field[of 8 56 "x - 1" w] get_other_field[of 56 8 0 48 "with_field w 56 8 (x - 1)" y]
      get_with_field[of 48 0 y "with_field w 56 8 (x - 1)"] by simp_all
  moreover have "with_field y 56 8 0 = y"
  proof -
    have "\<not> bit y (56 + n)" for n using bit_fits[OF _ fy, of "56 + n"] by auto
    then have "BF64_GET y 56 8 = 0" by (intro bit_word_eqI) (simp add: bit_BF64_GET)
    then show ?thesis using with_field_get[of y 56 8] by simp
  qed
  ultimately show ?thesis
    using fx fy BF64_SET_stops[OF slots_overflow[OF z], of w 56]
    by (simp add: LR_FOID_SET_SLOTS_def LR_FOID_SET_OBJ_def LR_FOID_GET_SLOTS_def LR_FOID_GET_OBJ_def
        DN_MAX_OBJECT_SHIFT_def BF64_SET_ok)
qed

theorem lr_foid_fields_witness:
  "LR_FOID_SET_SLOTS 77 1 = Inr 77 \<and> LR_FOID_SET_SLOTS 77 0 = Inl Assert_failed"
  using lr_foid_fields[of 3 77 0 77] by simp

end
