(* ===== verification/Send_Stream.thy ===== *)
theory Send_Stream
  imports Pool_Layout Bitfield Cenum
begin

text \<open>
  Send streams and the control interface of \<open>sys/zfs_ioctl.h\<close>: the version word of a stream
  with its header type and feature flags, the replay records, their payload sizes, and the
  command structure that 32-bit programs hand to a 64-bit kernel. Records are objects in
  memory whose members are read at the offsets of their layout.
\<close>

section \<open>Kinds\<close>

definition drr_headertype :: c_enum where
  "drr_headertype =
    [(''DMU_SUBSTREAM'', Is 0x1), (''DMU_COMPOUNDSTREAM'', Is 0x2)]"

definition drr_record_type :: c_enum where
  "drr_record_type = plain
    [''DRR_BEGIN'', ''DRR_OBJECT'', ''DRR_FREEOBJECTS'', ''DRR_WRITE'', ''DRR_FREE'',
     ''DRR_END'', ''DRR_WRITE_BYREF'', ''DRR_SPILL'', ''DRR_WRITE_EMBEDDED'',
     ''DRR_OBJECT_RANGE'', ''DRR_NUMTYPES'']"

definition diff_type :: c_enum where
  "diff_type =
    [(''DDR_NONE'', Is 0x1), (''DDR_INUSE'', Is 0x2), (''DDR_FREE'', Is 0x4)]"

definition zinject_type :: c_enum where
  "zinject_type = plain
    [''ZINJECT_UNINITIALIZED'', ''ZINJECT_DATA_FAULT'', ''ZINJECT_DEVICE_FAULT'',
     ''ZINJECT_LABEL_FAULT'', ''ZINJECT_IGNORED_WRITES'', ''ZINJECT_PANIC'',
     ''ZINJECT_DELAY_IO'']"

definition zfs_case :: c_enum where
  "zfs_case = plain
    [''ZFS_CASE_SENSITIVE'', ''ZFS_CASE_INSENSITIVE'', ''ZFS_CASE_MIXED'']"

definition zfsdev_state_type :: c_enum where
  "zfsdev_state_type = plain
    [''ZST_ONEXIT'', ''ZST_ZEVENT'', ''ZST_ALL'']"

section \<open>The version word of a stream\<close>

definition DMU_BACKUP_FEATURE_DEDUP :: u64 where "DMU_BACKUP_FEATURE_DEDUP = push_bit 0 1"
definition DMU_BACKUP_FEATURE_DEDUPPROPS :: u64 where "DMU_BACKUP_FEATURE_DEDUPPROPS = push_bit 1 1"
definition DMU_BACKUP_FEATURE_SA_SPILL :: u64 where "DMU_BACKUP_FEATURE_SA_SPILL = push_bit 2 1"
definition DMU_BACKUP_FEATURE_EMBED_DATA :: u64 where "DMU_BACKUP_FEATURE_EMBED_DATA = push_bit 16 1"
definition DMU_BACKUP_FEATURE_LZ4 :: u64 where "DMU_BACKUP_FEATURE_LZ4 = push_bit 17 1"
definition DMU_BACKUP_FEATURE_LARGE_BLOCKS :: u64 where "DMU_BACKUP_FEATURE_LARGE_BLOCKS = push_bit 19 1"
definition DMU_BACKUP_FEATURE_RESUMING :: u64 where "DMU_BACKUP_FEATURE_RESUMING = push_bit 20 1"
definition DMU_BACKUP_FEATURE_COMPRESSED :: u64 where "DMU_BACKUP_FEATURE_COMPRESSED = push_bit 22 1"
definition DMU_BACKUP_FEATURE_LARGE_DNODE :: u64 where "DMU_BACKUP_FEATURE_LARGE_DNODE = push_bit 23 1"
definition DMU_BACKUP_FEATURE_RAW :: u64 where "DMU_BACKUP_FEATURE_RAW = push_bit 24 1"
definition DRR_FLAG_CLONE :: u64 where "DRR_FLAG_CLONE = push_bit 0 1"
definition DRR_FLAG_CI_DATA :: u64 where "DRR_FLAG_CI_DATA = push_bit 1 1"
definition DRR_FLAG_FREERECORDS :: u64 where "DRR_FLAG_FREERECORDS = push_bit 2 1"
definition DRR_CHECKSUM_DEDUP :: u64 where "DRR_CHECKSUM_DEDUP = push_bit 0 1"
definition DRR_RAW_BYTESWAP :: u64 where "DRR_RAW_BYTESWAP = push_bit 1 1"
definition ZFS_SNAPDIR_HIDDEN :: u64 where "ZFS_SNAPDIR_HIDDEN = 0"
definition ZFS_SNAPDIR_VISIBLE :: u64 where "ZFS_SNAPDIR_VISIBLE = 1"
definition ZFS_SNAPDEV_HIDDEN :: u64 where "ZFS_SNAPDEV_HIDDEN = 0"
definition ZFS_SNAPDEV_VISIBLE :: u64 where "ZFS_SNAPDEV_VISIBLE = 1"
definition ZFS_ACLTYPE_OFF :: u64 where "ZFS_ACLTYPE_OFF = 0"
definition ZFS_ACLTYPE_POSIXACL :: u64 where "ZFS_ACLTYPE_POSIXACL = 1"
definition DMU_BACKUP_MAGIC :: u64 where "DMU_BACKUP_MAGIC = 0x2F5bacbac"
definition ZINJECT_NULL :: u64 where "ZINJECT_NULL = 1"
definition ZINJECT_FLUSH_ARC :: u64 where "ZINJECT_FLUSH_ARC = 2"
definition ZINJECT_UNLOAD_SPA :: u64 where "ZINJECT_UNLOAD_SPA = 4"
definition ZEVENT_NONE :: u64 where "ZEVENT_NONE = 0"
definition ZEVENT_NONBLOCK :: u64 where "ZEVENT_NONBLOCK = 1"
definition ZEVENT_SIZE :: u64 where "ZEVENT_SIZE = 1024"
definition ZEVENT_SEEK_START :: u64 where "ZEVENT_SEEK_START = 0"
definition ZEVENT_SEEK_END :: u64 where "ZEVENT_SEEK_END = - 1"
definition ZI_PERCENTAGE_MIN :: u64 where "ZI_PERCENTAGE_MIN = 4294"
definition ZI_PERCENTAGE_MAX :: u64 where "ZI_PERCENTAGE_MAX = 0xffffffff"
definition ZFSDEV_MAX_MINOR :: nat where "ZFSDEV_MAX_MINOR = push_bit 16 1"
definition ZFS_MIN_MINOR :: nat where "ZFS_MIN_MINOR = ZFSDEV_MAX_MINOR + 1"

definition DMU_BACKUP_FEATURE_MASK :: u64 where
  "DMU_BACKUP_FEATURE_MASK = DMU_BACKUP_FEATURE_DEDUP OR DMU_BACKUP_FEATURE_DEDUPPROPS OR
     DMU_BACKUP_FEATURE_SA_SPILL OR DMU_BACKUP_FEATURE_EMBED_DATA OR DMU_BACKUP_FEATURE_LZ4 OR
     DMU_BACKUP_FEATURE_RESUMING OR DMU_BACKUP_FEATURE_LARGE_BLOCKS OR
     DMU_BACKUP_FEATURE_COMPRESSED OR DMU_BACKUP_FEATURE_LARGE_DNODE OR DMU_BACKUP_FEATURE_RAW"

definition DMU_STREAM_SUPPORTED :: "u64 \<Rightarrow> bool" where
  "DMU_STREAM_SUPPORTED x \<longleftrightarrow> x AND NOT DMU_BACKUP_FEATURE_MASK = 0"

definition DMU_GET_STREAM_HDRTYPE :: "u64 \<Rightarrow> u64" where
  "DMU_GET_STREAM_HDRTYPE vi = BF64_GET vi 0 2"
definition DMU_SET_STREAM_HDRTYPE :: "u64 \<Rightarrow> u64 \<Rightarrow> stop + u64" where
  "DMU_SET_STREAM_HDRTYPE vi x = BF64_SET vi 0 2 x"
definition DMU_GET_FEATUREFLAGS :: "u64 \<Rightarrow> u64" where
  "DMU_GET_FEATUREFLAGS vi = BF64_GET vi 2 30"
definition DMU_SET_FEATUREFLAGS :: "u64 \<Rightarrow> u64 \<Rightarrow> stop + u64" where
  "DMU_SET_FEATUREFLAGS vi x = BF64_SET vi 2 30 x"

definition DRR_IS_DEDUP_CAPABLE :: "u64 \<Rightarrow> bool" where
  "DRR_IS_DEDUP_CAPABLE flags \<longleftrightarrow> flags AND DRR_CHECKSUM_DEDUP \<noteq> 0"
definition DRR_IS_RAW_BYTESWAPPED :: "u64 \<Rightarrow> bool" where
  "DRR_IS_RAW_BYTESWAPPED flags \<longleftrightarrow> flags AND DRR_RAW_BYTESWAP \<noteq> 0"

section \<open>Replay records\<close>

definition drr_begin :: c_type where [layout]:
  "drr_begin = Struct
    [(''drr_magic'', U64), (''drr_versioninfo'', U64), (''drr_creation_time'', U64),
     (''drr_type'', U32), (''drr_flags'', U32), (''drr_toguid'', U64), (''drr_fromguid'', U64),
     (''drr_toname'', Chars 256)]"

definition drr_end :: c_type where [layout]:
  "drr_end = Struct
    [(''drr_checksum'', zio_cksum_layout), (''drr_toguid'', U64)]"

definition drr_object :: c_type where [layout]:
  "drr_object = Struct
    [(''drr_object'', U64), (''drr_type'', U32), (''drr_bonustype'', U32), (''drr_blksz'', U32),
     (''drr_bonuslen'', U32), (''drr_checksumtype'', U8), (''drr_compress'', U8),
     (''drr_dn_slots'', U8), (''drr_flags'', U8), (''drr_raw_bonuslen'', U32),
     (''drr_toguid'', U64), (''drr_indblkshift'', U8), (''drr_nlevels'', U8),
     (''drr_nblkptr'', U8), (''drr_pad'', Chars 5), (''drr_maxblkid'', U64)]"

definition drr_freeobjects :: c_type where [layout]:
  "drr_freeobjects = Struct
    [(''drr_firstobj'', U64), (''drr_numobjs'', U64), (''drr_toguid'', U64)]"

definition drr_write :: c_type where [layout]:
  "drr_write = Struct
    [(''drr_object'', U64), (''drr_type'', U32), (''drr_pad'', U32), (''drr_offset'', U64),
     (''drr_logical_size'', U64), (''drr_toguid'', U64), (''drr_checksumtype'', U8),
     (''drr_flags'', U8), (''drr_compressiontype'', U8), (''drr_pad2'', Chars 5),
     (''drr_key'', ddt_key_t), (''drr_compressed_size'', U64), (''drr_salt'', Chars 8),
     (''drr_iv'', Chars 12), (''drr_mac'', Chars 16)]"

definition drr_free :: c_type where [layout]:
  "drr_free = Struct
    [(''drr_object'', U64), (''drr_offset'', U64), (''drr_length'', U64), (''drr_toguid'', U64)]"

definition drr_write_byref :: c_type where [layout]:
  "drr_write_byref = Struct
    [(''drr_object'', U64), (''drr_offset'', U64), (''drr_length'', U64), (''drr_toguid'', U64),
     (''drr_refguid'', U64), (''drr_refobject'', U64), (''drr_refoffset'', U64),
     (''drr_checksumtype'', U8), (''drr_flags'', U8), (''drr_pad2'', Chars 6),
     (''drr_key'', ddt_key_t)]"

definition drr_spill :: c_type where [layout]:
  "drr_spill = Struct
    [(''drr_object'', U64), (''drr_length'', U64), (''drr_toguid'', U64), (''drr_flags'', U8),
     (''drr_compressiontype'', U8), (''drr_pad'', Chars 6), (''drr_compressed_size'', U64),
     (''drr_salt'', Chars 8), (''drr_iv'', Chars 12), (''drr_mac'', Chars 16),
     (''drr_type'', U32)]"

definition drr_write_embedded :: c_type where [layout]:
  "drr_write_embedded = Struct
    [(''drr_object'', U64), (''drr_offset'', U64), (''drr_length'', U64), (''drr_toguid'', U64),
     (''drr_compression'', U8), (''drr_etype'', U8), (''drr_pad'', Chars 6),
     (''drr_lsize'', U32), (''drr_psize'', U32)]"

definition drr_object_range :: c_type where [layout]:
  "drr_object_range = Struct
    [(''drr_firstobj'', U64), (''drr_numslots'', U64), (''drr_toguid'', U64),
     (''drr_salt'', Chars 8), (''drr_iv'', Chars 12), (''drr_mac'', Chars 16),
     (''drr_flags'', U8), (''drr_pad'', Chars 3)]"

definition drr_checksum :: c_type where [layout]:
  "drr_checksum = Struct
    [(''drr_pad'', Arr 34 U64), (''drr_checksum'', zio_cksum_layout)]"

definition dmu_replay_record_t :: c_type where [layout]:
  "dmu_replay_record_t = Struct
    [(''drr_type'', U32), (''drr_payloadlen'', U32), (''drr_u'', Union
     [(''drr_begin'', drr_begin),
      (''drr_end'', drr_end),
      (''drr_object'', drr_object),
      (''drr_freeobjects'', drr_freeobjects),
      (''drr_write'', drr_write),
      (''drr_free'', drr_free),
      (''drr_write_byref'', drr_write_byref),
      (''drr_spill'', drr_spill),
      (''drr_write_embedded'', drr_write_embedded),
      (''drr_object_range'', drr_object_range),
      (''drr_checksum'', drr_checksum)])]"

section \<open>The control interface\<close>

definition dmu_diff_record_t :: c_type where [layout]:
  "dmu_diff_record_t = Struct
    [(''ddr_type'', U64), (''ddr_first'', U64), (''ddr_last'', U64)]"

definition zinject_record_t :: c_type where [layout]:
  "zinject_record_t = Struct
    [(''zi_objset'', U64), (''zi_object'', U64), (''zi_start'', U64), (''zi_end'', U64),
     (''zi_guid'', U64), (''zi_level'', U32), (''zi_error'', U32), (''zi_type'', U64),
     (''zi_freq'', U32), (''zi_failfast'', U32), (''zi_func'', Chars 256), (''zi_iotype'', U32),
     (''zi_duration'', U32), (''zi_timer'', U64), (''zi_nlanes'', U64), (''zi_cmd'', U32),
     (''zi_pad'', U32)]"

definition zfs_share_t :: c_type where [layout]:
  "zfs_share_t = Struct
    [(''z_exportdata'', U64), (''z_sharedata'', U64), (''z_sharetype'', U64),
     (''z_sharemax'', U64)]"

definition dmu_objset_stats_t :: c_type where [layout]:
  "dmu_objset_stats_t = Struct
    [(''dds_num_clones'', U64), (''dds_creation_txg'', U64), (''dds_guid'', U64),
     (''dds_type'', U32), (''dds_is_snapshot'', U8), (''dds_inconsistent'', U8),
     (''dds_origin'', Chars 256)]"

definition zfs_stat_t :: c_type where [layout]:
  "zfs_stat_t = Struct
    [(''zs_gen'', U64), (''zs_mode'', U64), (''zs_links'', U64), (''zs_ctime'', Arr 2 U64)]"

definition zfs_cmd_t :: c_type where [layout]:
  "zfs_cmd_t = Struct
    [(''zc_name'', Chars 4096), (''zc_nvlist_src'', U64), (''zc_nvlist_src_size'', U64),
     (''zc_nvlist_dst'', U64), (''zc_nvlist_dst_size'', U64), (''zc_nvlist_dst_filled'', U32),
     (''zc_pad2'', U32), (''zc_history'', U64), (''zc_value'', Chars 8192),
     (''zc_string'', Chars 256), (''zc_guid'', U64), (''zc_nvlist_conf'', U64),
     (''zc_nvlist_conf_size'', U64), (''zc_cookie'', U64), (''zc_objset_type'', U64),
     (''zc_perm_action'', U64), (''zc_history_len'', U64), (''zc_history_offset'', U64),
     (''zc_obj'', U64), (''zc_iflags'', U64), (''zc_share'', zfs_share_t),
     (''zc_objset_stats'', dmu_objset_stats_t), (''zc_begin_record'', drr_begin),
     (''zc_inject_record'', zinject_record_t), (''zc_defer_destroy'', U32), (''zc_flags'', U32),
     (''zc_action_handle'', U64), (''zc_cleanup_fd'', U32), (''zc_simple'', U8),
     (''zc_pad'', Chars 3), (''zc_sendobj'', U64), (''zc_fromobj'', U64),
     (''zc_createtxg'', U64), (''zc_stat'', zfs_stat_t)]"

definition zfs_useracct_t :: c_type where [layout]:
  "zfs_useracct_t = Struct
    [(''zu_domain'', Chars 256), (''zu_rid'', U32), (''zu_pad'', U32), (''zu_space'', U64)]"

section \<open>Payloads\<close>

definition DRR_WRITE_COMPRESSED :: "bytes \<Rightarrow> bool" where
  "DRR_WRITE_COMPRESSED drrw \<longleftrightarrow> field8 drr_write ''drr_compressiontype'' drrw \<noteq> 0"

definition DRR_WRITE_PAYLOAD_SIZE :: "bytes \<Rightarrow> u64" where
  "DRR_WRITE_PAYLOAD_SIZE drrw =
     (if DRR_WRITE_COMPRESSED drrw then field64 drr_write ''drr_compressed_size'' drrw
      else field64 drr_write ''drr_logical_size'' drrw)"

definition DRR_SPILL_PAYLOAD_SIZE :: "bytes \<Rightarrow> u64" where
  "DRR_SPILL_PAYLOAD_SIZE drrs =
     (if field64 drr_spill ''drr_compressed_size'' drrs \<noteq> 0
      then field64 drr_spill ''drr_compressed_size'' drrs else field64 drr_spill ''drr_length'' drrs)"

text \<open>The rounding is done at the width of \<open>drr_bonuslen\<close>, 32 bits.\<close>

definition DRR_OBJECT_PAYLOAD_SIZE :: "bytes \<Rightarrow> u32" where
  "DRR_OBJECT_PAYLOAD_SIZE drro =
     (if field32 drr_object ''drr_raw_bonuslen'' drro \<noteq> 0 then field32 drr_object ''drr_raw_bonuslen'' drro
      else ((field32 drr_object ''drr_bonuslen'' drro - 1) OR (8 - 1)) + 1)"

section \<open>The version word\<close>

lemma push_flag: "m < 64 \<Longrightarrow> bit (push_bit m 1 :: u64) n \<longleftrightarrow> n = m"
  unfolding bit_push_bit_iff bit_1_iff by auto

lemma feature_bits: "bit DMU_BACKUP_FEATURE_MASK n \<longleftrightarrow> n \<in> {0, 1, 2, 16, 17, 19, 20, 22, 23, 24}"
  unfolding DMU_BACKUP_FEATURE_MASK_def DMU_BACKUP_FEATURE_DEDUP_def
    DMU_BACKUP_FEATURE_DEDUPPROPS_def DMU_BACKUP_FEATURE_SA_SPILL_def DMU_BACKUP_FEATURE_EMBED_DATA_def
    DMU_BACKUP_FEATURE_LZ4_def DMU_BACKUP_FEATURE_RESUMING_def DMU_BACKUP_FEATURE_LARGE_BLOCKS_def
    DMU_BACKUP_FEATURE_COMPRESSED_def DMU_BACKUP_FEATURE_LARGE_DNODE_def DMU_BACKUP_FEATURE_RAW_def
    bit_or_iff
  by (simp only: push_flag rel_simps insert_iff empty_iff) blast

lemma supported_iff:
  "DMU_STREAM_SUPPORTED x \<longleftrightarrow> (\<forall>n<64. bit x n \<longrightarrow> n \<in> {0, 1, 2, 16, 17, 19, 20, 22, 23, 24})"
  unfolding DMU_STREAM_SUPPORTED_def bit_eq_iff
  by (auto simp: bit_and_iff bit_not_iff feature_bits)

text \<open>The version word of a stream holds a header type of two bits and thirty feature
  flags side by side: stored in either order on any word, both are read back, and the
  reserved upper half is left alone; a stream is supported exactly when its flags are among
  the ten known ones, so none of the reserved numbers 3 to 15, 18 and 21 is.\<close>

theorem stream_version_word:
  assumes t: "t < 4" and f: "f < 2 ^ 30"
  shows "\<exists>vi. andthen (DMU_SET_STREAM_HDRTYPE w t) (\<lambda>v. DMU_SET_FEATUREFLAGS v f) = Inr vi
    \<and> andthen (DMU_SET_FEATUREFLAGS w f) (\<lambda>v. DMU_SET_STREAM_HDRTYPE v t) = Inr vi
    \<and> DMU_GET_STREAM_HDRTYPE vi = t \<and> DMU_GET_FEATUREFLAGS vi = f \<and> drop_bit 32 vi = drop_bit 32 w
    \<and> (DMU_STREAM_SUPPORTED (DMU_GET_FEATUREFLAGS vi)
        \<longleftrightarrow> (\<forall>n<64. bit f n \<longrightarrow> n \<in> {0, 1, 2, 16, 17, 19, 20, 22, 23, 24}))"
proof -
  have t': "t < 2 ^ 2" using t by simp
  let ?v = "with_field (with_field w 0 2 t) 2 30 f"
  have "with_field (with_field w 2 30 f) 0 2 t = ?v" by (rule with_field_commute) simp
  moreover have "BF64_GET ?v 0 2 = t" "BF64_GET ?v 2 30 = f"
    using t' f get_with_field[of 2 0 t w] get_other_field[of 0 2 2 30 "with_field w 0 2 t" f]
      get_with_field[of 30 2 f "with_field w 0 2 t"] by simp_all
  moreover have "drop_bit 32 ?v = drop_bit 32 w"
  proof (rule bit_word_eqI)
    fix n assume "n < LENGTH(64)"
    show "bit (drop_bit 32 ?v) n = bit (drop_bit 32 w) n"
      by (cases "32 + n < 64") (auto simp: bit_drop_bit_eq bit_with_field dest: bit_imp_le_length)
  qed
  ultimately show ?thesis
    using t' f by (intro exI[of _ ?v])
      (simp add: DMU_SET_STREAM_HDRTYPE_def DMU_SET_FEATUREFLAGS_def DMU_GET_STREAM_HDRTYPE_def
        DMU_GET_FEATUREFLAGS_def BF64_SET_ok supported_iff)
qed

theorem stream_version_word_witness:
  "\<exists>vi. andthen (DMU_SET_STREAM_HDRTYPE 0 2) (\<lambda>v. DMU_SET_FEATUREFLAGS v 0x20004) = Inr vi
    \<and> DMU_GET_STREAM_HDRTYPE vi = 2 \<and> DMU_GET_FEATUREFLAGS vi = 0x20004"
  using stream_version_word[of 2 "0x20004" 0] by auto

section \<open>Layout\<close>

text \<open>The bodies over which the checksum of a record is laid.\<close>

definition overlaid :: "c_type list" where
  "overlaid = [drr_end, drr_object, drr_freeobjects, drr_write, drr_free, drr_write_byref,
     drr_spill, drr_write_embedded, drr_object_range]"

definition ioctl_structures :: "c_type list" where
  "ioctl_structures = [dmu_replay_record_t, dmu_diff_record_t, zinject_record_t, zfs_share_t,
     dmu_objset_stats_t, zfs_stat_t, zfs_cmd_t, zfs_useracct_t, drr_begin]"

lemma ioctl_portable: "list_all portable ioctl_structures"
  by (simp add: ioctl_structures_def layout layout_eval)

lemma checksum_clear:
  "list_all (\<lambda>t. sizeof LP64 t \<le> 272) overlaid" "offsetof LP64 drr_checksum [''drr_checksum''] = Some 272"
  by (simp_all add: overlaid_def layout layout_eval)

lemma bodies_portable: "list_all portable (filter (\<lambda>t. t \<noteq> drr_write) overlaid)"
  by (simp add: overlaid_def layout layout_eval)

lemma drr_write_sizes: "sizeof LP64 drr_write = 136" "sizeof I386 drr_write = 132"
  by (simp_all add: layout layout_eval)

text \<open>The structures passed between user space and kernel lie the same in 32-bit and
  64-bit programs, as the head of the file demands, the whole replay record and the command
  included; no body of a record but the one it is exempt from reaches the checksum that is
  laid over the end of every record. The one exception is the body of a write record taken
  alone: nothing pads its last 132 bytes to a multiple of 8, so it is 136 bytes long where
  64-bit integers are aligned to 8 and 132 bytes where they are aligned to 4.\<close>

theorem ioctl_layout:
  "list_all portable ioctl_structures \<and> sizeof LP64 dmu_replay_record_t = 312
   \<and> list_all (\<lambda>t. sizeof LP64 t \<le> 272) overlaid
   \<and> offsetof LP64 drr_checksum [''drr_checksum''] = Some 272
   \<and> list_all portable (filter (\<lambda>t. t \<noteq> drr_write) overlaid)
   \<and> sizeof LP64 drr_write = 136 \<and> sizeof I386 drr_write = 132"
proof -
  have "sizeof LP64 dmu_replay_record_t = 312" by (simp add: layout layout_eval)
  then show ?thesis using ioctl_portable checksum_clear bodies_portable drr_write_sizes by blast
qed

end
