(* ===== verification/Zap_Format.thy ===== *)
theory Zap_Format
  imports Pool_Layout Blkptr Cenum
begin

text \<open>
  The attribute directories (ZAP) on disk, of \<open>sys/zap_impl.h\<close> and \<open>sys/zap_leaf.h\<close>: the
  single-block form, the header and pointer table of the large form, and its leaves, a hash
  table followed by chunks of 24 bytes. Shifts of an \<open>int\<close> by a count that C does not allow
  are \<open>Undefined\<close>.
\<close>

section \<open>Constants\<close>

definition matchtype :: c_enum where
  "matchtype =
    [(''MT_NORMALIZE'', Bit 0), (''MT_MATCH_CASE'', Bit 1)]"

definition zap_flags :: c_enum where
  "zap_flags =
    [(''ZAP_FLAG_HASH64'', Bit 0), (''ZAP_FLAG_UINT64_KEY'', Bit 1),
     (''ZAP_FLAG_PRE_HASHED_KEY'', Bit 2)]"

definition zap_chunk_type :: c_enum where
  "zap_chunk_type =
    [(''ZAP_CHUNK_FREE'', Is 253), (''ZAP_CHUNK_ENTRY'', Is 252),
     (''ZAP_CHUNK_ARRAY'', Is 251), (''ZAP_CHUNK_TYPE_MAX'', Is 250)]"

definition ZAP_MAGIC :: u64 where "ZAP_MAGIC = 0x2F52AB2AB"
definition MZAP_ENT_LEN :: nat where "MZAP_ENT_LEN = 64"
definition MZAP_NAME_LEN :: nat where "MZAP_NAME_LEN = MZAP_ENT_LEN - 8 - 4 - 2"
definition MZAP_MAX_BLKSZ :: u64 where "MZAP_MAX_BLKSZ = SPA_OLD_MAXBLOCKSIZE"
definition ZAP_NEED_CD :: u32 where "ZAP_NEED_CD = - 1"
definition ZBT_LEAF :: u64 where "ZBT_LEAF = push_bit 63 1 + 0"
definition ZBT_HEADER :: u64 where "ZBT_HEADER = push_bit 63 1 + 1"
definition ZBT_MICRO :: u64 where "ZBT_MICRO = push_bit 63 1 + 3"
definition ZAP_LEAF_MAGIC :: u64 where "ZAP_LEAF_MAGIC = 0x2AB1EAF"
definition ZAP_LEAF_CHUNKSIZE :: int where "ZAP_LEAF_CHUNKSIZE = 24"
definition ZAP_LEAF_ARRAY_BYTES :: int where "ZAP_LEAF_ARRAY_BYTES = ZAP_LEAF_CHUNKSIZE - 3"
definition ZAP_LEAF_LOW_WATER :: int where "ZAP_LEAF_LOW_WATER = 20"
definition ZLF_ENTRIES_CDSORTED :: u64 where "ZLF_ENTRIES_CDSORTED = push_bit 0 1"
definition ZAP_HISTOGRAM_SIZE :: nat where "ZAP_HISTOGRAM_SIZE = 10"

section \<open>Structures\<close>

definition mzap_ent_phys_t :: c_type where [layout]:
  "mzap_ent_phys_t = Struct
    [(''mze_value'', U64), (''mze_cd'', U32), (''mze_pad'', U16), (''mze_name'', Chars 50)]"

definition mzap_phys_t :: c_type where [layout]:
  "mzap_phys_t = Struct
    [(''mz_block_type'', U64), (''mz_salt'', U64), (''mz_normflags'', U64),
     (''mz_pad'', Arr 5 U64), (''mz_chunk'', Arr 1 mzap_ent_phys_t)]"

definition zap_phys_layout :: c_type where [layout]:
  "zap_phys_layout = Struct
    [(''zap_block_type'', U64), (''zap_magic'', U64), (''zap_ptrtbl'', Struct [(''zt_blk'', U64),
     (''zt_numblks'', U64), (''zt_shift'', U64), (''zt_nextblk'', U64),
     (''zt_blks_copied'', U64)]), (''zap_freeblk'', U64), (''zap_num_leafs'', U64),
     (''zap_num_entries'', U64), (''zap_salt'', U64), (''zap_normflags'', U64),
     (''zap_flags'', U64)]"

definition zap_leaf_entry :: c_type where [layout]:
  "zap_leaf_entry = Struct
    [(''le_type'', U8), (''le_value_intlen'', U8), (''le_next'', U16), (''le_name_chunk'', U16),
     (''le_name_numints'', U16), (''le_value_chunk'', U16), (''le_value_numints'', U16),
     (''le_cd'', U32), (''le_hash'', U64)]"

definition zap_leaf_array :: c_type where [layout]:
  "zap_leaf_array = Struct
    [(''la_type'', U8), (''la_array'', Chars 21), (''la_next'', U16)]"

definition zap_leaf_free :: c_type where [layout]:
  "zap_leaf_free = Struct
    [(''lf_type'', U8), (''lf_pad'', Chars 21), (''lf_next'', U16)]"

definition zap_leaf_chunk_t :: c_type where [layout]:
  "zap_leaf_chunk_t = Union
    [(''l_entry'', zap_leaf_entry), (''l_array'', zap_leaf_array), (''l_free'', zap_leaf_free)]"

definition zap_leaf_phys_t :: c_type where [layout]:
  "zap_leaf_phys_t = Struct
    [(''l_hdr'', Struct [(''lh_block_type'', U64), (''lh_pad1'', U64), (''lh_prefix'', U64),
     (''lh_magic'', U32), (''lh_nfree'', U16), (''lh_nentries'', U16), (''lh_prefix_len'', U16),
     (''lh_freelist'', U16), (''lh_flags'', U8), (''lh_pad2'', Chars 11)]),
     (''l_hash'', Arr 1 U16)]"

definition zap_stats_t :: c_type where [layout]:
  "zap_stats_t = Struct
    [(''zs_ptrtbl_len'', U64), (''zs_blocksize'', U64), (''zs_num_blocks'', U64),
     (''zs_ptrtbl_nextblk'', U64), (''zs_ptrtbl_blks_copied'', U64), (''zs_ptrtbl_zt_blk'', U64),
     (''zs_ptrtbl_zt_numblks'', U64), (''zs_ptrtbl_zt_shift'', U64), (''zs_block_type'', U64),
     (''zs_magic'', U64), (''zs_num_leafs'', U64), (''zs_num_entries'', U64), (''zs_salt'', U64),
     (''zs_leafs_with_2n_pointers'', Arr 10 U64), (''zs_blocks_with_n5_entries'', Arr 10 U64),
     (''zs_blocks_n_tenths_full'', Arr 10 U64), (''zs_entries_using_n_chunks'', Arr 10 U64),
     (''zs_buckets_with_n_entries'', Arr 10 U64)]"

section \<open>Operations\<close>

text \<open>The C shift \<open>1 << k\<close> of an \<open>int\<close>.\<close>

definition shl_int :: "int \<Rightarrow> stop + int" where
  "shl_int k = (if 0 \<le> k \<and> k < 31 then Inr (2 ^ nat k) else Inl Undefined)"

definition ZAP_EMBEDDED_PTRTBL_SHIFT :: "int \<Rightarrow> int" where
  "ZAP_EMBEDDED_PTRTBL_SHIFT block_shift = block_shift - 3 - 1"

text \<open>The word of a header block in which entry \<open>idx\<close> of the embedded table lies.\<close>

definition ZAP_EMBEDDED_PTRTBL_ENT :: "int \<Rightarrow> int \<Rightarrow> stop + int" where
  "ZAP_EMBEDDED_PTRTBL_ENT block_shift idx =
     andthen (shl_int (ZAP_EMBEDDED_PTRTBL_SHIFT block_shift)) (\<lambda>half. Inr (idx + half))"

definition ZAP_HASH_IDX :: "u64 \<Rightarrow> int \<Rightarrow> stop + u64" where
  "ZAP_HASH_IDX hash n =
     (if n = 0 then Inr 0
      else if 0 \<le> 64 - n \<and> 64 - n < 64 then Inr (drop_bit (nat (64 - n)) hash) else Inl Undefined)"

definition ZAP_LEAF_HASH_SHIFT_BS :: "int \<Rightarrow> int" where
  "ZAP_LEAF_HASH_SHIFT_BS bs = bs - 5"

definition ZAP_LEAF_HASH_NUMENTRIES_BS :: "int \<Rightarrow> stop + int" where
  "ZAP_LEAF_HASH_NUMENTRIES_BS bs = shl_int (ZAP_LEAF_HASH_SHIFT_BS bs)"

definition ZAP_LEAF_NUMCHUNKS_BS :: "int \<Rightarrow> stop + int" where
  "ZAP_LEAF_NUMCHUNKS_BS bs =
     andthen (shl_int bs) (\<lambda>size. andthen (ZAP_LEAF_HASH_NUMENTRIES_BS bs) (\<lambda>entries.
     Inr ((size - 2 * entries) div ZAP_LEAF_CHUNKSIZE - 2)))"

definition ZAP_LEAF_ARRAY_NCHUNKS :: "int \<Rightarrow> int" where
  "ZAP_LEAF_ARRAY_NCHUNKS bytes = (bytes + ZAP_LEAF_ARRAY_BYTES - 1) div ZAP_LEAF_ARRAY_BYTES"

text \<open>The offset of a chunk in its block: past the header, the hash table and the chunks before.\<close>

definition ZAP_LEAF_CHUNK :: "int \<Rightarrow> int \<Rightarrow> stop + int" where
  "ZAP_LEAF_CHUNK bs idx =
     andthen (ZAP_LEAF_HASH_NUMENTRIES_BS bs) (\<lambda>entries.
     Inr (int (member zap_leaf_phys_t ''l_hash'') + 2 * entries
       + idx * int (sizeof LP64 zap_leaf_chunk_t)))"

section \<open>A leaf block\<close>

lemma l_hash_at: "member zap_leaf_phys_t ''l_hash'' = 48"
  by (simp add: member_def layout layout_eval)

lemma chunk_sizes:
  "list_all (\<lambda>A. sizeof A zap_leaf_chunk_t = 24 \<and> sizeof A zap_leaf_entry = 24
     \<and> sizeof A zap_leaf_array = 24 \<and> sizeof A zap_leaf_free = 24) [LP64, ILP32, I386]"
  by (simp add: layout layout_eval)

lemma chunk_portable: "portable zap_leaf_chunk_t" "portable mzap_phys_t"
    "leaves I386 [] zap_leaf_phys_t = leaves LP64 [] zap_leaf_phys_t"
    "portable zap_phys_layout" "sizeof LP64 mzap_ent_phys_t = MZAP_ENT_LEN" "sizeof LP64 zap_phys_layout = 104"
  by (simp_all add: MZAP_ENT_LEN_def layout layout_eval)

lemma shl_int_ok: "0 \<le> k \<Longrightarrow> k < 31 \<Longrightarrow> shl_int k = Inr (2 ^ nat k)"
  by (simp add: shl_int_def)

text \<open>The hash table of a block of \<open>2 ^ bs\<close> bytes takes a sixteenth of it.\<close>

lemma hash_sixteenth: "5 \<le> bs \<Longrightarrow> (2 :: int) ^ nat bs = 32 * 2 ^ nat (bs - 5)"
proof -
  assume "5 \<le> bs"
  then have "nat bs = 5 + nat (bs - 5)" by simp
  then show ?thesis by (simp only: power_add) simp
qed

lemma chunks_fit:
  fixes size table :: int
  assumes "idx < (size - table) div 24 - 2"
  shows "48 + table + (idx + 1) * 24 \<le> size"
proof -
  have "(idx + 1) * 24 \<le> ((size - table) div 24 - 2) * 24" using assms by simp
  also have "\<dots> \<le> size - table - 48" by (simp add: algebra_simps)
  finally show ?thesis by simp
qed

text \<open>C32: In a leaf block of 2^bs bytes the hash table, the header before it and as many
  chunks as \<open>ZAP_LEAF_NUMCHUNKS\<close> counts fit: chunks begin after the table, follow each other
  every 24 bytes, which is the size of each of the three kinds, end inside the block, and
  leave less than one chunk unused. The table has a bucket for every entry the block can
  hold (three chunks each), and the largest directory entry (a name of 256 bytes and a value
  of 8) needs fewer chunks than the low-water mark.\<close>

theorem zap_leaf_block:
  assumes bs: "9 \<le> bs" "bs < 31"
  shows "\<exists>n h. ZAP_LEAF_NUMCHUNKS_BS bs = Inr n \<and> ZAP_LEAF_HASH_NUMENTRIES_BS bs = Inr h \<and> 0 < n
    \<and> (\<forall>idx. 0 \<le> idx \<and> idx < n \<longrightarrow>
        ZAP_LEAF_CHUNK bs idx = Inr (48 + 2 * h + idx * 24) \<and> 48 + 2 * h + (idx + 1) * 24 \<le> 2 ^ nat bs)
    \<and> 2 ^ nat bs - (48 + 2 * h + n * 24) < 24 \<and> n div 3 < h
    \<and> 1 + ZAP_LEAF_ARRAY_NCHUNKS 256 + ZAP_LEAF_ARRAY_NCHUNKS 8 \<le> ZAP_LEAF_LOW_WATER"
proof -
  define h :: int where "h = 2 ^ nat (bs - 5)"
  have size: "(2 :: int) ^ nat bs = 32 * h" using hash_sixteenth bs by (simp add: h_def)
  have "(2 :: int) ^ 4 \<le> h" unfolding h_def using bs by (intro power_increasing) simp_all
  then have h: "16 \<le> h" by simp
  let ?n = "(32 * h - 2 * h) div 24 - 2"
  have e: "ZAP_LEAF_HASH_NUMENTRIES_BS bs = Inr h"
    using bs by (simp add: ZAP_LEAF_HASH_NUMENTRIES_BS_def ZAP_LEAF_HASH_SHIFT_BS_def shl_int_ok h_def)
  have "ZAP_LEAF_NUMCHUNKS_BS bs = Inr ?n"
    using bs size by (simp add: ZAP_LEAF_NUMCHUNKS_BS_def shl_int_ok e ZAP_LEAF_CHUNKSIZE_def)
  moreover have "ZAP_LEAF_CHUNK bs idx = Inr (48 + 2 * h + idx * 24)" for idx
    using chunk_sizes by (simp add: ZAP_LEAF_CHUNK_def e l_hash_at)
  moreover have "1 + ZAP_LEAF_ARRAY_NCHUNKS 256 + ZAP_LEAF_ARRAY_NCHUNKS 8 \<le> ZAP_LEAF_LOW_WATER"
    by (simp add: ZAP_LEAF_ARRAY_NCHUNKS_def ZAP_LEAF_ARRAY_BYTES_def ZAP_LEAF_CHUNKSIZE_def ZAP_LEAF_LOW_WATER_def)
  moreover have "24 * (30 * h div 24) \<le> 30 * h" "30 * h < 24 * (30 * h div 24) + 24"
    "3 * (?n div 3) \<le> ?n" by presburger+
  then have "0 < ?n" "?n div 3 < h" "32 * h - (48 + 2 * h + ?n * 24) < 24" using h by simp_all
  ultimately show ?thesis
    using e size chunks_fit[of _ "32 * h" "2 * h"] by (intro exI[of _ ?n] exI[of _ h]) simp
qed

theorem zap_leaf_block_witness:
  "ZAP_LEAF_CHUNK 14 637 = Inr (48 + 2 * 512 + 637 * 24) \<and> ZAP_LEAF_NUMCHUNKS_BS 14 = Inr 638"
proof -
  have "ZAP_LEAF_NUMCHUNKS_BS 14 = Inr 638" "ZAP_LEAF_HASH_NUMENTRIES_BS 14 = Inr 512"
    by (simp_all add: ZAP_LEAF_NUMCHUNKS_BS_def ZAP_LEAF_HASH_NUMENTRIES_BS_def ZAP_LEAF_HASH_SHIFT_BS_def
        shl_int_def ZAP_LEAF_CHUNKSIZE_def)
  then show ?thesis using zap_leaf_block[of 14] by auto
qed

section \<open>The pointer table\<close>

text \<open>The embedded pointer table fills exactly the second half of a header block of
  2^bs bytes: each of its 2^(bs-4) words lies in it. The index of a hash in a table of 2^n
  words is within the table, and doubling the table refines it: dropping the last bit of the
  new index gives the old one.\<close>

theorem zap_pointer_table:
  assumes bs: "5 \<le> bs" "bs < 31" and idx: "0 \<le> idx" "idx < 2 ^ nat (bs - 4)" and n: "0 \<le> n" "n < 64"
  shows "\<exists>w i j. ZAP_EMBEDDED_PTRTBL_ENT bs idx = Inr w \<and> 2 ^ nat bs \<le> 2 * (8 * w) \<and> 8 * w + 8 \<le> 2 ^ nat bs
    \<and> ZAP_HASH_IDX hash n = Inr i \<and> unat i < 2 ^ nat n
    \<and> ZAP_HASH_IDX hash (n + 1) = Inr j \<and> drop_bit 1 j = i"
proof -
  have "(2 :: int) ^ nat bs = 16 * 2 ^ nat (bs - 4)"
  proof -
    have "nat bs = 4 + nat (bs - 4)" using bs by simp
    then show ?thesis by (simp only: power_add) simp
  qed
  moreover have "ZAP_EMBEDDED_PTRTBL_ENT bs idx = Inr (idx + 2 ^ nat (bs - 4))"
    using bs by (simp add: ZAP_EMBEDDED_PTRTBL_ENT_def ZAP_EMBEDDED_PTRTBL_SHIFT_def shl_int_def)
  moreover have "unat (drop_bit (64 - m) hash) < 2 ^ m" if "0 < m" "m < 64" for m
  proof -
    have "unat hash < 2 ^ m * 2 ^ (64 - m)"
      using unsigned_less[of hash, where ?'a = nat] that by (simp flip: power_add)
    then have "unat hash div 2 ^ (64 - m) < 2 ^ m" by (rule less_mult_imp_div_less)
    then show ?thesis by (simp only: unat_drop_bit_eq drop_bit_eq_div[of _ "unat hash"])
  qed
  moreover have "drop_bit 1 (drop_bit (63 - m) hash) = drop_bit (64 - m) hash" if "m < 64" for m
  proof -
    have "64 - m = Suc (63 - m)" using that by simp
    then show ?thesis by simp
  qed
  moreover have "drop_bit 64 hash = 0" by (rule bit_word_eqI) (auto simp: bit_simps dest: bit_imp_le_length)
  ultimately show ?thesis
    using idx n by (cases "n = 0") (auto simp: ZAP_HASH_IDX_def nat_diff_distrib)
qed

theorem zap_pointer_table_witness:
  "\<exists>i j. ZAP_HASH_IDX 0xfedcba9876543210 10 = Inr i \<and> ZAP_HASH_IDX 0xfedcba9876543210 (10 + 1) = Inr j
    \<and> drop_bit 1 j = i"
  using zap_pointer_table[of 14 1023 10 "0xfedcba9876543210"] by auto

section \<open>The single-block form\<close>

lemma mzap_entries: "sizeof LP64 mzap_ent_phys_t = MZAP_ENT_LEN \<and> member mzap_phys_t ''mz_chunk'' = MZAP_ENT_LEN
    \<and> member mzap_ent_phys_t ''mze_name'' + MZAP_NAME_LEN = MZAP_ENT_LEN"
  by (simp add: MZAP_ENT_LEN_def MZAP_NAME_LEN_def member_def layout layout_eval)

interpretation zap_fields: packed_struct LP64 zap_phys_layout
  by unfold_locales (simp_all add: layout layout_eval)

interpretation mzap_fields: packed_struct LP64 mzap_phys_t
  by unfold_locales (simp_all add: layout layout_eval)

interpretation leaf_entry_fields: packed_struct LP64 zap_leaf_entry
  by unfold_locales (simp_all add: layout layout_eval)

end
