(* ===== verification/Sa.thy ===== *)
theory Sa
  imports Pool_Layout Bitfield Dnode Dmu
begin

text \<open>
  System attributes (\<open>sys/sa_impl.h\<close>): the word an attribute is registered with, the table of
  contents of a buffer, and the header of a buffer with the number of its layout and its
  size. The 32-bit field macros are used at operands of 16, 32 and 64 bits; each use below is
  at the type of its operand, with the promotions C makes.
\<close>

section \<open>Kinds and structures\<close>

definition sa_bswap_type :: c_enum where
  "sa_bswap_type = plain
    [''SA_UINT64_ARRAY'', ''SA_UINT32_ARRAY'', ''SA_UINT16_ARRAY'', ''SA_UINT8_ARRAY'',
     ''SA_ACL'']"

definition sa_handle_type :: c_enum where
  "sa_handle_type = plain
    [''SA_HDL_SHARED'', ''SA_HDL_PRIVATE'']"

definition sa_buf_type :: c_enum where
  "sa_buf_type =
    [(''SA_BONUS'', Is 1), (''SA_SPILL'', Is 2)]"

definition sa_data_op :: c_enum where
  "sa_data_op = plain
    [''SA_LOOKUP'', ''SA_UPDATE'', ''SA_ADD'', ''SA_REPLACE'', ''SA_REMOVE'']"

definition sa_hdr_phys_t :: c_type where [layout]:
  "sa_hdr_phys_t = Struct
    [(''sa_magic'', U32), (''sa_layout_info'', U16), (''sa_lengths'', Arr 1 U16)]"

definition SA_MAGIC :: u32 where "SA_MAGIC = 0x2F505A"
definition SA_LAYOUTS :: string where "SA_LAYOUTS = ''LAYOUTS''"
definition SA_REGISTRY :: string where "SA_REGISTRY = ''REGISTRY''"

record sa_hdr =
  sa_magic :: u32
  sa_layout_info :: u16
  sa_lengths :: "u16 list"

record sa_attr_entry =
  sa_attr :: u16
  sa_registered :: u8
  sa_length :: u16
  sa_byteswap :: u32
  sa_name :: string

section \<open>Registered attributes\<close>

definition ATTR_BSWAP :: "u64 \<Rightarrow> u64" where "ATTR_BSWAP x = BF64_GET x 16 8"
definition ATTR_LENGTH :: "u64 \<Rightarrow> u64" where "ATTR_LENGTH x = BF64_GET x 24 16"
definition ATTR_NUM :: "u64 \<Rightarrow> u64" where "ATTR_NUM x = BF64_GET x 0 16"

definition ATTR_ENCODE :: "u64 \<Rightarrow> u64 \<Rightarrow> u64 \<Rightarrow> u64 \<Rightarrow> stop + u64" where
  "ATTR_ENCODE x attr len bswap =
     andthen (BF64_SET x 24 16 len) (\<lambda>x. andthen (BF64_SET x 16 8 bswap) (\<lambda>x. BF64_SET x 0 16 attr))"

section \<open>The table of contents\<close>

definition TOC_OFF :: "u32 \<Rightarrow> u32" where "TOC_OFF x = BF32_GET x 0 23"
definition TOC_ATTR_PRESENT :: "u32 \<Rightarrow> u32" where "TOC_ATTR_PRESENT x = BF32_GET x 31 1"
definition TOC_LEN_IDX :: "u32 \<Rightarrow> u32" where "TOC_LEN_IDX x = BF32_GET x 24 4"

definition TOC_ATTR_ENCODE :: "u32 \<Rightarrow> u32 \<Rightarrow> u32 \<Rightarrow> stop + u32" where
  "TOC_ATTR_ENCODE x len_idx offset =
     andthen (BF32_SET x 31 1 1) (\<lambda>x. andthen (BF32_SET x 24 7 len_idx) (\<lambda>x. BF32_SET x 0 24 offset))"

section \<open>The header of a buffer\<close>

definition BF32_GET_SB :: "u32 \<Rightarrow> nat \<Rightarrow> nat \<Rightarrow> nat \<Rightarrow> u32 \<Rightarrow> u32" where
  "BF32_GET_SB x low len shift bias = push_bit shift (BF32_GET x low len + bias)"

text \<open>A store into a 16-bit operand: computed at 32 bits and truncated.\<close>

definition BF32_SET16 :: "u16 \<Rightarrow> nat \<Rightarrow> nat \<Rightarrow> u32 \<Rightarrow> stop + u16" where
  "BF32_SET16 x low len val = andthen (BF32_SET (ucast x) low len val) (\<lambda>y. Inr (ucast y))"

definition BF32_SET_SB :: "u16 \<Rightarrow> nat \<Rightarrow> nat \<Rightarrow> nat \<Rightarrow> u32 \<Rightarrow> u32 \<Rightarrow> stop + u16" where
  "BF32_SET_SB x low len shift bias val =
     andthen (ASSERT (val AND (push_bit shift 1 - 1) = 0)) (\<lambda>_.
     andthen (ASSERT (drop_bit shift val \<ge> bias)) (\<lambda>_.
     BF32_SET16 x low len (drop_bit shift val - bias)))"

definition SA_HDR_LAYOUT_NUM :: "sa_hdr \<Rightarrow> u32" where
  "SA_HDR_LAYOUT_NUM hdr = BF32_GET (ucast (sa_layout_info hdr)) 0 10"

definition SA_HDR_SIZE :: "sa_hdr \<Rightarrow> u32" where
  "SA_HDR_SIZE hdr = BF32_GET_SB (ucast (sa_layout_info hdr)) 10 6 3 0"

definition SA_HDR_LAYOUT_INFO_ENCODE :: "u16 \<Rightarrow> u32 \<Rightarrow> u32 \<Rightarrow> stop + u16" where
  "SA_HDR_LAYOUT_INFO_ENCODE x num sz =
     andthen (BF32_SET_SB x 10 6 3 0 sz) (\<lambda>x. BF32_SET16 x 0 10 num)"

definition SA_SET_HDR :: "sa_hdr \<Rightarrow> u32 \<Rightarrow> u32 \<Rightarrow> stop + sa_hdr" where
  "SA_SET_HDR hdr num sz =
     andthen (SA_HDR_LAYOUT_INFO_ENCODE (sa_layout_info hdr) num sz) (\<lambda>info.
     Inr (hdr\<lparr>sa_magic := SA_MAGIC, sa_layout_info := info\<rparr>))"

definition IS_SA_BONUSTYPE :: "int \<Rightarrow> bool" where
  "IS_SA_BONUSTYPE a \<longleftrightarrow> enum_val dmu_object_type ''DMU_OT_SA'' = Some a"

definition SA_LAYOUT_NUM :: "sa_hdr \<Rightarrow> int \<Rightarrow> u32" where
  "SA_LAYOUT_NUM x type =
     (if \<not> IS_SA_BONUSTYPE type then 0
      else if IS_SA_BONUSTYPE type \<and> SA_HDR_LAYOUT_NUM x = 0 then 1 else SA_HDR_LAYOUT_NUM x)"

definition SA_BLKPTR_SPACE :: int where
  "SA_BLKPTR_SPACE = DN_OLD_MAX_BONUSLEN - int (sizeof LP64 blkptr_layout)"

definition SA_REGISTERED_LEN :: "sa_attr_entry list \<Rightarrow> nat \<Rightarrow> stop + u16" where
  "SA_REGISTERED_LEN tab attr = (if attr < length tab then Inr (sa_length (tab ! attr)) else Inl Undefined)"

text \<open>The length of an attribute: fixed by its registration, or else in the header.\<close>

definition SA_ATTR_LEN :: "sa_attr_entry list \<Rightarrow> u32 list \<Rightarrow> nat \<Rightarrow> sa_hdr \<Rightarrow> stop + u16" where
  "SA_ATTR_LEN tab idx_tab attr hdr =
     andthen (SA_REGISTERED_LEN tab attr) (\<lambda>l.
     if l = 0 then
       (if attr < length idx_tab \<and> unat (TOC_LEN_IDX (idx_tab ! attr)) < length (sa_lengths hdr)
        then Inr (sa_lengths hdr ! unat (TOC_LEN_IDX (idx_tab ! attr))) else Inl Undefined)
     else Inr l)"

text \<open>The size of a header with \<open>var_sizes\<close> lengths; the first one is part of the structure.\<close>

definition SA_HDR_SIZE_MATCH_LAYOUT :: "sa_hdr \<Rightarrow> u64 \<Rightarrow> bool" where
  "SA_HDR_SIZE_MATCH_LAYOUT hdr var_sizes \<longleftrightarrow>
     ucast (SA_HDR_SIZE hdr) = W (sizeof LP64 sa_hdr_phys_t)
       + (if var_sizes > 1 then P2ROUNDUP ((var_sizes - 1) * 2) 8 else 0)"

section \<open>Fields of 32-bit words\<close>

definition with_field32 :: "u32 \<Rightarrow> nat \<Rightarrow> nat \<Rightarrow> u32 \<Rightarrow> u32" where
  "with_field32 x low len val = x XOR push_bit low (take_bit len (drop_bit low x XOR val))"

lemma mask32: "(2 :: u32) ^ len - 1 = mask len"
  by (simp add: mask_eq_exp_minus_1)

lemma BF32_GET_take: "BF32_GET x low len = take_bit len (drop_bit low x)"
  by (simp add: BF32_GET_def BF32_DECODE_def push_bit_of_1 mask32 take_bit_eq_mask)

lemma bit_BF32_GET: "bit (BF32_GET x low len) n \<longleftrightarrow> n < len \<and> bit x (low + n)"
  by (auto simp: BF32_GET_take bit_simps dest: bit_imp_le_length)

lemma bit_with_field32:
  "n < 32 \<Longrightarrow> bit (with_field32 x low len val) n \<longleftrightarrow>
     (if low \<le> n \<and> n < low + len then bit val (n - low) else bit x n)"
  by (auto simp: with_field32_def bit_simps)

lemma BF32_SET_ok:
  "low + len \<le> 32 \<Longrightarrow> val < push_bit len 1 \<Longrightarrow> BF32_SET x low len val = Inr (with_field32 x low len val)"
  by (simp add: BF32_SET_def BF32_ENCODE_def with_field32_def push_bit_of_1 mask32 flip: take_bit_eq_mask)

lemma get_with_field32:
  "low' + len' \<le> 32 \<Longrightarrow> low \<le> low' \<Longrightarrow> low' + len' \<le> low + len \<Longrightarrow>
   BF32_GET (with_field32 x low len val) low' len' = take_bit len' (drop_bit (low' - low) val)"
  by (rule bit_word_eqI) (auto simp: bit_BF32_GET bit_with_field32 bit_simps dest: bit_imp_le_length)

lemma get_other_field32:
  "low' + len' \<le> 32 \<Longrightarrow> low' + len' \<le> low \<or> low + len \<le> low' \<Longrightarrow>
   BF32_GET (with_field32 x low len val) low' len' = BF32_GET x low' len'"
  by (rule bit_word_eqI) (auto simp: bit_BF32_GET bit_with_field32)

lemma take_bit_self_iff: "take_bit k (w :: u32) = w \<longleftrightarrow> unat w < 2 ^ k"
  by (metis take_bit_nat_eq_self_iff unsigned_take_bit_eq unsigned_word_eqI)

lemma get_narrow: "low + len \<le> 16 \<Longrightarrow> BF32_GET (ucast (ucast w :: u16)) low len = BF32_GET w low len"
  by (rule bit_word_eqI) (auto simp: bit_BF32_GET bit_simps)

section \<open>Properties\<close>

text \<open>The word an attribute is registered with gives back its number, its length and its
  byte-swap function. An entry of the table of contents takes a 7-bit index and a 24-bit
  offset, but is read with four and 23 bits: it gives back both exactly when the index is
  below 16 and the offset below 2^23.\<close>

theorem sa_attr_toc:
  assumes a: "attr < 2 ^ 16" "len < 2 ^ 16" "bswap < 2 ^ 8" and t: "idx < 128" "offset < 0x1000000"
  shows "\<exists>w e. ATTR_ENCODE x attr len bswap = Inr w
      \<and> ATTR_NUM w = attr \<and> ATTR_LENGTH w = len \<and> ATTR_BSWAP w = bswap
    \<and> TOC_ATTR_ENCODE y idx offset = Inr e \<and> TOC_ATTR_PRESENT e = 1
    \<and> TOC_LEN_IDX e = take_bit 4 idx \<and> TOC_OFF e = take_bit 23 offset
    \<and> (TOC_LEN_IDX e = idx \<and> TOC_OFF e = offset \<longleftrightarrow> idx < 16 \<and> offset < 0x800000)"
proof -
  let ?w1 = "with_field x 24 16 len"
  let ?w2 = "with_field ?w1 16 8 bswap"
  let ?w = "with_field ?w2 0 16 attr"
  have w: "ATTR_ENCODE x attr len bswap = Inr ?w" using a by (simp add: ATTR_ENCODE_def BF64_SET_ok)
  have "ATTR_NUM ?w = attr" "ATTR_BSWAP ?w = bswap" "ATTR_LENGTH ?w = len"
    using a get_with_field[of 16 0 attr ?w2] get_other_field[of 16 8 0 16 ?w2 attr] get_with_field[of 8 16 bswap ?w1]
      get_other_field[of 24 16 0 16 ?w2 attr] get_other_field[of 24 16 16 8 ?w1 bswap] get_with_field[of 16 24 len x]
    by (simp_all add: ATTR_NUM_def ATTR_BSWAP_def ATTR_LENGTH_def)
  moreover
  let ?e1 = "with_field32 y 31 1 1"
  let ?e2 = "with_field32 ?e1 24 7 idx"
  let ?e = "with_field32 ?e2 0 24 offset"
  have "TOC_ATTR_ENCODE y idx offset = Inr ?e"
    using t by (simp add: TOC_ATTR_ENCODE_def BF32_SET_ok)
  moreover have "TOC_ATTR_PRESENT ?e = 1" "TOC_LEN_IDX ?e = take_bit 4 idx" "TOC_OFF ?e = take_bit 23 offset"
    by (simp_all add: TOC_ATTR_PRESENT_def TOC_LEN_IDX_def TOC_OFF_def get_with_field32 get_other_field32)
  moreover have "take_bit 4 idx = idx \<longleftrightarrow> idx < 16" "take_bit 23 offset = offset \<longleftrightarrow> offset < 0x800000"
    by (simp_all add: word_less_nat_alt take_bit_self_iff)
  ultimately show ?thesis using w by (intro exI[of _ ?w] exI[of _ ?e]) simp
qed

theorem sa_attr_toc_witness:
  "\<exists>e. TOC_ATTR_ENCODE 0 20 0x900008 = Inr e \<and> TOC_LEN_IDX e = 4 \<and> TOC_OFF e = 0x100008"
  using sa_attr_toc[of 7 8 1 20 "0x900008" 0 0] by auto

lemma scaled_size: "k < 64 \<Longrightarrow> push_bit 3 k AND 7 = (0 :: u32)" "k < 64 \<Longrightarrow> drop_bit 3 (push_bit 3 k) = (k :: u32)"
proof -
  show "push_bit 3 k AND 7 = (0 :: u32)"
  proof -
    have "push_bit 3 k AND mask 3 = (0 :: u32)"
      by (rule bit_word_eqI) (auto simp: bit_simps simp del: mask_numeral)
    then show ?thesis by (simp add: mask_eq_exp_minus_1)
  qed
  assume "k < 64"
  then have b: "bit k n \<Longrightarrow> n < 6" for n
    using take_bit_self_iff[of 6 k] by (auto simp: word_less_nat_alt) (metis bit_take_bit_iff)
  show "drop_bit 3 (push_bit 3 k) = k"
    by (rule bit_word_eqI) (auto simp: bit_simps dest: b)
qed

lemma BF32_SET16_ok:
  "low + len \<le> 16 \<Longrightarrow> val < push_bit len 1 \<Longrightarrow>
   BF32_SET16 x low len val = Inr (ucast (with_field32 (ucast x) low len val))"
  by (simp add: BF32_SET16_def BF32_SET_ok)

text \<open>Setting the header of a buffer to a layout number below 1024 and a size that is a
  multiple of 8 below 512 stores the magic number, and both are read back, whatever the
  header held before; a size that is no multiple of 8, or of 512 and more, or a number of
  1024 and more trips an assertion.\<close>

theorem sa_header:
  assumes num: "num < 1024" and k: "k < 64" and bad: "sz AND 7 \<noteq> 0 \<or> 512 \<le> sz" and big: "1024 \<le> num'"
  shows "(\<exists>h. SA_SET_HDR hdr num (push_bit 3 k) = Inr h \<and> sa_magic h = SA_MAGIC
      \<and> SA_HDR_LAYOUT_NUM h = num \<and> SA_HDR_SIZE h = push_bit 3 k \<and> sa_lengths h = sa_lengths hdr)
    \<and> SA_SET_HDR hdr num sz = Inl Assert_failed
    \<and> SA_SET_HDR hdr num' (push_bit 3 k) = Inl Assert_failed"
proof -
  let ?i1 = "ucast (with_field32 (ucast (sa_layout_info hdr)) 10 6 k) :: u16"
  let ?i = "ucast (with_field32 (ucast ?i1) 0 10 num) :: u16"
  have s: "BF32_SET_SB (sa_layout_info hdr) 10 6 3 0 (push_bit 3 k) = Inr ?i1"
    using scaled_size[OF k] k unfolding BF32_SET_SB_def by (simp add: BF32_SET16_ok push_bit_of_1)
  then have "SA_SET_HDR hdr num (push_bit 3 k) = Inr (hdr\<lparr>sa_magic := SA_MAGIC, sa_layout_info := ?i\<rparr>)"
    using num by (simp add: SA_SET_HDR_def SA_HDR_LAYOUT_INFO_ENCODE_def BF32_SET16_ok push_bit_of_1)
  moreover have "BF32_GET (ucast ?i) 0 10 = num"
    using num take_bit_self_iff[of 10 num] by (simp add: get_narrow get_with_field32 word_less_nat_alt)
  moreover have "BF32_GET (ucast ?i) 10 6 = k"
    using k take_bit_self_iff[of 6 k] by (simp add: get_narrow get_with_field32 get_other_field32 word_less_nat_alt)
  moreover have "SA_SET_HDR hdr num sz = Inl Assert_failed"
  proof (cases "sz AND 7 = 0")
    case True
    then have "64 \<le> drop_bit 3 sz" using bad
      by (simp add: word_le_nat_alt unat_drop_bit_eq drop_bit_eq_div[of _ "unat sz"] del: drop_bit_eq_div)
    then show ?thesis using True
      by (simp add: SA_SET_HDR_def SA_HDR_LAYOUT_INFO_ENCODE_def BF32_SET_SB_def BF32_SET16_def
          BF32_SET_def ASSERT_def push_bit_of_1 not_less)
  qed (simp add: SA_SET_HDR_def SA_HDR_LAYOUT_INFO_ENCODE_def BF32_SET_SB_def ASSERT_def push_bit_of_1)
  moreover have "SA_SET_HDR hdr num' (push_bit 3 k) = Inl Assert_failed"
    using s big by (simp add: SA_SET_HDR_def SA_HDR_LAYOUT_INFO_ENCODE_def BF32_SET16_def
        BF32_SET_def ASSERT_def push_bit_of_1 not_less)
  ultimately show ?thesis by (simp add: SA_HDR_LAYOUT_NUM_def SA_HDR_SIZE_def BF32_GET_SB_def)
qed

theorem sa_header_witness:
  "\<exists>h. SA_SET_HDR \<lparr>sa_magic = 0, sa_layout_info = 0xffff, sa_lengths = [3]\<rparr> 2 (push_bit 3 2) = Inr h
    \<and> SA_HDR_LAYOUT_NUM h = 2 \<and> SA_HDR_SIZE h = push_bit 3 2"
  using sa_header[of 2 2 12 1024 "\<lparr>sa_magic = 0, sa_layout_info = 0xffff, sa_lengths = [3]\<rparr>"] by auto

end
