(* ===== verification/Packing.thy ===== *)
theory Packing
  imports Bitfield Blkptr
begin

text \<open>
  Values packed into single words: the entries of a space map (\<open>sys/space_map.h\<close>), the keys
  of the deduplication table (\<open>sys/ddt.h\<close>), and the parent, child index and balance of a
  node of an AVL tree (\<open>sys/avl_impl.h\<close>), which 64-bit machines pack and 32-bit machines keep
  apart. What a user of an AVL node relies on is the interface \<open>avl_access\<close>; both layouts
  provide it.
\<close>

section \<open>Space maps\<close>

definition SM_RUN_DECODE :: "u64 \<Rightarrow> u64" where "SM_RUN_DECODE x = BF64_DECODE x 0 15 + 1"
definition SM_RUN_ENCODE :: "u64 \<Rightarrow> u64" where "SM_RUN_ENCODE x = BF64_ENCODE (x - 1) 0 15"
definition SM_TYPE_DECODE :: "u64 \<Rightarrow> u64" where "SM_TYPE_DECODE x = BF64_DECODE x 15 1"
definition SM_TYPE_ENCODE :: "u64 \<Rightarrow> u64" where "SM_TYPE_ENCODE x = BF64_ENCODE x 15 1"
definition SM_OFFSET_DECODE :: "u64 \<Rightarrow> u64" where "SM_OFFSET_DECODE x = BF64_DECODE x 16 47"
definition SM_OFFSET_ENCODE :: "u64 \<Rightarrow> u64" where "SM_OFFSET_ENCODE x = BF64_ENCODE x 16 47"
definition SM_DEBUG_DECODE :: "u64 \<Rightarrow> u64" where "SM_DEBUG_DECODE x = BF64_DECODE x 63 1"
definition SM_DEBUG_ENCODE :: "u64 \<Rightarrow> u64" where "SM_DEBUG_ENCODE x = BF64_ENCODE x 63 1"
definition SM_DEBUG_ACTION_DECODE :: "u64 \<Rightarrow> u64" where "SM_DEBUG_ACTION_DECODE x = BF64_DECODE x 60 3"
definition SM_DEBUG_ACTION_ENCODE :: "u64 \<Rightarrow> u64" where "SM_DEBUG_ACTION_ENCODE x = BF64_ENCODE x 60 3"
definition SM_DEBUG_SYNCPASS_DECODE :: "u64 \<Rightarrow> u64" where "SM_DEBUG_SYNCPASS_DECODE x = BF64_DECODE x 50 10"
definition SM_DEBUG_SYNCPASS_ENCODE :: "u64 \<Rightarrow> u64" where "SM_DEBUG_SYNCPASS_ENCODE x = BF64_ENCODE x 50 10"
definition SM_DEBUG_TXG_DECODE :: "u64 \<Rightarrow> u64" where "SM_DEBUG_TXG_DECODE x = BF64_DECODE x 0 50"
definition SM_DEBUG_TXG_ENCODE :: "u64 \<Rightarrow> u64" where "SM_DEBUG_TXG_ENCODE x = BF64_ENCODE x 0 50"
definition SM_RUN_MAX :: u64 where "SM_RUN_MAX = SM_RUN_DECODE (NOT 0)"

text \<open>Fields joined by \<open>OR\<close> that do not overlap are read back one by one.\<close>

lemma bit_decode: "bit (BF64_DECODE w low len) n \<longleftrightarrow> n < len \<and> bit w (low + n)"
  using bit_BF64_GET by (simp add: BF64_GET_def)

lemma bit_encode: "bit (BF64_ENCODE x low len) n \<longleftrightarrow> low \<le> n \<and> n < 64 \<and> n < low + len \<and> bit x (n - low)"
  by (auto simp: BF64_ENCODE_def push_one P2PHASE_take bit_simps)

lemma decode_encode: "low + len \<le> 64 \<Longrightarrow> BF64_DECODE (BF64_ENCODE x low len) low len = take_bit len x"
  by (rule bit_word_eqI) (auto simp: bit_decode bit_encode bit_take_bit_iff)

lemma decode_other:
  "low' + len' \<le> low \<or> low + len \<le> low' \<Longrightarrow> BF64_DECODE (BF64_ENCODE x low len) low' len' = 0"
  by (rule bit_word_eqI) (auto simp: bit_decode bit_encode)

lemma decode_or: "BF64_DECODE (v OR w) low len = BF64_DECODE v low len OR BF64_DECODE w low len"
  by (rule bit_word_eqI) (auto simp: bit_decode bit_or_iff)

lemma take_bit_small: "len < 64 \<Longrightarrow> x < 2 ^ len \<Longrightarrow> take_bit len x = (x :: u64)"
  using fits_bits by blast

lemma run_max: "SM_RUN_MAX = 2 ^ 15"
  by (simp add: SM_RUN_MAX_def SM_RUN_DECODE_def BF64_DECODE_def P2PHASE_def push_one)

text \<open>The two kinds of space-map entries can be told apart and read back: a run of 1
  to \<open>SM_RUN_MAX\<close> units (32768) with its type and an offset below 2^47 has the debug bit
  clear and gives back all three; a debug entry has it set and gives back its action, its
  sync pass and the lower 50 bits of its transaction group.\<close>

theorem space_map_entries:
  assumes off: "off < 2 ^ 47" and type: "type < 2" and run: "0 < run" "run \<le> SM_RUN_MAX"
    and action: "action < 2 ^ 3" and pass: "pass < 2 ^ 10"
  shows "\<exists>w d. w = SM_OFFSET_ENCODE off OR SM_TYPE_ENCODE type OR SM_RUN_ENCODE run
    \<and> SM_OFFSET_DECODE w = off \<and> SM_TYPE_DECODE w = type \<and> SM_RUN_DECODE w = run \<and> SM_DEBUG_DECODE w = 0
    \<and> d = SM_DEBUG_ENCODE 1 OR SM_DEBUG_ACTION_ENCODE action OR SM_DEBUG_SYNCPASS_ENCODE pass
        OR SM_DEBUG_TXG_ENCODE txg
    \<and> SM_DEBUG_DECODE d = 1 \<and> SM_DEBUG_ACTION_DECODE d = action \<and> SM_DEBUG_SYNCPASS_DECODE d = pass
    \<and> SM_DEBUG_TXG_DECODE d = take_bit 50 txg"
proof -
  have "unat (run - 1) = unat run - 1" using run(1) by (intro unat_minus_one) (auto simp: word_gt_0)
  then have r: "run - 1 < 2 ^ 15"
    using run by (simp add: run_max word_less_nat_alt word_le_nat_alt)
  have f: "take_bit 47 off = off" "type mod 2 = type" "take_bit 15 (run - 1) = run - 1"
    "take_bit 3 action = action" "take_bit 10 pass = pass"
    using off type r action pass take_bit_small[of 47 off] take_bit_small[of 1 type] take_bit_small[of 15 "run - 1"]
      take_bit_small[of 3 action] take_bit_small[of 10 pass] by (simp_all add: take_bit_eq_mod[of 1])
  show ?thesis
    by (simp add: SM_OFFSET_ENCODE_def SM_TYPE_ENCODE_def SM_RUN_ENCODE_def SM_OFFSET_DECODE_def
        SM_TYPE_DECODE_def SM_RUN_DECODE_def SM_DEBUG_DECODE_def SM_DEBUG_ENCODE_def
        SM_DEBUG_ACTION_ENCODE_def SM_DEBUG_ACTION_DECODE_def SM_DEBUG_SYNCPASS_ENCODE_def
        SM_DEBUG_SYNCPASS_DECODE_def SM_DEBUG_TXG_ENCODE_def SM_DEBUG_TXG_DECODE_def
        decode_or decode_encode decode_other f)
qed

theorem space_map_entries_witness:
  "\<exists>w. w = SM_OFFSET_ENCODE 5 OR SM_TYPE_ENCODE 1 OR SM_RUN_ENCODE 32768
    \<and> SM_OFFSET_DECODE w = 5 \<and> SM_TYPE_DECODE w = 1 \<and> SM_RUN_DECODE w = 32768"
  using space_map_entries[of 5 1 32768 3 7 99] by (simp add: run_max)

section \<open>Keys of the deduplication table\<close>

definition DDK_GET_LSIZE :: "u64 \<Rightarrow> u64" where
  "DDK_GET_LSIZE ddk_prop = BF64_GET_SB ddk_prop 0 16 SPA_MINBLOCKSHIFT 1"
definition DDK_SET_LSIZE :: "u64 \<Rightarrow> u64 \<Rightarrow> stop + u64" where
  "DDK_SET_LSIZE ddk_prop x = BF64_SET_SB ddk_prop 0 16 SPA_MINBLOCKSHIFT 1 x"
definition DDK_GET_PSIZE :: "u64 \<Rightarrow> u64" where
  "DDK_GET_PSIZE ddk_prop = BF64_GET_SB ddk_prop 16 16 SPA_MINBLOCKSHIFT 1"
definition DDK_SET_PSIZE :: "u64 \<Rightarrow> u64 \<Rightarrow> stop + u64" where
  "DDK_SET_PSIZE ddk_prop x = BF64_SET_SB ddk_prop 16 16 SPA_MINBLOCKSHIFT 1 x"
definition DDK_GET_COMPRESS :: "u64 \<Rightarrow> u64" where "DDK_GET_COMPRESS ddk_prop = BF64_GET ddk_prop 32 7"
definition DDK_SET_COMPRESS :: "u64 \<Rightarrow> u64 \<Rightarrow> stop + u64" where
  "DDK_SET_COMPRESS ddk_prop x = BF64_SET ddk_prop 32 7 x"
definition DDK_GET_CRYPT :: "u64 \<Rightarrow> u64" where "DDK_GET_CRYPT ddk_prop = BF64_GET ddk_prop 39 1"
definition DDK_SET_CRYPT :: "u64 \<Rightarrow> u64 \<Rightarrow> stop + u64" where
  "DDK_SET_CRYPT ddk_prop x = BF64_SET ddk_prop 39 1 x"
definition DDE_GET_NDVAS :: "u64 \<Rightarrow> nat" where
  "DDE_GET_NDVAS ddk_prop = (if DDK_GET_CRYPT ddk_prop \<noteq> 0 then SPA_DVAS_PER_BP - 1 else SPA_DVAS_PER_BP)"

section \<open>Nodes of AVL trees\<close>

text \<open>On 32-bit machines.\<close>

record avl_node =
  avl_child :: "u64 list"
  avl_parent :: u64
  avl_child_index :: u16
  avl_balance :: "16 word"

definition AVL_XPARENT :: "avl_node \<Rightarrow> u64" where "AVL_XPARENT n = avl_parent n"
definition AVL_SETPARENT :: "avl_node \<Rightarrow> u64 \<Rightarrow> avl_node" where
  "AVL_SETPARENT n p = n\<lparr>avl_parent := p\<rparr>"
definition AVL_XCHILD :: "avl_node \<Rightarrow> int" where "AVL_XCHILD n = uint (avl_child_index n)"
definition AVL_SETCHILD :: "avl_node \<Rightarrow> int \<Rightarrow> avl_node" where
  "AVL_SETCHILD n c = n\<lparr>avl_child_index := word_of_int c\<rparr>"
definition AVL_XBALANCE :: "avl_node \<Rightarrow> int" where "AVL_XBALANCE n = sint (avl_balance n)"
definition AVL_SETBALANCE :: "avl_node \<Rightarrow> int \<Rightarrow> avl_node" where
  "AVL_SETBALANCE n b = n\<lparr>avl_balance := word_of_int b\<rparr>"

text \<open>On 64-bit machines.\<close>

record avl_node_lp64 =
  avl_child_lp64 :: "u64 list"
  avl_pcb :: u64

definition AVL_XPARENT_lp64 :: "avl_node_lp64 \<Rightarrow> u64" where "AVL_XPARENT_lp64 n = avl_pcb n AND NOT 7"
definition AVL_SETPARENT_lp64 :: "avl_node_lp64 \<Rightarrow> u64 \<Rightarrow> avl_node_lp64" where
  "AVL_SETPARENT_lp64 n p = n\<lparr>avl_pcb := avl_pcb n AND 7 OR p\<rparr>"
definition AVL_XCHILD_lp64 :: "avl_node_lp64 \<Rightarrow> int" where
  "AVL_XCHILD_lp64 n = uint (drop_bit 2 (avl_pcb n) AND 1)"
definition AVL_SETCHILD_lp64 :: "avl_node_lp64 \<Rightarrow> int \<Rightarrow> avl_node_lp64" where
  "AVL_SETCHILD_lp64 n c = n\<lparr>avl_pcb := avl_pcb n AND NOT 4 OR word_of_int (c * 4)\<rparr>"
definition AVL_XBALANCE_lp64 :: "avl_node_lp64 \<Rightarrow> int" where
  "AVL_XBALANCE_lp64 n = sint (ucast ((avl_pcb n AND 3) - 1) :: u32)"
definition AVL_SETBALANCE_lp64 :: "avl_node_lp64 \<Rightarrow> int \<Rightarrow> avl_node_lp64" where
  "AVL_SETBALANCE_lp64 n b = n\<lparr>avl_pcb := avl_pcb n AND NOT 3 OR word_of_int (b + 1)\<rparr>"

text \<open>What the users of a node rely on: three members that do not disturb each other.\<close>

locale avl_access =
  fixes xparent :: "'n \<Rightarrow> u64" and setparent :: "'n \<Rightarrow> u64 \<Rightarrow> 'n"
    and xchild :: "'n \<Rightarrow> int" and setchild :: "'n \<Rightarrow> int \<Rightarrow> 'n"
    and xbalance :: "'n \<Rightarrow> int" and setbalance :: "'n \<Rightarrow> int \<Rightarrow> 'n"
  assumes parent: "p AND 7 = 0 \<Longrightarrow> xparent (setparent n p) = p"
      "p AND 7 = 0 \<Longrightarrow> xchild (setparent n p) = xchild n" "p AND 7 = 0 \<Longrightarrow> xbalance (setparent n p) = xbalance n"
    and child: "c \<in> {0, 1} \<Longrightarrow> xchild (setchild n c) = c"
      "c \<in> {0, 1} \<Longrightarrow> xparent (setchild n c) = xparent n" "c \<in> {0, 1} \<Longrightarrow> xbalance (setchild n c) = xbalance n"
    and balance: "b \<in> {- 1, 0, 1} \<Longrightarrow> xbalance (setbalance n b) = b"
      "b \<in> {- 1, 0, 1} \<Longrightarrow> xparent (setbalance n b) = xparent n" "b \<in> {- 1, 0, 1} \<Longrightarrow> xchild (setbalance n b) = xchild n"
begin

definition view :: "'n \<Rightarrow> u64 \<times> int \<times> int" where
  "view n = (xparent n, xchild n, xbalance n)"

lemma view_set:
  "p AND 7 = 0 \<Longrightarrow> view (setparent n p) = (p, snd (view n))"
  "c \<in> {0, 1} \<Longrightarrow> view (setchild n c) = (fst (view n), c, snd (snd (view n)))"
  "b \<in> {- 1, 0, 1} \<Longrightarrow> view (setbalance n b) = (fst (view n), fst (snd (view n)), b)"
  by (auto simp: view_def parent child balance)

lemma insert_leaf:
  "p AND 7 = 0 \<Longrightarrow> c \<in> {0, 1} \<Longrightarrow> view (setparent (setbalance (setchild n c) 0) p) = (p, c, 0)"
  by (auto simp: view_set)

end

interpretation plain_node: avl_access AVL_XPARENT AVL_SETPARENT AVL_XCHILD AVL_SETCHILD AVL_XBALANCE AVL_SETBALANCE
  by unfold_locales (auto simp: AVL_XPARENT_def AVL_SETPARENT_def AVL_XCHILD_def AVL_SETCHILD_def
      AVL_XBALANCE_def AVL_SETBALANCE_def)

text \<open>The bits of the masks.\<close>

lemma mask_bits:
  "bit (7 :: u64) n \<longleftrightarrow> n < 3" "bit (3 :: u64) n \<longleftrightarrow> n < 2" "bit (4 :: u64) n \<longleftrightarrow> n = 2"
  "bit (2 :: u64) n \<longleftrightarrow> n = 1" "bit (1 :: u64) n \<longleftrightarrow> n = 0"
proof -
  have m: "(7 :: u64) = mask 3" "(3 :: u64) = mask 2" "(4 :: u64) = push_bit 2 1" "(2 :: u64) = push_bit 1 1"
    by (simp_all add: mask_eq_exp_minus_1 push_bit_eq_mult)
  show "bit (7 :: u64) n \<longleftrightarrow> n < 3" "bit (3 :: u64) n \<longleftrightarrow> n < 2" "bit (4 :: u64) n \<longleftrightarrow> n = 2"
    "bit (2 :: u64) n \<longleftrightarrow> n = 1" "bit (1 :: u64) n \<longleftrightarrow> n = 0"
    unfolding m bit_mask_iff bit_push_bit_iff bit_1_iff by auto
qed

lemma aligned_bits: "p AND 7 = (0 :: u64) \<Longrightarrow> bit p n \<Longrightarrow> 3 \<le> n"
proof -
  have "bit (p AND 7) n \<longleftrightarrow> bit p n \<and> n < 3" by (simp only: bit_and_iff mask_bits)
  then show "p AND 7 = 0 \<Longrightarrow> bit p n \<Longrightarrow> 3 \<le> n" by simp
qed

lemmas pcb_bits = bit_and_iff bit_or_iff bit_not_iff bit_drop_bit_eq comp_apply mask_bits possible_bit_word

lemma pcb_parent:
  assumes p: "p AND 7 = (0 :: u64)"
  shows "(a AND 7 OR p) AND NOT 7 = p" "drop_bit 2 (a AND 7 OR p) AND 1 = drop_bit 2 a AND 1"
    "(a AND 7 OR p) AND 3 = a AND 3"
  by (rule bit_word_eqI; simp only: pcb_bits; auto dest: aligned_bits[OF p])+

lemma pcb_child:
  fixes a w :: u64
  assumes "w = 0 \<or> w = 4"
  shows "(a AND NOT 4 OR w) AND NOT 7 = a AND NOT 7" "drop_bit 2 (a AND NOT 4 OR w) AND 1 = drop_bit 2 w"
    "(a AND NOT 4 OR w) AND 3 = a AND 3"
  using assms by (elim disjE; hypsubst; intro bit_word_eqI; simp only: pcb_bits bit_0_eq bot_apply; auto)+

lemma pcb_balance:
  fixes a w :: u64
  assumes "w = 0 \<or> w = 1 \<or> w = 2"
  shows "(a AND NOT 3 OR w) AND NOT 7 = a AND NOT 7" "drop_bit 2 (a AND NOT 3 OR w) AND 1 = drop_bit 2 a AND 1"
    "(a AND NOT 3 OR w) AND 3 = w"
  using assms by (elim disjE; hypsubst; intro bit_word_eqI; simp only: pcb_bits bit_0_eq bot_apply; auto)+

lemma narrow_minus_one: "(ucast (- 1 :: u64) :: u32) = - 1"
  by (rule bit_word_eqI) (simp add: bit_simps)

lemmas pcb_simps = narrow_minus_one pcb_parent[simplified] pcb_child[simplified] pcb_balance[simplified]

interpretation packed_node: avl_access AVL_XPARENT_lp64 AVL_SETPARENT_lp64 AVL_XCHILD_lp64 AVL_SETCHILD_lp64
    AVL_XBALANCE_lp64 AVL_SETBALANCE_lp64
proof unfold_locales
  fix p n c b
  { assume "p AND 7 = (0 :: u64)"
    then show "AVL_XPARENT_lp64 (AVL_SETPARENT_lp64 n p) = p"
      "AVL_XCHILD_lp64 (AVL_SETPARENT_lp64 n p) = AVL_XCHILD_lp64 n"
      "AVL_XBALANCE_lp64 (AVL_SETPARENT_lp64 n p) = AVL_XBALANCE_lp64 n"
      by (simp_all add: AVL_XPARENT_lp64_def AVL_SETPARENT_lp64_def AVL_XCHILD_lp64_def
          AVL_XBALANCE_lp64_def pcb_simps) }
  { assume c: "c \<in> {0, 1 :: int}"
    then have "word_of_int (c * 4) = (0 :: u64) \<or> word_of_int (c * 4) = (4 :: u64)" by auto
    then show "AVL_XCHILD_lp64 (AVL_SETCHILD_lp64 n c) = c"
      "AVL_XPARENT_lp64 (AVL_SETCHILD_lp64 n c) = AVL_XPARENT_lp64 n"
      "AVL_XBALANCE_lp64 (AVL_SETCHILD_lp64 n c) = AVL_XBALANCE_lp64 n"
      using c by (auto simp: AVL_XPARENT_lp64_def AVL_SETCHILD_lp64_def AVL_XCHILD_lp64_def
          AVL_XBALANCE_lp64_def pcb_simps) }
  { assume b: "b \<in> {- 1, 0, 1 :: int}"
    then have "word_of_int (b + 1) = (0 :: u64) \<or> word_of_int (b + 1) = (1 :: u64) \<or> word_of_int (b + 1) = (2 :: u64)"
      by auto
    then show "AVL_XBALANCE_lp64 (AVL_SETBALANCE_lp64 n b) = b"
      "AVL_XPARENT_lp64 (AVL_SETBALANCE_lp64 n b) = AVL_XPARENT_lp64 n"
      "AVL_XCHILD_lp64 (AVL_SETBALANCE_lp64 n b) = AVL_XCHILD_lp64 n"
      using b by (auto simp: AVL_XPARENT_lp64_def AVL_SETBALANCE_lp64_def AVL_XCHILD_lp64_def
          AVL_XBALANCE_lp64_def pcb_simps) }
qed

text \<open>The packed node as the plain one it stands for.\<close>

definition unpack_node :: "avl_node_lp64 \<Rightarrow> avl_node" where
  "unpack_node n = \<lparr>avl_child = avl_child_lp64 n, avl_parent = AVL_XPARENT_lp64 n,
     avl_child_index = word_of_int (AVL_XCHILD_lp64 n), avl_balance = word_of_int (AVL_XBALANCE_lp64 n)\<rparr>"

text \<open>The packed node of 64-bit machines refines the plain node of 32-bit machines:
  for an aligned parent, a child index of 0 or 1 and a balance of -1, 0 or 1, each setter
  commutes with unpacking, and the getters agree, so code written with the macros behaves
  the same on both.\<close>

theorem avl_packing_refines:
  assumes "p AND 7 = 0" and "c \<in> {0, 1}" and "b \<in> {- 1, 0, 1}"
  shows "unpack_node (AVL_SETPARENT_lp64 n p) = AVL_SETPARENT (unpack_node n) p
    \<and> unpack_node (AVL_SETCHILD_lp64 n c) = AVL_SETCHILD (unpack_node n) c
    \<and> unpack_node (AVL_SETBALANCE_lp64 n b) = AVL_SETBALANCE (unpack_node n) b
    \<and> AVL_XPARENT (unpack_node (AVL_SETPARENT_lp64 n p)) = p
    \<and> AVL_XCHILD (unpack_node (AVL_SETCHILD_lp64 n c)) = AVL_XCHILD_lp64 (AVL_SETCHILD_lp64 n c)
    \<and> AVL_XBALANCE (unpack_node (AVL_SETBALANCE_lp64 n b)) = AVL_XBALANCE_lp64 (AVL_SETBALANCE_lp64 n b)"
proof -
  have same: "avl_child_lp64 (AVL_SETPARENT_lp64 n p) = avl_child_lp64 n"
    "avl_child_lp64 (AVL_SETCHILD_lp64 n c) = avl_child_lp64 n"
    "avl_child_lp64 (AVL_SETBALANCE_lp64 n b) = avl_child_lp64 n"
    by (simp_all add: AVL_SETPARENT_lp64_def AVL_SETCHILD_lp64_def AVL_SETBALANCE_lp64_def)
  have set: "unpack_node (AVL_SETPARENT_lp64 n p) = AVL_SETPARENT (unpack_node n) p"
    "unpack_node (AVL_SETCHILD_lp64 n c) = AVL_SETCHILD (unpack_node n) c"
    "unpack_node (AVL_SETBALANCE_lp64 n b) = AVL_SETBALANCE (unpack_node n) b"
    using assms by (simp_all add: unpack_node_def same packed_node.parent packed_node.child
        packed_node.balance AVL_SETPARENT_def AVL_SETCHILD_def AVL_SETBALANCE_def)
  then show ?thesis
    using assms by (simp add: plain_node.parent plain_node.child plain_node.balance
        packed_node.child packed_node.balance)
qed

theorem avl_packing_refines_witness:
  "unpack_node (AVL_SETBALANCE_lp64 \<lparr>avl_child_lp64 = [8, 16], avl_pcb = 0x1005\<rparr> (- 1))
    = AVL_SETBALANCE (unpack_node \<lparr>avl_child_lp64 = [8, 16], avl_pcb = 0x1005\<rparr>) (- 1)"
  using avl_packing_refines[of "0x2000" 1 "- 1" "\<lparr>avl_child_lp64 = [8, 16], avl_pcb = 0x1005\<rparr>"] by simp

section \<open>Tree positions\<close>

definition AVL_NODE2DATA :: "u64 \<Rightarrow> u64 \<Rightarrow> u64" where "AVL_NODE2DATA n o' = n - o'"
definition AVL_DATA2NODE :: "u64 \<Rightarrow> u64 \<Rightarrow> u64" where "AVL_DATA2NODE d o' = d + o'"
definition AVL_INDEX2NODE :: "u64 \<Rightarrow> u64" where "AVL_INDEX2NODE x = x AND NOT 1"
definition AVL_INDEX2CHILD :: "u64 \<Rightarrow> u64" where "AVL_INDEX2CHILD x = x AND 1"
definition AVL_MKINDEX :: "u64 \<Rightarrow> u64 \<Rightarrow> u64" where "AVL_MKINDEX n c = n OR c"

lemma avl_index:
  assumes n: "n AND 7 = 0" and c: "c = 0 \<or> c = 1"
  shows "AVL_INDEX2NODE (AVL_MKINDEX n c) = n" "AVL_INDEX2CHILD (AVL_MKINDEX n c) = c"
    "AVL_DATA2NODE (AVL_NODE2DATA n o') o' = n"
proof -
  have "(n OR c) AND NOT 1 = n" "(n OR c) AND 1 = c"
    using c by (elim disjE; hypsubst; intro bit_word_eqI; simp only: pcb_bits bit_0_eq bot_apply;
        auto dest: aligned_bits[OF n])+
  then show "AVL_INDEX2NODE (AVL_MKINDEX n c) = n" "AVL_INDEX2CHILD (AVL_MKINDEX n c) = c"
      "AVL_DATA2NODE (AVL_NODE2DATA n o') o' = n"
    by (simp_all only: AVL_INDEX2NODE_def AVL_INDEX2CHILD_def AVL_MKINDEX_def)
      (simp add: AVL_DATA2NODE_def AVL_NODE2DATA_def)
qed

end
