(* ===== verification/Zfs_Enums.thy ===== *)
theory Zfs_Enums
  imports Cenum
begin

text \<open>
  The enumerations of \<open>sys/fs/zfs.h\<close> and of the headers beside it, which programs, the kernel
  and the pool itself exchange as numbers: types and properties of data sets, delegation,
  states of devices and pools, the commands of the control device and their errors, cache
  flags, file attributes and the types of name-value pairs.
\<close>

section \<open>Data sets and properties\<close>

definition zfs_type_t :: c_enum where
  "zfs_type_t =
    [(''ZFS_TYPE_FILESYSTEM'', Bit 0), (''ZFS_TYPE_SNAPSHOT'', Bit 1),
     (''ZFS_TYPE_VOLUME'', Bit 2), (''ZFS_TYPE_POOL'', Bit 3), (''ZFS_TYPE_BOOKMARK'', Bit 4)]"

definition dmu_objset_type :: c_enum where
  "dmu_objset_type = plain
    [''DMU_OST_NONE'', ''DMU_OST_META'', ''DMU_OST_ZFS'', ''DMU_OST_ZVOL'', ''DMU_OST_OTHER'',
     ''DMU_OST_ANY'', ''DMU_OST_NUMTYPES'']"

definition zfs_prop_t :: c_enum where
  "zfs_prop_t =
    [(''ZPROP_CONT'', Is (- 2)), (''ZPROP_INVAL'', Is (- 1)), (''ZFS_PROP_TYPE'', Is 0),
     (''ZFS_PROP_CREATION'', Next), (''ZFS_PROP_USED'', Next), (''ZFS_PROP_AVAILABLE'', Next),
     (''ZFS_PROP_REFERENCED'', Next), (''ZFS_PROP_COMPRESSRATIO'', Next),
     (''ZFS_PROP_MOUNTED'', Next), (''ZFS_PROP_ORIGIN'', Next), (''ZFS_PROP_QUOTA'', Next),
     (''ZFS_PROP_RESERVATION'', Next), (''ZFS_PROP_VOLSIZE'', Next),
     (''ZFS_PROP_VOLBLOCKSIZE'', Next), (''ZFS_PROP_RECORDSIZE'', Next),
     (''ZFS_PROP_MOUNTPOINT'', Next), (''ZFS_PROP_SHARENFS'', Next),
     (''ZFS_PROP_CHECKSUM'', Next), (''ZFS_PROP_COMPRESSION'', Next),
     (''ZFS_PROP_ATIME'', Next), (''ZFS_PROP_DEVICES'', Next), (''ZFS_PROP_EXEC'', Next),
     (''ZFS_PROP_SETUID'', Next), (''ZFS_PROP_READONLY'', Next), (''ZFS_PROP_ZONED'', Next),
     (''ZFS_PROP_SNAPDIR'', Next), (''ZFS_PROP_PRIVATE'', Next),
     (''ZFS_PROP_ACLINHERIT'', Next), (''ZFS_PROP_CREATETXG'', Next),
     (''ZFS_PROP_NAME'', Next), (''ZFS_PROP_CANMOUNT'', Next),
     (''ZFS_PROP_ISCSIOPTIONS'', Next), (''ZFS_PROP_XATTR'', Next),
     (''ZFS_PROP_NUMCLONES'', Next), (''ZFS_PROP_COPIES'', Next), (''ZFS_PROP_VERSION'', Next),
     (''ZFS_PROP_UTF8ONLY'', Next), (''ZFS_PROP_NORMALIZE'', Next), (''ZFS_PROP_CASE'', Next),
     (''ZFS_PROP_VSCAN'', Next), (''ZFS_PROP_NBMAND'', Next), (''ZFS_PROP_SHARESMB'', Next),
     (''ZFS_PROP_REFQUOTA'', Next), (''ZFS_PROP_REFRESERVATION'', Next),
     (''ZFS_PROP_GUID'', Next), (''ZFS_PROP_PRIMARYCACHE'', Next),
     (''ZFS_PROP_SECONDARYCACHE'', Next), (''ZFS_PROP_USEDSNAP'', Next),
     (''ZFS_PROP_USEDDS'', Next), (''ZFS_PROP_USEDCHILD'', Next),
     (''ZFS_PROP_USEDREFRESERV'', Next), (''ZFS_PROP_USERACCOUNTING'', Next),
     (''ZFS_PROP_STMF_SHAREINFO'', Next), (''ZFS_PROP_DEFER_DESTROY'', Next),
     (''ZFS_PROP_USERREFS'', Next), (''ZFS_PROP_LOGBIAS'', Next), (''ZFS_PROP_UNIQUE'', Next),
     (''ZFS_PROP_OBJSETID'', Next), (''ZFS_PROP_DEDUP'', Next), (''ZFS_PROP_MLSLABEL'', Next),
     (''ZFS_PROP_SYNC'', Next), (''ZFS_PROP_DNODESIZE'', Next), (''ZFS_PROP_REFRATIO'', Next),
     (''ZFS_PROP_WRITTEN'', Next), (''ZFS_PROP_CLONES'', Next),
     (''ZFS_PROP_LOGICALUSED'', Next), (''ZFS_PROP_LOGICALREFERENCED'', Next),
     (''ZFS_PROP_INCONSISTENT'', Next), (''ZFS_PROP_VOLMODE'', Next),
     (''ZFS_PROP_FILESYSTEM_LIMIT'', Next), (''ZFS_PROP_SNAPSHOT_LIMIT'', Next),
     (''ZFS_PROP_FILESYSTEM_COUNT'', Next), (''ZFS_PROP_SNAPSHOT_COUNT'', Next),
     (''ZFS_PROP_SNAPDEV'', Next), (''ZFS_PROP_ACLTYPE'', Next),
     (''ZFS_PROP_SELINUX_CONTEXT'', Next), (''ZFS_PROP_SELINUX_FSCONTEXT'', Next),
     (''ZFS_PROP_SELINUX_DEFCONTEXT'', Next), (''ZFS_PROP_SELINUX_ROOTCONTEXT'', Next),
     (''ZFS_PROP_RELATIME'', Next), (''ZFS_PROP_REDUNDANT_METADATA'', Next),
     (''ZFS_PROP_OVERLAY'', Next), (''ZFS_PROP_PREV_SNAP'', Next),
     (''ZFS_PROP_RECEIVE_RESUME_TOKEN'', Next), (''ZFS_PROP_ENCRYPTION'', Next),
     (''ZFS_PROP_KEYLOCATION'', Next), (''ZFS_PROP_KEYFORMAT'', Next),
     (''ZFS_PROP_PBKDF2_SALT'', Next), (''ZFS_PROP_PBKDF2_ITERS'', Next),
     (''ZFS_PROP_ENCRYPTION_ROOT'', Next), (''ZFS_PROP_KEY_GUID'', Next),
     (''ZFS_PROP_KEYSTATUS'', Next), (''ZFS_NUM_PROPS'', Next)]"

definition zfs_userquota_prop_t :: c_enum where
  "zfs_userquota_prop_t = plain
    [''ZFS_PROP_USERUSED'', ''ZFS_PROP_USERQUOTA'', ''ZFS_PROP_GROUPUSED'',
     ''ZFS_PROP_GROUPQUOTA'', ''ZFS_PROP_USEROBJUSED'', ''ZFS_PROP_USEROBJQUOTA'',
     ''ZFS_PROP_GROUPOBJUSED'', ''ZFS_PROP_GROUPOBJQUOTA'', ''ZFS_PROP_PROJECTUSED'',
     ''ZFS_PROP_PROJECTQUOTA'', ''ZFS_PROP_PROJECTOBJUSED'', ''ZFS_PROP_PROJECTOBJQUOTA'',
     ''ZFS_NUM_USERQUOTA_PROPS'']"

definition zprop_source_t :: c_enum where
  "zprop_source_t =
    [(''ZPROP_SRC_NONE'', Is 0x1), (''ZPROP_SRC_DEFAULT'', Is 0x2),
     (''ZPROP_SRC_TEMPORARY'', Is 0x4), (''ZPROP_SRC_LOCAL'', Is 0x8),
     (''ZPROP_SRC_INHERITED'', Is 0x10), (''ZPROP_SRC_RECEIVED'', Is 0x20)]"

definition zprop_type_t :: c_enum where
  "zprop_type_t = plain
    [''PROP_TYPE_NUMBER'', ''PROP_TYPE_STRING'', ''PROP_TYPE_INDEX'']"

definition zprop_attr_t :: c_enum where
  "zprop_attr_t = plain
    [''PROP_DEFAULT'', ''PROP_READONLY'', ''PROP_INHERIT'', ''PROP_ONETIME'',
     ''PROP_ONETIME_DEFAULT'']"

definition zpool_prop_t :: c_enum where
  "zpool_prop_t =
    [(''ZPOOL_PROP_INVAL'', Is (- 1)), (''ZPOOL_PROP_NAME'', Next),
     (''ZPOOL_PROP_SIZE'', Next), (''ZPOOL_PROP_CAPACITY'', Next),
     (''ZPOOL_PROP_ALTROOT'', Next), (''ZPOOL_PROP_HEALTH'', Next),
     (''ZPOOL_PROP_GUID'', Next), (''ZPOOL_PROP_VERSION'', Next),
     (''ZPOOL_PROP_BOOTFS'', Next), (''ZPOOL_PROP_DELEGATION'', Next),
     (''ZPOOL_PROP_AUTOREPLACE'', Next), (''ZPOOL_PROP_CACHEFILE'', Next),
     (''ZPOOL_PROP_FAILUREMODE'', Next), (''ZPOOL_PROP_LISTSNAPS'', Next),
     (''ZPOOL_PROP_AUTOEXPAND'', Next), (''ZPOOL_PROP_DEDUPDITTO'', Next),
     (''ZPOOL_PROP_DEDUPRATIO'', Next), (''ZPOOL_PROP_FREE'', Next),
     (''ZPOOL_PROP_ALLOCATED'', Next), (''ZPOOL_PROP_READONLY'', Next),
     (''ZPOOL_PROP_ASHIFT'', Next), (''ZPOOL_PROP_COMMENT'', Next),
     (''ZPOOL_PROP_EXPANDSZ'', Next), (''ZPOOL_PROP_FREEING'', Next),
     (''ZPOOL_PROP_FRAGMENTATION'', Next), (''ZPOOL_PROP_LEAKED'', Next),
     (''ZPOOL_PROP_MAXBLOCKSIZE'', Next), (''ZPOOL_PROP_TNAME'', Next),
     (''ZPOOL_PROP_MAXDNODESIZE'', Next), (''ZPOOL_PROP_MULTIHOST'', Next),
     (''ZPOOL_NUM_PROPS'', Next)]"

definition zfs_canmount_type_t :: c_enum where
  "zfs_canmount_type_t =
    [(''ZFS_CANMOUNT_OFF'', Is 0), (''ZFS_CANMOUNT_ON'', Is 1), (''ZFS_CANMOUNT_NOAUTO'', Is 2)]"

definition zfs_cache_type :: c_enum where
  "zfs_cache_type =
    [(''ZFS_CACHE_NONE'', Is 0), (''ZFS_CACHE_METADATA'', Is 1), (''ZFS_CACHE_ALL'', Is 2)]"

definition zfs_sync_type_t :: c_enum where
  "zfs_sync_type_t =
    [(''ZFS_SYNC_STANDARD'', Is 0), (''ZFS_SYNC_ALWAYS'', Is 1), (''ZFS_SYNC_DISABLED'', Is 2)]"

definition zfs_xattr_type_t :: c_enum where
  "zfs_xattr_type_t =
    [(''ZFS_XATTR_OFF'', Is 0), (''ZFS_XATTR_DIR'', Is 1), (''ZFS_XATTR_SA'', Is 2)]"

definition zfs_dnsize_type_t :: c_enum where
  "zfs_dnsize_type_t =
    [(''ZFS_DNSIZE_LEGACY'', Is 0), (''ZFS_DNSIZE_AUTO'', Is 1), (''ZFS_DNSIZE_1K'', Is 1024),
     (''ZFS_DNSIZE_2K'', Is 2048), (''ZFS_DNSIZE_4K'', Is 4096), (''ZFS_DNSIZE_8K'', Is 8192),
     (''ZFS_DNSIZE_16K'', Is 16384)]"

definition zfs_keystatus :: c_enum where
  "zfs_keystatus =
    [(''ZFS_KEYSTATUS_NONE'', Is 0), (''ZFS_KEYSTATUS_UNAVAILABLE'', Next),
     (''ZFS_KEYSTATUS_AVAILABLE'', Next)]"

definition zfs_keyformat :: c_enum where
  "zfs_keyformat =
    [(''ZFS_KEYFORMAT_NONE'', Is 0), (''ZFS_KEYFORMAT_RAW'', Next),
     (''ZFS_KEYFORMAT_HEX'', Next), (''ZFS_KEYFORMAT_PASSPHRASE'', Next),
     (''ZFS_KEYFORMAT_FORMATS'', Next)]"

definition zfs_key_location :: c_enum where
  "zfs_key_location =
    [(''ZFS_KEYLOCATION_NONE'', Is 0), (''ZFS_KEYLOCATION_PROMPT'', Next),
     (''ZFS_KEYLOCATION_URI'', Next), (''ZFS_KEYLOCATION_LOCATIONS'', Next)]"

definition zfs_smb_acl_op :: c_enum where
  "zfs_smb_acl_op = plain
    [''ZFS_SMB_ACL_ADD'', ''ZFS_SMB_ACL_REMOVE'', ''ZFS_SMB_ACL_RENAME'', ''ZFS_SMB_ACL_PURGE'']"

definition zfs_share_op :: c_enum where
  "zfs_share_op =
    [(''ZFS_SHARE_NFS'', Is 0), (''ZFS_UNSHARE_NFS'', Is 1), (''ZFS_SHARE_SMB'', Is 2),
     (''ZFS_UNSHARE_SMB'', Is 3)]"

section \<open>Delegated permissions\<close>

definition zfs_deleg_who_type_t :: c_enum where
  "zfs_deleg_who_type_t =
    [(''ZFS_DELEG_WHO_UNKNOWN'', Is 0), (''ZFS_DELEG_USER'', Is 117),
     (''ZFS_DELEG_USER_SETS'', Is 85), (''ZFS_DELEG_GROUP'', Is 103),
     (''ZFS_DELEG_GROUP_SETS'', Is 71), (''ZFS_DELEG_EVERYONE'', Is 101),
     (''ZFS_DELEG_EVERYONE_SETS'', Is 69), (''ZFS_DELEG_CREATE'', Is 99),
     (''ZFS_DELEG_CREATE_SETS'', Is 67), (''ZFS_DELEG_NAMED_SET'', Is 115),
     (''ZFS_DELEG_NAMED_SET_SETS'', Is 83)]"

definition zfs_deleg_inherit_t :: c_enum where
  "zfs_deleg_inherit_t =
    [(''ZFS_DELEG_NONE'', Is 0), (''ZFS_DELEG_PERM_LOCAL'', Is 1),
     (''ZFS_DELEG_PERM_DESCENDENT'', Is 2), (''ZFS_DELEG_PERM_LOCALDESCENDENT'', Is 3),
     (''ZFS_DELEG_PERM_CREATE'', Is 4)]"

definition zfs_deleg_note_t :: c_enum where
  "zfs_deleg_note_t = plain
    [''ZFS_DELEG_NOTE_CREATE'', ''ZFS_DELEG_NOTE_DESTROY'', ''ZFS_DELEG_NOTE_SNAPSHOT'',
     ''ZFS_DELEG_NOTE_ROLLBACK'', ''ZFS_DELEG_NOTE_CLONE'', ''ZFS_DELEG_NOTE_PROMOTE'',
     ''ZFS_DELEG_NOTE_RENAME'', ''ZFS_DELEG_NOTE_SEND'', ''ZFS_DELEG_NOTE_RECEIVE'',
     ''ZFS_DELEG_NOTE_ALLOW'', ''ZFS_DELEG_NOTE_USERPROP'', ''ZFS_DELEG_NOTE_MOUNT'',
     ''ZFS_DELEG_NOTE_SHARE'', ''ZFS_DELEG_NOTE_USERQUOTA'', ''ZFS_DELEG_NOTE_GROUPQUOTA'',
     ''ZFS_DELEG_NOTE_USERUSED'', ''ZFS_DELEG_NOTE_GROUPUSED'',
     ''ZFS_DELEG_NOTE_USEROBJQUOTA'', ''ZFS_DELEG_NOTE_GROUPOBJQUOTA'',
     ''ZFS_DELEG_NOTE_USEROBJUSED'', ''ZFS_DELEG_NOTE_GROUPOBJUSED'', ''ZFS_DELEG_NOTE_HOLD'',
     ''ZFS_DELEG_NOTE_RELEASE'', ''ZFS_DELEG_NOTE_DIFF'', ''ZFS_DELEG_NOTE_BOOKMARK'',
     ''ZFS_DELEG_NOTE_LOAD_KEY'', ''ZFS_DELEG_NOTE_CHANGE_KEY'',
     ''ZFS_DELEG_NOTE_PROJECTUSED'', ''ZFS_DELEG_NOTE_PROJECTQUOTA'',
     ''ZFS_DELEG_NOTE_PROJECTOBJUSED'', ''ZFS_DELEG_NOTE_PROJECTOBJQUOTA'',
     ''ZFS_DELEG_NOTE_NONE'']"

section \<open>Devices and pools\<close>

definition vdev_state :: c_enum where
  "vdev_state =
    [(''VDEV_STATE_UNKNOWN'', Is 0), (''VDEV_STATE_CLOSED'', Next),
     (''VDEV_STATE_OFFLINE'', Next), (''VDEV_STATE_REMOVED'', Next),
     (''VDEV_STATE_CANT_OPEN'', Next), (''VDEV_STATE_FAULTED'', Next),
     (''VDEV_STATE_DEGRADED'', Next), (''VDEV_STATE_HEALTHY'', Next)]"

definition vdev_aux :: c_enum where
  "vdev_aux = plain
    [''VDEV_AUX_NONE'', ''VDEV_AUX_OPEN_FAILED'', ''VDEV_AUX_CORRUPT_DATA'',
     ''VDEV_AUX_NO_REPLICAS'', ''VDEV_AUX_BAD_GUID_SUM'', ''VDEV_AUX_TOO_SMALL'',
     ''VDEV_AUX_BAD_LABEL'', ''VDEV_AUX_VERSION_NEWER'', ''VDEV_AUX_VERSION_OLDER'',
     ''VDEV_AUX_UNSUP_FEAT'', ''VDEV_AUX_SPARED'', ''VDEV_AUX_ERR_EXCEEDED'',
     ''VDEV_AUX_IO_FAILURE'', ''VDEV_AUX_BAD_LOG'', ''VDEV_AUX_EXTERNAL'',
     ''VDEV_AUX_SPLIT_POOL'', ''VDEV_AUX_BAD_ASHIFT'', ''VDEV_AUX_EXTERNAL_PERSIST'',
     ''VDEV_AUX_ACTIVE'']"

definition pool_state :: c_enum where
  "pool_state =
    [(''POOL_STATE_ACTIVE'', Is 0), (''POOL_STATE_EXPORTED'', Next),
     (''POOL_STATE_DESTROYED'', Next), (''POOL_STATE_SPARE'', Next),
     (''POOL_STATE_L2CACHE'', Next), (''POOL_STATE_UNINITIALIZED'', Next),
     (''POOL_STATE_UNAVAIL'', Next), (''POOL_STATE_POTENTIALLY_ACTIVE'', Next)]"

definition mmp_state :: c_enum where
  "mmp_state =
    [(''MMP_STATE_ACTIVE'', Is 0), (''MMP_STATE_INACTIVE'', Next),
     (''MMP_STATE_NO_HOSTID'', Next)]"

definition pool_scan_func :: c_enum where
  "pool_scan_func = plain
    [''POOL_SCAN_NONE'', ''POOL_SCAN_SCRUB'', ''POOL_SCAN_RESILVER'', ''POOL_SCAN_FUNCS'']"

definition pool_scrub_cmd :: c_enum where
  "pool_scrub_cmd =
    [(''POOL_SCRUB_NORMAL'', Is 0), (''POOL_SCRUB_PAUSE'', Next),
     (''POOL_SCRUB_FLAGS_END'', Next)]"

definition dsl_scan_state :: c_enum where
  "dsl_scan_state = plain
    [''DSS_NONE'', ''DSS_SCANNING'', ''DSS_FINISHED'', ''DSS_CANCELED'', ''DSS_NUM_STATES'']"

definition zio_type :: c_enum where
  "zio_type =
    [(''ZIO_TYPE_NULL'', Is 0), (''ZIO_TYPE_READ'', Next), (''ZIO_TYPE_WRITE'', Next),
     (''ZIO_TYPE_FREE'', Next), (''ZIO_TYPE_CLAIM'', Next), (''ZIO_TYPE_IOCTL'', Next),
     (''ZIO_TYPES'', Next)]"

definition zpool_errata :: c_enum where
  "zpool_errata = plain
    [''ZPOOL_ERRATA_NONE'', ''ZPOOL_ERRATA_ZOL_2094_SCRUB'',
     ''ZPOOL_ERRATA_ZOL_2094_ASYNC_DESTROY'', ''ZPOOL_ERRATA_ZOL_6845_ENCRYPTION'']"

definition spa_load_state_t :: c_enum where
  "spa_load_state_t = plain
    [''SPA_LOAD_NONE'', ''SPA_LOAD_OPEN'', ''SPA_LOAD_IMPORT'', ''SPA_LOAD_TRYIMPORT'',
     ''SPA_LOAD_RECOVER'', ''SPA_LOAD_ERROR'', ''SPA_LOAD_CREATE'']"

definition spa_feature :: c_enum where
  "spa_feature =
    [(''SPA_FEATURE_NONE'', Is (- 1)), (''SPA_FEATURE_ASYNC_DESTROY'', Next),
     (''SPA_FEATURE_EMPTY_BPOBJ'', Next), (''SPA_FEATURE_LZ4_COMPRESS'', Next),
     (''SPA_FEATURE_MULTI_VDEV_CRASH_DUMP'', Next), (''SPA_FEATURE_SPACEMAP_HISTOGRAM'', Next),
     (''SPA_FEATURE_ENABLED_TXG'', Next), (''SPA_FEATURE_HOLE_BIRTH'', Next),
     (''SPA_FEATURE_EXTENSIBLE_DATASET'', Next), (''SPA_FEATURE_EMBEDDED_DATA'', Next),
     (''SPA_FEATURE_BOOKMARKS'', Next), (''SPA_FEATURE_FS_SS_LIMIT'', Next),
     (''SPA_FEATURE_LARGE_BLOCKS'', Next), (''SPA_FEATURE_LARGE_DNODE'', Next),
     (''SPA_FEATURE_SHA512'', Next), (''SPA_FEATURE_SKEIN'', Next),
     (''SPA_FEATURE_EDONR'', Next), (''SPA_FEATURE_USEROBJ_ACCOUNTING'', Next),
     (''SPA_FEATURE_ENCRYPTION'', Next), (''SPA_FEATURE_PROJECT_QUOTA'', Next),
     (''SPA_FEATURES'', Next)]"

definition zfeature_flags :: c_enum where
  "zfeature_flags =
    [(''ZFEATURE_FLAG_READONLY_COMPAT'', Bit 0), (''ZFEATURE_FLAG_MOS'', Bit 1),
     (''ZFEATURE_FLAG_ACTIVATE_ON_ENABLE'', Bit 2), (''ZFEATURE_FLAG_PER_DATASET'', Bit 3)]"

definition vdev_dtl_type :: c_enum where
  "vdev_dtl_type = plain
    [''DTL_MISSING'', ''DTL_PARTIAL'', ''DTL_SCRUB'', ''DTL_OUTAGE'', ''DTL_TYPES'']"

section \<open>The control device\<close>

definition zfs_ioc :: c_enum where
  "zfs_ioc =
    [(''ZFS_IOC_FIRST'', Is 23040), (''ZFS_IOC'', Same ''ZFS_IOC_FIRST''),
     (''ZFS_IOC_POOL_CREATE'', Same ''ZFS_IOC_FIRST''), (''ZFS_IOC_POOL_DESTROY'', Next),
     (''ZFS_IOC_POOL_IMPORT'', Next), (''ZFS_IOC_POOL_EXPORT'', Next),
     (''ZFS_IOC_POOL_CONFIGS'', Next), (''ZFS_IOC_POOL_STATS'', Next),
     (''ZFS_IOC_POOL_TRYIMPORT'', Next), (''ZFS_IOC_POOL_SCAN'', Next),
     (''ZFS_IOC_POOL_FREEZE'', Next), (''ZFS_IOC_POOL_UPGRADE'', Next),
     (''ZFS_IOC_POOL_GET_HISTORY'', Next), (''ZFS_IOC_VDEV_ADD'', Next),
     (''ZFS_IOC_VDEV_REMOVE'', Next), (''ZFS_IOC_VDEV_SET_STATE'', Next),
     (''ZFS_IOC_VDEV_ATTACH'', Next), (''ZFS_IOC_VDEV_DETACH'', Next),
     (''ZFS_IOC_VDEV_SETPATH'', Next), (''ZFS_IOC_VDEV_SETFRU'', Next),
     (''ZFS_IOC_OBJSET_STATS'', Next), (''ZFS_IOC_OBJSET_ZPLPROPS'', Next),
     (''ZFS_IOC_DATASET_LIST_NEXT'', Next), (''ZFS_IOC_SNAPSHOT_LIST_NEXT'', Next),
     (''ZFS_IOC_SET_PROP'', Next), (''ZFS_IOC_CREATE'', Next), (''ZFS_IOC_DESTROY'', Next),
     (''ZFS_IOC_ROLLBACK'', Next), (''ZFS_IOC_RENAME'', Next), (''ZFS_IOC_RECV'', Next),
     (''ZFS_IOC_SEND'', Next), (''ZFS_IOC_INJECT_FAULT'', Next),
     (''ZFS_IOC_CLEAR_FAULT'', Next), (''ZFS_IOC_INJECT_LIST_NEXT'', Next),
     (''ZFS_IOC_ERROR_LOG'', Next), (''ZFS_IOC_CLEAR'', Next), (''ZFS_IOC_PROMOTE'', Next),
     (''ZFS_IOC_SNAPSHOT'', Next), (''ZFS_IOC_DSOBJ_TO_DSNAME'', Next),
     (''ZFS_IOC_OBJ_TO_PATH'', Next), (''ZFS_IOC_POOL_SET_PROPS'', Next),
     (''ZFS_IOC_POOL_GET_PROPS'', Next), (''ZFS_IOC_SET_FSACL'', Next),
     (''ZFS_IOC_GET_FSACL'', Next), (''ZFS_IOC_SHARE'', Next),
     (''ZFS_IOC_INHERIT_PROP'', Next), (''ZFS_IOC_SMB_ACL'', Next),
     (''ZFS_IOC_USERSPACE_ONE'', Next), (''ZFS_IOC_USERSPACE_MANY'', Next),
     (''ZFS_IOC_USERSPACE_UPGRADE'', Next), (''ZFS_IOC_HOLD'', Next),
     (''ZFS_IOC_RELEASE'', Next), (''ZFS_IOC_GET_HOLDS'', Next),
     (''ZFS_IOC_OBJSET_RECVD_PROPS'', Next), (''ZFS_IOC_VDEV_SPLIT'', Next),
     (''ZFS_IOC_NEXT_OBJ'', Next), (''ZFS_IOC_DIFF'', Next), (''ZFS_IOC_TMP_SNAPSHOT'', Next),
     (''ZFS_IOC_OBJ_TO_STATS'', Next), (''ZFS_IOC_SPACE_WRITTEN'', Next),
     (''ZFS_IOC_SPACE_SNAPS'', Next), (''ZFS_IOC_DESTROY_SNAPS'', Next),
     (''ZFS_IOC_POOL_REGUID'', Next), (''ZFS_IOC_POOL_REOPEN'', Next),
     (''ZFS_IOC_SEND_PROGRESS'', Next), (''ZFS_IOC_LOG_HISTORY'', Next),
     (''ZFS_IOC_SEND_NEW'', Next), (''ZFS_IOC_SEND_SPACE'', Next), (''ZFS_IOC_CLONE'', Next),
     (''ZFS_IOC_BOOKMARK'', Next), (''ZFS_IOC_GET_BOOKMARKS'', Next),
     (''ZFS_IOC_DESTROY_BOOKMARKS'', Next), (''ZFS_IOC_CHANNEL_PROGRAM'', Next),
     (''ZFS_IOC_RECV_NEW'', Next), (''ZFS_IOC_POOL_SYNC'', Next), (''ZFS_IOC_LOAD_KEY'', Next),
     (''ZFS_IOC_UNLOAD_KEY'', Next), (''ZFS_IOC_CHANGE_KEY'', Next),
     (''ZFS_IOC_LINUX'', Is 23168), (''ZFS_IOC_EVENTS_NEXT'', Next),
     (''ZFS_IOC_EVENTS_CLEAR'', Next), (''ZFS_IOC_EVENTS_SEEK'', Next),
     (''ZFS_IOC_FREEBSD'', Is 23232), (''ZFS_IOC_LAST'', Next)]"

definition zfs_error :: c_enum where
  "zfs_error =
    [(''EZFS_SUCCESS'', Is 0), (''EZFS_NOMEM'', Is 2000), (''EZFS_BADPROP'', Next),
     (''EZFS_PROPREADONLY'', Next), (''EZFS_PROPTYPE'', Next), (''EZFS_PROPNONINHERIT'', Next),
     (''EZFS_PROPSPACE'', Next), (''EZFS_BADTYPE'', Next), (''EZFS_BUSY'', Next),
     (''EZFS_EXISTS'', Next), (''EZFS_NOENT'', Next), (''EZFS_BADSTREAM'', Next),
     (''EZFS_DSREADONLY'', Next), (''EZFS_VOLTOOBIG'', Next), (''EZFS_INVALIDNAME'', Next),
     (''EZFS_BADRESTORE'', Next), (''EZFS_BADBACKUP'', Next), (''EZFS_BADTARGET'', Next),
     (''EZFS_NODEVICE'', Next), (''EZFS_BADDEV'', Next), (''EZFS_NOREPLICAS'', Next),
     (''EZFS_RESILVERING'', Next), (''EZFS_BADVERSION'', Next), (''EZFS_POOLUNAVAIL'', Next),
     (''EZFS_DEVOVERFLOW'', Next), (''EZFS_BADPATH'', Next), (''EZFS_CROSSTARGET'', Next),
     (''EZFS_ZONED'', Next), (''EZFS_MOUNTFAILED'', Next), (''EZFS_UMOUNTFAILED'', Next),
     (''EZFS_UNSHARENFSFAILED'', Next), (''EZFS_SHARENFSFAILED'', Next), (''EZFS_PERM'', Next),
     (''EZFS_NOSPC'', Next), (''EZFS_FAULT'', Next), (''EZFS_IO'', Next),
     (''EZFS_INTR'', Next), (''EZFS_ISSPARE'', Next), (''EZFS_INVALCONFIG'', Next),
     (''EZFS_RECURSIVE'', Next), (''EZFS_NOHISTORY'', Next), (''EZFS_POOLPROPS'', Next),
     (''EZFS_POOL_NOTSUP'', Next), (''EZFS_POOL_INVALARG'', Next),
     (''EZFS_NAMETOOLONG'', Next), (''EZFS_OPENFAILED'', Next), (''EZFS_NOCAP'', Next),
     (''EZFS_LABELFAILED'', Next), (''EZFS_BADWHO'', Next), (''EZFS_BADPERM'', Next),
     (''EZFS_BADPERMSET'', Next), (''EZFS_NODELEGATION'', Next),
     (''EZFS_UNSHARESMBFAILED'', Next), (''EZFS_SHARESMBFAILED'', Next),
     (''EZFS_BADCACHE'', Next), (''EZFS_ISL2CACHE'', Next), (''EZFS_VDEVNOTSUP'', Next),
     (''EZFS_NOTSUP'', Next), (''EZFS_ACTIVE_SPARE'', Next), (''EZFS_UNPLAYED_LOGS'', Next),
     (''EZFS_REFTAG_RELE'', Next), (''EZFS_REFTAG_HOLD'', Next), (''EZFS_TAGTOOLONG'', Next),
     (''EZFS_PIPEFAILED'', Next), (''EZFS_THREADCREATEFAILED'', Next),
     (''EZFS_POSTSPLIT_ONLINE'', Next), (''EZFS_SCRUBBING'', Next), (''EZFS_NO_SCRUB'', Next),
     (''EZFS_DIFF'', Next), (''EZFS_DIFFDATA'', Next), (''EZFS_POOLREADONLY'', Next),
     (''EZFS_SCRUB_PAUSED'', Next), (''EZFS_ACTIVE_POOL'', Next),
     (''EZFS_CRYPTOFAILED'', Next), (''EZFS_UNKNOWN'', Next)]"

definition zpool_status_t :: c_enum where
  "zpool_status_t = plain
    [''ZPOOL_STATUS_CORRUPT_CACHE'', ''ZPOOL_STATUS_MISSING_DEV_R'',
     ''ZPOOL_STATUS_MISSING_DEV_NR'', ''ZPOOL_STATUS_CORRUPT_LABEL_R'',
     ''ZPOOL_STATUS_CORRUPT_LABEL_NR'', ''ZPOOL_STATUS_BAD_GUID_SUM'',
     ''ZPOOL_STATUS_CORRUPT_POOL'', ''ZPOOL_STATUS_CORRUPT_DATA'',
     ''ZPOOL_STATUS_FAILING_DEV'', ''ZPOOL_STATUS_VERSION_NEWER'',
     ''ZPOOL_STATUS_HOSTID_MISMATCH'', ''ZPOOL_STATUS_HOSTID_ACTIVE'',
     ''ZPOOL_STATUS_HOSTID_REQUIRED'', ''ZPOOL_STATUS_IO_FAILURE_WAIT'',
     ''ZPOOL_STATUS_IO_FAILURE_CONTINUE'', ''ZPOOL_STATUS_IO_FAILURE_MMP'',
     ''ZPOOL_STATUS_BAD_LOG'', ''ZPOOL_STATUS_ERRATA'', ''ZPOOL_STATUS_UNSUP_FEAT_READ'',
     ''ZPOOL_STATUS_UNSUP_FEAT_WRITE'', ''ZPOOL_STATUS_FAULTED_DEV_R'',
     ''ZPOOL_STATUS_FAULTED_DEV_NR'', ''ZPOOL_STATUS_VERSION_OLDER'',
     ''ZPOOL_STATUS_FEAT_DISABLED'', ''ZPOOL_STATUS_RESILVERING'',
     ''ZPOOL_STATUS_OFFLINE_DEV'', ''ZPOOL_STATUS_REMOVED_DEV'', ''ZPOOL_STATUS_OK'']"

section \<open>Caches and attributes\<close>

definition arc_flags :: c_enum where
  "arc_flags =
    [(''ARC_FLAG_WAIT'', Bit 0), (''ARC_FLAG_NOWAIT'', Bit 1), (''ARC_FLAG_PREFETCH'', Bit 2),
     (''ARC_FLAG_CACHED'', Bit 3), (''ARC_FLAG_L2CACHE'', Bit 4),
     (''ARC_FLAG_PREDICTIVE_PREFETCH'', Bit 5), (''ARC_FLAG_PRESCIENT_PREFETCH'', Bit 6),
     (''ARC_FLAG_IN_HASH_TABLE'', Bit 7), (''ARC_FLAG_IO_IN_PROGRESS'', Bit 8),
     (''ARC_FLAG_IO_ERROR'', Bit 9), (''ARC_FLAG_INDIRECT'', Bit 10),
     (''ARC_FLAG_PRIO_ASYNC_READ'', Bit 11), (''ARC_FLAG_L2_WRITING'', Bit 12),
     (''ARC_FLAG_L2_EVICTED'', Bit 13), (''ARC_FLAG_L2_WRITE_HEAD'', Bit 14),
     (''ARC_FLAG_PROTECTED'', Bit 15), (''ARC_FLAG_NOAUTH'', Bit 16),
     (''ARC_FLAG_BUFC_METADATA'', Bit 17), (''ARC_FLAG_HAS_L1HDR'', Bit 18),
     (''ARC_FLAG_HAS_L2HDR'', Bit 19), (''ARC_FLAG_COMPRESSED_ARC'', Bit 20),
     (''ARC_FLAG_SHARED_DATA'', Bit 21), (''ARC_FLAG_COMPRESS_0'', Bit 24),
     (''ARC_FLAG_COMPRESS_1'', Bit 25), (''ARC_FLAG_COMPRESS_2'', Bit 26),
     (''ARC_FLAG_COMPRESS_3'', Bit 27), (''ARC_FLAG_COMPRESS_4'', Bit 28),
     (''ARC_FLAG_COMPRESS_5'', Bit 29), (''ARC_FLAG_COMPRESS_6'', Bit 30)]"

definition arc_buf_contents :: c_enum where
  "arc_buf_contents = plain
    [''ARC_BUFC_INVALID'', ''ARC_BUFC_DATA'', ''ARC_BUFC_METADATA'', ''ARC_BUFC_NUMTYPES'']"

definition arc_state_type :: c_enum where
  "arc_state_type = plain
    [''ARC_STATE_ANON'', ''ARC_STATE_MRU'', ''ARC_STATE_MRU_GHOST'', ''ARC_STATE_MFU'',
     ''ARC_STATE_MFU_GHOST'', ''ARC_STATE_L2C_ONLY'', ''ARC_STATE_NUMTYPES'']"

definition zpl_attr :: c_enum where
  "zpl_attr = plain
    [''ZPL_ATIME'', ''ZPL_MTIME'', ''ZPL_CTIME'', ''ZPL_CRTIME'', ''ZPL_GEN'', ''ZPL_MODE'',
     ''ZPL_SIZE'', ''ZPL_PARENT'', ''ZPL_LINKS'', ''ZPL_XATTR'', ''ZPL_RDEV'', ''ZPL_FLAGS'',
     ''ZPL_UID'', ''ZPL_GID'', ''ZPL_PAD'', ''ZPL_ZNODE_ACL'', ''ZPL_DACL_COUNT'',
     ''ZPL_SYMLINK'', ''ZPL_SCANSTAMP'', ''ZPL_DACL_ACES'', ''ZPL_DXATTR'', ''ZPL_PROJID'',
     ''ZPL_END'']"

definition data_type_t :: c_enum where
  "data_type_t =
    [(''DATA_TYPE_UNKNOWN'', Is 0), (''DATA_TYPE_BOOLEAN'', Next), (''DATA_TYPE_BYTE'', Next),
     (''DATA_TYPE_INT16'', Next), (''DATA_TYPE_UINT16'', Next), (''DATA_TYPE_INT32'', Next),
     (''DATA_TYPE_UINT32'', Next), (''DATA_TYPE_INT64'', Next), (''DATA_TYPE_UINT64'', Next),
     (''DATA_TYPE_STRING'', Next), (''DATA_TYPE_BYTE_ARRAY'', Next),
     (''DATA_TYPE_INT16_ARRAY'', Next), (''DATA_TYPE_UINT16_ARRAY'', Next),
     (''DATA_TYPE_INT32_ARRAY'', Next), (''DATA_TYPE_UINT32_ARRAY'', Next),
     (''DATA_TYPE_INT64_ARRAY'', Next), (''DATA_TYPE_UINT64_ARRAY'', Next),
     (''DATA_TYPE_STRING_ARRAY'', Next), (''DATA_TYPE_HRTIME'', Next),
     (''DATA_TYPE_NVLIST'', Next), (''DATA_TYPE_NVLIST_ARRAY'', Next),
     (''DATA_TYPE_BOOLEAN_VALUE'', Next), (''DATA_TYPE_INT8'', Next),
     (''DATA_TYPE_UINT8'', Next), (''DATA_TYPE_BOOLEAN_ARRAY'', Next),
     (''DATA_TYPE_INT8_ARRAY'', Next), (''DATA_TYPE_UINT8_ARRAY'', Next),
     (''DATA_TYPE_DOUBLE'', Next)]"

definition namecheck_err_t :: c_enum where
  "namecheck_err_t = plain
    [''NAME_ERR_LEADING_SLASH'', ''NAME_ERR_EMPTY_COMPONENT'', ''NAME_ERR_TRAILING_SLASH'',
     ''NAME_ERR_INVALCHAR'', ''NAME_ERR_MULTIPLE_DELIMITERS'', ''NAME_ERR_NOLETTER'',
     ''NAME_ERR_RESERVED'', ''NAME_ERR_DISKLIKE'', ''NAME_ERR_TOOLONG'', ''NAME_ERR_NO_AT'']"

section \<open>Their numbers\<close>

interpretation ioc: enumeration zfs_ioc
  by unfold_locales code_simp

interpretation zprops: enumeration zfs_prop_t
  by unfold_locales code_simp

interpretation pool_props: enumeration zpool_prop_t
  by unfold_locales code_simp

interpretation ezfs: enumeration zfs_error
  by unfold_locales code_simp

interpretation dataset_types: flag_enumeration zfs_type_t
  by unfold_locales (code_simp)+

interpretation arc: flag_enumeration arc_flags
  by unfold_locales (code_simp)+

interpretation feature_flags: flag_enumeration zfeature_flags
  by unfold_locales (code_simp)+

lemma ioc_table: "map snd (enum_table zfs_ioc) =
    [23040, 23040] @ [23040..23115] @ [23168..23171] @ [23232..23233]"
  by code_simp

text \<open>The commands of the control device are numbered from 'Z' shifted by eight bits: the
  76 common commands come first without a gap, the Linux ones start at 0x80 and the FreeBSD
  ones at 0xC0 above it, and no two names but the first three, which are the same command,
  have the same number. (The comment counts 71 common commands.)\<close>

theorem zfs_ioc_numbers:
  "map snd (enum_table zfs_ioc) = [0x5a00, 0x5a00] @ [0x5a00..0x5a00 + 75] @ [0x5a80..0x5a83] @ [0x5ac0..0x5ac1]
   \<and> map fst (enum_table zfs_ioc) = map fst zfs_ioc
   \<and> enum_val zfs_ioc ''ZFS_IOC_CHANGE_KEY'' = Some (0x5a00 + 75)
   \<and> distinct (map snd (drop 2 (enum_table zfs_ioc)))"
proof -
  have "map snd (drop 2 (enum_table zfs_ioc)) = [23040..23115] @ [23168..23171] @ [23232..23233]"
    unfolding drop_map[symmetric] ioc_table by simp
  moreover have "enum_val zfs_ioc ''ZFS_IOC_CHANGE_KEY'' = Some 23115" by code_simp
  ultimately show ?thesis
    unfolding ioc_table enum_table_names by simp
qed

end
