(* ===== verification/Vdev_Ring.thy ===== *)
theory Vdev_Ring
  imports Extractor_Props Pool_Layout
begin

text \<open>
  The ring of uberblocks at the end of a label, as \<open>sys/vdev_impl.h\<close> divides it: the size of a
  slot follows the sector size of the device, between 1K and 8K. The only member of a \<open>vdev_t\<close>
  the macros look at is the sector shift of the top-level device, their argument here.
\<close>

section \<open>The macros\<close>

definition VDEV_SKIP_SIZE :: nat where "VDEV_SKIP_SIZE = VDEV_PAD_SIZE * 2"
definition MMP_BLOCKS_PER_LABEL :: nat where "MMP_BLOCKS_PER_LABEL = 1"
definition MAX_UBERBLOCK_SHIFT :: nat where "MAX_UBERBLOCK_SHIFT = 13"

definition VDEV_UBERBLOCK_SHIFT :: "u64 \<Rightarrow> nat" where
  "VDEV_UBERBLOCK_SHIFT ashift = min (max (unat ashift) UBERBLOCK_SHIFT) MAX_UBERBLOCK_SHIFT"

definition VDEV_UBERBLOCK_COUNT :: "u64 \<Rightarrow> nat" where
  "VDEV_UBERBLOCK_COUNT ashift = drop_bit (VDEV_UBERBLOCK_SHIFT ashift) VDEV_UBERBLOCK_RING"

definition VDEV_UBERBLOCK_OFFSET :: "u64 \<Rightarrow> nat \<Rightarrow> nat" where
  "VDEV_UBERBLOCK_OFFSET ashift n =
     the (offsetof LP64 vdev_label_layout [''vl_uberblock'']) + push_bit (VDEV_UBERBLOCK_SHIFT ashift) n"

definition VDEV_UBERBLOCK_SIZE :: "u64 \<Rightarrow> nat" where
  "VDEV_UBERBLOCK_SIZE ashift = push_bit (VDEV_UBERBLOCK_SHIFT ashift) 1"

section \<open>The slots\<close>

lemma label_sizes:
  "offsetof LP64 vdev_label_layout [''vl_uberblock''] = Some 131072"
  "sizeof LP64 vdev_label_layout = 262144" "sizeof LP64 uberblock_layout = 208"
  by (simp_all add: layout layout_eval)

lemma ring_shift:
  "VDEV_UBERBLOCK_SHIFT ashift = (if unat ashift \<le> 10 then 10 else if 13 \<le> unat ashift then 13 else unat ashift)"
  by (simp add: VDEV_UBERBLOCK_SHIFT_def UBERBLOCK_SHIFT_def MAX_UBERBLOCK_SHIFT_def)

lemma ring_shift_cases: "VDEV_UBERBLOCK_SHIFT ashift \<in> {10, 11, 12, 13}"
  unfolding ring_shift by auto

lemmas ring_defs =
  VDEV_UBERBLOCK_COUNT_def VDEV_UBERBLOCK_SIZE_def VDEV_UBERBLOCK_OFFSET_def label_sizes
  push_bit_eq_mult drop_bit_eq_div

lemma ring_count: "VDEV_UBERBLOCK_COUNT ashift * VDEV_UBERBLOCK_SIZE ashift = VDEV_UBERBLOCK_RING"
  "16 \<le> VDEV_UBERBLOCK_COUNT ashift" "1024 \<le> VDEV_UBERBLOCK_SIZE ashift"
  using ring_shift_cases [of ashift] by (auto simp: ring_defs)

lemma slot_offset: "VDEV_UBERBLOCK_OFFSET ashift n = 131072 + n * VDEV_UBERBLOCK_SIZE ashift"
  by (simp add: ring_defs)

lemma slot_size_12: "VDEV_UBERBLOCK_SIZE ashift = 4096 \<longleftrightarrow> ashift = 12"
proof -
  have "VDEV_UBERBLOCK_SIZE ashift = 4096 \<longleftrightarrow> VDEV_UBERBLOCK_SHIFT ashift = 12"
    using ring_shift_cases [of ashift] by (auto simp: ring_defs)
  also have "\<dots> \<longleftrightarrow> unat ashift = 12" by (simp add: ring_shift)
  also have "\<dots> \<longleftrightarrow> ashift = 12" using word_unat_eq_iff [of ashift 12] by simp
  finally show ?thesis .
qed

text \<open>What the extractor takes for the slot is what the macros call the slot of a device with 4K
  sectors.\<close>

lemma ring_slot_12:
  "length bs = sizeof_vdev_label \<Longrightarrow>
    ring_slot (vl_uberblock (bytes_vdev_label bs)) n
      = words_uberblock (get_words 26 (take 208 (drop (VDEV_UBERBLOCK_OFFSET 12 n) bs)))"
  using slot_size_12 [of 12] by (simp add: ring_slot_def bytes_vdev_label_def slot_offset add.commute)

lemma loadLabel_slots:
  assumes "dev < length (vdevs r)" and l: "length (disk dev 0 sizeof_vdev_label) = sizeof_vdev_label"
  shows "loadLabel False disk dev labidx r = Inr (r\<lparr>tgxs := foldl put_ub (tgxs r)
        (map (\<lambda>i. words_uberblock (get_words 26 (take 208
               (drop (VDEV_UBERBLOCK_OFFSET ASHIFT i) (disk dev 0 sizeof_vdev_label)))))
          [0..<VDEV_UBERBLOCK_COUNT ASHIFT])\<rparr>)"
proof -
  have "VDEV_UBERBLOCK_COUNT ASHIFT = 32"
    using ring_count(1) [of ASHIFT] slot_size_12 [of ASHIFT] by (simp add: ASHIFT_def)
  moreover have "ring_slot (vl_uberblock (bytes_vdev_label (disk dev 0 sizeof_vdev_label)))
      = (\<lambda>i. words_uberblock (get_words 26 (take 208
               (drop (VDEV_UBERBLOCK_OFFSET ASHIFT i) (disk dev 0 sizeof_vdev_label)))))"
    using ring_slot_12 [OF l] by (intro ext) (simp add: ASHIFT_def)
  ultimately show ?thesis using loadLabel_full [of dev r disk labidx, OF assms] by simp
qed

text \<open>For every sector size the uberblock slots divide the ring of a label exactly: each
  holds an uberblock, lies in the label, starts where the one before ends, and the last ends
  with the label. A whole label read by \<open>loadLabel\<close> (as the makefile builds it) leaves in the table the uberblocks of
  exactly these slots in their order, for a device with 4K sectors; 4K is the only sector
  size for which the slots of the extractor are those of the device.\<close>

theorem uberblock_ring:
  assumes dev: "dev < length (vdevs r)"
    and l: "length (disk dev 0 sizeof_vdev_label) = sizeof_vdev_label"
    and n: "n < VDEV_UBERBLOCK_COUNT ashift"
  shows "sizeof LP64 uberblock_layout \<le> VDEV_UBERBLOCK_SIZE ashift
    \<and> the (offsetof LP64 vdev_label_layout [''vl_uberblock'']) \<le> VDEV_UBERBLOCK_OFFSET ashift n
    \<and> VDEV_UBERBLOCK_OFFSET ashift n + VDEV_UBERBLOCK_SIZE ashift = VDEV_UBERBLOCK_OFFSET ashift (n + 1)
    \<and> VDEV_UBERBLOCK_OFFSET ashift (n + 1) \<le> sizeof LP64 vdev_label_layout
    \<and> VDEV_UBERBLOCK_OFFSET ashift (VDEV_UBERBLOCK_COUNT ashift) = sizeof LP64 vdev_label_layout
    \<and> loadLabel False disk dev labidx r = Inr (r\<lparr>tgxs := foldl put_ub (tgxs r)
        (map (\<lambda>i. words_uberblock (get_words 26 (take 208
               (drop (VDEV_UBERBLOCK_OFFSET ASHIFT i) (disk dev 0 sizeof_vdev_label)))))
          [0..<VDEV_UBERBLOCK_COUNT ASHIFT])\<rparr>)
    \<and> (VDEV_UBERBLOCK_SIZE ashift = push_bit (unat ASHIFT) 1 \<longleftrightarrow> ashift = ASHIFT)"
proof -
  have "(n + 1) * VDEV_UBERBLOCK_SIZE ashift \<le> VDEV_UBERBLOCK_COUNT ashift * VDEV_UBERBLOCK_SIZE ashift"
    using n by (intro mult_le_mono1) simp
  then have "131072 + (n + 1) * VDEV_UBERBLOCK_SIZE ashift \<le> 262144"
    using ring_count(1) [of ashift] by simp
  moreover have "push_bit (unat ASHIFT) 1 = (4096 :: nat)" by (simp add: ASHIFT_def push_bit_eq_mult)
  ultimately show ?thesis
    using loadLabel_slots [of dev r disk labidx, OF dev l] ring_count [of ashift] slot_size_12 [of ashift]
    unfolding label_sizes slot_offset [of ashift] by (simp add: ASHIFT_def)
qed

theorem uberblock_ring_witness:
  "VDEV_UBERBLOCK_OFFSET 9 127 + VDEV_UBERBLOCK_SIZE 9 = VDEV_UBERBLOCK_OFFSET 9 (127 + 1)
    \<and> VDEV_UBERBLOCK_OFFSET 9 (127 + 1) \<le> sizeof LP64 vdev_label_layout
    \<and> VDEV_UBERBLOCK_SIZE 9 \<noteq> push_bit (unat ASHIFT) 1"
proof -
  let ?r = "\<lparr>vdevs = [''a'', ''b'', ''c''], tgxs = Map.empty, datasets = Map.empty\<rparr>"
  have "127 < VDEV_UBERBLOCK_COUNT 9"
    by (simp add: ring_defs ring_shift VDEV_UBERBLOCK_RING_def)
  then show ?thesis
    using uberblock_ring [of 0 ?r "\<lambda>d ofs n. replicate n 7" 127 9] by (simp add: ASHIFT_def)
qed

end
