(* ===== verification/Dnode_Space.thy ===== *)
theory Dnode_Space
  imports Dnode Pool_Layout
begin

text \<open>
  How a dnode of one or more slots divides its space (\<open>sys/dnode.h\<close>): the header, the block
  pointers, the bonus buffer and, on request, a block pointer to a spill block at its end. The
  addresses the macros compute are taken relative to the dnode; a \<open>char *\<close> difference is an
  \<^typ>\<open>int\<close>. Also the space a dnode accounts for and the height of its block tree.
\<close>

section \<open>The macros\<close>

definition DNODE_FLAG_USED_BYTES :: u8 where "DNODE_FLAG_USED_BYTES = push_bit 0 1"
definition DNODE_FLAG_USERUSED_ACCOUNTED :: u8 where "DNODE_FLAG_USERUSED_ACCOUNTED = push_bit 1 1"
definition DNODE_FLAG_SPILL_BLKPTR :: u8 where "DNODE_FLAG_SPILL_BLKPTR = push_bit 2 1"
definition DNODE_FLAG_USEROBJUSED_ACCOUNTED :: u8 where "DNODE_FLAG_USEROBJUSED_ACCOUNTED = push_bit 3 1"
definition DNODE_CRYPT_PORTABLE_FLAGS_MASK :: u8 where
  "DNODE_CRYPT_PORTABLE_FLAGS_MASK = DNODE_FLAG_SPILL_BLKPTR"

text \<open>The bonus buffer starts where the array of block pointers ends; \<open>dn_bonus\<close> is declared
  behind the first block pointer.\<close>

definition DN_BONUS :: "dnode_phys \<Rightarrow> int" where
  "DN_BONUS dnp = 192 + (int (unat (dn_nblkptr dnp)) - 1) * 128"

definition DN_SPILL_BLKPTR :: "dnode_phys \<Rightarrow> int" where
  "DN_SPILL_BLKPTR dnp =
     push_bit DNODE_SHIFT (int (unat (dn_extra_slots dnp)) + 1) - push_bit SPA_BLKPTRSHIFT 1"

definition DN_MAX_BONUS_LEN :: "dnode_phys \<Rightarrow> int" where
  "DN_MAX_BONUS_LEN dnp =
     (if dn_flags dnp AND DNODE_FLAG_SPILL_BLKPTR \<noteq> 0 then DN_SPILL_BLKPTR dnp - DN_BONUS dnp
      else int sizeof_dnode_phys * (int (unat (dn_extra_slots dnp)) + 1) - DN_BONUS dnp)"

definition DN_USED_BYTES :: "dnode_phys \<Rightarrow> u64" where
  "DN_USED_BYTES dnp =
     (if dn_flags dnp AND DNODE_FLAG_USED_BYTES \<noteq> 0 then dn_used dnp
      else push_bit SPA_MINBLOCKSHIFT (dn_used dnp))"

definition DNODES_PER_LEVEL_SHIFT :: nat where
  "DNODES_PER_LEVEL_SHIFT = DN_MAX_INDBLKSHIFT - SPA_BLKPTRSHIFT"

definition DNODES_PER_LEVEL :: u64 where "DNODES_PER_LEVEL = push_bit DNODES_PER_LEVEL_SHIFT 1"

definition DN_MAX_LEVELS :: u64 where
  "DN_MAX_LEVELS = DIV_ROUND_UP (of_nat (DN_MAX_OFFSET_SHIFT - SPA_MINBLOCKSHIFT))
     (of_nat (DN_MIN_INDBLKSHIFT - SPA_BLKPTRSHIFT)) + 1"

definition EPB :: "nat \<Rightarrow> nat \<Rightarrow> int" where "EPB blkshift typeshift = push_bit (blkshift - typeshift) 1"

lemmas dnode_space_defs =
  DN_BONUS_def DN_SPILL_BLKPTR_def DN_MAX_BONUS_LEN_def DNODE_FLAG_SPILL_BLKPTR_def
  DNODE_SHIFT_def SPA_BLKPTRSHIFT_def sizeof_dnode_phys_def push_bit_eq_mult

section \<open>Where the parts lie\<close>

lemma dnode_members:
  "offsetof LP64 dnode_phys_layout [[], ''dn_blkptr''] = Some 64"
  "offsetof LP64 dnode_phys_layout [[], [], ''dn_bonus''] = Some 192"
  by (simp_all add: layout layout_eval)

lemma bonus_start: "DN_BONUS dnp = 64 + 128 * int (unat (dn_nblkptr dnp))"
  by (simp add: DN_BONUS_def)

lemma spill_end: "DN_SPILL_BLKPTR dnp + 128 = 512 * (int (unat (dn_extra_slots dnp)) + 1)"
  by (simp add: dnode_space_defs)

lemma bonus_end:
  "DN_BONUS dnp + DN_MAX_BONUS_LEN dnp = 512 * (int (unat (dn_extra_slots dnp)) + 1)
     - (if dn_flags dnp AND DNODE_FLAG_SPILL_BLKPTR \<noteq> 0 then 128 else 0)"
  using spill_end [of dnp] by (simp add: DN_MAX_BONUS_LEN_def sizeof_dnode_phys_def)

text \<open>The parts of a dnode fill its slots without gap or overlap: the bonus buffer starts
  where the last of its one to three block pointers ends and goes up to the spill pointer, or
  to the end of the slots without one; the spill pointer takes the last 128 bytes and, in a
  dnode of one slot, is the declared member. The room for the bonus is negative exactly for
  three block pointers and a spill pointer in one slot; with one block pointer and no spill
  it is what \<open>DN_SLOTS_TO_BONUSLEN\<close> announces, and never more.\<close>

theorem dnode_space:
  assumes n: "1 \<le> unat (dn_nblkptr dnp)" "unat (dn_nblkptr dnp) \<le> DN_MAX_NBLKPTR"
    and slots: "slots = int (unat (dn_extra_slots dnp)) + 1"
    and spill: "spill \<longleftrightarrow> dn_flags dnp AND DNODE_FLAG_SPILL_BLKPTR \<noteq> 0"
  shows "offsetof LP64 dnode_phys_layout [[], ''dn_blkptr''] = Some 64
    \<and> DN_BONUS dnp = 64 + int (sizeof LP64 blkptr_layout * unat (dn_nblkptr dnp))
    \<and> DN_SPILL_BLKPTR dnp + 128 = int sizeof_dnode_phys * slots
    \<and> DN_BONUS dnp + DN_MAX_BONUS_LEN dnp =
        (if spill then DN_SPILL_BLKPTR dnp else int sizeof_dnode_phys * slots)
    \<and> (slots = 1 \<longrightarrow> dn_spill dnp
        = words_blkptr (get_words 16 (drop (nat (DN_SPILL_BLKPTR dnp) - 64) (dn_tail dnp))))
    \<and> (DN_MAX_BONUS_LEN dnp < 0 \<longleftrightarrow> unat (dn_nblkptr dnp) = 3 \<and> slots = 1 \<and> spill)
    \<and> DN_MAX_BONUS_LEN dnp \<le> DN_SLOTS_TO_BONUSLEN slots
    \<and> (DN_MAX_BONUS_LEN dnp = DN_SLOTS_TO_BONUSLEN slots \<longleftrightarrow> unat (dn_nblkptr dnp) = 1 \<and> \<not> spill)"
proof -
  obtain k e where k: "unat (dn_nblkptr dnp) = k" and e: "unat (dn_extra_slots dnp) = e" by simp
  have k13: "1 \<le> k" "k \<le> 3"
    using n by (simp_all add: k DN_MAX_NBLKPTR_def DNODE_MIN_SIZE_def DNODE_CORE_SIZE_def DNODE_SHIFT_def
        SPA_BLKPTRSHIFT_def push_bit_eq_mult drop_bit_eq_div)
  have len: "DN_SLOTS_TO_BONUSLEN slots = 512 * slots - 192"
    by (simp add: DN_SLOTS_TO_BONUSLEN_def DN_BONUS_SIZE_def DNODE_SHIFT_def DNODE_CORE_SIZE_def
        SPA_BLKPTRSHIFT_def push_bit_eq_mult)
  have bp: "sizeof LP64 blkptr_layout = 128" by (simp add: layout layout_eval)
  have "dn_spill dnp = words_blkptr (get_words 16 (drop (nat (DN_SPILL_BLKPTR dnp) - 64) (dn_tail dnp)))"
    if "slots = 1"
    using that slots by (simp add: dn_spill_def dnode_space_defs DN_OLD_MAX_BONUSLEN_def DN_BONUS_SIZE_def
        DNODE_MIN_SIZE_def DNODE_CORE_SIZE_def)
  then show ?thesis
    using k13 slots bonus_start [of dnp] bonus_end [of dnp] spill_end [of dnp]
    unfolding dnode_members bp len sizeof_dnode_phys_def k e spill [symmetric] by (cases spill) auto
qed

text \<open>A dnode of one slot with three block pointers and a spill pointer has no room at all.\<close>

definition narrow :: dnode_phys where
  "narrow = \<lparr>dn_type = 19, dn_indblkshift = 17, dn_nlevels = 1, dn_nblkptr = 3, dn_bonustype = 44,
      dn_checksum = 0, dn_compress = 0, dn_flags = 4, dn_datablkszsec = 1, dn_bonuslen = 0,
      dn_extra_slots = 0, dn_pad2 = [0, 0, 0], dn_maxblkid = 0, dn_used = 0, dn_pad3 = [0, 0, 0, 0],
      dn_tail = replicate 448 0\<rparr>"

theorem dnode_space_witness:
  "DN_BONUS narrow = 448 \<and> DN_SPILL_BLKPTR narrow = 384 \<and> DN_MAX_BONUS_LEN narrow = - 64
    \<and> dn_spill narrow = words_blkptr (get_words 16 (drop (nat (DN_SPILL_BLKPTR narrow) - 64) (dn_tail narrow)))"
proof -
  have "1 \<le> unat (dn_nblkptr narrow)" "unat (dn_nblkptr narrow) \<le> DN_MAX_NBLKPTR"
    "1 = int (unat (dn_extra_slots narrow)) + 1" "True \<longleftrightarrow> dn_flags narrow AND DNODE_FLAG_SPILL_BLKPTR \<noteq> 0"
    by (simp_all add: narrow_def DN_MAX_NBLKPTR_def DNODE_MIN_SIZE_def DNODE_CORE_SIZE_def DNODE_SHIFT_def
        SPA_BLKPTRSHIFT_def push_bit_eq_mult drop_bit_eq_div DNODE_FLAG_SPILL_BLKPTR_def)
  from dnode_space [OF this]
  have a: "DN_BONUS narrow = 64 + int (sizeof LP64 blkptr_layout * unat (dn_nblkptr narrow))"
    and b: "DN_SPILL_BLKPTR narrow + 128 = int sizeof_dnode_phys * 1"
    and c: "DN_BONUS narrow + DN_MAX_BONUS_LEN narrow = DN_SPILL_BLKPTR narrow"
    and d: "dn_spill narrow = words_blkptr (get_words 16 (drop (nat (DN_SPILL_BLKPTR narrow) - 64) (dn_tail narrow)))"
    by simp_all
  have "sizeof LP64 blkptr_layout = 128" by (simp add: layout layout_eval)
  then show ?thesis using a b c d by (simp add: narrow_def sizeof_dnode_phys_def)
qed

section \<open>Space and height\<close>

lemma used_bytes:
  "dn_flags dnp AND DNODE_FLAG_USED_BYTES = 0 \<Longrightarrow> unat (dn_used dnp) < 2 ^ 55 \<Longrightarrow>
    unat (DN_USED_BYTES dnp) = 512 * unat (dn_used dnp)"
  by (simp add: DN_USED_BYTES_def SPA_MINBLOCKSHIFT_def push_bit_eq_mult unat_word_ariths mult.commute)

text \<open>The levels a tree of the smallest indirect blocks needs to reach every byte of an object,
  and one level less does not.\<close>

lemma levels_enough:
  defines "h \<equiv> unat DN_MAX_LEVELS - 1"
  defines "fanout \<equiv> EPB DN_MIN_INDBLKSHIFT SPA_BLKPTRSHIFT"
  shows "2 ^ DN_MAX_OFFSET_SHIFT \<le> 2 ^ SPA_MINBLOCKSHIFT * fanout ^ h"
    and "2 ^ SPA_MINBLOCKSHIFT * fanout ^ (h - 1) < 2 ^ DN_MAX_OFFSET_SHIFT"
  by (simp_all add: h_def fanout_def DN_MAX_LEVELS_def DIV_ROUND_UP_def EPB_def DN_MIN_INDBLKSHIFT_def
      DN_MAX_OFFSET_SHIFT_def SPA_MINBLOCKSHIFT_def SPA_BLKPTRSHIFT_def push_bit_eq_mult)

end
