(* ===== verification/Metaslab.thy ===== *)
theory Metaslab
  imports Bitfield Cenum
begin

text \<open>
  The weight of a metaslab (\<open>sys/metaslab_impl.h\<close>): one 64-bit word by which the metaslabs of
  a group are sorted, so that what the allocator should prefer compares as larger. A weight is
  a sum of the free space or, for pools with histograms, a bucket and the number of its
  segments; the two bits on top say how the metaslab is in use.
\<close>

section \<open>The macros\<close>

definition METASLAB_WEIGHT_PRIMARY :: u64 where "METASLAB_WEIGHT_PRIMARY = push_bit 63 1"
definition METASLAB_WEIGHT_SECONDARY :: u64 where "METASLAB_WEIGHT_SECONDARY = push_bit 62 1"
definition METASLAB_WEIGHT_TYPE :: u64 where "METASLAB_WEIGHT_TYPE = push_bit 61 1"

definition METASLAB_ACTIVE_MASK :: u64 where
  "METASLAB_ACTIVE_MASK = METASLAB_WEIGHT_PRIMARY OR METASLAB_WEIGHT_SECONDARY"

definition WEIGHT_GET_ACTIVE :: "u64 \<Rightarrow> u64" where "WEIGHT_GET_ACTIVE weight = BF64_GET weight 62 2"
definition WEIGHT_SET_ACTIVE :: "u64 \<Rightarrow> u64 \<Rightarrow> stop + u64" where
  "WEIGHT_SET_ACTIVE weight x = BF64_SET weight 62 2 x"

definition WEIGHT_IS_SPACEBASED :: "u64 \<Rightarrow> bool" where
  "WEIGHT_IS_SPACEBASED weight \<longleftrightarrow> weight = 0 \<or> BF64_GET weight 61 1 \<noteq> 0"

definition WEIGHT_SET_SPACEBASED :: "u64 \<Rightarrow> stop + u64" where
  "WEIGHT_SET_SPACEBASED weight = BF64_SET weight 61 1 1"

definition WEIGHT_GET_INDEX :: "u64 \<Rightarrow> u64" where "WEIGHT_GET_INDEX weight = BF64_GET weight 55 6"
definition WEIGHT_SET_INDEX :: "u64 \<Rightarrow> u64 \<Rightarrow> stop + u64" where
  "WEIGHT_SET_INDEX weight x = BF64_SET weight 55 6 x"

definition WEIGHT_GET_COUNT :: "u64 \<Rightarrow> u64" where "WEIGHT_GET_COUNT weight = BF64_GET weight 0 55"
definition WEIGHT_SET_COUNT :: "u64 \<Rightarrow> u64 \<Rightarrow> stop + u64" where
  "WEIGHT_SET_COUNT weight x = BF64_SET weight 0 55 x"

lemmas weight_get_defs =
  WEIGHT_GET_ACTIVE_def WEIGHT_GET_INDEX_def WEIGHT_GET_COUNT_def WEIGHT_IS_SPACEBASED_def

lemmas weight_set_defs =
  WEIGHT_SET_ACTIVE_def WEIGHT_SET_INDEX_def WEIGHT_SET_COUNT_def WEIGHT_SET_SPACEBASED_def

text \<open>Why an allocation went past a metaslab, in place of an offset: the largest numbers.\<close>

definition trace_alloc_type :: c_enum where
  "trace_alloc_type =
    [(''TRACE_ALLOC_FAILURE'', Is 0xffffffffffffffff), (''TRACE_TOO_SMALL'', Is 0xfffffffffffffffe),
     (''TRACE_FORCE_GANG'', Is 0xfffffffffffffffd), (''TRACE_NOT_ALLOCATABLE'', Is 0xfffffffffffffffc),
     (''TRACE_GROUP_FAILURE'', Is 0xfffffffffffffffb), (''TRACE_ENOSPC'', Is 0xfffffffffffffffa),
     (''TRACE_CONDENSING'', Is 0xfffffffffffffff9), (''TRACE_VDEV_ERROR'', Is 0xfffffffffffffff8)]"

interpretation trace_alloc: enumeration trace_alloc_type
  by unfold_locales (simp add: trace_alloc_type_def)

section \<open>A weight is the number its fields spell\<close>

lemma BF64_GET_0: "BF64_GET 0 low len = 0"
  by (simp add: BF64_GET_take)

lemma split_digit: "n div m = n div m mod k + k * (n div (m * k) :: nat)"
  by (simp add: div_mult2_eq)

lemma digits_sum:
  "n = c + 2 ^ 55 * q \<Longrightarrow> q = i + 2 ^ 6 * r \<Longrightarrow> r = t + 2 ^ 1 * a \<Longrightarrow>
    n = 2 ^ 62 * a + 2 ^ 61 * t + 2 ^ 55 * i + (c :: nat)"
  by simp

lemma weight_value:
  "unat w = 2 ^ 62 * unat (WEIGHT_GET_ACTIVE w) + 2 ^ 61 * unat (BF64_GET w 61 1)
    + 2 ^ 55 * unat (WEIGHT_GET_INDEX w) + unat (WEIGHT_GET_COUNT w)"
proof -
  have "unat w < 2 ^ 64" by (rule order_less_le_trans[OF unsigned_less]) simp
  then have top: "unat w div 2 ^ 62 mod 2 ^ 2 = unat w div 2 ^ 62"
    by (simp add: less_mult_imp_div_less)
  have low: "unat w = unat w mod 2 ^ 55 + 2 ^ 55 * (unat w div 2 ^ 55)" by simp
  have mid: "unat w div 2 ^ 55 = unat w div 2 ^ 55 mod 2 ^ 6 + 2 ^ 6 * (unat w div 2 ^ 61)"
    and high: "unat w div 2 ^ 61 = unat w div 2 ^ 61 mod 2 ^ 1 + 2 ^ 1 * (unat w div 2 ^ 62)"
    using split_digit [of "unat w" "2 ^ 55" "2 ^ 6"] split_digit [of "unat w" "2 ^ 61" "2 ^ 1"] by simp_all
  show ?thesis using digits_sum [OF low mid high] top by (simp only: weight_get_defs unat_BF64_GET) simp
qed

lemma weight_fields_less:
  "unat (WEIGHT_GET_ACTIVE w) < 4" "unat (WEIGHT_GET_INDEX w) < 64" "unat (WEIGHT_GET_COUNT w) < 2 ^ 55"
  "unat (BF64_GET w 61 1) < 2"
  by (simp_all add: weight_get_defs unat_BF64_GET)

lemma weight_type: "\<not> WEIGHT_IS_SPACEBASED w \<Longrightarrow> BF64_GET w 61 1 = 0"
  "w \<noteq> 0 \<Longrightarrow> WEIGHT_IS_SPACEBASED w \<Longrightarrow> unat (BF64_GET w 61 1) = 1"
  using weight_fields_less(4) [of w]
  by (auto simp: WEIGHT_IS_SPACEBASED_def less_2_cases_iff unat_eq_zero)

text \<open>Numbers of three digits compare digit by digit.\<close>

lemma digits_less:
  fixes a i c :: nat
  assumes "i < 64" "i' < 64" "c < 2 ^ 55" "c' < 2 ^ 55"
  shows "2 ^ 62 * a + 2 ^ 55 * i + c < 2 ^ 62 * a' + 2 ^ 55 * i' + c'
    \<longleftrightarrow> a < a' \<or> a = a' \<and> (i < i' \<or> i = i' \<and> c < c')"
  using assms by (cases a a' rule: linorder_cases; cases i i' rule: linorder_cases) simp_all

section \<open>Properties\<close>

text \<open>Sorting metaslabs by weight is what the format promises. Among segment-based
  weights the larger one has the higher activation, then the higher bucket, then the larger
  count, in this order; a space-based weight comes before every segment-based one of the
  same activation; and bucket, count and activation stored one after the other, in ranges of
  6, 55 and 2 bits, are read back and leave the weight segment-based unless all three are 0,
  when the weight reads as space-based.\<close>

theorem metaslab_weights:
  assumes w: "\<not> WEIGHT_IS_SPACEBASED w" and w': "\<not> WEIGHT_IS_SPACEBASED w'"
    and s: "s \<noteq> 0" "WEIGHT_IS_SPACEBASED s" "WEIGHT_GET_ACTIVE s = WEIGHT_GET_ACTIVE w"
    and i: "i < 2 ^ 6" and c: "c < 2 ^ 55" and a: "a < 4"
  shows "(w < w' \<longleftrightarrow> WEIGHT_GET_ACTIVE w < WEIGHT_GET_ACTIVE w' \<or> WEIGHT_GET_ACTIVE w = WEIGHT_GET_ACTIVE w'
      \<and> (WEIGHT_GET_INDEX w < WEIGHT_GET_INDEX w' \<or> WEIGHT_GET_INDEX w = WEIGHT_GET_INDEX w'
         \<and> WEIGHT_GET_COUNT w < WEIGHT_GET_COUNT w'))
    \<and> w < s
    \<and> (\<exists>v. andthen (andthen (WEIGHT_SET_INDEX 0 i) (\<lambda>v. WEIGHT_SET_COUNT v c)) (\<lambda>v. WEIGHT_SET_ACTIVE v a) = Inr v
         \<and> WEIGHT_GET_INDEX v = i \<and> WEIGHT_GET_COUNT v = c \<and> WEIGHT_GET_ACTIVE v = a
         \<and> (WEIGHT_IS_SPACEBASED v \<longleftrightarrow> i = 0 \<and> c = 0 \<and> a = 0))"
proof (intro conjI)
  show "w < w' \<longleftrightarrow> WEIGHT_GET_ACTIVE w < WEIGHT_GET_ACTIVE w' \<or> WEIGHT_GET_ACTIVE w = WEIGHT_GET_ACTIVE w'
      \<and> (WEIGHT_GET_INDEX w < WEIGHT_GET_INDEX w' \<or> WEIGHT_GET_INDEX w = WEIGHT_GET_INDEX w'
         \<and> WEIGHT_GET_COUNT w < WEIGHT_GET_COUNT w')"
    using digits_less [OF weight_fields_less(2) [of w] weight_fields_less(2) [of w'] weight_fields_less(3) [of w]
        weight_fields_less(3) [of w'], of "unat (WEIGHT_GET_ACTIVE w)" "unat (WEIGHT_GET_ACTIVE w')"] weight_type(1) [OF w] weight_type(1) [OF w']
    by (simp add: word_less_nat_alt word_unat_eq_iff weight_value [of w] weight_value [of w'])
  show "w < s"
    using weight_value [of w] weight_value [of s] weight_type(1) [OF w] weight_type(2) [OF s(1,2)] s(3)
      weight_fields_less [of w] by (simp add: word_less_nat_alt)
next
  let ?v = "with_field (with_field (with_field 0 55 6 i) 0 55 c) 62 2 a"
  have stored: "andthen (andthen (WEIGHT_SET_INDEX 0 i) (\<lambda>v. WEIGHT_SET_COUNT v c)) (\<lambda>v. WEIGHT_SET_ACTIVE v a) = Inr ?v"
    using i c a by (simp add: weight_set_defs BF64_SET_ok)
  have read: "WEIGHT_GET_INDEX ?v = i" "WEIGHT_GET_COUNT ?v = c" "WEIGHT_GET_ACTIVE ?v = a" "BF64_GET ?v 61 1 = 0"
    using i c a by (simp_all add: weight_get_defs get_with_field get_other_field BF64_GET_0)
  then have "?v = 0 \<longleftrightarrow> i = 0 \<and> c = 0 \<and> a = 0"
    using weight_value [of ?v] by (auto simp: unat_eq_zero [symmetric] simp del: unat_eq_zero)
  then show "\<exists>v. andthen (andthen (WEIGHT_SET_INDEX 0 i) (\<lambda>v. WEIGHT_SET_COUNT v c)) (\<lambda>v. WEIGHT_SET_ACTIVE v a) = Inr v
         \<and> WEIGHT_GET_INDEX v = i \<and> WEIGHT_GET_COUNT v = c \<and> WEIGHT_GET_ACTIVE v = a
         \<and> (WEIGHT_IS_SPACEBASED v \<longleftrightarrow> i = 0 \<and> c = 0 \<and> a = 0)"
    using stored read by (auto simp: WEIGHT_IS_SPACEBASED_def)
qed

theorem metaslab_weights_witness:
  "((0x8280000000000003 :: u64) < 0x8300000000000001 \<longleftrightarrow>
      WEIGHT_GET_ACTIVE 0x8280000000000003 < WEIGHT_GET_ACTIVE 0x8300000000000001
      \<or> WEIGHT_GET_ACTIVE 0x8280000000000003 = WEIGHT_GET_ACTIVE 0x8300000000000001
      \<and> (WEIGHT_GET_INDEX 0x8280000000000003 < WEIGHT_GET_INDEX 0x8300000000000001
         \<or> WEIGHT_GET_INDEX 0x8280000000000003 = WEIGHT_GET_INDEX 0x8300000000000001
         \<and> WEIGHT_GET_COUNT 0x8280000000000003 < WEIGHT_GET_COUNT 0x8300000000000001))
    \<and> (0x8280000000000003 :: u64) < 0xa000000000000001
    \<and> (\<exists>v. andthen (andthen (WEIGHT_SET_INDEX 0 17) (\<lambda>v. WEIGHT_SET_COUNT v 9)) (\<lambda>v. WEIGHT_SET_ACTIVE v 2) = Inr v
         \<and> WEIGHT_GET_INDEX v = 17 \<and> WEIGHT_GET_COUNT v = 9 \<and> WEIGHT_GET_ACTIVE v = 2
         \<and> (WEIGHT_IS_SPACEBASED v \<longleftrightarrow> (17 :: u64) = 0 \<and> (9 :: u64) = 0 \<and> (2 :: u64) = 0))"
  by (rule metaslab_weights)
    (simp_all add: weight_get_defs BF64_GET_take take_bit_eq_mask drop_bit_eq_div mask_numeral)

end
