(* ===== verification/Xvattr.thy ===== *)
theory Xvattr
  imports Bitfield
begin

text \<open>
  Optional file attributes (\<open>sys/xvattr.h\<close>): a structure with one bitmap of the attributes
  that are asked for and one of those that were delivered, and the macros that set, clear and test one
  attribute. \<open>AT_XVATTR\<close> and \<open>ATTR_XVATTR\<close> come from the host's headers and are arguments. The
  abstract view is a pair of sets of attributes.
\<close>

section \<open>The structure\<close>

definition AV_SCANSTAMP_SZ :: nat where "AV_SCANSTAMP_SZ = 32"

record xoptattr =
  xoa_createtime :: "int \<times> int"
  xoa_archive :: u8
  xoa_system :: u8
  xoa_readonly :: u8
  xoa_hidden :: u8
  xoa_nounlink :: u8
  xoa_immutable :: u8
  xoa_appendonly :: u8
  xoa_nodump :: u8
  xoa_opaque :: u8
  xoa_av_quarantined :: u8
  xoa_av_modified :: u8
  xoa_av_scanstamp :: bytes
  xoa_reparse :: u8
  xoa_generation :: u64
  xoa_offline :: u8
  xoa_sparse :: u8
  xoa_projinherit :: u8
  xoa_projid :: u64

definition XVA_MAPSIZE :: u32 where "XVA_MAPSIZE = 3"
definition XVA_MAGIC :: u32 where "XVA_MAGIC = 0x78766174"

text \<open>The pointer to the delivered attributes is null or points to the array of the structure;
  of the embedded \<open>vattr_t\<close> only the mask is used.\<close>

datatype map_ptr = Map_null | Map_own

record xvattr =
  va_mask :: u32
  xva_magic :: u32
  xva_mapsize :: u32
  xva_rtnattrmapp :: map_ptr
  xva_reqattrmap :: "u32 list"
  xva_rtnattrmap :: "u32 list"
  xva_xoptattrs :: xoptattr

section \<open>Attributes\<close>

definition XAT0_INDEX :: u64 where "XAT0_INDEX = 0"

definition XAT0 :: "(string \<times> u64) list" where
  "XAT0 =
    [(''CREATETIME'', 0x00000001), (''ARCHIVE'', 0x00000002), (''SYSTEM'', 0x00000004),
     (''READONLY'', 0x00000008), (''HIDDEN'', 0x00000010), (''NOUNLINK'', 0x00000020),
     (''IMMUTABLE'', 0x00000040), (''APPENDONLY'', 0x00000080), (''NODUMP'', 0x00000100),
     (''OPAQUE'', 0x00000200), (''AV_QUARANTINED'', 0x00000400), (''AV_MODIFIED'', 0x00000800),
     (''AV_SCANSTAMP'', 0x00001000), (''REPARSE'', 0x00002000), (''GEN'', 0x00004000),
     (''OFFLINE'', 0x00008000), (''SPARSE'', 0x00010000), (''PROJINHERIT'', 0x00020000),
     (''PROJID'', 0x00040000)]"

definition XVA_MASK :: u64 where "XVA_MASK = 0xffffffff"
definition XVA_SHFT :: nat where "XVA_SHFT = 32"

definition XVA_INDEX :: "u64 \<Rightarrow> u32" where "XVA_INDEX attr = ucast (drop_bit XVA_SHFT attr AND XVA_MASK)"
definition XVA_ATTRBIT :: "u64 \<Rightarrow> u32" where "XVA_ATTRBIT attr = ucast (attr AND XVA_MASK)"

definition XAT :: "(string \<times> u64) list" where
  "XAT = map (\<lambda>(n, b). (n, push_bit XVA_SHFT XAT0_INDEX OR b)) XAT0"

section \<open>The operations\<close>

definition XVA_RTNATTRMAP :: "xvattr \<Rightarrow> map_ptr" where "XVA_RTNATTRMAP xvap = xva_rtnattrmapp xvap"

definition map_write :: "u32 list \<Rightarrow> u32 \<Rightarrow> (u32 \<Rightarrow> u32) \<Rightarrow> stop + u32 list" where
  "map_write m i f = (if unat i < length m then Inr (m[unat i := f (m ! unat i)]) else Inl Undefined)"

definition XVA_SET_REQ :: "u32 \<Rightarrow> xvattr \<Rightarrow> u64 \<Rightarrow> stop + xvattr" where
  "XVA_SET_REQ AT_XVATTR xvap attr =
     andthen (ASSERT (va_mask xvap AND AT_XVATTR \<noteq> 0)) (\<lambda>_.
     andthen (ASSERT (xva_magic xvap = XVA_MAGIC)) (\<lambda>_.
     andthen (map_write (xva_reqattrmap xvap) (XVA_INDEX attr) (\<lambda>w. w OR XVA_ATTRBIT attr)) (\<lambda>m.
     Inr (xvap\<lparr>xva_reqattrmap := m\<rparr>))))"

definition XVA_CLR_REQ :: "u32 \<Rightarrow> xvattr \<Rightarrow> u64 \<Rightarrow> stop + xvattr" where
  "XVA_CLR_REQ AT_XVATTR xvap attr =
     andthen (ASSERT (va_mask xvap AND AT_XVATTR \<noteq> 0)) (\<lambda>_.
     andthen (ASSERT (xva_magic xvap = XVA_MAGIC)) (\<lambda>_.
     andthen (map_write (xva_reqattrmap xvap) (XVA_INDEX attr) (\<lambda>w. w AND NOT (XVA_ATTRBIT attr))) (\<lambda>m.
     Inr (xvap\<lparr>xva_reqattrmap := m\<rparr>))))"

definition XVA_SET_RTN :: "u32 \<Rightarrow> xvattr \<Rightarrow> u64 \<Rightarrow> stop + xvattr" where
  "XVA_SET_RTN AT_XVATTR xvap attr =
     andthen (ASSERT (va_mask xvap AND AT_XVATTR \<noteq> 0)) (\<lambda>_.
     andthen (ASSERT (xva_magic xvap = XVA_MAGIC)) (\<lambda>_.
     case XVA_RTNATTRMAP xvap of
       Map_null \<Rightarrow> Inl Undefined
     | Map_own \<Rightarrow>
         andthen (map_write (xva_rtnattrmap xvap) (XVA_INDEX attr) (\<lambda>w. w OR XVA_ATTRBIT attr)) (\<lambda>m.
         Inr (xvap\<lparr>xva_rtnattrmap := m\<rparr>))))"

definition map_read :: "u32 list \<Rightarrow> u64 \<Rightarrow> stop + u32" where
  "map_read m attr =
     (if unat (XVA_INDEX attr) < length m then Inr (m ! unat (XVA_INDEX attr) AND XVA_ATTRBIT attr)
      else Inl Undefined)"

definition XVA_ISSET_REQ :: "u32 \<Rightarrow> xvattr \<Rightarrow> u64 \<Rightarrow> stop + u32" where
  "XVA_ISSET_REQ AT_XVATTR xvap attr =
     (if va_mask xvap AND AT_XVATTR \<noteq> 0 \<and> xva_magic xvap = XVA_MAGIC \<and> xva_mapsize xvap > XVA_INDEX attr
      then map_read (xva_reqattrmap xvap) attr else Inr 0)"

definition XVA_ISSET_RTN :: "u32 \<Rightarrow> xvattr \<Rightarrow> u64 \<Rightarrow> stop + u32" where
  "XVA_ISSET_RTN AT_XVATTR xvap attr =
     (if va_mask xvap AND AT_XVATTR \<noteq> 0 \<and> xva_magic xvap = XVA_MAGIC \<and> xva_mapsize xvap > XVA_INDEX attr
      then (case XVA_RTNATTRMAP xvap of Map_null \<Rightarrow> Inl Undefined
            | Map_own \<Rightarrow> map_read (xva_rtnattrmap xvap) attr)
      else Inr 0)"

text \<open>All of the structure is zeroed first.\<close>

definition zero_xoptattr :: xoptattr where
  "zero_xoptattr =
     \<lparr>xoa_createtime = (0, 0), xoa_archive = 0, xoa_system = 0, xoa_readonly = 0, xoa_hidden = 0,
      xoa_nounlink = 0, xoa_immutable = 0, xoa_appendonly = 0, xoa_nodump = 0, xoa_opaque = 0,
      xoa_av_quarantined = 0, xoa_av_modified = 0, xoa_av_scanstamp = replicate AV_SCANSTAMP_SZ 0,
      xoa_reparse = 0, xoa_generation = 0, xoa_offline = 0, xoa_sparse = 0, xoa_projinherit = 0,
      xoa_projid = 0\<rparr>"

definition xva_init :: "u32 \<Rightarrow> xvattr" where
  "xva_init ATTR_XVATTR =
     \<lparr>va_mask = ATTR_XVATTR, xva_magic = XVA_MAGIC, xva_mapsize = XVA_MAPSIZE,
      xva_rtnattrmapp = Map_own, xva_reqattrmap = replicate (unat XVA_MAPSIZE) 0,
      xva_rtnattrmap = replicate (unat XVA_MAPSIZE) 0, xva_xoptattrs = zero_xoptattr\<rparr>"

definition xva_getxoptattr :: "u32 \<Rightarrow> xvattr \<Rightarrow> xoptattr option" where
  "xva_getxoptattr AT_XVATTR xvap =
     (if va_mask xvap AND AT_XVATTR \<noteq> 0 then Some (xva_xoptattrs xvap) else None)"

section \<open>Bitmaps as sets\<close>

text \<open>An attribute of the maps: a word of the map and one bit of it.\<close>

definition attr_ok :: "u64 \<Rightarrow> bool" where
  "attr_ok a \<longleftrightarrow> unat (XVA_INDEX a) < 3 \<and> (\<exists>n<32. XVA_ATTRBIT a = push_bit n 1)"

definition has_attr :: "u32 list \<Rightarrow> u64 \<Rightarrow> bool" where
  "has_attr m a \<longleftrightarrow> m ! unat (XVA_INDEX a) AND XVA_ATTRBIT a \<noteq> 0"

lemma mask_32: "XVA_MASK = mask 32"
  by (simp add: XVA_MASK_def mask_eq_exp_minus_1)

lemma bit_XVA_INDEX: "bit (XVA_INDEX a) n \<longleftrightarrow> n < 32 \<and> bit a (32 + n)"
  by (auto simp: XVA_INDEX_def XVA_SHFT_def mask_32 bit_simps)

lemma bit_XVA_ATTRBIT: "bit (XVA_ATTRBIT a) n \<longleftrightarrow> n < 32 \<and> bit a n"
  by (auto simp: XVA_ATTRBIT_def mask_32 bit_simps)

lemma attr_inject: "XVA_INDEX a = XVA_INDEX b \<Longrightarrow> XVA_ATTRBIT a = XVA_ATTRBIT b \<Longrightarrow> a = b"
proof (rule bit_word_eqI)
  fix n assume i: "XVA_INDEX a = XVA_INDEX b" and b: "XVA_ATTRBIT a = XVA_ATTRBIT b" and n: "n < LENGTH(64)"
  show "bit a n \<longleftrightarrow> bit b n"
  proof (cases "n < 32")
    case True
    then show ?thesis using b bit_XVA_ATTRBIT by metis
  next
    case False
    then obtain k where "n = 32 + k" using le_Suc_ex not_less by blast
    then show ?thesis using i n bit_XVA_INDEX [of a k] bit_XVA_INDEX [of b k] by auto
  qed
qed

lemma one_bit: "n < 32 \<Longrightarrow> w AND push_bit n (1 :: u32) \<noteq> 0 \<longleftrightarrow> bit w n"
  by (simp add: bit_iff_and_push_bit_not_eq_0)

lemma has_attr_nth:
  "XVA_ATTRBIT a = push_bit n 1 \<Longrightarrow> n < 32 \<Longrightarrow> has_attr m a \<longleftrightarrow> bit (m ! unat (XVA_INDEX a)) n"
  by (simp only: has_attr_def one_bit)

lemma has_attr_set:
  assumes "attr_ok a" and "attr_ok b" and "length m = 3"
  shows "has_attr (m[unat (XVA_INDEX a) := m ! unat (XVA_INDEX a) OR XVA_ATTRBIT a]) b \<longleftrightarrow> b = a \<or> has_attr m b"
    and "has_attr (m[unat (XVA_INDEX a) := m ! unat (XVA_INDEX a) AND NOT (XVA_ATTRBIT a)]) b
      \<longleftrightarrow> b \<noteq> a \<and> has_attr m b"
proof -
  obtain k n where k: "XVA_ATTRBIT a = push_bit k 1" "k < 32" and n: "XVA_ATTRBIT b = push_bit n 1" "n < 32"
    using assms(1,2) by (auto simp: attr_ok_def)
  have i: "unat (XVA_INDEX a) < 3" "unat (XVA_INDEX b) < 3" using assms(1,2) by (simp_all add: attr_ok_def)
  have same: "b = a \<longleftrightarrow> unat (XVA_INDEX b) = unat (XVA_INDEX a) \<and> n = k"
  proof
    assume "unat (XVA_INDEX b) = unat (XVA_INDEX a) \<and> n = k"
    then show "b = a" using attr_inject [of b a] k n by (simp add: word_unat_eq_iff)
  next
    assume ba: "b = a"
    then have "bit (push_bit k (1 :: u32)) n" using k(1) n by (simp add: bit_simps)
    then show "unat (XVA_INDEX b) = unat (XVA_INDEX a) \<and> n = k" using ba by (simp add: bit_simps)
  qed
  show "has_attr (m[unat (XVA_INDEX a) := m ! unat (XVA_INDEX a) OR XVA_ATTRBIT a]) b \<longleftrightarrow> b = a \<or> has_attr m b"
    using i assms(3) n(2) unfolding same has_attr_nth [OF n] k(1)
    by (auto simp: nth_list_update bit_simps)
  show "has_attr (m[unat (XVA_INDEX a) := m ! unat (XVA_INDEX a) AND NOT (XVA_ATTRBIT a)]) b
      \<longleftrightarrow> b \<noteq> a \<and> has_attr m b"
    using i assms(3) n(2) unfolding same has_attr_nth [OF n] k(1)
    by (auto simp: nth_list_update bit_simps)
qed

section \<open>The operations as operations on sets\<close>

datatype xva_op = Set_req u64 | Clr_req u64 | Set_rtn u64

primrec op_attr :: "xva_op \<Rightarrow> u64" where
  "op_attr (Set_req a) = a" | "op_attr (Clr_req a) = a" | "op_attr (Set_rtn a) = a"

primrec xva_step :: "u32 \<Rightarrow> xva_op \<Rightarrow> xvattr \<Rightarrow> stop + xvattr" where
  "xva_step AT (Set_req a) x = XVA_SET_REQ AT x a"
| "xva_step AT (Clr_req a) x = XVA_CLR_REQ AT x a"
| "xva_step AT (Set_rtn a) x = XVA_SET_RTN AT x a"

primrec xva_run :: "u32 \<Rightarrow> xva_op list \<Rightarrow> xvattr \<Rightarrow> stop + xvattr" where
  "xva_run AT [] x = Inr x"
| "xva_run AT (p # ps) x = andthen (xva_step AT p x) (xva_run AT ps)"

primrec set_step :: "xva_op \<Rightarrow> u64 set \<times> u64 set \<Rightarrow> u64 set \<times> u64 set" where
  "set_step (Set_req a) s = (insert a (fst s), snd s)"
| "set_step (Clr_req a) s = (fst s - {a}, snd s)"
| "set_step (Set_rtn a) s = (fst s, insert a (snd s))"

definition xva_wf :: "u32 \<Rightarrow> xvattr \<Rightarrow> bool" where
  "xva_wf AT x \<longleftrightarrow> va_mask x AND AT \<noteq> 0 \<and> xva_magic x = XVA_MAGIC \<and> xva_mapsize x = XVA_MAPSIZE
     \<and> xva_rtnattrmapp x = Map_own \<and> length (xva_reqattrmap x) = 3 \<and> length (xva_rtnattrmap x) = 3"

definition xva_rel :: "u32 \<Rightarrow> xvattr \<Rightarrow> u64 set \<times> u64 set \<Rightarrow> bool" where
  "xva_rel AT x s \<longleftrightarrow> xva_wf AT x
     \<and> (\<forall>a. attr_ok a \<longrightarrow> (has_attr (xva_reqattrmap x) a \<longleftrightarrow> a \<in> fst s))
     \<and> (\<forall>a. attr_ok a \<longrightarrow> (has_attr (xva_rtnattrmap x) a \<longleftrightarrow> a \<in> snd s))"

lemma attr_index: "attr_ok a \<Longrightarrow> unat (XVA_INDEX a) < 3"
  by (simp add: attr_ok_def)

lemma map_write_ok: "attr_ok a \<Longrightarrow> length m = 3 \<Longrightarrow>
    map_write m (XVA_INDEX a) f = Inr (m[unat (XVA_INDEX a) := f (m ! unat (XVA_INDEX a))])"
  by (simp add: map_write_def attr_index)

lemma map_read_ok: "attr_ok a \<Longrightarrow> length m = 3 \<Longrightarrow> \<exists>v. map_read m a = Inr v \<and> (v \<noteq> 0 \<longleftrightarrow> has_attr m a)"
  by (simp add: map_read_def has_attr_def attr_index)

lemmas xva_op_defs = XVA_SET_REQ_def XVA_CLR_REQ_def XVA_SET_RTN_def XVA_RTNATTRMAP_def

lemma step_refines:
  assumes "xva_rel AT x s" and "attr_ok (op_attr p)"
  shows "\<exists>x'. xva_step AT p x = Inr x' \<and> xva_rel AT x' (set_step p s) \<and> xva_xoptattrs x' = xva_xoptattrs x"
  using assms by (cases p) (auto simp: xva_rel_def xva_wf_def xva_op_defs map_write_ok has_attr_set)

lemma run_refines:
  "xva_rel AT x s \<Longrightarrow> list_all (\<lambda>p. attr_ok (op_attr p)) ps \<Longrightarrow>
    \<exists>x'. xva_run AT ps x = Inr x' \<and> xva_rel AT x' (fold set_step ps s) \<and> xva_xoptattrs x' = xva_xoptattrs x"
proof (induction ps arbitrary: x s)
  case (Cons p ps)
  then obtain y where y: "xva_step AT p x = Inr y" "xva_rel AT y (set_step p s)" "xva_xoptattrs y = xva_xoptattrs x"
    using step_refines [of AT x s p] by auto
  with Cons.IH [OF y(2)] Cons.prems(2) show ?case by simp
qed simp

lemma init_rel: "ATTR AND AT \<noteq> 0 \<Longrightarrow> xva_rel AT (xva_init ATTR) ({}, {})"
  by (auto simp: xva_rel_def xva_wf_def xva_init_def XVA_MAPSIZE_def has_attr_def attr_index)

lemma isset_ok:
  assumes "xva_rel AT x s" and a: "attr_ok a"
  shows "\<exists>v w. XVA_ISSET_REQ AT x a = Inr v \<and> XVA_ISSET_RTN AT x a = Inr w
    \<and> (v \<noteq> 0 \<longleftrightarrow> a \<in> fst s) \<and> (w \<noteq> 0 \<longleftrightarrow> a \<in> snd s)"
proof -
  have "XVA_INDEX a < XVA_MAPSIZE" using attr_index [OF a] by (simp add: word_less_nat_alt XVA_MAPSIZE_def)
  then show ?thesis
    using assms map_read_ok [OF a, of "xva_reqattrmap x"] map_read_ok [OF a, of "xva_rtnattrmap x"]
    by (auto simp: XVA_ISSET_REQ_def XVA_ISSET_RTN_def XVA_RTNATTRMAP_def xva_rel_def xva_wf_def)
qed

lemma attr_ok_bit: "n < 32 \<Longrightarrow> attr_ok (push_bit n 1)"
proof -
  assume n: "n < 32"
  then have "XVA_INDEX (push_bit n 1) = 0" "XVA_ATTRBIT (push_bit n 1) = push_bit n 1"
    by (auto intro!: bit_word_eqI simp: bit_XVA_INDEX bit_XVA_ATTRBIT bit_simps)
  then show ?thesis using n by (auto simp: attr_ok_def)
qed

lemma XAT_bits: "map snd XAT = map (\<lambda>n. push_bit n 1) [0..<19]"
  by code_simp

lemma XAT_ok: "list_all attr_ok (map snd XAT)"
  unfolding XAT_bits using attr_ok_bit by (simp add: list_all_iff del: push_bit_of_1)

section \<open>Properties\<close>

text \<open>C40: The bitmaps are two sets of attributes (the bit \<open>AT_XVATTR\<close> of the host being one that
  \<open>ATTR_XVATTR\<close> sets): after \<open>xva_init\<close> and any sequence of
  \<open>XVA_SET_REQ\<close>, \<open>XVA_CLR_REQ\<close> and \<open>XVA_SET_RTN\<close> on attributes of the first three words no
  assertion has failed, no access left an array, the attribute values are untouched, and the
  two tests answer for any attribute whether it is in the set the sequence leaves; every
  \<open>XAT_\<close> constant is such an attribute (one bit in one of three words). On a structure without the extension bit the tests
  answer no and every store fails its assertion.\<close>

theorem xvattr_refines:
  assumes mask: "ATTR_XVATTR AND AT_XVATTR \<noteq> 0" and ops: "list_all (\<lambda>p. attr_ok (op_attr p)) ops"
    and a: "attr_ok a" and plain: "va_mask y AND AT_XVATTR = 0"
  shows "(\<exists>x v w. xva_run AT_XVATTR ops (xva_init ATTR_XVATTR) = Inr x
      \<and> XVA_ISSET_REQ AT_XVATTR x a = Inr v \<and> XVA_ISSET_RTN AT_XVATTR x a = Inr w
      \<and> (v \<noteq> 0 \<longleftrightarrow> a \<in> fst (fold set_step ops ({}, {})))
      \<and> (w \<noteq> 0 \<longleftrightarrow> a \<in> snd (fold set_step ops ({}, {})))
      \<and> xva_getxoptattr AT_XVATTR x = Some zero_xoptattr)
    \<and> list_all attr_ok (map snd XAT)
    \<and> XVA_ISSET_REQ AT_XVATTR y a = Inr 0 \<and> XVA_ISSET_RTN AT_XVATTR y a = Inr 0
    \<and> xva_getxoptattr AT_XVATTR y = None \<and> xva_step AT_XVATTR p y = Inl Assert_failed"
proof -
  obtain x where x: "xva_run AT_XVATTR ops (xva_init ATTR_XVATTR) = Inr x"
    and rel: "xva_rel AT_XVATTR x (fold set_step ops ({}, {}))"
    and opt: "xva_xoptattrs x = xva_xoptattrs (xva_init ATTR_XVATTR)"
    using run_refines [OF init_rel [OF mask] ops] by auto
  have "xva_getxoptattr AT_XVATTR x = Some zero_xoptattr"
    using rel opt by (simp add: xva_getxoptattr_def xva_rel_def xva_wf_def xva_init_def)
  moreover have "xva_step AT_XVATTR p y = Inl Assert_failed"
    using plain by (cases p) (simp_all add: xva_op_defs ASSERT_def)
  ultimately show ?thesis
    using x isset_ok [OF rel a] XAT_ok plain
    by (auto simp: XVA_ISSET_REQ_def XVA_ISSET_RTN_def xva_getxoptattr_def)
qed

theorem xvattr_refines_witness:
  "(\<exists>x v w. xva_run 0x80000000 [Set_req 1, Set_req 16, Clr_req 1, Set_rtn 4] (xva_init 0x80000000) = Inr x
      \<and> XVA_ISSET_REQ 0x80000000 x 16 = Inr v \<and> XVA_ISSET_RTN 0x80000000 x 16 = Inr w
      \<and> v \<noteq> 0 \<and> w = 0)"
proof -
  have ok: "attr_ok 1" "attr_ok 16" "attr_ok 4"
    using attr_ok_bit [of 0] attr_ok_bit [of 4] attr_ok_bit [of 2] by (simp_all add: push_bit_eq_mult)
  have "va_mask (xva_init 1) AND 0x80000000 = 0" by (simp add: xva_init_def)
  then show ?thesis
    using xvattr_refines [of "0x80000000" "0x80000000" "[Set_req 1, Set_req 16, Clr_req 1, Set_rtn 4]" 16] ok
    by fastforce
qed

end
