(* ===== verification/Znode.thy ===== *)
theory Znode
  imports Bitfield
begin

text \<open>
  The words of a file node: its flags (\<open>sys/zfs_znode.h\<close>), directory entries, owners as a
  domain index and a relative id (\<open>sys/zfs_fuid.h\<close>), project ids (\<open>sys/zfs_project.h\<close>) and time
  stamps. The mask of the file type in a mode is the one of POSIX; a time stamp's two fields have
  the width of the host's \<open>time_t\<close> and \<open>long\<close>, a type variable here.
\<close>

section \<open>Flags\<close>

definition zfs_pflags :: "(string \<times> u64) list" where
  "zfs_pflags =
    [(''ZFS_READONLY'', 0x0000000100000000), (''ZFS_HIDDEN'', 0x0000000200000000),
     (''ZFS_SYSTEM'', 0x0000000400000000), (''ZFS_ARCHIVE'', 0x0000000800000000),
     (''ZFS_IMMUTABLE'', 0x0000001000000000), (''ZFS_NOUNLINK'', 0x0000002000000000),
     (''ZFS_APPENDONLY'', 0x0000004000000000), (''ZFS_NODUMP'', 0x0000008000000000),
     (''ZFS_OPAQUE'', 0x0000010000000000), (''ZFS_AV_QUARANTINED'', 0x0000020000000000),
     (''ZFS_AV_MODIFIED'', 0x0000040000000000), (''ZFS_REPARSE'', 0x0000080000000000),
     (''ZFS_OFFLINE'', 0x0000100000000000), (''ZFS_SPARSE'', 0x0000200000000000),
     (''ZFS_PROJINHERIT'', 0x0000400000000000), (''ZFS_PROJID'', 0x0000800000000000)]"

definition zfs_special_pflags :: "(string \<times> u64) list" where
  "zfs_special_pflags =
    [(''ZFS_XATTR'', 0x1), (''ZFS_INHERIT_ACE'', 0x2), (''ZFS_ACL_TRIVIAL'', 0x4),
     (''ZFS_ACL_OBJ_ACE'', 0x8), (''ZFS_ACL_PROTECTED'', 0x10), (''ZFS_ACL_DEFAULTED'', 0x20),
     (''ZFS_ACL_AUTO_INHERIT'', 0x40), (''ZFS_BONUS_SCANSTAMP'', 0x80),
     (''ZFS_NO_EXECS_DENIED'', 0x100)]"

definition ZFS_PROJINHERIT :: u64 where "ZFS_PROJINHERIT = 0x0000400000000000"

text \<open>\<open>sa_update\<close> stores the new flags with the node; it is code of the file system.\<close>

definition ZFS_ATTR_SET :: "(u64 \<Rightarrow> int) \<Rightarrow> u64 \<Rightarrow> bool \<Rightarrow> u64 \<Rightarrow> stop + u64" where
  "ZFS_ATTR_SET sa_update attr value pflags =
     (let pflags = (if value then pflags OR attr else pflags AND NOT attr)
      in andthen (ASSERT (0 = sa_update pflags)) (\<lambda>_. Inr pflags))"

definition ZFS_DEFAULT_PROJID :: u64 where "ZFS_DEFAULT_PROJID = 0"
definition ZFS_INVALID_PROJID :: u64 where "ZFS_INVALID_PROJID = - 1"

definition zpl_is_valid_projid :: "u32 \<Rightarrow> bool" where
  "zpl_is_valid_projid projid \<longleftrightarrow> (if (ucast ZFS_INVALID_PROJID :: u32) = projid then False else True)"

definition zfs_inherit_projid :: "u64 \<Rightarrow> u64 \<Rightarrow> u64" where
  "zfs_inherit_projid z_pflags z_projid =
     (if z_pflags AND ZFS_PROJINHERIT \<noteq> 0 then z_projid else ZFS_DEFAULT_PROJID)"

section \<open>Owners, modes and directory entries\<close>

definition MAXUID :: u64 where "MAXUID = 0xffffffff"
definition IS_EPHEMERAL :: "u64 \<Rightarrow> bool" where "IS_EPHEMERAL x \<longleftrightarrow> x > MAXUID"

definition FUID_INDEX :: "u64 \<Rightarrow> u64" where "FUID_INDEX x = drop_bit 32 x"
definition FUID_RID :: "u64 \<Rightarrow> u64" where "FUID_RID x = x AND 0xffffffff"
definition FUID_ENCODE :: "u64 \<Rightarrow> u64 \<Rightarrow> u64" where "FUID_ENCODE idx rid = push_bit 32 idx OR rid"

definition IFTODT :: "u32 \<Rightarrow> u32" where "IFTODT mode = drop_bit 12 (mode AND 0xf000)"

definition ZFS_DIRENT_TYPE :: "u64 \<Rightarrow> u64" where "ZFS_DIRENT_TYPE de = BF64_GET de 60 4"
definition ZFS_DIRENT_OBJ :: "u64 \<Rightarrow> u64" where "ZFS_DIRENT_OBJ de = BF64_GET de 0 48"

definition ZFS_OBJ_HASH :: "u64 \<Rightarrow> u64 \<Rightarrow> u64" where
  "ZFS_OBJ_HASH z_hold_size obj = obj AND (z_hold_size - 1)"

section \<open>Time stamps\<close>

definition ZFS_TIME_ENCODE :: "'a::len word \<times> 'a word \<Rightarrow> u64 \<times> u64" where
  "ZFS_TIME_ENCODE tp = (scast (fst tp), scast (snd tp))"

definition ZFS_TIME_DECODE :: "u64 \<times> u64 \<Rightarrow> 'a::len word \<times> 'a word" where
  "ZFS_TIME_DECODE stmp = (ucast (fst stmp), ucast (snd stmp))"

section \<open>Their laws\<close>

lemma attr_set_bit:
  "ZFS_ATTR_SET u (push_bit k 1) v p = Inr q \<Longrightarrow> n < 64 \<Longrightarrow>
    bit q n \<longleftrightarrow> (if n = k then v else bit p n)"
  by (auto simp: ZFS_ATTR_SET_def ASSERT_def Let_def bit_simps andthen_def split: if_splits)

lemma time_roundtrip:
  assumes "LENGTH('a::len) \<le> 64"
  shows "ZFS_TIME_DECODE (ZFS_TIME_ENCODE tp) = (tp :: 'a word \<times> 'a word)"
proof -
  have "ucast (scast w :: u64) = w" for w :: "'a word"
    using assms by (intro bit_word_eqI) (simp add: bit_simps)
  then show ?thesis by (simp add: ZFS_TIME_ENCODE_def ZFS_TIME_DECODE_def)
qed

lemma obj_hash_less: "k < 64 \<Longrightarrow> unat (ZFS_OBJ_HASH (2 ^ k) obj) < 2 ^ k"
  using unat_P2PHASE [of obj k] by (simp add: ZFS_OBJ_HASH_def P2PHASE_def)

text \<open>The nine special flags and the sixteen attributes are single bits and do not meet.\<close>

lemma pflag_bits:
  "map snd zfs_special_pflags = map (\<lambda>n. push_bit n 1) [0..<9]"
  "map snd zfs_pflags = map (\<lambda>n. push_bit n 1) [32..<48]"
  by code_simp+

lemma mask_low32: "(0xffffffff :: u64) = mask 32"
  by (simp add: mask_eq_exp_minus_1)

lemma bit_FUID_INDEX: "bit (FUID_INDEX x) n \<longleftrightarrow> bit x (32 + n)"
  by (simp add: FUID_INDEX_def bit_simps)

lemma bit_FUID_RID: "bit (FUID_RID x) n \<longleftrightarrow> n < 32 \<and> bit x n"
  by (auto simp: FUID_RID_def mask_low32 bit_simps)

lemma bit_FUID_ENCODE: "n < 64 \<Longrightarrow> bit (FUID_ENCODE i r) n \<longleftrightarrow> 32 \<le> n \<and> bit i (n - 32) \<or> bit r n"
  by (auto simp: FUID_ENCODE_def bit_simps)

lemma fuid_split: "FUID_ENCODE (FUID_INDEX x) (FUID_RID x) = x"
  by (rule bit_word_eqI) (auto simp: bit_FUID_ENCODE bit_FUID_INDEX bit_FUID_RID)

lemma ephemeral_index: "IS_EPHEMERAL x \<longleftrightarrow> FUID_INDEX x \<noteq> 0"
proof -
  have "IS_EPHEMERAL x \<longleftrightarrow> 2 ^ 32 \<le> unat x"
    by (auto simp: IS_EPHEMERAL_def MAXUID_def word_less_nat_alt)
  also have "\<dots> \<longleftrightarrow> unat (FUID_INDEX x) \<noteq> 0"
    unfolding FUID_INDEX_def unat_drop_bit_eq unfolding drop_bit_eq_div by (simp add: not_less div_eq_0_iff)
  finally show ?thesis by (simp add: unat_eq_zero)
qed

section \<open>Properties\<close>

text \<open>An owner is exactly a domain index and a relative id of 32 bits each: encoding the
  two gives a word from which both are read back, every word is the encoding of what is read
  from it, and it counts as ephemeral exactly when it has a domain. A relative id of more than
  32 bits does not stay in its half: its upper bits are added to those of the index.\<close>

theorem fuid_words:
  assumes idx: "idx < 2 ^ 32" and rid: "rid < 2 ^ 32"
  shows "FUID_INDEX (FUID_ENCODE idx rid) = idx \<and> FUID_RID (FUID_ENCODE idx rid) = rid
    \<and> (IS_EPHEMERAL (FUID_ENCODE idx rid) \<longleftrightarrow> idx \<noteq> 0)
    \<and> FUID_ENCODE (FUID_INDEX x) (FUID_RID x) = x
    \<and> FUID_INDEX (FUID_ENCODE idx x) = idx OR FUID_INDEX x"
proof -
  have i: "bit idx n \<Longrightarrow> n < 32" and r: "bit rid n \<Longrightarrow> n < 32" for n
    using bit_fits [of 32 idx n] bit_fits [of 32 rid n] idx rid by simp_all
  have index: "FUID_INDEX (FUID_ENCODE idx y) = idx OR FUID_INDEX y" for y
    by (rule bit_word_eqI)
      (auto simp: bit_FUID_INDEX bit_or_iff FUID_ENCODE_def bit_push_bit_iff dest: i bit_imp_le_length)
  have "FUID_INDEX rid = 0" by (rule bit_word_eqI) (auto simp: bit_FUID_INDEX dest: r)
  moreover have "FUID_RID (FUID_ENCODE idx rid) = rid"
    by (rule bit_word_eqI) (auto simp: bit_FUID_RID bit_FUID_ENCODE dest: r)
  ultimately show ?thesis using fuid_split [of x] by (simp add: ephemeral_index index)
qed

theorem fuid_words_witness:
  "FUID_INDEX (FUID_ENCODE 7 0x3e8) = 7 \<and> FUID_RID (FUID_ENCODE 7 0x3e8) = 0x3e8
    \<and> IS_EPHEMERAL (FUID_ENCODE 7 0x3e8) \<and> FUID_INDEX (FUID_ENCODE 7 0x8000003e8) = 15"
  using fuid_words [of 7 "0x3e8" "0x8000003e8"] by (simp add: FUID_INDEX_def drop_bit_eq_div)

end
