(* ===== verification/Py.thy ===== *)
theory Py
  imports Prelude
begin

text \<open>
  What the Python modules under \<open>src/zfs\<close> use of the language: exceptions as the left side of
  a sum, indexing that raises past the end, slices that clamp (and count negative positions
  from the end), and \<open>struct.unpack\<close>, which wants exactly as many bytes as its format. Python's
  integers are unbounded: values read from a buffer are \<^typ>\<open>nat\<close>. Indexing is used with
  positions that are never negative, so its argument is a \<^typ>\<open>nat\<close> too.
\<close>

datatype py_exc = Index_error | Struct_error | Key_error | Type_error | Value_error
  | Unicode_error | Attribute_error | Not_implemented | Bad_header | Zero_division_error
  | Os_error | Name_error | Recursion_error

type_synonym 'a py = "py_exc + 'a"

named_theorems py_simps "evaluation of the Python primitives"

section \<open>Indexing and slicing\<close>

definition index :: "'a list \<Rightarrow> nat \<Rightarrow> 'a py" where
  "index xs i = (if i < length xs then Inr (xs ! i) else Inl Index_error)"

definition slice :: "'a list \<Rightarrow> nat \<Rightarrow> nat \<Rightarrow> 'a list" where
  "slice xs a b = take (b - a) (drop a xs)"

definition slice_int :: "'a list \<Rightarrow> int \<Rightarrow> int \<Rightarrow> 'a list" where
  "slice_int xs a b =
     (let n = int (length xs); pos = (\<lambda>i. nat (if i < 0 then max 0 (i + n) else min i n))
      in slice xs (pos a) (pos b))"

lemma index_append [py_simps]: "index (xs @ ys) (length xs + i) = index ys i"
  by (simp add: index_def nth_append)

lemma index_ok: "i < length xs \<Longrightarrow> index xs i = Inr (xs ! i)"
  by (simp add: index_def)

lemma index_drop: "drop k xs = y # ys \<Longrightarrow> index xs k = Inr y"
  by (metis drop_eq_Nil index_ok list.distinct(1) not_less nth_via_drop)

lemma slice_drop: "drop k xs = ys @ zs \<Longrightarrow> slice xs k (k + length ys) = ys"
  by (simp add: slice_def)

lemma length_slice: "length (slice xs a b) = min (b - a) (length xs - a)"
  by (simp add: slice_def min.commute)

lemma slice_slice: "a + d \<le> b \<Longrightarrow> slice (slice xs a b) c d = slice xs (a + c) (a + d)"
  by (simp add: slice_def drop_take min_def add.commute)

lemma slice_all [simp]: "slice xs 0 (length xs) = xs"
  by (simp add: slice_def)

lemma slice_one: "i < length xs \<Longrightarrow> slice xs i (Suc i) = [xs ! i]"
  by (simp add: slice_def take_Suc_conv_app_nth hd_drop_conv_nth take_Suc Cons_nth_drop_Suc [symmetric])

section \<open>Unpacking\<close>

fun le_value :: "bytes \<Rightarrow> nat" where
  "le_value [] = 0"
| "le_value (b # bs) = unat b + 256 * le_value bs"

definition be_value :: "bytes \<Rightarrow> nat" where
  "be_value bs = le_value (rev bs)"

text \<open>\<open>struct.unpack\<close> of one unsigned integer of \<open>n\<close> bytes.\<close>

definition unpack_le :: "nat \<Rightarrow> bytes \<Rightarrow> nat py" where
  "unpack_le n bs = (if length bs = n then Inr (le_value bs) else Inl Struct_error)"

definition unpack_be :: "nat \<Rightarrow> bytes \<Rightarrow> nat py" where
  "unpack_be n bs = (if length bs = n then Inr (be_value bs) else Inl Struct_error)"

text \<open>\<open>struct.unpack("=nQ")\<close> on a little-endian machine.\<close>

definition unpack_words :: "nat \<Rightarrow> bytes \<Rightarrow> nat list py" where
  "unpack_words n bs =
     (if length bs = 8 * n then Inr (map (\<lambda>i. le_value (slice bs (8 * i) (8 * i + 8))) [0..<n])
      else Inl Struct_error)"

lemma le_value_less: "le_value bs < 256 ^ length bs"
proof (induction bs)
  case (Cons b bs)
  have "unat b + 256 * le_value bs < 256 * (le_value bs + 1)" using unat_u8_less [of b] by simp
  also have "\<dots> \<le> 256 * 256 ^ length bs" using Cons by (intro mult_le_mono2) simp
  finally show ?case by simp
qed simp

fun le_bytes :: "nat \<Rightarrow> nat \<Rightarrow> bytes" where
  "le_bytes 0 v = []"
| "le_bytes (Suc n) v = byte_of (v mod 256) # le_bytes n (v div 256)"

definition be_bytes :: "nat \<Rightarrow> nat \<Rightarrow> bytes" where
  "be_bytes n v = rev (le_bytes n v)"

lemma length_le_bytes [simp]: "length (le_bytes n v) = n"
  by (induction n arbitrary: v) simp_all

lemma length_be_bytes [simp]: "length (be_bytes n v) = n"
  by (simp add: be_bytes_def)

lemma le_value_bytes: "v < 256 ^ n \<Longrightarrow> le_value (le_bytes n v) = v"
proof (induction n arbitrary: v)
  case (Suc n)
  then have "v div 256 < 256 ^ n" by (simp add: less_mult_imp_div_less mult.commute)
  then show ?case using Suc.IH [of "v div 256"] by simp
qed simp

lemma unpack_le_bytes [py_simps]: "v < 256 ^ n \<Longrightarrow> unpack_le n (le_bytes n v) = Inr v"
  by (simp add: unpack_le_def le_value_bytes)

lemma unpack_be_bytes [py_simps]: "v < 256 ^ n \<Longrightarrow> unpack_be n (be_bytes n v) = Inr v"
  by (simp add: unpack_be_def be_value_def be_bytes_def le_value_bytes)

lemma le_bytes_value: "length bs = n \<Longrightarrow> le_bytes n (le_value bs) = bs"
  by (induction bs arbitrary: n) auto

text \<open>\<open>struct.pack\<close> of one unsigned integer of \<open>n\<close> bytes, which must fit.\<close>

definition pack_le :: "nat \<Rightarrow> nat \<Rightarrow> bytes py" where
  "pack_le n v = (if v < 256 ^ n then Inr (le_bytes n v) else Inl Struct_error)"

lemma pack_le_ok [py_simps]: "v < 256 ^ n \<Longrightarrow> pack_le n v = Inr (le_bytes n v)"
  by (simp add: pack_le_def)

lemma take_le_bytes [simp]: "take n (le_bytes n v @ bs) = le_bytes n v"
  by simp

lemma drop_le_bytes [simp]: "drop n (le_bytes n v @ bs) = bs"
  by simp

end
