(* ===== verification/Block_Proxy.thy ===== *)
theory Block_Proxy
  imports Py
begin

text \<open>
  How the rescue scripts reach the disks: the block server of \<open>src/block_server/server.py\<close> and
  the client \<open>BlockProxy\<close> of \<open>src/block_proxy/proxy.py\<close>, over a connection or on local files.
  A request and an answer are the bytes \<open>struct.pack\<close> makes of them. The connection delivers
  the bytes the server sent, in order; how many of them one \<open>recv_into\<close> returns is the
  parameter \<open>rc\<close>, at least one and at most what was asked for. The disks are outside of the
  program: \<open>files p\<close> is what the file \<open>p\<close> holds, \<^const>\<open>None\<close> when it cannot be opened. Paths
  are the bytes of their UTF-8 form. A client that waits for bytes that never come does not
  return, which is \<^const>\<open>None\<close> here. A connection that is there is assumed to take what is sent:
  \<open>sendall\<close> raises nothing, not even when the server's handler has died and closed its end (the
  system may accept those bytes, or raise \<open>BrokenPipeError\<close> or \<open>ConnectionResetError\<close>; the second
  is not modelled).
\<close>

type_synonym path = bytes
type_synonym block = "path \<times> nat \<times> nat"
type_synonym 'a io = "'a py option"

definition io_bind :: "'a io \<Rightarrow> ('a \<Rightarrow> 'b io) \<Rightarrow> 'b io" where
  "io_bind r f = (case r of None \<Rightarrow> None | Some (Inl e) \<Rightarrow> Some (Inl e) | Some (Inr x) \<Rightarrow> f x)"

lemma io_bind_simps [simp]:
  "io_bind None f = None" "io_bind (Some (Inl e)) f = Some (Inl e)" "io_bind (Some (Inr x)) f = f x"
  by (simp_all add: io_bind_def)

lemma io_bind_cong [fundef_cong]:
  "r = r' \<Longrightarrow> (\<And>x. r' = Some (Inr x) \<Longrightarrow> f x = f' x) \<Longrightarrow> io_bind r f = io_bind r' f'"
  by (auto simp: io_bind_def split: option.splits sum.splits)

section \<open>The server\<close>

definition CHUNKSIZE :: nat where "CHUNKSIZE = 4096 * 64"

lemma CHUNKSIZE_pos [simp]: "0 < CHUNKSIZE" "CHUNKSIZE \<noteq> 0"
  by (simp_all add: CHUNKSIZE_def)

text \<open>\<open>struct.pack('=BQQ', a, offset, l)\<close>, with the codes \<open>n\<close>, \<open>e\<close> and \<open>l\<close>.\<close>

definition pack_answer :: "u8 \<Rightarrow> nat \<Rightarrow> nat \<Rightarrow> bytes py" where
  "pack_answer a ofs l = andthen (pack_le 8 ofs) (\<lambda>x. andthen (pack_le 8 l) (\<lambda>y. Inr (a # x @ y)))"

text \<open>The loop of \<open>_do_read\<close>: what it sends, the value of \<open>offset\<close> it ends with, and whether it
  ended without an exception. Both \<open>i\<close> and \<open>offset\<close> advance, and the position read is their
  sum. A position of \<open>2 ^ 63\<close> or more makes \<open>seek\<close> raise.\<close>

function server_chunks :: "bytes \<Rightarrow> nat \<Rightarrow> nat \<Rightarrow> nat \<Rightarrow> bytes \<times> nat \<times> bool" where
  "server_chunks f i ofs count =
     (if i < count then
        let l = min (count - i) CHUNKSIZE in
        if ofs + i \<ge> 2 ^ 63 then ([], ofs, False)
        else let data = slice f (ofs + i) (ofs + i + l) in
        case pack_answer 110 ofs (length data) of
          Inl e \<Rightarrow> ([], ofs, False)
        | Inr hdr \<Rightarrow> (case server_chunks f (i + l) (ofs + l) count of
            (out, ofs', ok) \<Rightarrow> (hdr @ data @ out, ofs', ok))
      else ([], ofs, True))"
  by pat_completeness auto
termination
  by (relation "measure (\<lambda>(f, i, ofs, count). count - i)") (auto simp: CHUNKSIZE_def)

declare server_chunks.simps [simp del]

text \<open>What reaches the client of a sequence of \<open>sendall\<close>, and whether an exception ended it.\<close>

fun send_all :: "bytes py list \<Rightarrow> bytes \<times> bool" where
  "send_all [] = ([], False)"
| "send_all (Inl e # xs) = ([], True)"
| "send_all (Inr b # xs) = (case send_all xs of (out, crashed) \<Rightarrow> (b @ out, crashed))"

text \<open>\<open>_do_read\<close>. When the file cannot be opened, the last \<open>print\<close> (\<open>verbose\<close> is true) reads
  the variable \<open>i\<close> before it has a value.\<close>

definition do_read ::
    "(path \<Rightarrow> bytes option) \<Rightarrow> (path \<rightharpoonup> path) \<Rightarrow> path \<Rightarrow> nat \<Rightarrow> nat \<Rightarrow> bytes \<times> bool" where
  "do_read files trans_table path ofs count =
     (case files (case trans_table path of Some p \<Rightarrow> p | None \<Rightarrow> path) of
        None \<Rightarrow> send_all [pack_answer 101 ofs 0, pack_answer 108 ofs count, Inl Name_error]
      | Some f \<Rightarrow> (case server_chunks f 0 ofs count of (out, ofs', ok) \<Rightarrow>
          send_all (Inr out # (if ok then [] else [pack_answer 101 ofs' 0]) @ [pack_answer 108 ofs' count])))"

text \<open>One round of \<open>handle_read_blockv\<close>, on the bytes of one request.\<close>

definition server_request ::
    "(path \<Rightarrow> bytes option) \<Rightarrow> (path \<rightharpoonup> path) \<Rightarrow> bytes \<Rightarrow> bytes \<times> bool" where
  "server_request files trans_table cmd =
     do_read files trans_table (slice cmd 17 (17 + unat (cmd ! 16)))
       (le_value (slice cmd 0 8)) (le_value (slice cmd 8 16))"

section \<open>The client\<close>

text \<open>\<open>struct.pack('=QQB', offset, count, len(enc_name)) + enc_name\<close>\<close>

definition pack_request :: "path \<Rightarrow> nat \<Rightarrow> nat \<Rightarrow> bytes py" where
  "pack_request path ofs count =
     andthen (pack_le 8 ofs) (\<lambda>x. andthen (pack_le 8 count) (\<lambda>y.
     andthen (pack_le 1 (length path)) (\<lambda>z. Inr (x @ y @ z @ path))))"

text \<open>The inner loop: \<open>recv_into(view[pos:], l)\<close> until \<open>l\<close> bytes are there. It raises when the
  view is shorter than what is asked for.\<close>

function recv_loop :: "(bytes \<Rightarrow> nat \<Rightarrow> nat) \<Rightarrow> bytes \<Rightarrow> int \<Rightarrow> nat \<Rightarrow> bytes \<Rightarrow> (bytes \<times> bytes) io" where
  "recv_loop rc buf pos l stream =
     (if l = 0 then Some (Inr (buf, stream))
      else if length (slice_int buf pos (int (length buf))) < l then Some (Inl Value_error)
      else if stream = [] then None
      else let n = min (length stream) (max 1 (min l (rc stream l)));
               p = length buf - length (slice_int buf pos (int (length buf)))
           in recv_loop rc (take p buf @ take n stream @ drop (p + n) buf) (pos + int n) (l - n) (drop n stream))"
  by pat_completeness auto
termination
  by (relation "measure (\<lambda>(rc, buf, pos, l, stream). l)") (auto simp: Let_def)

declare recv_loop.simps [simp del]

lemma recv_loop_rest: "recv_loop rc buf pos l stream = Some (Inr (buf', stream')) \<Longrightarrow> length stream' \<le> length stream"
proof (induction rc buf pos l stream rule: recv_loop.induct)
  case (1 rc buf pos l stream)
  let ?n = "min (length stream) (max 1 (min l (rc stream l)))"
  show ?case
  proof (cases "l = 0 \<or> length (slice_int buf pos (int (length buf))) < l \<or> stream = []")
    case True
    then show ?thesis using 1(2) by (subst (asm) recv_loop.simps) (simp split: if_splits)
  next
    case False
    then have "length stream' \<le> length (drop ?n stream)"
      using 1(2) by (intro 1(1)) (simp_all add: recv_loop.simps [of rc buf pos l] Let_def)
    then show ?thesis by simp
  qed
qed

text \<open>The outer loop of \<open>_read_network_buf\<close>, over the answers, from the bytes received and not
  yet read. It returns the buffer and what is left of the bytes.\<close>

function net_answers ::
    "(bytes \<Rightarrow> nat \<Rightarrow> nat) \<Rightarrow> bytes \<Rightarrow> nat \<Rightarrow> nat \<Rightarrow> int \<Rightarrow> bytes \<Rightarrow> (bytes \<times> bytes) io" where
  "net_answers rc buf boff ofs count stream =
     (if length stream < 17 then None
      else let a = stream ! 0; off = le_value (slice stream 1 9); l = le_value (slice stream 9 17);
               rest = drop 17 stream
      in if a = 110 then
           if count \<le> 0 then Some (Inr (buf, rest))
           else io_bind (recv_loop rc buf (int boff + (int off - int ofs)) l rest) (\<lambda>(buf', rest').
                net_answers rc buf' boff ofs (count - int l) rest')
         else Some (Inr (buf, rest)))"
  by pat_completeness auto
termination
  by (relation "measure (\<lambda>(rc, buf, boff, ofs, count, stream). length stream)")
    (auto dest!: recv_loop_rest)

declare net_answers.simps [simp del]

text \<open>A connection: the bytes the server sent that were not yet read, and whether its handler
  still runs.\<close>

record conn =
  inbox :: bytes
  alive :: bool

definition net_block ::
    "(path \<Rightarrow> bytes option) \<Rightarrow> (path \<rightharpoonup> path) \<Rightarrow> (bytes \<Rightarrow> nat \<Rightarrow> nat) \<Rightarrow> bytes \<Rightarrow> nat \<Rightarrow> block \<Rightarrow> conn
      \<Rightarrow> (bytes \<times> conn) io" where
  "net_block files trans_table rc buf boff blk c =
     (case blk of (path, ofs, count) \<Rightarrow>
      io_bind (Some (pack_request path ofs count)) (\<lambda>request.
      let (out, crashed) = (if alive c then server_request files trans_table request else ([], True))
      in io_bind (net_answers rc buf boff ofs (int count) (inbox c @ out)) (\<lambda>(buf', rest).
         Some (Inr (buf', \<lparr>inbox = rest, alive = \<not> crashed\<rparr>)))))"

fun net_blocks ::
    "(path \<Rightarrow> bytes option) \<Rightarrow> (path \<rightharpoonup> path) \<Rightarrow> (bytes \<Rightarrow> nat \<Rightarrow> nat) \<Rightarrow> bytes \<Rightarrow> nat \<Rightarrow> block list \<Rightarrow> conn
      \<Rightarrow> bytes io" where
  "net_blocks files trans_table rc buf boff [] c = Some (Inr buf)"
| "net_blocks files trans_table rc buf boff (blk # blks) c =
     io_bind (net_block files trans_table rc buf boff blk c) (\<lambda>(buf', c').
       net_blocks files trans_table rc buf' (boff + snd (snd blk)) blks c')"

text \<open>\<open>_readv_network\<close>: the number of requests is sent as one byte.\<close>

definition readv_network ::
    "(path \<Rightarrow> bytes option) \<Rightarrow> (path \<rightharpoonup> path) \<Rightarrow> (bytes \<Rightarrow> nat \<Rightarrow> nat) \<Rightarrow> block list \<Rightarrow> bytes io" where
  "readv_network files trans_table rc blks =
     io_bind (Some (pack_le 1 (length blks))) (\<lambda>n.
     net_blocks files trans_table rc (replicate (\<Sum>blk \<leftarrow> blks. snd (snd blk)) 0) 0 blks
       \<lparr>inbox = [], alive = True\<rparr>)"

text \<open>\<open>_read_network\<close>\<close>

definition read_network ::
    "(path \<Rightarrow> bytes option) \<Rightarrow> (path \<rightharpoonup> path) \<Rightarrow> (bytes \<Rightarrow> nat \<Rightarrow> nat) \<Rightarrow> block \<Rightarrow> bytes io" where
  "read_network files trans_table rc blk =
     io_bind (net_block files trans_table rc (replicate (snd (snd blk)) 0) 0 blk \<lparr>inbox = [], alive = True\<rparr>)
       (\<lambda>(buf, c). Some (Inr buf))"

section \<open>Framing\<close>

definition answer :: "u8 \<Rightarrow> nat \<Rightarrow> nat \<Rightarrow> bytes" where
  "answer a ofs l = a # le_bytes 8 ofs @ le_bytes 8 l"

lemma pack_answer_ok: "ofs < 2 ^ 64 \<Longrightarrow> l < 2 ^ 64 \<Longrightarrow> pack_answer a ofs l = Inr (answer a ofs l)"
  by (simp add: pack_answer_def answer_def pack_le_def)

lemma net_answers_parse:
  assumes "ofs' < 2 ^ 64" and "l < 2 ^ 64"
  shows "net_answers rc buf boff ofs count (answer a ofs' l @ rest) =
    (if a = 110 then
       if count \<le> 0 then Some (Inr (buf, rest))
       else io_bind (recv_loop rc buf (int boff + (int ofs' - int ofs)) l rest) (\<lambda>(buf', rest').
            net_answers rc buf' boff ofs (count - int l) rest')
     else Some (Inr (buf, rest)))"
proof -
  let ?s = "answer a ofs' l @ rest"
  have "slice ?s 1 9 = le_bytes 8 ofs'" and "slice ?s 9 17 = le_bytes 8 l" and "drop 17 ?s = rest"
    by (simp_all add: answer_def slice_def)
  moreover have "\<not> length ?s < 17" and "?s ! 0 = a" by (simp_all add: answer_def)
  moreover have "le_value (le_bytes 8 ofs') = ofs'" and "le_value (le_bytes 8 l) = l"
    using assms by (simp_all add: le_value_bytes)
  ultimately show ?thesis by (simp only: net_answers.simps [of rc buf boff ofs count ?s] Let_def if_False)
qed

lemma slice_int_end: "k \<le> length xs \<Longrightarrow> slice_int xs (int k) (int (length xs)) = drop k xs"
  by (simp add: slice_int_def slice_def Let_def min_def)

text \<open>However the bytes come in, they end up where they belong.\<close>

lemma recv_loop_all:
  "length mid = length data \<Longrightarrow>
   recv_loop rc (pre @ mid @ post) (int (length pre)) (length data) (data @ rest) = Some (Inr (pre @ data @ post, rest))"
proof (induction "length data" arbitrary: data pre mid rule: less_induct)
  case less
  show ?case
  proof (cases "data = []")
    case True
    then show ?thesis using less.prems by (simp add: recv_loop.simps)
  next
    case False
    let ?l = "length data" and ?buf = "pre @ mid @ post" and ?s = "data @ rest"
    define n where "n = min (length ?s) (max 1 (min ?l (rc ?s ?l)))"
    have n: "0 < n" "n \<le> ?l" using False by (auto simp: n_def Suc_le_eq)
    have view: "slice_int ?buf (int (length pre)) (int (length ?buf)) = mid @ post"
      by (subst slice_int_end) simp_all
    have "recv_loop rc ?buf (int (length pre)) ?l ?s
        = recv_loop rc (take (length pre) ?buf @ take n ?s @ drop (length pre + n) ?buf)
            (int (length pre) + int n) (?l - n) (drop n ?s)"
      unfolding recv_loop.simps [of rc ?buf "int (length pre)" ?l ?s] view Let_def n_def [symmetric]
      using False less.prems by simp
    also have "\<dots> = recv_loop rc ((pre @ take n data) @ drop n mid @ post)
        (int (length (pre @ take n data))) (length (drop n data)) (drop n data @ rest)"
      using n less.prems by simp
    also have "\<dots> = Some (Inr ((pre @ take n data) @ drop n data @ post, rest))"
      using n less.prems by (intro less.hyps) simp_all
    finally show ?thesis by simp
  qed
qed

section \<open>What one request delivers\<close>

text \<open>The bytes the answers put into the buffer, with the zeros that stay where a read of the
  file was short.\<close>

function served :: "bytes \<Rightarrow> nat \<Rightarrow> nat \<Rightarrow> nat \<Rightarrow> bytes" where
  "served f i ofs count =
     (if i < count then
        let l = min (count - i) CHUNKSIZE; data = slice f (ofs + i) (ofs + i + l)
        in data @ replicate (l - length data) 0 @ served f (i + l) (ofs + l) count
      else [])"
  by pat_completeness auto
termination
  by (relation "measure (\<lambda>(f, i, ofs, count). count - i)") (auto simp: CHUNKSIZE_def)

declare served.simps [simp del]

lemma length_slice_le: "length (slice xs a (a + l)) \<le> l"
  by (simp add: slice_def)

lemma length_served: "length (served f i ofs count) = count - i"
proof (induction f i ofs count rule: served.induct)
  case (1 f i ofs count)
  then show ?case using length_slice_le [of f "ofs + i" "min (count - i) CHUNKSIZE"]
    by (subst served.simps) (auto simp: Let_def)
qed

lemma server_chunks_ok:
  "i \<le> count \<Longrightarrow> ofs + i + 2 * (count - i) < 2 ^ 63 \<Longrightarrow>
   \<exists>out. server_chunks f i ofs count = (out, ofs + (count - i), True) \<and>
     (\<forall>rc pre post boff o1 c rest. length pre = boff + i \<longrightarrow> ofs = o1 + i \<longrightarrow> int (count - i) \<le> c \<longrightarrow>
        (\<exists>c'. net_answers rc (pre @ replicate (count - i) 0 @ post) boff o1 c (out @ rest)
           = net_answers rc (pre @ served f i ofs count @ post) boff o1 c' rest))"
proof (induction f i ofs count rule: server_chunks.induct)
  case (1 f i ofs count)
  show ?case
  proof (cases "i < count")
    case False
    then show ?thesis using 1(2) by (auto simp: server_chunks.simps served.simps)
  next
    case True
    define l where "l = min (count - i) CHUNKSIZE"
    define data where "data = slice f (ofs + i) (ofs + i + l)"
    let ?hdr = "answer 110 ofs (length data)"
    have l: "0 < l" "l \<le> count - i" using True by (simp_all add: l_def CHUNKSIZE_def)
    have d: "length data \<le> l" unfolding data_def by (rule length_slice_le)
    have hdr: "pack_answer 110 ofs (length data) = Inr ?hdr"
      using 1(3) l d by (intro pack_answer_ok) simp_all
    have pos: "\<not> 2 ^ 63 \<le> ofs + i" using 1(3) by simp
    have "\<exists>out. server_chunks f (i + l) (ofs + l) count = (out, ofs + l + (count - (i + l)), True) \<and>
     (\<forall>rc pre post boff o1 c rest. length pre = boff + (i + l) \<longrightarrow> ofs + l = o1 + (i + l)
        \<longrightarrow> int (count - (i + l)) \<le> c \<longrightarrow>
        (\<exists>c'. net_answers rc (pre @ replicate (count - (i + l)) 0 @ post) boff o1 c (out @ rest)
           = net_answers rc (pre @ served f (i + l) (ofs + l) count @ post) boff o1 c' rest))"
      using 1(2,3) l pos hdr True
      by (intro 1(1) [where x = l and xa = data]) (simp_all add: l_def data_def)
    then obtain out where out: "server_chunks f (i + l) (ofs + l) count = (out, ofs + (count - i), True)"
      and cl: "\<And>rc pre post boff o1 c rest. length pre = boff + (i + l) \<Longrightarrow> ofs + l = o1 + (i + l) \<Longrightarrow>
        int (count - (i + l)) \<le> c \<Longrightarrow>
        \<exists>c'. net_answers rc (pre @ replicate (count - (i + l)) 0 @ post) boff o1 c (out @ rest)
           = net_answers rc (pre @ served f (i + l) (ofs + l) count @ post) boff o1 c' rest"
      using l by auto
    have "server_chunks f i ofs count = (?hdr @ data @ out, ofs + (count - i), True)"
      using True pos hdr out
      by (simp add: server_chunks.simps [of f i] Let_def l_def [symmetric] data_def [symmetric])
    moreover have "\<exists>c'. net_answers rc (pre @ replicate (count - i) 0 @ post) boff o1 c ((?hdr @ data @ out) @ rest)
           = net_answers rc (pre @ served f i ofs count @ post) boff o1 c' rest"
      if pre: "length pre = boff + i" and o1: "ofs = o1 + i" and c: "int (count - i) \<le> c"
      for rc pre post boff o1 c rest
    proof -
      let ?z = "replicate (l - length data) 0" and ?tl = "replicate (count - (i + l)) (0 :: u8)"
      have z: "replicate (count - i) (0 :: u8) = replicate (length data) 0 @ ?z @ ?tl"
        using l d by (simp add: replicate_add [symmetric])
      have "int boff + (int ofs - int o1) = int (length pre)" using pre o1 by simp
      then have "net_answers rc (pre @ replicate (count - i) 0 @ post) boff o1 c (?hdr @ data @ out @ rest)
          = net_answers rc (pre @ data @ ?z @ ?tl @ post) boff o1 (c - int (length data)) (out @ rest)"
        using True c 1(3) l d recv_loop_all [of "replicate (length data) 0" data rc pre "?z @ ?tl @ post" "out @ rest"]
        by (simp add: net_answers_parse z)
      moreover obtain c' where "net_answers rc ((pre @ data @ ?z) @ ?tl @ post) boff o1 (c - int (length data)) (out @ rest)
           = net_answers rc ((pre @ data @ ?z) @ served f (i + l) (ofs + l) count @ post) boff o1 c' rest"
        using cl [of "pre @ data @ ?z" boff o1 "c - int (length data)" rc post rest] pre o1 c l d by force
      moreover have "served f i ofs count = data @ ?z @ served f (i + l) (ofs + l) count"
        using True by (simp add: served.simps [of f i] Let_def l_def [symmetric] data_def [symmetric])
      ultimately show ?thesis by auto
    qed
    ultimately show ?thesis by blast
  qed
qed

text \<open>The bytes of a request that is served: byte \<open>j\<close> is at \<open>offset + j\<close> only in the first chunk.\<close>

lemma served_nth:
  "CHUNKSIZE dvd i \<Longrightarrow> i + j < count \<Longrightarrow> served f i ofs count ! j =
    (let pos = ofs + i + j div CHUNKSIZE * CHUNKSIZE + j in if pos < length f then f ! pos else 0)"
proof (induction f i ofs count arbitrary: j rule: served.induct)
  case (1 f i ofs count)
  define l where "l = min (count - i) CHUNKSIZE"
  define data where "data = slice f (ofs + i) (ofs + i + l)"
  have d: "length data = min l (length f - (ofs + i))" by (simp add: data_def length_slice)
  have s: "served f i ofs count = (data @ replicate (l - length data) 0) @ served f (i + l) (ofs + l) count"
    using 1(3) by (simp add: served.simps [of f i] Let_def l_def [symmetric] data_def [symmetric])
  have len: "length (data @ replicate (l - length data) 0) = l" using d by simp
  show ?case
  proof (cases "j < l")
    case True
    then have "j div CHUNKSIZE = 0" by (simp add: l_def)
    then show ?thesis using True d len unfolding s
      by (auto simp: nth_append data_def slice_def Let_def)
  next
    case False
    then have c: "l = CHUNKSIZE" using 1(3) by (auto simp: l_def)
    then obtain k where k: "j = CHUNKSIZE + k" using False le_Suc_ex [of CHUNKSIZE j] by auto
    have "j div CHUNKSIZE = Suc ((j - CHUNKSIZE) div CHUNKSIZE)" using False c by (simp add: le_div_geq)
    moreover have "served f (i + l) (ofs + l) count ! (j - l) =
      (let pos = ofs + l + (i + l) + (j - l) div CHUNKSIZE * CHUNKSIZE + (j - l) in if pos < length f then f ! pos else 0)"
      using False 1(2,3) c by (intro 1(1) [where x = l and xa = data]) (auto simp: l_def data_def)
    moreover have "((data @ replicate (l - length data) 0) @ xs) ! j = xs ! (j - l)" for xs
      using False len by (simp only: nth_append if_False)
    ultimately show ?thesis using c k unfolding s by (simp only:) (simp add: ac_simps)
  qed
qed

lemma served_short: "count \<le> CHUNKSIZE \<Longrightarrow> ofs + count \<le> length f \<Longrightarrow> served f 0 ofs count = slice f ofs (ofs + count)"
  by (rule nth_equalityI) (auto simp: length_served length_slice served_nth Let_def slice_def div_if)

section \<open>Several requests on one connection\<close>

definition the_file :: "(path \<Rightarrow> bytes option) \<Rightarrow> (path \<rightharpoonup> path) \<Rightarrow> path \<Rightarrow> bytes option" where
  "the_file files trans_table path = files (case trans_table path of Some p \<Rightarrow> p | None \<Rightarrow> path)"

lemma server_request_packed:
  assumes "pack_request path ofs count = Inr cmd"
  shows "server_request files trans_table cmd = do_read files trans_table path ofs count"
proof -
  have b: "ofs < 2 ^ 64" "count < 2 ^ 64" "length path < 256"
    and cmd: "cmd = le_bytes 8 ofs @ le_bytes 8 count @ le_bytes 1 (length path) @ path"
    using assms by (auto simp: pack_request_def pack_le_def andthen_Inr split: if_splits)
  have "slice cmd 0 8 = le_bytes 8 ofs" "slice cmd 8 16 = le_bytes 8 count" "cmd ! 16 = byte_of (length path)"
    using b by (simp_all add: cmd slice_def nth_append)
  moreover have "slice cmd 17 (17 + unat (byte_of (length path))) = path"
    using b by (simp add: cmd slice_def)
  ultimately show ?thesis using b by (simp add: server_request_def le_value_bytes)
qed

lemma pack_request_ok:
  "ofs < 2 ^ 64 \<Longrightarrow> count < 2 ^ 64 \<Longrightarrow> length path < 256 \<Longrightarrow> \<exists>cmd. pack_request path ofs count = Inr cmd"
  by (simp add: pack_request_def pack_le_def)

lemma net_block_good:
  assumes "the_file files trans_table path = Some f" and "length path < 256" and "ofs + 2 * count < 2 ^ 63"
    and "length pre = boff"
  shows "net_block files trans_table rc (pre @ replicate count 0 @ post) boff (path, ofs, count) \<lparr>inbox = [], alive = True\<rparr>
    = Some (Inr (pre @ served f 0 ofs count @ post, \<lparr>inbox = [], alive = True\<rparr>))"
proof -
  obtain cmd where cmd: "pack_request path ofs count = Inr cmd"
    using pack_request_ok [of ofs count path] assms(2,3) by auto
  have "ofs + 0 + 2 * (count - 0) < 2 ^ 63" using assms(3) by simp
  from server_chunks_ok [OF le0 this, of f] obtain out
    where out: "server_chunks f 0 ofs count = (out, ofs + count, True)"
      and cl: "\<forall>rc pre post boff o1 c rest. length pre = boff + 0 \<longrightarrow> ofs = o1 + 0 \<longrightarrow> int (count - 0) \<le> c \<longrightarrow>
        (\<exists>c'. net_answers rc (pre @ replicate (count - 0) 0 @ post) boff o1 c (out @ rest)
           = net_answers rc (pre @ served f 0 ofs count @ post) boff o1 c' rest)"
    unfolding diff_zero by blast
  have "server_request files trans_table cmd = (out @ answer 108 (ofs + count) count, False)"
    using assms(1,3) out
    by (simp add: server_request_packed [OF cmd] do_read_def the_file_def pack_answer_ok)
  moreover obtain c' where "net_answers rc (pre @ replicate count 0 @ post) boff ofs (int count) (out @ answer 108 (ofs + count) count)
      = net_answers rc (pre @ served f 0 ofs count @ post) boff ofs c' (answer 108 (ofs + count) count)"
    using cl assms(4) by fastforce
  moreover have "net_answers rc b boff ofs c' (answer 108 (ofs + count) count) = Some (Inr (b, []))" for b
    using net_answers_parse [of "ofs + count" count rc b boff ofs c' 108 "[]"] assms(3) by simp
  ultimately show ?thesis by (simp add: net_block_def cmd)
qed

definition good_block :: "(path \<Rightarrow> bytes option) \<Rightarrow> (path \<rightharpoonup> path) \<Rightarrow> block \<Rightarrow> bool" where
  "good_block files trans_table blk =
     (case blk of (path, ofs, count) \<Rightarrow>
        the_file files trans_table path \<noteq> None \<and> length path < 256 \<and> ofs + 2 * count < 2 ^ 63)"

definition served_block :: "(path \<Rightarrow> bytes option) \<Rightarrow> (path \<rightharpoonup> path) \<Rightarrow> block \<Rightarrow> bytes" where
  "served_block files trans_table blk =
     (case blk of (path, ofs, count) \<Rightarrow> served (the (the_file files trans_table path)) 0 ofs count)"

lemma net_blocks_good:
  "\<forall>blk \<in> set blks. good_block files trans_table blk \<Longrightarrow>
   net_blocks files trans_table rc (pre @ replicate (\<Sum>blk \<leftarrow> blks. snd (snd blk)) 0) (length pre) blks
     \<lparr>inbox = [], alive = True\<rparr> = Some (Inr (pre @ concat (map (served_block files trans_table) blks)))"
proof (induction blks arbitrary: pre)
  case (Cons blk blks)
  obtain path ofs count f where blk: "blk = (path, ofs, count)" and f: "the_file files trans_table path = Some f"
    and b: "length path < 256" "ofs + 2 * count < 2 ^ 63"
    using Cons.prems by (cases blk) (auto simp: good_block_def)
  have sb: "served_block files trans_table blk = served f 0 ofs count" by (simp add: served_block_def blk f)
  have "net_block files trans_table rc (pre @ replicate (\<Sum>blk \<leftarrow> blk # blks. snd (snd blk)) 0) (length pre) blk
      \<lparr>inbox = [], alive = True\<rparr>
    = Some (Inr (pre @ served f 0 ofs count @ replicate (\<Sum>blk \<leftarrow> blks. snd (snd blk)) 0, \<lparr>inbox = [], alive = True\<rparr>))"
    using net_block_good [OF f b refl, of rc pre "replicate (\<Sum>blk \<leftarrow> blks. snd (snd blk)) 0"]
    by (simp add: blk replicate_add)
  then show ?case
    using Cons.IH [of "pre @ served f 0 ofs count"] Cons.prems by (simp add: sb [unfolded blk] length_served blk)
qed simp

lemma readv_network_served:
  assumes "\<forall>blk \<in> set blks. good_block files trans_table blk" and "length blks < 256"
  shows "readv_network files trans_table rc blks = Some (Inr (concat (map (served_block files trans_table) blks)))"
  using net_blocks_good [OF assms(1), of rc "[]"] assms(2) by (simp add: readv_network_def pack_le_def)

text \<open>A request for a file that cannot be opened.\<close>

lemma net_block_missing:
  assumes "the_file files trans_table path = None" and "length path < 256" and "ofs < 2 ^ 64" and "count < 2 ^ 64"
  shows "net_block files trans_table rc buf boff (path, ofs, count) \<lparr>inbox = [], alive = True\<rparr>
    = Some (Inr (buf, \<lparr>inbox = answer 108 ofs count, alive = False\<rparr>))"
proof -
  obtain cmd where cmd: "pack_request path ofs count = Inr cmd"
    using pack_request_ok [of ofs count path] assms(2-4) by auto
  have "server_request files trans_table cmd = (answer 101 ofs 0 @ answer 108 ofs count, True)"
    using assms by (simp add: server_request_packed [OF cmd] do_read_def the_file_def pack_answer_ok)
  then show ?thesis
    using assms(3) by (simp add: net_block_def cmd net_answers_parse)
qed

lemma net_block_stale:
  assumes "length path < 256" and "ofs < 2 ^ 64" and "count < 2 ^ 64" and "o' < 2 ^ 64" and "l' < 2 ^ 64"
  shows "net_block files trans_table rc buf boff (path, ofs, count) \<lparr>inbox = answer 108 o' l', alive = False\<rparr>
    = Some (Inr (buf, \<lparr>inbox = [], alive = False\<rparr>))"
  using pack_request_ok [of ofs count path] net_answers_parse [OF assms(4,5), of rc buf boff ofs "int count" 108 "[]"] assms
  by (auto simp: net_block_def)

lemma net_block_dead:
  assumes "length path < 256" and "ofs < 2 ^ 64" and "count < 2 ^ 64"
  shows "net_block files trans_table rc buf boff (path, ofs, count) \<lparr>inbox = [], alive = False\<rparr> = None"
  using pack_request_ok [OF assms(2,3,1)] by (auto simp: net_block_def net_answers.simps)

section \<open>Local files\<close>

text \<open>\<open>_read_files\<close>: the table translates a device to a file, or to the list of its parts of
  one terabyte each. That some device has parts (\<open>_use_1tb\<close>) changes the lookup of all of them:
  indexing a plain file name gives a character of it. The cache of the open files saves the
  opening only.\<close>

datatype trans = File path | Parts "path list"

definition TB :: nat where "TB = 1024 * 1024 * 1024 * 1024"

definition use_1tb :: "(path \<times> trans) list \<Rightarrow> bool" where
  "use_1tb tab = list_ex (\<lambda>(k, v). case v of Parts ps \<Rightarrow> True | File p \<Rightarrow> False) tab"

definition trans_part :: "trans \<Rightarrow> nat \<Rightarrow> path py" where
  "trans_part v idx =
     (case v of Parts ps \<Rightarrow> index ps idx | File p \<Rightarrow> andthen (index p idx) (\<lambda>ch. Inr [ch]))"

definition read_files :: "(path \<Rightarrow> bytes option) \<Rightarrow> (path \<times> trans) list \<Rightarrow> block \<Rightarrow> bytes py" where
  "read_files files tab blk =
     (case blk of (path, ofs, count) \<Rightarrow>
      let idx = ofs div TB; ofs' = (if use_1tb tab then ofs mod TB else ofs) in
      andthen (case map_of tab path of
          None \<Rightarrow> Inr path
        | Some v \<Rightarrow> if use_1tb tab then trans_part v idx
                    else (case v of File p \<Rightarrow> Inr p | Parts ps \<Rightarrow> Inl Type_error)) (\<lambda>p.
      case files p of None \<Rightarrow> Inl Os_error | Some f \<Rightarrow> Inr (slice f ofs' (ofs' + count))))"

fun readv_files :: "(path \<Rightarrow> bytes option) \<Rightarrow> (path \<times> trans) list \<Rightarrow> block list \<Rightarrow> bytes py" where
  "readv_files files tab [] = Inr []"
| "readv_files files tab (blk # blks) =
     andthen (read_files files tab blk) (\<lambda>data. andthen (readv_files files tab blks) (\<lambda>rest. Inr (data @ rest)))"

section \<open>What a block provider promises\<close>

text \<open>Reads inside a device, each of at most \<open>lim\<close> bytes, come back one after the other.\<close>

definition dev_slice :: "(path \<Rightarrow> bytes) \<Rightarrow> block \<Rightarrow> bytes" where
  "dev_slice dev blk = (case blk of (path, ofs, count) \<Rightarrow> slice (dev path) ofs (ofs + count))"

definition in_dev :: "path set \<Rightarrow> (path \<Rightarrow> bytes) \<Rightarrow> nat \<Rightarrow> block \<Rightarrow> bool" where
  "in_dev ok dev lim blk \<longleftrightarrow>
     (case blk of (path, ofs, count) \<Rightarrow> path \<in> ok \<and> ofs + count \<le> length (dev path) \<and> count \<le> lim)"

locale block_provider =
  fixes readv :: "block list \<Rightarrow> bytes io" and ok :: "path set" and dev :: "path \<Rightarrow> bytes" and lim :: nat
  assumes readv: "length blks < 256 \<Longrightarrow> \<forall>blk \<in> set blks. in_dev ok dev lim blk \<Longrightarrow>
    readv blks = Some (Inr (concat (map (dev_slice dev) blks)))"
begin

lemma readv_length:
  assumes "length blks < 256" and "\<forall>blk \<in> set blks. in_dev ok dev lim blk" and "readv blks = Some (Inr data)"
  shows "length data = (\<Sum>blk \<leftarrow> blks. snd (snd blk))"
proof -
  have "length (dev_slice dev blk) = snd (snd blk)" if "blk \<in> set blks" for blk
    using assms(2) that by (auto simp: in_dev_def dev_slice_def length_slice)
  then have "(\<Sum>blk \<leftarrow> blks. length (dev_slice dev blk)) = (\<Sum>blk \<leftarrow> blks. snd (snd blk))"
    by (intro arg_cong [of _ _ sum_list] map_cong) simp_all
  moreover have "data = concat (map (dev_slice dev) blks)" using readv [OF assms(1,2)] assms(3) by simp
  ultimately show ?thesis by (simp add: length_concat comp_def)
qed

lemma readv_piece:
  assumes "length (xs @ blk # ys) < 256" and "\<forall>blk \<in> set (xs @ blk # ys). in_dev ok dev lim blk"
    and "readv (xs @ blk # ys) = Some (Inr data)"
  shows "slice data (\<Sum>x \<leftarrow> xs. snd (snd x)) ((\<Sum>x \<leftarrow> xs. snd (snd x)) + snd (snd blk)) = dev_slice dev blk"
proof -
  have data: "data = concat (map (dev_slice dev) xs) @ dev_slice dev blk @ concat (map (dev_slice dev) ys)"
    using readv [OF assms(1,2)] assms(3) by simp
  have "readv xs = Some (Inr (concat (map (dev_slice dev) xs)))" using assms(1,2) by (intro readv) simp_all
  then have "length (concat (map (dev_slice dev) xs)) = (\<Sum>x \<leftarrow> xs. snd (snd x))"
    using assms(1,2) by (intro readv_length) simp_all
  moreover have "length (dev_slice dev blk) = snd (snd blk)"
    using assms(2) by (auto simp: in_dev_def dev_slice_def length_slice)
  ultimately show ?thesis
    using slice_drop [of "length (concat (map (dev_slice dev) xs))" data "dev_slice dev blk"] by (simp add: data)
qed

end

definition net_ok :: "(path \<Rightarrow> bytes option) \<Rightarrow> (path \<rightharpoonup> path) \<Rightarrow> path set" where
  "net_ok files trans_table =
     {p. length p < 256 \<and> (\<exists>f. the_file files trans_table p = Some f \<and> length f < 2 ^ 61)}"

definition net_dev :: "(path \<Rightarrow> bytes option) \<Rightarrow> (path \<rightharpoonup> path) \<Rightarrow> path \<Rightarrow> bytes" where
  "net_dev files trans_table p = the (the_file files trans_table p)"

interpretation net: block_provider "readv_network files trans_table rc" "net_ok files trans_table"
  "net_dev files trans_table" CHUNKSIZE
proof unfold_locales
  fix blks assume n: "length blks < 256"
    and a: "\<forall>blk \<in> set blks. in_dev (net_ok files trans_table) (net_dev files trans_table) CHUNKSIZE blk"
  have "good_block files trans_table blk" if "blk \<in> set blks" for blk
    using a that by (fastforce simp: in_dev_def net_ok_def net_dev_def good_block_def)
  moreover have "served_block files trans_table blk = dev_slice (net_dev files trans_table) blk" if "blk \<in> set blks" for blk
    using a that by (auto simp: in_dev_def net_dev_def served_block_def dev_slice_def served_short)
  ultimately show "readv_network files trans_table rc blks
      = Some (Inr (concat (map (dev_slice (net_dev files trans_table)) blks)))"
    using readv_network_served [of blks files trans_table rc] n by (simp cong: map_cong)
qed

definition file_dev :: "(path \<Rightarrow> bytes option) \<Rightarrow> (path \<times> trans) list \<Rightarrow> path \<Rightarrow> bytes option" where
  "file_dev files tab p =
     (if use_1tb tab then None
      else files (case map_of tab p of Some (File q) \<Rightarrow> q | _ \<Rightarrow> p))"

lemma not_1tb: "\<not> use_1tb tab \<Longrightarrow> map_of tab p = Some v \<Longrightarrow> \<exists>q. v = File q"
  by (auto simp: use_1tb_def list_ex_iff dest!: map_of_SomeD split: trans.splits)

lemma read_files_plain:
  "file_dev files tab p = Some f \<Longrightarrow> read_files files tab (p, ofs, count) = Inr (slice f ofs (ofs + count))"
  using not_1tb [of tab p]
  by (auto simp: file_dev_def read_files_def Let_def split: if_splits option.splits trans.splits)

interpretation local: block_provider "\<lambda>blks. Some (readv_files files tab blks)" "{p. file_dev files tab p \<noteq> None}"
  "\<lambda>p. the (file_dev files tab p)" lim
proof unfold_locales
  fix blks
  assume "\<forall>blk \<in> set blks. in_dev {p. file_dev files tab p \<noteq> None} (\<lambda>p. the (file_dev files tab p)) lim blk"
  then show "Some (readv_files files tab blks) = Some (Inr (concat (map (dev_slice (\<lambda>p. the (file_dev files tab p))) blks)))"
    by (induction blks) (auto simp: in_dev_def dev_slice_def read_files_plain)
qed

section \<open>Properties\<close>

text \<open>
  C26: a \<open>readv\<close> over the network returns exactly the bytes the devices hold,
  in the order of the requests, however the connection cuts them into pieces, as long as no
  request is longer than the server's chunk.
\<close>

theorem readv_network_delivers:
  assumes "length blks < 256"
    and "\<forall>blk \<in> set blks. in_dev (net_ok files trans_table) (net_dev files trans_table) CHUNKSIZE blk"
  shows "readv_network files trans_table rc blks
    = Some (Inr (concat (map (dev_slice (net_dev files trans_table)) blks)))"
  using assms by (rule net.readv)

definition demo_disk :: "path \<Rightarrow> bytes option" where
  "demo_disk p = (if p = [7] then Some [10, 11, 12, 13] else None)"

theorem readv_network_delivers_witness:
  "readv_network demo_disk Map.empty (\<lambda>s l. 1) [([7], 1, 2), ([7], 0, 1)] = Some (Inr [11, 12, 10])"
proof -
  have n: "net_dev demo_disk Map.empty [7] = [10, 11, 12, 13]" "[7] \<in> net_ok demo_disk Map.empty"
    by (simp_all add: net_dev_def net_ok_def the_file_def demo_disk_def)
  have "\<forall>blk \<in> set [([7], 1, 2), ([7], 0, 1)].
      in_dev (net_ok demo_disk Map.empty) (net_dev demo_disk Map.empty) CHUNKSIZE blk"
    using n by (simp add: in_dev_def CHUNKSIZE_def)
  then show ?thesis
    using readv_network_delivers [of "[([7], 1, 2), ([7], 0, 1)]" demo_disk Map.empty "\<lambda>s l. 1"] n
    by (simp add: dev_slice_def slice_def)
qed

text \<open>
  C35: Which bytes a read over the network returns, of any length, when the server can open the file under a path
  of less than 256 bytes and it holds twice the length asked for from the offset on (below 2^63). The loop of the
  server advances both \<open>i\<close> and \<open>offset\<close> by a chunk of 256K and seeks to their sum, so every chunk
  after the first skips one: byte \<open>j\<close> of the answer is the byte of the file at
  \<open>offset + j + (j div CHUNKSIZE) * CHUNKSIZE\<close>, and a read of more than one chunk is wrong.
\<close>

theorem read_network_positions:
  assumes "the_file files trans_table path = Some f" and "length path < 256"
    and "ofs + 2 * count < 2 ^ 63" and "ofs + 2 * count \<le> length f"
  shows "read_network files trans_table rc (path, ofs, count)
    = Some (Inr (map (\<lambda>j. f ! (ofs + j + j div CHUNKSIZE * CHUNKSIZE)) [0..<count]))"
proof -
  have "served f 0 ofs count ! j = f ! (ofs + j + j div CHUNKSIZE * CHUNKSIZE)" if "j < count" for j
  proof -
    have "j div CHUNKSIZE * CHUNKSIZE \<le> j" by simp
    then have "ofs + j div CHUNKSIZE * CHUNKSIZE + j < length f" using that assms(4) by linarith
    then show ?thesis using served_nth [of 0 j count f ofs] that by (simp add: ac_simps)
  qed
  then have "served f 0 ofs count = map (\<lambda>j. f ! (ofs + j + j div CHUNKSIZE * CHUNKSIZE)) [0..<count]"
    by (intro nth_equalityI) (simp_all add: length_served)
  then show ?thesis using net_block_good [OF assms(1-3), of "[]" 0 rc "[]"] by (simp add: read_network_def)
qed

theorem read_network_positions_witness:
  "read_network demo_disk Map.empty (\<lambda>s l. 3) ([7], 0, 2) = Some (Inr [10, 11])"
  using read_network_positions [of demo_disk Map.empty "[7]" "[10, 11, 12, 13]" 0 2 "\<lambda>s l. 3"]
  by (simp add: the_file_def demo_disk_def CHUNKSIZE_def upt_rec)

text \<open>
  C36: a \<open>readv\<close> whose first disk cannot be opened. The client leaves at the
  error answer and takes the \<open>l\<close> answer that follows it for the answer of the next request, and
  the server's handler has died of an unset variable: the second block comes back as zeros
  although its disk is fine, and from the third block on nothing comes back at all (as long as the
  system takes what the client still sends to the closed connection).
\<close>

theorem readv_after_missing_disk:
  assumes "the_file files trans_table p1 = None" and "length p1 < 256" and "o1 < 2 ^ 64" and "n1 < 2 ^ 64"
    and "length p2 < 256" and "o2 < 2 ^ 64" and "n2 < 2 ^ 64" and "length blks < 254"
    and "blks = [] \<or> blks = (p3, o3, n3) # blks' \<and> length p3 < 256 \<and> o3 < 2 ^ 64 \<and> n3 < 2 ^ 64"
  shows "readv_network files trans_table rc ((p1, o1, n1) # (p2, o2, n2) # blks)
    = (if blks = [] then Some (Inr (replicate (n1 + n2) 0)) else None)"
proof -
  define buf :: bytes where "buf = replicate (\<Sum>blk \<leftarrow> (p1, o1, n1) # (p2, o2, n2) # blks. snd (snd blk)) 0"
  have "readv_network files trans_table rc ((p1, o1, n1) # (p2, o2, n2) # blks)
      = net_blocks files trans_table rc buf (n1 + n2) blks \<lparr>inbox = [], alive = False\<rparr>"
    using net_block_missing [OF assms(1-4)] net_block_stale [OF assms(5-7,3,4)] assms(8)
    by (simp add: readv_network_def pack_le_def buf_def)
  moreover have "net_blocks files trans_table rc buf b blks c = Some (Inr (replicate (n1 + n2) 0))" if "blks = []" for b c
    using that by (simp add: buf_def)
  moreover have "net_blocks files trans_table rc buf b blks \<lparr>inbox = [], alive = False\<rparr> = None" if "blks \<noteq> []" for b
  proof -
    have blks: "blks = (p3, o3, n3) # blks'" and p3: "length p3 < 256" "o3 < 2 ^ 64" "n3 < 2 ^ 64"
      using assms(9) that by auto
    show ?thesis using net_block_dead [OF p3] by (simp add: blks)
  qed
  ultimately show ?thesis by presburger
qed

theorem readv_after_missing_disk_witness:
  "readv_network demo_disk Map.empty (\<lambda>s l. 1) [([8], 0, 2), ([7], 0, 3)] = Some (Inr [0, 0, 0, 0, 0])"
proof -
  have "replicate (2 + 3) 0 = [0, 0, 0, 0, 0 :: u8]" by (simp add: numeral_eq_Suc)
  then show ?thesis
    using readv_after_missing_disk [of demo_disk Map.empty "[8]" 0 2 "[7]" 0 3 "[]" "[]" 0 0 "[]" "\<lambda>s l. 1"]
    by (simp add: the_file_def demo_disk_def)
qed

text \<open>
  A device stored as parts of one terabyte reads as their concatenation,
  for every read that stays inside one part.
\<close>

theorem read_files_parts:
  assumes "map_of tab path = Some (Parts ps)" and "length ws = length ps" and "\<forall>i < length ps. files (ps ! i) = Some (ws ! i)"
    and "\<forall>i < length ps - 1. length (ws ! i) = TB" and "ofs div TB < length ps" and "ofs mod TB + count \<le> TB"
  shows "read_files files tab (path, ofs, count) = Inr (slice (concat ws) ofs (ofs + count))"
proof -
  let ?i = "ofs div TB"
  have "use_1tb tab" using assms(1) by (force simp: use_1tb_def list_ex_iff dest: map_of_SomeD)
  then have r: "read_files files tab (path, ofs, count) = Inr (slice (ws ! ?i) (ofs mod TB) (ofs mod TB + count))"
    using assms(1,3,5) by (simp add: read_files_def Let_def trans_part_def index_def)
  have len: "length (concat (take ?i ws)) = ?i * TB"
  proof -
    have "map length (take ?i ws) = replicate ?i TB"
      using assms(2,4,5) by (intro nth_equalityI) auto
    then show ?thesis by (simp add: length_concat sum_list_replicate)
  qed
  have ws: "concat ws = concat (take ?i ws) @ ws ! ?i @ concat (drop (Suc ?i) ws)"
    using assms(2,5) by (subst id_take_nth_drop [of ?i ws]) simp_all
  have o1: "ofs = length (concat (take ?i ws)) + ofs mod TB" by (simp add: len)
  have d: "drop ofs (concat ws) = drop (ofs mod TB) (ws ! ?i @ concat (drop (Suc ?i) ws))"
    by (subst ws, subst o1) (simp only: drop_append, simp)
  show ?thesis
  proof (cases "Suc ?i < length ps")
    case True
    then have "length (ws ! ?i) = TB" using assms(4) by simp
    then show ?thesis using assms(6) unfolding r by (simp add: slice_def d)
  next
    case False
    then have "drop (Suc ?i) ws = []" using assms(2) by simp
    then show ?thesis unfolding r by (simp add: slice_def d)
  qed
qed

theorem read_files_parts_witness:
  "read_files demo_disk [([1], Parts [[7]])] ([1], 1, 2) = Inr [11, 12]"
  using read_files_parts [of "[([1], Parts [[7]])]" "[1]" "[[7]]" "[[10, 11, 12, 13]]" demo_disk 1 2]
  by (simp add: demo_disk_def TB_def slice_def)

end
