(* ===== verification/Py_Raidz.thy ===== *)
theory Py_Raidz
  imports Raidz_Place Block_Proxy
begin

text \<open>
  RAID-Z reads of the rescue scripts: \<open>RaidzDevice\<close> of \<open>src/zfs/zio.py\<close>. \<open>_map_alloc\<close> is the
  Python form of \<open>vdev_raidz_map_alloc\<close>, over unbounded integers; \<open>_read_physical\<close> reads the
  columns through a block provider and rebuilds the column of one bad disk from the parity.
  The list of the bad disks and the debug switch are the constructor's and the caller's; the
  debug dump is left out.
\<close>

section \<open>The map\<close>

record py_col =
  pc_devidx :: nat
  pc_offset :: nat
  pc_size :: nat

definition py_roundup :: "int \<Rightarrow> int \<Rightarrow> int" where
  "py_roundup x y = (x + y - 1) div y * y"

text \<open>The body of the loop over the columns. Only columns with a positive size are kept.\<close>

definition py_map_col :: "nat \<Rightarrow> nat \<Rightarrow> nat \<Rightarrow> nat \<Rightarrow> int \<Rightarrow> int \<Rightarrow> int \<Rightarrow> nat \<Rightarrow> py_col list" where
  "py_map_col dcols unit_shift f ob q bc acols c =
     (let col = f + c;
          (col, coff) = (if dcols \<le> col then (col - dcols, ob + 2 ^ unit_shift) else (col, ob));
          size = (if acols \<le> int c then 0 else if int c < bc then (q + 1) * 2 ^ unit_shift
                  else q * 2 ^ unit_shift)
      in if 0 < size then [\<lparr>pc_devidx = col, pc_offset = coff, pc_size = nat size\<rparr>] else [])"

definition py_map_alloc :: "nat \<Rightarrow> nat \<Rightarrow> nat \<Rightarrow> nat \<Rightarrow> nat \<Rightarrow> (py_col list \<times> nat \<times> int) py" where
  "py_map_alloc dcols nparity iofs isize unit_shift =
     (if dcols = 0 \<or> dcols = nparity then Inl Zero_division_error
      else
      let b = iofs div 2 ^ unit_shift;
          s = int (isize div 2 ^ unit_shift);
          f = b mod dcols;
          ob = b div dcols * 2 ^ unit_shift;
          q = s div (int dcols - int nparity);
          r = s - q * (int dcols - int nparity);
          bc = (if r \<noteq> 0 then r + int nparity else 0);
          (acols, scols) =
            (if q = 0 then (bc, min (int dcols) (py_roundup bc (int nparity + 1)))
             else (int dcols, int dcols));
          cols = concat (map (py_map_col dcols unit_shift f ob q bc acols) [0..<nat scols])
      in if nparity = 1 \<and> odd (iofs div 2 ^ 20) then
           andthen (index cols 0) (\<lambda>c0. andthen (index cols 1) (\<lambda>c1.
             Inr (cols[0 := c0\<lparr>pc_devidx := pc_devidx c1, pc_offset := pc_offset c1\<rparr>,
                       1 := c1\<lparr>pc_devidx := pc_devidx c0, pc_offset := pc_offset c0\<rparr>],
                  nparity, if bc = 0 then 1 else bc)))
         else Inr (cols, nparity, bc))"

section \<open>Reading\<close>

text \<open>\<open>_xor\<close>, on two byte arrays.\<close>

definition xor_into :: "bytes \<Rightarrow> bytes \<Rightarrow> bytes py" where
  "xor_into p d =
     (if length p < length d then Inl Index_error
      else Inr (map (\<lambda>i. if i < length d then p ! i XOR d ! i else p ! i) [0..<length p]))"

fun xor_all :: "bytes \<Rightarrow> bytes list \<Rightarrow> bytes py" where
  "xor_all p [] = Inr p"
| "xor_all p (d # ds) = andthen (xor_into p d) (\<lambda>p. xor_all p ds)"

fun py_pieces :: "py_col list \<Rightarrow> nat \<Rightarrow> bytes \<Rightarrow> bytes list" where
  "py_pieces [] ptr data = []"
| "py_pieces (c # cs) ptr data = slice data ptr (ptr + pc_size c) # py_pieces cs (ptr + pc_size c) data"

definition py_blockv :: "path list \<Rightarrow> py_col list \<Rightarrow> block list" where
  "py_blockv devs cols = map (\<lambda>c. (devs ! pc_devidx c, pc_offset c + 0x400000, pc_size c)) cols"

text \<open>The position of the first element equal to \<open>x\<close>.\<close>

fun list_index :: "nat list \<Rightarrow> nat \<Rightarrow> nat" where
  "list_index [] x = 0"
| "list_index (y # ys) x = (if y = x then 0 else Suc (list_index ys x))"

text \<open>The repair of the one bad disk. \<open>parity\<close> is the object \<open>col_data[0]\<close> itself.\<close>

definition py_repair :: "nat list \<Rightarrow> py_col list \<Rightarrow> bytes list \<Rightarrow> bytes list py" where
  "py_repair bad cols col_data =
     (let devs = map pc_devidx cols in
      if bad ! 0 \<in> set (tl devs) then
        let k = list_index devs (bad ! 0); bad_size = pc_size (cols ! k) in
        andthen (xor_all (col_data ! 0) (map ((!) col_data) (filter (\<lambda>b. b \<noteq> k) [1..<length col_data]))) (\<lambda>parity.
        Inr (col_data[0 := parity, k := slice parity 0 bad_size]))
      else Inr col_data)"

definition raidz_read_physical ::
    "(block list \<Rightarrow> bytes io) \<Rightarrow> path list \<Rightarrow> nat \<Rightarrow> nat list \<Rightarrow> bool \<Rightarrow> nat \<Rightarrow> nat \<Rightarrow> nat \<Rightarrow> bytes option io" where
  "raidz_read_physical readv devs nparity bad repair ashift ofs psize =
     (if ofs > 8 * 1024 * 1024 * 1024 * 1024 then Some (Inr None)
      else
      io_bind (Some (py_map_alloc (length devs) nparity ofs psize ashift)) (\<lambda>(cols, firstdatacol, skipstart).
      io_bind (readv (py_blockv devs cols)) (\<lambda>data.
      let col_data = py_pieces cols 0 data in
      io_bind (Some (if col_data = [] then Inr [] else xor_all (hd col_data) (tl col_data))) (\<lambda>_.
      io_bind (Some (if repair \<and> bad \<noteq> [] then py_repair bad cols col_data else Inr col_data)) (\<lambda>col_data.
      Some (Inr (Some (concat (drop firstdatacol col_data)))))))))"

section \<open>The map in closed form\<close>

definition rz_py_col :: "nat \<Rightarrow> nat \<Rightarrow> nat \<Rightarrow> nat \<Rightarrow> nat \<Rightarrow> bool \<Rightarrow> nat \<Rightarrow> py_col" where
  "rz_py_col D P A s b sw c =
     \<lparr>pc_devidx = (b + raidz_place sw c) mod D, pc_offset = (b + raidz_place sw c) div D * 2 ^ A,
      pc_size = rz_len D P s c * 2 ^ A\<rparr>"

definition py_swaps :: "nat \<Rightarrow> nat \<Rightarrow> bool" where
  "py_swaps P ofs \<longleftrightarrow> P = 1 \<and> odd (ofs div 2 ^ 20)"

lemma py_roundup_nat: "0 < y \<Longrightarrow> py_roundup (int x) (int y) = int (nat_roundup x y)"
proof -
  assume "0 < y"
  then have "int x + int y - 1 = int (x + (y - 1))" by simp
  then show ?thesis by (simp only: py_roundup_def nat_roundup_def zdiv_int [symmetric] of_nat_mult)
qed

lemma py_map_col_eq:
  assumes "c < D"
  shows "py_map_col D A (b mod D) (b div D * 2 ^ A) (int (rz_q D P s)) (int (rz_bc D P s)) (int (rz_acols D P s)) c
    = (if rz_len D P s c = 0 then [] else [rz_py_col D P A s b False c])"
proof -
  let ?size = "if int (rz_acols D P s) \<le> int c then 0 else if int c < int (rz_bc D P s)
      then (int (rz_q D P s) + 1) * 2 ^ A else int (rz_q D P s) * 2 ^ A"
  have size: "?size = int (rz_len D P s c * 2 ^ A)" by (simp add: rz_len_def)
  have pos: "(0 < int (rz_len D P s c * 2 ^ A)) = (rz_len D P s c \<noteq> 0)"
    unfolding of_nat_0_less_iff by simp
  show ?thesis
    using next_sector [OF assms, of b]
    unfolding py_map_col_def Let_def size pos rz_py_col_def raidz_place_def nat_int by auto
qed

lemma rz_len_pos: "c < rz_acols D P s \<Longrightarrow> 0 < rz_len D P s c"
  by (auto simp: rz_len_def rz_acols_def split: if_splits)

lemma concat_first:
  "(\<And>c. c < m \<Longrightarrow> f c = (if c < n then [g c] else [])) \<Longrightarrow> n \<le> m \<Longrightarrow> concat (map f [0..<m]) = map g [0..<n]"
proof (induction m)
  case (Suc m)
  show ?case
  proof (cases "n = Suc m")
    case True
    then have "map f [0..<Suc m] = map (\<lambda>c. [g c]) [0..<Suc m]" using Suc.prems(1) by (intro map_cong) (force simp: less_Suc_eq)+
    then show ?thesis using True by (simp only: concat_map_singleton)
  next
    case False
    then show ?thesis using Suc by simp
  qed
qed simp

lemma py_map_alloc_eq:
  assumes P: "1 \<le> P" "P < D" and s: "0 < isize div 2 ^ A"
  shows "py_map_alloc D P iofs isize A =
    Inr (map (rz_py_col D P A (isize div 2 ^ A) (iofs div 2 ^ A) (py_swaps P iofs)) [0..<rz_acols D P (isize div 2 ^ A)], P,
      if py_swaps P iofs \<and> rz_bc D P (isize div 2 ^ A) = 0 then 1 else int (rz_bc D P (isize div 2 ^ A)))"
proof -
  let ?s = "isize div 2 ^ A" and ?b = "iofs div 2 ^ A"
  note n = rz_acols_bounds [OF P s] and two = rz_two_cols [OF P s]
  have dp: "int D - int P = int (D - P)" using P by simp
  have q: "int ?s div (int D - int P) = int (rz_q D P ?s)" unfolding dp rz_q_def zdiv_int ..
  have r: "int ?s - int (rz_q D P ?s) * (int D - int P) = int (rz_r D P ?s)"
    using rz_s [of ?s D P] unfolding dp by (metis add_diff_cancel_left' of_nat_add of_nat_mult)
  have bc: "(if int (rz_r D P ?s) \<noteq> 0 then int (rz_r D P ?s) + int P else 0) = int (rz_bc D P ?s)"
    by (simp add: rz_bc_def)
  have ac: "(if int (rz_q D P ?s) = 0 then (int (rz_bc D P ?s), min (int D) (py_roundup (int (rz_bc D P ?s)) (int P + 1)))
      else (int D, int D)) = (int (rz_acols D P ?s), int (rz_scols D P ?s))"
    using py_roundup_nat [of "P + 1" "rz_bc D P ?s"]
    by (auto simp: rz_acols_def rz_scols_def add.commute [of 1])
  have "py_map_col D A (?b mod D) (?b div D * 2 ^ A) (int (rz_q D P ?s)) (int (rz_bc D P ?s)) (int (rz_acols D P ?s)) c
      = (if c < rz_acols D P ?s then [rz_py_col D P A ?s ?b False c] else [])" if "c < rz_scols D P ?s" for c
    using py_map_col_eq [of c D A ?b P ?s] that n(3) rz_len_pos [of c D P ?s] by (auto simp: rz_len_def)
  then have cols: "concat (map (py_map_col D A (?b mod D) (?b div D * 2 ^ A) (int (rz_q D P ?s)) (int (rz_bc D P ?s))
      (int (rz_acols D P ?s))) [0..<rz_scols D P ?s]) = map (rz_py_col D P A ?s ?b False) [0..<rz_acols D P ?s]"
    using n(2) by (rule concat_first)
  have sw: "(P = 1 \<and> odd (iofs div 2 ^ 20)) = py_swaps P iofs" by (simp add: py_swaps_def)
  let ?cols = "map (rz_py_col D P A ?s ?b False) [0..<rz_acols D P ?s]"
  have i: "index ?cols 0 = Inr (rz_py_col D P A ?s ?b False 0)" "index ?cols 1 = Inr (rz_py_col D P A ?s ?b False 1)"
    using two(1) by (simp_all add: index_def)
  have swapped: "?cols[0 := (rz_py_col D P A ?s ?b False 0)\<lparr>pc_devidx := pc_devidx (rz_py_col D P A ?s ?b False 1),
        pc_offset := pc_offset (rz_py_col D P A ?s ?b False 1)\<rparr>,
      1 := (rz_py_col D P A ?s ?b False 1)\<lparr>pc_devidx := pc_devidx (rz_py_col D P A ?s ?b False 0),
        pc_offset := pc_offset (rz_py_col D P A ?s ?b False 0)\<rparr>]
    = map (rz_py_col D P A ?s ?b True) [0..<rz_acols D P ?s]"
    using two by (intro nth_equalityI) (auto simp: nth_list_update rz_py_col_def raidz_place_def less_2_cases_iff not_less)
  have z: "(D = 0 \<or> D = P) = False" using P by simp
  show ?thesis
    unfolding py_map_alloc_def z if_False Let_def q r bc ac prod.case nat_int cols sw i andthen_simps swapped
    by simp
qed

section \<open>Parity\<close>

fun xor_at :: "nat \<Rightarrow> bytes list \<Rightarrow> u8" where
  "xor_at i [] = 0"
| "xor_at i (d # ds) = (if i < length d then d ! i else 0) XOR xor_at i ds"

definition parity_of :: "nat \<Rightarrow> bytes list \<Rightarrow> bytes" where
  "parity_of n ds = map (\<lambda>i. xor_at i ds) [0..<n]"

lemma length_parity_of [simp]: "length (parity_of n ds) = n"
  by (simp add: parity_of_def)

lemma xor_all_eq:
  "\<forall>d \<in> set ds. length d \<le> length p \<Longrightarrow>
   xor_all p ds = Inr (map (\<lambda>i. p ! i XOR xor_at i ds) [0..<length p])"
proof (induction ds arbitrary: p)
  case Nil
  then show ?case by (simp add: map_nth)
next
  case (Cons d ds)
  let ?p = "map (\<lambda>i. if i < length d then p ! i XOR d ! i else p ! i) [0..<length p]"
  have "xor_all ?p ds = Inr (map (\<lambda>i. ?p ! i XOR xor_at i ds) [0..<length ?p])"
    using Cons.prems by (intro Cons.IH) simp
  moreover have "map (\<lambda>i. ?p ! i XOR xor_at i ds) [0..<length ?p] = map (\<lambda>i. p ! i XOR xor_at i (d # ds)) [0..<length p]"
    by (auto simp: xor.assoc)
  ultimately show ?case using Cons.prems by (simp add: xor_into_def not_less)
qed

lemma xor_cancel:
  fixes x y z :: u8
  shows "(x XOR y) XOR y = x" and "(x XOR y) XOR (x XOR z) = y XOR z"
  by (rule bit_word_eqI; auto simp: bit_simps)+

lemma xor_at_remove:
  "k < length ds \<Longrightarrow> xor_at i (take k ds @ drop (Suc k) ds) XOR xor_at i ds = (if i < length (ds ! k) then ds ! k ! i else 0)"
proof (induction ds arbitrary: k)
  case (Cons d ds)
  then show ?case
  proof (cases k)
    case 0
    then show ?thesis using xor_cancel(1) [of "d ! i" "xor_at i ds"] by (simp add: xor.commute)
  next
    case (Suc k')
    show ?thesis using Cons Suc by (simp add: xor_cancel)
  qed
qed simp

text \<open>The parity with the other data columns gives the missing one.\<close>

lemma xor_all_rebuilds:
  assumes "k < length ds" and "\<forall>d \<in> set ds. length d \<le> n"
  shows "\<exists>p. xor_all (parity_of n ds) (take k ds @ drop (Suc k) ds) = Inr p \<and> slice p 0 (length (ds ! k)) = ds ! k"
proof -
  let ?os = "take k ds @ drop (Suc k) ds"
  have "set ?os \<subseteq> set ds" by (auto dest: in_set_takeD in_set_dropD)
  then have x: "xor_all (parity_of n ds) ?os = Inr (map (\<lambda>i. parity_of n ds ! i XOR xor_at i ?os) [0..<n])"
    using assms(2) by (subst xor_all_eq) auto
  have "length (ds ! k) \<le> n" using assms by simp
  moreover have "parity_of n ds ! i XOR xor_at i ?os = ds ! k ! i" if "i < length (ds ! k)" for i
    using xor_at_remove [OF assms(1), of i] that calculation by (simp add: parity_of_def xor.commute)
  ultimately have "slice (map (\<lambda>i. parity_of n ds ! i XOR xor_at i ?os) [0..<n]) 0 (length (ds ! k)) = ds ! k"
    by (intro nth_equalityI) (simp_all add: slice_def)
  then show ?thesis using x by blast
qed

lemma others_upt:
  assumes "Suc k < length cd"
  shows "map ((!) cd) (filter (\<lambda>b. b \<noteq> Suc k) [1..<length cd]) = take k (tl cd) @ drop (Suc k) (tl cd)"
proof -
  have "[1..<length cd] = [1..<Suc k] @ Suc k # [Suc (Suc k)..<length cd]"
    using assms by (metis One_nat_def Suc_leI le_add1 less_imp_le_nat plus_1_eq_Suc upt_add_eq_append upt_conv_Cons le_Suc_ex)
  then have f: "filter (\<lambda>b. b \<noteq> Suc k) [1..<length cd] = [1..<Suc k] @ [Suc (Suc k)..<length cd]"
    by (auto simp: filter_id_conv)
  have "map ((!) cd) [1..<Suc k] = take k (tl cd)"
    using assms by (intro nth_equalityI) (simp_all add: nth_tl del: upt_Suc)
  moreover have "map ((!) cd) [Suc (Suc k)..<length cd] = drop (Suc k) (tl cd)"
    using assms by (intro nth_equalityI) (simp_all add: nth_tl)
  ultimately show ?thesis by (simp only: f map_append)
qed

lemma py_pieces_eq:
  "length pre = ptr \<Longrightarrow> map length xs = map pc_size cols \<Longrightarrow> py_pieces cols ptr (pre @ concat xs) = xs"
proof (induction cols arbitrary: pre ptr xs)
  case (Cons c cols)
  then obtain x xs' where xs: "xs = x # xs'" "length x = pc_size c" "map length xs' = map pc_size cols" by auto
  then have "slice (pre @ concat xs) ptr (ptr + pc_size c) = x"
    using Cons.prems(1) slice_drop [of ptr "pre @ concat xs" x] by simp
  moreover have "py_pieces cols (ptr + pc_size c) ((pre @ x) @ concat xs') = xs'"
    using Cons.prems(1) xs by (intro Cons.IH) simp_all
  ultimately show ?case using xs(1) by simp
qed simp

lemma list_index_found: "x \<in> set xs \<Longrightarrow> list_index xs x < length xs \<and> xs ! list_index xs x = x"
  by (induction xs) auto

section \<open>Reads through a block provider\<close>

text \<open>The disks hold the request: the data columns are \<open>truth\<close>, the parity column is their
  exclusive or, except on the child \<open>badd\<close>, which may hold anything.\<close>

definition raidz_holds :: "(path \<Rightarrow> bytes) \<Rightarrow> path list \<Rightarrow> py_col list \<Rightarrow> nat \<Rightarrow> bytes list \<Rightarrow> bool" where
  "raidz_holds dev devs cols badd truth \<longleftrightarrow>
     map length truth = map pc_size (tl cols)
     \<and> list_all2 (\<lambda>blk_c x. pc_devidx (snd blk_c) \<noteq> badd \<longrightarrow> dev_slice dev (fst blk_c) = x)
         (zip (py_blockv devs cols) cols) (parity_of (pc_size (cols ! 0)) truth # truth)"

lemma raidz_holds_nth:
  assumes "raidz_holds dev devs cols badd truth" and "Suc c < length cols"
  shows "pc_devidx (cols ! Suc c) \<noteq> badd \<Longrightarrow> dev_slice dev (py_blockv devs cols ! Suc c) = truth ! c"
    and "length (truth ! c) = pc_size (cols ! Suc c)" and "length truth = length cols - 1"
proof -
  have len: "length truth = length cols - 1"
    using assms(1) by (metis raidz_holds_def length_map length_tl)
  then show "length truth = length cols - 1" .
  have "map length truth ! c = map pc_size (tl cols) ! c" using assms(1) by (simp add: raidz_holds_def)
  then show "length (truth ! c) = pc_size (cols ! Suc c)" using len assms(2) by (simp add: nth_tl)
  show "pc_devidx (cols ! Suc c) \<noteq> badd \<Longrightarrow> dev_slice dev (py_blockv devs cols ! Suc c) = truth ! c"
    using assms unfolding raidz_holds_def by (auto simp: list_all2_conv_all_nth py_blockv_def)
qed

lemma raidz_holds_parity:
  "raidz_holds dev devs cols badd truth \<Longrightarrow> cols \<noteq> [] \<Longrightarrow> pc_devidx (cols ! 0) \<noteq> badd \<Longrightarrow>
   dev_slice dev (py_blockv devs cols ! 0) = parity_of (pc_size (cols ! 0)) truth"
  unfolding raidz_holds_def by (auto simp: list_all2_conv_all_nth py_blockv_def)

lemma rz_len_le_0: "1 \<le> P \<Longrightarrow> rz_len D P s c \<le> rz_len D P s 0"
  by (auto simp: rz_len_def rz_bc_def)

definition raidz_cols :: "nat \<Rightarrow> nat \<Rightarrow> nat \<Rightarrow> nat \<Rightarrow> py_col list" where
  "raidz_cols D A ofs psize =
     map (rz_py_col D 1 A (psize div 2 ^ A) (ofs div 2 ^ A) (py_swaps 1 ofs)) [0..<rz_acols D 1 (psize div 2 ^ A)]"

lemma raidz_cols_facts:
  assumes "1 < D" and "0 < psize div 2 ^ A"
  shows "1 < length (raidz_cols D A ofs psize)" and "length (raidz_cols D A ofs psize) \<le> D"
    and "distinct (map pc_devidx (raidz_cols D A ofs psize))"
    and "\<forall>c \<in> set (raidz_cols D A ofs psize). pc_size c \<le> pc_size (raidz_cols D A ofs psize ! 0)"
    and "\<forall>c \<in> set (raidz_cols D A ofs psize). pc_devidx c < D"
proof -
  let ?s = "psize div 2 ^ A"
  note n = rz_acols_bounds [OF le_refl assms] and two = rz_two_cols [OF le_refl assms]
  show l: "1 < length (raidz_cols D A ofs psize)" "length (raidz_cols D A ofs psize) \<le> D"
    using n two by (simp_all add: raidz_cols_def)
  have pl: "raidz_place sw c < D" if "c < rz_acols D 1 ?s" for sw c
    using n two that raidz_place_less [OF two(1), of sw c] by linarith
  show "distinct (map pc_devidx (raidz_cols D A ofs psize))"
    by (auto simp: raidz_cols_def rz_py_col_def distinct_conv_nth
        dest!: rz_devices_distinct [OF pl pl, rotated 2] raidz_place_inj)
  show "\<forall>c \<in> set (raidz_cols D A ofs psize). pc_size c \<le> pc_size (raidz_cols D A ofs psize ! 0)"
    using two(1) rz_len_le_0 [of 1 D ?s] by (auto simp: raidz_cols_def rz_py_col_def)
  show "\<forall>c \<in> set (raidz_cols D A ofs psize). pc_devidx c < D"
    using assms(1) by (auto simp: raidz_cols_def rz_py_col_def)
qed

lemma tl_conv_nth: "length xs = Suc n \<Longrightarrow> (\<And>c. c < n \<Longrightarrow> xs ! Suc c = ys ! c) \<Longrightarrow> length ys = n \<Longrightarrow> tl xs = ys"
  by (intro nth_equalityI) (simp_all add: nth_tl)

text \<open>The repair puts the column of the bad child right.\<close>

lemma py_repair_eq:
  assumes lens: "map length cd = map pc_size cols" and two: "1 < length cols"
    and dist: "distinct (map pc_devidx cols)" and max: "\<forall>c \<in> set cols. pc_size c \<le> pc_size (cols ! 0)"
    and truth: "map length truth = map pc_size (tl cols)"
    and good: "\<And>c. Suc c < length cols \<Longrightarrow> pc_devidx (cols ! Suc c) \<noteq> badd \<Longrightarrow> cd ! Suc c = truth ! c"
    and par: "pc_devidx (cols ! 0) \<noteq> badd \<Longrightarrow> cd ! 0 = parity_of (pc_size (cols ! 0)) truth"
  shows "\<exists>cd'. py_repair [badd] cols cd = Inr cd' \<and> tl cd' = truth"
proof -
  have l: "length cd = length cols" "length truth = length cols - 1"
    using arg_cong [OF lens, of length] arg_cong [OF truth, of length] by simp_all
  let ?devs = "map pc_devidx cols"
  show ?thesis
  proof (cases "badd \<in> set (tl ?devs)")
    case False
    have "pc_devidx (cols ! Suc c) \<noteq> badd" if "Suc c < length cols" for c
    proof
      assume "pc_devidx (cols ! Suc c) = badd"
      then have "tl ?devs ! c = badd" using that by (simp add: nth_tl)
      then show False using False that by (metis length_map length_tl less_diff_conv nth_mem Suc_eq_plus1)
    qed
    then have "tl cd = truth" using l two good by (intro tl_conv_nth [of cd "length cols - 1"]) simp_all
    then show ?thesis using False by (simp add: py_repair_def Let_def)
  next
    case True
    have "hd ?devs \<noteq> badd" using True dist two by (cases cols) auto
    then have h: "pc_devidx (cols ! 0) \<noteq> badd" using two by (cases cols) auto
    have "badd \<in> set ?devs" using True by (metis list.set_sel(2) tl_Nil empty_iff list.set(1))
    then have k: "list_index ?devs badd < length cols" "pc_devidx (cols ! list_index ?devs badd) = badd"
      using list_index_found [of badd ?devs] by auto
    then obtain k' where k': "list_index ?devs badd = Suc k'" using h by (cases "list_index ?devs badd") auto
    have other: "cd ! Suc c = truth ! c" if "Suc c < length cols" "c \<noteq> k'" for c
    proof (rule good [OF that(1)])
      show "pc_devidx (cols ! Suc c) \<noteq> badd"
        using k k' that dist nth_eq_iff_index_eq [OF dist, of "Suc c" "Suc k'"] by auto
    qed
    have oth: "take k' (tl cd) @ drop (Suc k') (tl cd) = take k' truth @ drop (Suc k') truth"
    proof (intro arg_cong2 [of _ _ _ _ append])
      show "take k' (tl cd) = take k' truth"
        using l other k k' by (intro nth_equalityI) (auto simp: nth_tl)
      show "drop (Suc k') (tl cd) = drop (Suc k') truth"
        using l other k k' by (intro nth_equalityI) (auto simp: nth_tl)
    qed
    have "\<forall>d \<in> set truth. length d \<le> pc_size (cols ! 0)"
    proof
      fix d assume "d \<in> set truth"
      then have "length d \<in> set (map pc_size (tl cols))" using truth by (metis image_eqI list.set_map)
      then show "length d \<le> pc_size (cols ! 0)" using max by (cases cols) auto
    qed
    then obtain p where p: "xor_all (parity_of (pc_size (cols ! 0)) truth) (take k' truth @ drop (Suc k') truth) = Inr p"
      "slice p 0 (length (truth ! k')) = truth ! k'"
      using xor_all_rebuilds [of k' truth] k k' l by force
    have sz: "pc_size (cols ! Suc k') = length (truth ! k')"
      using arg_cong [OF truth, of "\<lambda>xs. xs ! k'"] k k' l by (simp add: nth_tl)
    have "py_repair [badd] cols cd = Inr (cd[0 := p, Suc k' := truth ! k'])"
      using True k' k l p sz others_upt [of k' cd] oth par [OF h]
      by (simp add: py_repair_def Let_def)
    moreover have "tl (cd[0 := p, Suc k' := truth ! k']) = truth"
    proof (intro tl_conv_nth [of _ "length cols - 1"])
      fix c assume c: "c < length cols - 1"
      then show "cd[0 := p, Suc k' := truth ! k'] ! Suc c = truth ! c"
        using other l by (cases "c = k'") simp_all
    qed (use l two in simp_all)
    ultimately show ?thesis by blast
  qed
qed

lemma raidz_cols_alloc:
  assumes "1 < D" and "0 < psize div 2 ^ A"
  shows "\<exists>skip. py_map_alloc D 1 ofs psize A = Inr (raidz_cols D A ofs psize, 1, skip)"
  using py_map_alloc_eq [OF le_refl assms] by (simp add: raidz_cols_def)

context block_provider
begin

lemma raidz_read:
  fixes ofs psize A :: nat and devs :: "path list"
  assumes D: "1 < length devs" "length devs < 256" and s: "0 < psize div 2 ^ A" and ofs: "ofs \<le> 8 * 1024 * 1024 * 1024 * 1024"
    and inr: "\<forall>blk \<in> set (py_blockv devs (raidz_cols (length devs) A ofs psize)). in_dev ok dev lim blk"
    and holds: "raidz_holds dev devs (raidz_cols (length devs) A ofs psize) badd truth"
  shows "raidz_read_physical readv devs 1 [badd] True A ofs psize = Some (Inr (Some (concat truth)))"
proof -
  define cols where "cols = raidz_cols (length devs) A ofs psize"
  define cd where "cd = map (dev_slice dev) (py_blockv devs cols)"
  note f = raidz_cols_facts [OF D(1) s, of ofs, folded cols_def]
  obtain skip where alloc: "py_map_alloc (length devs) 1 ofs psize A = Inr (cols, 1, skip)"
    using raidz_cols_alloc [OF D(1) s] unfolding cols_def by blast
  have rd: "readv (py_blockv devs cols) = Some (Inr (concat cd))"
    using inr f(2) D(2) unfolding cd_def cols_def [symmetric] by (intro readv) (simp_all add: py_blockv_def)
  have lens: "map length cd = map pc_size cols"
    using inr unfolding cd_def cols_def [symmetric]
    by (auto simp: py_blockv_def in_dev_def dev_slice_def length_slice)
  have pcs: "py_pieces cols 0 (concat cd) = cd" using py_pieces_eq [of "[]" 0 cd cols] lens by simp
  have l: "length cd = length cols" using arg_cong [OF lens, of length] by simp
  have ne: "cd \<noteq> []" using l f(1) by auto
  have le: "length d \<le> length (hd cd)" if "d \<in> set cd" for d
  proof -
    have "length d \<in> set (map pc_size cols)" unfolding lens [symmetric] using that by simp
    moreover have "length (hd cd) = pc_size (cols ! 0)"
      using arg_cong [OF lens, of hd] ne f(1) by (cases cols) (simp_all add: hd_map)
    ultimately show ?thesis using f(4) by auto
  qed
  have "\<forall>d \<in> set (tl cd). length d \<le> length (hd cd)" using le list.set_sel(2) [OF ne] by blast
  then obtain x where x: "xor_all (hd cd) (tl cd) = Inr x" using xor_all_eq by blast
  have nth: "cd ! c = dev_slice dev (py_blockv devs cols ! c)" if "c < length cols" for c
    using that by (simp add: cd_def py_blockv_def)
  obtain cd' where cd': "py_repair [badd] cols cd = Inr cd'" "tl cd' = truth"
  proof -
    note h = holds [folded cols_def]
    have truth: "map length truth = map pc_size (tl cols)" using h by (simp add: raidz_holds_def)
    have good: "\<And>c. Suc c < length cols \<Longrightarrow> pc_devidx (cols ! Suc c) \<noteq> badd \<Longrightarrow> cd ! Suc c = truth ! c"
      using raidz_holds_nth(1) [OF h] nth by metis
    have par: "pc_devidx (cols ! 0) \<noteq> badd \<Longrightarrow> cd ! 0 = parity_of (pc_size (cols ! 0)) truth"
      using raidz_holds_parity [OF h] nth [of 0] f(1) by fastforce
    have "\<exists>cd'. py_repair [badd] cols cd = Inr cd' \<and> tl cd' = truth"
      by (rule py_repair_eq [OF lens f(1,3,4) truth good par])
    then show ?thesis using that by blast
  qed
  then show ?thesis
    using ofs ne x by (simp add: raidz_read_physical_def alloc [unfolded One_nat_def] rd Let_def pcs drop_Suc)
qed

end

section \<open>Properties\<close>

definition py_view :: "raidz_col \<Rightarrow> py_col" where
  "py_view c = \<lparr>pc_devidx = unat (rc_devidx c), pc_offset = unat (rc_offset c), pc_size = unat (rc_size c)\<rparr>"

lemma bit20: "ofs < 2 ^ 64 \<Longrightarrow> (W ofs AND push_bit 20 1 \<noteq> 0) = odd (ofs div 2 ^ 20)"
proof -
  assume b: "ofs < 2 ^ 64"
  have "(W ofs AND push_bit 20 1 \<noteq> 0) = bit (W ofs) 20"
    by (metis (no_types, lifting) and_exp_eq_0_iff_not_bit push_bit_of_1)
  also have "\<dots> = bit (unat (W ofs)) 20" by (simp add: bit_unsigned_iff)
  also have "\<dots> = odd (unat (W ofs) div 2 ^ 20)" by (simp only: bit_iff_odd)
  finally show ?thesis using b by (simp add: unat_W)
qed

text \<open>
  C10: the rescue scripts and the C extractor lay out a block the same way. For
  every request within the bounds of the C code, \<open>_map_alloc\<close> returns the columns of
  \<open>vdev_raidz_map_alloc\<close> that are accessed, with the same children, offsets and sizes, in the
  same order.
\<close>

theorem raidz_maps_agree:
  assumes "raidz_request_ok ofs sz A D P" and "io_offset zio = W ofs" and "io_size zio = W sz"
    and "live_abd h (io_abd zio) = Some sa"
  shows "\<exists>rm h' skip. vdev_raidz_map_alloc zio (W A) (W D) (W P) h = Inr (rm, h')
    \<and> py_map_alloc D P ofs sz A = Inr (map py_view (take (unat (rm_cols rm)) (rm_col rm)), unat (rm_firstdatacol rm), skip)"
proof -
  let ?s = "sz div 2 ^ A" and ?b = "ofs div 2 ^ A" and ?p = "length (hp_abds h)"
  have pd: "1 \<le> P" "P < D" "D < 256" "ofs < 2 ^ 63" using assms(1) by (simp_all add: raidz_request_ok_def)
  have P1: "(W P = 1) = (P = 1)" using pd W_eq [of P 1] by (simp add: W_1 [unfolded One_nat_def])
  have sw: "(W P = 1 \<and> io_offset zio AND push_bit 20 1 \<noteq> 0) = py_swaps P ofs"
    using bit20 [of ofs] pd by (simp add: assms(2) P1 py_swaps_def)
  let ?rm = "swap_if (py_swaps P ofs) (rz_map ?p A D P ?s ?b)"
  have c: "vdev_raidz_map_alloc zio (W A) (W D) (W P) h = Inr (?rm, rz_heap (io_abd zio) sa A D P ?s h)"
    unfolding map_alloc_eq [OF assms] Let_def sw swap_if_def ..
  have "take (unat (rm_cols ?rm)) (rm_col ?rm) = map ((!) (rm_col ?rm)) [0..<rz_acols D P ?s]"
    using swap_if_used(2) [OF assms(1)] by (simp add: used_cols_def)
  moreover have "py_view (rm_col ?rm ! c) = rz_py_col D P A ?s ?b (py_swaps P ofs) c" if "c < rz_acols D P ?s" for c
    using map_col_nth [OF assms(1) that] rz_len_bound [OF assms(1), of c]
    by (simp add: py_view_def rz_py_col_def unat_W)
  ultimately have "map py_view (take (unat (rm_cols ?rm)) (rm_col ?rm))
      = map (rz_py_col D P A ?s ?b (py_swaps P ofs)) [0..<rz_acols D P ?s]"
    by simp
  moreover have "unat (rm_firstdatacol ?rm) = P" using swap_if_used(3) [OF assms(1)] pd by (simp add: unat_W)
  ultimately show ?thesis using c py_map_alloc_eq [OF pd(1,2) ok_sectors(1) [OF assms(1)]] by auto
qed

theorem raidz_maps_agree_witness:
  "\<exists>rm h' skip. vdev_raidz_map_alloc \<lparr>io_offset = W 0x15a000, io_size = W 0x5000, io_abd = 0, io_vsd = None\<rparr>
      (W 12) (W 3) (W 1) (snd (abd_alloc_linear 0x5000 \<lparr>hp_bufs = [], hp_abds = []\<rparr>)) = Inr (rm, h')
    \<and> py_map_alloc 3 1 0x15a000 0x5000 12 = Inr (map py_view (take (unat (rm_cols rm)) (rm_col rm)), unat (rm_firstdatacol rm), skip)"
proof -
  obtain sa where "live_abd (snd (abd_alloc_linear 0x5000 \<lparr>hp_bufs = [], hp_abds = []\<rparr>)) 0 = Some sa"
    by (simp add: abd_alloc_linear_eq live_abd_def)
  then show ?thesis
    by (intro raidz_maps_agree) (simp_all add: raidz_request_ok_def)
qed

text \<open>
  C9: reading a block of a single-parity RAID-Z over the block server with one bad disk. Every disk
  with a column of the block, the bad one included, opens under a path of less than 256 bytes and holds
  the column's range (and less than 2^61 bytes), no column exceeds the server's 256K chunk, there are
  fewer than 256 disks, and the block has at least one sector and starts at 8 TB at most. When the other
  disks hold their columns (the data, or its exclusive or as parity), \<open>_read_physical\<close> returns
  the block's data, whatever the bad disk holds there and whether that is data, parity or no column.
\<close>

theorem raidz_net_repairs:
  fixes devs :: "path list" and A ofs psize badd :: nat
  defines "cols \<equiv> raidz_cols (length devs) A ofs psize"
  assumes "1 < length devs" and "length devs < 256" and "0 < psize div 2 ^ A"
    and "ofs \<le> 8 * 1024 * 1024 * 1024 * 1024"
    and "\<forall>blk \<in> set (py_blockv devs cols). in_dev (net_ok files trans_table) (net_dev files trans_table) CHUNKSIZE blk"
    and "raidz_holds (net_dev files trans_table) devs cols badd truth"
  shows "raidz_read_physical (readv_network files trans_table rc) devs 1 [badd] True A ofs psize
    = Some (Inr (Some (concat truth)))"
  using assms unfolding cols_def by (intro net.raidz_read)

definition demo_raidz :: "path \<Rightarrow> bytes option" where
  "demo_raidz p =
     (if p = [0] then Some (replicate 0x400000 0 @ [10 XOR 12, 11 XOR 13])
      else if p = [1] then Some (replicate 0x400000 0 @ [255, 255])
      else if p = [2] then Some (replicate 0x400000 0 @ [12, 13]) else None)"

lemma demo_raidz_cols:
  "raidz_cols 3 1 0 4 = [\<lparr>pc_devidx = 0, pc_offset = 0, pc_size = 2\<rparr>, \<lparr>pc_devidx = 1, pc_offset = 0, pc_size = 2\<rparr>,
     \<lparr>pc_devidx = 2, pc_offset = 0, pc_size = 2\<rparr>]"
  by (simp add: raidz_cols_def rz_py_col_def py_swaps_def raidz_place_def rz_acols_def rz_bc_def rz_q_def
      rz_r_def rz_len_def upt_rec)

lemma demo_raidz_disks:
  "net_dev demo_raidz Map.empty [0] = replicate 0x400000 0 @ [10 XOR 12, 11 XOR 13]"
  "net_dev demo_raidz Map.empty [1] = replicate 0x400000 0 @ [255, 255]"
  "net_dev demo_raidz Map.empty [2] = replicate 0x400000 0 @ [12, 13]"
  "{[0], [1], [2]} \<subseteq> net_ok demo_raidz Map.empty"
  by (simp_all add: net_dev_def net_ok_def the_file_def demo_raidz_def)

theorem raidz_net_repairs_witness:
  "raidz_read_physical (readv_network demo_raidz Map.empty (\<lambda>s l. 1)) [[0], [1], [2]] 1 [1] True 1 0 4
    = Some (Inr (Some [10, 11, 12, 13]))"
proof -
  let ?cols = "raidz_cols (length [[0], [1], [2 :: u8]]) 1 0 4"
  have c: "?cols = [\<lparr>pc_devidx = 0, pc_offset = 0, pc_size = 2\<rparr>, \<lparr>pc_devidx = 1, pc_offset = 0, pc_size = 2\<rparr>,
     \<lparr>pc_devidx = 2, pc_offset = 0, pc_size = 2\<rparr>]" using demo_raidz_cols by (simp add: numeral_3_eq_3)
  have b: "py_blockv [[0], [1], [2]] ?cols = [([0], 0x400000, 2), ([1], 0x400000, 2), ([2], 0x400000, 2)]"
    unfolding c by (simp add: py_blockv_def)
  have "\<forall>blk \<in> set (py_blockv [[0], [1], [2]] ?cols).
      in_dev (net_ok demo_raidz Map.empty) (net_dev demo_raidz Map.empty) CHUNKSIZE blk"
    unfolding b using demo_raidz_disks by (simp add: in_dev_def CHUNKSIZE_def)
  moreover have "raidz_holds (net_dev demo_raidz Map.empty) [[0], [1], [2]] ?cols 1 [[10, 11], [12, 13]]"
    unfolding raidz_holds_def b unfolding c
    by (simp add: dev_slice_def slice_def demo_raidz_disks parity_of_def numeral_2_eq_2)
  ultimately show ?thesis
    using raidz_net_repairs [of "[[0], [1], [2]]" 4 1 0 demo_raidz Map.empty 1 "[[10, 11], [12, 13]]" "\<lambda>s l. 1"]
    by simp
qed

end
