(* ===== verification/Py_LZ4.thy ===== *)
theory Py_LZ4
  imports Py LZ4_Wrap
begin

text \<open>
  The LZ4 decoder in Python, \<open>lz4zfs_decompress\<close> of \<open>src/zfs/lz4zfs.py\<close>: it decodes the
  blocks the rescue scripts read from the pool, apart from the C decoder of \<open>de.c\<close>. Positions
  are positions in the source, whose first four bytes are the size of the block. The end of
  the block is taken as the size itself, without these four bytes.
\<close>

section \<open>The decoder\<close>

definition RUN_MASK_py :: nat where "RUN_MASK_py = 0xf"
definition ML_MASK_py :: nat where "ML_MASK_py = 0xf"

function py_run_ext :: "bytes \<Rightarrow> nat \<Rightarrow> nat \<Rightarrow> nat \<Rightarrow> nat \<Rightarrow> (nat \<times> nat) py" where
  "py_run_ext src iend s ip len =
     (if ip < iend \<and> s = 255 then
        andthen (index src ip) (\<lambda>v. py_run_ext src iend (unat v) (ip + 1) (len + unat v))
      else Inr (ip, len))"
  by pat_completeness auto
termination
  by (relation "measure (\<lambda>(src, iend, s, ip, len). iend - ip)") auto

function py_match_ext :: "bytes \<Rightarrow> nat \<Rightarrow> nat \<Rightarrow> nat \<Rightarrow> (nat \<times> nat) py" where
  "py_match_ext src iend ip len =
     (if ip < iend then
        andthen (index src ip) (\<lambda>v.
          if unat v = 255 then py_match_ext src iend (ip + 1) (len + unat v)
          else Inr (ip + 1, len + unat v))
      else Inr (ip, len))"
  by pat_completeness auto
termination
  by (relation "measure (\<lambda>(src, iend, ip, len). iend - ip)") auto

declare py_run_ext.simps [simp del] py_match_ext.simps [simp del]

text \<open>\<open>for i in range(length): dst += dst[len(dst)-off:len(dst)-off+1]\<close>\<close>

fun py_window :: "nat \<Rightarrow> nat \<Rightarrow> bytes \<Rightarrow> bytes" where
  "py_window off 0 dst = dst"
| "py_window off (Suc n) dst =
     py_window off n
       (dst @ slice_int dst (int (length dst) - int off) (int (length dst) - int off + 1))"

definition py_lz4_round :: "bytes \<Rightarrow> nat \<Rightarrow> nat \<Rightarrow> bytes \<Rightarrow> (nat \<times> bytes) py" where
  "py_lz4_round src iend ip dst =
     andthen (index src ip) (\<lambda>b. let token = unat b; ip = ip + 1; len = token div 16 in
     andthen (if len = RUN_MASK_py then py_run_ext src iend 255 ip len else Inr (ip, len)) (\<lambda>(ip, len).
     let dst = dst @ slice src ip (ip + len); ip = ip + len in
     andthen (unpack_le 2 (slice src ip (ip + 2))) (\<lambda>off. let ip = ip + 2; len = token mod 16 in
     andthen (if len = ML_MASK_py then py_match_ext src iend ip len else Inr (ip, len)) (\<lambda>(ip, len).
     Inr (ip, py_window off (len + 4) dst)))))"

lemma py_run_ext_mono: "py_run_ext src iend s ip len = Inr (ip', len') \<Longrightarrow> ip \<le> ip'"
proof (induction src iend s ip len rule: py_run_ext.induct)
  case (1 src iend s ip len)
  then show ?case by (subst (asm) (2) py_run_ext.simps) (fastforce simp: andthen_Inr split: if_splits)
qed

lemma py_match_ext_mono: "py_match_ext src iend ip len = Inr (ip', len') \<Longrightarrow> ip \<le> ip'"
proof (induction src iend ip len rule: py_match_ext.induct)
  case (1 src iend ip len)
  then show ?case by (subst (asm) (2) py_match_ext.simps) (fastforce simp: andthen_Inr split: if_splits)
qed

lemma py_round_progress: "py_lz4_round src iend ip dst = Inr (ip', dst') \<Longrightarrow> ip < ip'"
  by (fastforce simp: py_lz4_round_def andthen_Inr Let_def dest: py_run_ext_mono py_match_ext_mono
      split: if_splits)

function py_lz4_loop :: "bytes \<Rightarrow> nat \<Rightarrow> nat \<Rightarrow> bytes \<Rightarrow> bytes py" where
  "py_lz4_loop src iend ip dst =
     (if ip < iend then
        (case py_lz4_round src iend ip dst of
           Inl e \<Rightarrow> Inl e
         | Inr (ip', dst') \<Rightarrow> py_lz4_loop src iend ip' dst')
      else Inr dst)"
  by pat_completeness auto
termination
  by (relation "measure (\<lambda>(src, iend, ip, dst). iend - ip)") (auto dest: py_round_progress)

declare py_lz4_loop.simps [simp del]

text \<open>The size is unpacked outside of the \<open>try\<close>; any exception inside it gives \<open>None\<close>.\<close>

definition lz4zfs_decompress :: "bytes \<Rightarrow> nat \<Rightarrow> bytes option py" where
  "lz4zfs_decompress src dsize =
     andthen (unpack_be 4 (slice src 0 4)) (\<lambda>iend.
     Inr (case py_lz4_loop src iend 4 [] of Inl e \<Rightarrow> None | Inr dst \<Rightarrow> Some dst))"

section \<open>Copying a match\<close>

lemma slice_int_back:
  assumes "1 \<le> off" and "off \<le> length dst"
  shows "slice_int dst (int (length dst) - int off) (int (length dst) - int off + 1) = [dst ! (length dst - off)]"
proof -
  have "nat (int (length dst) - int off) = length dst - off"
    "nat (int (length dst) - int off + 1) = Suc (length dst - off)"
    using assms by simp_all
  then show ?thesis using assms slice_one [of "length dst - off" dst]
    by (simp add: slice_int_def Let_def min_def)
qed

lemma match_bytes_Suc: "match_bytes off (Suc n) out = match_bytes off n (out @ [out ! (length out - off)])"
  by (induction n) (simp_all add: Let_def)

lemma py_window_match: "1 \<le> off \<Longrightarrow> off \<le> length dst \<Longrightarrow> py_window off n dst = match_bytes off n dst"
  by (induction n arbitrary: dst) (simp_all add: slice_int_back match_bytes_Suc del: match_bytes.simps(2))

lemma py_window_prefix: "\<exists>junk. py_window off n dst = dst @ junk"
  by (induction n arbitrary: dst) (simp, metis append.assoc py_window.simps(2))

lemma py_window_0: "py_window 0 n dst = dst"
  by (induction n) (simp_all add: slice_int_def slice_def)

section \<open>Decoding what the encoder writes\<close>

lemma py_run_ext_stop: "s \<noteq> 255 \<Longrightarrow> py_run_ext src iend s ip len = Inr (ip, len)"
  by (simp add: py_run_ext.simps)

lemma drop_Cons_next: "drop ip src = b # bs \<Longrightarrow> drop (ip + 1) src = bs"
  by (metis Suc_eq_plus1 drop_Suc list.sel(3) tl_drop)

lemma drop_append_next: "drop ip src = xs @ ys \<Longrightarrow> drop (ip + length xs) src = ys"
  by (metis add.commute append_eq_conv_conj drop_drop)

lemma py_run_ext_enc:
  assumes "drop ip src = enc_ext m @ rest" and "ip + length (enc_ext m) \<le> iend"
  shows "py_run_ext src iend 255 ip len = Inr (ip + length (enc_ext m), len + m)"
  using assms
proof (induction m arbitrary: ip len rule: enc_ext.induct)
  case (1 m)
  show ?case
  proof (cases "m < 255")
    case True
    then have e: "enc_ext m = [byte_of m]" by (subst enc_ext.simps) simp
    then show ?thesis using 1(2,3) True index_drop [of ip src "byte_of m" rest]
      by (subst py_run_ext.simps) (simp add: py_run_ext_stop)
  next
    case False
    then have e: "enc_ext m = byte_of 255 # enc_ext (m - 255)" by (subst enc_ext.simps) simp
    have "py_run_ext src iend 255 (ip + 1) (len + 255) = Inr (ip + length (enc_ext m), len + m)"
      using 1(1) [OF False, of "ip + 1" "len + 255"] 1(2,3) False e
        drop_Cons_next [of ip src "byte_of 255" "enc_ext (m - 255) @ rest"] by simp
    then show ?thesis using 1(2,3) e index_drop [of ip src "byte_of 255"]
      by (subst py_run_ext.simps) simp
  qed
qed

lemma py_match_ext_enc:
  assumes "drop ip src = enc_ext m @ rest" and "ip + length (enc_ext m) \<le> iend"
  shows "py_match_ext src iend ip len = Inr (ip + length (enc_ext m), len + m)"
  using assms
proof (induction m arbitrary: ip len rule: enc_ext.induct)
  case (1 m)
  show ?case
  proof (cases "m < 255")
    case True
    then have e: "enc_ext m = [byte_of m]" by (subst enc_ext.simps) simp
    then show ?thesis using 1(2,3) True index_drop [of ip src "byte_of m" rest]
      by (subst py_match_ext.simps) simp
  next
    case False
    then have e: "enc_ext m = byte_of 255 # enc_ext (m - 255)" by (subst enc_ext.simps) simp
    have "py_match_ext src iend (ip + 1) (len + 255) = Inr (ip + length (enc_ext m), len + m)"
      using 1(1) [OF False, of "ip + 1" "len + 255"] 1(2,3) False e
        drop_Cons_next [of ip src "byte_of 255" "enc_ext (m - 255) @ rest"] by simp
    then show ?thesis using 1(2,3) e index_drop [of ip src "byte_of 255"]
      by (subst py_match_ext.simps) simp
  qed
qed

text \<open>A length in a token and the bytes after it, for either of the two loops.\<close>

lemma py_run_len:
  assumes "drop ip src = enc_tail n @ rest" and "ip + length (enc_tail n) \<le> iend"
  shows "(if enc_nib n = RUN_MASK_py then py_run_ext src iend 255 ip (enc_nib n) else Inr (ip, enc_nib n))
    = Inr (ip + length (enc_tail n), n)"
  using assms py_run_ext_enc [of ip src "n - 15" rest iend 15]
  by (auto simp: enc_nib_def enc_tail_def RUN_MASK_py_def min_def split: if_splits)

lemma py_match_len:
  assumes "drop ip src = enc_tail n @ rest" and "ip + length (enc_tail n) \<le> iend"
  shows "(if enc_nib n = ML_MASK_py then py_match_ext src iend ip (enc_nib n) else Inr (ip, enc_nib n))
    = Inr (ip + length (enc_tail n), n)"
  using assms py_match_ext_enc [of ip src "n - 15" rest iend 15]
  by (auto simp: enc_nib_def enc_tail_def ML_MASK_py_def min_def split: if_splits)

lemma token_nibbles:
  "unat (byte_of (16 * enc_nib a + enc_nib b)) div 16 = enc_nib a"
  "unat (byte_of (16 * enc_nib a + enc_nib b)) mod 16 = enc_nib b"
  "unat (byte_of (16 * enc_nib a)) div 16 = enc_nib a"
  "unat (byte_of (16 * enc_nib a)) mod 16 = 0"
  using enc_nib_less [of a] enc_nib_less [of b] by simp_all

lemma offset_parts: "v < 65536 \<Longrightarrow> le_value [byte_of (v mod 256), byte_of (v div 256)] = v"
  by simp

lemma py_round_parts:
  assumes i: "index src ip = Inr b"
    and l: "(if unat b div 16 = RUN_MASK_py then py_run_ext src iend 255 (ip + 1) (unat b div 16)
      else Inr (ip + 1, unat b div 16)) = Inr (ip1, n)"
    and lits: "slice src ip1 (ip1 + n) = lits" and w: "unpack_le 2 (slice src (ip1 + n) (ip1 + n + 2)) = Inr off"
    and m: "(if unat b mod 16 = ML_MASK_py then py_match_ext src iend (ip1 + n + 2) (unat b mod 16)
      else Inr (ip1 + n + 2, unat b mod 16)) = Inr (ip2, k)"
  shows "py_lz4_round src iend ip dst = Inr (ip2, py_window off (k + 4) (dst @ lits))"
  unfolding py_lz4_round_def i andthen_simps Let_def l prod.case w lits m by simp

lemma py_round_seq:
  assumes d: "drop ip src = enc_seq s @ rest" and e: "ip + length (enc_seq s) \<le> iend"
    and o: "1 \<le> sq_off s" "sq_off s < 65536" "sq_off s \<le> length dst + length (sq_lits s)" "4 \<le> sq_len s"
  shows "py_lz4_round src iend ip dst = Inr (ip + length (enc_seq s), expand_seq s dst)"
proof -
  let ?l = "length (sq_lits s)" and ?t = "enc_tail (length (sq_lits s))" and ?u = "enc_tail (sq_len s - 4)"
  let ?b = "byte_of (16 * enc_nib ?l + enc_nib (sq_len s - 4))"
  let ?o = "[byte_of (sq_off s mod 256), byte_of (sq_off s div 256)]"
  let ?ip1 = "ip + 1 + length ?t"
  have d0: "drop ip src = ?b # ?t @ sq_lits s @ ?o @ ?u @ rest" using d by (simp add: enc_seq_def)
  have d1: "drop (ip + 1) src = ?t @ sq_lits s @ ?o @ ?u @ rest" by (rule drop_Cons_next [OF d0])
  have d2: "drop ?ip1 src = sq_lits s @ ?o @ ?u @ rest" by (rule drop_append_next [OF d1])
  have d3: "drop (?ip1 + ?l) src = ?o @ ?u @ rest" by (rule drop_append_next [OF d2])
  have d4: "drop (?ip1 + ?l + 2) src = ?u @ rest" using drop_append_next [OF d3] by simp
  have len: "ip + length (enc_seq s) = ?ip1 + ?l + 2 + length ?u" by (simp add: enc_seq_def)
  have "unpack_le 2 (slice src (?ip1 + ?l) (?ip1 + ?l + 2)) = Inr (sq_off s)"
    using slice_drop [OF d3] o(2) by (simp add: unpack_le_def)
  moreover have "py_window (sq_off s) (sq_len s - 4 + 4) (dst @ sq_lits s) = expand_seq s dst"
    using o by (simp add: py_window_match expand_seq_def)
  moreover note py_round_parts [OF index_drop [OF d0], of iend ?ip1 ?l "sq_lits s" "sq_off s"
      "?ip1 + ?l + 2 + length ?u" "sq_len s - 4" dst]
    py_run_len [OF d1, of iend] py_match_len [OF d4, of iend]
  ultimately show ?thesis
    using slice_drop [OF d2] e unfolding len token_nibbles by simp
qed

text \<open>After the last literals the decoder still wants an offset.\<close>

lemma py_round_last:
  assumes d: "drop ip src = enc_last lits @ pad" and e: "ip + length (enc_last lits) \<le> iend + length lits"
  shows "py_lz4_round src iend ip dst =
    (if length pad < 2 then Inl Struct_error
     else Inr (ip + length (enc_last lits) + 2, py_window (le_value (take 2 pad)) 4 (dst @ lits)))"
proof -
  let ?l = "length lits" and ?t = "enc_tail (length lits)" and ?b = "byte_of (16 * enc_nib (length lits))"
  let ?ip1 = "ip + 1 + length ?t"
  have d0: "drop ip src = ?b # ?t @ lits @ pad" using d by (simp add: enc_last_def)
  have d1: "drop (ip + 1) src = ?t @ lits @ pad" by (rule drop_Cons_next [OF d0])
  have d2: "drop ?ip1 src = lits @ pad" by (rule drop_append_next [OF d1])
  have d3: "drop (?ip1 + ?l) src = pad" by (rule drop_append_next [OF d2])
  have len: "ip + length (enc_last lits) = ?ip1 + ?l" by (simp add: enc_last_def)
  have w: "unpack_le 2 (slice src (?ip1 + ?l) (?ip1 + ?l + 2))
      = (if length pad < 2 then Inl Struct_error else Inr (le_value (take 2 pad)))"
    using d3 by (auto simp: unpack_le_def slice_def)
  have l: "(if unat ?b div 16 = RUN_MASK_py then py_run_ext src iend 255 (ip + 1) (unat ?b div 16)
      else Inr (ip + 1, unat ?b div 16)) = Inr (?ip1, ?l)"
    using py_run_len [OF d1, of iend] e unfolding token_nibbles len by simp
  show ?thesis
  proof (cases "length pad < 2")
    case True
    then show ?thesis
      unfolding py_lz4_round_def index_drop [OF d0] andthen_simps Let_def l prod.case w by simp
  next
    case False
    then show ?thesis
      using py_round_parts [OF index_drop [OF d0] l, of lits "le_value (take 2 pad)" "?ip1 + ?l + 2" 0 dst]
        slice_drop [OF d2] w unfolding len token_nibbles by (simp add: ML_MASK_py_def)
  qed
qed

section \<open>Whole blocks\<close>

lemma py_loop_end: "iend \<le> ip \<Longrightarrow> py_lz4_loop src iend ip dst = Inr dst"
  by (simp add: py_lz4_loop.simps)

lemma py_loop_encoded:
  assumes "drop ip src = lz4_encode seqs lits @ pad" and "seqs_ok seqs dst"
    and "ip + length (lz4_encode seqs lits) = iend + 4" and "5 \<le> length lits"
  shows "py_lz4_loop src iend ip dst =
    (if length pad < 2 then Inl Struct_error
     else Inr (py_window (le_value (take 2 pad)) 4 (lz4_expand seqs lits dst)))"
  using assms
proof (induction seqs arbitrary: ip dst)
  case Nil
  have e: "ip + length (enc_last lits) = iend + 4" and d: "drop ip src = enc_last lits @ pad"
    using Nil by (simp_all add: lz4_encode_def)
  have "ip < iend" using e Nil(4) by (simp add: enc_last_def)
  then show ?case using py_round_last [OF d, of iend dst] e Nil(4)
    by (simp add: py_lz4_loop.simps [of _ _ ip] py_loop_end lz4_expand_def)
next
  case (Cons s seqs)
  have d: "drop ip src = enc_seq s @ lz4_encode seqs lits @ pad" using Cons.prems(1) by (simp add: lz4_encode_def)
  have e: "ip + length (enc_seq s) + length (lz4_encode seqs lits) = iend + 4"
    using Cons.prems(3) by (simp add: lz4_encode_def)
  have "6 \<le> length (lz4_encode seqs lits)" using Cons.prems(4) by (simp add: lz4_encode_def enc_last_def)
  then have le: "ip + length (enc_seq s) \<le> iend" "ip < iend" using e by (simp_all add: enc_seq_def)
  have "py_lz4_round src iend ip dst = Inr (ip + length (enc_seq s), expand_seq s dst)"
    using py_round_seq [OF d le(1)] Cons.prems(2) by simp
  then have "py_lz4_loop src iend ip dst = py_lz4_loop src iend (ip + length (enc_seq s)) (expand_seq s dst)"
    using le(2) by (simp add: py_lz4_loop.simps [of _ _ ip])
  also have "\<dots> = (if length pad < 2 then Inl Struct_error
     else Inr (py_window (le_value (take 2 pad)) 4 (lz4_expand seqs lits (expand_seq s dst))))"
    using Cons.prems(2,4) e by (intro Cons.IH [OF drop_append_next [OF d]]) simp_all
  finally show ?case by (simp add: lz4_expand_def)
qed

lemma lz4zfs_decodes:
  assumes "seqs_ok seqs []" and "5 \<le> length lits" and "length (lz4_encode seqs lits) < 2 ^ 32"
    and "src = be_bytes 4 (length (lz4_encode seqs lits)) @ lz4_encode seqs lits @ pad"
    and "length pad < 2 \<or> take 2 pad = [0, 0]"
  shows "lz4zfs_decompress src dsize =
    Inr (if length pad < 2 then None else Some (lz4_expand seqs lits []))"
proof -
  have h: "slice src 0 4 = be_bytes 4 (length (lz4_encode seqs lits))" using assms(4) by (simp add: slice_def)
  have d: "drop 4 src = lz4_encode seqs lits @ pad" using assms(4) by simp
  have "unpack_be 4 (slice src 0 4) = Inr (length (lz4_encode seqs lits))"
    using assms(3) unfolding h by (simp add: unpack_be_bytes)
  moreover have "py_lz4_loop src (length (lz4_encode seqs lits)) 4 [] =
      (if length pad < 2 then Inl Struct_error else Inr (lz4_expand seqs lits []))"
    using py_loop_encoded [OF d assms(1) _ assms(2)] assms(5) by (auto simp: py_window_0)
  ultimately show ?thesis by (simp add: lz4zfs_decompress_def)
qed

section \<open>The two decoders\<close>

text \<open>The size in front of a block, as \<open>BE_IN32\<close> reads it.\<close>

lemma byte_of_drop:
  "k + 8 \<le> 32 \<Longrightarrow> byte_of (n div 2 ^ k mod 256) = (ucast (drop_bit k (of_nat n :: u32)) :: u8)"
  by (intro bit_word_eqI) (auto simp: byte_of_def bit_simps unsigned_of_nat
    simp flip: drop_bit_eq_div take_bit_eq_mod[of 8, simplified])

lemma join_bytes16:
  "ucast (push_bit 8 (ucast (ucast (drop_bit 8 w) :: u8)) OR ucast (ucast w :: u8) :: u16) = take_bit 16 (w :: u32)"
  (is "?l = _")
proof (rule bit_word_eqI)
  fix n assume "n < LENGTH(32)"
  then show "bit ?l n = bit (take_bit 16 w) n"
    by (cases "n < 8"; cases "n < 16") (auto simp: bit_simps)
qed

lemma join_halves32: "push_bit 16 (take_bit 16 (drop_bit 16 w)) OR take_bit 16 w = (w :: u32)"
  by (rule bit_word_eqI) (auto simp: bit_simps)

lemma be_bytes4: "be_bytes 4 n = map (\<lambda>k. byte_of (n div 2 ^ k mod 256)) [24, 16, 8, 0]"
proof -
  have four: "4 = Suc (Suc (Suc (Suc 0)))" by simp
  have d: "n div 256 div 256 = n div 65536" "n div 65536 div 256 = n div 16777216"
    by (simp_all flip: div_mult2_eq)
  have "be_bytes 4 n = [byte_of (n div 256 div 256 div 256 mod 256), byte_of (n div 256 div 256 mod 256),
      byte_of (n div 256 mod 256), byte_of (n mod 256)]"
    by (simp only: be_bytes_def four le_bytes.simps rev.simps append.simps)
  then show ?thesis by (simp add: d)
qed

lemma BE_IN32_be: "BE_IN32 (be_bytes 4 n @ r) 0 = Some (of_nat n)"
proof -
  let ?w = "of_nat n :: u32"
  have "be_bytes 4 n = [ucast (drop_bit 24 ?w), ucast (drop_bit 16 ?w), ucast (drop_bit 8 ?w), ucast (drop_bit 0 ?w)]"
    unfolding be_bytes4 by (simp only: list.map byte_of_drop)
  then show ?thesis
    using join_bytes16[of ?w] join_bytes16[of "drop_bit 16 ?w"] join_halves32[of ?w]
    by (subst BE_IN32_in) simp_all
qed

text \<open>
  C23: the Python decoder and the C decoder of the 64-bit build, on a block that the LZ4
  encoder wrote (five or more last literals, below 2 GB), with its size in front and the padding
  of the last sector behind it (fewer than two bytes, or two zero bytes first), and an output
  buffer of at least the decoded size. \<open>lz4_decompress_zfs\<close> returns 0. With two zero
  bytes of padding or more \<open>lz4zfs_decompress\<close> returns the bytes that the C decoder has
  written; with fewer than two bytes of padding, which is a block that fills its
  sectors, it runs past the end for one more offset, catches that and returns
  \<open>None\<close>.
\<close>

theorem py_lz4_decodes:
  assumes "seqs_ok seqs []" and "5 \<le> length lits" and "length (lz4_encode seqs lits) < 2 ^ 31"
    and "src = be_bytes 4 (length (lz4_encode seqs lits)) @ lz4_encode seqs lits @ pad"
    and "length pad < 2 \<or> take 2 pad = [0, 0]"
    and "length (lz4_expand seqs lits []) \<le> d_len" and "d_len \<le> length d_start"
    and "d_len < 2 ^ 31" and "daddr + d_len < 2 ^ 64"
  shows "\<exists>d. lz4_decompress_zfs True daddr src d_start (length src) d_len = Some (0, d)
    \<and> lz4zfs_decompress src dsize =
      Inr (if length pad < 2 then None else Some (take (length (lz4_expand seqs lits [])) d))"
proof -
  have w: "unat (of_nat (length (lz4_encode seqs lits)) :: u32) = length (lz4_encode seqs lits)"
    using assms(3) by (simp add: unat_of_nat)
  have b: "BE_IN32 src 0 = Some (of_nat (length (lz4_encode seqs lits)))"
    unfolding assms(4) by (rule BE_IN32_be)
  have "\<exists>d. lz4_decompress_zfs True daddr src d_start (length src) d_len = Some (0, d)
    \<and> take (length (lz4_expand seqs lits [])) d = lz4_expand seqs lits []
    \<and> agree_outside 0 d_len d_start d"
    by (rule zfs_encoded[OF b])
      (use assms in \<open>simp_all add: w\<close>)
  moreover have "lz4zfs_decompress src dsize =
    Inr (if length pad < 2 then None else Some (lz4_expand seqs lits []))"
    using assms by (intro lz4zfs_decodes) simp_all
  ultimately show ?thesis by auto
qed

theorem py_lz4_decodes_witness:
  "\<exists>d. lz4_decompress_zfs True 4096 (be_bytes 4 6 @ lz4_encode [] [1, 2, 3, 4, 5] @ [0, 0, 0]) (replicate 8 0) 13 8
      = Some (0, d)
    \<and> lz4zfs_decompress (be_bytes 4 6 @ lz4_encode [] [1, 2, 3, 4, 5] @ [0, 0, 0]) 5 = Inr (Some (take 5 d))"
proof -
  have e: "length (lz4_encode [] [1, 2, 3, 4, 5 :: u8]) = 6" and x: "lz4_expand [] [1, 2, 3, 4, 5 :: u8] [] = [1, 2, 3, 4, 5]"
    by code_simp+
  have l: "length [1, 2, 3, 4, 5 :: u8] = 5" by simp
  show ?thesis
    using py_lz4_decodes [of "[]" "[1, 2, 3, 4, 5]" "be_bytes 4 6 @ lz4_encode [] [1, 2, 3, 4, 5] @ [0, 0, 0]" "[0, 0, 0]"
        8 "replicate 8 0" 4096 5]
    unfolding e x l by (simp add: e)
qed

end
