(* ===== verification/Py_Lzjb.thy ===== *)
theory Py_Lzjb
  imports Py
begin

text \<open>
  LZJB in Python, \<open>src/zfs/lzjb.py\<close>: the variable-length sizes, the compressor and the
  decompressor. A compressed block is a sequence of groups: one byte of flags, then up to eight
  items, each a literal byte or a match of two bytes. The loops keep a mask of one bit,
  \<open>copymask\<close>; here its exponent is the state, so that the shift past the last bit is the step
  from 7 to 8. The optional \<open>dst\<close> argument, which no caller passes, is left out: \<open>dpos\<close> is the
  length of the output.
\<close>

definition BYTE_BITS :: nat where "BYTE_BITS = 8"
definition MATCH_BITS :: nat where "MATCH_BITS = 6"
definition MATCH_MIN :: nat where "MATCH_MIN = 3"
definition MATCH_MAX :: nat where "MATCH_MAX = 2 ^ MATCH_BITS + (MATCH_MIN - 1)"
definition OFFSET_MASK :: nat where "OFFSET_MASK = 2 ^ (16 - MATCH_BITS) - 1"
definition LEMPEL_SIZE :: nat where "LEMPEL_SIZE = 1024"

lemmas lzjb_consts = BYTE_BITS_def MATCH_BITS_def MATCH_MIN_def MATCH_MAX_def OFFSET_MASK_def LEMPEL_SIZE_def

lemma andthen_cong [fundef_cong]:
  "r = r' \<Longrightarrow> (\<And>x. r' = Inr x \<Longrightarrow> f x = f' x) \<Longrightarrow> andthen r f = andthen r' f'"
  by (cases r') simp_all

section \<open>Sizes\<close>

function size_digits :: "nat \<Rightarrow> bytes" where
  "size_digits n = byte_of (n mod 128) # (if n div 128 = 0 then [] else size_digits (n div 128))"
  by pat_completeness auto
termination by (relation "measure id") auto

declare size_digits.simps [simp del]

definition size_encode :: "nat \<Rightarrow> bytes" where
  "size_encode n = (let dst = size_digits n in butlast dst @ [last dst OR 0x80])"

fun size_decode_loop :: "bytes \<Rightarrow> nat \<Rightarrow> nat \<Rightarrow> nat \<Rightarrow> (nat \<times> nat) py" where
  "size_decode_loop [] pos val dst_size = Inl Index_error"
| "size_decode_loop (c # src) pos val dst_size =
     (if bit c 7 then Inr (dst_size + val * (unat c mod 128), pos + 1)
      else size_decode_loop src (pos + 1) (val * 128) (dst_size + val * unat c))"

definition size_decode :: "bytes \<Rightarrow> (nat \<times> nat) py" where
  "size_decode src = size_decode_loop src 0 1 0"

section \<open>The decompressor\<close>

text \<open>\<open>while mlen > 0 and dpos < dlen\<close>\<close>

fun lzjb_copy :: "nat \<Rightarrow> nat \<Rightarrow> nat \<Rightarrow> bytes \<Rightarrow> bytes py" where
  "lzjb_copy dlen off 0 dst = Inr dst"
| "lzjb_copy dlen off (Suc mlen) dst =
     (if length dst < dlen then andthen (index dst (length dst - off)) (\<lambda>b. lzjb_copy dlen off mlen (dst @ [b]))
      else Inr dst)"

text \<open>\<open>None\<close> when a match points before the output. \<open>m\<close> is never more than 7.\<close>

function lzjb_loop :: "bytes \<Rightarrow> nat \<Rightarrow> nat \<Rightarrow> nat \<Rightarrow> u8 \<Rightarrow> bytes \<Rightarrow> bytes option py" where
  "lzjb_loop src dlen pos m copymap dst =
     (if pos < length src then
        andthen (if BYTE_BITS \<le> m + 1 then andthen (index src pos) (\<lambda>c. Inr (0, c, pos + 1))
                 else Inr (m + 1, copymap, pos)) (\<lambda>(m', copymap', pos').
        if bit copymap' m' then
          andthen (index src pos') (\<lambda>b0. andthen (index src (pos' + 1)) (\<lambda>b1.
          let mlen = unat b0 div 2 ^ (BYTE_BITS - MATCH_BITS) + MATCH_MIN;
              off = (unat b0 * 2 ^ BYTE_BITS + unat b1) mod (OFFSET_MASK + 1)
          in if length dst < off then Inr None
             else andthen (lzjb_copy dlen off mlen dst) (\<lambda>dst'. lzjb_loop src dlen (pos' + 2) m' copymap' dst')))
        else if length dst < dlen then
          andthen (index src pos') (\<lambda>b. lzjb_loop src dlen (pos' + 1) m' copymap' (dst @ [b]))
        else lzjb_loop src dlen pos' m' copymap' dst)
      else Inr (Some dst))"
  by pat_completeness auto
termination
  by (relation "measure (\<lambda>(src, dlen, pos, m, copymap, dst). 9 * (length src - pos) + (8 - m))")
    (auto simp: BYTE_BITS_def split: if_splits sum.splits simp: andthen_def)

declare lzjb_loop.simps [simp del]

definition lzjb_decompress :: "bytes \<Rightarrow> nat \<Rightarrow> bytes option py" where
  "lzjb_decompress src dlen = lzjb_loop src dlen 0 (BYTE_BITS - 1) 0 []"

section \<open>The compressor\<close>

text \<open>\<open>for mlen in MATCH_RANGE\<close>, which leaves the last value in \<open>mlen\<close> when nothing differs.\<close>

fun match_len :: "bytes \<Rightarrow> nat \<Rightarrow> nat \<Rightarrow> nat list \<Rightarrow> nat \<Rightarrow> nat py" where
  "match_len src pos cpy [] mlen = Inr mlen"
| "match_len src pos cpy (n # ns) mlen =
     andthen (index src (pos + n)) (\<lambda>x. andthen (index src (cpy + n)) (\<lambda>y.
       if x \<noteq> y then Inr n else match_len src pos cpy ns n))"

lemma match_len_member: "match_len src pos cpy ns n = Inr r \<Longrightarrow> r \<in> insert n (set ns)"
  by (induction ns arbitrary: n) (auto simp: andthen_Inr split: if_splits)

lemma match_len_range: "match_len src pos cpy [a..<b] n = Inr r \<Longrightarrow> a < b \<Longrightarrow> a \<le> r \<and> r < b"
  using match_len_member [of src pos cpy "[Suc a..<b]" a r]
  by (auto simp: upt_conv_Cons andthen_Inr split: if_splits)

lemma match_len_consts:
  "match_len src pos cpy [MATCH_MIN..<Suc MATCH_MAX] n = Inr r \<Longrightarrow> 3 \<le> r \<and> r \<le> 66"
  by (drule match_len_range) (simp_all add: lzjb_consts)

definition lzjb_hash :: "u8 \<Rightarrow> u8 \<Rightarrow> u8 \<Rightarrow> nat" where
  "lzjb_hash s0 s1 s2 =
     (let hsh = unat s0 * 2 ^ 16 + unat s1 * 2 ^ 8 + unat s2;
          hsh = hsh + hsh div 2 ^ 9;
          hsh = hsh + hsh div 2 ^ 5
      in hsh mod LEMPEL_SIZE)"

text \<open>\<open>copymap\<close> is the position of the flags of the current group in the output. The two parts of
  the first byte of a match do not overlap.\<close>

function lzjb_comp :: "bytes \<Rightarrow> nat \<Rightarrow> nat \<Rightarrow> nat \<Rightarrow> nat list \<Rightarrow> bytes \<Rightarrow> bytes py" where
  "lzjb_comp src pos m copymap lempel dst =
     (if pos < length src then
        let (m', copymap', dst') = (if BYTE_BITS \<le> m + 1 then (0, length dst, dst @ [0]) else (m + 1, copymap, dst))
        in if int pos > int (length src) - int MATCH_MAX then
             lzjb_comp src (pos + 1) m' copymap' lempel (dst' @ [src ! pos])
           else
             andthen (index src pos) (\<lambda>s0. andthen (index src (pos + 1)) (\<lambda>s1. andthen (index src (pos + 2)) (\<lambda>s2.
             let hsh = lzjb_hash s0 s1 s2;
                 off = nat ((int pos - int (lempel ! hsh)) mod (int OFFSET_MASK + 1));
                 lempel' = lempel[hsh := pos]; cpy = int pos - int off
             in if cpy \<ge> 0 \<and> cpy \<noteq> int pos \<and> slice src pos (pos + 3) = slice src (nat cpy) (nat cpy + 3) then
                  andthen (match_len src pos (nat cpy) [MATCH_MIN..<MATCH_MAX + 1] 0) (\<lambda>mlen.
                  lzjb_comp src (pos + mlen) m' copymap' lempel'
                    (dst'[copymap' := dst' ! copymap' OR 2 ^ m']
                       @ [byte_of ((mlen - MATCH_MIN) * 2 ^ (BYTE_BITS - MATCH_BITS) + off div 2 ^ BYTE_BITS),
                          byte_of (off mod 256)]))
                else lzjb_comp src (pos + 1) m' copymap' lempel' (dst' @ [s0]))))
      else Inr dst)"
  by pat_completeness auto
termination
  by (relation "measure (\<lambda>(src, pos, m, copymap, lempel, dst). length src - pos)")
    (auto dest!: match_len_consts simp del: upt_Suc)

declare lzjb_comp.simps [simp del]

definition lzjb_compress :: "bytes \<Rightarrow> bytes py" where
  "lzjb_compress src = lzjb_comp src 0 (BYTE_BITS - 1) 0 (replicate LEMPEL_SIZE 0) []"

section \<open>The format\<close>

datatype lz_item = Lit u8 | Match (match_off: nat) (match_length: nat)

fun is_match :: "lz_item \<Rightarrow> bool" where
  "is_match (Lit b) = False" | "is_match (Match off n) = True"

fun item_bytes :: "lz_item \<Rightarrow> bytes" where
  "item_bytes (Lit b) = [b]"
| "item_bytes (Match off n) = [byte_of ((n - 3) * 4 + off div 256), byte_of (off mod 256)]"

fun copy_back :: "nat \<Rightarrow> nat \<Rightarrow> bytes \<Rightarrow> bytes" where
  "copy_back off 0 dst = dst"
| "copy_back off (Suc n) dst = copy_back off n (dst @ [dst ! (length dst - off)])"

fun item_apply :: "lz_item \<Rightarrow> bytes \<Rightarrow> bytes" where
  "item_apply (Lit b) dst = dst @ [b]"
| "item_apply (Match off n) dst = copy_back off n dst"

fun item_ok :: "lz_item \<Rightarrow> bytes \<Rightarrow> bool" where
  "item_ok (Lit b) dst = True"
| "item_ok (Match off n) dst = (1 \<le> off \<and> off < 1024 \<and> off \<le> length dst \<and> 3 \<le> n \<and> n \<le> 66)"

fun items_ok :: "lz_item list \<Rightarrow> bytes \<Rightarrow> bool" where
  "items_ok [] dst = True"
| "items_ok (it # its) dst = (item_ok it dst \<and> items_ok its (item_apply it dst))"

definition items_apply :: "lz_item list \<Rightarrow> bytes \<Rightarrow> bytes" where
  "items_apply its dst = fold item_apply its dst"

definition flag_byte :: "lz_item list \<Rightarrow> u8" where
  "flag_byte g = horner_sum of_bool 2 (map is_match g)"

function lz_encode :: "lz_item list \<Rightarrow> bytes" where
  "lz_encode its =
     (if its = [] then []
      else flag_byte (take 8 its) # concat (map item_bytes (take 8 its)) @ lz_encode (drop 8 its))"
  by pat_completeness auto
termination by (relation "measure length") auto

declare lz_encode.simps [simp del]

lemma lz_encode_Nil [simp]: "lz_encode [] = []"
  by (simp add: lz_encode.simps)

lemma bit_flag_byte: "length g \<le> 8 \<Longrightarrow> bit (flag_byte g) i \<longleftrightarrow> i < length g \<and> is_match (g ! i)"
  by (auto simp: flag_byte_def bit_horner_sum_bit_word_iff)

lemma length_copy_back [simp]: "length (copy_back off n dst) = length dst + n"
  by (induction n arbitrary: dst) simp_all

lemma item_apply_longer: "length dst \<le> length (item_apply it dst)"
  by (cases it) simp_all

lemma items_apply_longer: "length dst \<le> length (items_apply its dst)"
  unfolding items_apply_def
  by (induction its arbitrary: dst) (auto intro: le_trans item_apply_longer)

lemma items_apply_Cons [simp]: "items_apply (it # its) dst = items_apply its (item_apply it dst)"
  by (simp add: items_apply_def)

lemma items_apply_Nil [simp]: "items_apply [] dst = dst"
  by (simp add: items_apply_def)

lemma items_apply_append: "items_apply (xs @ ys) dst = items_apply ys (items_apply xs dst)"
  by (simp add: items_apply_def)

lemma items_ok_append: "items_ok (xs @ ys) dst \<longleftrightarrow> items_ok xs dst \<and> items_ok ys (items_apply xs dst)"
  by (induction xs arbitrary: dst) auto

section \<open>Decoding\<close>

lemma lzjb_copy_all:
  "1 \<le> off \<Longrightarrow> off \<le> length dst \<Longrightarrow> length dst + n \<le> dlen \<Longrightarrow> lzjb_copy dlen off n dst = Inr (copy_back off n dst)"
  by (induction n arbitrary: dst) (simp_all add: index_ok)

lemma match_head:
  assumes "off < 1024" and "3 \<le> n" and "n \<le> 66"
  shows "unat (byte_of ((n - 3) * 4 + off div 256)) div 4 + 3 = n"
    and "(unat (byte_of ((n - 3) * 4 + off div 256)) * 256 + unat (byte_of (off mod 256))) mod 1024 = off"
proof -
  have "off div 256 < 4" using assms by (simp add: less_mult_imp_div_less)
  moreover have u: "unat (byte_of ((n - 3) * 4 + off div 256)) = (n - 3) * 4 + off div 256"
    using assms calculation by (intro unat_byte_of) linarith
  ultimately show "unat (byte_of ((n - 3) * 4 + off div 256)) div 4 + 3 = n" using assms by simp
  have "((n - 3) * 4 + off div 256) * 256 + off mod 256 = (n - 3) * 1024 + off"
    using div_mult_mod_eq [of off 256] by (simp add: algebra_simps)
  then show "(unat (byte_of ((n - 3) * 4 + off div 256)) * 256 + unat (byte_of (off mod 256))) mod 1024 = off"
    using assms(1) unfolding u by simp
qed

lemma lzjb_loop_item:
  assumes pos: "pos < length src"
    and load: "(if BYTE_BITS \<le> m + 1 then andthen (index src pos) (\<lambda>c. Inr (0, c, pos + 1)) else Inr (m + 1, c, pos)) = Inr (m', c', pos')"
    and d: "drop pos' src = item_bytes it @ rest" and fl: "bit c' m' = is_match it" and ok: "item_ok it dst"
    and room: "length (item_apply it dst) \<le> dlen"
  shows "lzjb_loop src dlen pos m c dst = lzjb_loop src dlen (pos' + length (item_bytes it)) m' c' (item_apply it dst)"
proof (cases it)
  case (Lit b)
  then have "index src pos' = Inr b" using d index_drop [of pos' src b rest] by simp
  then show ?thesis
    using Lit fl room unfolding lzjb_loop.simps [of src dlen pos] load if_P [OF pos] by simp
next
  case (Match off n)
  let ?b0 = "byte_of ((n - 3) * 4 + off div 256)" and ?b1 = "byte_of (off mod 256)"
  have i: "index src pos' = Inr ?b0" "index src (pos' + 1) = Inr ?b1"
    using d Match index_drop [of pos' src ?b0 "?b1 # rest"] index_drop [of "pos' + 1" src ?b1 rest]
    by (simp_all add: drop_Suc drop_tl)
  have o: "1 \<le> off" "off < 1024" "off \<le> length dst" "3 \<le> n" "n \<le> 66" using ok Match by simp_all
  have h: "unat ?b0 div 2 ^ (BYTE_BITS - MATCH_BITS) + MATCH_MIN = n"
    "(unat ?b0 * 2 ^ BYTE_BITS + unat ?b1) mod (OFFSET_MASK + 1) = off"
    using match_head [OF o(2,4,5)] by (simp_all add: lzjb_consts)
  have f: "bit c' m'" using fl Match by simp
  have "\<not> length dst < off" using o by simp
  then show ?thesis
    using room Match lzjb_copy_all [OF o(1,3), of n dlen]
    unfolding lzjb_loop.simps [of src dlen pos] load if_P [OF pos] andthen_simps prod.case if_P [OF f] i Let_def h
    by simp
qed

lemma item_bytes_ne: "item_bytes it \<noteq> []"
  by (cases it) simp_all

lemma drop_ne: "drop pos src = xs @ ys \<Longrightarrow> xs \<noteq> [] \<Longrightarrow> pos < length src"
  by (metis append_is_Nil_conv drop_all not_less)

lemma drop_further: "drop pos src = xs @ ys \<Longrightarrow> drop (pos + length xs) src = ys"
  by (metis add.commute append_eq_conv_conj drop_drop)

lemma lzjb_loop_group:
  "drop pos src = concat (map item_bytes g) @ rest \<Longrightarrow> m + length g \<le> 7 \<Longrightarrow>
   \<forall>i < length g. bit c (m + 1 + i) = is_match (g ! i) \<Longrightarrow> items_ok g dst \<Longrightarrow>
   length (items_apply g dst) \<le> dlen \<Longrightarrow>
   lzjb_loop src dlen pos m c dst
     = lzjb_loop src dlen (pos + length (concat (map item_bytes g))) (m + length g) c (items_apply g dst)"
proof (induction g arbitrary: pos m dst)
  case (Cons it g)
  have d: "drop pos src = item_bytes it @ concat (map item_bytes g) @ rest" using Cons.prems(1) by simp
  have ld: "(if BYTE_BITS \<le> m + 1 then andthen (index src pos) (\<lambda>c. Inr (0, c, pos + 1)) else Inr (m + 1, c, pos))
      = Inr (m + 1, c, pos)" using Cons.prems(2) by (simp add: BYTE_BITS_def)
  have fl: "bit c (m + 1) = is_match it" using Cons.prems(3)[rule_format, of 0] by simp
  have room: "length (item_apply it dst) \<le> dlen"
    using Cons.prems(5) items_apply_longer [of "item_apply it dst" g] by simp
  have "lzjb_loop src dlen pos m c dst = lzjb_loop src dlen (pos + length (item_bytes it)) (m + 1) c (item_apply it dst)"
    using Cons.prems(4) by (intro lzjb_loop_item [OF drop_ne [OF d item_bytes_ne] ld d fl _ room]) simp
  also have "\<dots> = lzjb_loop src dlen (pos + length (item_bytes it) + length (concat (map item_bytes g)))
      (m + 1 + length g) c (items_apply g (item_apply it dst))"
  proof (rule Cons.IH [OF drop_further [OF d]])
    show "\<forall>i < length g. bit c (m + 1 + 1 + i) = is_match (g ! i)"
      using Cons.prems(3)[rule_format, of "Suc i" for i] by auto
  qed (use Cons.prems in simp_all)
  finally show ?case by (simp add: add.assoc)
qed simp

lemma lzjb_loop_encoded:
  "drop pos src = lz_encode its @ rest \<Longrightarrow> its = [] \<or> m = 7 \<Longrightarrow> \<forall>i. m < i \<longrightarrow> \<not> bit c i \<Longrightarrow> items_ok its dst \<Longrightarrow>
   length (items_apply its dst) \<le> dlen \<Longrightarrow>
   \<exists>m' c'. (\<forall>i. m' < i \<longrightarrow> \<not> bit c' i) \<and>
     lzjb_loop src dlen pos m c dst = lzjb_loop src dlen (pos + length (lz_encode its)) m' c' (items_apply its dst)"
proof (induction its arbitrary: pos m c dst rule: lz_encode.induct)
  case (1 its)
  show ?case
  proof (cases "its = []")
    case True
    then show ?thesis using 1(4) by auto
  next
    case False
    define g r where "g = take 8 its" and "r = drop 8 its"
    have gr: "its = g @ r" by (simp add: g_def r_def)
    obtain it g' where g: "g = it # g'" using False by (cases its) (auto simp: g_def)
    have lg: "length g \<le> 8" by (simp add: g_def)
    have enc: "lz_encode its = flag_byte g # concat (map item_bytes g) @ lz_encode r"
      using False by (simp add: lz_encode.simps [of its] g_def r_def)
    have d0: "drop pos src = flag_byte g # concat (map item_bytes g) @ lz_encode r @ rest" using 1(2) enc by simp
    have d1: "drop (pos + 1) src = item_bytes it @ concat (map item_bytes g') @ lz_encode r @ rest"
      using drop_further [of pos src "[flag_byte g]"] d0 g by simp
    have m: "m = 7" using 1(3) False by simp
    have ld: "(if BYTE_BITS \<le> m + 1 then andthen (index src pos) (\<lambda>c. Inr (0, c, pos + 1)) else Inr (m + 1, c, pos))
        = Inr (0, flag_byte g, pos + 1)" using index_drop [OF d0] by (simp add: m BYTE_BITS_def)
    have fl: "bit (flag_byte g) 0 = is_match it" unfolding bit_flag_byte [OF lg] by (simp add: g)
    have ok: "items_ok g dst" "items_ok r (items_apply g dst)" using 1(5) by (simp_all add: gr items_ok_append)
    have room: "length (items_apply g dst) \<le> dlen" "length (items_apply r (items_apply g dst)) \<le> dlen"
      using 1(6) items_apply_longer [of "items_apply g dst" r] by (simp_all add: gr items_apply_append)
    have room1: "length (item_apply it dst) \<le> dlen"
      using room(1) items_apply_longer [of "item_apply it dst" g'] by (simp add: g)
    have "lzjb_loop src dlen pos m c dst
        = lzjb_loop src dlen (pos + 1 + length (item_bytes it)) 0 (flag_byte g) (item_apply it dst)"
      using ok(1) g by (intro lzjb_loop_item [OF _ ld d1 fl _ room1] drop_ne [of pos src "[flag_byte g]"])
        (simp_all add: d0)
    also have "\<dots> = lzjb_loop src dlen (pos + 1 + length (item_bytes it) + length (concat (map item_bytes g')))
        (0 + length g') (flag_byte g) (items_apply g' (item_apply it dst))"
    proof (rule lzjb_loop_group [OF drop_further [OF d1]])
      show "\<forall>i < length g'. bit (flag_byte g) (0 + 1 + i) = is_match (g' ! i)"
        unfolding bit_flag_byte [OF lg] by (simp add: g)
    qed (use lg ok(1) room(1) in \<open>simp_all add: g\<close>)
    finally have a: "lzjb_loop src dlen pos m c dst
        = lzjb_loop src dlen (pos + 1 + length (concat (map item_bytes g))) (length g') (flag_byte g) (items_apply g dst)"
      by (simp add: g add.assoc)
    have d2: "drop (pos + 1 + length (concat (map item_bytes g))) src = lz_encode r @ rest"
      using drop_further [of pos src "flag_byte g # concat (map item_bytes g)"] d0 by simp
    have "r = [] \<or> length g' = 7" using g by (auto simp: g_def r_def min_def split: if_splits dest!: arg_cong [of _ _ length])
    moreover have "\<forall>i. length g' < i \<longrightarrow> \<not> bit (flag_byte g) i" unfolding bit_flag_byte [OF lg] by (simp add: g)
    ultimately obtain m' c' where "\<forall>i. m' < i \<longrightarrow> \<not> bit c' i"
      "lzjb_loop src dlen (pos + 1 + length (concat (map item_bytes g))) (length g') (flag_byte g) (items_apply g dst)
        = lzjb_loop src dlen (pos + 1 + length (concat (map item_bytes g)) + length (lz_encode r)) m' c'
            (items_apply r (items_apply g dst))"
      using 1(1) [OF False, folded r_def, OF d2 _ _ ok(2) room(2)] by blast
    moreover have "items_apply its dst = items_apply r (items_apply g dst)" by (simp add: gr items_apply_append)
    ultimately show ?thesis using a by (auto simp: enc add.assoc)
  qed
qed

text \<open>Zeros behind the block, up to the end of the sector, change nothing.\<close>

lemma lzjb_loop_zeros:
  "\<forall>b \<in> set (drop pos src). b = 0 \<Longrightarrow> \<forall>i. m < i \<longrightarrow> \<not> bit c i \<Longrightarrow> dlen \<le> length dst \<Longrightarrow>
   lzjb_loop src dlen pos m c dst = Inr (Some dst)"
proof (induction "9 * (length src - pos) + (8 - m)" arbitrary: pos m c rule: less_induct)
  case less
  show ?case
  proof (cases "pos < length src")
    case False
    then show ?thesis by (simp add: lzjb_loop.simps)
  next
    case True
    have z: "src ! pos = 0" using less.prems(1) True by (simp add: Cons_nth_drop_Suc [symmetric])
    have n: "\<not> length dst < dlen" using less.prems(3) by simp
    show ?thesis
    proof (cases "BYTE_BITS \<le> m + 1")
      case b: True
      have "lzjb_loop src dlen (pos + 1) 0 0 dst = Inr (Some dst)"
        using less.prems True
        by (intro less.hyps) (auto dest: in_set_dropD simp: Cons_nth_drop_Suc [symmetric])
      then show ?thesis
        unfolding lzjb_loop.simps [of src dlen pos] if_P [OF True] if_P [OF b] index_ok [OF True] z
        using n by simp
    next
      case b: False
      have nb: "\<not> bit c (m + 1)" using less.prems(2) by simp
      have "lzjb_loop src dlen pos (m + 1) c dst = Inr (Some dst)"
        using less.prems b by (intro less.hyps) (auto simp: BYTE_BITS_def)
      then show ?thesis
        unfolding lzjb_loop.simps [of src dlen pos] if_P [OF True] if_not_P [OF b] andthen_simps prod.case if_not_P [OF nb]
        using n by simp
    qed
  qed
qed

lemma lzjb_decodes:
  assumes "items_ok its []" and "length (items_apply its []) = dlen"
  shows "lzjb_decompress (lz_encode its @ replicate k 0) dlen = Inr (Some (items_apply its []))"
proof -
  let ?src = "lz_encode its @ replicate k 0"
  have "\<forall>i. 7 < i \<longrightarrow> \<not> bit (0 :: u8) i" by simp
  then obtain m' c' where "\<forall>i. m' < i \<longrightarrow> \<not> bit c' i"
    "lzjb_loop ?src dlen 0 7 0 [] = lzjb_loop ?src dlen (0 + length (lz_encode its)) m' c' (items_apply its [])"
    using lzjb_loop_encoded [of 0 ?src its "replicate k 0" 7 0 "[]" dlen] assms by auto
  moreover have "lzjb_loop ?src dlen (0 + length (lz_encode its)) m' c' (items_apply its []) = Inr (Some (items_apply its []))"
    using calculation(1) assms(2) by (intro lzjb_loop_zeros) simp_all
  ultimately show ?thesis by (simp add: lzjb_decompress_def BYTE_BITS_def)
qed

section \<open>What the compressor writes\<close>

lemma lz_encode_full: "8 dvd length full \<Longrightarrow> lz_encode (full @ g) = lz_encode full @ lz_encode g"
proof (induction full rule: lz_encode.induct)
  case (1 full)
  show ?case
  proof (cases "full = []")
    case False
    then have l: "8 \<le> length full" using 1(2) by (simp add: dvd_imp_le)
    have "lz_encode (drop 8 full @ g) = lz_encode (drop 8 full) @ lz_encode g"
      using 1(2) l by (intro 1(1) [OF False]) (simp add: dvd_minus_self)
    then show ?thesis using False l by (simp add: lz_encode.simps [of "full @ g"] lz_encode.simps [of full])
  qed simp
qed

lemma lz_encode_group:
  "g \<noteq> [] \<Longrightarrow> length g \<le> 8 \<Longrightarrow> lz_encode g = flag_byte g # concat (map item_bytes g)"
  by (simp add: lz_encode.simps [of g])

lemma flag_byte_snoc:
  assumes "length g < 8"
  shows "flag_byte (g @ [it]) = (if is_match it then flag_byte g OR 2 ^ length g else flag_byte g)"
proof (rule bit_word_eqI)
  fix i assume "i < LENGTH(8)"
  then show "bit (flag_byte (g @ [it])) i = bit (if is_match it then flag_byte g OR 2 ^ length g else flag_byte g) i"
    using assms by (auto simp: bit_flag_byte nth_append bit_simps less_Suc_eq)
qed

lemma flag_byte_Nil [simp]: "flag_byte [] = 0"
  by (simp add: flag_byte_def)

text \<open>The output so far is a sequence of full groups and the group that is being filled.\<close>

definition comp_state :: "lz_item list \<Rightarrow> lz_item list \<Rightarrow> nat \<Rightarrow> nat \<Rightarrow> bytes \<Rightarrow> bool" where
  "comp_state full g m copymap dst \<longleftrightarrow>
     8 dvd length full \<and> length g \<le> 8 \<and>
     (if g = [] then full = [] \<and> m = 7 \<and> dst = []
      else m = length g - 1 \<and> copymap = length (lz_encode full)
        \<and> dst = lz_encode full @ flag_byte g # concat (map item_bytes g))"

lemma comp_state_encode: "comp_state full g m copymap dst \<Longrightarrow> dst = lz_encode (full @ g)"
  by (auto simp: comp_state_def lz_encode_full lz_encode_group split: if_splits)

text \<open>The start of a round of the loop opens a new group when the last one is full.\<close>

lemma comp_state_open:
  assumes "comp_state full g m copymap dst"
    and "(m', copymap', dst') = (if BYTE_BITS \<le> m + 1 then (0, length dst, dst @ [0]) else (m + 1, copymap, dst))"
  shows "\<exists>full' g'. full' @ g' = full @ g \<and> 8 dvd length full' \<and> length g' < 8 \<and> m' = length g'
    \<and> copymap' = length (lz_encode full') \<and> dst' = lz_encode full' @ flag_byte g' # concat (map item_bytes g')"
proof (cases "BYTE_BITS \<le> m + 1")
  case True
  have "full @ g = [] \<or> length g = 8" using True assms(1) by (auto simp: comp_state_def BYTE_BITS_def split: if_splits)
  then have "8 dvd length (full @ g)" using assms(1) by (auto simp: comp_state_def)
  moreover have "dst = lz_encode (full @ g)" by (rule comp_state_encode [OF assms(1)])
  ultimately show ?thesis using True assms(2) by (intro exI [of _ "full @ g"] exI [of _ "[]"]) simp
next
  case False
  then have "g \<noteq> []" using assms(1) by (auto simp: comp_state_def BYTE_BITS_def)
  then have "m + 1 = length g" using assms(1) by (cases g) (auto simp: comp_state_def)
  moreover have "(m', copymap', dst') = (m + 1, copymap, dst)" using assms(2) unfolding if_not_P [OF False] .
  ultimately show ?thesis
    by - (rule exI [of _ full], rule exI [of _ g], use \<open>g \<noteq> []\<close> False assms(1) in \<open>auto simp: comp_state_def BYTE_BITS_def\<close>)
qed

lemma comp_state_add:
  assumes "8 dvd length full" and "length g < 8"
  shows "comp_state full (g @ [it]) (length g) (length (lz_encode full))
    (lz_encode full @ flag_byte (g @ [it]) # concat (map item_bytes g) @ item_bytes it)"
  using assms by (simp add: comp_state_def)

lemma match_len_same:
  "match_len src pos cpy [a..<b] n = Inr r \<Longrightarrow> a < b \<Longrightarrow>
   pos + r < length src \<and> (\<forall>i. a \<le> i \<and> i < r \<longrightarrow> src ! (pos + i) = src ! (cpy + i))"
proof (induction "b - a" arbitrary: a n)
  case (Suc k)
  have u: "[a..<b] = a # [Suc a..<b]" using Suc.prems(2) by (simp add: upt_conv_Cons)
  obtain x y where x: "index src (pos + a) = Inr x" "index src (cpy + a) = Inr y"
    and e: "(if x \<noteq> y then Inr a else match_len src pos cpy [Suc a..<b] a) = Inr r"
    using Suc.prems(1) unfolding u by (auto simp: andthen_Inr)
  have xy: "pos + a < length src" "src ! (pos + a) = x" "src ! (cpy + a) = y" using x by (auto simp: index_def split: if_splits)
  show ?case
  proof (cases "x = y \<and> Suc a < b")
    case True
    then have "pos + r < length src \<and> (\<forall>i. Suc a \<le> i \<and> i < r \<longrightarrow> src ! (pos + i) = src ! (cpy + i))"
      using Suc.hyps(2) e by (intro Suc.hyps(1)) auto
    then show ?thesis using xy True by (metis Suc_leI le_neq_implies_less)
  next
    case False
    then have "r = a" using e by (auto split: if_splits)
    then show ?thesis using xy by auto
  qed
qed simp

lemma copy_back_take:
  "1 \<le> off \<Longrightarrow> off \<le> pos \<Longrightarrow> pos + n \<le> length src \<Longrightarrow> \<forall>i < n. src ! (pos + i) = src ! (pos - off + i) \<Longrightarrow>
   copy_back off n (take pos src) = take (pos + n) src"
proof (induction n arbitrary: pos)
  case (Suc n)
  have "take pos src ! (length (take pos src) - off) = src ! pos"
    using Suc.prems(1-3) Suc.prems(4)[rule_format, of 0] by simp
  then have "copy_back off (Suc n) (take pos src) = copy_back off n (take (Suc pos) src)"
    using Suc.prems(3) by (simp add: take_Suc_conv_app_nth)
  also have "\<dots> = take (Suc pos + n) src"
  proof (rule Suc.IH)
    show "\<forall>i < n. src ! (Suc pos + i) = src ! (Suc pos - off + i)"
      using Suc.prems(2) Suc.prems(4)[rule_format, of "Suc i" for i] by (auto simp: Suc_diff_le)
  qed (use Suc.prems in simp_all)
  finally show ?case by simp
qed simp

lemma slice3_nth: "slice xs a (a + 3) = slice xs b (b + 3) \<Longrightarrow> a + 3 \<le> length xs \<Longrightarrow> b + 3 \<le> length xs \<Longrightarrow> i < 3 \<Longrightarrow> xs ! (a + i) = xs ! (b + i)"
  by (drule arg_cong [of _ _ "\<lambda>ys. ys ! i"]) (simp add: slice_def)

text \<open>One match the compressor takes.\<close>

lemma match_item_ok:
  assumes m: "match_len src pos (pos - off) [MATCH_MIN..<MATCH_MAX + 1] 0 = Inr n" and off: "1 \<le> off" "off \<le> pos" "off < 1024"
    and s: "slice src pos (pos + 3) = slice src (pos - off) (pos - off + 3)" and room: "pos + 66 \<le> length src"
  shows "item_ok (Match off n) (take pos src)" and "item_apply (Match off n) (take pos src) = take (pos + n) src"
    and "pos + n \<le> length src"
proof -
  have r: "3 \<le> n" "n \<le> 66" using m match_len_consts [of src pos "pos - off" 0 n] by (simp_all del: upt_Suc)
  have t: "pos + n < length src" "\<forall>i. 3 \<le> i \<and> i < n \<longrightarrow> src ! (pos + i) = src ! (pos - off + i)"
    using match_len_same [OF m] by (simp_all add: lzjb_consts)
  have "src ! (pos + i) = src ! (pos - off + i)" if "i < n" for i
    using that t(2) slice3_nth [OF s, of i] room off by (cases "i < 3") auto
  then show "item_apply (Match off n) (take pos src) = take (pos + n) src"
    using off t(1) by (auto intro: copy_back_take)
  show "item_ok (Match off n) (take pos src)" "pos + n \<le> length src" using off r t(1) by simp_all
qed

lemma lzjb_comp_sound:
  "lzjb_comp src pos m copymap lempel dst = Inr c \<Longrightarrow> comp_state full g m copymap dst \<Longrightarrow> items_ok (full @ g) [] \<Longrightarrow>
   items_apply (full @ g) [] = take pos src \<Longrightarrow> pos \<le> length src \<Longrightarrow>
   \<exists>its. c = lz_encode its \<and> items_ok its [] \<and> items_apply its [] = src"
proof (induction "length src - pos" arbitrary: pos m copymap lempel dst full g rule: less_induct)
  case less
  show ?case
  proof (cases "pos < length src")
    case False
    then have "take pos src = src" "c = dst"
      using less.prems(1) unfolding lzjb_comp.simps [of src pos] if_not_P [OF False] by simp_all
    then show ?thesis using comp_state_encode [OF less.prems(2)] less.prems(3,4) by metis
  next
    case True
    obtain m' copymap' dst' where o: "(m', copymap', dst') = (if BYTE_BITS \<le> m + 1 then (0, length dst, dst @ [0]) else (m + 1, copymap, dst))"
      by (metis prod_cases3)
    obtain full' g' where fg: "full' @ g' = full @ g" "8 dvd length full'" "length g' < 8" "m' = length g'"
      "copymap' = length (lz_encode full')" "dst' = lz_encode full' @ flag_byte g' # concat (map item_bytes g')"
      using comp_state_open [OF less.prems(2) o] by blast
    have ok: "items_ok (full' @ g') []" "items_apply (full' @ g') [] = take pos src" using fg(1) less.prems(3,4) by simp_all
    have next1: "\<exists>its. c = lz_encode its \<and> items_ok its [] \<and> items_apply its [] = src"
      if r: "lzjb_comp src (pos + k) m' copymap' l' (lz_encode full' @ flag_byte (g' @ [it]) # concat (map item_bytes g') @ item_bytes it) = Inr c"
        and k: "0 < k" "pos + k \<le> length src" and it: "item_ok it (take pos src)" "item_apply it (take pos src) = take (pos + k) src"
      for k l' it
    proof (rule less.hyps [OF _ r])
      show "comp_state full' (g' @ [it]) m' copymap' (lz_encode full' @ flag_byte (g' @ [it]) # concat (map item_bytes g') @ item_bytes it)"
        using comp_state_add [OF fg(2,3)] fg(4,5) by simp
      show "items_ok (full' @ g' @ [it]) []" "items_apply (full' @ g' @ [it]) [] = take (pos + k) src"
        using ok it items_ok_append [of "full' @ g'" "[it]" "[]"] items_apply_append [of "full' @ g'" "[it]" "[]"] by simp_all
    qed (use True k in simp_all)
    have lit: "\<exists>its. c = lz_encode its \<and> items_ok its [] \<and> items_apply its [] = src"
      if "lzjb_comp src (pos + 1) m' copymap' l' (dst' @ [src ! pos]) = Inr c" for l'
      using that True fg(3,6) by (intro next1 [of 1 l' "Lit (src ! pos)"])
        (simp_all add: flag_byte_snoc take_Suc_conv_app_nth)
    show ?thesis
    proof (cases "int pos > int (length src) - int MATCH_MAX")
      case far: True
      show ?thesis
        using less.prems(1) unfolding lzjb_comp.simps [of src pos] if_P [OF True] o [symmetric] Let_def prod.case if_P [OF far]
        by (rule lit)
    next
      case far: False
      then have room: "pos + 66 \<le> length src" by (simp add: lzjb_consts)
      obtain s0 s1 s2 where i: "index src pos = Inr s0" "index src (pos + 1) = Inr s1" "index src (pos + 2) = Inr s2"
        using room by (simp add: index_def)
      have s0: "s0 = src ! pos" using i(1) by (auto simp: index_def split: if_splits)
      define hsh off where "hsh = lzjb_hash s0 s1 s2" and "off = nat ((int pos - int (lempel ! hsh)) mod (int OFFSET_MASK + 1))"
      have ol: "off < 1024" unfolding off_def by (simp add: lzjb_consts nat_less_iff)
      define taken where "taken \<longleftrightarrow> int pos - int off \<ge> 0 \<and> int pos - int off \<noteq> int pos
          \<and> slice src pos (pos + 3) = slice src (nat (int pos - int off)) (nat (int pos - int off) + 3)"
      have r: "(if taken then andthen (match_len src pos (nat (int pos - int off)) [MATCH_MIN..<MATCH_MAX + 1] 0) (\<lambda>mlen.
                  lzjb_comp src (pos + mlen) m' copymap' (lempel[hsh := pos])
                    (dst'[copymap' := dst' ! copymap' OR 2 ^ m']
                       @ [byte_of ((mlen - MATCH_MIN) * 2 ^ (BYTE_BITS - MATCH_BITS) + off div 2 ^ BYTE_BITS), byte_of (off mod 256)]))
                else lzjb_comp src (pos + 1) m' copymap' (lempel[hsh := pos]) (dst' @ [s0])) = Inr c"
        using less.prems(1)
        unfolding lzjb_comp.simps [of src pos] if_P [OF True] o [symmetric] Let_def prod.case if_not_P [OF far] i andthen_simps
          hsh_def [symmetric] off_def [symmetric] taken_def [symmetric] .
      show ?thesis
      proof (cases taken)
        case False
        then show ?thesis using r lit s0 by simp
      next
        case t: True
        have off: "1 \<le> off" "off \<le> pos" "nat (int pos - int off) = pos - off" using t by (auto simp: taken_def)
        have ib: "[byte_of ((n - MATCH_MIN) * 2 ^ (BYTE_BITS - MATCH_BITS) + off div 2 ^ BYTE_BITS), byte_of (off mod 256)]
            = item_bytes (Match off n)" for n by (simp add: lzjb_consts)
        obtain n where n: "match_len src pos (pos - off) [MATCH_MIN..<MATCH_MAX + 1] 0 = Inr n"
          and c: "lzjb_comp src (pos + n) m' copymap' (lempel[hsh := pos])
                    (dst'[copymap' := dst' ! copymap' OR 2 ^ m'] @ item_bytes (Match off n)) = Inr c"
          using r unfolding if_P [OF t] off(3) andthen_Inr ib by blast
        have sl: "slice src pos (pos + 3) = slice src (pos - off) (pos - off + 3)" using t off(3) by (simp add: taken_def)
        note mi = match_item_ok [OF n off(1,2) ol sl room]
        have e: "dst'[copymap' := dst' ! copymap' OR 2 ^ m'] @ item_bytes (Match off n)
            = lz_encode full' @ flag_byte (g' @ [Match off n]) # concat (map item_bytes g') @ item_bytes (Match off n)"
          using fg(3) by (simp add: fg(4-6) flag_byte_snoc nth_append)
        have "0 < n" using n match_len_consts [of src pos "pos - off" 0 n] by (simp del: upt_Suc)
        then show ?thesis by (rule next1 [OF c [unfolded e] _ mi(3,1,2)])
      qed
    qed
  qed
qed

section \<open>When the compressor raises\<close>

lemma match_len_error: "match_len src pos cpy ns n = Inl e \<Longrightarrow> e = Index_error"
  by (induction ns arbitrary: n) (auto simp: andthen_def index_def split: if_splits sum.splits)

lemma lzjb_comp_error: "lzjb_comp src pos m copymap lempel dst = Inl e \<Longrightarrow> e = Index_error \<and> 67 \<le> length src"
proof (induction "length src - pos" arbitrary: pos m copymap lempel dst rule: less_induct)
  case less
  have pos: "pos < length src" using less.prems by (subst (asm) lzjb_comp.simps) (auto split: if_splits)
  have next1: "e = Index_error \<and> 67 \<le> length src" if "lzjb_comp src (pos + k) m1 c1 l1 d1 = Inl e" "0 < k" for k m1 c1 l1 d1
    using that pos by (intro less.hyps [of "pos + k" m1 c1 l1 d1]) simp_all
  obtain m' copymap' dst' where o: "(if BYTE_BITS \<le> m + 1 then (0, length dst, dst @ [0]) else (m + 1, copymap, dst)) = (m', copymap', dst')"
    by (metis prod_cases3)
  show ?case
  proof (cases "int pos > int (length src) - int MATCH_MAX")
    case True
    show ?thesis using next1 [of 1] less.prems
      unfolding lzjb_comp.simps [of src pos] if_P [OF pos] o Let_def prod.case if_P [OF True] by simp
  next
    case far: False
    then have room: "pos + 66 \<le> length src" by (simp add: lzjb_consts)
    obtain s0 s1 s2 where i: "index src pos = Inr s0" "index src (pos + 1) = Inr s1" "index src (pos + 2) = Inr s2"
      using room by (simp add: index_def)
    define hsh off where "hsh = lzjb_hash s0 s1 s2" and "off = nat ((int pos - int (lempel ! hsh)) mod (int OFFSET_MASK + 1))"
    define taken where "taken \<longleftrightarrow> int pos - int off \<ge> 0 \<and> int pos - int off \<noteq> int pos
        \<and> slice src pos (pos + 3) = slice src (nat (int pos - int off)) (nat (int pos - int off) + 3)"
    note r = less.prems [unfolded lzjb_comp.simps [of src pos] if_P [OF pos] o Let_def prod.case if_not_P [OF far] i andthen_simps
          hsh_def [symmetric] off_def [symmetric] taken_def [symmetric]]
    show ?thesis
    proof (cases taken)
      case True
      then have "1 \<le> pos" by (auto simp: taken_def)
      then have l: "67 \<le> length src" using room by simp
      show ?thesis
      proof (cases "match_len src pos (nat (int pos - int off)) [MATCH_MIN..<MATCH_MAX + 1] 0")
        case (Inl e')
        then show ?thesis using r l match_len_error [OF Inl] unfolding if_P [OF True] by simp
      next
        case (Inr n)
        have "0 < n" using Inr match_len_consts [of src pos "nat (int pos - int off)" 0 n] by (simp del: upt_Suc)
        then show ?thesis using next1 [of n] r unfolding if_P [OF True] Inr andthen_simps by blast
      qed
    next
      case False
      then show ?thesis using r next1 [of 1] by simp
    qed
  qed
qed

lemma match_len_run:
  "a < b \<Longrightarrow> cpy \<le> pos \<Longrightarrow> N < pos + b \<Longrightarrow> match_len (replicate N x) pos cpy [a..<b] n = Inl Index_error"
proof (induction "b - a" arbitrary: a n)
  case (Suc k)
  have u: "[a..<b] = a # [Suc a..<b]" using Suc.prems(1) by (simp add: upt_conv_Cons)
  show ?case
  proof (cases "pos + a < N")
    case True
    then show ?thesis using Suc.hyps(1) [of "Suc a" a] Suc.hyps(2) Suc.prems unfolding u by (simp add: index_def)
  next
    case False
    then show ?thesis unfolding u by (simp add: index_def)
  qed
qed simp

section \<open>Reading a size back\<close>

lemma high_bit:
  assumes n: "n < 128"
  shows "\<not> bit (byte_of n) 7" and "bit (byte_of n OR 0x80) 7" and "unat (byte_of n OR 0x80) mod 128 = n"
proof -
  have "bit (byte_of n) 7 = bit (unat (byte_of n)) 7" by (simp add: bit_unsigned_iff)
  also have "\<dots> = odd (n div 2 ^ 7)" using n by (simp only: bit_iff_odd) simp
  finally show nb: "\<not> bit (byte_of n) 7" using n by simp
  have bit7: "bit (0x80 :: u8) i \<longleftrightarrow> i = 7" for i
    using bit_exp_iff [of 7 i, where 'a = u8] by (auto simp: bit_simps)
  show "bit (byte_of n OR 0x80) 7" by (simp add: bit_or_iff bit7)
  have "byte_of n OR 0x80 = byte_of n + 0x80"
    by (rule disjunctive_add [symmetric]) (metis bit7 nb)
  then show "unat (byte_of n OR 0x80) mod 128 = n" using n by (simp add: unat_word_ariths)
qed

lemma size_digits_ne: "size_digits n \<noteq> []"
  by (simp add: size_digits.simps)

lemma size_decode_digits:
  "size_decode_loop (butlast (size_digits n) @ (last (size_digits n) OR 0x80) # rest) pos val acc
    = Inr (acc + val * n, pos + length (size_digits n))"
proof (induction n arbitrary: pos val acc rule: size_digits.induct)
  case (1 n)
  note hb = high_bit [of "n mod 128"]
  show ?case
  proof (cases "n div 128 = 0")
    case True
    then show ?thesis using hb by (simp add: size_digits.simps [of n])
  next
    case False
    have "acc + val * (n mod 128) + val * 128 * (n div 128) = acc + val * (n mod 128 + 128 * (n div 128))"
      by (simp only: distrib_left mult.assoc add.assoc)
    also have "\<dots> = acc + val * n" by simp
    finally show ?thesis
      using False hb 1 [OF False, of "pos + 1" "val * 128" "acc + val * (n mod 128)"]
      by (simp add: size_digits.simps [of n] size_digits_ne)
  qed
qed

section \<open>Properties\<close>

text \<open>
  \<open>size_decode\<close> reads back every size \<open>size_encode\<close> wrote, whatever follows, and tells how
  many bytes it took.
\<close>

theorem lzjb_sizes: "size_decode (size_encode n @ rest) = Inr (n, length (size_encode n))"
  using size_decode_digits [of n rest 0 1 0] size_digits_ne [of n]
  by (simp add: size_decode_def size_encode_def Let_def)

text \<open>
  C25: what \<open>lzjb_compress\<close> returns, \<open>lzjb_decompress\<close> turns back into the input,
  also with zeros behind it up to the end of a sector. The compressor returns for every input
  of up to 66 bytes; for longer ones it can raise \<open>IndexError\<close> and nothing else.
\<close>

theorem lzjb_roundtrip:
  "case lzjb_compress src of
     Inr c \<Rightarrow> lzjb_decompress (c @ replicate k 0) (length src) = Inr (Some src)
   | Inl e \<Rightarrow> e = Index_error \<and> 67 \<le> length src"
proof (cases "lzjb_compress src")
  case (Inl e)
  then show ?thesis using lzjb_comp_error [of src] by (simp add: lzjb_compress_def)
next
  case (Inr c)
  have "comp_state [] [] 7 0 []" by (simp add: comp_state_def)
  then obtain its where "c = lz_encode its" "items_ok its []" "items_apply its [] = src"
    using lzjb_comp_sound [of src 0 7 0 _ "[]" c "[]" "[]"] Inr by (auto simp: lzjb_compress_def BYTE_BITS_def)
  then show ?thesis using lzjb_decodes [of its "length src" k] Inr by simp
qed

text \<open>
  A run of 67 equal bytes is such an input: the comparison for the longest
  match looks one byte past the end.
\<close>

theorem lzjb_compress_raises: "lzjb_compress (replicate 67 b) = Inl Index_error"
proof -
  let ?src = "replicate 67 b" and ?l = "replicate LEMPEL_SIZE 0"
  define h where "h = lzjb_hash b b b"
  have h: "h < LEMPEL_SIZE" by (simp add: h_def lzjb_hash_def Let_def lzjb_consts)
  have i: "index ?src n = Inr b" if "n < 67" for n using that by (simp add: index_def)
  have p: "0 < length ?src" "1 < length ?src" "\<not> int 0 > int (length ?src) - int MATCH_MAX"
    "\<not> int 1 > int (length ?src) - int MATCH_MAX" "BYTE_BITS \<le> 7 + 1" "\<not> BYTE_BITS \<le> 0 + 1"
    by (simp_all add: lzjb_consts)
  have ii: "index ?src 0 = Inr b" "index ?src (0 + 1) = Inr b" "index ?src (0 + 2) = Inr b"
    "index ?src 1 = Inr b" "index ?src (1 + 1) = Inr b" "index ?src (1 + 2) = Inr b"
    by (simp_all add: i)
  have "lzjb_comp ?src 0 7 0 ?l [] = lzjb_comp ?src 1 0 0 (?l[h := 0]) [0, b]"
    unfolding lzjb_comp.simps [of ?src 0] if_P [OF p(1)] if_P [OF p(5)] Let_def prod.case if_not_P [OF p(3)] ii andthen_simps
      h_def [symmetric]
    using h by simp
  also have "\<dots> = Inl Index_error"
  proof -
    have sl: "slice ?src 1 (1 + 3) = slice ?src (nat (int 1 - int 1)) (nat (int 1 - int 1) + 3)"
      by (simp add: slice_def take_replicate drop_replicate)
    have off: "nat ((int 1 - int (?l[h := 0] ! h)) mod (int OFFSET_MASK + 1)) = 1"
      using h by (simp add: lzjb_consts)
    have m: "match_len ?src 1 (nat (int 1 - int 1)) [MATCH_MIN..<MATCH_MAX + 1] 0 = Inl Index_error"
      by (rule match_len_run) (simp_all add: lzjb_consts)
    have c: "int 1 - int 1 \<ge> 0 \<and> int 1 - int 1 \<noteq> int 1
        \<and> slice ?src 1 (1 + 3) = slice ?src (nat (int 1 - int 1)) (nat (int 1 - int 1) + 3)"
      using sl by simp
    show ?thesis
      unfolding lzjb_comp.simps [of ?src 1] if_P [OF p(2)] if_not_P [OF p(6)] Let_def prod.case if_not_P [OF p(4)] ii andthen_simps
        h_def [symmetric] off if_P [OF c] m by simp
  qed
  finally show ?thesis by (simp add: lzjb_compress_def BYTE_BITS_def)
qed

text \<open>
  The decompressor decodes every well-formed sequence of literals and matches,
  however a compressor chose them.
\<close>

theorem lzjb_decodes_items:
  assumes "items_ok its []"
  shows "lzjb_decompress (lz_encode its @ replicate k 0) (length (items_apply its [])) = Inr (Some (items_apply its []))"
  using lzjb_decodes [OF assms refl] .

theorem lzjb_decodes_items_witness:
  "lzjb_decompress (lz_encode [Lit 7, Match 1 5] @ replicate 2 0) 6 = Inr (Some [7, 7, 7, 7, 7, 7])"
  using lzjb_decodes_items [of "[Lit 7, Match 1 5]" 2] by (simp add: eval_nat_numeral)

end
