(* ===== verification/Py_Blkptr.thy ===== *)
theory Py_Blkptr
  imports Py Ondisk
begin

text \<open>
  Block pointers as the rescue scripts read them: \<open>DVA\<close>, \<open>BlockPtr\<close>, \<open>BlockPtrArray\<close> and
  \<open>fletcher4\<close> of \<open>src/zfs/blockptr.py\<close>. Integers are unbounded, so a shift never loses bits and
  the checksum's sums are cut to 64 bits only at the end. Masks with all low bits set are
  remainders here. The printing of a pointer is left out.
\<close>

section \<open>Block pointers\<close>

record py_dva =
  pd_asize :: nat
  pd_grid :: nat
  pd_vdev :: nat
  pd_offset :: nat
  pd_gang :: bool

definition py_DVA :: "nat \<Rightarrow> nat \<Rightarrow> py_dva" where
  "py_DVA qword0 qword1 =
     \<lparr>pd_asize = qword0 mod 2 ^ 24 * 2 ^ 9, pd_grid = qword0 div 2 ^ 24 mod 2 ^ 8,
      pd_vdev = qword0 div 2 ^ 32, pd_offset = qword1 mod 2 ^ 63 * 2 ^ 9,
      pd_gang = (qword1 div 2 ^ 63 mod 2 \<noteq> 0)\<rparr>"

definition dva_null :: "py_dva \<Rightarrow> bool" where
  "dva_null d \<longleftrightarrow> pd_vdev d = 0 \<and> pd_offset d = 0 \<and> pd_asize d = 0"

text \<open>The members that an embedded pointer has and others do not are \<^const>\<open>None\<close> in the others.\<close>

record py_bp =
  pb_dva0 :: py_dva
  pb_dva1 :: py_dva
  pb_dva2 :: py_dva
  pb_lsize :: nat
  pb_psize :: nat
  pb_comp :: nat
  pb_embeded :: bool
  pb_cksum :: nat
  pb_type :: nat
  pb_lvl :: nat
  pb_E :: nat
  pb_encrypted :: bool
  pb_birth_txg :: nat
  pb_fill_count :: nat
  pb_checksum :: "nat list"
  pb_embeded_lsize :: "nat option"
  pb_embeded_data :: "bytes option"

definition BlockPtr_parse :: "bytes \<Rightarrow> py_bp py" where
  "BlockPtr_parse data =
     andthen (unpack_words 16 data) (\<lambda>q.
     let bp = \<lparr>pb_dva0 = py_DVA (q ! 0) (q ! 1), pb_dva1 = py_DVA (q ! 2) (q ! 3), pb_dva2 = py_DVA (q ! 4) (q ! 5),
       pb_lsize = (1 + q ! 6 mod 2 ^ 16) * 2 ^ 9, pb_psize = (1 + q ! 6 div 2 ^ 16 mod 2 ^ 16) * 2 ^ 9,
       pb_comp = q ! 6 div 2 ^ 32 mod 2 ^ 7, pb_embeded = (q ! 6 div 2 ^ 39 mod 2 \<noteq> 0),
       pb_cksum = q ! 6 div 2 ^ 40 mod 2 ^ 8, pb_type = q ! 6 div 2 ^ 48 mod 2 ^ 8,
       pb_lvl = q ! 6 div 2 ^ 56 mod 2 ^ 7, pb_E = q ! 6 div 2 ^ 63, pb_encrypted = (q ! 6 div 2 ^ 61 mod 2 \<noteq> 0),
       pb_birth_txg = q ! 10, pb_fill_count = q ! 11, pb_checksum = slice q 12 16,
       pb_embeded_lsize = None, pb_embeded_data = None\<rparr>
     in Inr (if pb_embeded bp then
          bp\<lparr>pb_dva0 := py_DVA 0 0, pb_dva1 := py_DVA 0 0, pb_dva2 := py_DVA 0 0,
             pb_embeded_lsize := Some (q ! 6 mod 2 ^ 25),
             pb_embeded_data := Some (slice data 0 (6 * 8) @ slice data (7 * 8) (10 * 8) @ slice data (11 * 8) (16 * 8)),
             pb_psize := q ! 6 div 2 ^ 25 mod 2 ^ 7, pb_lsize := q ! 6 mod 2 ^ 25\<rparr>
        else bp))"

definition get_dva :: "py_bp \<Rightarrow> nat \<Rightarrow> py_dva" where
  "get_dva bp dvanum =
     (if dvanum = 0 then pb_dva0 bp else if dvanum = 1 then pb_dva1 bp
      else if dvanum = 2 then pb_dva2 bp else pb_dva0 bp)"

definition bp_empty :: "py_bp \<Rightarrow> bool" where
  "bp_empty bp \<longleftrightarrow> dva_null (pb_dva0 bp) \<and> dva_null (pb_dva1 bp) \<and> dva_null (pb_dva2 bp) \<and> \<not> pb_embeded bp"

definition compressed :: "py_bp \<Rightarrow> bool" where
  "compressed bp \<longleftrightarrow> pb_comp bp \<noteq> 2"

fun parse_all :: "bytes \<Rightarrow> nat list \<Rightarrow> py_bp list py" where
  "parse_all data [] = Inr []"
| "parse_all data (i # is) =
     andthen (BlockPtr_parse (slice data (i * 128) ((i + 1) * 128))) (\<lambda>bp.
     andthen (parse_all data is) (\<lambda>bps. Inr (bp # bps)))"

definition BlockPtrArray :: "bytes \<Rightarrow> py_bp list py" where
  "BlockPtrArray data = parse_all data [0..<length data div 128]"

section \<open>The checksum\<close>

text \<open>The loop of \<open>fletcher4\<close>, on the 32-bit words of the data.\<close>

fun fletcher_loop :: "nat list \<Rightarrow> nat \<times> nat \<times> nat \<times> nat \<Rightarrow> nat \<times> nat \<times> nat \<times> nat" where
  "fletcher_loop [] s = s"
| "fletcher_loop (v # vs) (a, b, c, d) =
     (let a = a + v; b = b + a; c = c + b; d = d + c in fletcher_loop vs (a, b, c, d))"

definition words32 :: "bytes \<Rightarrow> nat list" where
  "words32 data = map (\<lambda>i. le_value (slice data (i * 4) ((i + 1) * 4))) [0..<length data div 4]"

text \<open>When the length is no multiple of four, \<open>data + [0] * e\<close> adds a list to bytes.\<close>

definition fletcher4 :: "bytes \<Rightarrow> (nat \<times> nat \<times> nat \<times> nat) py" where
  "fletcher4 data =
     (let e = (4 - length data mod 4) mod 4 in
      if 0 < e then Inl Type_error
      else case fletcher_loop (words32 data) (0, 0, 0, 0) of (a, b, c, d) \<Rightarrow>
        Inr (a mod 2 ^ 64, b mod 2 ^ 64, c mod 2 ^ 64, d mod 2 ^ 64))"

section \<open>Words of the host and words of the scripts\<close>

lemma or_byte: "push_bit 8 (a :: u64) OR ucast (b :: u8) = a * 256 + ucast b"
proof -
  have "push_bit 8 a OR ucast b = push_bit 8 a + (ucast b :: u64)"
    by (rule disjunctive_add [symmetric]) (auto simp: bit_simps dest: bit_imp_le_length)
  then show ?thesis by (simp add: push_bit_eq_mult)
qed

lemma glue64_le_value: "length bs = 8 \<Longrightarrow> unat (glue64 (rev bs)) = le_value bs"
proof -
  have g: "glue64 (rev bs) = W (le_value bs)" for bs
  proof (induction bs)
    case (Cons b bs)
    have "glue64 (rev (b # bs)) = push_bit 8 (glue64 (rev bs)) OR ucast b" by (simp add: glue64_def)
    also have "\<dots> = W (le_value bs) * 256 + ucast b" by (simp only: Cons or_byte)
    also have "\<dots> = W (le_value (b # bs))"
      by (simp add: W_def of_nat_unat)
    finally show ?case .
  qed (simp add: glue64_def W_0)
  assume "length bs = 8"
  then have "le_value bs < 2 ^ 64" using le_value_less [of bs] by simp
  then show ?thesis unfolding g by (rule unat_W)
qed

lemma get_words_take: "8 * n \<le> m \<Longrightarrow> get_words n (take m bs) = get_words n bs"
  by (auto simp: get_words_def get64_def drop_take min_def)

lemma get64_le_value: "k + 8 \<le> length bs \<Longrightarrow> unat (get64 bs k) = le_value (slice bs k (k + 8))"
  using glue64_le_value [of "take 8 (drop k bs)"] by (simp add: get64_def slice_def)

lemma get16_le_value:
  assumes "k + 2 \<le> length bs"
  shows "unat (get16 bs k) = le_value (slice bs k (k + 2))"
proof -
  have s: "slice bs k (k + 2) = [bs ! k, bs ! (k + 1)]"
    using assms by (intro nth_equalityI) (auto simp: slice_def less_2_cases_iff)
  have "get16 bs k = push_bit 8 (ucast (bs ! (k + 1))) + ucast (bs ! k)"
    unfolding get16_def by (rule disjunctive_add [symmetric]) (auto simp: bit_simps dest: bit_imp_le_length)
  also have "\<dots> = word_of_nat (unat (bs ! (k + 1)) * 256 + unat (bs ! k))" by (simp add: push_bit_eq_mult of_nat_unat)
  finally have "unat (get16 bs k) = take_bit 16 (unat (bs ! (k + 1)) * 256 + unat (bs ! k))"
    by (simp only: unsigned_of_nat) simp
  moreover have "unat (bs ! (k + 1)) * 256 + unat (bs ! k) < 65536"
    using unat_u8_less [of "bs ! k"] unat_u8_less [of "bs ! (k + 1)"] by linarith
  moreover have "le_value (slice bs k (k + 2)) = unat (bs ! (k + 1)) * 256 + unat (bs ! k)"
    unfolding s by simp
  ultimately show ?thesis by (simp only: take_bit_nat_eq_self_iff [THEN iffD2]) (simp add: take_bit_nat_eq_self)
qed

lemma unpack_words_get:
  assumes "length bs = 8 * n"
  shows "unpack_words n bs = Inr (map unat (get_words n bs))"
proof -
  have "le_value (slice bs (8 * i) (8 * i + 8)) = unat (get64 bs (8 * i))" if "i < n" for i
    using that assms glue64_le_value [of "take 8 (drop (8 * i) bs)"] by (simp add: get64_def slice_def)
  then show ?thesis using assms by (simp add: unpack_words_def get_words_def)
qed

section \<open>The pointer the macros read\<close>

text \<open>Agreement of one DVA. The scripts keep the bits an offset of 64 bits loses.\<close>

definition dva_agrees :: "py_dva \<Rightarrow> dva_t \<Rightarrow> bool" where
  "dva_agrees p d \<longleftrightarrow>
     pd_asize p = unat (DVA_GET_ASIZE d) \<and> pd_grid p = unat (DVA_GET_GRID d) \<and> pd_vdev p = unat (DVA_GET_VDEV d)
     \<and> pd_offset p mod 2 ^ 64 = unat (DVA_GET_OFFSET d) \<and> pd_gang p = (DVA_GET_GANG d \<noteq> 0)"

lemma unat_W_mod: "unat (W n) = n mod 2 ^ 64"
  by (simp add: W_def unat_of_nat)

lemma unat_BF64_GET_SB:
  "unat (BF64_GET_SB x low len shift bias) = (unat x div 2 ^ low mod 2 ^ len + unat bias) * 2 ^ shift mod 2 ^ 64"
proof -
  have "BF64_GET_SB x low len shift bias = W ((unat x div 2 ^ low mod 2 ^ len + unat bias) * 2 ^ shift)"
    unfolding BF64_GET_SB_def by (metis W_add W_push W_unat unat_BF64_GET)
  then show ?thesis by (simp only: unat_W_mod)
qed

lemma field_bound: "shift + len \<le> 64 \<Longrightarrow> (n :: nat) mod 2 ^ len * 2 ^ shift < 2 ^ 64"
proof -
  assume le: "shift + len \<le> 64"
  have "n mod 2 ^ len * 2 ^ shift < 2 ^ len * 2 ^ shift" by simp
  also have "\<dots> = 2 ^ (shift + len)" by (simp add: power_add mult.commute)
  also have "\<dots> \<le> 2 ^ 64" using le by (rule power_increasing) simp
  finally show ?thesis .
qed

lemma bit_field: "(BF64_GET x n 1 \<noteq> 0) = (unat x div 2 ^ n mod 2 \<noteq> 0)"
  using unat_BF64_GET [of x n 1] by (metis power_one_right unat_0 unat_eq_zero)

lemma py_DVA_agrees: "length ws = 2 \<Longrightarrow> dva_agrees (py_DVA (unat (ws ! 0)) (unat (ws ! 1))) \<lparr>dva_word = ws\<rparr>"
proof -
  define m n where "m = unat (ws ! 0)" and "n = unat (ws ! 1)"
  have "m < 2 ^ 32 * 2 ^ 32" using unsigned_less [of "ws ! 0"] by (simp add: m_def)
  then have v: "m div 2 ^ 32 mod 2 ^ 32 = m div 2 ^ 32" by (intro mod_less less_mult_imp_div_less)
  have le: "9 + 24 \<le> (64 :: nat)" by simp
  have s: "(k div 2 ^ 0 mod l + unat (0 :: u64)) = k mod l" for k l :: nat by simp
  show ?thesis
    unfolding dva_agrees_def py_DVA_def DVA_GET_ASIZE_def DVA_GET_GRID_def DVA_GET_VDEV_def DVA_GET_OFFSET_def
      DVA_GET_GANG_def SPA_ASIZEBITS_def SPA_MINBLOCKSHIFT_def unat_BF64_GET_SB unat_BF64_GET bit_field py_dva.select_convs
      dva_t.select_convs m_def [symmetric] n_def [symmetric] v s mod_less [OF field_bound [OF le]]
    by (intro conjI refl)
qed

text \<open>What the scripts hold of a pointer and what the macros of \<open>sys/spa.h\<close> read from the same bytes.\<close>

definition bp_agrees :: "py_bp \<Rightarrow> blkptr_t \<Rightarrow> bool" where
  "bp_agrees p bp \<longleftrightarrow>
     pb_embeded p = BP_IS_EMBEDDED bp \<and> pb_comp p = unat (BP_GET_COMPRESS bp) \<and> pb_type p = unat (BP_GET_TYPE bp)
     \<and> pb_E p = unat (BP_GET_BYTEORDER bp) \<and> pb_encrypted p = BP_USES_CRYPT bp
     \<and> pb_lvl p = unat (BP_GET_LEVEL bp) + 32 * (if BP_USES_CRYPT bp then 1 else 0) + 64 * unat (BP_GET_DEDUP bp)
     \<and> pb_birth_txg p = unat (blk_birth bp) \<and> pb_fill_count p = unat (blk_fill bp)
     \<and> pb_checksum p = map unat (zc_word (blk_cksum bp))"

lemma level_bits:
  fixes x :: nat
  shows "x div 2 ^ 56 mod 2 ^ 7 = x div 2 ^ 56 mod 2 ^ 5 + 32 * (if x div 2 ^ 61 mod 2 \<noteq> 0 then 1 else 0) + 64 * (x div 2 ^ 62 mod 2)"
proof -
  have "y mod 128 = y mod 32 + 32 * (y div 32 mod 2) + 64 * (y div 64 mod 2)" for y :: nat
    using mod_mult2_eq [of y 32 4] mod_mult2_eq [of "y div 32" 2 2] by (simp add: div_mult2_eq [symmetric])
  from this [of "x div 2 ^ 56"] have d: "x div 2 ^ 56 mod 2 ^ 7 = x div 2 ^ 56 mod 2 ^ 5
      + 32 * (x div (2 ^ 56 * 32) mod 2) + 64 * (x div (2 ^ 56 * 64) mod 2)"
    by (simp only: div_mult2_eq) simp
  have p: "(2 ^ 56 * 32 :: nat) = 2 ^ 61" "(2 ^ 56 * 64 :: nat) = 2 ^ 62" by simp_all
  have "(if y mod 2 \<noteq> 0 then 1 else 0) = y mod 2" for y :: nat by simp
  then show ?thesis using d [unfolded p] by (simp only:)
qed

lemma parse_fields:
  assumes "unpack_words 16 data = Inr q"
  shows "\<exists>p. BlockPtr_parse data = Inr p \<and> pb_embeded p = (q ! 6 div 2 ^ 39 mod 2 \<noteq> 0)
    \<and> pb_comp p = q ! 6 div 2 ^ 32 mod 2 ^ 7 \<and> pb_cksum p = q ! 6 div 2 ^ 40 mod 2 ^ 8
    \<and> pb_type p = q ! 6 div 2 ^ 48 mod 2 ^ 8 \<and> pb_lvl p = q ! 6 div 2 ^ 56 mod 2 ^ 7 \<and> pb_E p = q ! 6 div 2 ^ 63
    \<and> pb_encrypted p = (q ! 6 div 2 ^ 61 mod 2 \<noteq> 0) \<and> pb_birth_txg p = q ! 10 \<and> pb_fill_count p = q ! 11
    \<and> pb_checksum p = slice q 12 16
    \<and> (pb_embeded p \<or> pb_dva0 p = py_DVA (q ! 0) (q ! 1) \<and> pb_dva1 p = py_DVA (q ! 2) (q ! 3)
         \<and> pb_dva2 p = py_DVA (q ! 4) (q ! 5) \<and> pb_lsize p = (1 + q ! 6 mod 2 ^ 16) * 2 ^ 9
         \<and> pb_psize p = (1 + q ! 6 div 2 ^ 16 mod 2 ^ 16) * 2 ^ 9)
    \<and> (pb_embeded p \<longrightarrow> pb_lsize p = q ! 6 mod 2 ^ 25 \<and> pb_embeded_lsize p = Some (q ! 6 mod 2 ^ 25)
         \<and> pb_embeded_data p = Some (slice data 0 48 @ slice data 56 80 @ slice data 88 128))"
proof (cases "q ! 6 div 2 ^ 39 mod 2 \<noteq> 0")
  case True
  show ?thesis unfolding BlockPtr_parse_def assms andthen_simps Let_def py_bp.select_convs if_P [OF True]
    by (rule exI, rule conjI, rule refl) (use True in simp)
next
  case False
  show ?thesis unfolding BlockPtr_parse_def assms andthen_simps Let_def py_bp.select_convs if_not_P [OF False]
    by (rule exI, rule conjI, rule refl) (use False in simp)
qed

lemma BlockPtr_parse_agrees:
  assumes "length data = 128" and "bp = words_blkptr (get_words 16 data)"
  shows "\<exists>p. BlockPtr_parse data = Inr p \<and> bp_agrees p bp
    \<and> (if BP_IS_EMBEDDED bp then BPE_GET_LSIZE bp = Inr (W (pb_lsize p + 1))
       else list_all2 dva_agrees [pb_dva0 p, pb_dva1 p, pb_dva2 p] (blk_dva bp)
         \<and> BP_GET_LSIZE bp = Inr (W (pb_lsize p)) \<and> BP_GET_PSIZE bp = W (pb_psize p)
         \<and> unat (BP_GET_CHECKSUM bp) = pb_cksum p)"
proof -
  define ws where "ws = get_words 16 data"
  define m where "m = unat (ws ! 6)"
  have len: "length ws = 16" by (simp add: ws_def)
  have q: "unpack_words 16 data = Inr (map unat ws)"
    using unpack_words_get [of data 16] assms(1) by (simp add: ws_def)
  have nths: "map unat ws ! 6 = m" "map unat ws ! 10 = unat (ws ! 10)" "map unat ws ! 11 = unat (ws ! 11)"
    "map unat ws ! 0 = unat (ws ! 0)" "map unat ws ! 1 = unat (ws ! 1)" "map unat ws ! 2 = unat (ws ! 2)"
    "map unat ws ! 3 = unat (ws ! 3)" "map unat ws ! 4 = unat (ws ! 4)" "map unat ws ! 5 = unat (ws ! 5)"
    by (simp_all add: len m_def)
  have prp: "blk_prop bp = ws ! 6" and birth: "blk_birth bp = ws ! 10" and fill: "blk_fill bp = ws ! 11"
    and ck: "zc_word (blk_cksum bp) = [ws ! 12, ws ! 13, ws ! 14, ws ! 15]"
    and dvas: "blk_dva bp = [\<lparr>dva_word = [ws ! 0, ws ! 1]\<rparr>, \<lparr>dva_word = [ws ! 2, ws ! 3]\<rparr>, \<lparr>dva_word = [ws ! 4, ws ! 5]\<rparr>]"
    by (simp_all add: assms(2) ws_def [symmetric] words_blkptr_def)
  have sl: "slice (map unat ws) 12 16 = map unat (zc_word (blk_cksum bp))"
    unfolding ck by (rule nth_equalityI) (auto simp: slice_def len less_Suc_eq numeral_eq_Suc nth_append)
  obtain p where p: "BlockPtr_parse data = Inr p" and emb: "pb_embeded p = (m div 2 ^ 39 mod 2 \<noteq> 0)"
    and f: "pb_comp p = m div 2 ^ 32 mod 2 ^ 7" "pb_cksum p = m div 2 ^ 40 mod 2 ^ 8"
      "pb_type p = m div 2 ^ 48 mod 2 ^ 8" "pb_lvl p = m div 2 ^ 56 mod 2 ^ 7" "pb_E p = m div 2 ^ 63"
      "pb_encrypted p = (m div 2 ^ 61 mod 2 \<noteq> 0)" "pb_birth_txg p = unat (ws ! 10)" "pb_fill_count p = unat (ws ! 11)"
      "pb_checksum p = map unat (zc_word (blk_cksum bp))"
    and plain: "pb_embeded p \<or> pb_dva0 p = py_DVA (unat (ws ! 0)) (unat (ws ! 1)) \<and> pb_dva1 p = py_DVA (unat (ws ! 2)) (unat (ws ! 3))
         \<and> pb_dva2 p = py_DVA (unat (ws ! 4)) (unat (ws ! 5)) \<and> pb_lsize p = (1 + m mod 2 ^ 16) * 2 ^ 9
         \<and> pb_psize p = (1 + m div 2 ^ 16 mod 2 ^ 16) * 2 ^ 9"
    and embd: "pb_embeded p \<longrightarrow> pb_lsize p = m mod 2 ^ 25"
    using parse_fields [OF q, unfolded sl nths] by (elim exE conjE) (rule that; blast)
  have e: "pb_embeded p = BP_IS_EMBEDDED bp" unfolding emb BP_IS_EMBEDDED_def prp bit_field m_def ..
  have m63: "m div 2 ^ 63 mod 2 = m div 2 ^ 63"
  proof (rule mod_less)
    have "m < 2 ^ 1 * 2 ^ 63" using unsigned_less [of "ws ! 6"] by (simp add: m_def)
    then show "m div 2 ^ 63 < 2" using less_mult_imp_div_less by force
  qed
  have agrees: "bp_agrees p bp"
    unfolding bp_agrees_def e f BP_GET_COMPRESS_def BP_GET_TYPE_def BP_GET_BYTEORDER_def BP_USES_CRYPT_def
      BP_GET_LEVEL_def BP_GET_DEDUP_def SPA_COMPRESSBITS_def prp birth fill unat_BF64_GET bit_field m_def [symmetric] m63
      level_bits power_one_right
    by (intro conjI refl)
  show ?thesis
  proof (cases "BP_IS_EMBEDDED bp")
    case True
    have "BPE_GET_LSIZE bp = Inr (BF64_GET_SB (ws ! 6) 0 25 0 1)" using True by (simp add: BPE_GET_LSIZE_def prp)
    also have "BF64_GET_SB (ws ! 6) 0 25 0 1 = W (m mod 2 ^ 25 + 1)"
      using unat_BF64_GET_SB [of "ws ! 6" 0 25 0 1] unfolding m_def [symmetric]
      by (simp add: word_unat_eq_iff unat_W_mod)
    finally show ?thesis using True p agrees embd e by auto
  next
    case False
    have sb: "BF64_GET_SB (ws ! 6) k 16 9 1 = W ((1 + m div 2 ^ k mod 2 ^ 16) * 2 ^ 9)" for k
      using unat_BF64_GET_SB [of "ws ! 6" k 16 9 1] unfolding m_def [symmetric]
      by (simp only: word_unat_eq_iff unat_W_mod unat_1) (simp add: add.commute)
    have "BP_GET_LSIZE bp = Inr (W (pb_lsize p))" and "BP_GET_PSIZE bp = W (pb_psize p)"
      using False plain e sb [of 0] sb [of 16]
      by (simp_all add: BP_GET_LSIZE_def BP_GET_PSIZE_def SPA_LSIZEBITS_def SPA_PSIZEBITS_def SPA_MINBLOCKSHIFT_def prp)
    moreover have "unat (BP_GET_CHECKSUM bp) = pb_cksum p"
      unfolding BP_GET_CHECKSUM_def if_not_P [OF False] prp unat_BF64_GET f m_def ..
    moreover have "list_all2 dva_agrees [pb_dva0 p, pb_dva1 p, pb_dva2 p] (blk_dva bp)"
      using False plain e py_DVA_agrees [of "[ws ! 0, ws ! 1]"] py_DVA_agrees [of "[ws ! 2, ws ! 3]"]
        py_DVA_agrees [of "[ws ! 4, ws ! 5]"] by (simp add: dvas)
    ultimately show ?thesis using False p agrees by simp
  qed
qed

text \<open>
  C27: the rescue scripts read a block pointer as the macros do. From the same 128
  bytes \<open>BlockPtr\<close> gets the kind, type, compression, byte order, birth and fill of the pointer
  and its checksum; the three DVAs, sizes and the checksum's kind too when the pointer is not
  embedded. The level includes the encryption and deduplication bits, and the logical size of an
  embedded pointer is one byte short: the bias of \<open>BPE_GET_LSIZE\<close> is missing.
\<close>

theorem py_blkptr_agrees:
  assumes "length data = 128" and "bp = words_blkptr (get_words 16 data)"
  shows "\<exists>p. BlockPtr_parse data = Inr p \<and> bp_agrees p bp
    \<and> (if BP_IS_EMBEDDED bp then BPE_GET_LSIZE bp = Inr (W (pb_lsize p + 1))
       else list_all2 dva_agrees [pb_dva0 p, pb_dva1 p, pb_dva2 p] (blk_dva bp)
         \<and> BP_GET_LSIZE bp = Inr (W (pb_lsize p)) \<and> BP_GET_PSIZE bp = W (pb_psize p)
         \<and> unat (BP_GET_CHECKSUM bp) = pb_cksum p)"
  using BlockPtr_parse_agrees [OF assms] .

theorem py_blkptr_agrees_witness:
  "\<exists>p. BlockPtr_parse (replicate 128 255) = Inr p \<and> bp_agrees p (words_blkptr (get_words 16 (replicate 128 255)))"
  using py_blkptr_agrees [of "replicate 128 255", OF _ refl] by auto

section \<open>What the checksum detects\<close>

fun weighted :: "nat list \<Rightarrow> nat" where
  "weighted [] = 0"
| "weighted (v # vs) = Suc (length vs) * v + weighted vs"

lemma fletcher_loop_sums:
  "\<exists>c' d'. fletcher_loop vs (a, b, c, d) = (a + sum_list vs, b + length vs * a + weighted vs, c', d')"
proof (induction vs arbitrary: a b c d)
  case (Cons v vs)
  obtain c' d' where "fletcher_loop vs (a + v, b + (a + v), c + (b + (a + v)), d + (c + (b + (a + v))))
      = (a + v + sum_list vs, b + (a + v) + length vs * (a + v) + weighted vs, c', d')"
    using Cons.IH by blast
  then show ?case by (simp add: Let_def algebra_simps)
qed simp

lemma weighted_update:
  "p < length vs \<Longrightarrow> int (weighted (vs[p := x])) = int (weighted vs) + int (length vs - p) * (int x - int (vs ! p))"
proof (induction vs arbitrary: p)
  case (Cons v vs)
  then show ?case by (cases p) (auto simp: algebra_simps)
qed simp

lemma sum_update: "p < length vs \<Longrightarrow> int (sum_list (vs[p := x])) = int (sum_list vs) + (int x - int (vs ! p))"
proof (induction vs arbitrary: p)
  case (Cons v vs)
  then show ?case by (cases p) auto
qed simp

lemma small_multiple: "M dvd (d :: int) \<Longrightarrow> \<bar>d\<bar> < M \<Longrightarrow> d = 0"
  using dvd_imp_le_int [of d M] by auto

lemma mod_eq_dvd: "m mod M = n mod M \<Longrightarrow> int M dvd int m - int n" for m n M :: nat
  by (metis mod_eq_dvd_iff of_nat_mod)

text \<open>The first two sums of two lists that differ in two places.\<close>

lemma fletcher_sums_differ:
  assumes pq: "p < q" "q < length vs" and n: "length vs < 2 ^ 32"
    and lt: "vs ! p < 2 ^ 32" "vs ! q < 2 ^ 32" "x < 2 ^ 32" "y < 2 ^ 32"
    and s: "sum_list (vs[p := x, q := y]) mod 2 ^ 64 = sum_list vs mod 2 ^ 64"
    and w: "weighted (vs[p := x, q := y]) mod 2 ^ 64 = weighted vs mod 2 ^ 64"
  shows "vs[p := x, q := y] = vs"
proof -
  define dp dq where "dp = int x - int (vs ! p)" and "dq = int y - int (vs ! q)"
  have b: "\<bar>dp\<bar> < 2 ^ 32" "\<bar>dq\<bar> < 2 ^ 32" using lt by (auto simp: dp_def dq_def)
  have ss: "int (sum_list (vs[p := x, q := y])) = int (sum_list vs) + dp + dq"
    using pq sum_update [of q "vs[p := x]" y] sum_update [of p vs x] by (simp add: dp_def dq_def)
  have ww: "int (weighted (vs[p := x, q := y])) = int (weighted vs) + int (length vs - p) * dp + int (length vs - q) * dq"
    using pq weighted_update [of q "vs[p := x]" y] weighted_update [of p vs x] by (simp add: dp_def dq_def)
  have "int (2 ^ 64) dvd dp + dq" using mod_eq_dvd [OF s] unfolding ss by simp
  then have "dp + dq = 0" using b by (intro small_multiple [of "2 ^ 64"]) auto
  then have dq: "dq = - dp" by simp
  have "int (length vs - p) * dp + int (length vs - q) * dq = (int (length vs - p) - int (length vs - q)) * dp"
    unfolding dq by (simp add: algebra_simps)
  also have "int (length vs - p) - int (length vs - q) = int (q - p)" using pq by simp
  finally have m: "int (length vs - p) * dp + int (length vs - q) * dq = int (q - p) * dp" .
  have "int (2 ^ 64) dvd int (length vs - p) * dp + int (length vs - q) * dq"
    using mod_eq_dvd [OF w] unfolding ww by (simp add: add.assoc)
  then have "2 ^ 64 dvd int (q - p) * dp" unfolding m by simp
  moreover have "\<bar>int (q - p) * dp\<bar> < 2 ^ 64"
  proof -
    have "int (q - p) * \<bar>dp\<bar> \<le> 2 ^ 32 * \<bar>dp\<bar>" using pq n by (intro mult_right_mono) auto
    also have "\<dots> < 2 ^ 32 * 2 ^ 32" using b by simp
    finally show ?thesis by (simp add: abs_mult)
  qed
  ultimately have "int (q - p) * dp = 0" by (rule small_multiple)
  then have "dp = 0" "dq = 0" using pq dq by auto
  then have "x = vs ! p" "y = vs ! q" by (simp_all add: dp_def dq_def)
  then show ?thesis by simp
qed

lemma words32_nth:
  assumes "i < length data div 4"
  shows "words32 data ! i = le_value (take 4 (drop (4 * i) data))" and "words32 data ! i < 2 ^ 32"
proof -
  show e: "words32 data ! i = le_value (take 4 (drop (4 * i) data))"
    using assms by (simp add: words32_def slice_def mult.commute)
  have "length (take 4 (drop (4 * i) data)) \<le> 4" by simp
  then have "(256 :: nat) ^ length (take 4 (drop (4 * i) data)) \<le> 256 ^ 4" by (rule power_increasing) simp
  then show "words32 data ! i < 2 ^ 32"
    using le_value_less [of "take 4 (drop (4 * i) data)"] unfolding e by simp
qed

lemma words32_inj:
  assumes "length data = length data'" and "4 dvd length data" and "words32 data = words32 data'"
  shows "data = data'"
proof (rule nth_equalityI)
  fix i assume i: "i < length data"
  define k where "k = i div 4"
  have k: "k < length data div 4" "i = 4 * k + i mod 4" using i assms(2) by (auto simp: k_def div_less_mono less_mult_imp_div_less elim!: dvdE)
  have "4 * k + 4 \<le> length data" using k(1) assms(2) by (auto elim!: dvdE)
  then have len: "length (take 4 (drop (4 * k) data)) = 4" "length (take 4 (drop (4 * k) data')) = 4" using assms(1) by simp_all
  have "le_value (take 4 (drop (4 * k) data)) = le_value (take 4 (drop (4 * k) data'))"
    using words32_nth(1) [of k data] words32_nth(1) [of k data'] k assms by simp
  then have t: "take 4 (drop (4 * k) data) = take 4 (drop (4 * k) data')" using le_bytes_value len by metis
  have "data ! i = take 4 (drop (4 * k) data) ! (i mod 4)" using k(2) i by (simp add: nth_take)
  also have "\<dots> = data' ! i" unfolding t using k(2) i assms(1) by simp
  finally show "data ! i = data' ! i" .
qed (rule assms(1))

text \<open>
  C33: \<open>fletcher4\<close> finds every change to a block that stays inside two of its
  32-bit words, wherever they are and whatever the new contents, for blocks up to 16 GB.
\<close>

theorem fletcher4_detects:
  assumes "length data' = length data" and "4 dvd length data" and "length data < 2 ^ 34"
    and "p < q" and "q < length data div 4"
    and "\<forall>i < length data. i div 4 \<noteq> p \<and> i div 4 \<noteq> q \<longrightarrow> data' ! i = data ! i" and "data' \<noteq> data"
  shows "fletcher4 data' \<noteq> fletcher4 data"
proof
  assume eq: "fletcher4 data' = fletcher4 data"
  let ?vs = "words32 data" and ?vs' = "words32 data'"
  have len: "length ?vs' = length ?vs" "length ?vs = length data div 4" using assms(1) by (simp_all add: words32_def)
  have other: "?vs' ! k = ?vs ! k" if k: "k < length data div 4" "k \<noteq> p" "k \<noteq> q" for k
  proof -
    have "4 * k + 4 \<le> length data" using k(1) assms(2) by (auto elim!: dvdE)
    moreover have "(4 * k + j) div 4 = k" if "j < 4" for j using that by simp
    ultimately have "take 4 (drop (4 * k) data') = take 4 (drop (4 * k) data)"
      using assms(1,6) k by (intro nth_equalityI) auto
    then show ?thesis using words32_nth(1) k(1) assms(1) by metis
  qed
  define x y where "x = ?vs' ! p" and "y = ?vs' ! q"
  have upd: "?vs' = ?vs[p := x, q := y]"
    using other len assms(4,5) unfolding x_def y_def by (intro nth_equalityI) (auto simp: nth_list_update)
  obtain c d c' d' where l: "fletcher_loop ?vs (0, 0, 0, 0) = (sum_list ?vs, weighted ?vs, c, d)"
    "fletcher_loop ?vs' (0, 0, 0, 0) = (sum_list ?vs', weighted ?vs', c', d')"
    using fletcher_loop_sums [of ?vs 0 0 0 0] fletcher_loop_sums [of ?vs' 0 0 0 0] by auto
  have e: "(4 - length data mod 4) mod 4 = 0" using assms(2) by simp
  have s: "sum_list ?vs' mod 2 ^ 64 = sum_list ?vs mod 2 ^ 64" "weighted ?vs' mod 2 ^ 64 = weighted ?vs mod 2 ^ 64"
    using eq unfolding fletcher4_def assms(1) Let_def e l by simp_all
  have lt: "x < 2 ^ 32" "y < 2 ^ 32" "?vs ! p < 2 ^ 32" "?vs ! q < 2 ^ 32"
    using assms(1,4,5) unfolding x_def y_def by (intro words32_nth(2); simp)+
  have pq: "q < length ?vs" "length ?vs < 2 ^ 32" using len assms(3,5) by simp_all
  have "?vs[p := x, q := y] = ?vs"
    by (rule fletcher_sums_differ [OF assms(4) pq lt(3,4,1,2) s [unfolded upd]])
  then have "?vs' = ?vs" by (rule trans [OF upd])
  then show False using words32_inj [OF assms(1)] assms(1,2,7) by simp
qed

theorem fletcher4_detects_witness:
  "fletcher4 [1, 0, 0, 0, 3, 0, 0, 0] \<noteq> fletcher4 [2, 0, 0, 0, 2, 0, 0, 0]"
proof -
  have "i div 4 = 0 \<or> i div 4 = 1" if "i < 8" for i :: nat using that by linarith
  moreover have "4 dvd length [2, 0, 0, 0, 2, 0, 0, 0 :: u8]" by (rule dvdI [of _ _ 2]) simp
  ultimately show ?thesis
    by (intro fletcher4_detects [of _ "[2, 0, 0, 0, 2, 0, 0, 0]" 0 1]) (assumption | auto)+
qed

end
