(* ===== verification/Py_Zio.thy ===== *)
theory Py_Zio
  imports Py_Raidz Py_LZ4 Py_Lzjb Py_Blkptr
begin

text \<open>
  Reading a block in the rescue scripts: \<open>GenericDevice.read_block\<close> and \<open>MirrorDevice\<close> of
  \<open>src/zfs/zio.py\<close>. \<open>phys\<close> is the device's \<open>_read_physical\<close>, which gives no data (\<^const>\<open>None\<close>)
  past its offset limit; \<open>gz\<close> stands for \<open>gzip_decompress\<close>, which calls Python's \<open>zlib\<close>. The
  result is the data and whether its checksum was right. Printing and the debug dump are left out.
\<close>

definition mirror_read_physical :: "(block \<Rightarrow> bytes io) \<Rightarrow> path list \<Rightarrow> nat \<Rightarrow> nat \<Rightarrow> bytes option io" where
  "mirror_read_physical read devs ofs psize =
     io_bind (Some (index devs 0)) (\<lambda>dev.
     io_bind (read (dev, ofs + 0x400000, psize)) (\<lambda>data. Some (Inr (Some data))))"

text \<open>\<open>CompType\<close>: on, LZJB, gzip 1, 5 and 9, and LZ4.\<close>

definition CompType :: "nat list" where
  "CompType = [1, 3, 5, 9, 13, 15]"

text \<open>Every exception in the \<open>try\<close> block gives \<^const>\<open>None\<close>, as slicing the missing data does.\<close>

definition decompress_block :: "(bytes \<Rightarrow> nat \<Rightarrow> bytes option py) \<Rightarrow> nat \<Rightarrow> bytes option \<Rightarrow> nat \<Rightarrow> bytes option" where
  "decompress_block gz alg data lsize =
     (case data of None \<Rightarrow> None
      | Some d \<Rightarrow>
        (case (if alg = 15 then lz4zfs_decompress d lsize
               else if alg = 5 \<or> alg = 9 \<or> alg = 13 then gz d lsize
               else lzjb_decompress d lsize) of
           Inl e \<Rightarrow> None | Inr r \<Rightarrow> r))"

definition fit_size :: "nat \<Rightarrow> bytes \<Rightarrow> bytes" where
  "fit_size lsize data =
     (if length data < lsize then data @ replicate (lsize - length data) 0
      else if lsize < length data then slice data 0 lsize else data)"

definition read_block ::
    "(nat \<Rightarrow> nat \<Rightarrow> bytes option io) \<Rightarrow> nat \<Rightarrow> (bytes \<Rightarrow> nat \<Rightarrow> bytes option py) \<Rightarrow> py_bp \<Rightarrow> nat
      \<Rightarrow> (bytes option \<times> bool) io" where
  "read_block phys ashift gz bp dva =
     (if bp_empty bp then Some (Inr (None, False))
      else if pd_gang (get_dva bp dva) then Some (Inl Not_implemented)
      else let ofs = pd_offset (get_dva bp dva); psize = pb_psize bp in
      if ofs = 0 \<and> psize = 0 then Some (Inr (None, True))
      else
      let lsize = (if pb_embeded bp then the (pb_embeded_lsize bp) else pb_lsize bp) in
      io_bind (if pb_embeded bp then Some (Inr (pb_embeded_data bp, True))
               else io_bind (phys ofs (if psize < 2 ^ ashift then 2 ^ ashift else psize)) (\<lambda>data.
                 if pb_cksum bp = 7 then
                   (case data of None \<Rightarrow> Some (Inl Type_error)
                    | Some d \<Rightarrow> io_bind (Some (fletcher4 (slice d 0 psize))) (\<lambda>(s0, s1, s2, s3).
                        Some (Inr (data, [s0, s1, s2, s3] = pb_checksum bp))))
                 else Some (Inr (data, True)))) (\<lambda>(data, cksum).
      if compressed bp then
        if pb_comp bp \<in> set CompType then
          (case decompress_block gz (pb_comp bp) data lsize of
             None \<Rightarrow> Some (Inr (None, cksum))
           | Some d \<Rightarrow> Some (Inr (Some (fit_size lsize d), cksum)))
        else Some (Inr (None, cksum))
      else
        (case data of None \<Rightarrow> Some (Inl Type_error)
         | Some d \<Rightarrow> Some (Inr (Some (fit_size lsize d), cksum)))))"

section \<open>A block that is returned with a right checksum\<close>

lemma io_bind_Inr: "io_bind r f = Some (Inr y) \<longleftrightarrow> (\<exists>x. r = Some (Inr x) \<and> f x = Some (Inr y))"
  by (auto simp: io_bind_def split: option.splits sum.splits)

lemma length_fit_size: "length (fit_size lsize d) = lsize"
  by (auto simp: fit_size_def length_slice)

text \<open>
  \<open>read_block\<close> vouches for nothing it has not checked. When it returns data with
  a right checksum for a pointer that asks for Fletcher-4, the data has the pointer's logical
  size, and the device delivered bytes whose checksum is the pointer's and which decompress to
  the data.
\<close>

theorem read_block_checked:
  assumes "read_block phys ashift gz bp dva = Some (Inr (Some data, True))"
    and "pb_cksum bp = 7" and "\<not> pb_embeded bp"
  shows "length data = pb_lsize bp \<and>
    (\<exists>raw s0 s1 s2 s3. phys (pd_offset (get_dva bp dva)) (max (pb_psize bp) (2 ^ ashift)) = Some (Inr (Some raw))
      \<and> fletcher4 (slice raw 0 (pb_psize bp)) = Inr (s0, s1, s2, s3) \<and> pb_checksum bp = [s0, s1, s2, s3]
      \<and> data = fit_size (pb_lsize bp)
          (if compressed bp then the (decompress_block gz (pb_comp bp) (Some raw) (pb_lsize bp)) else raw))"
proof -
  let ?rs = "if pb_psize bp < 2 ^ ashift then 2 ^ ashift else pb_psize bp"
  have rs: "?rs = max (pb_psize bp) (2 ^ ashift)" by simp
  have ne1: "\<not> bp_empty bp" using assms(1) by (simp add: read_block_def split: if_splits)
  have ne2: "\<not> pd_gang (get_dva bp dva)" using assms(1) ne1 by (simp add: read_block_def split: if_splits)
  have ne3: "\<not> (pd_offset (get_dva bp dva) = 0 \<and> pb_psize bp = 0)"
    using assms(1) unfolding read_block_def Let_def if_not_P [OF ne1] if_not_P [OF ne2] by (rule contrapos_pn) simp
  note h = assms(1) [unfolded read_block_def Let_def if_not_P [OF ne1] if_not_P [OF ne2] if_not_P [OF ne3]
      if_not_P [OF assms(3)] rs if_P [OF assms(2)]]
  obtain d ck where x: "io_bind (phys (pd_offset (get_dva bp dva)) (max (pb_psize bp) (2 ^ ashift))) (\<lambda>data.
        case data of None \<Rightarrow> Some (Inl Type_error)
        | Some d \<Rightarrow> io_bind (Some (fletcher4 (slice d 0 (pb_psize bp)))) (\<lambda>(s0, s1, s2, s3).
            Some (Inr (data, [s0, s1, s2, s3] = pb_checksum bp)))) = Some (Inr (d, ck))"
    and y: "(if compressed bp then
        if pb_comp bp \<in> set CompType then
          (case decompress_block gz (pb_comp bp) d (pb_lsize bp) of
             None \<Rightarrow> Some (Inr (None, ck))
           | Some e \<Rightarrow> Some (Inr (Some (fit_size (pb_lsize bp) e), ck)))
        else Some (Inr (None, ck))
      else
        (case d of None \<Rightarrow> Some (Inl Type_error)
         | Some e \<Rightarrow> Some (Inr (Some (fit_size (pb_lsize bp) e), ck)))) = Some (Inr (Some data, True))"
    using h unfolding io_bind_Inr [of _ "\<lambda>(data, cksum). _ data cksum"] by auto
  obtain raw s0 s1 s2 s3 where r: "phys (pd_offset (get_dva bp dva)) (max (pb_psize bp) (2 ^ ashift)) = Some (Inr (Some raw))"
    "fletcher4 (slice raw 0 (pb_psize bp)) = Inr (s0, s1, s2, s3)" "d = Some raw" "ck = ([s0, s1, s2, s3] = pb_checksum bp)"
    using x by (auto simp: io_bind_Inr split: option.splits)
  have "ck \<and> data = fit_size (pb_lsize bp)
          (if compressed bp then the (decompress_block gz (pb_comp bp) (Some raw) (pb_lsize bp)) else raw)"
    using y r(3) by (auto split: if_splits option.splits)
  then show ?thesis using r length_fit_size by metis
qed

section \<open>From the disks to the data\<close>

lemma read_block_returns:
  assumes "\<not> bp_empty bp" and "\<not> pd_gang (get_dva bp dva)" and "\<not> pb_embeded bp" and "2 ^ ashift \<le> pb_psize bp"
    and "pb_cksum bp = 7" and "pb_comp bp = 15"
    and "phys (pd_offset (get_dva bp dva)) (pb_psize bp) = Some (Inr (Some raw))" and "length raw = pb_psize bp"
    and "fletcher4 raw = Inr (s0, s1, s2, s3)" and "pb_checksum bp = [s0, s1, s2, s3]"
    and "lz4zfs_decompress raw (pb_lsize bp) = Inr (Some content)" and "length content = pb_lsize bp"
  shows "read_block phys ashift gz bp dva = Some (Inr (Some content, True))"
proof -
  have "(0 :: nat) < 2 ^ ashift" by simp
  then have p: "\<not> (pd_offset (get_dva bp dva) = 0 \<and> pb_psize bp = 0)" using assms(4) by linarith
  have l: "\<not> pb_psize bp < 2 ^ ashift" using assms(4) by simp
  have c: "compressed bp" "pb_comp bp \<in> set CompType" using assms(6) by (simp_all add: compressed_def CompType_def)
  have d: "decompress_block gz (pb_comp bp) (Some raw) (pb_lsize bp) = Some content"
    using assms(6,11) by (simp add: decompress_block_def)
  have s: "slice raw 0 (pb_psize bp) = raw" using slice_all [of raw] assms(8) by simp
  have f: "fit_size (pb_lsize bp) content = content" using assms(12) by (simp add: fit_size_def)
  show ?thesis
    unfolding read_block_def Let_def if_not_P [OF assms(1)] if_not_P [OF assms(2)] if_not_P [OF p] if_not_P [OF assms(3)]
      if_not_P [OF l] assms(7) io_bind_simps if_P [OF assms(5)] option.case s assms(9) prod.case if_P [OF c(1)] if_P [OF c(2)] d f assms(10)
    by simp
qed

text \<open>
  C8: the way of a block from the disks to its data. An LZ4 block of at least one sector (size in
  front, two or more zero bytes behind) lies on a single-parity RAID-Z of under 256 disks, at 8 TB at most,
  with its Fletcher-4 checksum in the pointer. Every disk with a column of it, the bad one included, opens
  under a path of under 256 bytes, holds the column's range (and less than 2^61 bytes), and no column
  exceeds the server's 256K chunk. Then server, RAID-Z map with repair of the bad disk (whatever it
  holds there), checksum and decoder return the data that was compressed, with a right checksum.
\<close>

theorem rescue_reads_block:
  fixes bp :: py_bp and dva A badd k :: nat and devs :: "path list"
  defines "ofs \<equiv> pd_offset (get_dva bp dva)" and "cols \<equiv> raidz_cols (length devs) A (pd_offset (get_dva bp dva)) (pb_psize bp)"
  assumes raw: "raw = be_bytes 4 (length (lz4_encode seqs lits)) @ lz4_encode seqs lits @ replicate k 0"
    and lz: "seqs_ok seqs []" "5 \<le> length lits" "2 \<le> k" "length raw < 2 ^ 32"
    and bp: "\<not> bp_empty bp" "\<not> pd_gang (get_dva bp dva)" "\<not> pb_embeded bp" "pb_comp bp = 15" "pb_cksum bp = 7"
      "pb_psize bp = length raw" "pb_lsize bp = length (lz4_expand seqs lits [])"
      "fletcher4 raw = Inr (s0, s1, s2, s3)" "pb_checksum bp = [s0, s1, s2, s3]"
    and dev: "1 < length devs" "length devs < 256" "2 ^ A \<le> length raw" "ofs \<le> 8 * 1024 * 1024 * 1024 * 1024"
      "\<forall>blk \<in> set (py_blockv devs cols). in_dev (net_ok files trans_table) (net_dev files trans_table) CHUNKSIZE blk"
    and stored: "raidz_holds (net_dev files trans_table) devs cols badd truth" "concat truth = raw"
  shows "read_block (raidz_read_physical (readv_network files trans_table rc) devs 1 [badd] True A) A gz bp dva
    = Some (Inr (Some (lz4_expand seqs lits []), True))"
proof (rule read_block_returns [OF bp(1,2,3) _ bp(5,4)])
  have "0 < pb_psize bp div 2 ^ A" using dev(3) bp(6) by (simp add: div_greater_zero_iff)
  then have "raidz_read_physical (readv_network files trans_table rc) devs 1 [badd] True A ofs (pb_psize bp)
      = Some (Inr (Some (concat truth)))"
    using dev stored(1) unfolding ofs_def cols_def by (intro net.raidz_read)
  then show "raidz_read_physical (readv_network files trans_table rc) devs 1 [badd] True A (pd_offset (get_dva bp dva)) (pb_psize bp)
      = Some (Inr (Some raw))"
    by (simp only: stored(2) ofs_def)
  have t: "take 2 (replicate k 0) = [0, 0 :: u8]" using lz(3) by (simp add: min_def numeral_2_eq_2)
  have "length (lz4_encode seqs lits) < 2 ^ 32" using lz(4) unfolding raw by simp
  from lz4zfs_decodes [OF lz(1,2) this raw] lz(3) t
  show "lz4zfs_decompress raw (pb_lsize bp) = Inr (Some (lz4_expand seqs lits []))" by simp
qed (use bp dev(3) in simp_all)

definition demo_lz4_disk :: "path \<Rightarrow> bytes option" where
  "demo_lz4_disk p =
     (if p = [0] then Some (replicate 0x400000 0 @ [2, 3, 4, 3, 80, 1])
      else if p = [1] then Some (replicate 0x400000 0 @ [9, 9, 9, 9, 9, 9])
      else if p = [2] then Some (replicate 0x400000 0 @ [2, 3, 4, 5, 0, 0]) else None)"

definition demo_raw :: bytes where
  "demo_raw = [0, 0, 0, 6, 80, 1, 2, 3, 4, 5, 0, 0]"

definition demo_bp :: py_bp where
  "demo_bp = \<lparr>pb_dva0 = py_DVA 1 0, pb_dva1 = py_DVA 0 0, pb_dva2 = py_DVA 0 0, pb_lsize = 5, pb_psize = 12, pb_comp = 15,
     pb_embeded = False, pb_cksum = 7, pb_type = 0, pb_lvl = 0, pb_E = 1, pb_encrypted = False, pb_birth_txg = 0,
     pb_fill_count = 0, pb_checksum = (case fletcher4 demo_raw of Inr (a, b, c, d) \<Rightarrow> [a, b, c, d] | Inl e \<Rightarrow> []),
     pb_embeded_lsize = None, pb_embeded_data = None\<rparr>"

theorem rescue_reads_block_witness:
  "read_block (raidz_read_physical (readv_network demo_lz4_disk Map.empty (\<lambda>s l. 1)) [[0], [1], [2]] 1 [1] True 1) 1
     (\<lambda>d n. Inl Value_error) demo_bp 0 = Some (Inr (Some [1, 2, 3, 4, 5], True))"
proof -
  have enc: "lz4_encode [] [1, 2, 3, 4, 5] = [80, 1, 2, 3, 4, 5]" and ex: "lz4_expand [] [1, 2, 3, 4, 5] [] = [1, 2, 3, 4, 5]"
    by code_simp+
  have raw: "demo_raw = be_bytes 4 (length (lz4_encode [] [1, 2, 3, 4, 5])) @ lz4_encode [] [1, 2, 3, 4, 5] @ replicate 2 0"
    unfolding enc by code_simp
  obtain s0 s1 s2 s3 where f: "fletcher4 demo_raw = Inr (s0, s1, s2, s3)"
    by (cases "fletcher_loop (words32 demo_raw) (0, 0, 0, 0)") (simp add: fletcher4_def demo_raw_def)
  have o: "pd_offset (get_dva demo_bp 0) = 0" and ps: "pb_psize demo_bp = 12"
    by (simp_all add: demo_bp_def get_dva_def py_DVA_def)
  have l: "length [[0], [1], [2 :: u8]] = 3" by simp
  have c: "raidz_cols (length [[0], [1], [2 :: u8]]) 1 (pd_offset (get_dva demo_bp 0)) (pb_psize demo_bp)
      = [\<lparr>pc_devidx = 0, pc_offset = 0, pc_size = 6\<rparr>, \<lparr>pc_devidx = 1, pc_offset = 0, pc_size = 6\<rparr>,
         \<lparr>pc_devidx = 2, pc_offset = 0, pc_size = 6\<rparr>]" (is "?c = ?cols")
    unfolding o ps l by (simp add: raidz_cols_def rz_py_col_def py_swaps_def raidz_place_def rz_acols_def rz_bc_def rz_q_def
      rz_r_def rz_len_def upt_rec)
  have b: "py_blockv [[0], [1], [2]] ?cols = [([0], 0x400000, 6), ([1], 0x400000, 6), ([2], 0x400000, 6)]"
    by (simp add: py_blockv_def)
  have disks: "net_dev demo_lz4_disk Map.empty [0] = replicate 0x400000 0 @ [2, 3, 4, 3, 80, 1]"
    "net_dev demo_lz4_disk Map.empty [1] = replicate 0x400000 0 @ [9, 9, 9, 9, 9, 9]"
    "net_dev demo_lz4_disk Map.empty [2] = replicate 0x400000 0 @ [2, 3, 4, 5, 0, 0]"
    "{[0], [1], [2]} \<subseteq> net_ok demo_lz4_disk Map.empty"
    by (simp_all add: net_dev_def net_ok_def the_file_def demo_lz4_disk_def)
  have inr: "\<forall>blk \<in> set (py_blockv [[0], [1], [2]] ?c).
      in_dev (net_ok demo_lz4_disk Map.empty) (net_dev demo_lz4_disk Map.empty) CHUNKSIZE blk"
    unfolding c b using disks by (simp add: in_dev_def CHUNKSIZE_def)
  have "parity_of 6 [[0, 0, 0, 6, 80, 1], [2, 3, 4, 5, 0, 0]] = [2, 3, 4, 3, 80, 1]" by code_simp
  then have holds: "raidz_holds (net_dev demo_lz4_disk Map.empty) [[0], [1], [2]] ?c 1 [[0, 0, 0, 6, 80, 1], [2, 3, 4, 5, 0, 0]]"
    unfolding c raidz_holds_def b by (simp add: dev_slice_def slice_def disks)
  have "read_block (raidz_read_physical (readv_network demo_lz4_disk Map.empty (\<lambda>s l. 1)) [[0], [1], [2]] 1 [1] True 1) 1
     (\<lambda>d n. Inl Value_error) demo_bp 0 = Some (Inr (Some (lz4_expand [] [1, 2, 3, 4, 5] []), True))"
    by (rule rescue_reads_block [OF raw _ _ _ _ _ _ _ _ _ _ _ f _ _ _ _ _ inr holds])
      (simp_all add: o ps, simp_all add: demo_bp_def f f [unfolded demo_raw_def] ex demo_raw_def bp_empty_def dva_null_def get_dva_def py_DVA_def)
  then show ?thesis unfolding ex .
qed

theorem read_block_checked_witness:
  "\<exists>raw s0 s1 s2 s3. Some (Inr (Some demo_raw)) = (Some (Inr (Some raw)) :: bytes option io)
    \<and> fletcher4 (slice raw 0 12) = Inr (s0, s1, s2, s3) \<and> pb_checksum demo_bp = [s0, s1, s2, s3]"
proof -
  let ?bp = "demo_bp\<lparr>pb_comp := 2, pb_lsize := 12\<rparr>" and ?phys = "\<lambda>x n. Some (Inr (Some demo_raw)) :: bytes option io"
  obtain s0 s1 s2 s3 where f: "fletcher4 demo_raw = Inr (s0, s1, s2, s3)"
    by (cases "fletcher_loop (words32 demo_raw) (0, 0, 0, 0)") (simp add: fletcher4_def demo_raw_def)
  have s: "slice demo_raw 0 12 = demo_raw" by (simp add: slice_def demo_raw_def)
  have "read_block ?phys 0 (\<lambda>d n. Inl Value_error) ?bp 0 = Some (Inr (Some demo_raw, True))"
    by (simp add: read_block_def demo_bp_def bp_empty_def dva_null_def get_dva_def py_DVA_def s f compressed_def fit_size_def)
      (simp add: demo_raw_def)
  from read_block_checked [OF this] show ?thesis by (auto simp: demo_bp_def)
qed

end
