(* ===== verification/Py_Tree.thy ===== *)
theory Py_Tree
  imports Py_Zio "HOL-Library.AList"
begin

text \<open>
  The trees of blocks in the rescue scripts: \<open>BlockTree\<close> of \<open>src/zfs/blocktree.py\<close>, which finds the
  pointer of a data block through the indirect blocks and keeps those it has read. \<open>rb\<close> is the
  device's \<open>read_block\<close>. An exception loses the object here, as no caller goes on using it.
  Printing is left out.
\<close>

type_synonym reader = "py_bp \<Rightarrow> nat \<Rightarrow> (bytes option \<times> bool) io"

section \<open>Block trees\<close>

text \<open>\<open>for dva in range(3)\<close>: the first copy that is there, not empty and has a right checksum, else
  the last.\<close>

fun try_dvas :: "reader \<Rightarrow> py_bp \<Rightarrow> nat list \<Rightarrow> bytes option \<Rightarrow> bytes option io" where
  "try_dvas rb bp [] prev = Some (Inr prev)"
| "try_dvas rb bp (dva # dvas) prev =
     io_bind (rb bp dva) (\<lambda>(data, c).
       if data \<noteq> None \<and> data \<noteq> Some [] \<and> c then Some (Inr data) else try_dvas rb bp dvas data)"

definition load_from_bptr :: "reader \<Rightarrow> py_bp \<Rightarrow> py_bp list option io" where
  "load_from_bptr rb bp =
     io_bind (try_dvas rb bp [0, 1, 2] None) (\<lambda>data.
     case data of None \<Rightarrow> Some (Inr None)
     | Some d \<Rightarrow> io_bind (Some (BlockPtrArray d)) (\<lambda>bps. Some (Inr (Some bps))))"

text \<open>A node of the cache: for an index, the pointers of the block there and the node below.\<close>

datatype ctree = CTree "(nat \<times> (py_bp list option \<times> ctree)) list"

datatype bt_root = Root_bp py_bp | Root_array "py_bp list"

record blocktree =
  bt_levels :: nat
  bt_root :: bt_root
  bt_blocks_per_level :: nat
  bt_cache :: ctree

text \<open>With more than one level the constructor takes the length of the root block's pointers, which
  raises when the block cannot be read.\<close>

definition BlockTree :: "reader \<Rightarrow> nat \<Rightarrow> py_bp \<Rightarrow> blocktree io" where
  "BlockTree rb levels root_bptr =
     (if levels = 1 then
        Some (Inr \<lparr>bt_levels = levels, bt_root = Root_bp root_bptr, bt_blocks_per_level = 0, bt_cache = CTree []\<rparr>)
      else io_bind (load_from_bptr rb root_bptr) (\<lambda>r.
        case r of None \<Rightarrow> Some (Inl Type_error)
        | Some a \<Rightarrow> Some (Inr \<lparr>bt_levels = levels, bt_root = Root_array a, bt_blocks_per_level = length a,
            bt_cache = CTree []\<rparr>)))"

text \<open>\<open>_get_level_indices\<close>, for \<open>n\<close> levels, the most significant first.\<close>

fun level_indices :: "nat \<Rightarrow> nat \<Rightarrow> nat \<Rightarrow> nat list py" where
  "level_indices k 0 blockid = Inr []"
| "level_indices k (Suc n) blockid =
     (if k = 0 then Inl Zero_division_error
      else andthen (level_indices k n (blockid div k)) (\<lambda>is. Inr (is @ [blockid mod k])))"

text \<open>The loop over all indices but the last: the pointers of the last indirect block, or
  \<^const>\<open>None\<close> when one on the way cannot be read, and the cache.\<close>

fun bt_walk :: "reader \<Rightarrow> nat list \<Rightarrow> py_bp list \<Rightarrow> ctree \<Rightarrow> (py_bp list option \<times> ctree) io" where
  "bt_walk rb [] bpa c = Some (Inr (Some bpa, c))"
| "bt_walk rb (i # is) bpa (CTree cs) =
     (let (b, sub) = (case map_of cs i of Some e \<Rightarrow> e | None \<Rightarrow> (None, CTree [])) in
      io_bind (case b of Some nb \<Rightarrow> Some (Inr (Some nb))
               | None \<Rightarrow> io_bind (Some (index bpa i)) (load_from_bptr rb)) (\<lambda>next_bpa.
      case next_bpa of
        None \<Rightarrow> Some (Inr (None, CTree (AList.update i (None, sub) cs)))
      | Some nb \<Rightarrow> io_bind (bt_walk rb is nb sub) (\<lambda>(r, sub').
          Some (Inr (r, CTree (AList.update i (Some nb, sub') cs))))))"

definition bt_getitem :: "reader \<Rightarrow> blocktree \<Rightarrow> int \<Rightarrow> (py_bp option \<times> blocktree) io" where
  "bt_getitem rb bt item =
     (if item < 0 then Some (Inr (None, bt))
      else case bt_root bt of
        Root_bp bp \<Rightarrow> Some (Inr (if item = 0 then Some bp else None, bt))
      | Root_array a \<Rightarrow>
          io_bind (Some (level_indices (bt_blocks_per_level bt) (bt_levels bt - 1) (nat item))) (\<lambda>indices.
          io_bind (bt_walk rb (butlast indices) a (bt_cache bt)) (\<lambda>(bpa, c).
          case bpa of None \<Rightarrow> Some (Inr (None, bt\<lparr>bt_cache := c\<rparr>))
          | Some bps \<Rightarrow>
              if indices = [] then Some (Inl Index_error)
              else io_bind (Some (index bps (last indices))) (\<lambda>b. Some (Inr (Some b, bt\<lparr>bt_cache := c\<rparr>))))))"

section \<open>The tree as a flat list of pointers\<close>

text \<open>The pointers in a block, where it can be read.\<close>

definition block_ptrs :: "reader \<Rightarrow> py_bp \<Rightarrow> py_bp list option" where
  "block_ptrs rb bp = (case load_from_bptr rb bp of Some (Inr r) \<Rightarrow> r | _ \<Rightarrow> None)"

text \<open>All data blocks below a pointer, in order, when every indirect block on the way can be read
  and has \<open>k\<close> pointers.\<close>

fun leaves :: "(py_bp \<Rightarrow> py_bp list option) \<Rightarrow> nat \<Rightarrow> nat \<Rightarrow> py_bp \<Rightarrow> py_bp list option" where
  "leaves ptrs k 0 bp = Some [bp]"
| "leaves ptrs k (Suc n) bp =
     (case ptrs bp of None \<Rightarrow> None
      | Some a \<Rightarrow> if length a = k then map_option concat (those (map (leaves ptrs k n) a)) else None)"

lemma those_Some: "those xs = Some ys \<longleftrightarrow> xs = map Some ys"
proof (induction xs arbitrary: ys)
  case (Cons x xs)
  then show ?case by (cases x; cases ys) auto
qed auto

lemma map_Some_iff: "map f xs = map Some ys \<longleftrightarrow> length xs = length ys \<and> (\<forall>i < length xs. f (xs ! i) = Some (ys ! i))"
  by (auto simp: list_eq_iff_nth_eq)

lemma leaves_Suc:
  "leaves ptrs k (Suc n) bp = Some ls \<longleftrightarrow>
     (\<exists>a lss. ptrs bp = Some a \<and> length a = k \<and> length lss = k \<and> (\<forall>i < k. leaves ptrs k n (a ! i) = Some (lss ! i)) \<and> ls = concat lss)"
proof
  assume "leaves ptrs k (Suc n) bp = Some ls"
  then obtain a lss where "ptrs bp = Some a" "length a = k" "those (map (leaves ptrs k n) a) = Some lss" "ls = concat lss"
    by (auto split: option.splits if_splits)
  then show "\<exists>a lss. ptrs bp = Some a \<and> length a = k \<and> length lss = k \<and> (\<forall>i < k. leaves ptrs k n (a ! i) = Some (lss ! i)) \<and> ls = concat lss"
    unfolding those_Some map_Some_iff by metis
next
  assume "\<exists>a lss. ptrs bp = Some a \<and> length a = k \<and> length lss = k \<and> (\<forall>i < k. leaves ptrs k n (a ! i) = Some (lss ! i)) \<and> ls = concat lss"
  then obtain a lss where a: "ptrs bp = Some a" "length a = k" "length lss = k" "\<forall>i < k. leaves ptrs k n (a ! i) = Some (lss ! i)"
    "ls = concat lss" by blast
  then have "those (map (leaves ptrs k n) a) = Some lss" unfolding those_Some map_Some_iff by simp
  then show "leaves ptrs k (Suc n) bp = Some ls" using a by simp
qed

lemma nth_concat_equal:
  "\<forall>xs \<in> set xss. length xs = m \<Longrightarrow> i < length xss * m \<Longrightarrow> concat xss ! i = xss ! (i div m) ! (i mod m)"
proof (induction xss arbitrary: i)
  case (Cons xs xss)
  show ?case
  proof (cases "i < m")
    case False
    then have "concat xss ! (i - m) = xss ! ((i - m) div m) ! ((i - m) mod m)" using Cons by (intro Cons.IH) auto
    moreover have "0 < m" using Cons.prems(2) by (cases m) auto
    then have "i div m = Suc ((i - m) div m)" "i mod m = (i - m) mod m"
      using False by (auto simp: le_div_geq le_mod_geq)
    ultimately show ?thesis using False Cons.prems(1) by (simp add: nth_append)
  qed (use Cons.prems in \<open>simp add: nth_append\<close>)
qed simp

lemma leaves_length: "leaves ptrs k n bp = Some ls \<Longrightarrow> length ls = k ^ n"
proof (induction n arbitrary: bp ls)
  case (Suc n)
  obtain a lss where a: "length lss = k" "\<forall>i < k. leaves ptrs k n (a ! i) = Some (lss ! i)" "ls = concat lss"
    using Suc.prems unfolding leaves_Suc by blast
  have "length xs = k ^ n" if "xs \<in> set lss" for xs using that a Suc.IH by (auto simp: in_set_conv_nth)
  then have "map length lss = replicate k (k ^ n)" using a(1) by (intro nth_equalityI) auto
  then show ?case by (simp add: a(3) length_concat sum_list_replicate)
qed simp

section \<open>Lookups\<close>

lemma block_ptrs_Some: "block_ptrs rb bp = Some a \<longleftrightarrow> load_from_bptr rb bp = Some (Inr (Some a))"
  by (auto simp: block_ptrs_def split: option.splits sum.splits)

text \<open>The cache below a block with the pointers \<open>arr\<close> holds what reading the blocks gives.\<close>

inductive cache_ok :: "reader \<Rightarrow> py_bp list \<Rightarrow> ctree \<Rightarrow> bool" for rb where
  "(\<And>i b sub. map_of cs i = Some (b, sub) \<Longrightarrow>
     b = None \<and> sub = CTree []
     \<or> (\<exists>nb. b = Some nb \<and> i < length arr \<and> block_ptrs rb (arr ! i) = Some nb \<and> cache_ok rb nb sub)) \<Longrightarrow>
   cache_ok rb arr (CTree cs)"

inductive_simps cache_ok_simps: "cache_ok rb arr (CTree cs)"

lemma cache_ok_empty [simp, intro]: "cache_ok rb arr (CTree [])"
  by (simp add: cache_ok_simps)

lemma cache_ok_update:
  assumes "cache_ok rb arr (CTree cs)" and "i < length arr" and "block_ptrs rb (arr ! i) = Some nb" and "cache_ok rb nb sub"
  shows "cache_ok rb arr (CTree (AList.update i (Some nb, sub) cs))"
  using assms by (auto simp: cache_ok_simps AList.update_conv')

lemma cache_ok_entry:
  assumes "cache_ok rb arr (CTree cs)" and "i < length arr" and "block_ptrs rb (arr ! i) = Some nb"
  shows "\<exists>b sub. (case map_of cs i of Some e \<Rightarrow> e | None \<Rightarrow> (None, CTree [])) = (b, sub) \<and> (b = None \<or> b = Some nb) \<and> cache_ok rb nb sub"
proof (cases "map_of cs i")
  case (Some e)
  then obtain b sub where e: "e = (b, sub)" by (cases e)
  then show ?thesis using assms Some by (fastforce simp: cache_ok_simps)
qed auto

text \<open>The blocks along a path of indices.\<close>

fun follow :: "(py_bp \<Rightarrow> py_bp list option) \<Rightarrow> nat list \<Rightarrow> py_bp list \<Rightarrow> py_bp list option" where
  "follow ptrs [] arr = Some arr"
| "follow ptrs (i # is) arr =
     (if i < length arr then case ptrs (arr ! i) of Some a \<Rightarrow> follow ptrs is a | None \<Rightarrow> None else None)"

lemma bt_walk_ok:
  "cache_ok rb arr c \<Longrightarrow> follow (block_ptrs rb) is arr = Some a \<Longrightarrow>
   \<exists>c'. bt_walk rb is arr c = Some (Inr (Some a, c')) \<and> cache_ok rb arr c'"
proof (induction "is" arbitrary: arr c)
  case (Cons i "is")
  obtain nb where i: "i < length arr" "block_ptrs rb (arr ! i) = Some nb" "follow (block_ptrs rb) is nb = Some a"
    using Cons.prems(2) by (auto split: if_splits option.splits)
  obtain cs where c: "c = CTree cs" by (cases c)
  obtain b sub where e: "(case map_of cs i of Some e \<Rightarrow> e | None \<Rightarrow> (None, CTree [])) = (b, sub)"
    and b: "b = None \<or> b = Some nb" and sub: "cache_ok rb nb sub"
    using cache_ok_entry [OF Cons.prems(1) [unfolded c] i(1,2)] by blast
  have n: "(case b of Some nb \<Rightarrow> Some (Inr (Some nb))
      | None \<Rightarrow> io_bind (Some (index arr i)) (load_from_bptr rb)) = Some (Inr (Some nb))"
    using b i(1,2) by (auto simp: index_ok block_ptrs_Some)
  obtain sub' where w: "bt_walk rb is nb sub = Some (Inr (Some a, sub'))" and ok: "cache_ok rb nb sub'"
    using Cons.IH [OF sub i(3)] by blast
  have "bt_walk rb (i # is) arr c = Some (Inr (Some a, CTree (AList.update i (Some nb, sub') cs)))"
    unfolding c bt_walk.simps e Let_def prod.case n io_bind_simps option.case w ..
  moreover have "cache_ok rb arr (CTree (AList.update i (Some nb, sub') cs))"
    using cache_ok_update Cons.prems(1) c i(1,2) ok by blast
  ultimately show ?case by blast
qed simp

lemma level_indices_Suc:
  "0 < k \<Longrightarrow> b < k ^ Suc n \<Longrightarrow> \<exists>is. level_indices k (Suc n) b = Inr (b div k ^ n # is) \<and> level_indices k n (b mod k ^ n) = Inr is"
proof (induction n arbitrary: b)
  case (Suc n)
  have "b div k < k ^ Suc n" using Suc.prems(2) by (simp add: less_mult_imp_div_less mult.commute)
  then obtain "is" where i: "level_indices k (Suc n) (b div k) = Inr (b div k div k ^ n # is)"
    "level_indices k n (b div k mod k ^ n) = Inr is"
    using Suc.IH [of "b div k"] Suc.prems(1) by blast
  have "level_indices k (Suc (Suc n)) b = Inr (b div k ^ Suc n # is @ [b mod k])"
    using i(1) Suc.prems(1) by (simp add: div_mult2_eq)
  moreover have "b mod k ^ Suc n div k = b div k mod k ^ n" "b mod k ^ Suc n mod k = b mod k"
    using Suc.prems(1) mod_mult2_eq [of b k "k ^ n"] by simp_all
  then have "level_indices k (Suc n) (b mod k ^ Suc n) = Inr (is @ [b mod k])"
    using i(2) Suc.prems(1) by simp
  ultimately show ?case by simp
qed simp

lemma level_indices_length: "level_indices k n b = Inr is \<Longrightarrow> length is = n"
  by (induction n arbitrary: b "is") (auto simp: andthen_Inr split: if_splits)

text \<open>Following the indices of a block number leads to its pointer.\<close>

lemma follow_leaves:
  "leaves ptrs k n bp = Some ls \<Longrightarrow> n = Suc n' \<Longrightarrow> b < k ^ n \<Longrightarrow> ptrs bp = Some arr \<Longrightarrow>
   \<exists>is a. level_indices k n b = Inr is \<and> follow ptrs (butlast is) arr = Some a \<and> last is < length a \<and> a ! last is = ls ! b"
proof (induction n' arbitrary: n bp ls b arr)
  case 0
  then obtain lss where "length arr = k" "length lss = k" "\<forall>i < k. leaves ptrs k 0 (arr ! i) = Some (lss ! i)" "ls = concat lss"
    using leaves_Suc [of ptrs k 0 bp ls] by auto
  moreover have "length (lss ! i) = 1" if "i < k" for i
    using calculation(3) that by (metis leaves.simps(1) option.inject length_Cons list.size(3) One_nat_def)
  then have "\<forall>xs \<in> set lss. length xs = 1" using calculation(2) by (auto simp: in_set_conv_nth)
  then have "concat lss ! b = lss ! b ! 0"
    using calculation(2) 0(2,3) nth_concat_equal [of lss 1 b] by simp
  moreover have "lss ! b = [arr ! b]" using calculation 0(2,3) by force
  ultimately show ?case using 0(2,3) by (intro exI [of _ "[b]"] exI [of _ arr]) auto
next
  case (Suc n')
  have k: "0 < k" using Suc.prems(2,3) by (cases k) auto
  obtain lss where l: "length arr = k" "length lss = k" "\<forall>i < k. leaves ptrs k (Suc n') (arr ! i) = Some (lss ! i)" "ls = concat lss"
    using Suc.prems(1,2,4) leaves_Suc [of ptrs k "Suc n'" bp ls] by auto
  let ?i = "b div k ^ Suc n'" and ?r = "b mod k ^ Suc n'"
  have i: "?i < k" using Suc.prems(2,3) by (simp add: less_mult_imp_div_less mult.commute)
  have r: "?r < k ^ Suc n'" using k by simp
  obtain arr' where a': "ptrs (arr ! ?i) = Some arr'" using l(3) i leaves_Suc [of ptrs k n'] by fastforce
  obtain "is" a where s: "level_indices k (Suc n') ?r = Inr is" "follow ptrs (butlast is) arr' = Some a"
    "last is < length a" "a ! last is = lss ! ?i ! ?r"
    using Suc.IH [OF l(3)[rule_format, OF i] refl r a'] by blast
  have "is \<noteq> []" using level_indices_length [OF s(1)] by auto
  moreover have "level_indices k n b = Inr (?i # is)"
    using level_indices_Suc [OF k, of b "Suc n'"] Suc.prems(2,3) s(1) by auto
  moreover have "ls ! b = lss ! ?i ! ?r"
  proof -
    have "length xs = k ^ Suc n'" if x: "xs \<in> set lss" for xs
    proof -
      obtain i where "i < k" "xs = lss ! i" using x l(2) by (auto simp: in_set_conv_nth)
      then show ?thesis using l(3) leaves_length by blast
    qed
    moreover have "b < length lss * k ^ Suc n'" using Suc.prems(2,3) l(2) by simp
    ultimately show ?thesis unfolding l(4) by (intro nth_concat_equal) auto
  qed
  ultimately show ?case using s a' i l(1) by (intro exI [of _ "?i # is"] exI [of _ a]) auto
qed

section \<open>The state of a tree\<close>

definition bt_ok :: "reader \<Rightarrow> blocktree \<Rightarrow> py_bp list \<Rightarrow> bool" where
  "bt_ok rb bt ls \<longleftrightarrow>
     (\<exists>bp. bt_root bt = Root_bp bp \<and> ls = [bp])
     \<or> (\<exists>bp a n. bt_levels bt = Suc (Suc n) \<and> bt_root bt = Root_array a \<and> block_ptrs rb bp = Some a
          \<and> leaves (block_ptrs rb) (bt_blocks_per_level bt) (Suc n) bp = Some ls \<and> cache_ok rb a (bt_cache bt))"

lemma bt_getitem_ok:
  assumes "bt_ok rb bt ls" and "i < length ls"
  shows "\<exists>bt'. bt_getitem rb bt (int i) = Some (Inr (Some (ls ! i), bt')) \<and> bt_ok rb bt' ls"
proof -
  consider (one) bp where "bt_root bt = Root_bp bp" "ls = [bp]"
    | (many) bp a n where "bt_levels bt = Suc (Suc n)" "bt_root bt = Root_array a" "block_ptrs rb bp = Some a"
      "leaves (block_ptrs rb) (bt_blocks_per_level bt) (Suc n) bp = Some ls" "cache_ok rb a (bt_cache bt)"
    using assms(1) unfolding bt_ok_def by blast
  then show ?thesis
  proof cases
    case one
    then show ?thesis using assms by (simp add: bt_getitem_def)
  next
    case many
    have "i < bt_blocks_per_level bt ^ Suc n" using assms(2) leaves_length [OF many(4)] by simp
    then obtain "is" b where s: "level_indices (bt_blocks_per_level bt) (Suc n) i = Inr is"
      "follow (block_ptrs rb) (butlast is) a = Some b" "last is < length b" "b ! last is = ls ! i"
      using follow_leaves [OF many(4) refl _ many(3)] by blast
    obtain c where w: "bt_walk rb (butlast is) a (bt_cache bt) = Some (Inr (Some b, c))" "cache_ok rb a c"
      using bt_walk_ok [OF many(5) s(2)] by blast
    have ne: "is \<noteq> []" using level_indices_length [OF s(1)] by auto
    have "bt_getitem rb bt (int i) = Some (Inr (Some (ls ! i), bt\<lparr>bt_cache := c\<rparr>))"
      using s(1,3,4) ne by (simp add: bt_getitem_def many(1,2) w(1) index_ok)
    moreover have "bt_ok rb (bt\<lparr>bt_cache := c\<rparr>) ls" using many w(2) unfolding bt_ok_def by auto
    ultimately show ?thesis by blast
  qed
qed

lemma BlockTree_ok:
  assumes "leaves (block_ptrs rb) k n bp = Some ls"
  shows "\<exists>bt. BlockTree rb (Suc n) bp = Some (Inr bt) \<and> bt_ok rb bt ls"
proof (cases n)
  case 0
  then show ?thesis using assms by (simp add: BlockTree_def bt_ok_def)
next
  case (Suc m)
  then obtain a where a: "block_ptrs rb bp = Some a" "length a = k" using assms leaves_Suc [of "block_ptrs rb" k m bp ls] by auto
  then have "load_from_bptr rb bp = Some (Inr (Some a))" by (simp add: block_ptrs_Some)
  then show ?thesis using assms a Suc by (auto simp: BlockTree_def bt_ok_def)
qed

fun bt_lookups :: "reader \<Rightarrow> blocktree \<Rightarrow> nat list \<Rightarrow> py_bp option list io" where
  "bt_lookups rb bt [] = Some (Inr [])"
| "bt_lookups rb bt (i # is) =
     io_bind (bt_getitem rb bt (int i)) (\<lambda>(b, bt'). io_bind (bt_lookups rb bt' is) (\<lambda>bs. Some (Inr (b # bs))))"

lemma bt_lookups_ok:
  "bt_ok rb bt ls \<Longrightarrow> \<forall>i \<in> set is. i < length ls \<Longrightarrow> bt_lookups rb bt is = Some (Inr (map (\<lambda>i. Some (ls ! i)) is))"
proof (induction "is" arbitrary: bt)
  case (Cons i "is")
  then obtain bt' where "bt_getitem rb bt (int i) = Some (Inr (Some (ls ! i), bt'))" "bt_ok rb bt' ls"
    using bt_getitem_ok [of rb bt ls i] by auto
  then show ?case using Cons by simp
qed simp

text \<open>
  C16: a block tree is the flat list of its leaves. When every indirect block below the
  root pointer can be read and has the same number of pointers, any sequence of lookups returns
  the pointers of the data blocks asked for, in every order and with repetitions, whatever the
  cache holds by then.
\<close>

theorem blocktree_flat:
  assumes "leaves (block_ptrs rb) k n root_bptr = Some ls" and "\<forall>i \<in> set is. i < length ls"
  shows "io_bind (BlockTree rb (Suc n) root_bptr) (\<lambda>bt. bt_lookups rb bt is) = Some (Inr (map (\<lambda>i. Some (ls ! i)) is))"
proof -
  obtain bt where "BlockTree rb (Suc n) root_bptr = Some (Inr bt)" "bt_ok rb bt ls" using BlockTree_ok [OF assms(1)] by blast
  then show ?thesis using bt_lookups_ok [OF _ assms(2)] by simp
qed

text \<open>Every block is full of zero pointers.\<close>

definition zero_reader :: reader where
  "zero_reader bp dva = Some (Inr (Some (replicate 256 0), True))"

theorem blocktree_flat_witness:
  "\<exists>z. BlockPtr_parse (replicate 128 0) = Inr z \<and>
     io_bind (BlockTree zero_reader 3 z) (\<lambda>bt. bt_lookups zero_reader bt [3, 0, 3]) = Some (Inr [Some z, Some z, Some z])"
proof -
  obtain z where z: "BlockPtr_parse (replicate 128 0) = Inr z"
    using parse_fields [of "replicate 128 0"] unpack_words_get [of "replicate 128 0" 16] by auto
  have "[0..<length (replicate 256 (0 :: u8)) div 128] = [0, 1]" by (simp add: upt_rec)
  then have "BlockPtrArray (replicate 256 0) = Inr [z, z]"
    unfolding BlockPtrArray_def by (simp add: slice_def z)
  then have p: "block_ptrs zero_reader bp = Some [z, z]" for bp
    by (simp add: block_ptrs_Some load_from_bptr_def zero_reader_def)
  have "leaves (block_ptrs zero_reader) 2 (Suc (Suc 0)) z = Some [z, z, z, z]" using p by simp
  from blocktree_flat [OF this, of "[3, 0, 3]"]
  show ?thesis using z by (intro exI [of _ z]) (simp add: eval_nat_numeral)
qed

end
