(* ===== verification/Py_File.thy ===== *)
theory Py_File
  imports Py_Tree
begin

text \<open>
  Files and object sets on top of block trees: \<open>FileObj\<close> of \<open>src/zfs/fileobj.py\<close> and the dnode
  lookup of \<open>ObjectSet\<close> in \<open>src/zfs/objectset.py\<close>. A read that keeps asking for more than there
  is need not end when bad blocks count as zeros and the block size is zero, so the loop is a
  partial function. Printing is left out.
\<close>

section \<open>File objects\<close>

record fileobj =
  fo_bt :: blocktree
  fo_next_blkid :: nat
  fo_max_blkid :: nat
  fo_datablksize :: nat
  fo_filepos :: nat
  fo_blkpos :: nat
  fo_buf :: "bytes option"
  fo_corrupted :: bool
  fo_bad_as_zeros :: bool

definition FileObj :: "reader \<Rightarrow> nat \<Rightarrow> py_bp \<Rightarrow> nat \<Rightarrow> nat \<Rightarrow> bool \<Rightarrow> fileobj io" where
  "FileObj rb levels blkptr0 maxblkid datablksize bad_as_zeros =
     io_bind (BlockTree rb levels blkptr0) (\<lambda>bt.
     Some (Inr \<lparr>fo_bt = bt, fo_next_blkid = 0, fo_max_blkid = maxblkid, fo_datablksize = datablksize,
       fo_filepos = 0, fo_blkpos = 0, fo_buf = Some [], fo_corrupted = False, fo_bad_as_zeros = bad_as_zeros\<rparr>))"

text \<open>The first part of a round of the loop: the next block into the buffer. The result says whether
  the block was bad.\<close>

definition fo_fetch :: "reader \<Rightarrow> fileobj \<Rightarrow> (bool \<times> fileobj) io" where
  "fo_fetch rb fo =
     (if fo_max_blkid fo < fo_next_blkid fo then Some (Inr (True, fo))
      else io_bind (bt_getitem rb (fo_bt fo) (int (fo_next_blkid fo))) (\<lambda>(bptr, bt).
        let fo = fo\<lparr>fo_bt := bt, fo_next_blkid := fo_next_blkid fo + 1\<rparr> in
        case bptr of
          None \<Rightarrow> Some (Inr (True, fo))
        | Some bp \<Rightarrow> io_bind (rb bp 0) (\<lambda>(b, c). Some (Inr (b = None, fo\<lparr>fo_buf := b\<rparr>)))))"

text \<open>The bad block is remembered; it ends the loop, or zeros take its place.\<close>

definition fo_round :: "reader \<Rightarrow> fileobj \<Rightarrow> (bool \<times> fileobj) io" where
  "fo_round rb fo =
     io_bind (fo_fetch rb fo) (\<lambda>(bad, fo).
     Some (Inr (if \<not> bad then (True, fo)
       else if fo_bad_as_zeros fo then (True, fo\<lparr>fo_corrupted := True, fo_buf := Some (replicate (fo_datablksize fo) 0)\<rparr>)
       else (False, fo\<lparr>fo_corrupted := True\<rparr>))))"

lemma io_bind_mono [partial_function_mono]:
  assumes "mono_option B" and "\<And>y. mono_option (\<lambda>f. C y f)"
  shows "mono_option (\<lambda>f. io_bind (B f) (\<lambda>y. C y f))"
proof -
  have e: "io_bind r g = Option.bind r (\<lambda>x. case x of Inl e \<Rightarrow> Some (Inl e) | Inr y \<Rightarrow> g y)" for r :: "'x io" and g :: "'x \<Rightarrow> 'y io"
    by (auto simp: io_bind_def split: option.splits sum.splits)
  show ?thesis unfolding e
  proof (rule bind_mono [OF assms(1)])
    fix y
    show "mono_option (\<lambda>f. case y of Inl e \<Rightarrow> Some (Inl e) | Inr y \<Rightarrow> C y f)"
      using assms(2) by (cases y) (simp_all add: option.const_mono)
  qed
qed

partial_function (option) fo_loop :: "reader \<Rightarrow> nat \<Rightarrow> bytes \<Rightarrow> fileobj \<Rightarrow> (bytes \<times> fileobj) io" where
  "fo_loop rb n data fo =
     (if length data < n then
        io_bind (fo_round rb fo) (\<lambda>p.
          if fst p then
            fo_loop rb n (data @ take (n - length data) (the (fo_buf (snd p))))
              ((snd p)\<lparr>fo_blkpos := min (n - length data) (length (the (fo_buf (snd p))))\<rparr>)
          else Some (Inr (data, snd p)))
      else Some (Inr (data, fo)))"

text \<open>\<open>read\<close>. A read after a bad block that ended the last one fails: the buffer is missing.\<close>

definition fo_read :: "reader \<Rightarrow> nat \<Rightarrow> fileobj \<Rightarrow> (bytes \<times> fileobj) io" where
  "fo_read rb n fo =
     (case fo_buf fo of None \<Rightarrow> Some (Inl Type_error)
      | Some buf \<Rightarrow>
          let nn = min n (length buf - fo_blkpos fo); data = slice buf (fo_blkpos fo) (fo_blkpos fo + nn) in
          io_bind (fo_loop rb n data (fo\<lparr>fo_blkpos := fo_blkpos fo + nn\<rparr>)) (\<lambda>(data, fo).
          Some (Inr (data, fo\<lparr>fo_filepos := fo_filepos fo + length data\<rparr>))))"

section \<open>A file as a stream of bytes\<close>

text \<open>The bytes not read yet, when \<open>blks\<close> are the contents of the file's blocks.\<close>

definition fo_rest :: "bytes list \<Rightarrow> fileobj \<Rightarrow> bytes" where
  "fo_rest blks fo = drop (fo_blkpos fo) (the (fo_buf fo)) @ concat (drop (fo_next_blkid fo) blks)"

text \<open>Block \<open>b\<close> is what the pointer gives, or zeros where it cannot be read and zeros are asked for.\<close>

definition block_content :: "reader \<Rightarrow> bool \<Rightarrow> nat \<Rightarrow> py_bp \<Rightarrow> bytes \<Rightarrow> bool" where
  "block_content rb zeros bsize bp b \<longleftrightarrow>
     (case rb bp 0 of
        Some (Inr (Some d, c)) \<Rightarrow> b = d
      | Some (Inr (None, c)) \<Rightarrow> zeros \<and> b = replicate bsize 0
      | _ \<Rightarrow> False)"

definition fo_ok :: "reader \<Rightarrow> py_bp list \<Rightarrow> bytes list \<Rightarrow> fileobj \<Rightarrow> bool" where
  "fo_ok rb ls blks fo \<longleftrightarrow>
     bt_ok rb (fo_bt fo) ls \<and> length blks = fo_max_blkid fo + 1 \<and> length blks \<le> length ls
     \<and> (\<forall>i < length blks. block_content rb (fo_bad_as_zeros fo) (fo_datablksize fo) (ls ! i) (blks ! i))
     \<and> fo_next_blkid fo \<le> length blks \<and> fo_buf fo \<noteq> None"

lemma fo_round_ok:
  assumes "fo_ok rb ls blks fo" and "fo_next_blkid fo < length blks"
  shows "\<exists>fo'. fo_round rb fo = Some (Inr (True, fo')) \<and> fo_buf fo' = Some (blks ! fo_next_blkid fo)
    \<and> fo_next_blkid fo' = fo_next_blkid fo + 1 \<and> fo_filepos fo' = fo_filepos fo \<and> (\<forall>p. fo_ok rb ls blks (fo'\<lparr>fo_blkpos := p\<rparr>))"
proof -
  let ?i = "fo_next_blkid fo"
  have ok: "bt_ok rb (fo_bt fo) ls" "length blks = fo_max_blkid fo + 1" "length blks \<le> length ls"
    and bc: "block_content rb (fo_bad_as_zeros fo) (fo_datablksize fo) (ls ! ?i) (blks ! ?i)"
    using assms by (simp_all add: fo_ok_def)
  obtain bt' where g: "bt_getitem rb (fo_bt fo) (int ?i) = Some (Inr (Some (ls ! ?i), bt'))" "bt_ok rb bt' ls"
    using bt_getitem_ok [OF ok(1), of ?i] assms(2) ok(3) by auto
  have n: "\<not> fo_max_blkid fo < ?i" using assms(2) ok(2) by simp
  obtain b c where r: "rb (ls ! ?i) 0 = Some (Inr (b, c))"
    and b: "b = Some (blks ! ?i) \<or> b = None \<and> fo_bad_as_zeros fo \<and> blks ! ?i = replicate (fo_datablksize fo) 0"
    using bc by (auto simp: block_content_def split: option.splits sum.splits)
  show ?thesis
    using b assms g(2) unfolding fo_round_def fo_fetch_def if_not_P [OF n] g(1) io_bind_simps prod.case Let_def option.case r
    by (auto simp: fo_ok_def)
qed

lemma fo_loop_ok:
  "fo_ok rb ls blks fo \<Longrightarrow> length data < n \<Longrightarrow> n - length data \<le> length (concat (drop (fo_next_blkid fo) blks)) \<Longrightarrow>
   \<exists>fo'. fo_loop rb n data fo = Some (Inr (data @ take (n - length data) (concat (drop (fo_next_blkid fo) blks)), fo'))
     \<and> fo_ok rb ls blks fo' \<and> fo_rest blks fo' = drop (n - length data) (concat (drop (fo_next_blkid fo) blks))
     \<and> fo_filepos fo' = fo_filepos fo"
proof (induction "length blks - fo_next_blkid fo" arbitrary: fo data)
  case 0
  then show ?case by simp
next
  case (Suc k)
  let ?i = "fo_next_blkid fo" and ?m = "n - length data"
  have i: "?i < length blks" using Suc.hyps(2) by simp
  obtain fo1 where r: "fo_round rb fo = Some (Inr (True, fo1))" "fo_buf fo1 = Some (blks ! ?i)"
    "fo_next_blkid fo1 = ?i + 1" "fo_filepos fo1 = fo_filepos fo" and ok1: "\<And>p. fo_ok rb ls blks (fo1\<lparr>fo_blkpos := p\<rparr>)"
    using fo_round_ok [OF Suc.prems(1) i] by blast
  let ?b = "blks ! ?i" and ?rest = "concat (drop (?i + 1) blks)"
  let ?fo2 = "fo1\<lparr>fo_blkpos := min ?m (length ?b)\<rparr>"
  have cc: "concat (drop ?i blks) = ?b @ ?rest" using i by (simp add: Cons_nth_drop_Suc [symmetric])
  have l: "fo_loop rb n data fo = fo_loop rb n (data @ take ?m ?b) ?fo2"
    using Suc.prems(2) r by (subst fo_loop.simps) simp
  show ?case
  proof (cases "length ?b < ?m")
    case True
    have d: "data @ take ?m ?b = data @ ?b" using True by simp
    have k: "k = length blks - fo_next_blkid ?fo2" using Suc.hyps(2) r(3) by simp
    have n1: "length (data @ ?b) < n" using True by simp
    have n2: "n - length (data @ ?b) \<le> length (concat (drop (fo_next_blkid ?fo2) blks))"
      using Suc.prems(3) cc r(3) by simp
    have e: "concat (drop (fo_next_blkid ?fo2) blks) = ?rest" "fo_filepos ?fo2 = fo_filepos fo" using r(3,4) by simp_all
    obtain fo' where "fo_loop rb n (data @ ?b) ?fo2 = Some (Inr ((data @ ?b) @ take (n - length (data @ ?b)) ?rest, fo'))"
      "fo_ok rb ls blks fo'" "fo_rest blks fo' = drop (n - length (data @ ?b)) ?rest" "fo_filepos fo' = fo_filepos fo"
      using Suc.hyps(1) [OF k ok1 n1 n2] unfolding e by blast
    moreover have "take ?m (concat (drop ?i blks)) = ?b @ take (n - length (data @ ?b)) ?rest"
      "drop ?m (concat (drop ?i blks)) = drop (n - length (data @ ?b)) ?rest"
      using True unfolding cc by simp_all
    ultimately show ?thesis unfolding l d by auto
  next
    case False
    have "fo_loop rb n (data @ take ?m ?b) ?fo2 = Some (Inr (data @ take ?m ?b, ?fo2))"
      using False Suc.prems(2) by (subst fo_loop.simps) simp
    then show ?thesis using l False cc ok1 r(2,3,4) by (intro exI [of _ ?fo2]) (auto simp: fo_rest_def)
  qed
qed

lemma fo_read_ok:
  assumes "fo_ok rb ls blks fo" and "n \<le> length (fo_rest blks fo)"
  shows "\<exists>fo'. fo_read rb n fo = Some (Inr (take n (fo_rest blks fo), fo')) \<and> fo_ok rb ls blks fo'
    \<and> fo_rest blks fo' = drop n (fo_rest blks fo) \<and> fo_filepos fo' = fo_filepos fo + n"
proof -
  obtain buf where buf: "fo_buf fo = Some buf" using assms(1) by (auto simp: fo_ok_def)
  let ?p = "fo_blkpos fo" and ?cs = "concat (drop (fo_next_blkid fo) blks)"
  define nn d where "nn = min n (length buf - ?p)" and "d = take n (drop ?p buf)"
  have rest: "fo_rest blks fo = drop ?p buf @ ?cs" by (simp add: fo_rest_def buf)
  have sl: "slice buf ?p (?p + nn) = d" by (simp add: slice_def nn_def d_def min_def)
  let ?fo1 = "fo\<lparr>fo_blkpos := ?p + nn\<rparr>"
  have ok1: "fo_ok rb ls blks ?fo1" using assms(1) by (simp add: fo_ok_def)
  have "\<exists>fo2. fo_loop rb n d ?fo1 = Some (Inr (take n (fo_rest blks fo), fo2)) \<and> fo_ok rb ls blks fo2
      \<and> fo_rest blks fo2 = drop n (fo_rest blks fo) \<and> fo_filepos fo2 = fo_filepos fo"
  proof (cases "n \<le> length buf - ?p")
    case True
    have "fo_loop rb n d ?fo1 = Some (Inr (d, ?fo1))"
      using True by (subst fo_loop.simps) (simp add: d_def)
    moreover have "fo_rest blks ?fo1 = drop n (fo_rest blks fo)"
      using True by (simp add: fo_rest_def buf nn_def add.commute)
    ultimately show ?thesis using True ok1 by (intro exI [of _ ?fo1]) (simp add: rest d_def)
  next
    case False
    have d: "d = drop ?p buf" "length d < n" using False by (simp_all add: d_def)
    have "n - length d \<le> length (concat (drop (fo_next_blkid ?fo1) blks))" using assms(2) d by (simp add: rest)
    from fo_loop_ok [OF ok1 d(2) this] obtain fo2 where
      "fo_loop rb n d ?fo1 = Some (Inr (d @ take (n - length d) ?cs, fo2))" "fo_ok rb ls blks fo2"
      "fo_rest blks fo2 = drop (n - length d) ?cs" "fo_filepos fo2 = fo_filepos fo"
      by auto
    moreover have "take n (drop ?p buf @ ?cs) = d @ take (n - length d) ?cs" "drop n (drop ?p buf @ ?cs) = drop (n - length d) ?cs"
      using False d by simp_all
    ultimately show ?thesis unfolding rest by auto
  qed
  then obtain fo2 where "fo_loop rb n d ?fo1 = Some (Inr (take n (fo_rest blks fo), fo2))" "fo_ok rb ls blks fo2"
      "fo_rest blks fo2 = drop n (fo_rest blks fo)" "fo_filepos fo2 = fo_filepos fo" by blast
  moreover have "length (take n (fo_rest blks fo)) = n" using assms(2) by simp
  moreover have "fo_ok rb ls blks (fo2\<lparr>fo_filepos := k\<rparr>) = fo_ok rb ls blks fo2"
    "fo_rest blks (fo2\<lparr>fo_filepos := k\<rparr>) = fo_rest blks fo2" for k
    by (simp_all add: fo_ok_def fo_rest_def)
  ultimately show ?thesis
    unfolding fo_read_def buf option.case Let_def nn_def [symmetric] sl by (simp del: length_take)
qed

fun fo_reads :: "reader \<Rightarrow> nat list \<Rightarrow> fileobj \<Rightarrow> bytes list io" where
  "fo_reads rb [] fo = Some (Inr [])"
| "fo_reads rb (n # ns) fo =
     io_bind (fo_read rb n fo) (\<lambda>(data, fo'). io_bind (fo_reads rb ns fo') (\<lambda>ds. Some (Inr (data # ds))))"

fun pieces :: "nat list \<Rightarrow> 'a list \<Rightarrow> 'a list list" where
  "pieces [] xs = []"
| "pieces (n # ns) xs = take n xs # pieces ns (drop n xs)"

lemma fo_reads_ok:
  "fo_ok rb ls blks fo \<Longrightarrow> sum_list ns \<le> length (fo_rest blks fo) \<Longrightarrow>
   fo_reads rb ns fo = Some (Inr (pieces ns (fo_rest blks fo)))"
proof (induction ns arbitrary: fo)
  case (Cons n ns)
  obtain fo' where "fo_read rb n fo = Some (Inr (take n (fo_rest blks fo), fo'))" "fo_ok rb ls blks fo'"
    "fo_rest blks fo' = drop n (fo_rest blks fo)"
    using fo_read_ok [OF Cons.prems(1), of n] Cons.prems(2) by auto
  then show ?case using Cons.IH [of fo'] Cons.prems(2) by simp
qed simp

text \<open>
  C14: reading a file is reading a flat stream of bytes. Any sequence of reads of any sizes
  returns the consecutive pieces of the concatenated blocks, found through the block tree; with
  \<open>bad_as_zeros\<close> a block that cannot be read counts as a block of zeros and the rest stays in
  place.
\<close>

theorem fileobj_reads:
  assumes "leaves (block_ptrs rb) k lv bp0 = Some ls" and "length blks = maxblkid + 1" and "length blks \<le> length ls"
    and "\<forall>i < length blks. block_content rb zeros bsize (ls ! i) (blks ! i)" and "sum_list ns \<le> length (concat blks)"
  shows "io_bind (FileObj rb (Suc lv) bp0 maxblkid bsize zeros) (fo_reads rb ns) = Some (Inr (pieces ns (concat blks)))"
proof -
  obtain bt where bt: "BlockTree rb (Suc lv) bp0 = Some (Inr bt)" "bt_ok rb bt ls" using BlockTree_ok [OF assms(1)] by blast
  let ?fo = "\<lparr>fo_bt = bt, fo_next_blkid = 0, fo_max_blkid = maxblkid, fo_datablksize = bsize,
       fo_filepos = 0, fo_blkpos = 0, fo_buf = Some [], fo_corrupted = False, fo_bad_as_zeros = zeros\<rparr>"
  have "fo_ok rb ls blks ?fo" using bt(2) assms(2-4) by (simp add: fo_ok_def)
  moreover have "fo_rest blks ?fo = concat blks" by (simp add: fo_rest_def)
  ultimately show ?thesis using fo_reads_ok [of rb ls blks ?fo ns] assms(5) bt(1) by (simp add: FileObj_def)
qed

text \<open>A device whose blocks all hold one, two, three.\<close>

definition demo_reader :: reader where
  "demo_reader bp dva = Some (Inr (Some [1, 2, 3], True))"

theorem fileobj_reads_witness:
  "io_bind (FileObj demo_reader 1 demo_bp 0 3 False) (fo_reads demo_reader [2, 1]) = Some (Inr [[1, 2], [3]])"
proof -
  have "\<forall>i < length [[1, 2, 3 :: u8]]. block_content demo_reader False 3 ([demo_bp] ! i) ([[1, 2, 3]] ! i)"
    by (simp add: block_content_def demo_reader_def)
  then show ?thesis
    using fileobj_reads [of demo_reader 0 0 demo_bp "[demo_bp]" "[[1, 2, 3]]" 0 False 3 "[2, 1]"] by simp
qed

text \<open>
  Without \<open>bad_as_zeros\<close>, a read that runs into a block that cannot be read returns the
  bytes before it and marks the file corrupted; but it leaves no buffer behind, so every later
  read raises \<open>TypeError\<close>.
\<close>

theorem fileobj_dies:
  assumes "fo_buf fo = Some buf" and "length buf - fo_blkpos fo < n" and "fo_next_blkid fo \<le> fo_max_blkid fo"
    and "\<not> fo_bad_as_zeros fo" and "bt_getitem rb (fo_bt fo) (int (fo_next_blkid fo)) = Some (Inr (Some bp, bt'))"
    and "rb bp 0 = Some (Inr (None, c))"
  shows "\<exists>fo'. fo_read rb n fo = Some (Inr (drop (fo_blkpos fo) buf, fo')) \<and> fo_corrupted fo'
    \<and> fo_read rb m fo' = Some (Inl Type_error)"
proof -
  let ?p = "fo_blkpos fo" and ?nn = "length buf - fo_blkpos fo"
  have nn: "min n ?nn = ?nn" using assms(2) by simp
  have sl: "slice buf ?p (?p + ?nn) = drop ?p buf" by (simp add: slice_def)
  let ?fo1 = "fo\<lparr>fo_blkpos := ?p + ?nn\<rparr>"
  let ?fo2 = "?fo1\<lparr>fo_bt := bt', fo_next_blkid := fo_next_blkid fo + 1, fo_buf := None, fo_corrupted := True\<rparr>"
  have "fo_round rb ?fo1 = Some (Inr (False, ?fo2))"
    using assms(3-6) by (simp add: fo_round_def fo_fetch_def Let_def)
  then have "fo_loop rb n (drop ?p buf) ?fo1 = Some (Inr (drop ?p buf, ?fo2))"
    using assms(2) by (subst fo_loop.simps) simp
  then have "fo_read rb n fo = Some (Inr (drop ?p buf, ?fo2\<lparr>fo_filepos := fo_filepos fo + ?nn\<rparr>))"
    unfolding fo_read_def assms(1) option.case Let_def nn sl by simp
  then show ?thesis by (simp add: fo_read_def)
qed

theorem fileobj_dies_witness:
  "\<exists>fo'. fo_read (\<lambda>bp dva. Some (Inr (None, False))) 2
      \<lparr>fo_bt = \<lparr>bt_levels = 1, bt_root = Root_bp demo_bp, bt_blocks_per_level = 0, bt_cache = CTree []\<rparr>,
       fo_next_blkid = 0, fo_max_blkid = 0, fo_datablksize = 512, fo_filepos = 0, fo_blkpos = 0, fo_buf = Some [7],
       fo_corrupted = False, fo_bad_as_zeros = False\<rparr> = Some (Inr ([7], fo')) \<and> fo_corrupted fo'
    \<and> fo_read (\<lambda>bp dva. Some (Inr (None, False))) 1 fo' = Some (Inl Type_error)"
  using fileobj_dies [of "\<lparr>fo_bt = \<lparr>bt_levels = 1, bt_root = Root_bp demo_bp, bt_blocks_per_level = 0, bt_cache = CTree []\<rparr>,
       fo_next_blkid = 0, fo_max_blkid = 0, fo_datablksize = 512, fo_filepos = 0, fo_blkpos = 0, fo_buf = Some [7],
       fo_corrupted = False, fo_bad_as_zeros = False\<rparr>" "[7]" 2 "\<lambda>bp dva. Some (Inr (None, False))" demo_bp _ False 1]
  by (simp add: bt_getitem_def)

section \<open>Object sets\<close>

record objectset =
  os_datablksize :: nat
  os_blocktree :: blocktree
  os_block_cache :: "nat \<rightharpoonup> bytes option"
  os_broken :: bool

definition dnodes_per_block :: "objectset \<Rightarrow> nat" where
  "dnodes_per_block os = os_datablksize os div 512"

text \<open>\<open>for dva in range(3)\<close> of \<open>_get_dnode\<close>: the first copy that is there and not empty, whatever its
  checksum.\<close>

fun first_copy :: "reader \<Rightarrow> py_bp \<Rightarrow> nat list \<Rightarrow> bytes option \<Rightarrow> bytes option io" where
  "first_copy rb bp [] prev = Some (Inr prev)"
| "first_copy rb bp (dva # dvas) prev =
     io_bind (rb bp dva) (\<lambda>(data, c).
       if data \<noteq> None \<and> data \<noteq> Some [] then Some (Inr data) else first_copy rb bp dvas data)"

text \<open>\<open>_get_dnode\<close> up to the 512 bytes \<open>DNode\<close> is made of.\<close>

definition get_dnode :: "reader \<Rightarrow> objectset \<Rightarrow> nat \<Rightarrow> (bytes option \<times> objectset) io" where
  "get_dnode rb os dnode_id =
     (if os_broken os then Some (Inr (None, os))
      else if dnodes_per_block os = 0 then Some (Inl Zero_division_error)
      else
      let blockid = dnode_id div dnodes_per_block os; dnid = dnode_id mod dnodes_per_block os in
      io_bind (case os_block_cache os blockid of
          Some data \<Rightarrow> Some (Inr (data, os))
        | None \<Rightarrow>
            io_bind (bt_getitem rb (os_blocktree os) (int blockid)) (\<lambda>(bp, bt).
            io_bind (case bp of None \<Rightarrow> Some (Inr None) | Some b \<Rightarrow> first_copy rb b [0, 1, 2] None) (\<lambda>data.
            Some (Inr (data, os\<lparr>os_blocktree := bt, os_block_cache := (os_block_cache os)(blockid \<mapsto> data)\<rparr>)))))
        (\<lambda>(data, os').
        Some (Inr (case data of None \<Rightarrow> None | Some d \<Rightarrow> Some (slice d (dnid * 512) ((dnid + 1) * 512)), os'))))"

fun get_dnodes :: "reader \<Rightarrow> objectset \<Rightarrow> nat list \<Rightarrow> bytes option list io" where
  "get_dnodes rb os [] = Some (Inr [])"
| "get_dnodes rb os (i # is) =
     io_bind (get_dnode rb os i) (\<lambda>(d, os'). io_bind (get_dnodes rb os' is) (\<lambda>ds. Some (Inr (d # ds))))"

definition os_ok :: "reader \<Rightarrow> py_bp list \<Rightarrow> bytes list \<Rightarrow> objectset \<Rightarrow> bool" where
  "os_ok rb ls blks os \<longleftrightarrow>
     \<not> os_broken os \<and> 0 < dnodes_per_block os \<and> bt_ok rb (os_blocktree os) ls \<and> length blks \<le> length ls
     \<and> (\<forall>i < length blks. first_copy rb (ls ! i) [0, 1, 2] None = Some (Inr (Some (blks ! i)))
          \<and> length (blks ! i) = 512 * dnodes_per_block os)
     \<and> (\<forall>i < length blks. case os_block_cache os i of None \<Rightarrow> True | Some d \<Rightarrow> d = Some (blks ! i))"

lemma slice_concat_equal:
  "\<forall>xs \<in> set xss. length xs = m \<Longrightarrow> i < length xss \<Longrightarrow> a + n \<le> m \<Longrightarrow>
   slice (concat xss) (i * m + a) (i * m + a + n) = slice (xss ! i) a (a + n)"
proof (induction xss arbitrary: i)
  case (Cons xs xss)
  show ?case
  proof (cases i)
    case 0
    then show ?thesis using Cons.prems by (simp add: slice_def)
  next
    case (Suc j)
    then have "slice (concat xss) (j * m + a) (j * m + a + n) = slice (xss ! j) a (a + n)" using Cons by (intro Cons.IH) auto
    then show ?thesis using Suc Cons.prems(1) by (simp add: slice_def add.assoc)
  qed
qed simp

lemma os_ok_fill:
  assumes "os_ok rb ls blks os" and "bt_ok rb bt ls"
  shows "os_ok rb ls blks (os\<lparr>os_blocktree := bt, os_block_cache := (os_block_cache os)(b \<mapsto> Some (blks ! b))\<rparr>)"
  using assms by (simp add: os_ok_def dnodes_per_block_def)

lemma get_dnode_ok:
  assumes ok: "os_ok rb ls blks os" and i: "i < dnodes_per_block os * length blks"
  shows "\<exists>os'. get_dnode rb os i = Some (Inr (Some (slice (concat blks) (512 * i) (512 * i + 512)), os'))
    \<and> os_ok rb ls blks os' \<and> dnodes_per_block os' = dnodes_per_block os"
proof -
  let ?k = "dnodes_per_block os"
  let ?b = "i div dnodes_per_block os" and ?d = "i mod dnodes_per_block os"
  have k: "0 < ?k" "?k \<noteq> 0" "\<not> os_broken os" and b: "?b < length blks"
    using ok i by (simp_all add: os_ok_def less_mult_imp_div_less mult.commute)
  have s: "slice (blks ! ?b) (?d * 512) ((?d + 1) * 512) = slice (concat blks) (512 * i) (512 * i + 512)"
  proof -
    have "?d * 512 + 512 \<le> 512 * ?k" using mod_less_divisor [OF k(1), of i] by simp
    moreover have "\<forall>xs \<in> set blks. length xs = 512 * ?k" using ok by (auto simp: os_ok_def in_set_conv_nth)
    moreover have "?b * (512 * ?k) + ?d * 512 = 512 * i"
    proof -
      have "?b * (512 * ?k) + ?d * 512 = 512 * (?b * ?k + ?d)" by (simp only: distrib_left mult.assoc mult.left_commute mult.commute)
      also have "?b * ?k + ?d = i" by (rule div_mult_mod_eq)
      finally show ?thesis .
    qed
    ultimately show ?thesis using slice_concat_equal [of blks "512 * ?k" ?b "?d * 512" 512] b by (simp add: add.commute)
  qed
  show ?thesis
  proof (cases "os_block_cache os ?b")
    case (Some d)
    then have "d = Some (blks ! ?b)" using ok b by (force simp: os_ok_def)
    then have "get_dnode rb os i = Some (Inr (Some (slice (blks ! ?b) (?d * 512) ((?d + 1) * 512)), os))"
      using Some k by (simp add: get_dnode_def Let_def)
    then show ?thesis using ok s by auto
  next
    case None
    obtain bt where g: "bt_getitem rb (os_blocktree os) (int ?b) = Some (Inr (Some (ls ! ?b), bt))" "bt_ok rb bt ls"
      using bt_getitem_ok [of rb "os_blocktree os" ls ?b] ok b by (auto simp: os_ok_def)
    have f: "first_copy rb (ls ! ?b) [0, 1, 2] None = Some (Inr (Some (blks ! ?b)))" using ok b by (simp add: os_ok_def)
    let ?os = "os\<lparr>os_blocktree := bt, os_block_cache := (os_block_cache os)(?b \<mapsto> Some (blks ! ?b))\<rparr>"
    have "get_dnode rb os i = Some (Inr (Some (slice (blks ! ?b) (?d * 512) ((?d + 1) * 512)), ?os))"
      unfolding get_dnode_def if_not_P [OF k(3)] if_not_P [OF k(2)] Let_def None g(1) option.case io_bind_simps prod.case f ..
    moreover have "os_ok rb ls blks ?os" by (rule os_ok_fill [OF ok g(2)])
    moreover have "dnodes_per_block ?os = ?k" by (simp add: dnodes_per_block_def)
    ultimately show ?thesis unfolding s by blast
  qed
qed

lemma get_dnodes_ok:
  "os_ok rb ls blks os \<Longrightarrow> \<forall>i \<in> set is. i < dnodes_per_block os * length blks \<Longrightarrow>
   get_dnodes rb os is = Some (Inr (map (\<lambda>i. Some (slice (concat blks) (512 * i) (512 * i + 512))) is))"
proof (induction "is" arbitrary: os)
  case (Cons i "is")
  have i: "i < dnodes_per_block os * length blks" using Cons.prems(2) by simp
  obtain os' where g: "get_dnode rb os i = Some (Inr (Some (slice (concat blks) (512 * i) (512 * i + 512)), os'))"
    and os': "os_ok rb ls blks os'" "dnodes_per_block os' = dnodes_per_block os"
    using get_dnode_ok [OF Cons.prems(1) i] by blast
  have "\<forall>i \<in> set is. i < dnodes_per_block os' * length blks" using Cons.prems(2) os'(2) by simp
  from Cons.IH [OF os'(1) this] show ?case by (simp add: g)
qed simp

text \<open>
  C15: an object set is a flat array of 512-byte dnodes. Any sequence of lookups, through
  the cache of blocks and the block tree below it, returns for object \<open>i\<close> the bytes from
  \<open>512 * i\<close> on of the concatenated blocks.
\<close>

theorem objectset_flat:
  assumes "leaves (block_ptrs rb) k lv bp0 = Some ls" and "length blks \<le> length ls" and "dpb = datablksize div 512" and "0 < dpb"
    and "\<forall>i < length blks. first_copy rb (ls ! i) [0, 1, 2] None = Some (Inr (Some (blks ! i))) \<and> length (blks ! i) = 512 * dpb"
    and "\<forall>i \<in> set is. i < dpb * length blks"
  shows "io_bind (BlockTree rb (Suc lv) bp0) (\<lambda>bt. get_dnodes rb
      \<lparr>os_datablksize = datablksize, os_blocktree = bt, os_block_cache = Map.empty, os_broken = False\<rparr> is)
    = Some (Inr (map (\<lambda>i. Some (slice (concat blks) (512 * i) (512 * i + 512))) is))"
proof -
  obtain bt where bt: "BlockTree rb (Suc lv) bp0 = Some (Inr bt)" "bt_ok rb bt ls" using BlockTree_ok [OF assms(1)] by blast
  let ?os = "\<lparr>os_datablksize = datablksize, os_blocktree = bt, os_block_cache = Map.empty, os_broken = False\<rparr>"
  have "os_ok rb ls blks ?os" "dnodes_per_block ?os = dpb"
    using bt(2) assms(2-5) by (simp_all add: os_ok_def dnodes_per_block_def)
  then show ?thesis using get_dnodes_ok [of rb ls blks ?os "is"] bt(1) assms(6) by simp
qed

theorem objectset_flat_witness:
  "io_bind (BlockTree (\<lambda>bp dva. Some (Inr (Some (replicate 512 1 @ replicate 512 2), False))) 1 demo_bp) (\<lambda>bt.
      get_dnodes (\<lambda>bp dva. Some (Inr (Some (replicate 512 1 @ replicate 512 2), False)))
        \<lparr>os_datablksize = 1024, os_blocktree = bt, os_block_cache = Map.empty, os_broken = False\<rparr> [1])
    = Some (Inr [Some (replicate 512 2)])"
  using objectset_flat [of "\<lambda>bp dva. Some (Inr (Some (replicate 512 1 @ replicate 512 2), False))" 0 0 demo_bp "[demo_bp]"
      "[replicate 512 1 @ replicate 512 2]" 2 1024 "[1]"] by (simp add: slice_def)

end
