(* ===== verification/Py_Nvpair.thy ===== *)
theory Py_Nvpair
  imports Block_Proxy "HOL-Library.AList"
begin

text \<open>
  Packed name-value lists as the rescue scripts read them: \<open>TypedBytesIO\<close> and \<open>NVPairParser\<close> of
  \<open>src/zfs/nvpair.py\<close>. A stream is the list of the bytes not read yet, and every read returns what
  is left of it. A Python dict keeps the order of insertion, so it is an association list and a key
  given again keeps its place. A string is its bytes, and \<open>decode\<close> raises on a byte above 127. The
  parser calls itself for an inner list: \<open>z\<close> is the number of these calls the interpreter has left, and
  without one the call raises. The second argument bounds the rounds of the loop over the pairs;
  \<^const>\<open>None\<close> is a parser that ran out of it, and \<open>parse\<close> sets it to more than the stream is long:
  \<open>nvpair_parse_returns\<close> shows that it never runs out. The second half states the encoding that
  the parser reads, as an encoder, and that parsing inverts it.
\<close>

section \<open>Reading the stream\<close>

definition read_uint32 :: "bytes \<Rightarrow> (nat \<times> bytes) io" where
  "read_uint32 s = io_bind (Some (unpack_be 4 (take 4 s))) (\<lambda>v. Some (Inr (v, drop 4 s)))"

definition read_uint64 :: "bytes \<Rightarrow> (nat \<times> bytes) io" where
  "read_uint64 s = io_bind (Some (unpack_be 8 (take 8 s))) (\<lambda>v. Some (Inr (v, drop 8 s)))"

definition align4 :: "nat \<Rightarrow> nat" where
  "align4 n = (n + 3) div 4 * 4"

definition decode_ascii :: "bytes \<Rightarrow> bytes py" where
  "decode_ascii bs = (if \<forall>b \<in> set bs. unat b < 128 then Inr bs else Inl Unicode_error)"

definition read_string :: "bytes \<Rightarrow> ((bytes \<times> nat) \<times> bytes) io" where
  "read_string s =
     io_bind (read_uint32 s) (\<lambda>(str_len, s).
     let data_size = align4 str_len in
     io_bind (Some (decode_ascii (take str_len (take data_size s)))) (\<lambda>str.
     Some (Inr ((str, data_size + 4), drop data_size s))))"

text \<open>\<open>BytesIO.read(n)\<close>: a negative \<open>n\<close> reads to the end.\<close>

definition read_bytes :: "int \<Rightarrow> bytes \<Rightarrow> bytes \<times> bytes" where
  "read_bytes n s = (if n < 0 then (s, []) else (take (nat n) s, drop (nat n) s))"

section \<open>The parser\<close>

datatype nv = NV_int nat | NV_str bytes | NV_bytes bytes | NV_list "nv list" | NV_dict "(bytes \<times> nv) list"

type_synonym nvlist = "(bytes \<times> nv) list"

definition DATA_TYPE_UINT32 :: nat where "DATA_TYPE_UINT32 = 6"
definition DATA_TYPE_UINT64 :: nat where "DATA_TYPE_UINT64 = 8"
definition DATA_TYPE_STRING :: nat where "DATA_TYPE_STRING = 9"
definition DATA_TYPE_NVLIST :: nat where "DATA_TYPE_NVLIST = 19"
definition DATA_TYPE_NVLIST_ARRAY :: nat where "DATA_TYPE_NVLIST_ARRAY = 20"

lemmas nv_types = DATA_TYPE_UINT32_def DATA_TYPE_UINT64_def DATA_TYPE_STRING_def DATA_TYPE_NVLIST_def
  DATA_TYPE_NVLIST_ARRAY_def

text \<open>One value; \<open>p\<close> parses an inner list and \<open>len\<close> is \<open>size - (16 + name_len)\<close>.\<close>

definition nv_value :: "(bytes \<Rightarrow> (nvlist \<times> bytes) io) \<Rightarrow> nat \<Rightarrow> int \<Rightarrow> bytes \<Rightarrow> (nv \<times> bytes) io" where
  "nv_value p data_type len s =
     (if data_type = DATA_TYPE_UINT32 then io_bind (read_uint32 s) (\<lambda>(v, s). Some (Inr (NV_int v, s)))
      else if data_type = DATA_TYPE_UINT64 then io_bind (read_uint64 s) (\<lambda>(v, s). Some (Inr (NV_int v, s)))
      else if data_type = DATA_TYPE_STRING then io_bind (read_string s) (\<lambda>((v, _), s). Some (Inr (NV_str v, s)))
      else if data_type = DATA_TYPE_NVLIST \<or> data_type = DATA_TYPE_NVLIST_ARRAY then
        io_bind (p s) (\<lambda>(d, s). Some (Inr (NV_dict d, s)))
      else case read_bytes len s of (v, s) \<Rightarrow> Some (Inr (NV_bytes v, s)))"

fun nv_items :: "(bytes \<Rightarrow> (nvlist \<times> bytes) io) \<Rightarrow> nat \<Rightarrow> int \<Rightarrow> nat \<Rightarrow> bytes \<Rightarrow> (nv list \<times> bytes) io" where
  "nv_items p data_type len 0 s = Some (Inr ([], s))"
| "nv_items p data_type len (Suc n) s =
     io_bind (nv_value p data_type len s) (\<lambda>(v, s).
     io_bind (nv_items p data_type len n s) (\<lambda>(vs, s). Some (Inr (v # vs, s))))"

text \<open>A list of one value becomes that value.\<close>

definition nv_pack :: "nv list \<Rightarrow> nv" where
  "nv_pack value = (case value of [v] \<Rightarrow> v | _ \<Rightarrow> NV_list value)"

text \<open>The test of the header joins its halves with \<open>and\<close>: a header of eight bytes always passes, and
  the last byte is looked at only when the header is short.\<close>

definition nv_header :: "bytes \<Rightarrow> unit py" where
  "nv_header header =
     (if length header \<noteq> 8 then
        if header = [] then Inl Index_error else if last header \<noteq> 1 then Inl Bad_header else Inr ()
      else Inr ())"

fun nv_parse :: "nat \<Rightarrow> nat \<Rightarrow> bytes \<Rightarrow> (nvlist \<times> bytes) io"
  and nv_pairs :: "nat \<Rightarrow> nat \<Rightarrow> nvlist \<Rightarrow> bytes \<Rightarrow> (nvlist \<times> bytes) io" where
  "nv_parse 0 f s = Some (Inl Recursion_error)"
| "nv_parse (Suc z) 0 s = None"
| "nv_parse (Suc z) (Suc f) s = io_bind (Some (nv_header (take 8 s))) (\<lambda>_. nv_pairs z f [] (drop 8 s))"
| "nv_pairs z 0 nvlist s = None"
| "nv_pairs z (Suc f) nvlist s =
     io_bind (read_uint32 s) (\<lambda>(size, s).
     io_bind (read_uint32 s) (\<lambda>(_, s).
     if size = 0 then Some (Inr (nvlist, s))
     else
     io_bind (read_string s) (\<lambda>((name, name_len), s).
     io_bind (read_uint32 s) (\<lambda>(data_type, s).
     io_bind (read_uint32 s) (\<lambda>(item_count, s).
     io_bind (nv_items (\<lambda>s. nv_parse z f s) data_type (int size - (16 + int name_len)) item_count s) (\<lambda>(value, s).
     nv_pairs z f (AList.update name (nv_pack value) nvlist) s))))))"

definition NVPairParser_parse :: "nat \<Rightarrow> bytes \<Rightarrow> nvlist io" where
  "NVPairParser_parse z data =
     io_bind (nv_parse z (Suc (length data)) data) (\<lambda>(nvlist, _). Some (Inr nvlist))"

section \<open>The parser returns\<close>

lemma io_bind_Some_Inr: "io_bind r f = Some (Inr y) \<longleftrightarrow> (\<exists>x. r = Some (Inr x) \<and> f x = Some (Inr y))"
  by (auto simp: io_bind_def split: option.splits sum.splits)

lemma io_bind_None: "io_bind r f = None \<longleftrightarrow> r = None \<or> (\<exists>x. r = Some (Inr x) \<and> f x = None)"
  by (auto simp: io_bind_def split: option.splits sum.splits)

lemma read_uint32_rest: "read_uint32 s = Some (Inr (v, r)) \<Longrightarrow> length s = length r + 4"
  by (auto simp: read_uint32_def io_bind_Some_Inr unpack_be_def min_def split: if_splits)

lemma read_string_rest: "read_string s = Some (Inr (x, r)) \<Longrightarrow> length r \<le> length s"
  by (auto simp: read_string_def io_bind_Some_Inr Let_def dest!: read_uint32_rest)

lemma nv_value_rest:
  assumes "nv_value p t len s = Some (Inr (v, r))" and "\<And>d r. p s = Some (Inr (d, r)) \<Longrightarrow> length r \<le> length s"
  shows "length r \<le> length s"
  using assms
  by (auto simp: nv_value_def io_bind_Some_Inr read_bytes_def read_uint64_def split: if_splits
      dest!: read_uint32_rest read_string_rest)

lemma nv_items_rest:
  "nv_items p t len n s = Some (Inr (vs, r)) \<Longrightarrow> (\<And>s d r. p s = Some (Inr (d, r)) \<Longrightarrow> length r \<le> length s) \<Longrightarrow>
   length r \<le> length s"
proof (induction n arbitrary: s vs r)
  case (Suc n)
  then obtain v s' vs' where "nv_value p t len s = Some (Inr (v, s'))" "nv_items p t len n s' = Some (Inr (vs', r))"
    by (auto simp: io_bind_Some_Inr)
  then show ?case using Suc.IH [of s' vs' r] Suc.prems(2) nv_value_rest [of p t len s v s'] by fastforce
qed simp

lemma nv_pair_step:
  assumes "nv_pairs z (Suc f) d0 s = Some (Inr (d, r))"
    and p: "\<And>s d r. nv_parse z f s = Some (Inr (d, r)) \<Longrightarrow> length r \<le> length s"
  shows "length r + 8 = length s \<or> (\<exists>d1 s1. length s1 < length s \<and> nv_pairs z f d1 s1 = Some (Inr (d, r)))"
proof -
  from assms(1) obtain size s1 x s2 where 1: "read_uint32 s = Some (Inr (size, s1))" "read_uint32 s1 = Some (Inr (x, s2))"
    by (auto simp: io_bind_Some_Inr)
  note l1 = read_uint32_rest [OF 1(1)] read_uint32_rest [OF 1(2)]
  show ?thesis
  proof (cases "size = 0")
    case True
    then show ?thesis using assms(1) 1 l1 by simp
  next
    case False
    then obtain name name_len s3 t s4 n s5 vs s6 where
      2: "read_string s2 = Some (Inr ((name, name_len), s3))" "read_uint32 s3 = Some (Inr (t, s4))"
      "read_uint32 s4 = Some (Inr (n, s5))"
      and v: "nv_items (\<lambda>s. nv_parse z f s) t (int size - (16 + int name_len)) n s5 = Some (Inr (vs, s6))"
      and r: "nv_pairs z f (AList.update name (nv_pack vs) d0) s6 = Some (Inr (d, r))"
      using assms(1) 1 by (auto simp: io_bind_Some_Inr)
    have "length s6 \<le> length s5" by (rule nv_items_rest [OF v p])
    then show ?thesis
      using r l1 read_string_rest [OF 2(1)] read_uint32_rest [OF 2(2)] read_uint32_rest [OF 2(3)] by fastforce
  qed
qed

lemma nv_rest:
  "(\<forall>z s d r. nv_parse z f s = Some (Inr (d, r)) \<longrightarrow> length r \<le> length s)
   \<and> (\<forall>z d0 s d r. nv_pairs z f d0 s = Some (Inr (d, r)) \<longrightarrow> length r \<le> length s)"
proof (induction f)
  case 0
  have "nv_parse z 0 s \<noteq> Some (Inr (d, r))" for z s d r by (cases z) simp_all
  then show ?case by simp
next
  case (Suc f)
  have "length r \<le> length s" if p: "nv_parse z (Suc f) s = Some (Inr (d, r))" for z s d r
  proof (cases z)
    case (Suc y)
    with p have "nv_pairs y f [] (drop 8 s) = Some (Inr (d, r))" by (auto simp: io_bind_Some_Inr)
    then have "length r \<le> length (drop 8 s)" using Suc.IH by blast
    then show ?thesis by simp
  qed (use p in simp)
  moreover have "length r \<le> length s" if "nv_pairs z (Suc f) d0 s = Some (Inr (d, r))" for z d0 s d r
    using nv_pair_step [OF that] Suc.IH by fastforce
  ultimately show ?case by blast
qed

text \<open>Not to return, and with \<open>E\<close> also to run out of calls: only an inner list can do it.\<close>

definition stuck :: "bool \<Rightarrow> 'a io \<Rightarrow> bool" where
  "stuck E r \<longleftrightarrow> r = None \<or> E \<and> r = Some (Inl Recursion_error)"

lemma stuck_bind: "stuck E (io_bind r f) \<longleftrightarrow> stuck E r \<or> (\<exists>x. r = Some (Inr x) \<and> stuck E (f x))"
  by (auto simp: stuck_def io_bind_def split: option.splits sum.splits)

lemma stuck_simps [simp]:
  "\<not> stuck E (Some (Inr x))" "\<not> stuck E (Some (unpack_be n bs))" "\<not> stuck E (Some (decode_ascii bs))"
  "\<not> stuck E (Some (nv_header bs))" "stuck E None"
  by (simp_all add: stuck_def unpack_be_def decode_ascii_def nv_header_def)

lemma read_returns [simp]: "\<not> stuck E (read_uint32 s)" "\<not> stuck E (read_uint64 s)" "\<not> stuck E (read_string s)"
  by (auto simp: read_uint32_def read_uint64_def read_string_def stuck_bind Let_def)

lemma nv_value_returns: "stuck E (nv_value p t len s) \<Longrightarrow> stuck E (p s)"
  by (auto simp: nv_value_def stuck_bind read_bytes_def split: if_splits)

lemma nv_items_returns:
  "(\<And>s'. length s' \<le> length s \<Longrightarrow> \<not> stuck E (p s')) \<Longrightarrow>
   (\<And>s d r. p s = Some (Inr (d, r)) \<Longrightarrow> length r \<le> length s) \<Longrightarrow> \<not> stuck E (nv_items p t len n s)"
proof (induction n arbitrary: s)
  case (Suc n)
  have "\<not> stuck E (nv_items p t len n s')" if v: "nv_value p t len s = Some (Inr (v, s'))" for v s'
  proof (rule Suc.IH)
    have "length s' \<le> length s" by (rule nv_value_rest [OF v Suc.prems(2)])
    then show "\<not> stuck E (p s'')" if "length s'' \<le> length s'" for s'' using Suc.prems(1) that by simp
  qed (use Suc.prems(2) in blast)
  moreover have "\<not> stuck E (nv_value p t len s)" using nv_value_returns Suc.prems(1) [OF order_refl] by blast
  ultimately show ?case by (auto simp: stuck_bind)
qed simp

lemma nv_returns:
  "(\<forall>z s. length s < f \<and> (E \<longrightarrow> length s < z) \<longrightarrow> \<not> stuck E (nv_parse z f s))
   \<and> (\<forall>z d s. length s < f \<and> (E \<longrightarrow> length s < z) \<longrightarrow> \<not> stuck E (nv_pairs z f d s))"
proof (induction f)
  case (Suc f)
  have "\<not> stuck E (nv_parse z (Suc f) s)" if l: "length s < Suc f" "E \<longrightarrow> length s < z" for z s
  proof (cases z)
    case 0
    then show ?thesis using l by (auto simp: stuck_def)
  next
    case z: (Suc y)
    show ?thesis
    proof (cases "s = []")
      case False
      then have "length (drop 8 s) < f \<and> (E \<longrightarrow> length (drop 8 s) < y)" using l z by (cases s) auto
      then have "\<not> stuck E (nv_pairs y f [] (drop 8 s))" using Suc by blast
      then show ?thesis by (simp add: z stuck_bind)
    qed (simp add: z nv_header_def stuck_def)
  qed
  moreover have "\<not> stuck E (nv_pairs z (Suc f) d s)" if l: "length s < Suc f" "E \<longrightarrow> length s < z" for z d s
  proof
    assume n: "stuck E (nv_pairs z (Suc f) d s)"
    obtain size s1 x s2 where 1: "read_uint32 s = Some (Inr (size, s1))" "read_uint32 s1 = Some (Inr (x, s2))" "size \<noteq> 0"
      using n by (auto simp: stuck_bind split: if_splits)
    obtain name name_len s3 t s4 n' s5 where
      2: "read_string s2 = Some (Inr ((name, name_len), s3))" "read_uint32 s3 = Some (Inr (t, s4))"
      "read_uint32 s4 = Some (Inr (n', s5))"
      using n 1 by (auto simp: stuck_bind)
    note l5 = read_uint32_rest [OF 1(1)] read_uint32_rest [OF 1(2)] read_string_rest [OF 2(1)]
      read_uint32_rest [OF 2(2)] read_uint32_rest [OF 2(3)]
    let ?v = "nv_items (\<lambda>s. nv_parse z f s) t (int size - (16 + int name_len)) n' s5"
    have p: "\<And>s d r. nv_parse z f s = Some (Inr (d, r)) \<Longrightarrow> length r \<le> length s" using nv_rest by blast
    have v: "\<not> stuck E ?v"
    proof (rule nv_items_returns)
      show "\<not> stuck E (nv_parse z f s')" if "length s' \<le> length s5" for s' using that l5 l Suc by auto
    qed (rule p)
    have r: "\<not> stuck E (nv_pairs z f d' s6)" if v: "?v = Some (Inr (vs, s6))" for d' vs s6
    proof -
      have "length s6 \<le> length s5" by (rule nv_items_rest [OF v p])
      then have "length s6 < f \<and> (E \<longrightarrow> length s6 < z)" using l5 l by auto
      then show ?thesis using Suc by blast
    qed
    obtain vs s6 where v': "?v = Some (Inr (vs, s6))" "stuck E (nv_pairs z f (AList.update name (nv_pack vs) d) s6)"
      using n 1 2 v by (auto simp: stuck_bind)
    then show False using r [OF v'(1)] by blast
  qed
  ultimately show ?case by blast
qed simp

text \<open>
  C31: the parser returns, with a list or with an exception, on any bytes at all and with any number of
  calls left: every pair takes bytes off the stream, and a stream that ends raises. With more calls
  than the data has bytes it never runs out of them.
\<close>

theorem nvpair_parse_returns:
  "NVPairParser_parse z data \<noteq> None
   \<and> (length data < z \<longrightarrow> NVPairParser_parse z data \<noteq> Some (Inl Recursion_error))"
proof -
  have "\<not> stuck False (nv_parse z (Suc (length data)) data)"
    using nv_returns [of "Suc (length data)" False] by blast
  then have "\<not> stuck False (NVPairParser_parse z data)" by (auto simp: NVPairParser_parse_def stuck_bind)
  moreover have "\<not> stuck True (NVPairParser_parse z data)" if "length data < z"
  proof -
    have "\<not> stuck True (nv_parse z (Suc (length data)) data)"
      using nv_returns [of "Suc (length data)" True] that by blast
    then show ?thesis by (auto simp: NVPairParser_parse_def stuck_bind)
  qed
  ultimately show ?thesis by (simp add: stuck_def)
qed

theorem nvpair_parse_returns_witness:
  "NVPairParser_parse 9 [0, 0, 0, 0, 0, 0, 0, 1] \<noteq> None
   \<and> NVPairParser_parse 9 [0, 0, 0, 0, 0, 0, 0, 1] \<noteq> Some (Inl Recursion_error)"
  using nvpair_parse_returns [of 9 "[0, 0, 0, 0, 0, 0, 0, 1]"] by simp

section \<open>The encoding\<close>

text \<open>
  A list as \<open>libnvpair\<close> packs it in the XDR encoding, after the four bytes of the stream's own
  header: 32- and 64-bit numbers, strings, values of the other types (a flag has no value, the rest
  one), lists and arrays of lists. \<open>u\<close> stands in for the unpacked sizes, which nothing reads.
\<close>

datatype xnv = X_u32 "32 word" | X_u64 "64 word" | X_str bytes | X_flag | X_raw nat bytes | X_nvl xnvl | X_nvls xnvls
  and xnvl = X_end | X_pair bytes xnv xnvl
  and xnvls = X_none | X_more xnvl xnvls

definition pad4 :: "bytes \<Rightarrow> bytes" where
  "pad4 bs = bs @ replicate ((4 - length bs mod 4) mod 4) 0"

definition xdr_str :: "bytes \<Rightarrow> bytes" where
  "xdr_str bs = be_bytes 4 (length bs) @ pad4 bs"

definition xdr_header :: bytes where
  "xdr_header = [0, 0, 0, 0, 0, 0, 0, 1]"

fun x_type :: "xnv \<Rightarrow> nat" where
  "x_type (X_u32 w) = 6"
| "x_type (X_u64 w) = 8"
| "x_type (X_str bs) = 9"
| "x_type X_flag = 1"
| "x_type (X_raw t bs) = t"
| "x_type (X_nvl l) = 19"
| "x_type (X_nvls ls) = 20"

fun x_lists :: "xnvls \<Rightarrow> nat" where
  "x_lists X_none = 0"
| "x_lists (X_more l ls) = Suc (x_lists ls)"

fun x_count :: "xnv \<Rightarrow> nat" where
  "x_count X_flag = 0"
| "x_count (X_nvls ls) = x_lists ls"
| "x_count v = 1"

fun x_body :: "nat \<Rightarrow> xnv \<Rightarrow> bytes" and x_pairs :: "nat \<Rightarrow> xnvl \<Rightarrow> bytes" and x_array :: "nat \<Rightarrow> xnvls \<Rightarrow> bytes" where
  "x_body u (X_u32 w) = be_bytes 4 (unat w)"
| "x_body u (X_u64 w) = be_bytes 8 (unat w)"
| "x_body u (X_str bs) = xdr_str bs"
| "x_body u X_flag = []"
| "x_body u (X_raw t bs) = bs"
| "x_body u (X_nvl l) = xdr_header @ x_pairs u l"
| "x_body u (X_nvls ls) = x_array u ls"
| "x_pairs u X_end = be_bytes 4 0 @ be_bytes 4 0"
| "x_pairs u (X_pair name v l) =
     be_bytes 4 (20 + length (pad4 name) + length (x_body u v)) @ be_bytes 4 u @ xdr_str name
       @ be_bytes 4 (x_type v) @ be_bytes 4 (x_count v) @ x_body u v @ x_pairs u l"
| "x_array u X_none = []"
| "x_array u (X_more l ls) = (xdr_header @ x_pairs u l) @ x_array u ls"

text \<open>What a list means: the values in their Python form.\<close>

fun x_vals :: "xnv \<Rightarrow> nv list" and x_dict :: "nvlist \<Rightarrow> xnvl \<Rightarrow> nvlist" and x_dicts :: "xnvls \<Rightarrow> nv list" where
  "x_vals (X_u32 w) = [NV_int (unat w)]"
| "x_vals (X_u64 w) = [NV_int (unat w)]"
| "x_vals (X_str bs) = [NV_str bs]"
| "x_vals X_flag = []"
| "x_vals (X_raw t bs) = [NV_bytes bs]"
| "x_vals (X_nvl l) = [NV_dict (x_dict [] l)]"
| "x_vals (X_nvls ls) = x_dicts ls"
| "x_dict d X_end = d"
| "x_dict d (X_pair name v l) = x_dict (AList.update name (nv_pack (x_vals v)) d) l"
| "x_dicts X_none = []"
| "x_dicts (X_more l ls) = NV_dict (x_dict [] l) # x_dicts ls"

definition ascii :: "bytes \<Rightarrow> bool" where
  "ascii bs \<longleftrightarrow> (\<forall>b \<in> set bs. unat b < 128)"

fun x_ok :: "xnv \<Rightarrow> bool" and xl_ok :: "xnvl \<Rightarrow> bool" and xs_ok :: "xnvls \<Rightarrow> bool" where
  "x_ok (X_u32 w) \<longleftrightarrow> True"
| "x_ok (X_u64 w) \<longleftrightarrow> True"
| "x_ok (X_str bs) \<longleftrightarrow> ascii bs"
| "x_ok X_flag \<longleftrightarrow> True"
| "x_ok (X_raw t bs) \<longleftrightarrow> t \<notin> {6, 8, 9, 19, 20} \<and> t < 2 ^ 32"
| "x_ok (X_nvl l) \<longleftrightarrow> xl_ok l"
| "x_ok (X_nvls ls) \<longleftrightarrow> xs_ok ls"
| "xl_ok X_end \<longleftrightarrow> True"
| "xl_ok (X_pair name v l) \<longleftrightarrow> ascii name \<and> x_ok v \<and> xl_ok l"
| "xs_ok X_none \<longleftrightarrow> True"
| "xs_ok (X_more l ls) \<longleftrightarrow> xl_ok l \<and> xs_ok ls"

text \<open>How deep lists are nested in a list.\<close>

fun x_depth :: "xnv \<Rightarrow> nat" and xl_depth :: "xnvl \<Rightarrow> nat" and xs_depth :: "xnvls \<Rightarrow> nat" where
  "x_depth (X_nvl l) = Suc (xl_depth l)"
| "x_depth (X_nvls ls) = xs_depth ls"
| "x_depth v = 0"
| "xl_depth X_end = 0"
| "xl_depth (X_pair name v l) = max (x_depth v) (xl_depth l)"
| "xs_depth X_none = 0"
| "xs_depth (X_more l ls) = max (Suc (xl_depth l)) (xs_depth ls)"

lemma align4_le: "n \<le> align4 n"
  unfolding align4_def by arith

lemma length_pad4 [simp]: "length (pad4 bs) = align4 (length bs)"
proof -
  have "n + (4 - n mod 4) mod 4 = (n + 3) div 4 * 4" for n :: nat
  proof -
    define q r where "q = n div 4" and "r = n mod 4"
    then have n: "n = 4 * q + r" "r < 4" by simp_all
    from n(2) have "r = 0 \<or> r = 1 \<or> r = 2 \<or> r = 3" by linarith
    moreover have "(n + 3) div 4 = q + (r + 3) div 4" unfolding n(1) add.assoc by (rule div_mult_self4) simp
    ultimately show ?thesis unfolding r_def [symmetric] using n(1) by (elim disjE) simp_all
  qed
  then show ?thesis by (simp add: pad4_def align4_def)
qed

lemma take_pad4: "take (length bs) (pad4 bs) = bs"
  by (simp add: pad4_def)

lemma read_uint32_bytes: "v < 2 ^ 32 \<Longrightarrow> read_uint32 (be_bytes 4 v @ s) = Some (Inr (v, s))"
  by (simp add: read_uint32_def unpack_be_bytes)

lemma read_uint64_bytes: "v < 2 ^ 64 \<Longrightarrow> read_uint64 (be_bytes 8 v @ s) = Some (Inr (v, s))"
  by (simp add: read_uint64_def unpack_be_bytes)

lemma read_string_bytes:
  assumes "ascii bs" and "length bs < 2 ^ 32"
  shows "read_string (xdr_str bs @ s) = Some (Inr ((bs, align4 (length bs) + 4), s))"
proof -
  have t: "take (length bs) (take (align4 (length bs)) (pad4 bs @ s)) = bs"
    using align4_le [of "length bs"] by (simp add: take_pad4 min_def)
  have d: "drop (align4 (length bs)) (pad4 bs @ s) = s" by simp
  have a: "decode_ascii bs = Inr bs" using assms(1) by (simp add: decode_ascii_def ascii_def)
  show ?thesis
    unfolding read_string_def xdr_str_def append_assoc read_uint32_bytes [OF assms(2)] io_bind_simps prod.case Let_def t a d ..
qed

lemma x_type_less: "x_ok v \<Longrightarrow> x_type v < 2 ^ 32"
  by (cases v) (simp_all add: nv_types)

lemma x_count_le: "x_count v \<le> max 1 (length (x_body u v))"
proof -
  have "x_lists ls \<le> length (x_array u ls)" for ls
    by (induction ls rule: x_lists.induct) (auto simp: xdr_header_def)
  then show ?thesis by (cases v) (simp_all add: le_max_iff_disj)
qed

lemma length_x_pairs_pair:
  "length (x_pairs u (X_pair name v l)) = 20 + align4 (length name) + length (x_body u v) + length (x_pairs u l)"
  by (simp add: xdr_str_def)

lemma nv_parse_encoded:
  assumes "nv_pairs z f [] (x_pairs u l @ s) = r"
  shows "nv_parse (Suc z) (Suc f) (xdr_header @ x_pairs u l @ s) = r"
  using assms by (simp add: nv_header_def xdr_header_def)

lemma x_decodes:
  "\<forall>z f s. x_ok v \<and> x_depth v \<le> z \<and> u < 2 ^ 32 \<and> length (x_body u v) < 2 ^ 32 \<and> length (x_body u v @ s) < f \<longrightarrow>
     nv_items (\<lambda>s. nv_parse z f s) (x_type v) (int (length (x_body u v))) (x_count v) (x_body u v @ s) = Some (Inr (x_vals v, s))"
  "\<forall>z f d s. xl_ok l \<and> xl_depth l \<le> z \<and> u < 2 ^ 32 \<and> length (x_pairs u l) < 2 ^ 32 \<and> length (x_pairs u l @ s) < f \<longrightarrow>
     nv_pairs z f d (x_pairs u l @ s) = Some (Inr (x_dict d l, s))"
  "\<forall>z f len s. xs_ok ls \<and> xs_depth ls \<le> z \<and> u < 2 ^ 32 \<and> length (x_array u ls) < 2 ^ 32 \<and> length (x_array u ls @ s) < f \<longrightarrow>
     nv_items (\<lambda>s. nv_parse z f s) DATA_TYPE_NVLIST_ARRAY len (x_lists ls) (x_array u ls @ s) = Some (Inr (x_dicts ls, s))"
proof (induction v and l and ls)
  case (X_u32 w)
  show ?case using unsigned_less [where ?'a = nat, of w] by (auto simp: nv_value_def nv_types read_uint32_bytes)
next
  case (X_u64 w)
  show ?case using unsigned_less [where ?'a = nat, of w] by (auto simp: nv_value_def nv_types read_uint64_bytes)
next
  case (X_str bs)
  have "length bs \<le> length (xdr_str bs)" by (simp add: xdr_str_def align4_le trans_le_add2)
  then show ?case by (auto simp: nv_value_def nv_types read_string_bytes)
next
  case (X_raw t bs)
  show ?case by (auto simp: nv_value_def nv_types read_bytes_def)
next
  case (X_nvl l)
  show ?case
  proof (intro allI impI, elim conjE)
    fix z f s assume a: "x_ok (X_nvl l)" "x_depth (X_nvl l) \<le> z" "u < 2 ^ 32" "length (x_body u (X_nvl l)) < 2 ^ 32"
      "length (x_body u (X_nvl l) @ s) < f"
    then obtain g y where g: "f = Suc g" "z = Suc y" by (cases f; cases z) simp_all
    have "nv_pairs y g [] (x_pairs u l @ s) = Some (Inr (x_dict [] l, s))"
      using X_nvl a by (auto simp: g xdr_header_def)
    then have "nv_parse z f (xdr_header @ x_pairs u l @ s) = Some (Inr (x_dict [] l, s))"
      unfolding g by (rule nv_parse_encoded)
    then show "nv_items (\<lambda>s. nv_parse z f s) (x_type (X_nvl l)) (int (length (x_body u (X_nvl l)))) (x_count (X_nvl l))
        (x_body u (X_nvl l) @ s) = Some (Inr (x_vals (X_nvl l), s))"
      by (simp add: nv_value_def nv_types)
  qed
next
  case (X_pair name v l)
  show ?case
  proof (intro allI impI, elim conjE)
    fix z f d s
    assume ok: "xl_ok (X_pair name v l)" and z: "xl_depth (X_pair name v l) \<le> z" and u: "u < 2 ^ 32"
      and len: "length (x_pairs u (X_pair name v l)) < 2 ^ 32" and f: "length (x_pairs u (X_pair name v l) @ s) < f"
    then obtain g where g: "f = Suc g" by (cases f) simp_all
    let ?size = "20 + align4 (length name) + length (x_body u v)"
    note l = len [unfolded length_x_pairs_pair] and fl = f [unfolded length_append length_x_pairs_pair g]
    have size: "?size < 2 ^ 32" "?size \<noteq> 0" and n: "length name < 2 ^ 32" "x_count v < 2 ^ 32"
      using l align4_le [of "length name"] x_count_le [of v u] by linarith+
    have v: "nv_items (\<lambda>s. nv_parse z g s) (x_type v) (int (length (x_body u v))) (x_count v) (x_body u v @ x_pairs u l @ s)
        = Some (Inr (x_vals v, x_pairs u l @ s))"
      using X_pair.IH(1) ok z u l fl by simp
    have r: "nv_pairs z g (AList.update name (nv_pack (x_vals v)) d) (x_pairs u l @ s)
        = Some (Inr (x_dict d (X_pair name v l), s))"
      using X_pair.IH(2) ok z u l fl by simp
    have w: "int ?size - (16 + int (align4 (length name) + 4)) = int (length (x_body u v))" by simp
    show "nv_pairs z f d (x_pairs u (X_pair name v l) @ s) = Some (Inr (x_dict d (X_pair name v l), s))"
      unfolding g nv_pairs.simps x_pairs.simps append_assoc length_pad4
      using ok size n u by (simp only: read_uint32_bytes io_bind_simps prod.case if_False read_string_bytes xl_ok.simps
          x_type_less w v r)
  qed
next
  case (X_more l ls)
  show ?case
  proof (intro allI impI, elim conjE)
    fix z f len s assume a: "xs_ok (X_more l ls)" "xs_depth (X_more l ls) \<le> z" "u < 2 ^ 32"
      "length (x_array u (X_more l ls)) < 2 ^ 32" "length (x_array u (X_more l ls) @ s) < f"
    then obtain g y where g: "f = Suc g" "z = Suc y" by (cases f; cases z) simp_all
    have "nv_pairs y g [] (x_pairs u l @ x_array u ls @ s) = Some (Inr (x_dict [] l, x_array u ls @ s))"
      using X_more.IH(1) a by (auto simp: g xdr_header_def)
    then have "nv_parse z f (xdr_header @ x_pairs u l @ x_array u ls @ s) = Some (Inr (x_dict [] l, x_array u ls @ s))"
      unfolding g by (rule nv_parse_encoded)
    moreover have "nv_items (\<lambda>s. nv_parse z f s) DATA_TYPE_NVLIST_ARRAY len (x_lists ls) (x_array u ls @ s)
        = Some (Inr (x_dicts ls, s))"
      using X_more.IH(2) a by auto
    ultimately show "nv_items (\<lambda>s. nv_parse z f s) DATA_TYPE_NVLIST_ARRAY len (x_lists (X_more l ls))
        (x_array u (X_more l ls) @ s) = Some (Inr (x_dicts (X_more l ls), s))"
      by (simp add: nv_value_def nv_types)
  qed
next
  case X_end
  show ?case
  proof (intro allI impI, elim conjE)
    fix z f d s assume "length (x_pairs u X_end @ s) < f"
    then obtain g where g: "f = Suc g" by (cases f) simp_all
    show "nv_pairs z f d (x_pairs u X_end @ s) = Some (Inr (x_dict d X_end, s))" by (simp add: g read_uint32_bytes)
  qed
qed (simp_all add: DATA_TYPE_NVLIST_ARRAY_def)

lemma nvl_parses:
  assumes "xl_ok l" and "xl_depth l < z" and "u < 2 ^ 32" and "length (x_pairs u l) < 2 ^ 32"
  shows "NVPairParser_parse z (xdr_header @ x_pairs u l @ s) = Some (Inr (x_dict [] l))"
proof -
  let ?data = "xdr_header @ x_pairs u l @ s"
  obtain y where z: "z = Suc y" using assms(2) by (cases z) simp_all
  have "nv_pairs y (length ?data) [] (x_pairs u l @ s) = Some (Inr (x_dict [] l, s))"
    using x_decodes(2) [of l u] assms by (simp add: z xdr_header_def del: nv_pairs.simps)
  from nv_parse_encoded [OF this] show ?thesis by (simp add: NVPairParser_parse_def z del: nv_parse.simps)
qed

text \<open>
  C24: the parser inverts the XDR encoding of every list of numbers, strings, flags,
  other single values, lists and arrays of lists whose names and strings are ASCII and whose lists are
  nested no deeper than the interpreter has calls left, whatever follows the list in the label: it
  returns a dict with each name at its value, a later value of a name replacing an earlier one.
\<close>

theorem nvpair_roundtrip:
  assumes "xl_ok l" and "xl_depth l < z" and "u < 2 ^ 32" and "length (x_pairs u l) < 2 ^ 32"
  shows "NVPairParser_parse z (xdr_header @ x_pairs u l @ s) = Some (Inr (x_dict [] l))"
  using nvl_parses [OF assms] .

theorem nvpair_roundtrip_witness:
  "NVPairParser_parse 2 (xdr_header @ x_pairs 0 (X_pair [116, 120, 103] (X_u64 300)
      (X_pair [118] (X_nvl (X_pair [97] (X_u64 12) X_end)) X_end)) @ [0, 0])
    = Some (Inr [([116, 120, 103], NV_int 300), ([118], NV_dict [([97], NV_int 12)])])"
  using nvpair_roundtrip [of "X_pair [116, 120, 103] (X_u64 300) (X_pair [118] (X_nvl (X_pair [97] (X_u64 12) X_end)) X_end)" 2 0 "[0, 0]"]
  by (simp add: ascii_def xdr_str_def pad4_def align4_def xdr_header_def nv_pack_def)

section \<open>Arrays of other values\<close>

definition x_array_pair :: "nat \<Rightarrow> bytes \<Rightarrow> nat \<Rightarrow> nat \<Rightarrow> bytes \<Rightarrow> bytes" where
  "x_array_pair u name t n bs =
     be_bytes 4 (20 + length (pad4 name) + length bs) @ be_bytes 4 u @ xdr_str name @ be_bytes 4 t @ be_bytes 4 n @ bs"

lemma nv_items_raw:
  assumes "t \<notin> {6, 8, 9, 19, 20}" and "length s = n * m"
  shows "nv_items p t (int m) n (s @ r) = Some (Inr (map (\<lambda>i. NV_bytes (slice s (i * m) (i * m + m))) [0..<n], r))"
  using assms(2)
proof (induction n arbitrary: s)
  case (Suc n)
  then obtain a b where s: "s = a @ b" "length a = m" "length b = n * m"
    by (metis add_diff_cancel_left' append_take_drop_id le_add1 length_drop length_take min_absorb2 mult_Suc)
  have v: "nv_value p t (int m) (a @ b @ r) = Some (Inr (NV_bytes a, b @ r))"
    using assms(1) s(2) by (simp add: nv_value_def nv_types read_bytes_def)
  have "map (\<lambda>i. NV_bytes (slice s (i * m) (i * m + m))) [0..<Suc n]
      = NV_bytes a # map (\<lambda>i. NV_bytes (slice b (i * m) (i * m + m))) [0..<n]"
    unfolding upt_conv_Cons [OF zero_less_Suc] list.map map_Suc_upt [symmetric] map_map
    using s by (simp add: slice_def comp_def add.assoc)
  then show ?case using Suc.IH [OF s(3)] by (simp add: s(1) v)
qed simp

text \<open>
  C39: an array of \<open>n\<close> numbers (or strings, or bytes) is read as \<open>n\<close> values of
  the size of the whole array: \<open>n - 1\<close> times the array's size of the bytes that follow it, the next
  pairs of the list, become its elements, and reading goes on after them. When a well-formed rest of a
  list is found there (with ASCII names and strings, nested no deeper than there are calls left), the
  parser returns without an error.
\<close>

theorem nvpair_array_swallows:
  assumes "ascii name" and "t \<notin> {6, 8, 9, 19, 20}" and "t < 2 ^ 32" and "n < 2 ^ 32" and "2 \<le> n" and "u < 2 ^ 32"
    and "20 + align4 (length name) + length bs < 2 ^ 32" and "length eaten = (n - 1) * length bs"
    and "xl_ok l" and "length (x_pairs u l) < 2 ^ 32" and "xl_depth l < z"
  shows "NVPairParser_parse z (xdr_header @ x_array_pair u name t n bs @ eaten @ x_pairs u l @ s)
    = Some (Inr (x_dict [(name, NV_list (NV_bytes bs #
        map (\<lambda>i. NV_bytes (slice eaten (i * length bs) (i * length bs + length bs))) [0..<n - 1]))] l))"
proof -
  let ?m = "length bs" and ?r = "eaten @ x_pairs u l @ s"
  let ?data = "xdr_header @ x_array_pair u name t n bs @ ?r"
  let ?vs = "NV_bytes bs # map (\<lambda>i. NV_bytes (slice eaten (i * ?m) (i * ?m + ?m))) [0..<n - 1]"
  obtain g where g: "length ?data = Suc g" "length (x_pairs u l @ s) < g"
    by (simp add: xdr_header_def x_array_pair_def xdr_str_def)
  obtain y where y: "z = Suc y" using assms(11) by (cases z) simp_all
  have n: "length name < 2 ^ 32" using assms(7) align4_le [of "length name"] by linarith
  obtain k where k: "n = Suc (Suc k)" using assms(5) by (metis Suc_le_D numeral_2_eq_2 Suc_le_mono)
  have "nv_value (\<lambda>s. nv_parse y g s) t (int ?m) (bs @ ?r) = Some (Inr (NV_bytes bs, ?r))"
    using assms(2) by (simp add: nv_value_def nv_types read_bytes_def)
  then have v: "nv_items (\<lambda>s. nv_parse y g s) t (int ?m) n (bs @ ?r) = Some (Inr (?vs, x_pairs u l @ s))"
    using nv_items_raw [OF assms(2,8)] k by (simp del: upt_Suc)
  have pk: "AList.update name (nv_pack ?vs) [] = [(name, NV_list ?vs)]" by (simp add: k nv_pack_def upt_conv_Cons del: upt_Suc)
  have r: "nv_pairs y g [(name, NV_list ?vs)] (x_pairs u l @ s) = Some (Inr (x_dict [(name, NV_list ?vs)] l, s))"
    using x_decodes(2) [of l u] assms(6,9,10,11) g(2) y by auto
  have w: "int (20 + align4 (length name) + ?m) - (16 + int (align4 (length name) + 4)) = int ?m" by simp
  have z: "20 + align4 (length name) + ?m \<noteq> 0" by simp
  have "nv_pairs y (Suc g) [] (x_array_pair u name t n bs @ ?r) = Some (Inr (x_dict [(name, NV_list ?vs)] l, s))"
    unfolding nv_pairs.simps x_array_pair_def append_assoc length_pad4
    using assms(1,3,4,6,7) n z by (simp only: read_uint32_bytes io_bind_simps prod.case if_False read_string_bytes w v pk r)
  moreover have "take 8 ?data = xdr_header" "drop 8 ?data = x_array_pair u name t n bs @ ?r" "nv_header xdr_header = Inr ()"
    by (simp_all add: nv_header_def xdr_header_def)
  ultimately show ?thesis by (simp only: NVPairParser_parse_def y nv_parse.simps g(1) io_bind_simps prod.case)
qed

theorem nvpair_array_swallows_witness:
  "NVPairParser_parse 1 (xdr_header @ x_array_pair 0 [97] 16 2 (be_bytes 8 1 @ be_bytes 8 2)
      @ be_bytes 16 0 @ x_pairs 0 X_end @ [])
    = Some (Inr [([97], NV_list [NV_bytes (be_bytes 8 1 @ be_bytes 8 2), NV_bytes (be_bytes 16 0)])])"
  using nvpair_array_swallows [of "[97]" 16 2 0 "be_bytes 8 1 @ be_bytes 8 2" "be_bytes 16 0" X_end 1 "[]"]
  by (simp add: ascii_def align4_def slice_def upt_rec)

end
