(* ===== verification/Py_Label.thy ===== *)
theory Py_Label
  imports Py_Nvpair Py_Blkptr Vdev_Ring "HOL-Library.Sublist"
begin

text \<open>
  The vdev label as the rescue scripts read it: \<open>Uberblock\<close> and \<open>UBArray\<close> of
  \<open>src/zfs/uberblock.py\<close> and \<open>Label\<close> of \<open>src/zfs/label.py\<close>, with its search for the active
  uberblock. \<open>rd\<close> is \<open>BlockProxy.read\<close> of the device, \<open>z\<close> the number of nested calls the parser of
  lists has left. The printing is left out. The theorems
  compare the array with the slots that the macros of \<open>sys/vdev_impl.h\<close> define, and say which
  uberblock is chosen.
\<close>

section \<open>Uberblocks\<close>

definition UBLOCK_MAGIC :: nat where "UBLOCK_MAGIC = 0x00bab10c"

record py_ub =
  pu_magic :: nat
  pu_version :: nat
  pu_txg :: nat
  pu_guid_sum :: nat
  pu_timestamp :: nat
  pu_rootbp :: py_bp
  pu_valid :: bool
  pu_data :: bytes

definition Uberblock_parse :: "bytes \<Rightarrow> py_ub py" where
  "Uberblock_parse data =
     andthen (unpack_words 5 (slice data 0 (5 * 8))) (\<lambda>q.
     andthen (BlockPtr_parse (slice data 40 (40 + 128))) (\<lambda>bp.
     Inr \<lparr>pu_magic = q ! 0, pu_version = q ! 1, pu_txg = q ! 2, pu_guid_sum = q ! 3, pu_timestamp = q ! 4,
       pu_rootbp = bp, pu_valid = (q ! 0 = UBLOCK_MAGIC), pu_data = data\<rparr>))"

text \<open>The loop of \<open>UBArray.parse\<close>: \<open>n\<close> blocks are left, \<open>sz\<close> is \<open>1 << ushift\<close>.\<close>

fun ub_blocks :: "nat \<Rightarrow> nat \<Rightarrow> bytes \<Rightarrow> py_ub list py" where
  "ub_blocks 0 sz stream = Inr []"
| "ub_blocks (Suc n) sz stream =
     andthen (Uberblock_parse (take sz stream)) (\<lambda>ub.
     andthen (ub_blocks n sz (drop sz stream)) (\<lambda>ubs. Inr (ub # ubs)))"

definition UBArray_parse :: "bytes \<Rightarrow> nat \<Rightarrow> py_ub list py" where
  "UBArray_parse data ashift =
     (let ushift = max ashift 10 in ub_blocks (length data div 2 ^ ushift) (2 ^ ushift) data)"

fun find_block_by_txg :: "py_ub list \<Rightarrow> nat \<Rightarrow> py_ub option" where
  "find_block_by_txg [] txg = None"
| "find_block_by_txg (b # bs) txg = (if pu_valid b \<and> pu_txg b = txg then Some b else find_block_by_txg bs txg)"

section \<open>Labels\<close>

record py_label =
  lb_which :: nat
  lb_nvlist :: nvlist
  lb_ubarray :: "py_ub list"

definition NVLIST_OFFSET :: nat where "NVLIST_OFFSET = 16 * 1024"
definition NVLIST_SIZE :: nat where "NVLIST_SIZE = (128 - 16) * 1024"
definition UBARRAY_OFFSET :: nat where "UBARRAY_OFFSET = 128 * 1024"
definition UBARRAY_SIZE :: nat where "UBARRAY_SIZE = 128 * 1024"

definition key :: "string \<Rightarrow> bytes" where
  "key s = map (\<lambda>c. of_char c) s"

text \<open>\<open>d[k]\<close> with a string \<open>k\<close>, and \<open>k in v\<close>.\<close>

definition nv_get :: "nvlist \<Rightarrow> bytes \<Rightarrow> nv py" where
  "nv_get d k = (case map_of d k of None \<Rightarrow> Inl Key_error | Some v \<Rightarrow> Inr v)"

definition nv_item :: "nv \<Rightarrow> bytes \<Rightarrow> nv py" where
  "nv_item v k = (case v of NV_dict d \<Rightarrow> nv_get d k | _ \<Rightarrow> Inl Type_error)"

definition nv_in :: "bytes \<Rightarrow> nv \<Rightarrow> bool py" where
  "nv_in k v = (case v of
       NV_dict d \<Rightarrow> Inr (map_of d k \<noteq> None)
     | NV_list vs \<Rightarrow> Inr (NV_str k \<in> set vs)
     | NV_str s \<Rightarrow> Inr (sublist k s)
     | NV_bytes _ \<Rightarrow> Inl Type_error
     | NV_int _ \<Rightarrow> Inl Type_error)"

definition nv_number :: "nv \<Rightarrow> nat py" where
  "nv_number v = (case v of NV_int n \<Rightarrow> Inr n | _ \<Rightarrow> Inl Type_error)"

definition label_ashift :: "nvlist \<Rightarrow> nv py" where
  "label_ashift d =
     (case map_of d (key ''vdev_tree'') of
        None \<Rightarrow> Inr (NV_int 9)
      | Some t \<Rightarrow> andthen (nv_in (key ''ashift'') t) (\<lambda>there.
          if there then nv_item t (key ''ashift'') else Inr (NV_int 9)))"

definition Label_read :: "nat \<Rightarrow> (nat \<Rightarrow> nat \<Rightarrow> bytes io) \<Rightarrow> nat \<Rightarrow> py_label io" where
  "Label_read z rd which =
     io_bind (if which < 2 then rd (which * 256 * 1024) (256 * 1024) else rd 0 (256 * 1024)) (\<lambda>data.
     io_bind (NVPairParser_parse z (drop 4 (slice data NVLIST_OFFSET (NVLIST_OFFSET + NVLIST_SIZE)))) (\<lambda>nvlist.
     io_bind (Some (andthen (label_ashift nvlist) nv_number)) (\<lambda>ashift.
     io_bind (Some (UBArray_parse (slice data UBARRAY_OFFSET (UBARRAY_OFFSET + UBARRAY_SIZE)) ashift)) (\<lambda>ubarray.
     Some (Inr \<lparr>lb_which = which, lb_nvlist = nvlist, lb_ubarray = ubarray\<rparr>)))))"

text \<open>The loop of \<open>find_active_ub\<close>. Comparing a number with another kind of value raises.\<close>

fun active_loop :: "py_ub list \<Rightarrow> nv \<Rightarrow> py_ub option \<Rightarrow> py_ub option py" where
  "active_loop [] highest_txg active = Inr active"
| "active_loop (ub # ubs) highest_txg active =
     (if pu_valid ub then andthen (nv_number highest_txg) (\<lambda>h.
        if h \<le> pu_txg ub then active_loop ubs (NV_int (pu_txg ub)) (Some ub) else active_loop ubs highest_txg active)
      else active_loop ubs highest_txg active)"

definition find_active_ub :: "py_label \<Rightarrow> py_ub option py" where
  "find_active_ub lb = andthen (nv_get (lb_nvlist lb) (key ''txg'')) (\<lambda>t. active_loop (lb_ubarray lb) t None)"

definition find_ub_txg :: "py_label \<Rightarrow> nat \<Rightarrow> py_ub option" where
  "find_ub_txg lb txg = find_block_by_txg (lb_ubarray lb) txg"

fun find_uncompressed :: "py_ub list \<Rightarrow> py_ub option" where
  "find_uncompressed [] = None"
| "find_uncompressed (ub # ubs) =
     (if pu_valid ub \<and> pb_comp (pu_rootbp ub) = 2 then Some ub else find_uncompressed ubs)"

definition find_uncompressed_ub :: "py_label \<Rightarrow> py_ub option" where
  "find_uncompressed_ub lb = find_uncompressed (lb_ubarray lb)"

text \<open>\<open>get_vdev_disks\<close>: iterating a string or a dict gives strings, iterating bytes gives numbers, and
  none of them has a \<open>'path'\<close>; whatever is raised is caught.\<close>

fun paths_of :: "nv list \<Rightarrow> nv list py" where
  "paths_of [] = Inr []"
| "paths_of (x # xs) = andthen (nv_item x (key ''path'')) (\<lambda>p. andthen (paths_of xs) (\<lambda>ps. Inr (p # ps)))"

definition vdev_children :: "nv \<Rightarrow> nv list py" where
  "vdev_children v = (case v of
       NV_list vs \<Rightarrow> paths_of vs
     | NV_int _ \<Rightarrow> Inl Type_error
     | NV_str s \<Rightarrow> if s = [] then Inr [] else Inl Type_error
     | NV_bytes b \<Rightarrow> if b = [] then Inr [] else Inl Type_error
     | NV_dict d \<Rightarrow> if d = [] then Inr [] else Inl Type_error)"

definition get_vdev_disks :: "py_label \<Rightarrow> nv list py" where
  "get_vdev_disks lb =
     (case andthen (nv_get (lb_nvlist lb) (key ''vdev_tree'')) (\<lambda>t. andthen (nv_item t (key ''children'')) vdev_children) of
        Inr ps \<Rightarrow> Inr ps
      | Inl _ \<Rightarrow> andthen (nv_get (lb_nvlist lb) (key ''vdev_tree'')) (\<lambda>t.
          andthen (nv_item t (key ''path'')) (\<lambda>p. Inr [p])))"

definition get_txg :: "py_label \<Rightarrow> nv py" where
  "get_txg lb = nv_get (lb_nvlist lb) (key ''txg'')"

section \<open>The slots of the ring\<close>

definition ub_agrees :: "py_ub \<Rightarrow> uberblock \<Rightarrow> bool" where
  "ub_agrees p u \<longleftrightarrow>
     pu_valid p = (ub_magic u = UBERBLOCK_MAGIC) \<and> pu_magic p = unat (ub_magic u) \<and> pu_version p = unat (ub_version u)
     \<and> pu_txg p = unat (ub_txg u) \<and> pu_guid_sum p = unat (ub_guid_sum u)
     \<and> pu_timestamp p = unat (ub_timestamp u) \<and> bp_agrees (pu_rootbp p) (ub_rootbp u)"

definition ub_at :: "bytes \<Rightarrow> nat \<Rightarrow> uberblock" where
  "ub_at data i = words_uberblock (get_words 26 (take 208 (drop i data)))"

lemma get_words_take_words: "m \<le> n \<Longrightarrow> take m (get_words n bs) = get_words m bs"
  by (simp add: get_words_def take_map)

lemma get_words_drop_words: "drop k (get_words (k + n) bs) = get_words n (drop (8 * k) bs)"
  by (rule nth_equalityI) (auto simp: get_words_def get64_def add.commute)

lemma Uberblock_parse_agrees:
  assumes "168 \<le> length data"
  shows "\<exists>p. Uberblock_parse data = Inr p \<and> ub_agrees p (ub_at data 0)"
proof -
  let ?b = "slice data 40 (40 + 128)" and ?ws = "get_words 26 (take 208 data)"
  have l: "length ?b = 128" "length (slice data 0 (5 * 8)) = 8 * 5" using assms by (simp_all add: length_slice)
  have w5: "get_words 5 (slice data 0 (5 * 8)) = get_words 5 data" by (simp add: slice_def get_words_take)
  have "take 16 (drop 5 ?ws) = get_words 16 (drop 40 (take 208 data))"
    using get_words_drop_words [of 5 21 "take 208 data"] by (simp add: get_words_take_words)
  also have "\<dots> = get_words 16 ?b" by (simp add: slice_def drop_take get_words_take)
  finally have root: "ub_rootbp (ub_at data 0) = words_blkptr (get_words 16 ?b)"
    by (simp add: ub_at_def words_uberblock_def)
  obtain bp where bp: "BlockPtr_parse ?b = Inr bp" "bp_agrees bp (ub_rootbp (ub_at data 0))"
    using BlockPtr_parse_agrees [OF l(1) refl] root by auto
  have q: "unpack_words 5 (slice data 0 (5 * 8)) = Inr (map unat (get_words 5 data))"
    using unpack_words_get [OF l(2)] w5 by simp
  have nth: "?ws ! i = get_words 5 data ! i" if "i < 5" for i
    using that by (simp add: get_words_def get64_def drop_take min_def)
  have magic: "(unat w = UBLOCK_MAGIC) = (w = UBERBLOCK_MAGIC)" for w :: u64
    by (simp add: UBLOCK_MAGIC_def UBERBLOCK_MAGIC_def word_unat_eq_iff)
  show ?thesis
    unfolding Uberblock_parse_def q bp(1) andthen_simps
    by (rule exI, rule conjI, rule refl)
      (use bp(2) magic in \<open>simp add: ub_agrees_def ub_at_def words_uberblock_def nth\<close>)
qed

lemma ub_blocks_slots:
  assumes "208 \<le> sz"
  shows "n * sz \<le> length data \<Longrightarrow> \<exists>ubs. ub_blocks n sz data = Inr ubs \<and> length ubs = n
    \<and> (\<forall>i < n. ub_agrees (ubs ! i) (ub_at data (i * sz)))"
proof (induction n arbitrary: data)
  case (Suc n)
  have "n * sz \<le> length (drop sz data)" using Suc.prems by simp
  then obtain ubs where ubs: "ub_blocks n sz (drop sz data) = Inr ubs" "length ubs = n"
    "\<forall>i < n. ub_agrees (ubs ! i) (ub_at (drop sz data) (i * sz))" using Suc.IH by blast
  obtain p where p: "Uberblock_parse (take sz data) = Inr p" "ub_agrees p (ub_at (take sz data) 0)"
    using Uberblock_parse_agrees [of "take sz data"] assms Suc.prems by auto
  have "ub_agrees ((p # ubs) ! i) (ub_at data (i * sz))" if "i < Suc n" for i
    using that ubs(3) p(2) assms by (cases i) (simp_all add: ub_at_def min_def add.commute)
  then show ?case using ubs p(1) by auto
qed simp

section \<open>The active uberblock\<close>

text \<open>What the search for the active uberblock is to find: the last one of those that are valid and
  have the highest transaction group, none when all the valid ones are older than the label.\<close>

definition is_active :: "py_ub list \<Rightarrow> nat \<Rightarrow> py_ub option \<Rightarrow> bool" where
  "is_active ubs t r \<longleftrightarrow> (case r of
       None \<Rightarrow> \<forall>x \<in> set ubs. pu_valid x \<longrightarrow> pu_txg x < t
     | Some u \<Rightarrow> \<exists>pre post. ubs = pre @ u # post \<and> pu_valid u \<and> t \<le> pu_txg u
         \<and> (\<forall>x \<in> set pre. pu_valid x \<longrightarrow> pu_txg x \<le> pu_txg u) \<and> (\<forall>x \<in> set post. pu_valid x \<longrightarrow> pu_txg x < pu_txg u))"

lemma is_activeI:
  "ubs = pre @ u # post \<and> pu_valid u \<and> t \<le> pu_txg u \<and> (\<forall>x \<in> set pre. pu_valid x \<longrightarrow> pu_txg x \<le> pu_txg u)
     \<and> (\<forall>x \<in> set post. pu_valid x \<longrightarrow> pu_txg x < pu_txg u) \<Longrightarrow> r = Some u \<Longrightarrow> r \<noteq> None \<and> is_active ubs t r"
  unfolding is_active_def by (simp only: option.case option.distinct simp_thms not_None_eq) blast

lemma active_loop_finds:
  "\<exists>r. active_loop ubs (NV_int t) a = Inr r
    \<and> ((\<forall>x \<in> set ubs. pu_valid x \<longrightarrow> pu_txg x < t) \<and> r = a \<or> r \<noteq> None \<and> is_active ubs t r)"
proof (induction ubs arbitrary: t a)
  case (Cons u ubs)
  show ?case
  proof (cases "pu_valid u \<and> t \<le> pu_txg u")
    case True
    obtain r where r: "active_loop ubs (NV_int (pu_txg u)) (Some u) = Inr r"
      and c: "(\<forall>x \<in> set ubs. pu_valid x \<longrightarrow> pu_txg x < pu_txg u) \<and> r = Some u \<or> r \<noteq> None \<and> is_active ubs (pu_txg u) r"
      using Cons.IH by blast
    have "r \<noteq> None \<and> is_active (u # ubs) t r"
      using c
    proof
      assume "(\<forall>x \<in> set ubs. pu_valid x \<longrightarrow> pu_txg x < pu_txg u) \<and> r = Some u"
      then have "u # ubs = [] @ u # ubs \<and> pu_valid u \<and> t \<le> pu_txg u \<and> (\<forall>x \<in> set []. pu_valid x \<longrightarrow> pu_txg x \<le> pu_txg u)
          \<and> (\<forall>x \<in> set ubs. pu_valid x \<longrightarrow> pu_txg x < pu_txg u)" and "r = Some u" using True by simp_all
      then show ?thesis using is_activeI by blast
    next
      assume "r \<noteq> None \<and> is_active ubs (pu_txg u) r"
      then obtain v pre post where "r = Some v" "ubs = pre @ v # post" "pu_valid v" "pu_txg u \<le> pu_txg v"
        "\<forall>x \<in> set pre. pu_valid x \<longrightarrow> pu_txg x \<le> pu_txg v" "\<forall>x \<in> set post. pu_valid x \<longrightarrow> pu_txg x < pu_txg v"
        by (auto simp: is_active_def)
      then have "u # ubs = (u # pre) @ v # post \<and> pu_valid v \<and> t \<le> pu_txg v
          \<and> (\<forall>x \<in> set (u # pre). pu_valid x \<longrightarrow> pu_txg x \<le> pu_txg v) \<and> (\<forall>x \<in> set post. pu_valid x \<longrightarrow> pu_txg x < pu_txg v)"
        and "r = Some v" using True by simp_all
      then show ?thesis using is_activeI by blast
    qed
    then show ?thesis using True r by (auto simp: nv_number_def)
  next
    case False
    obtain r where r: "active_loop ubs (NV_int t) a = Inr r"
      and c: "(\<forall>x \<in> set ubs. pu_valid x \<longrightarrow> pu_txg x < t) \<and> r = a \<or> r \<noteq> None \<and> is_active ubs t r"
      using Cons.IH by blast
    have "active_loop (u # ubs) (NV_int t) a = Inr r" using False r by (auto simp: nv_number_def)
    moreover have "is_active (u # ubs) t r" if "r \<noteq> None" "is_active ubs t r"
    proof -
      from that obtain v pre post where "r = Some v" "ubs = pre @ v # post" "pu_valid v" "t \<le> pu_txg v"
        "\<forall>x \<in> set pre. pu_valid x \<longrightarrow> pu_txg x \<le> pu_txg v" "\<forall>x \<in> set post. pu_valid x \<longrightarrow> pu_txg x < pu_txg v"
        by (auto simp: is_active_def)
      then have "u # ubs = (u # pre) @ v # post \<and> pu_valid v \<and> t \<le> pu_txg v
          \<and> (\<forall>x \<in> set (u # pre). pu_valid x \<longrightarrow> pu_txg x \<le> pu_txg v) \<and> (\<forall>x \<in> set post. pu_valid x \<longrightarrow> pu_txg x < pu_txg v)"
        and "r = Some v" using False by auto
      then show ?thesis using is_activeI by blast
    qed
    ultimately show ?thesis using c False by auto
  qed
qed simp

lemma find_active_ub_finds:
  assumes "map_of (lb_nvlist lb) (key ''txg'') = Some (NV_int t)"
  shows "\<exists>r. find_active_ub lb = Inr r \<and> is_active (lb_ubarray lb) t r"
  using active_loop_finds [of "lb_ubarray lb" t None] assms
  by (auto simp: find_active_ub_def nv_get_def is_active_def)

text \<open>The slots the scripts look at: all of the device up to 8K sectors, then every second, every fourth
  and so on.\<close>

lemma ring_slots_py:
  assumes "a < 2 ^ 64" and "length data = 262144"
  shows "\<exists>ubs. UBArray_parse (slice data UBARRAY_OFFSET (UBARRAY_OFFSET + UBARRAY_SIZE)) a = Inr ubs
    \<and> length ubs = VDEV_UBERBLOCK_COUNT (W a) div 2 ^ (a - 13)
    \<and> (\<forall>i < length ubs. ub_agrees (ubs ! i) (ub_at data (VDEV_UBERBLOCK_OFFSET (W a) (i * 2 ^ (a - 13)))))"
proof -
  let ?ring = "drop 131072 data" and ?s = "max a 10"
  have ring: "slice data UBARRAY_OFFSET (UBARRAY_OFFSET + UBARRAY_SIZE) = ?ring" "length ?ring = 131072"
    using assms(2) by (simp_all add: slice_def UBARRAY_OFFSET_def UBARRAY_SIZE_def)
  have "(2 :: nat) ^ 10 \<le> 2 ^ ?s" by (rule power_increasing) simp_all
  then have sz: "208 \<le> (2 :: nat) ^ ?s" by simp
  have n: "131072 div 2 ^ ?s * 2 ^ ?s \<le> length ?ring" using ring(2) by simp
  obtain ubs where ubs: "UBArray_parse ?ring a = Inr ubs" "length ubs = 131072 div 2 ^ ?s"
    "\<forall>i < 131072 div 2 ^ ?s. ub_agrees (ubs ! i) (ub_at ?ring (i * 2 ^ ?s))"
    using ub_blocks_slots [OF sz n] ring(2) by (auto simp: UBArray_parse_def Let_def)
  have u: "unat (W a) = a" using assms(1) by (rule unat_W)
  have c: "VDEV_UBERBLOCK_COUNT (W a) = 131072 div 2 ^ VDEV_UBERBLOCK_SHIFT (W a)"
    by (simp add: VDEV_UBERBLOCK_COUNT_def VDEV_UBERBLOCK_RING_def drop_bit_eq_div)
  have shift: "VDEV_UBERBLOCK_SHIFT (W a) = min ?s 13"
    by (simp add: VDEV_UBERBLOCK_SHIFT_def UBERBLOCK_SHIFT_def MAX_UBERBLOCK_SHIFT_def u)
  have "?s = min ?s 13 + (a - 13)" by simp
  then have step: "(2 :: nat) ^ ?s = 2 ^ VDEV_UBERBLOCK_SHIFT (W a) * 2 ^ (a - 13)"
    unfolding shift power_add [symmetric] by simp
  have "VDEV_UBERBLOCK_COUNT (W a) div 2 ^ (a - 13) = 131072 div 2 ^ ?s" unfolding c step by (rule div_mult2_eq [symmetric])
  moreover have "ub_at ?ring (i * 2 ^ ?s) = ub_at data (VDEV_UBERBLOCK_OFFSET (W a) (i * 2 ^ (a - 13)))" for i
    unfolding step by (simp add: ub_at_def VDEV_UBERBLOCK_OFFSET_def label_sizes push_bit_eq_mult ac_simps)
  ultimately show ?thesis using ubs ring(1) by auto
qed

text \<open>
  C22: reading a label with a packed list (names and strings ASCII, nested no deeper than there are
  calls left) that gives a sector shift \<open>a\<close> and a transaction group \<open>t\<close>. \<open>Label.read\<close> gets the list and,
  member by member, the uberblocks of slots as \<open>sys/vdev_impl.h\<close> defines them: all of them for
  \<open>a \<le> 13\<close>, every second for 14, every fourth for 15 and so on. Of these \<open>find_active_ub\<close>
  returns the last valid one with the highest transaction group, if one is not older than \<open>t\<close>. The
  labels 2 and 3 at the end of the device are never read: for them \<open>read\<close> reads label 0 again.
\<close>

theorem label_read_active:
  assumes "rd (if which < 2 then which * 256 * 1024 else 0) (256 * 1024) = Some (Inr data)"
    and "length data = 262144"
    and "drop 4 (slice data NVLIST_OFFSET (NVLIST_OFFSET + NVLIST_SIZE)) = xdr_header @ x_pairs u l @ s"
    and "xl_ok l" and "xl_depth l < z" and "u < 2 ^ 32" and "nvl = x_dict [] l"
    and "map_of nvl (key ''vdev_tree'') = Some (NV_dict d)" and "map_of d (key ''ashift'') = Some (NV_int a)"
    and "map_of nvl (key ''txg'') = Some (NV_int t)" and "a < 2 ^ 63"
  shows "\<exists>ubs r. Label_read z rd which = Some (Inr \<lparr>lb_which = which, lb_nvlist = nvl, lb_ubarray = ubs\<rparr>)
    \<and> length ubs = VDEV_UBERBLOCK_COUNT (W a) div 2 ^ (a - 13)
    \<and> (\<forall>i < length ubs. ub_agrees (ubs ! i) (ub_at data (VDEV_UBERBLOCK_OFFSET (W a) (i * 2 ^ (a - 13)))))
    \<and> find_active_ub \<lparr>lb_which = which, lb_nvlist = nvl, lb_ubarray = ubs\<rparr> = Inr r \<and> is_active ubs t r"
proof -
  have rd: "(if which < 2 then rd (which * 256 * 1024) (256 * 1024) else rd 0 (256 * 1024)) = Some (Inr data)"
    using assms(1) by (cases "which < 2") simp_all
  have "length (xdr_header @ x_pairs u l @ s) \<le> 114684"
    unfolding assms(3) [symmetric] using assms(2) by (simp add: length_slice NVLIST_OFFSET_def NVLIST_SIZE_def)
  then have "length (x_pairs u l) < 2 ^ 32" by simp
  then have nv: "NVPairParser_parse z (xdr_header @ x_pairs u l @ s) = Some (Inr nvl)"
    using nvl_parses [OF assms(4-6)] assms(7) by simp
  have ash: "andthen (label_ashift nvl) nv_number = Inr a"
    using assms(8,9) by (simp add: label_ashift_def nv_in_def nv_item_def nv_get_def nv_number_def)
  have a: "a < 2 ^ 64" using assms(11) by simp
  obtain ubs where ubs: "UBArray_parse (slice data UBARRAY_OFFSET (UBARRAY_OFFSET + UBARRAY_SIZE)) a = Inr ubs"
    "length ubs = VDEV_UBERBLOCK_COUNT (W a) div 2 ^ (a - 13)
      \<and> (\<forall>i < length ubs. ub_agrees (ubs ! i) (ub_at data (VDEV_UBERBLOCK_OFFSET (W a) (i * 2 ^ (a - 13)))))"
    using ring_slots_py [OF a assms(2)] by blast
  let ?lb = "\<lparr>lb_which = which, lb_nvlist = nvl, lb_ubarray = ubs\<rparr>"
  have "Label_read z rd which = Some (Inr ?lb)"
    unfolding Label_read_def rd io_bind_simps assms(3) nv ash ubs(1) ..
  moreover obtain r where "find_active_ub ?lb = Inr r" "is_active ubs t r"
    using find_active_ub_finds [of ?lb t] assms(10) by auto
  ultimately show ?thesis using ubs(2) by blast
qed

definition demo_nvl :: xnvl where
  "demo_nvl = X_pair (key ''txg'') (X_u64 5) (X_pair (key ''vdev_tree'') (X_nvl (X_pair (key ''ashift'') (X_u64 12) X_end)) X_end)"

definition demo_label :: bytes where
  "demo_label = (let e = xdr_header @ x_pairs 0 demo_nvl in replicate 16388 0 @ e @ replicate (245756 - length e) 0)"

theorem label_read_active_witness:
  "\<exists>ubs r. Label_read 2 (\<lambda>ofs n. Some (Inr demo_label)) 3
        = Some (Inr \<lparr>lb_which = 3, lb_nvlist = x_dict [] demo_nvl, lb_ubarray = ubs\<rparr>)
      \<and> length ubs = VDEV_UBERBLOCK_COUNT (W 12)
      \<and> find_active_ub \<lparr>lb_which = 3, lb_nvlist = x_dict [] demo_nvl, lb_ubarray = ubs\<rparr> = Inr r \<and> is_active ubs 5 r"
proof -
  let ?e = "xdr_header @ x_pairs 0 demo_nvl"
  have e: "length ?e \<le> 200"
    by (simp add: demo_nvl_def xdr_header_def xdr_str_def align4_def key_def)
  have len: "length demo_label = 262144" using e by (simp add: demo_label_def Let_def)
  have "drop 4 (slice demo_label NVLIST_OFFSET (NVLIST_OFFSET + NVLIST_SIZE)) = take 114684 (drop 16388 demo_label)"
    by (simp add: slice_def NVLIST_OFFSET_def NVLIST_SIZE_def drop_take)
  also have "drop 16388 demo_label = ?e @ replicate (245756 - length ?e) 0" by (simp add: demo_label_def Let_def)
  also have "take 114684 \<dots> = ?e @ replicate (min (245756 - length ?e) (114684 - length ?e)) 0"
    using e by (simp only: take_append take_replicate) simp
  finally have d: "drop 4 (slice demo_label NVLIST_OFFSET (NVLIST_OFFSET + NVLIST_SIZE))
      = xdr_header @ x_pairs 0 demo_nvl @ replicate (min (245756 - length ?e) (114684 - length ?e)) 0" by simp
  have "\<exists>ubs r. Label_read 2 (\<lambda>ofs n. Some (Inr demo_label)) 3
        = Some (Inr \<lparr>lb_which = 3, lb_nvlist = x_dict [] demo_nvl, lb_ubarray = ubs\<rparr>)
      \<and> length ubs = VDEV_UBERBLOCK_COUNT (W 12) div 2 ^ (12 - 13)
      \<and> (\<forall>i < length ubs. ub_agrees (ubs ! i) (ub_at demo_label (VDEV_UBERBLOCK_OFFSET (W 12) (i * 2 ^ (12 - 13)))))
      \<and> find_active_ub \<lparr>lb_which = 3, lb_nvlist = x_dict [] demo_nvl, lb_ubarray = ubs\<rparr> = Inr r \<and> is_active ubs 5 r"
    by (rule label_read_active [of "\<lambda>ofs n. Some (Inr demo_label)" 3 demo_label 0 demo_nvl _ 2 _ "[(key ''ashift'', NV_int 12)]",
          OF refl len d _ _ _ refl]) (simp_all add: demo_nvl_def ascii_def key_def nv_pack_def)
  then show ?thesis by auto
qed

end
