(* ===== verification/Py_Dnode.thy ===== *)
theory Py_Dnode
  imports Py_Tree Dnode Sa
begin

text \<open>
  Dnodes as the rescue scripts read them: \<open>DNode\<close> and the bonus structures of
  \<open>src/zfs/dnode.py\<close>. The layouts of system attributes, \<open>objset._sa._lay\<close>, are the argument
  \<open>lay\<close>: \<^const>\<open>None\<close> when there is no such member or no such layout. Everything \<open>BonusSysAttr\<close> raises is
  caught, so it is the attributes set until then. The theorems compare a dnode with the
  structure of \<open>extractor/defs.h\<close>, and the header of a system-attribute buffer with the macros of
  \<open>sys/sa_impl.h\<close>. Printing is left out.
\<close>

section \<open>Bonus buffers\<close>

record py_dataset =
  bs_dir_obj :: nat
  bs_prev_snap_obj :: nat
  bs_prev_snap_txg :: nat
  bs_prev_next_obj :: nat
  bs_snapnames_zapobj :: nat
  bs_num_children :: nat
  bs_creation_time :: nat
  bs_creation_txg :: nat
  bs_deadlist_obj :: nat
  bs_used_bytes :: nat
  bs_compressed_bytes :: nat
  bs_uncompressed_bytes :: nat
  bs_unique_bytes :: nat
  bs_fsid_guid :: nat
  bs_guid :: nat
  bs_restoring :: nat
  bs_bptr :: py_bp

definition BonusDataset :: "bytes \<Rightarrow> py_dataset py" where
  "BonusDataset data =
     andthen (unpack_words 16 (slice data 0 (16 * 8))) (\<lambda>q.
     andthen (BlockPtr_parse (slice data (16 * 8) (16 * 8 + 128))) (\<lambda>bp.
     Inr \<lparr>bs_dir_obj = q ! 0, bs_prev_snap_obj = q ! 1, bs_prev_snap_txg = q ! 2, bs_prev_next_obj = q ! 3,
       bs_snapnames_zapobj = q ! 4, bs_num_children = q ! 5, bs_creation_time = q ! 6, bs_creation_txg = q ! 7,
       bs_deadlist_obj = q ! 8, bs_used_bytes = q ! 9, bs_compressed_bytes = q ! 10, bs_uncompressed_bytes = q ! 11,
       bs_unique_bytes = q ! 12, bs_fsid_guid = q ! 13, bs_guid = q ! 14, bs_restoring = q ! 15, bs_bptr = bp\<rparr>))"

record py_directory =
  bd_creation_time :: nat
  bd_head_dataset_obj :: nat
  bd_parent_obj :: nat
  bd_clone_parent_obj :: nat
  bd_child_dir_zapobj :: nat
  bd_used_bytes :: nat
  bd_compressed_bytes :: nat
  bd_uncompressed_bytes :: nat
  bd_quota :: nat
  bd_reserved :: nat
  bd_props_zapobj :: nat

definition BonusDirectory :: "bytes \<Rightarrow> py_directory py" where
  "BonusDirectory data =
     andthen (unpack_words 11 (slice data 0 (11 * 8))) (\<lambda>q.
     Inr \<lparr>bd_creation_time = q ! 0, bd_head_dataset_obj = q ! 1, bd_parent_obj = q ! 2, bd_clone_parent_obj = q ! 3,
       bd_child_dir_zapobj = q ! 4, bd_used_bytes = q ! 5, bd_compressed_bytes = q ! 6, bd_uncompressed_bytes = q ! 7,
       bd_quota = q ! 8, bd_reserved = q ! 9, bd_props_zapobj = q ! 10\<rparr>)"

record py_znode =
  bz_atime :: nat
  bz_atime_ns :: nat
  bz_mtime :: nat
  bz_mtime_ns :: nat
  bz_ctime :: nat
  bz_ctime_ns :: nat
  bz_crtime :: nat
  bz_crtime_ns :: nat
  bz_gen :: nat
  bz_mode :: nat
  bz_size :: nat
  bz_parent :: nat
  bz_links :: nat
  bz_xattr :: nat
  bz_rdev :: nat
  bz_flags :: nat
  bz_uid :: nat
  bz_gid :: nat
  bz_inline_content :: bytes

definition BonusZnode :: "bytes \<Rightarrow> py_znode py" where
  "BonusZnode data =
     andthen (unpack_words 18 (slice data 0 (18 * 8))) (\<lambda>q.
     Inr \<lparr>bz_atime = q ! 0, bz_atime_ns = q ! 1, bz_mtime = q ! 2, bz_mtime_ns = q ! 3, bz_ctime = q ! 4,
       bz_ctime_ns = q ! 5, bz_crtime = q ! 6, bz_crtime_ns = q ! 7, bz_gen = q ! 8, bz_mode = q ! 9, bz_size = q ! 10,
       bz_parent = q ! 11, bz_links = q ! 12, bz_xattr = q ! 13, bz_rdev = q ! 14, bz_flags = q ! 15, bz_uid = q ! 16,
       bz_gid = q ! 17, bz_inline_content = drop 264 data\<rparr>)"

section \<open>System attributes\<close>

text \<open>A value of an attribute: two numbers, one, bytes, or none.\<close>

datatype sa_val = SA_pair nat nat | SA_num nat | SA_bytes bytes | SA_none

record py_sa =
  ps_attrs :: "(string \<times> sa_val) list"
  ps_inline :: "bytes option"

text \<open>The loop over a layout, as far as it gets: what was set, and the position it ended at unless
  something was raised.\<close>

fun sa_fields :: "bytes \<Rightarrow> (nat \<times> string) list \<Rightarrow> nat \<Rightarrow> nat \<Rightarrow> (string \<times> sa_val) list \<Rightarrow> (string \<times> sa_val) list \<times> nat option" where
  "sa_fields data [] ptr lenidx acc = (acc, Some ptr)"
| "sa_fields data ((l, name) # fs) ptr lenidx acc =
     (let b = slice data ptr (ptr + l); next = (\<lambda>v l' li. sa_fields data fs (ptr + l') li (acc @ [(name, v)])) in
      if l = 16 then (case unpack_words 2 b of Inr q \<Rightarrow> next (SA_pair (q ! 0) (q ! 1)) 16 lenidx | Inl _ \<Rightarrow> (acc, None))
      else if l = 8 then (case unpack_le 8 b of Inr v \<Rightarrow> next (SA_num v) 8 lenidx | Inl _ \<Rightarrow> (acc, None))
      else if l = 4 then (case unpack_le 4 b of Inr v \<Rightarrow> next (SA_num v) 4 lenidx | Inl _ \<Rightarrow> (acc, None))
      else if l = 0 then
        (case unpack_le 2 (slice data (6 + lenidx * 2) (6 + lenidx * 2 + 2)) of
           Inr l' \<Rightarrow> next (if name = ''zpl_symlink'' then SA_bytes (slice data ptr (ptr + l')) else SA_none) l' (lenidx + 1)
         | Inl _ \<Rightarrow> (acc, None))
      else next SA_none l lenidx)"

text \<open>The header: the layout's number and the position of the first value.\<close>

definition sa_head :: "bytes \<Rightarrow> (nat \<times> nat) py" where
  "sa_head data =
     (if length (slice data 0 8) = 8 then Inr (unat (data ! 4), max 8 (unat (data ! 5) * 2)) else Inl Struct_error)"

definition BonusSysAttr :: "(nat \<Rightarrow> (nat \<times> string) list option) option \<Rightarrow> bytes \<Rightarrow> py_sa" where
  "BonusSysAttr lay data =
     (case lay of
        None \<Rightarrow> \<lparr>ps_attrs = [], ps_inline = None\<rparr>
      | Some layouts \<Rightarrow> (case sa_head data of
          Inl _ \<Rightarrow> \<lparr>ps_attrs = [], ps_inline = None\<rparr>
        | Inr (layoutid, ptr) \<Rightarrow> (case layouts layoutid of
            None \<Rightarrow> \<lparr>ps_attrs = [], ps_inline = None\<rparr>
          | Some fs \<Rightarrow> (case sa_fields data fs ptr 0 [] of
              (attrs, None) \<Rightarrow> \<lparr>ps_attrs = attrs, ps_inline = None\<rparr>
            | (attrs, Some p) \<Rightarrow> \<lparr>ps_attrs = attrs, ps_inline = Some (drop p data)\<rparr>))))"

section \<open>Dnodes\<close>

datatype bonus = Bonus_directory py_directory | Bonus_dataset py_dataset | Bonus_znode py_znode | Bonus_sa py_sa
  | Bonus_data bytes

record py_dnode =
  pn_data :: bytes
  pn_type :: "nat option"
  pn_indblkshift :: nat
  pn_nlevels :: nat
  pn_nblkptr :: nat
  pn_bonustype :: nat
  pn_checksum :: nat
  pn_compress :: nat
  pn_flags :: nat
  pn_datablkszsec :: nat
  pn_bonuslen :: nat
  pn_extra_slots :: nat
  pn_maxblkid :: nat
  pn_used :: nat
  pn_blkptr :: "py_bp list option"
  pn_datablksize :: "nat option"
  pn_bonus :: "bonus option"

text \<open>\<open>struct.unpack("=8B2HB3xQQ32x", data[:64])\<close>\<close>

definition dnode_header :: "bytes \<Rightarrow> py_dnode" where
  "dnode_header data =
     \<lparr>pn_data = data, pn_type = Some (unat (data ! 0)), pn_indblkshift = unat (data ! 1), pn_nlevels = unat (data ! 2),
      pn_nblkptr = unat (data ! 3), pn_bonustype = unat (data ! 4), pn_checksum = unat (data ! 5),
      pn_compress = unat (data ! 6), pn_flags = unat (data ! 7), pn_datablkszsec = le_value (slice data 8 10),
      pn_bonuslen = le_value (slice data 10 12), pn_extra_slots = unat (data ! 12),
      pn_maxblkid = le_value (slice data 16 24), pn_used = le_value (slice data 24 32),
      pn_blkptr = None, pn_datablksize = None, pn_bonus = None\<rparr>"

definition dnode_bonus :: "(nat \<Rightarrow> (nat \<times> string) list option) option \<Rightarrow> nat \<Rightarrow> nat \<Rightarrow> bytes \<Rightarrow> bonus py" where
  "dnode_bonus lay bonuslen bonustype bonus_data =
     (if bonuslen \<noteq> 0 \<and> bonustype = 12 then andthen (BonusDirectory bonus_data) (\<lambda>b. Inr (Bonus_directory b))
      else if bonuslen \<noteq> 0 \<and> bonustype = 16 then andthen (BonusDataset bonus_data) (\<lambda>b. Inr (Bonus_dataset b))
      else if bonuslen \<noteq> 0 \<and> bonustype = 17 then andthen (BonusZnode bonus_data) (\<lambda>b. Inr (Bonus_znode b))
      else if bonuslen \<noteq> 0 \<and> bonustype = 0x2c then Inr (Bonus_sa (BonusSysAttr lay bonus_data))
      else Inr (Bonus_data bonus_data))"

definition DNode_parse :: "(nat \<Rightarrow> (nat \<times> string) list option) option \<Rightarrow> bytes \<Rightarrow> py_dnode py" where
  "DNode_parse lay data =
     (if length data < 512 then Inl Value_error
      else let dn = dnode_header data; t = unat (data ! 0) in
      if t = 0 then Inr dn
      else if 100 < t \<and> t \<noteq> 196 then Inr (dn\<lparr>pn_type := None\<rparr>)
      else if 3 < pn_nblkptr dn then Inr (dn\<lparr>pn_blkptr := Some [], pn_type := None\<rparr>)
      else
      andthen (parse_all (drop 64 data) [0..<pn_nblkptr dn]) (\<lambda>bps.
      let ptr = 64 + pn_nblkptr dn * 128 in
      andthen (dnode_bonus lay (pn_bonuslen dn) (pn_bonustype dn) (slice data ptr (ptr + pn_bonuslen dn))) (\<lambda>b.
      Inr (dn\<lparr>pn_used := (if pn_flags dn mod 2 = 0 then pn_used dn * 2 ^ 9 else pn_used dn),
        pn_datablksize := Some (pn_datablkszsec dn * 2 ^ 9), pn_blkptr := Some bps, pn_bonus := Some b\<rparr>))))"

text \<open>\<open>from_bptr\<close>: the first copy with data and a good checksum, else whatever the last one gave.\<close>

definition from_bptr ::
    "reader \<Rightarrow> (nat \<Rightarrow> (nat \<times> string) list option) option \<Rightarrow> py_bp \<Rightarrow> nat list \<Rightarrow> py_dnode option io" where
  "from_bptr rb lay bp dvas =
     io_bind (try_dvas rb bp dvas None) (\<lambda>data.
     case data of None \<Rightarrow> Some (Inr None)
     | Some d \<Rightarrow> io_bind (Some (DNode_parse lay d)) (\<lambda>dn. Some (Inr (Some dn))))"

section \<open>The dnode of the C structure\<close>

lemma parse_all_agrees:
  assumes "\<forall>i \<in> set is. (i + 1) * 128 \<le> length data"
  shows "\<exists>ps. parse_all data is = Inr ps
    \<and> list_all2 bp_agrees ps (map (\<lambda>i. words_blkptr (get_words 16 (drop (128 * i) data))) is)"
  using assms
proof (induction "is")
  case (Cons i "is")
  let ?b = "slice data (i * 128) ((i + 1) * 128)"
  have l: "length ?b = 128" using Cons.prems by (simp add: length_slice min_def) linarith
  have w: "get_words 16 ?b = get_words 16 (drop (128 * i) data)"
    by (simp add: slice_def get_words_take mult.commute)
  obtain p where "BlockPtr_parse ?b = Inr p" "bp_agrees p (words_blkptr (get_words 16 (drop (128 * i) data)))"
    using BlockPtr_parse_agrees [OF l refl] unfolding w by blast
  then show ?case using Cons by auto
qed simp

definition dn_agrees :: "py_dnode \<Rightarrow> dnode_phys \<Rightarrow> bool" where
  "dn_agrees p d \<longleftrightarrow>
     pn_indblkshift p = unat (dn_indblkshift d) \<and> pn_nlevels p = unat (dn_nlevels d) \<and> pn_nblkptr p = unat (dn_nblkptr d)
     \<and> pn_bonustype p = unat (dn_bonustype d) \<and> pn_checksum p = unat (dn_checksum d)
     \<and> pn_compress p = unat (dn_compress d) \<and> pn_flags p = unat (dn_flags d)
     \<and> pn_datablkszsec p = unat (dn_datablkszsec d) \<and> pn_bonuslen p = unat (dn_bonuslen d)
     \<and> pn_extra_slots p = unat (dn_extra_slots d) \<and> pn_maxblkid p = unat (dn_maxblkid d)"

lemma dnode_header_agrees:
  assumes "length data = 512"
  shows "dn_agrees (dnode_header data) (bytes_dnode_phys data)"
    "pn_used (dnode_header data) = unat (dn_used (bytes_dnode_phys data))"
  using assms
  by (simp_all add: dn_agrees_def dnode_header_def bytes_dnode_phys_def get16_le_value get64_le_value)

lemma even_unat: "even (unat (w :: u8)) = even w"
  using bit_unsigned_iff [of w 0, where ?'a = nat] by (simp add: bit_0)

text \<open>
  C18: the rescue scripts read a dnode as the structure of the extractor lays it out.
  Of 512 bytes with a type that is in use and at most three block pointers they get every member of the
  header, the block pointers of the tail, the size of a block in bytes and the space used in bytes, by
  whichever unit the flags tell, and the bonus buffer behind the last pointer. A dnode with another
  type or with more pointers is marked invalid, and one of type 0 is not looked into.
\<close>

theorem py_dnode_agrees:
  assumes "length data = 512" and "d = bytes_dnode_phys data"
  shows "(if dn_type d = 0 then DNode_parse lay data = Inr (dnode_header data) \<and> dn_agrees (dnode_header data) d
      else if 100 < dn_type d \<and> dn_type d \<noteq> 196 \<or> 3 < dn_nblkptr d then
        \<exists>p. DNode_parse lay data = Inr p \<and> pn_type p = None \<and> dn_agrees p d
      else \<exists>bps. list_all2 bp_agrees bps (map (dn_blkptr d) [0..<unat (dn_nblkptr d)])
        \<and> DNode_parse lay data = andthen (dnode_bonus lay (unat (dn_bonuslen d)) (unat (dn_bonustype d))
             (take (unat (dn_bonuslen d)) (drop (128 * unat (dn_nblkptr d)) (dn_tail d)))) (\<lambda>b.
           Inr ((dnode_header data)\<lparr>pn_used := (if even (dn_flags d) then 512 * unat (dn_used d) else unat (dn_used d)),
             pn_datablksize := Some (512 * unat (dn_datablkszsec d)), pn_blkptr := Some bps, pn_bonus := Some b\<rparr>))
        \<and> dn_agrees (dnode_header data) d)"
proof -
  let ?dn = "dnode_header data"
  have a: "dn_agrees ?dn d" and u: "pn_used ?dn = unat (dn_used d)"
    using dnode_header_agrees [OF assms(1)] assms(2) by simp_all
  have t: "data ! 0 = dn_type d" and tl: "dn_tail d = drop 64 data" by (simp_all add: assms(2) bytes_dnode_phys_def)
  have l: "\<not> length data < 512" using assms(1) by simp
  have t0: "(unat (dn_type d) = 0) = (dn_type d = 0)" by (simp add: word_unat_eq_iff)
  have t1: "(100 < unat (dn_type d) \<and> unat (dn_type d) \<noteq> 196) = (100 < dn_type d \<and> dn_type d \<noteq> 196)"
    by (simp add: word_less_nat_alt word_unat_eq_iff)
  have t3: "(3 < pn_nblkptr ?dn) = (3 < dn_nblkptr d)" using a by (simp add: dn_agrees_def word_less_nat_alt)
  consider "dn_type d = 0" | "dn_type d \<noteq> 0" "100 < dn_type d \<and> dn_type d \<noteq> 196"
    | "dn_type d \<noteq> 0" "\<not> (100 < dn_type d \<and> dn_type d \<noteq> 196)" "3 < dn_nblkptr d"
    | "dn_type d \<noteq> 0" "\<not> (100 < dn_type d \<and> dn_type d \<noteq> 196)" "\<not> 3 < dn_nblkptr d" by blast
  then show ?thesis
  proof cases
    case 1
    then have "DNode_parse lay data = Inr ?dn" by (simp add: DNode_parse_def l t Let_def)
    then show ?thesis using 1 a by simp
  next
    case 2
    then have "DNode_parse lay data = Inr (?dn\<lparr>pn_type := None\<rparr>)"
      unfolding DNode_parse_def if_not_P [OF l] Let_def t t0 t1 by simp
    moreover have "dn_agrees (?dn\<lparr>pn_type := None\<rparr>) d" using a by (simp add: dn_agrees_def)
    ultimately show ?thesis using 2 by simp
  next
    case 3
    have "DNode_parse lay data = Inr (?dn\<lparr>pn_blkptr := Some [], pn_type := None\<rparr>)"
      unfolding DNode_parse_def if_not_P [OF l] Let_def t t0 t1 t3 if_not_P [OF 3(1)] if_not_P [OF 3(2)] if_P [OF 3(3)] ..
    moreover have "dn_agrees (?dn\<lparr>pn_blkptr := Some [], pn_type := None\<rparr>) d" using a by (simp add: dn_agrees_def)
    ultimately show ?thesis using 3 by simp
  next
    case 4
    let ?n = "unat (dn_nblkptr d)"
    have n: "pn_nblkptr ?dn = ?n" "pn_bonuslen ?dn = unat (dn_bonuslen d)" "pn_bonustype ?dn = unat (dn_bonustype d)"
      "pn_datablkszsec ?dn * 2 ^ 9 = 512 * unat (dn_datablkszsec d)" "unat (dn_used d) * 2 ^ 9 = 512 * unat (dn_used d)"
      "(3 < unat (dn_nblkptr d)) = (3 < dn_nblkptr d)"
      using a t3 by (simp_all add: dn_agrees_def)
    have f: "(pn_flags ?dn mod 2 = 0) = even (dn_flags d)"
      using a by (simp add: dn_agrees_def even_unat flip: even_iff_mod_2_eq_zero)
    have "?n \<le> 3" using 4(3) by (simp add: word_le_nat_alt not_less)
    then have b: "\<forall>i \<in> set [0..<?n]. (i + 1) * 128 \<le> length (drop 64 data)" using assms(1) by auto
    obtain bps where bps: "parse_all (drop 64 data) [0..<?n] = Inr bps"
      "list_all2 bp_agrees bps (map (dn_blkptr d) [0..<?n])"
      using parse_all_agrees [OF b] by (auto simp: dn_blkptr_def [abs_def] tl)
    have s: "slice data (64 + ?n * 128) (64 + ?n * 128 + unat (dn_bonuslen d))
        = take (unat (dn_bonuslen d)) (drop (128 * ?n) (dn_tail d))"
      by (simp add: slice_def tl mult.commute add.commute)
    have "DNode_parse lay data = andthen (dnode_bonus lay (unat (dn_bonuslen d)) (unat (dn_bonustype d))
             (take (unat (dn_bonuslen d)) (drop (128 * ?n) (dn_tail d)))) (\<lambda>b.
           Inr (?dn\<lparr>pn_used := (if even (dn_flags d) then 512 * unat (dn_used d) else unat (dn_used d)),
             pn_datablksize := Some (512 * unat (dn_datablkszsec d)), pn_blkptr := Some bps, pn_bonus := Some b\<rparr>))"
      unfolding DNode_parse_def if_not_P [OF l] Let_def t t0 t1 t3 n f u if_not_P [OF 4(1)] if_not_P [OF 4(2)]
        if_not_P [OF 4(3)] bps(1) andthen_simps s ..
    then show ?thesis using 4 bps(2) a by auto
  qed
qed

lemma le_value_zeros: "le_value (replicate n 0) = 0"
  by (induction n) simp_all

lemma get64_zeros: "get64 (20 # replicate 511 0) 24 = 0"
  using get64_le_value [of 24 "20 # replicate 511 0"] by (simp add: slice_def drop_Cons' word_unat_eq_iff le_value_zeros)

theorem py_dnode_agrees_witness:
  "DNode_parse None (20 # replicate 511 0) = Inr ((dnode_header (20 # replicate 511 0))\<lparr>pn_used := 0,
      pn_datablksize := Some 0, pn_blkptr := Some [], pn_bonus := Some (Bonus_data [])\<rparr>)"
proof -
  have t: "dn_type (bytes_dnode_phys (20 # replicate 511 0)) = 20" "dn_nblkptr (bytes_dnode_phys (20 # replicate 511 0)) = 0"
    "dn_bonuslen (bytes_dnode_phys (20 # replicate 511 0)) = 0" "dn_used (bytes_dnode_phys (20 # replicate 511 0)) = 0"
    "dn_flags (bytes_dnode_phys (20 # replicate 511 0)) = 0" "dn_datablkszsec (bytes_dnode_phys (20 # replicate 511 0)) = 0"
    by (simp_all add: bytes_dnode_phys_def get16_def get64_zeros)
  have l: "length (20 # replicate 511 0) = 512" by simp
  show ?thesis using py_dnode_agrees [of "20 # replicate 511 0" _ None, OF l refl] by (simp add: t dnode_bonus_def)
qed

section \<open>The attributes of a buffer\<close>

lemma unat_BF32_GET: "unat (BF32_GET x low len) = unat x div 2 ^ low mod 2 ^ len"
  unfolding BF32_GET_take unsigned_take_bit_eq unat_drop_bit_eq by (simp add: take_bit_eq_mod drop_bit_eq_div)

text \<open>The header as the macros see it, the info word at offset 4.\<close>

definition sa_hdr_at :: "bytes \<Rightarrow> sa_hdr" where
  "sa_hdr_at data = \<lparr>sa_magic = 0, sa_layout_info = get16 data 4, sa_lengths = []\<rparr>"

lemma sa_head_macros:
  assumes "8 \<le> length data"
  shows "sa_head data = Inr (unat (SA_HDR_LAYOUT_NUM (sa_hdr_at data)) mod 256,
      max 8 (unat (SA_HDR_SIZE (sa_hdr_at data)) + 2 * (unat (SA_HDR_LAYOUT_NUM (sa_hdr_at data)) div 256)))"
proof -
  define lo hi where "lo = unat (data ! 4)" and "hi = unat (data ! 5)"
  have s: "slice data 4 (4 + 2) = [data ! 4, data ! 5]"
    using assms by (intro nth_equalityI) (auto simp: slice_def less_2_cases_iff)
  have x: "unat (get16 data 4) = lo + 256 * hi"
    using get16_le_value [of 4 data] assms unfolding s lo_def hi_def by simp
  have b: "lo < 256" "hi < 256" by (simp_all add: lo_def hi_def)
  have u: "unat (ucast (get16 data 4) :: u32) = lo + 256 * hi" using x b by (simp add: unsigned_ucast_eq take_bit_nat_eq_self_iff)
  have num: "unat (SA_HDR_LAYOUT_NUM (sa_hdr_at data)) = lo + 256 * (hi mod 4)"
  proof -
    have "(lo + 256 * hi) mod 1024 = lo + 256 * (hi mod 4)"
      using b(1) mod_mult2_eq [of "lo + 256 * hi" 256 4] by simp
    then show ?thesis by (simp add: SA_HDR_LAYOUT_NUM_def sa_hdr_at_def unat_BF32_GET u)
  qed
  have size: "unat (SA_HDR_SIZE (sa_hdr_at data)) = 8 * (hi div 4)"
  proof -
    have d: "(lo + 256 * hi) div 1024 = hi div 4" using b(1) div_mult2_eq [of "lo + 256 * hi" 256 4] by simp
    have g: "unat (BF32_GET (ucast (get16 data 4)) 10 6) = hi div 4"
      using b(2) by (simp add: unat_BF32_GET u d)
    have "unat (push_bit 3 (BF32_GET (ucast (get16 data 4)) 10 6)) = 8 * (hi div 4)"
      using b(2) by (simp add: push_bit_eq_mult unat_mult_lem [THEN iffD1] g)
    then show ?thesis by (simp add: SA_HDR_SIZE_def BF32_GET_SB_def sa_hdr_at_def)
  qed
  have "(lo + 256 * (hi mod 4)) div 256 = hi mod 4" using b(1) by simp
  then have f: "8 * (hi div 4) + 2 * ((lo + 256 * (hi mod 4)) div 256) = hi * 2"
    using div_mult_mod_eq [of hi 4] by linarith
  have g: "(lo + 256 * (hi mod 4)) mod 256 = lo" using b(1) by simp
  have "length (slice data 0 8) = 8" using assms by (simp add: length_slice)
  then have "sa_head data = Inr (lo, max 8 (hi * 2))" unfolding sa_head_def lo_def hi_def by (rule if_P)
  then show ?thesis unfolding num size f g .
qed

lemma le_bytes_numeral: "le_bytes (numeral k) v = byte_of (v mod 256) # le_bytes (pred_numeral k) (v div 256)"
  by (simp only: numeral_eq_Suc [of k] le_bytes.simps)

text \<open>The value of one attribute in the buffer: two numbers of eight bytes, a number of eight or of four,
  bytes of variable size, or bytes of another fixed size.\<close>

datatype sa_field = XA_pair nat nat | XA_num8 nat | XA_num4 nat | XA_var bytes | XA_other bytes

fun xa_len :: "sa_field \<Rightarrow> nat" where
  "xa_len (XA_pair n m) = 16" | "xa_len (XA_num8 n) = 8" | "xa_len (XA_num4 n) = 4" | "xa_len (XA_var bs) = 0"
| "xa_len (XA_other bs) = length bs"

fun xa_bytes :: "sa_field \<Rightarrow> bytes" where
  "xa_bytes (XA_pair n m) = le_bytes 8 n @ le_bytes 8 m"
| "xa_bytes (XA_num8 n) = le_bytes 8 n"
| "xa_bytes (XA_num4 n) = le_bytes 4 n"
| "xa_bytes (XA_var bs) = bs"
| "xa_bytes (XA_other bs) = bs"

fun xa_fits :: "sa_field \<Rightarrow> bool" where
  "xa_fits (XA_pair n m) \<longleftrightarrow> n < 2 ^ 64 \<and> m < 2 ^ 64"
| "xa_fits (XA_num8 n) \<longleftrightarrow> n < 2 ^ 64"
| "xa_fits (XA_num4 n) \<longleftrightarrow> n < 2 ^ 32"
| "xa_fits (XA_var bs) \<longleftrightarrow> length bs < 2 ^ 16"
| "xa_fits (XA_other bs) \<longleftrightarrow> length bs \<notin> {0, 4, 8, 16}"

fun xa_val :: "sa_field \<Rightarrow> sa_val" where
  "xa_val (XA_pair n m) = SA_pair n m"
| "xa_val (XA_num8 n) = SA_num n"
| "xa_val (XA_num4 n) = SA_num n"
| "xa_val (XA_var bs) = SA_bytes bs"
| "xa_val (XA_other bs) = SA_bytes bs"

text \<open>The values the scripts keep; the others are stepped over and become \<open>None\<close>.\<close>

fun xa_kept :: "string \<Rightarrow> sa_field \<Rightarrow> bool" where
  "xa_kept name (XA_var bs) \<longleftrightarrow> name = ''zpl_symlink''"
| "xa_kept name (XA_other bs) \<longleftrightarrow> False"
| "xa_kept name v \<longleftrightarrow> True"

definition xa_read :: "string \<Rightarrow> sa_field \<Rightarrow> sa_val" where
  "xa_read name v = (if xa_kept name v then xa_val v else SA_none)"

text \<open>The lengths of the values of variable size stand in the header, from offset 6 on.\<close>

fun lens_at :: "bytes \<Rightarrow> nat \<Rightarrow> sa_field list \<Rightarrow> bool" where
  "lens_at data li [] \<longleftrightarrow> True"
| "lens_at data li (XA_var bs # vs) \<longleftrightarrow>
     slice data (6 + li * 2) (6 + li * 2 + 2) = le_bytes 2 (length bs) \<and> lens_at data (li + 1) vs"
| "lens_at data li (v # vs) \<longleftrightarrow> lens_at data li vs"

lemma unpack_words_2: "n < 2 ^ 64 \<Longrightarrow> m < 2 ^ 64 \<Longrightarrow> unpack_words 2 (le_bytes 8 n @ le_bytes 8 m) = Inr [n, m]"
  by (simp add: unpack_words_def slice_def upt_rec le_value_bytes)

lemma sa_fields_decode:
  "map fst fs = map xa_len vs \<Longrightarrow> \<forall>v \<in> set vs. xa_fits v \<Longrightarrow> lens_at data li vs \<Longrightarrow>
   drop ptr data = concat (map xa_bytes vs) @ rest \<Longrightarrow>
   \<exists>p. sa_fields data fs ptr li acc = (acc @ map2 (\<lambda>(l, name) v. (name, xa_read name v)) fs vs, Some p) \<and> drop p data = rest"
proof (induction vs arbitrary: fs ptr li acc)
  case (Cons v vs)
  then obtain name fs' where fs: "fs = (xa_len v, name) # fs'" "map fst fs' = map xa_len vs" by (cases fs) auto
  let ?next = "\<lambda>li'. sa_fields data fs' (ptr + length (xa_bytes v)) li' (acc @ [(name, xa_read name v)])"
  have b: "slice data ptr (ptr + length (xa_bytes v)) = xa_bytes v"
    using Cons.prems(4) by (intro slice_drop) simp
  have d: "drop (ptr + length (xa_bytes v)) data = concat (map xa_bytes vs) @ rest"
  proof -
    have "drop (ptr + length (xa_bytes v)) data = drop (length (xa_bytes v)) (drop ptr data)" by (simp add: add.commute)
    then show ?thesis unfolding Cons.prems(4) by simp
  qed
  have fits: "xa_fits v" "\<forall>v \<in> set vs. xa_fits v" using Cons.prems(2) by simp_all
  obtain li' where li: "lens_at data li' vs" "sa_fields data fs ptr li acc = ?next li'"
  proof (cases v)
    case (XA_pair n m)
    then show ?thesis using that [of li] Cons.prems(3) b fits(1) by (simp add: fs unpack_words_2 xa_read_def)
  next
    case (XA_num8 n)
    then show ?thesis using that [of li] Cons.prems(3) b fits(1) by (simp add: fs unpack_le_bytes xa_read_def)
  next
    case (XA_num4 n)
    then show ?thesis using that [of li] Cons.prems(3) b fits(1) by (simp add: fs unpack_le_bytes xa_read_def)
  next
    case (XA_var bs)
    then show ?thesis using that [of "li + 1"] Cons.prems(3) b fits(1) by (simp add: fs unpack_le_bytes xa_read_def)
  next
    case (XA_other bs)
    then show ?thesis using that [of li] Cons.prems(3) b fits(1) by (simp add: fs xa_read_def)
  qed
  then show ?case using Cons.IH [OF fs(2) fits(2) li(1) d, of "acc @ [(name, xa_read name v)]"] by (simp add: fs(1))
qed simp

text \<open>
  C20: the system attributes of an object. From a buffer whose header \<open>SA_HDR_LAYOUT_NUM\<close> and
  \<open>SA_HDR_SIZE\<close> read as layout \<open>k < 256\<close> and at least 8 bytes, with the values of the layout behind
  it and the lengths of the variable ones in it, the scripts get the values that are numbers or pairs of
  numbers, the target of a link, and the rest of the buffer as inline content; other values of
  variable size (the access control list) and of other fixed sizes become \<open>None\<close>. Of the ten bits of a
  layout's number they look at eight: with a higher number they take another layout and start two,
  four or six bytes late.
\<close>

theorem py_sa_reads:
  assumes "8 \<le> length data" and "h = sa_hdr_at data"
    and "8 \<le> unat (SA_HDR_SIZE h)" and "layouts (unat (SA_HDR_LAYOUT_NUM h)) = Some fs"
    and "map fst fs = map xa_len vs" and "\<forall>v \<in> set vs. xa_fits v" and "lens_at data 0 vs"
    and "drop (unat (SA_HDR_SIZE h)) data = concat (map xa_bytes vs) @ rest"
  shows "if unat (SA_HDR_LAYOUT_NUM h) < 256
    then BonusSysAttr (Some layouts) data
      = \<lparr>ps_attrs = map2 (\<lambda>(l, name) v. (name, if xa_kept name v then xa_val v else SA_none)) fs vs,
         ps_inline = Some rest\<rparr>
    else \<exists>lid ptr. sa_head data = Inr (lid, ptr) \<and> lid \<noteq> unat (SA_HDR_LAYOUT_NUM h)
      \<and> unat (SA_HDR_SIZE h) < ptr \<and> ptr \<le> unat (SA_HDR_SIZE h) + 6"
proof (cases "unat (SA_HDR_LAYOUT_NUM h) < 256")
  case True
  then have hd: "sa_head data = Inr (unat (SA_HDR_LAYOUT_NUM h), unat (SA_HDR_SIZE h))"
    using sa_head_macros [OF assms(1)] assms(2,3) by simp
  obtain p where "sa_fields data fs (unat (SA_HDR_SIZE h)) 0 []
      = (map2 (\<lambda>(l, name) v. (name, xa_read name v)) fs vs, Some p)" "drop p data = rest"
    using sa_fields_decode [OF assms(5-8), of "[]"] by auto
  then show ?thesis using True by (simp add: BonusSysAttr_def hd assms(4) xa_read_def)
next
  case False
  have "unat (SA_HDR_LAYOUT_NUM h) < 1024" by (simp add: SA_HDR_LAYOUT_NUM_def unat_BF32_GET)
  then have "1 \<le> unat (SA_HDR_LAYOUT_NUM h) div 256" "unat (SA_HDR_LAYOUT_NUM h) div 256 \<le> 3"
    using False by simp_all
  moreover have "unat (SA_HDR_LAYOUT_NUM h) mod 256 < 256" by simp
  then have "unat (SA_HDR_LAYOUT_NUM h) mod 256 \<noteq> unat (SA_HDR_LAYOUT_NUM h)" using False by linarith
  ultimately show ?thesis
    using False sa_head_macros [OF assms(1)] assms(3) unfolding assms(2) [symmetric] by simp
qed

definition demo_sa :: bytes where
  "demo_sa = [0x5A, 0x50, 0x2F, 0, 5, 4, 2, 0] @ le_bytes 8 33188 @ [47, 97] @ replicate 32 1 @ [9]"

definition demo_sa_layout :: "(nat \<times> string) list" where
  "demo_sa_layout = [(8, ''zpl_mode''), (0, ''zpl_symlink''), (32, ''zpl_scanstamp'')]"

theorem py_sa_reads_witness:
  "BonusSysAttr (Some (\<lambda>k. if k = 5 then Some demo_sa_layout else None)) demo_sa
    = \<lparr>ps_attrs = [(''zpl_mode'', SA_num 33188), (''zpl_symlink'', SA_bytes [47, 97]), (''zpl_scanstamp'', SA_none)],
       ps_inline = Some [9]\<rparr>"
proof -
  have h: "unat (SA_HDR_LAYOUT_NUM (sa_hdr_at demo_sa)) = 5" "unat (SA_HDR_SIZE (sa_hdr_at demo_sa)) = 8"
    by (simp_all add: demo_sa_def sa_hdr_at_def SA_HDR_LAYOUT_NUM_def SA_HDR_SIZE_def BF32_GET_SB_def BF32_GET_take get16_def)
  show ?thesis
    using py_sa_reads [of demo_sa _ "\<lambda>k. if k = 5 then Some demo_sa_layout else None"
        demo_sa_layout "[XA_num8 33188, XA_var [47, 97], XA_other (replicate 32 1)]" "[9]", OF _ refl]
    by (simp add: h demo_sa_layout_def) (simp add: demo_sa_def slice_def le_bytes_numeral byte_of_def)
qed

end
