(* ===== verification/Py_Zap.thy ===== *)
theory Py_Zap
  imports Py_Dnode Zap_Format "HOL-Library.AList" "HOL-Library.Sublist"
begin

text \<open>
  Attribute directories as the rescue scripts read them: \<open>MicroZap\<close>, \<open>FatZap\<close> and
  \<open>zap_factory\<close> of \<open>src/zfs/zap.py\<close>. \<open>decode\<close> stands for the UTF-8, CP1251 and Latin-1 decoders of
  Python that \<open>safe_decode_string\<close> tries in this order; of the last only that it accepts everything
  is used. The entries are a dict, an association list in the order of insertion. The two functions that
  follow indices inside a leaf call themselves; \<open>depth\<close> is the number of calls the interpreter has
  left, and a cycle on the disk ends with \<open>Recursion_error\<close>. Printing is left out.
\<close>

section \<open>Names\<close>

text \<open>A string is its code points. The third decoder maps each byte to the code point of its number.\<close>

type_synonym name = "nat list"

record decoders =
  utf8 :: "bytes \<Rightarrow> name option"
  cp1251 :: "bytes \<Rightarrow> name option"

definition safe_decode_string :: "decoders \<Rightarrow> bytes \<Rightarrow> name" where
  "safe_decode_string de val =
     (case utf8 de val of Some s \<Rightarrow> s
      | None \<Rightarrow> (case cp1251 de val of Some s \<Rightarrow> s | None \<Rightarrow> map unat val))"

definition rstrip0 :: "bytes \<Rightarrow> bytes" where
  "rstrip0 bs = rev (dropWhile (\<lambda>b. b = 0) (rev bs))"

datatype zap_val = ZV_num nat | ZV_bytes bytes

type_synonym zap = "(name \<times> zap_val) list"

section \<open>The small form\<close>

definition mz_entry :: "decoders \<Rightarrow> bytes \<Rightarrow> (name \<times> nat \<times> nat) py" where
  "mz_entry de data =
     (if length (slice data 0 64) = 64 then
        Inr (safe_decode_string de (rstrip0 (slice data 14 64)), le_value (slice data 0 8), le_value (slice data 8 12))
      else Inl Struct_error)"

text \<open>The loop over the entries; \<open>n\<close> are left.\<close>

fun mz_entries :: "decoders \<Rightarrow> bytes \<Rightarrow> nat \<Rightarrow> nat \<Rightarrow> zap \<Rightarrow> zap py" where
  "mz_entries de data ptr 0 entries = Inr entries"
| "mz_entries de data ptr (Suc n) entries =
     andthen (mz_entry de (slice data ptr (ptr + 64))) (\<lambda>(name, v, cd).
     mz_entries de data (ptr + 64) n (if name \<noteq> [] then AList.update name (ZV_num v) entries else entries))"

definition MicroZap_parse :: "decoders \<Rightarrow> bytes \<Rightarrow> zap py" where
  "MicroZap_parse de data =
     (if length data < 128 then Inr []
      else andthen (unpack_words 2 (slice data 0 16)) (\<lambda>q.
        if q ! 0 \<noteq> 2 ^ 63 + 3 then Inr [] else mz_entries de data 64 ((length data - 64) div 64) []))"

section \<open>The large form\<close>

definition CHNK_ARR_BEGIN :: nat where "CHNK_ARR_BEGIN = 0x430"
definition CHNK_SIZE :: nat where "CHNK_SIZE = 24"

text \<open>\<open>_follow_chunk_list\<close>: \<^const>\<open>None\<close> when a chunk is not of the array type; adding it to bytes, or
  cutting it, raises.\<close>

fun follow_chunk_list :: "nat \<Rightarrow> bytes \<Rightarrow> nat \<Rightarrow> bytes option py" where
  "follow_chunk_list 0 arr idx = Inl Recursion_error"
| "follow_chunk_list (Suc depth) arr idx =
     (let chunk = slice arr (idx * CHNK_SIZE) ((idx + 1) * CHNK_SIZE) in
      andthen (index chunk 0) (\<lambda>t.
      if t \<noteq> 251 then Inr None
      else andthen (unpack_le 2 (drop (length chunk - 2) chunk)) (\<lambda>next_chunk.
        if next_chunk = 0xffff then Inr (Some (slice chunk 1 22))
        else andthen (follow_chunk_list depth arr next_chunk) (\<lambda>r.
          case r of None \<Rightarrow> Inl Type_error | Some rest \<Rightarrow> Inr (Some (slice chunk 1 22 @ rest))))))"

text \<open>A list of chunks cut at \<open>n\<close>; a negative \<open>n\<close> counts from the end.\<close>

definition chunk_bytes :: "nat \<Rightarrow> bytes \<Rightarrow> nat \<Rightarrow> int \<Rightarrow> bytes py" where
  "chunk_bytes depth arr idx n =
     andthen (follow_chunk_list depth arr idx) (\<lambda>r.
     case r of None \<Rightarrow> Inl Type_error | Some bs \<Rightarrow> Inr (slice_int bs 0 n))"

definition zap_value :: "bytes \<Rightarrow> zap_val" where
  "zap_value value_data = (if length value_data \<noteq> 8 then ZV_bytes value_data else ZV_num (be_value value_data))"

fun follow_collision_chain :: "decoders \<Rightarrow> nat \<Rightarrow> bytes \<Rightarrow> nat \<Rightarrow> zap \<Rightarrow> zap py" where
  "follow_collision_chain de 0 arr idx entries = Inl Recursion_error"
| "follow_collision_chain de (Suc depth) arr idx entries =
     (let p = idx * CHNK_SIZE in
      andthen (index arr p) (\<lambda>t.
      if t \<noteq> 252 then Inr entries
      else if length (slice arr (p + 1) (p + CHNK_SIZE)) \<noteq> 23 then Inl Struct_error
      else let int_size = unat (arr ! (p + 1)); field = (\<lambda>k. le_value (slice arr (p + k) (p + k + 2)));
               next_chunk = field 2 in
        andthen (chunk_bytes depth arr (field 4) (int (field 6) - 1)) (\<lambda>name_data.
        andthen (chunk_bytes depth arr (field 8) (int (field 10 * int_size))) (\<lambda>value_data.
        let entries = AList.update (safe_decode_string de name_data) (zap_value value_data) entries in
        if next_chunk \<noteq> 0xffff then follow_collision_chain de depth arr next_chunk entries else Inr entries))))"

fun zap_buckets :: "decoders \<Rightarrow> nat \<Rightarrow> bytes \<Rightarrow> nat list \<Rightarrow> zap \<Rightarrow> zap py" where
  "zap_buckets de depth arr [] entries = Inr entries"
| "zap_buckets de depth arr (c # cs) entries =
     (if c = 0xffff then zap_buckets de depth arr cs entries
      else andthen (follow_collision_chain de depth arr c entries) (zap_buckets de depth arr cs))"

definition parse_zap_block :: "decoders \<Rightarrow> nat \<Rightarrow> bytes \<Rightarrow> zap \<Rightarrow> zap py" where
  "parse_zap_block de depth data entries =
     (if length (slice data 0 0x30) \<noteq> 0x30 \<or> length (slice data 0x30 CHNK_ARR_BEGIN) \<noteq> 2 * 512 then Inl Struct_error
      else zap_buckets de depth (drop CHNK_ARR_BEGIN data)
        (map (\<lambda>i. le_value (slice data (0x30 + 2 * i) (0x30 + 2 * i + 2))) [0..<512]) entries)"

fun zap_blocks :: "decoders \<Rightarrow> nat \<Rightarrow> nat \<Rightarrow> bytes \<Rightarrow> nat list \<Rightarrow> zap \<Rightarrow> zap py" where
  "zap_blocks de depth block_size data [] entries = Inr entries"
| "zap_blocks de depth block_size data (n # ns) entries =
     andthen (parse_zap_block de depth (slice data (n * block_size) ((n + 1) * block_size)) entries)
       (zap_blocks de depth block_size data ns)"

definition FatZap_parse :: "decoders \<Rightarrow> nat \<Rightarrow> nat \<Rightarrow> bytes \<Rightarrow> zap py" where
  "FatZap_parse de depth dbsize data =
     (if length (slice data 0 (11 * 8)) \<noteq> 11 * 8 then Inl Struct_error
      else if dbsize = 0 then Inl Zero_division_error
      else zap_blocks de depth dbsize data [1..<length data div dbsize] [])"

section \<open>From a dnode to its entries\<close>

definition choose_zap_factory :: "decoders \<Rightarrow> nat \<Rightarrow> bytes \<Rightarrow> nat \<Rightarrow> zap option py" where
  "choose_zap_factory de depth data dbsize =
     (if length data < 8 then Inr (Some [])
      else let block_type = le_value (slice data 0 8) in
        if block_type = 2 ^ 63 + 3 then andthen (MicroZap_parse de data) (\<lambda>z. Inr (Some z))
        else if block_type = 2 ^ 63 + 1 then andthen (FatZap_parse de depth dbsize data) (\<lambda>z. Inr (Some z))
        else Inr None)"

text \<open>The blocks that can be read and whose checksum is right, one behind the other.\<close>

fun zap_data :: "reader \<Rightarrow> py_bp list \<Rightarrow> nat list \<Rightarrow> bytes io" where
  "zap_data rb bpa [] = Some (Inr [])"
| "zap_data rb bpa (i # is) =
     io_bind (Some (index bpa i)) (\<lambda>bp.
     io_bind (rb bp 0) (\<lambda>(d, c).
     io_bind (zap_data rb bpa is) (\<lambda>rest.
     Some (Inr ((if c then (case d of None \<Rightarrow> [] | Some b \<Rightarrow> b) else []) @ rest)))))"

definition blockptrar_zap_factory :: "decoders \<Rightarrow> nat \<Rightarrow> reader \<Rightarrow> py_bp list \<Rightarrow> nat \<Rightarrow> nat \<Rightarrow> zap option io" where
  "blockptrar_zap_factory de depth rb bpa dbsize nblocks =
     io_bind (zap_data rb bpa [0..<nblocks]) (\<lambda>data. Some (choose_zap_factory de depth data dbsize))"

definition indirect_zap_factory :: "decoders \<Rightarrow> nat \<Rightarrow> reader \<Rightarrow> py_bp \<Rightarrow> nat \<Rightarrow> nat \<Rightarrow> zap option io" where
  "indirect_zap_factory de depth rb bptr dbsize nblocks =
     io_bind (rb bptr 0) (\<lambda>(data, c).
     case data of None \<Rightarrow> Some (Inr None)
     | Some d \<Rightarrow> io_bind (Some (BlockPtrArray d)) (\<lambda>bpa. blockptrar_zap_factory de depth rb bpa dbsize nblocks))"

text \<open>\<open>zap_factory\<close>: a dnode without block pointers raises, and so does one that was not parsed to
  its end.\<close>

definition zap_factory :: "decoders \<Rightarrow> nat \<Rightarrow> reader \<Rightarrow> py_dnode \<Rightarrow> zap option io" where
  "zap_factory de depth rb dn =
     (case pn_blkptr dn of
        None \<Rightarrow> Some (Inl Type_error)
      | Some [] \<Rightarrow> Some (Inl Index_error)
      | Some (bptr # _) \<Rightarrow>
          if pn_nlevels dn = 1 then
            io_bind (Some (BlockPtrArray (slice (pn_data dn) 64 (64 + pn_nblkptr dn * 128)))) (\<lambda>bpa.
            blockptrar_zap_factory de depth rb bpa (the (pn_datablksize dn)) (pn_nblkptr dn))
          else if pn_nlevels dn = 2 then
            indirect_zap_factory de depth rb bptr (the (pn_datablksize dn)) (pn_maxblkid dn + 1)
          else Some (Inl Not_implemented))"

section \<open>The leaf of the C structures\<close>

text \<open>
  What a leaf block holds, in the terms of \<open>sys/zap_leaf.h\<close>: an array is a chain of chunks linked by
  their last member, an entry points at two arrays, and a bucket of the hash table is a chain of
  entries; the end of a chain is \<open>0xffff\<close>.
\<close>

definition u16_at :: "bytes \<Rightarrow> nat \<Rightarrow> nat" where
  "u16_at arr p = le_value (slice arr p (p + 2))"

definition chunk_at :: "bytes \<Rightarrow> nat \<Rightarrow> u8 \<Rightarrow> bool" where
  "chunk_at arr i t \<longleftrightarrow> (i + 1) * sizeof LP64 zap_leaf_chunk_t \<le> length arr \<and> arr ! (i * sizeof LP64 zap_leaf_chunk_t) = t"

definition la_payload :: "bytes \<Rightarrow> nat \<Rightarrow> bytes" where
  "la_payload arr i = (let p = i * sizeof LP64 zap_leaf_chunk_t in
     slice arr (p + member zap_leaf_array ''la_array'') (p + member zap_leaf_array ''la_next''))"

fun array_chain :: "bytes \<Rightarrow> nat \<Rightarrow> nat list \<Rightarrow> bool" where
  "array_chain arr i [] \<longleftrightarrow> i = 0xffff"
| "array_chain arr i (j # js) \<longleftrightarrow> i = j \<and> i \<noteq> 0xffff \<and> chunk_at arr i 251
     \<and> array_chain arr (u16_at arr (i * sizeof LP64 zap_leaf_chunk_t + member zap_leaf_array ''la_next'')) js"

record leaf_ent =
  le_at :: nat
  le_name_at :: "nat list"
  le_val_at :: "nat list"
  le_name :: bytes
  le_intlen :: u8
  le_val :: bytes

definition le_field :: "bytes \<Rightarrow> nat \<Rightarrow> string \<Rightarrow> nat" where
  "le_field arr i x = u16_at arr (i * sizeof LP64 zap_leaf_chunk_t + member zap_leaf_entry x)"

definition ent_at :: "bytes \<Rightarrow> leaf_ent \<Rightarrow> bool" where
  "ent_at arr e \<longleftrightarrow> (let i = le_at e in
     chunk_at arr i 252
     \<and> arr ! (i * sizeof LP64 zap_leaf_chunk_t + member zap_leaf_entry ''le_value_intlen'') = le_intlen e
     \<and> le_name_at e \<noteq> [] \<and> array_chain arr (le_field arr i ''le_name_chunk'') (le_name_at e)
     \<and> le_val_at e \<noteq> [] \<and> array_chain arr (le_field arr i ''le_value_chunk'') (le_val_at e)
     \<and> le_field arr i ''le_name_numints'' = length (le_name e) + 1
     \<and> le_field arr i ''le_value_numints'' * unat (le_intlen e) = length (le_val e)
     \<and> prefix (le_name e) (concat (map (la_payload arr) (le_name_at e)))
     \<and> prefix (le_val e) (concat (map (la_payload arr) (le_val_at e))))"

fun ent_chain :: "bytes \<Rightarrow> nat \<Rightarrow> leaf_ent list \<Rightarrow> bool" where
  "ent_chain arr i [] \<longleftrightarrow> i = 0xffff"
| "ent_chain arr i (e # es) \<longleftrightarrow> i = le_at e \<and> i \<noteq> 0xffff \<and> ent_at arr e \<and> ent_chain arr (le_field arr i ''le_next'') es"

text \<open>The buckets of a leaf block of 16K, their number and the first chunk where the macros have them.\<close>

definition leaf_holds :: "bytes \<Rightarrow> leaf_ent list list \<Rightarrow> bool" where
  "leaf_holds data ess \<longleftrightarrow> length data = 2 ^ 14
     \<and> ZAP_LEAF_HASH_NUMENTRIES_BS 14 = Inr (int (length ess))
     \<and> (\<exists>k. ZAP_LEAF_CHUNK 14 0 = Inr (int k)
        \<and> (\<forall>i < length ess. ent_chain (drop k data) (u16_at data (member zap_leaf_phys_t ''l_hash'' + 2 * i)) (ess ! i)))"

text \<open>How many calls reading the entries takes: one for each entry of a bucket and one for each
  chunk of an array.\<close>

definition deep_enough :: "nat \<Rightarrow> leaf_ent list \<Rightarrow> bool" where
  "deep_enough depth es \<longleftrightarrow> (\<forall>e \<in> set es. length es + length (le_name_at e) \<le> depth \<and> length es + length (le_val_at e) \<le> depth)"

definition put_ent :: "decoders \<Rightarrow> zap \<Rightarrow> leaf_ent \<Rightarrow> zap" where
  "put_ent de z e = AList.update (safe_decode_string de (le_name e)) (zap_value (le_val e)) z"

lemma leaf_members:
  "sizeof LP64 zap_leaf_chunk_t = 24" "member zap_leaf_array ''la_array'' = 1" "member zap_leaf_array ''la_next'' = 22"
  "member zap_leaf_entry ''le_value_intlen'' = 1" "member zap_leaf_entry ''le_next'' = 2"
  "member zap_leaf_entry ''le_name_chunk'' = 4" "member zap_leaf_entry ''le_name_numints'' = 6"
  "member zap_leaf_entry ''le_value_chunk'' = 8" "member zap_leaf_entry ''le_value_numints'' = 10"
  by (simp_all add: member_def layout layout_eval)

lemma leaf_macros: "ZAP_LEAF_HASH_NUMENTRIES_BS 14 = Inr 512" "ZAP_LEAF_CHUNK 14 0 = Inr 1072"
  by (simp_all add: ZAP_LEAF_CHUNK_def ZAP_LEAF_HASH_NUMENTRIES_BS_def ZAP_LEAF_HASH_SHIFT_BS_def shl_int_def l_hash_at)

lemma follow_chunk_list_chain:
  "array_chain arr i js \<Longrightarrow> js \<noteq> [] \<Longrightarrow> length js \<le> depth \<Longrightarrow>
   follow_chunk_list depth arr i = Inr (Some (concat (map (la_payload arr) js)))"
proof (induction js arbitrary: i depth)
  case (Cons j js)
  then obtain d where d: "depth = Suc d" by (cases depth) simp_all
  let ?c = "slice arr (i * CHNK_SIZE) ((i + 1) * CHNK_SIZE)"
  have c: "(i + 1) * 24 \<le> length arr" "arr ! (i * 24) = 251" and nx: "array_chain arr (u16_at arr (i * 24 + 22)) js" and ij: "i = j"
    using Cons.prems(1) by (auto simp: chunk_at_def leaf_members add.commute)
  have len: "length ?c = 24" using c(1) by (simp add: length_slice CHNK_SIZE_def)
  have t: "index ?c 0 = Inr 251" using c len by (simp add: index_def slice_def CHNK_SIZE_def)
  have n: "unpack_le 2 (drop (length ?c - 2) ?c) = Inr (u16_at arr (i * 24 + 22))"
    using c(1) by (simp add: unpack_le_def len u16_at_def) (simp add: slice_def CHNK_SIZE_def drop_take add.commute)
  have p: "slice ?c 1 22 = la_payload arr j"
    using c(1) by (simp add: la_payload_def leaf_members ij slice_def CHNK_SIZE_def drop_take min_def)
  have step: "follow_chunk_list depth arr i =
      (if u16_at arr (i * 24 + 22) = 0xffff then Inr (Some (la_payload arr j))
       else andthen (follow_chunk_list d arr (u16_at arr (i * 24 + 22))) (\<lambda>r.
          case r of None \<Rightarrow> Inl Type_error | Some rest \<Rightarrow> Inr (Some (la_payload arr j @ rest))))"
    by (simp only: d follow_chunk_list.simps Let_def t n p andthen_simps simp_thms if_False)
  show ?case
  proof (cases "u16_at arr (i * 24 + 22) = 0xffff")
    case True
    then have "js = []" using nx by (cases js) simp_all
    then show ?thesis using True step by simp
  next
    case False
    then have "js \<noteq> []" using nx by (cases js) simp_all
    then have "follow_chunk_list d arr (u16_at arr (i * 24 + 22)) = Inr (Some (concat (map (la_payload arr) js)))"
      using Cons.IH [OF nx] Cons.prems(3) d by simp
    then show ?thesis using False step by simp
  qed
qed simp

lemma slice_int_prefix: "prefix a bs \<Longrightarrow> slice_int bs 0 (int (length a)) = a"
  by (auto simp: slice_int_def Let_def prefix_def slice_def)

lemma chunk_bytes_chain:
  assumes "array_chain arr i js" and "js \<noteq> []" and "length js \<le> depth" and "prefix a (concat (map (la_payload arr) js))"
  shows "chunk_bytes depth arr i (int (length a)) = Inr a"
  using follow_chunk_list_chain [OF assms(1-3)] slice_int_prefix [OF assms(4)] by (simp add: chunk_bytes_def)

lemma collision_chain_entries:
  "ent_chain arr i es \<Longrightarrow> es \<noteq> [] \<Longrightarrow> deep_enough depth es \<Longrightarrow>
   follow_collision_chain de depth arr i d = Inr (foldl (put_ent de) d es)"
proof (induction es arbitrary: i depth d)
  case (Cons e es)
  have e: "i = le_at e" "ent_at arr e" and nx: "ent_chain arr (le_field arr i ''le_next'') es" using Cons.prems(1) by auto
  have nonempty: "le_name_at e \<noteq> []" using e(2) by (simp add: ent_at_def Let_def)
  have deep: "Suc (length es) + length (le_name_at e) \<le> depth" "Suc (length es) + length (le_val_at e) \<le> depth"
    using Cons.prems(3) by (auto simp: deep_enough_def)
  then obtain k where k: "depth = Suc k" "length (le_name_at e) \<le> k" "length (le_val_at e) \<le> k"
    by (cases depth) simp_all
  let ?p = "i * CHNK_SIZE"
  have c: "(i + 1) * 24 \<le> length arr" "arr ! (i * 24) = 252" "arr ! (i * 24 + 1) = le_intlen e"
    and f: "le_field arr i x = u16_at arr (i * 24 + member zap_leaf_entry x)" for x
    using e by (auto simp: ent_at_def Let_def chunk_at_def leaf_members le_field_def add.commute)
  have t: "index arr ?p = Inr 252" "length (slice arr (?p + 1) (?p + CHNK_SIZE)) = 23" "arr ! (?p + 1) = le_intlen e"
    using c by (simp_all add: index_def length_slice CHNK_SIZE_def)
  have fld: "le_value (slice arr (?p + m) (?p + m + 2)) = u16_at arr (i * 24 + m)" for m
    by (simp add: u16_at_def CHNK_SIZE_def)
  note E = e(2) [unfolded ent_at_def Let_def, folded e(1)]
  have name: "chunk_bytes k arr (u16_at arr (i * 24 + 4)) (int (u16_at arr (i * 24 + 6)) - 1) = Inr (le_name e)"
    using E k(2) chunk_bytes_chain [of arr "u16_at arr (i * 24 + 4)" "le_name_at e" k "le_name e"]
    by (simp add: f leaf_members)
  have val: "chunk_bytes k arr (u16_at arr (i * 24 + 8)) (int (u16_at arr (i * 24 + 10) * unat (le_intlen e))) = Inr (le_val e)"
    using E k(3) chunk_bytes_chain [of arr "u16_at arr (i * 24 + 8)" "le_val_at e" k "le_val e"]
    by (simp add: f leaf_members del: of_nat_mult)
  have step: "follow_collision_chain de depth arr i d =
      (if u16_at arr (i * 24 + 2) \<noteq> 0xffff then follow_collision_chain de k arr (u16_at arr (i * 24 + 2)) (put_ent de d e)
       else Inr (put_ent de d e))"
    by (simp only: k(1) follow_collision_chain.simps Let_def t fld name val andthen_simps put_ent_def simp_thms if_False)
  show ?case
  proof (cases "u16_at arr (i * 24 + 2) = 0xffff")
    case True
    then have "es = []" using nx by (cases es) (simp_all add: f leaf_members)
    then show ?thesis using True step by simp
  next
    case False
    then have "es \<noteq> []" using nx by (cases es) (simp_all add: f leaf_members)
    moreover have "deep_enough k es" using Cons.prems(3) by (auto simp: deep_enough_def k(1))
    ultimately show ?thesis using False step Cons.IH [OF nx, of k "put_ent de d e"] by (simp add: f leaf_members)
  qed
qed simp

lemma zap_buckets_entries:
  "list_all2 (ent_chain arr) cs ess \<Longrightarrow> \<forall>es \<in> set ess. deep_enough depth es \<Longrightarrow>
   zap_buckets de depth arr cs d = Inr (foldl (put_ent de) d (concat ess))"
proof (induction cs ess arbitrary: d rule: list_all2_induct)
  case (Cons c cs es ess)
  show ?case
  proof (cases "es = []")
    case True
    then show ?thesis using Cons by simp
  next
    case False
    then have "c \<noteq> 0xffff" using Cons.hyps(1) by (cases es) simp_all
    then show ?thesis using False Cons collision_chain_entries [OF Cons.hyps(1) False, of depth de d] by simp
  qed
qed simp

lemma parse_zap_block_holds:
  assumes "leaf_holds data ess" and "\<forall>es \<in> set ess. deep_enough depth es"
  shows "parse_zap_block de depth data d = Inr (foldl (put_ent de) d (concat ess))"
proof -
  have l: "length data = 16384" and n: "length ess = 512"
    and ch: "\<And>i. i < 512 \<Longrightarrow> ent_chain (drop 1072 data) (u16_at data (48 + 2 * i)) (ess ! i)"
    using assms(1) by (auto simp: leaf_holds_def leaf_macros l_hash_at)
  let ?cs = "map (\<lambda>i. le_value (slice data (0x30 + 2 * i) (0x30 + 2 * i + 2))) [0..<512]"
  have "list_all2 (ent_chain (drop CHNK_ARR_BEGIN data)) ?cs ess"
    unfolding list_all2_conv_all_nth using n ch by (simp add: u16_at_def CHNK_ARR_BEGIN_def)
  then show ?thesis
    using l zap_buckets_entries [of "drop CHNK_ARR_BEGIN data" ?cs ess depth de d] assms(2)
    by (simp add: parse_zap_block_def length_slice CHNK_ARR_BEGIN_def)
qed

lemma zap_blocks_leaves:
  "list_all2 leaf_holds lfs esss \<Longrightarrow> \<forall>ess \<in> set esss. \<forall>es \<in> set ess. deep_enough depth es \<Longrightarrow>
   drop (n * 16384) data = concat lfs \<Longrightarrow>
   zap_blocks de depth 16384 data [n..<n + length lfs] d = Inr (foldl (put_ent de) d (concat (concat esss)))"
proof (induction lfs esss arbitrary: n d rule: list_all2_induct)
  case (Cons lf lfs ess esss)
  have len: "length lf = 16384" using Cons.hyps(1) by (simp add: leaf_holds_def)
  have s: "slice data (n * 16384) ((n + 1) * 16384) = lf"
    using Cons.prems(2) len slice_drop [of "n * 16384" data lf "concat lfs"] by (simp add: add.commute)
  have dr: "drop ((n + 1) * 16384) data = concat lfs"
  proof -
    have "drop ((n + 1) * 16384) data = drop 16384 (drop (n * 16384) data)" by (simp add: add.commute)
    then show ?thesis unfolding Cons.prems(2) using len by simp
  qed
  have "[n..<n + length (lf # lfs)] = n # [n + 1..<n + 1 + length lfs]" by (simp add: upt_rec)
  moreover have "parse_zap_block de depth lf d = Inr (foldl (put_ent de) d (concat ess))"
    using parse_zap_block_holds [OF Cons.hyps(1)] Cons.prems(1) by simp
  moreover have "zap_blocks de depth 16384 data [n + 1..<n + 1 + length lfs] (foldl (put_ent de) d (concat ess))
      = Inr (foldl (put_ent de) (foldl (put_ent de) d (concat ess)) (concat (concat esss)))"
    using Cons.IH [OF _ dr] Cons.prems(1) by simp
  ultimately show ?case by (simp only: zap_blocks.simps s andthen_simps concat.simps concat_append foldl_append)
qed simp

lemma put_ents_other:
  "k \<notin> (\<lambda>e. safe_decode_string de (le_name e)) ` set es \<Longrightarrow> map_of (foldl (put_ent de) d es) k = map_of d k"
  by (induction es arbitrary: d) (auto simp: put_ent_def update_conv')

lemma put_ents_found:
  "distinct (map (\<lambda>e. safe_decode_string de (le_name e)) es) \<Longrightarrow> e \<in> set es \<Longrightarrow>
   map_of (foldl (put_ent de) d es) (safe_decode_string de (le_name e)) = Some (zap_value (le_val e))"
proof (induction es arbitrary: d)
  case (Cons x es)
  show ?case
  proof (cases "e = x")
    case True
    then have "safe_decode_string de (le_name e) \<notin> (\<lambda>e. safe_decode_string de (le_name e)) ` set es"
      using Cons.prems(1) by simp
    from put_ents_other [OF this, of "put_ent de d x"]
    have "map_of (foldl (put_ent de) d (x # es)) (safe_decode_string de (le_name e))
        = map_of (put_ent de d x) (safe_decode_string de (le_name e))" by simp
    also have "\<dots> = Some (zap_value (le_val e))" using True by (simp add: put_ent_def update_conv')
    finally show ?thesis .
  next
    case False
    then show ?thesis using Cons by simp
  qed
qed simp

text \<open>
  C17: reading a directory. When the header block has the type of the large form and
  each of the leaf blocks of 16K behind it holds entries in the structures of \<open>sys/zap_leaf.h\<close>, where the
  macros place them, the scripts find exactly these entries, with the names decoded, the values of
  eight bytes as big-endian numbers and the others as bytes; with different names every entry is
  found under its name. The interpreter needs as many nested calls as a bucket has entries and
  an array chunks.
\<close>

theorem fat_zap_reads:
  assumes "data = header @ concat lfs" and "length header = 2 ^ 14" and "le_value (slice header 0 8) = unat ZBT_HEADER"
    and "list_all2 leaf_holds lfs esss" and "\<forall>ess \<in> set esss. \<forall>es \<in> set ess. deep_enough depth es"
  shows "\<exists>z. choose_zap_factory de depth data (2 ^ 14) = Inr (Some z)
    \<and> z = foldl (put_ent de) [] (concat (concat esss))
    \<and> (distinct (map (\<lambda>e. safe_decode_string de (le_name e)) (concat (concat esss))) \<longrightarrow>
        (\<forall>e \<in> set (concat (concat esss)). map_of z (safe_decode_string de (le_name e)) = Some (zap_value (le_val e))))"
proof -
  have "\<forall>x \<in> set lfs. length x = 16384"
    using assms(4) by (auto simp: leaf_holds_def list_all2_conv_all_nth in_set_conv_nth)
  then have "length (concat lfs) = length lfs * 16384" by (induction lfs) auto
  then have n: "length data div 16384 = 1 + length lfs" using assms(1,2) by simp
  have d: "drop (1 * 16384) data = concat lfs" using assms(1,2) by simp
  have fat: "FatZap_parse de depth 16384 data = Inr (foldl (put_ent de) [] (concat (concat esss)))"
  proof -
    have "length (slice data 0 (11 * 8)) = 11 * 8" using assms(1,2) by (simp add: length_slice)
    then show ?thesis
      using zap_blocks_leaves [OF assms(4,5) d, of de "[]"] unfolding FatZap_parse_def n by simp
  qed
  have "le_value (slice data 0 8) = 2 ^ 63 + 1"
    using assms(1-3) by (simp add: slice_def ZBT_HEADER_def)
  then have "choose_zap_factory de depth data 16384 = Inr (Some (foldl (put_ent de) [] (concat (concat esss))))"
    using fat assms(1,2) by (simp add: choose_zap_factory_def)
  then have c: "choose_zap_factory de depth data (2 ^ 14) = Inr (Some (foldl (put_ent de) [] (concat (concat esss))))" by simp
  show ?thesis by (rule exI, rule conjI, rule c, rule conjI, rule refl, intro impI ballI, rule put_ents_found)
qed

definition demo_leaf :: bytes where
  "demo_leaf = replicate 48 0 @ [0, 0] @ replicate 1022 255
     @ ([252, 8, 255, 255, 1, 0, 4, 0, 2, 0, 1, 0, 0, 0, 0, 0, 0, 0, 0, 0, 0, 0, 0, 0]
     @ [251, 97, 98, 99, 0, 0, 0, 0, 0, 0, 0, 0, 0, 0, 0, 0, 0, 0, 0, 0, 0, 0, 255, 255]
     @ [251, 0, 0, 0, 0, 0, 0, 0, 5, 0, 0, 0, 0, 0, 0, 0, 0, 0, 0, 0, 0, 0, 255, 255]) @ replicate 15240 0"

definition demo_ent :: leaf_ent where
  "demo_ent = \<lparr>le_at = 0, le_name_at = [1], le_val_at = [2], le_name = [97, 98, 99], le_intlen = 8,
     le_val = [0, 0, 0, 0, 0, 0, 0, 5]\<rparr>"

lemma demo_leaf_holds: "leaf_holds demo_leaf ([demo_ent] # replicate 511 [])"
proof -
  have l: "length demo_leaf = 2 ^ 14" by (simp add: demo_leaf_def)
  have arr: "drop 1072 demo_leaf = [252, 8, 255, 255, 1, 0, 4, 0, 2, 0, 1, 0, 0, 0, 0, 0, 0, 0, 0, 0, 0, 0, 0, 0]
     @ [251, 97, 98, 99, 0, 0, 0, 0, 0, 0, 0, 0, 0, 0, 0, 0, 0, 0, 0, 0, 0, 0, 255, 255]
     @ [251, 0, 0, 0, 0, 0, 0, 0, 5, 0, 0, 0, 0, 0, 0, 0, 0, 0, 0, 0, 0, 0, 255, 255] @ replicate 15240 0"
    by (simp add: demo_leaf_def)
  have c0: "u16_at demo_leaf 48 = 0" by (simp add: demo_leaf_def u16_at_def slice_def)
  have e: "ent_chain (drop 1072 demo_leaf) 0 [demo_ent]"
    unfolding arr
    by (simp add: ent_at_def chunk_at_def le_field_def leaf_members u16_at_def slice_def demo_ent_def la_payload_def Let_def)
  have rest: "u16_at demo_leaf (48 + 2 * i) = 0xffff" if "0 < i" "i < 512" for i
  proof -
    obtain j where j: "i = Suc j" "j \<le> 510" using \<open>0 < i\<close> \<open>i < 512\<close> by (cases i) simp_all
    have "drop 50 demo_leaf = replicate 1022 255 @ drop 1072 demo_leaf" by (simp add: demo_leaf_def)
    then have "drop (48 + 2 * i) demo_leaf = drop (2 * j) (replicate 1022 255 @ drop 1072 demo_leaf)"
      using drop_drop [of "2 * j" 50 demo_leaf] by (simp add: j add.commute)
    also have "\<dots> = replicate (1022 - 2 * j) 255 @ drop 1072 demo_leaf" using j(2) by simp
    also have "replicate (1022 - 2 * j) (255 :: u8) = [255, 255] @ replicate (1020 - 2 * j) 255"
    proof -
      have "1022 - 2 * j = Suc (Suc (1020 - 2 * j))" using j(2) by simp
      then show ?thesis by simp
    qed
    finally show ?thesis by (simp add: u16_at_def slice_def)
  qed
  have "ent_chain (drop 1072 demo_leaf) (u16_at demo_leaf (48 + 2 * i)) (([demo_ent] # replicate 511 []) ! i)"
    if "i < 512" for i
    using that e c0 rest [of i] by (cases i) simp_all
  then show ?thesis using l by (simp add: leaf_holds_def leaf_macros l_hash_at)
qed

theorem fat_zap_reads_witness:
  "\<exists>z. choose_zap_factory \<lparr>utf8 = (\<lambda>bs. Some (map unat bs)), cp1251 = (\<lambda>bs. None)\<rparr> 1000
       ([1, 0, 0, 0, 0, 0, 0, 128] @ replicate 16376 0 @ demo_leaf) (2 ^ 14) = Inr (Some z)
    \<and> map_of z [97, 98, 99] = Some (ZV_num 5)"
proof -
  let ?de = "\<lparr>utf8 = (\<lambda>bs. Some (map unat bs)), cp1251 = (\<lambda>bs. None)\<rparr>"
  let ?esss = "[[demo_ent] # replicate 511 []]"
  have all: "concat (concat ?esss) = [demo_ent]" by simp
  have deep: "\<forall>ess \<in> set ?esss. \<forall>es \<in> set ess. deep_enough 1000 es" by (auto simp: deep_enough_def demo_ent_def)
  have "\<exists>z. choose_zap_factory ?de 1000 ([1, 0, 0, 0, 0, 0, 0, 128] @ replicate 16376 0 @ demo_leaf) (2 ^ 14) = Inr (Some z)
    \<and> z = foldl (put_ent ?de) [] (concat (concat ?esss))
    \<and> (distinct (map (\<lambda>e. safe_decode_string ?de (le_name e)) (concat (concat ?esss))) \<longrightarrow>
        (\<forall>e \<in> set (concat (concat ?esss)). map_of z (safe_decode_string ?de (le_name e)) = Some (zap_value (le_val e))))"
    by (rule fat_zap_reads [where header = "[1, 0, 0, 0, 0, 0, 0, 128] @ replicate 16376 0" and lfs = "[demo_leaf]", OF _ _ _ _ deep])
      (simp_all add: demo_leaf_holds slice_def ZBT_HEADER_def)
  then show ?thesis unfolding all by (auto simp: demo_ent_def safe_decode_string_def zap_value_def be_value_def)
qed

end
