(* ===== verification/Py_Micro.thy ===== *)
theory Py_Micro
  imports Py_Zap
begin

text \<open>
  The microzap of \<open>src/zfs/zap.py\<close> against its layout \<open>mzap_ent_phys_t\<close>
  (\<open>src/extractor/include/sys/zap_impl.h\<close>): what the scripts read from a directory of one block.
\<close>

section \<open>A directory of one block\<close>

record mz_ent =
  me_name :: bytes
  me_value :: nat
  me_cd :: nat

text \<open>An entry as \<open>mzap_ent_phys_t\<close> lays it out; a free one has no name.\<close>

definition mz_bytes :: "mz_ent \<Rightarrow> bytes" where
  "mz_bytes e = le_bytes 8 (me_value e) @ le_bytes 4 (me_cd e) @ [0, 0] @ me_name e @ replicate (50 - length (me_name e)) 0"

definition mz_ok :: "mz_ent \<Rightarrow> bool" where
  "mz_ok e \<longleftrightarrow> me_value e < 2 ^ 64 \<and> me_cd e < 2 ^ 32 \<and> length (me_name e) < 50 \<and> 0 \<notin> set (me_name e)"

definition put_mz :: "decoders \<Rightarrow> zap \<Rightarrow> mz_ent \<Rightarrow> zap" where
  "put_mz de z e = (if me_name e = [] then z else AList.update (safe_decode_string de (me_name e)) (ZV_num (me_value e)) z)"

lemma rstrip0_name: "0 \<notin> set nm \<Longrightarrow> rstrip0 (nm @ replicate n 0) = nm"
proof -
  assume nm: "0 \<notin> set nm"
  have "dropWhile (\<lambda>b. b = 0) (replicate n 0 @ xs) = dropWhile (\<lambda>b. b = 0) xs" for xs :: bytes
    by (induction n) simp_all
  moreover have "dropWhile (\<lambda>b. b = 0) (rev nm) = rev nm"
  proof (cases "rev nm")
    case (Cons b bs)
    then have "b \<in> set nm" using set_rev [of nm] by simp
    then show ?thesis using nm Cons by auto
  qed simp
  ultimately show ?thesis by (simp add: rstrip0_def)
qed

lemma slice_split: "length xs = a \<Longrightarrow> b = a + length ys \<Longrightarrow> slice (xs @ ys @ zs) a b = ys"
  by (simp add: slice_def)

lemma mz_fields:
  assumes "mz_ok e"
  shows "length (mz_bytes e) = 64" and "slice (mz_bytes e) 0 8 = le_bytes 8 (me_value e)"
    and "slice (mz_bytes e) 8 12 = le_bytes 4 (me_cd e)"
    and "slice (mz_bytes e) 14 64 = me_name e @ replicate (50 - length (me_name e)) 0"
proof -
  have len: "length (me_name e @ replicate (50 - length (me_name e)) (0 :: u8)) = 50" using assms by (simp add: mz_ok_def)
  show "length (mz_bytes e) = 64" unfolding mz_bytes_def length_append using len by simp
  show "slice (mz_bytes e) 0 8 = le_bytes 8 (me_value e)"
    unfolding mz_bytes_def using slice_split [of "[]" 0 8 "le_bytes 8 (me_value e)"] by simp
  show "slice (mz_bytes e) 8 12 = le_bytes 4 (me_cd e)"
    unfolding mz_bytes_def by (rule slice_split) simp_all
  show "slice (mz_bytes e) 14 64 = me_name e @ replicate (50 - length (me_name e)) 0"
    unfolding mz_bytes_def using len
    by (simp only: append_assoc [symmetric] slice_def length_append length_le_bytes) simp
qed

lemma mz_entry_bytes:
  assumes "mz_ok e"
  shows "mz_entry de (mz_bytes e) = Inr (safe_decode_string de (me_name e), me_value e, me_cd e)"
proof -
  have "me_value e < 256 ^ 8" "me_cd e < 256 ^ 4" "0 \<notin> set (me_name e)" using assms by (simp_all add: mz_ok_def)
  then show ?thesis
    unfolding mz_entry_def mz_fields [OF assms] by (simp add: length_slice mz_fields(1) [OF assms] rstrip0_name le_value_bytes)
qed

lemma mz_entries_put:
  assumes "\<forall>bs. safe_decode_string de bs = [] \<longleftrightarrow> bs = []"
  shows "\<forall>e \<in> set es. mz_ok e \<Longrightarrow> drop ptr data = concat (map mz_bytes es) \<Longrightarrow>
    mz_entries de data ptr (length es) d = Inr (foldl (put_mz de) d es)"
proof (induction es arbitrary: ptr d)
  case (Cons e es)
  have l: "length (mz_bytes e) = 64" using Cons.prems(1) by (simp add: mz_bytes_def mz_ok_def)
  have s: "slice data ptr (ptr + 64) = mz_bytes e"
    using Cons.prems(2) slice_drop [of ptr data "mz_bytes e" "concat (map mz_bytes es)"] by (simp add: l)
  have d: "drop (ptr + 64) data = concat (map mz_bytes es)"
  proof -
    have "drop (ptr + 64) data = drop 64 (drop ptr data)" by (simp add: add.commute)
    then show ?thesis unfolding Cons.prems(2) by (simp add: l)
  qed
  have "mz_entry de (mz_bytes e) = Inr (safe_decode_string de (me_name e), me_value e, me_cd e)"
    using Cons.prems(1) by (intro mz_entry_bytes) simp
  then show ?case using Cons.IH [OF _ d] Cons.prems(1) assms by (simp add: s put_mz_def)
qed simp

text \<open>
  A directory of one block gives its entries. From a block with the type of the small
  form and at least one slot, each slot laid out as \<open>mzap_ent_phys_t\<close>, the scripts get the value
  of every slot that has a name, under the decoded name.
\<close>

lemma micro_zap_reads:
  assumes "data = header @ concat (map mz_bytes es)" and "length header = 64"
    and "le_value (slice header 0 8) = unat ZBT_MICRO" and "es \<noteq> []" and "\<forall>e \<in> set es. mz_ok e"
    and "\<forall>bs. safe_decode_string de bs = [] \<longleftrightarrow> bs = []"
  shows "choose_zap_factory de depth data dbsize = Inr (Some (foldl (put_mz de) [] es))"
proof -
  have "length (concat (map mz_bytes es)) = 64 * length es"
    using assms(5) by (induction es) (auto simp: mz_bytes_def mz_ok_def)
  then have l: "length data = 64 + 64 * length es" using assms(1,2) by simp
  have big: "128 \<le> length data" using l assms(4) by (cases es) simp_all
  have t: "le_value (slice data 0 8) = 2 ^ 63 + 3" using assms(1-3) by (simp add: slice_def ZBT_MICRO_def)
  have "length (slice data 0 16) = 8 * 2" using big by (simp add: length_slice)
  then have "\<exists>x. unpack_words 2 (slice data 0 16) = Inr [2 ^ 63 + 3, x]"
    using t by (simp add: unpack_words_def upt_rec slice_slice)
  moreover have "mz_entries de data 64 ((length data - 64) div 64) [] = Inr (foldl (put_mz de) [] es)"
    using mz_entries_put [OF assms(6,5), of 64 data "[]"] assms(1,2) l by simp
  ultimately have "MicroZap_parse de data = Inr (foldl (put_mz de) [] es)"
    using big by (auto simp: MicroZap_parse_def)
  then show ?thesis using big t by (simp add: choose_zap_factory_def)
qed

lemma micro_zap_one:
  "choose_zap_factory \<lparr>utf8 = (\<lambda>bs. Some (map unat bs)), cp1251 = (\<lambda>bs. None)\<rparr> 1000
     (([3, 0, 0, 0, 0, 0, 0, 128] @ replicate 56 0) @ concat (map mz_bytes [\<lparr>me_name = [97], me_value = 7, me_cd = 0\<rparr>])) 512
   = Inr (Some [([97], ZV_num 7)])"
  using micro_zap_reads [of _ "[3, 0, 0, 0, 0, 0, 0, 128] @ replicate 56 0" "[\<lparr>me_name = [97], me_value = 7, me_cd = 0\<rparr>]"
      "\<lparr>utf8 = (\<lambda>bs. Some (map unat bs)), cp1251 = (\<lambda>bs. None)\<rparr>" 1000 512, OF refl]
  by (simp add: slice_def ZBT_MICRO_def mz_ok_def safe_decode_string_def put_mz_def)

end
