(* ===== verification/Py_Dataset.thy ===== *)
theory Py_Dataset
  imports Py_File Py_Micro Znode "HOL-Library.List_Lexorder"
begin

text \<open>
  Datasets in the rescue scripts: the tables of system attributes (\<open>SystemAttr\<close> of
  \<open>src/zfs/sa.py\<close>) and the parts of \<open>Dataset\<close> in \<open>src/zfs/dataset.py\<close> that open a dataset, split
  a directory entry and write a file. \<open>lower\<close> stands for \<open>str.lower\<close> on the names of
  attributes; \<open>zdepth\<close> is the number of calls left for the chains inside a directory. An object
  that raises is not used again, so its caches are lost. Printing is left out.
\<close>

type_synonym layouts = "nat \<Rightarrow> (nat \<times> string) list option"

section \<open>Objects of a set\<close>

text \<open>\<open>ObjectSet.__init__\<close>: the set and its highest object number. The dnode of the set comes from
  \<open>from_bptr\<close>, and no attribute tables are there yet.\<close>

definition ObjectSet :: "reader \<Rightarrow> py_bp \<Rightarrow> nat list \<Rightarrow> (objectset \<times> int) io" where
  "ObjectSet rb bp dvas =
     io_bind (from_bptr rb None bp dvas) (\<lambda>dn.
     case dn of
       None \<Rightarrow> Some (Inr (\<lparr>os_datablksize = 0, os_blocktree = \<lparr>bt_levels = 0, bt_root = Root_array [], bt_blocks_per_level = 0,
           bt_cache = CTree []\<rparr>, os_block_cache = Map.empty, os_broken = True\<rparr>, 0))
     | Some d \<Rightarrow>
         (case pn_datablksize d of None \<Rightarrow> Some (Inl Type_error)
          | Some bs \<Rightarrow>
              io_bind (Some (index (the (pn_blkptr d)) 0)) (\<lambda>bp0.
              io_bind (BlockTree rb (pn_nlevels d) bp0) (\<lambda>bt.
              Some (Inr (\<lparr>os_datablksize = bs, os_blocktree = bt, os_block_cache = Map.empty, os_broken = False\<rparr>,
                (int (pn_maxblkid d) + 1) * int (bs div 512) - 1))))))"

text \<open>\<open>self[v]\<close>.\<close>

definition ds_getitem :: "layouts option \<Rightarrow> reader \<Rightarrow> objectset \<Rightarrow> nat \<Rightarrow> (py_dnode option \<times> objectset) io" where
  "ds_getitem lay rb os v =
     io_bind (get_dnode rb os v) (\<lambda>(data, os').
     case data of None \<Rightarrow> Some (Inr (None, os'))
     | Some d \<Rightarrow> io_bind (Some (DNode_parse lay d)) (\<lambda>dn. Some (Inr (Some dn, os'))))"

text \<open>The same with what a directory gave for a name, which need not be a number.\<close>

definition ds_lookup :: "layouts option \<Rightarrow> reader \<Rightarrow> objectset \<Rightarrow> zap_val option \<Rightarrow> (py_dnode option \<times> objectset) io" where
  "ds_lookup lay rb os v =
     (case v of Some (ZV_num n) \<Rightarrow> ds_getitem lay rb os n
      | _ \<Rightarrow> if os_broken os then Some (Inr (None, os)) else Some (Inl Type_error))"

definition zap_of :: "decoders \<Rightarrow> nat \<Rightarrow> reader \<Rightarrow> py_dnode option \<Rightarrow> zap option io" where
  "zap_of de zdepth rb d = (case d of None \<Rightarrow> Some (Inl Attribute_error) | Some dn \<Rightarrow> zap_factory de zdepth rb dn)"

definition code_points :: "string \<Rightarrow> name" where
  "code_points s = map of_char s"

section \<open>The tables of system attributes\<close>

text \<open>The registry: an attribute's number, its length and its name.\<close>

fun sa_registry :: "(name \<Rightarrow> string) \<Rightarrow> zap \<Rightarrow> (nat \<rightharpoonup> nat \<times> string) \<Rightarrow> (nat \<rightharpoonup> nat \<times> string) py" where
  "sa_registry lower [] reg = Inr reg"
| "sa_registry lower ((k, ZV_num v) # z) reg =
     sa_registry lower z (reg(v mod 2 ^ 16 \<mapsto> (v div 2 ^ 24 mod 2 ^ 16, lower k)))"
| "sa_registry lower ((k, ZV_bytes b) # z) reg = Inl Type_error"

text \<open>One layout: big-endian attribute numbers, \<open>is\<close> the indices left.\<close>

fun sa_layout :: "(nat \<rightharpoonup> nat \<times> string) \<Rightarrow> bytes \<Rightarrow> nat list \<Rightarrow> (nat \<times> string) list py" where
  "sa_layout reg b [] = Inr []"
| "sa_layout reg b (i # is) =
     (case reg (be_value (slice b (i * 2) ((i + 1) * 2))) of
        None \<Rightarrow> Inl Key_error
      | Some f \<Rightarrow> andthen (sa_layout reg b is) (\<lambda>fs. Inr (f # fs)))"

fun sa_layouts :: "(nat \<rightharpoonup> nat \<times> string) \<Rightarrow> zap \<Rightarrow> (name \<times> (nat \<times> string) list) list py" where
  "sa_layouts reg [] = Inr []"
| "sa_layouts reg ((k, ZV_num v) # z) = Inl Type_error"
| "sa_layouts reg ((k, ZV_bytes b) # z) =
     andthen (sa_layout reg b [0..<length b div 2]) (\<lambda>fs. andthen (sa_layouts reg z) (\<lambda>ls. Inr ((k, fs) # ls)))"

text \<open>\<open>str(n)\<close>.\<close>

fun decimal :: "nat \<Rightarrow> name" where
  "decimal n = (if n < 10 then [48 + n] else decimal (n div 10) @ [48 + n mod 10])"

declare decimal.simps [simp del]

definition SystemAttr ::
    "(name \<Rightarrow> string) \<Rightarrow> decoders \<Rightarrow> nat \<Rightarrow> reader \<Rightarrow> objectset \<Rightarrow> zap_val option \<Rightarrow> (layouts \<times> objectset) io" where
  "SystemAttr lower de zdepth rb os idx =
     io_bind (ds_lookup None rb os idx) (\<lambda>(attrs, os).
     io_bind (zap_of de zdepth rb attrs) (\<lambda>z.
     case z of None \<Rightarrow> Some (Inl Type_error)
     | Some z \<Rightarrow>
         io_bind (ds_lookup None rb os (map_of z (code_points ''REGISTRY''))) (\<lambda>(registry, os).
         io_bind (ds_lookup None rb os (map_of z (code_points ''LAYOUTS''))) (\<lambda>(layout, os).
         io_bind (zap_of de zdepth rb registry) (\<lambda>r_zap.
         io_bind (zap_of de zdepth rb layout) (\<lambda>l_zap.
         case r_zap of None \<Rightarrow> Some (Inl Attribute_error)
         | Some rz \<Rightarrow>
             io_bind (Some (sa_registry lower rz Map.empty)) (\<lambda>reg.
             case l_zap of None \<Rightarrow> Some (Inl Attribute_error)
             | Some lz \<Rightarrow> io_bind (Some (sa_layouts reg lz)) (\<lambda>ls.
                 Some (Inr (\<lambda>k. map_of ls (decimal k), os))))))))))"

section \<open>Opening a dataset\<close>

text \<open>The loop that shows the first objects: each lookup is in a \<open>try\<close>.\<close>

fun first_dnodes :: "layouts option \<Rightarrow> reader \<Rightarrow> objectset \<Rightarrow> nat list \<Rightarrow> objectset io" where
  "first_dnodes lay rb os [] = Some (Inr os)"
| "first_dnodes lay rb os (n # ns) =
     (case ds_getitem lay rb os n of
        None \<Rightarrow> None
      | Some (Inl e) \<Rightarrow> first_dnodes lay rb os ns
      | Some (Inr (d, os')) \<Rightarrow> first_dnodes lay rb os' ns)"

text \<open>\<open>analyse\<close>: the number of the root directory, the attribute layouts where they could be read, and
  the set.\<close>

definition analyse ::
    "(name \<Rightarrow> string) \<Rightarrow> decoders \<Rightarrow> nat \<Rightarrow> reader \<Rightarrow> objectset \<Rightarrow> (nat option \<times> layouts option \<times> objectset) io" where
  "analyse lower de zdepth rb os =
     (if os_broken os then Some (Inr (None, None, os))
      else
      io_bind (ds_getitem None rb os 1) (\<lambda>(master, os).
      case master of None \<Rightarrow> Some (Inr (None, None, os))
      | Some m \<Rightarrow>
          if pn_type m \<noteq> Some 21 then Some (Inr (None, None, os))
          else
          io_bind (zap_factory de zdepth rb m) (\<lambda>z.
          case z of None \<Rightarrow> Some (Inr (None, None, os))
          | Some z \<Rightarrow>
              io_bind (case SystemAttr lower de zdepth rb os (map_of z (code_points ''SA_ATTRS'')) of
                  None \<Rightarrow> None
                | Some (Inl e) \<Rightarrow> Some (Inr (None, os))
                | Some (Inr (lay, os')) \<Rightarrow> Some (Inr (Some lay, os'))) (\<lambda>(lay, os).
              case map_of z (code_points ''ROOT'') of
                None \<Rightarrow> Some (Inr (None, lay, os))
              | Some (ZV_bytes b) \<Rightarrow> Some (Inl Type_error)
              | Some (ZV_num root) \<Rightarrow>
                  io_bind (ds_getitem lay rb os root) (\<lambda>(rootdir, os).
                  case rootdir of None \<Rightarrow> Some (Inr (Some root, lay, os))
                  | Some d \<Rightarrow> io_bind (first_dnodes lay rb os [1..<32]) (\<lambda>os. Some (Inr (Some root, lay, os))))))))"

section \<open>Attributes of a file\<close>

text \<open>A system attribute is set twice, under its name and with \<open>zpl_\<close> replaced by \<open>zp_\<close>.\<close>

fun zpl_zp :: "string \<Rightarrow> string" where
  "zpl_zp [] = []"
| "zpl_zp (c # cs) = (if take 4 (c # cs) = ''zpl_'' then ''zp_'' @ zpl_zp (drop 3 cs) else c # zpl_zp cs)"

definition sa_attr :: "py_sa \<Rightarrow> string \<Rightarrow> sa_val py" where
  "sa_attr s a =
     (case filter (\<lambda>(n, v). n = a \<or> zpl_zp n = a) (rev (ps_attrs s)) of
        [] \<Rightarrow> Inl Attribute_error | (n, v) # _ \<Rightarrow> Inr v)"

definition bonus_size :: "bonus option \<Rightarrow> sa_val py" where
  "bonus_size b =
     (case b of Some (Bonus_znode z) \<Rightarrow> Inr (SA_num (bz_size z))
      | Some (Bonus_sa s) \<Rightarrow> sa_attr s ''zpl_size''
      | _ \<Rightarrow> Inl Attribute_error)"

definition bonus_zp_size :: "bonus option \<Rightarrow> sa_val py" where
  "bonus_zp_size b =
     (case b of Some (Bonus_znode z) \<Rightarrow> Inr (SA_num (bz_size z))
      | Some (Bonus_sa s) \<Rightarrow> sa_attr s ''zp_size''
      | _ \<Rightarrow> Inl Attribute_error)"

definition bonus_zp_mode :: "bonus option \<Rightarrow> sa_val py" where
  "bonus_zp_mode b =
     (case b of Some (Bonus_znode z) \<Rightarrow> Inr (SA_num (bz_mode z))
      | Some (Bonus_sa s) \<Rightarrow> sa_attr s ''zp_mode''
      | _ \<Rightarrow> Inl Attribute_error)"

definition bonus_inline :: "bonus option \<Rightarrow> bytes py" where
  "bonus_inline b =
     (case b of Some (Bonus_znode z) \<Rightarrow> Inr (bz_inline_content z)
      | Some (Bonus_sa s) \<Rightarrow> (case ps_inline s of None \<Rightarrow> Inl Attribute_error | Some d \<Rightarrow> Inr d)
      | _ \<Rightarrow> Inl Attribute_error)"

text \<open>Comparing a size with a number: the other values raise.\<close>

definition sa_number :: "sa_val \<Rightarrow> nat py" where
  "sa_number v = (case v of SA_num n \<Rightarrow> Inr n | _ \<Rightarrow> Inl Type_error)"

definition bonus_bytes :: "bonus option \<Rightarrow> nat py" where
  "bonus_bytes b = andthen (bonus_size b) sa_number"

section \<open>Writing a file\<close>

text \<open>The loop over the blocks: what was written and whether a block was bad.\<close>

fun extract_blocks :: "reader \<Rightarrow> nat \<Rightarrow> blocktree \<Rightarrow> nat list \<Rightarrow> bytes \<Rightarrow> bool \<Rightarrow> (bytes \<times> bool) io" where
  "extract_blocks rb bsize bt [] out corrupted = Some (Inr (out, corrupted))"
| "extract_blocks rb bsize bt (n # ns) out corrupted =
     io_bind (bt_getitem rb bt (int n)) (\<lambda>(bp, bt').
     io_bind (case bp of None \<Rightarrow> Some (Inr None) | Some b \<Rightarrow> io_bind (rb b 0) (\<lambda>(data, c). Some (Inr data))) (\<lambda>data.
     case data of
       None \<Rightarrow> extract_blocks rb bsize bt' ns (out @ replicate bsize 0) True
     | Some d \<Rightarrow> extract_blocks rb bsize bt' ns (out @ d) corrupted))"

definition first_blkptr :: "py_dnode \<Rightarrow> py_bp py" where
  "first_blkptr dn = (case pn_blkptr dn of None \<Rightarrow> Inl Type_error | Some bps \<Rightarrow> index bps 0)"

text \<open>\<open>extract_file\<close> after the lookup of the dnode: the content of the target and the result.\<close>

definition extract_dnode :: "reader \<Rightarrow> py_dnode \<Rightarrow> (bytes \<times> bool) io" where
  "extract_dnode rb dn =
     io_bind (Some (first_blkptr dn)) (\<lambda>bp0.
     io_bind (Some (if bp_empty bp0 then andthen (bonus_bytes (pn_bonus dn)) (\<lambda>n. Inr (0 < n)) else Inr False)) (\<lambda>lost.
     if lost then Some (Inr ([], False))
     else
     io_bind (BlockTree rb (pn_nlevels dn) bp0) (\<lambda>bt.
     io_bind (Some (bonus_bytes (pn_bonus dn))) (\<lambda>size.
     io_bind (if 0 < size then extract_blocks rb (the (pn_datablksize dn)) bt [0..<pn_maxblkid dn + 1] [] False
              else Some (Inr ([], False))) (\<lambda>(out, corrupted).
     Some (Inr (take (min (length out) size) out, \<not> corrupted)))))))"

definition extract_file :: "layouts option \<Rightarrow> reader \<Rightarrow> objectset \<Rightarrow> nat \<Rightarrow> ((bytes \<times> bool) \<times> objectset) io" where
  "extract_file lay rb os v =
     io_bind (ds_getitem lay rb os v) (\<lambda>(d, os).
     case d of None \<Rightarrow> Some (Inl Attribute_error)
     | Some dn \<Rightarrow> io_bind (extract_dnode rb dn) (\<lambda>r. Some (Inr (r, os))))"

section \<open>Directory entries\<close>

definition TYPECODES :: string where
  "TYPECODES = ''-pc-d-b-f-l-soe-''"

text \<open>\<open>k\<close> and \<open>v\<close> of an entry: the letter of its type and the object.\<close>

definition dirent :: "zap_val option \<Rightarrow> (char \<times> nat) py" where
  "dirent value =
     (case value of
        Some (ZV_num w) \<Rightarrow> andthen (index TYPECODES (w div 2 ^ 60)) (\<lambda>k. Inr (k, w - w div 2 ^ 60 mod 16 * 2 ^ 60))
      | _ \<Rightarrow> Inl Type_error)"

record zfsnode =
  zn_dnode :: "py_dnode option"
  zn_stattype :: char
  zn_mode :: sa_val
  zn_datasetid :: nat
  zn_size :: sa_val
  zn_name :: name
  zn_inode :: nat
  zn_abspath :: name

text \<open>The size and the mode are read in one \<open>try\<close>: without a size both stay 0, without a mode only the
  mode does. The line printed before evaluates \<open>str(entry_dnode)\<close>; for a dnode that was parsed this raises
  nothing: an invalid or free one has a fixed text, the names of types, checksums and compressions fall
  back to numbers where a table ends, and the formats of the bonus buffers have as many places as
  values. So only its test for \<^const>\<open>None\<close> is in the model (\<open>Attribute_error\<close>); an output that cannot
  encode a name is not.\<close>

definition size_mode :: "bonus option \<Rightarrow> sa_val \<times> sa_val" where
  "size_mode b =
     (case bonus_zp_size b of Inl _ \<Rightarrow> (SA_num 0, SA_num 0)
      | Inr sz \<Rightarrow> (case bonus_zp_mode b of Inl _ \<Rightarrow> (sz, SA_num 0) | Inr m \<Rightarrow> (sz, m)))"

fun readdir_entries ::
    "layouts option \<Rightarrow> reader \<Rightarrow> objectset \<Rightarrow> zap \<Rightarrow> nat \<Rightarrow> name \<Rightarrow> name list \<Rightarrow> zfsnode list \<Rightarrow> (zfsnode list \<times> objectset) io" where
  "readdir_entries lay rb os z inoderoot relpath [] r = Some (Inr (r, os))"
| "readdir_entries lay rb os z inoderoot relpath (nm # nms) r =
     io_bind (Some (dirent (map_of z nm))) (\<lambda>(k, v).
     io_bind (ds_getitem lay rb os v) (\<lambda>(d, os).
     case d of None \<Rightarrow> Some (Inl Attribute_error)
     | Some dn \<Rightarrow>
         let (size, mode) = size_mode (pn_bonus dn) in
         readdir_entries lay rb os z inoderoot relpath nms
           (r @ [\<lparr>zn_dnode = Some dn, zn_stattype = k, zn_mode = mode, zn_datasetid = v, zn_size = size, zn_name = nm,
                  zn_inode = inoderoot + v, zn_abspath = relpath @ code_points ''/'' @ nm\<rparr>])))"

text \<open>\<open>readdir\<close>: \<^const>\<open>None\<close> without the directory's dnode, and an empty list when its content cannot be
  read for any reason.\<close>

definition readdir ::
    "layouts option \<Rightarrow> decoders \<Rightarrow> nat \<Rightarrow> reader \<Rightarrow> objectset \<Rightarrow> nat \<Rightarrow> nat \<Rightarrow> name \<Rightarrow> (zfsnode list option \<times> objectset) io" where
  "readdir lay de zdepth rb os dir_id inoderoot relpath =
     io_bind (ds_getitem lay rb os dir_id) (\<lambda>(d, os).
     case d of None \<Rightarrow> Some (Inr (None, os))
     | Some dn \<Rightarrow>
         (case zap_factory de zdepth rb dn of
            None \<Rightarrow> None
          | Some (Inr (Some z)) \<Rightarrow>
              io_bind (readdir_entries lay rb os z inoderoot relpath (sort (map fst z)) []) (\<lambda>(r, os). Some (Inr (Some r, os)))
          | Some _ \<Rightarrow> Some (Inr (Some [], os))))"

section \<open>The tables of the C macros\<close>

lemma decimal_value: "foldl (\<lambda>v d. 10 * v + (d - 48)) 0 (decimal n) = n"
proof (induction n rule: decimal.induct)
  case (1 n)
  then show ?case by (subst decimal.simps) (auto simp: div_mult_mod_eq)
qed

lemma decimal_inj [simp]: "decimal m = decimal n \<longleftrightarrow> m = n"
  by (metis decimal_value)

text \<open>What the macros read from the words of the registry.\<close>

definition attr_fields :: "(name \<Rightarrow> string) \<Rightarrow> (name \<times> u64) list \<Rightarrow> (nat \<times> nat \<times> string) list" where
  "attr_fields lower regs = map (\<lambda>(k, w). (unat (ATTR_NUM w), unat (ATTR_LENGTH w), lower k)) regs"

lemma sa_registry_fields:
  "sa_registry lower (map (\<lambda>(k, w). (k, ZV_num (unat w))) regs) m = Inr (m ++ map_of (rev (attr_fields lower regs)))"
proof (induction regs arbitrary: m)
  case (Cons r regs)
  obtain k w where r: "r = (k, w)" by (cases r)
  show ?case unfolding r attr_fields_def
    by (simp add: Cons [unfolded attr_fields_def] ATTR_NUM_def ATTR_LENGTH_def unat_BF64_GET fun_upd_def)
      (auto simp: map_add_def fun_eq_iff split: option.splits)
qed (simp add: attr_fields_def)

lemma map_of_rev_distinct: "distinct (map fst xs) \<Longrightarrow> map_of (rev xs) = map_of xs"
  by (intro map_of_inject_set [THEN iffD2]) (simp_all add: rev_map [symmetric])

definition layout_bytes :: "nat list \<Rightarrow> bytes" where
  "layout_bytes as = concat (map (be_bytes 2) as)"

lemma length_layout_bytes: "length (layout_bytes as) = 2 * length as"
  by (induction "as") (simp_all add: layout_bytes_def)

lemma layout_bytes_slice:
  "i < length as \<Longrightarrow> slice (layout_bytes as) (i * 2) ((i + 1) * 2) = be_bytes 2 (as ! i)"
proof (induction "as" arbitrary: i)
  case (Cons a "as")
  show ?case
  proof (cases i)
    case 0
    then show ?thesis by (simp add: layout_bytes_def slice_def)
  next
    case (Suc j)
    then show ?thesis using Cons by (simp add: layout_bytes_def slice_def)
  qed
qed simp

lemma sa_layout_fields:
  assumes "\<forall>i \<in> set is. i < length as" and "\<forall>a \<in> set as. a < 2 ^ 16 \<and> reg a \<noteq> None"
  shows "sa_layout reg (layout_bytes as) is = Inr (map (\<lambda>i. the (reg (as ! i))) is)"
  using assms(1)
proof (induction "is")
  case (Cons i "is")
  then have a: "as ! i < 256 ^ 2" "reg (as ! i) \<noteq> None" using assms(2) by auto
  then have "be_value (slice (layout_bytes as) (i * 2) ((i + 1) * 2)) = as ! i"
    using Cons.prems layout_bytes_slice [of i "as"] by (simp add: be_value_def be_bytes_def le_value_bytes)
  then show ?case using Cons a(2) by (auto simp del: mult_Suc)
qed simp

lemma zap_value_layout: "length as \<noteq> 4 \<Longrightarrow> zap_value (layout_bytes as) = ZV_bytes (layout_bytes as)"
  by (simp add: zap_value_def length_layout_bytes)

lemma sa_layouts_fields:
  assumes "\<forall>(n, as) \<in> set lays. length as \<noteq> 4 \<and> (\<forall>a \<in> set as. a < 2 ^ 16 \<and> reg a \<noteq> None)"
  shows "sa_layouts reg (map (\<lambda>(n, as). (decimal n, zap_value (layout_bytes as))) lays)
    = Inr (map (\<lambda>(n, as). (decimal n, map (\<lambda>a. the (reg a)) as)) lays)"
  using assms
proof (induction lays)
  case (Cons l lays)
  obtain n "as" where l: "l = (n, as)" by (cases l)
  have "sa_layout reg (layout_bytes as) [0..<length as] = Inr (map (\<lambda>a. the (reg a)) as)"
  proof -
    have "map (\<lambda>i. the (reg (as ! i))) [0..<length as] = map (\<lambda>a. the (reg a)) as"
      by (rule nth_equalityI) simp_all
    then show ?thesis using sa_layout_fields [of "[0..<length as]" "as" reg] Cons.prems by (simp add: l)
  qed
  then show ?case using Cons by (simp add: l zap_value_layout length_layout_bytes)
qed simp

lemma map_of_decimal: "distinct (map fst lays) \<Longrightarrow> (n, as) \<in> set lays \<Longrightarrow>
    map_of (map (\<lambda>(n, as). (decimal n, f as)) lays) (decimal n) = Some (f as)"
  by (induction lays) (auto simp: rev_image_eqI)

text \<open>
  C21: the tables of system attributes. From a registry whose words are read with
  \<open>ATTR_NUM\<close> and \<open>ATTR_LENGTH\<close> and from layouts of big-endian attribute numbers, the scripts find
  under every layout number the lengths and names of its attributes in order, as long as no
  layout has exactly four of them.
\<close>

theorem sa_tables_read:
  assumes "distinct (map fst (attr_fields lower regs))" and "distinct (map fst lays)"
    and "\<forall>(n, as) \<in> set lays. length as \<noteq> 4 \<and> (\<forall>a \<in> set as. a < 2 ^ 16 \<and> a \<in> fst ` set (attr_fields lower regs))"
  shows "\<exists>reg ls. sa_registry lower (map (\<lambda>(k, w). (k, ZV_num (unat w))) regs) Map.empty = Inr reg
    \<and> sa_layouts reg (map (\<lambda>(n, as). (decimal n, zap_value (layout_bytes as))) lays) = Inr ls
    \<and> (\<forall>(n, as) \<in> set lays. map_of ls (decimal n) = Some (map (\<lambda>a. the (map_of (attr_fields lower regs) a)) as))"
proof -
  let ?reg = "map_of (attr_fields lower regs)"
  have r: "sa_registry lower (map (\<lambda>(k, w). (k, ZV_num (unat w))) regs) Map.empty = Inr ?reg"
    using sa_registry_fields [of lower regs Map.empty] map_of_rev_distinct [OF assms(1)] by simp
  have "\<forall>(n, as) \<in> set lays. length as \<noteq> 4 \<and> (\<forall>a \<in> set as. a < 2 ^ 16 \<and> ?reg a \<noteq> None)"
    using assms(3) by (force simp: map_of_eq_None_iff)
  from sa_layouts_fields [OF this] r show ?thesis using map_of_decimal [OF assms(2)] by fastforce
qed

theorem sa_tables_read_witness:
  "\<exists>reg ls. sa_registry (map char_of) [(code_points ''zpl_mode'', ZV_num 0x8000005), (code_points ''zpl_size'', ZV_num 0x8000006)]
       Map.empty = Inr reg
    \<and> sa_layouts reg [(decimal 2, ZV_bytes [0, 6, 0, 5])] = Inr ls
    \<and> map_of ls (decimal 2) = Some [(8, ''zpl_size''), (8, ''zpl_mode'')]"
proof -
  let ?regs = "[(code_points ''zpl_mode'', 0x8000005), (code_points ''zpl_size'', 0x8000006 :: u64)]"
  have u: "unat (0x8000005 :: u64) = 0x8000005" "unat (0x8000006 :: u64) = 0x8000006" by simp_all
  have chars: "map char_of (code_points s) = s" for s by (simp add: code_points_def comp_def)
  have f: "attr_fields (map char_of) ?regs = [(5, 8, ''zpl_mode''), (6, 8, ''zpl_size'')]"
    by (simp add: attr_fields_def ATTR_NUM_def ATTR_LENGTH_def unat_BF64_GET u chars)
  have l: "layout_bytes [6, 5] = [0, 6, 0, 5]" by (simp add: layout_bytes_def be_bytes_def numeral_2_eq_2 byte_of_def)
  then have v: "zap_value (layout_bytes [6, 5]) = ZV_bytes [0, 6, 0, 5]" by (simp add: zap_value_def)
  show ?thesis using sa_tables_read [of "map char_of" ?regs "[(2, [6, 5])]"] unfolding f by (simp add: u v)
qed

text \<open>
  A layout of exactly four attributes is lost, and all others with it. Its eight bytes
  look like one number to the reader of directories, and the table of layouts that has it raises.
\<close>

theorem sa_four_fails:
  assumes "length as = 4" and "(k, zap_value (layout_bytes as)) \<in> set lz"
  shows "\<exists>e. sa_layouts reg lz = Inl e"
  using assms(2)
proof (induction lz)
  case (Cons e lz)
  obtain k' v where e: "e = (k', v)" by (cases e)
  have "\<exists>n. zap_value (layout_bytes as) = ZV_num n"
    using assms(1) by (simp add: zap_value_def length_layout_bytes)
  then show ?case using Cons by (cases v) (auto simp: e andthen_def split: sum.splits)
qed simp

theorem sa_four_fails_witness: "\<exists>e. sa_layouts reg [(decimal 2, zap_value (layout_bytes [1, 2, 3, 4]))] = Inl e"
  using sa_four_fails [of "[1, 2, 3, 4]" "decimal 2"] by simp

section \<open>The directory entry of the C macros\<close>

text \<open>
  C34: the type of an entry is the one \<open>ZFS_DIRENT_TYPE\<close> gives; the object is the one of
  \<open>ZFS_DIRENT_OBJ\<close> exactly when the twelve bits between the two fields are zero.
\<close>

theorem dirent_agrees:
  "\<exists>v. dirent (Some (ZV_num (unat w))) = Inr (TYPECODES ! unat (ZFS_DIRENT_TYPE w), v)
     \<and> (v = unat (ZFS_DIRENT_OBJ w) \<longleftrightarrow> unat w div 2 ^ 48 mod 2 ^ 12 = 0)"
proof -
  let ?n = "unat w"
  have b: "?n < 2 ^ 64" using unsigned_less [of w] by simp
  then have t: "?n div 2 ^ 60 < 16" by (simp add: less_mult_imp_div_less)
  have "?n - ?n div 2 ^ 60 mod 16 * 2 ^ 60 = ?n mod 2 ^ 60"
    using t by (simp add: minus_div_mult_eq_mod)
  moreover have "?n mod 2 ^ 60 = ?n div 2 ^ 48 mod 2 ^ 12 * 2 ^ 48 + ?n mod 2 ^ 48"
    using mod_mult2_eq [of ?n "2 ^ 48" "2 ^ 12"] by simp
  moreover have "index TYPECODES (?n div 2 ^ 60) = Inr (TYPECODES ! (?n div 2 ^ 60))"
    using t by (simp add: index_def TYPECODES_def)
  ultimately show ?thesis
    using t by (simp add: dirent_def ZFS_DIRENT_TYPE_def ZFS_DIRENT_OBJ_def unat_BF64_GET)
qed

section \<open>A file as its blocks\<close>

definition obj_at :: "layouts option \<Rightarrow> nat \<Rightarrow> bytes list \<Rightarrow> nat \<Rightarrow> py_dnode \<Rightarrow> bool" where
  "obj_at lay k blks i dn \<longleftrightarrow>
     i < k * length blks \<and> DNode_parse lay (slice (concat blks) (512 * i) (512 * i + 512)) = Inr dn"

lemma ds_getitem_ok:
  assumes "os_ok rb ls blks os" and "obj_at lay (dnodes_per_block os) blks i dn"
  shows "\<exists>os'. ds_getitem lay rb os i = Some (Inr (Some dn, os')) \<and> os_ok rb ls blks os'
    \<and> dnodes_per_block os' = dnodes_per_block os"
  using get_dnode_ok [OF assms(1), of i] assms(2) by (auto simp: ds_getitem_def obj_at_def)

definition lost_block :: "reader \<Rightarrow> py_bp \<Rightarrow> bool" where
  "lost_block rb bp \<longleftrightarrow> (case rb bp 0 of Some (Inr (None, c)) \<Rightarrow> True | _ \<Rightarrow> False)"

lemma block_content_cases:
  assumes "block_content rb True bsize bp b"
  obtains c where "rb bp 0 = Some (Inr (Some b, c))" "\<not> lost_block rb bp"
  | c where "rb bp 0 = Some (Inr (None, c))" "lost_block rb bp" "b = replicate bsize 0"
  using assms by (auto simp: block_content_def lost_block_def split: option.splits sum.splits)

lemma extract_blocks_ok:
  "bt_ok rb bt ls \<Longrightarrow> \<forall>n \<in> set ns. n < length ls \<and> block_content rb True bsize (ls ! n) (blks ! n) \<Longrightarrow>
   extract_blocks rb bsize bt ns out bad
   = Some (Inr (out @ concat (map ((!) blks) ns), bad \<or> (\<exists>n \<in> set ns. lost_block rb (ls ! n))))"
proof (induction ns arbitrary: bt out bad)
  case (Cons n ns)
  then have n: "n < length ls" "block_content rb True bsize (ls ! n) (blks ! n)" by auto
  obtain bt' where g: "bt_getitem rb bt (int n) = Some (Inr (Some (ls ! n), bt'))" and ok: "bt_ok rb bt' ls"
    using bt_getitem_ok [OF Cons.prems(1) n(1)] by blast
  have ih: "extract_blocks rb bsize bt' ns out' bad' = Some (Inr (out' @ concat (map ((!) blks) ns), bad' \<or> (\<exists>n \<in> set ns. lost_block rb (ls ! n))))"
    for out' bad' using Cons.IH [OF ok] Cons.prems(2) by simp
  show ?case using n(2) by (cases rule: block_content_cases) (simp_all add: g ih)
qed simp

text \<open>What is behind a file's dnode: its bytes, unreadable blocks counting as zeros, and whether all
  blocks can be read.\<close>

definition file_at :: "reader \<Rightarrow> py_dnode \<Rightarrow> bytes \<Rightarrow> bool \<Rightarrow> bool" where
  "file_at rb dn content whole \<longleftrightarrow>
     (\<exists>bp0 bps lv k ls blks size.
        pn_blkptr dn = Some (bp0 # bps) \<and> pn_nlevels dn = Suc lv \<and> Py_Tree.leaves (block_ptrs rb) k lv bp0 = Some ls
        \<and> length blks = pn_maxblkid dn + 1 \<and> length blks \<le> length ls
        \<and> (\<forall>i < length blks. block_content rb True (the (pn_datablksize dn)) (ls ! i) (blks ! i))
        \<and> bonus_bytes (pn_bonus dn) = Inr size \<and> (0 < size \<longrightarrow> \<not> bp_empty bp0)
        \<and> content = take size (concat blks) \<and> (whole \<longleftrightarrow> size = 0 \<or> (\<forall>i < length blks. \<not> lost_block rb (ls ! i))))"

lemma extract_dnode_ok:
  assumes "file_at rb dn content whole"
  shows "extract_dnode rb dn = Some (Inr (content, whole))"
proof -
  obtain bp0 bps lv k ls blks size where d: "pn_blkptr dn = Some (bp0 # bps)" "pn_nlevels dn = Suc lv"
      "Py_Tree.leaves (block_ptrs rb) k lv bp0 = Some ls" "length blks = pn_maxblkid dn + 1" "length blks \<le> length ls"
      "\<forall>i < length blks. block_content rb True (the (pn_datablksize dn)) (ls ! i) (blks ! i)"
      "bonus_bytes (pn_bonus dn) = Inr size" "0 < size \<longrightarrow> \<not> bp_empty bp0"
      "content = take size (concat blks)" "whole \<longleftrightarrow> size = 0 \<or> (\<forall>i < length blks. \<not> lost_block rb (ls ! i))"
    using assms unfolding file_at_def by blast
  obtain bt where bt: "BlockTree rb (Suc lv) bp0 = Some (Inr bt)" "bt_ok rb bt ls" using BlockTree_ok [OF d(3)] by blast
  have f: "first_blkptr dn = Inr bp0" by (simp add: first_blkptr_def d(1) index_def)
  have m: "map ((!) blks) [0..<pn_maxblkid dn + 1] = blks" using d(4) map_nth [of blks] by simp
  have "\<forall>n \<in> set [0..<pn_maxblkid dn + 1]. n < length ls \<and> block_content rb True (the (pn_datablksize dn)) (ls ! n) (blks ! n)"
    using d(4,5,6) by auto
  from extract_blocks_ok [OF bt(2) this, of "[]" False, unfolded m]
  have "extract_blocks rb (the (pn_datablksize dn)) bt [0..<pn_maxblkid dn + 1] [] False
      = Some (Inr (concat blks, \<exists>n < length blks. lost_block rb (ls ! n)))"
    by (simp add: d(4) Bex_def del: upt_Suc)
  moreover have "take (min (length (concat blks)) size) (concat blks) = content"
    using d(9) by (simp add: min_def)
  moreover have "(if bp_empty bp0 then andthen (bonus_bytes (pn_bonus dn)) (\<lambda>n. Inr (0 < n)) else Inr False) = (Inr False :: bool py)"
    using d(7,8) by (auto simp: andthen_def)
  ultimately show ?thesis
    using d(7-10) bt(1) by (simp add: extract_dnode_def f d(2) del: upt_Suc split: if_splits)
qed

lemma extract_file_ok:
  assumes "os_ok rb ls blks os" and "obj_at lay (dnodes_per_block os) blks v dn" and "file_at rb dn content whole"
  shows "\<exists>os'. extract_file lay rb os v = Some (Inr ((content, whole), os')) \<and> os_ok rb ls blks os'
    \<and> dnodes_per_block os' = dnodes_per_block os"
  using ds_getitem_ok [OF assms(1,2)] extract_dnode_ok [OF assms(3)] by (auto simp: extract_file_def)

text \<open>
  A file is written as the blocks of its tree, cut at the size in its
  attributes. A block that cannot be read becomes a block of zeros and the rest stays in place;
  the result is true exactly when the file is empty or every block could be read.
\<close>

theorem extract_file_content:
  assumes "os_ok rb ls blks os" and "obj_at lay (dnodes_per_block os) blks v dn" and "file_at rb dn content whole"
  shows "\<exists>os'. extract_file lay rb os v = Some (Inr ((content, whole), os')) \<and> os_ok rb ls blks os'
    \<and> dnodes_per_block os' = dnodes_per_block os"
  using ds_getitem_ok [OF assms(1,2)] extract_dnode_ok [OF assms(3)] by (auto simp: extract_file_def)

section \<open>Small objects\<close>

text \<open>A dnode with one block and system attributes, and a pointer to block \<open>w\<close>.\<close>

definition small_bp :: "nat \<Rightarrow> bytes" where
  "small_bp w = le_bytes 8 w @ replicate 120 0"

definition small_dnode :: "u8 \<Rightarrow> bytes \<Rightarrow> bytes \<Rightarrow> bytes" where
  "small_dnode t bpb bon =
     [t, 0, 1, 1, 0x2c, 0, 0, 0, 1, 0, byte_of (length bon), 0, 0, 0, 0, 0] @ replicate 48 0 @ bpb @ bon @ replicate (320 - length bon) 0"

definition small_ptr :: "nat \<Rightarrow> py_bp" where
  "small_ptr w = (case BlockPtr_parse (small_bp w) of Inr bp \<Rightarrow> bp | Inl e \<Rightarrow> demo_bp)"

lemma small_bp_parse:
  assumes "w < 2 ^ 24"
  shows "BlockPtr_parse (small_bp w) = Inr (small_ptr w)" and "pd_asize (pb_dva0 (small_ptr w)) = w * 512"
proof -
  let ?f = "\<lambda>i. le_value (slice (small_bp w) (8 * i) (8 * i + 8))"
  have z: "?f i = 0" if "0 < i" for i
  proof -
    have "drop (8 * i) (small_bp w) = replicate (128 - 8 * i) 0"
      using that by (simp add: small_bp_def)
    then show ?thesis by (simp add: slice_def le_value_zeros)
  qed
  have f0: "?f 0 = w" using assms by (simp add: small_bp_def slice_def le_value_bytes)
  have u: "unpack_words 16 (small_bp w) = Inr (map ?f [0..<16])" by (simp add: unpack_words_def small_bp_def)
  have n: "map ?f [0..<16] ! 0 = w" "map ?f [0..<16] ! 1 = 0" "map ?f [0..<16] ! 6 = 0"
    using z [of 1] z [of 6] f0 by (simp_all add: nth_map_upt)
  obtain p where "BlockPtr_parse (small_bp w) = Inr p" "pb_dva0 p = py_DVA w 0"
    using parse_fields [OF u] n by auto
  then show "BlockPtr_parse (small_bp w) = Inr (small_ptr w)" and "pd_asize (pb_dva0 (small_ptr w)) = w * 512"
    using assms by (simp_all add: small_ptr_def py_DVA_def)
qed

lemma small_bp_full: "0 < w \<Longrightarrow> w < 2 ^ 24 \<Longrightarrow> \<not> bp_empty (small_ptr w)"
  using small_bp_parse(2) [of w] by (simp add: bp_empty_def dva_null_def)

lemma small_dnode_length: "length bon \<le> 320 \<Longrightarrow> length (small_dnode t (small_bp w) bon) = 512"
  by (simp add: small_dnode_def small_bp_def)

lemma small_dnode_parse:
  assumes "w < 2 ^ 24" and "t \<noteq> 0" "unat t \<le> 100" and "bon \<noteq> []" "length bon < 256"
  shows "\<exists>dn. DNode_parse lay (small_dnode t (small_bp w) bon) = Inr dn \<and> pn_type dn = Some (unat t) \<and> pn_nlevels dn = 1
    \<and> pn_nblkptr dn = 1 \<and> pn_maxblkid dn = 0 \<and> pn_blkptr dn = Some [small_ptr w] \<and> pn_datablksize dn = Some 512
    \<and> pn_bonus dn = Some (Bonus_sa (BonusSysAttr lay bon)) \<and> pn_data dn = small_dnode t (small_bp w) bon"
proof -
  let ?d = "small_dnode t (small_bp w) bon"
  have l: "length ?d = 512" "length (small_bp w) = 128"
    using assms(5) small_dnode_length [of bon t w] by (simp_all add: small_bp_def)
  have pre: "?d = ([t, 0, 1, 1, 0x2c, 0, 0, 0, 1, 0, byte_of (length bon), 0, 0, 0, 0, 0] @ replicate 48 0)
      @ small_bp w @ bon @ replicate (320 - length bon) 0" (is "?d = ?h @ _")
    by (simp only: small_dnode_def append_assoc)
  have lh: "length ?h = 64" by simp
  have nth: "?d ! i = ([t, 0, 1, 1, 0x2c, 0, 0, 0, 1, 0, byte_of (length bon), 0, 0, 0, 0, 0]) ! i" if "i < 16" for i
    unfolding small_dnode_def using that by (subst nth_append) simp
  have s: "slice ?d 8 10 = [1, 0]" "slice ?d 10 12 = [byte_of (length bon), 0]" "slice ?d 16 24 = replicate 8 0"
    unfolding small_dnode_def slice_def by simp_all
  have b: "unat (byte_of (length bon)) = length bon" using assms(5) by (simp add: byte_of_def unat_of_nat take_bit_nat_eq_self)
  have h: "pn_type (dnode_header ?d) = Some (unat t)" "pn_nlevels (dnode_header ?d) = 1" "pn_nblkptr (dnode_header ?d) = 1"
    "pn_maxblkid (dnode_header ?d) = 0" "pn_datablkszsec (dnode_header ?d) = 1" "pn_bonuslen (dnode_header ?d) = length bon"
    "pn_bonustype (dnode_header ?d) = 0x2c" "pn_data (dnode_header ?d) = ?d"
    unfolding dnode_header_def s by (simp_all add: nth b le_value_zeros)
  have sl: "slice ?d 192 (192 + length bon) = bon" unfolding pre slice_def using lh l(2) by simp
  have bp: "slice (drop 64 ?d) 0 128 = small_bp w" unfolding pre slice_def using lh l(2) by simp
  have "parse_all (drop 64 ?d) [0..<1] = Inr [small_ptr w]"
    using bp small_bp_parse(1) [OF assms(1)] by simp
  moreover have "unat t \<noteq> 0" using assms(2) by (simp add: unat_eq_0)
  moreover have "?d ! 0 = t" using nth [of 0] by simp
  ultimately show ?thesis
    using assms l(1) h sl by (simp add: DNode_parse_def Let_def dnode_bonus_def)
qed

text \<open>Attributes with a size only, and a device of numbered blocks.\<close>

definition size_layout :: layouts where
  "size_layout k = (if k = 2 then Some [(8, ''zpl_size'')] else None)"

definition attr_bonus :: "nat \<Rightarrow> bytes" where
  "attr_bonus n = [0x5A, 0x50, 0x2F, 0, 2, 4, 0, 0] @ le_bytes 8 n"

lemma attr_bonus_size:
  assumes "n < 2 ^ 64"
  shows "bonus_bytes (Some (Bonus_sa (BonusSysAttr (Some size_layout) (attr_bonus n)))) = Inr n"
proof -
  have z: "zpl_zp ''zpl_size'' = ''zp_size''" by simp
  have "BonusSysAttr (Some size_layout) (attr_bonus n) = \<lparr>ps_attrs = [(''zpl_size'', SA_num n)], ps_inline = Some []\<rparr>"
    using assms unfolding BonusSysAttr_def sa_head_def
    by (simp add: attr_bonus_def slice_def size_layout_def unpack_le_def le_value_bytes)
  then show ?thesis by (simp add: bonus_bytes_def bonus_size_def sa_attr_def sa_number_def)
qed

definition numbered :: "(nat \<Rightarrow> bytes) \<Rightarrow> reader" where
  "numbered blocks bp dva = Some (Inr (Some (blocks (pd_asize (pb_dva0 bp) div 512)), True))"

lemma numbered_small: "w < 2 ^ 24 \<Longrightarrow> numbered blocks (small_ptr w) dva = Some (Inr (Some (blocks w), True))"
  by (simp add: numbered_def small_bp_parse(2))

definition demo_set :: "nat \<Rightarrow> objectset" where
  "demo_set bs = \<lparr>os_datablksize = bs, os_blocktree = \<lparr>bt_levels = 1, bt_root = Root_bp (small_ptr 1), bt_blocks_per_level = 0,
     bt_cache = CTree []\<rparr>, os_block_cache = Map.empty, os_broken = False\<rparr>"

lemma demo_set_ok:
  assumes "length (blocks 1) = 512 * k" and "0 < k" and "bs = 512 * k"
  shows "os_ok (numbered blocks) [small_ptr 1] [blocks 1] (demo_set bs)" and "dnodes_per_block (demo_set bs) = k"
proof -
  have "blocks 1 \<noteq> []" using assms by auto
  then show "os_ok (numbered blocks) [small_ptr 1] [blocks 1] (demo_set bs)" and "dnodes_per_block (demo_set bs) = k"
    using assms by (simp_all add: os_ok_def demo_set_def dnodes_per_block_def bt_ok_def numbered_small)
qed

lemma small_file_at:
  assumes "0 < w" "w < 2 ^ 24" and "n < 2 ^ 64"
    and "pn_blkptr dn = Some [small_ptr w]" "pn_nlevels dn = 1" "pn_maxblkid dn = 0"
    "pn_bonus dn = Some (Bonus_sa (BonusSysAttr (Some size_layout) (attr_bonus n)))"
  shows "file_at (numbered blocks) dn (take n (blocks w)) True"
proof -
  have "block_content (numbered blocks) True sz (small_ptr w) (blocks w)" "\<not> lost_block (numbered blocks) (small_ptr w)" for sz
    using assms(2) by (simp_all add: block_content_def lost_block_def numbered_small)
  then show ?thesis
    unfolding file_at_def assms(4,6)
    using assms(1,2,5,7) attr_bonus_size [OF assms(3)] small_bp_full
    by (intro exI [of _ "small_ptr w"] exI [of _ "[]"] exI [of _ "0"] exI [of _ "0"] exI [of _ "[small_ptr w]"]
        exI [of _ "[blocks w]"] exI [of _ n]) simp
qed

theorem extract_file_content_witness:
  "\<exists>os'. extract_file (Some size_layout) (numbered (\<lambda>w. if w = 1 then small_dnode 19 (small_bp 2) (attr_bonus 2) else [7, 8, 9]))
     (demo_set 512) 0 = Some (Inr (([7, 8], True), os'))"
proof -
  let ?blocks = "\<lambda>w. if w = 1 then small_dnode 19 (small_bp 2) (attr_bonus 2) else [7, 8, 9 :: u8]"
  have l: "length (?blocks 1) = 512 * 1" by (simp add: small_dnode_length attr_bonus_def)
  have ok: "os_ok (numbered ?blocks) [small_ptr 1] [?blocks 1] (demo_set 512)" "dnodes_per_block (demo_set 512) = 1"
    using demo_set_ok [of ?blocks 1 512, OF l] by simp_all
  obtain dn where dn: "DNode_parse (Some size_layout) (small_dnode 19 (small_bp 2) (attr_bonus 2)) = Inr dn"
    "pn_nlevels dn = 1" "pn_maxblkid dn = 0" "pn_blkptr dn = Some [small_ptr 2]"
    "pn_bonus dn = Some (Bonus_sa (BonusSysAttr (Some size_layout) (attr_bonus 2)))"
    using small_dnode_parse [of 2 19 "attr_bonus 2" "Some size_layout"] by (auto simp: attr_bonus_def)
  have "obj_at (Some size_layout) (dnodes_per_block (demo_set 512)) [?blocks 1] 0 dn"
    using ok l dn(1) by (simp add: obj_at_def slice_def)
  moreover have "file_at (numbered ?blocks) dn [7, 8] True"
    using small_file_at [of 2 2 dn ?blocks] dn by simp
  ultimately show ?thesis using extract_file_content [OF ok(1)] by blast
qed

end
