(* ===== verification/Py_Archive.thy ===== *)
theory Py_Archive
  imports Py_Dataset
begin

text \<open>
  Walking a dataset in the rescue scripts: \<open>archive\<close> and \<open>export_file_list\<close> of \<open>Dataset\<close> in
  \<open>src/zfs/dataset.py\<close>. The archive is the list of its members; writing the \<open>tar\<close> file is
  Python's \<open>tarfile\<close>, and the temporary file is the content it has when it is added. \<open>depth\<close> is
  the number of nested calls the interpreter has left for directories. Printing is left out, apart
  from the size of an object, whose lookup can raise.
\<close>

section \<open>The archive\<close>

datatype member = M_file name bytes | M_dir name | M_link name name

text \<open>The target of a symbolic link, or \<^const>\<open>None\<close> when its content is too short.\<close>

definition link_target :: "decoders \<Rightarrow> reader \<Rightarrow> py_dnode \<Rightarrow> name option io" where
  "link_target de rb dn =
     io_bind (Some (bonus_zp_size (pn_bonus dn))) (\<lambda>sz.
     io_bind (Some (bonus_inline (pn_bonus dn))) (\<lambda>inline.
     io_bind (Some (sa_number sz)) (\<lambda>n.
     if length inline < n then
       io_bind (Some (first_blkptr dn)) (\<lambda>bp0.
       io_bind (FileObj rb (pn_nlevels dn) bp0 (pn_maxblkid dn) (the (pn_datablksize dn)) False) (\<lambda>fo.
       io_bind (fo_read rb n fo) (\<lambda>(data, fo).
       Some (Inr (if length data < n then None else Some (safe_decode_string de data))))))
     else Some (Inr (Some (safe_decode_string de (take n inline)))))))"

text \<open>The entries of one directory; \<open>sub\<close> archives a directory below.\<close>

fun archive_entries ::
    "layouts option \<Rightarrow> decoders \<Rightarrow> reader \<Rightarrow> nat list
      \<Rightarrow> (objectset \<Rightarrow> nat \<Rightarrow> name \<Rightarrow> member list \<Rightarrow> (member list \<times> objectset) io)
      \<Rightarrow> objectset \<Rightarrow> zap \<Rightarrow> name list \<Rightarrow> name \<Rightarrow> member list \<Rightarrow> (member list \<times> objectset) io" where
  "archive_entries lay de rb skip sub os z [] dir_prefix out = Some (Inr (out, os))"
| "archive_entries lay de rb skip sub os z (nm # nms) dir_prefix out =
     io_bind (Some (dirent (map_of z nm))) (\<lambda>(k, v).
     if v \<in> set skip \<or> k \<notin> {CHR ''d'', CHR ''f'', CHR ''l''} then
       archive_entries lay de rb skip sub os z nms dir_prefix out
     else
       io_bind (ds_getitem lay rb os v) (\<lambda>(e, os1).
       case e of None \<Rightarrow> archive_entries lay de rb skip sub os1 z nms dir_prefix out
       | Some dn \<Rightarrow>
           io_bind (Some (bonus_size (pn_bonus dn))) (\<lambda>_.
           io_bind (if k = CHR ''f'' then
               io_bind (extract_file lay rb os1 v) (\<lambda>((content, success), os2).
               Some (Inr (out @ [M_file (if success then dir_prefix @ nm else dir_prefix @ nm @ code_points ''._corrupted'') content], os2)))
             else if k = CHR ''d'' then
               sub os1 v (dir_prefix @ nm @ code_points ''/'') (out @ [M_dir (dir_prefix @ nm)])
             else
               io_bind (link_target de rb dn) (\<lambda>target.
               Some (Inr (case target of None \<Rightarrow> out | Some t \<Rightarrow> out @ [M_link (dir_prefix @ nm) t], os1))))
           (\<lambda>(out1, os2). archive_entries lay de rb skip sub os2 z nms dir_prefix out1))))"

fun archive_dir ::
    "layouts option \<Rightarrow> decoders \<Rightarrow> nat \<Rightarrow> reader \<Rightarrow> nat list \<Rightarrow> nat \<Rightarrow> objectset \<Rightarrow> nat \<Rightarrow> name \<Rightarrow> member list
      \<Rightarrow> (member list \<times> objectset) io" where
  "archive_dir lay de zdepth rb skip 0 os dir_id dir_prefix out = Some (Inl Recursion_error)"
| "archive_dir lay de zdepth rb skip (Suc depth) os dir_id dir_prefix out =
     io_bind (ds_getitem lay rb os dir_id) (\<lambda>(d, os1).
     case d of None \<Rightarrow> Some (Inr (out, os1))
     | Some dn \<Rightarrow>
         io_bind (zap_factory de zdepth rb dn) (\<lambda>z.
         case z of None \<Rightarrow> Some (Inr (out, os1))
         | Some z \<Rightarrow>
             archive_entries lay de rb skip (\<lambda>os i p ms. archive_dir lay de zdepth rb skip depth os i p ms)
               os1 z (sort (map fst z)) dir_prefix out))"

text \<open>\<open>archive\<close>: from the object asked for, or from the root directory.\<close>

definition archive ::
    "layouts option \<Rightarrow> decoders \<Rightarrow> nat \<Rightarrow> reader \<Rightarrow> nat list \<Rightarrow> nat \<Rightarrow> objectset \<Rightarrow> nat \<Rightarrow> nat option
      \<Rightarrow> (member list \<times> objectset) io" where
  "archive lay de zdepth rb skip depth os root dir_id =
     archive_dir lay de zdepth rb skip depth os (case dir_id of None \<Rightarrow> root | Some i \<Rightarrow> i) [] []"

section \<open>The list of files\<close>

text \<open>A row: the object, its size (\<^const>\<open>None\<close> for the -1 of an object that cannot be read) and the path.\<close>

type_synonym row = "nat \<times> sa_val option \<times> name"

fun export_entries ::
    "layouts option \<Rightarrow> reader \<Rightarrow> (objectset \<Rightarrow> nat \<Rightarrow> name \<Rightarrow> row list \<Rightarrow> (row list \<times> objectset) io)
      \<Rightarrow> objectset \<Rightarrow> zap \<Rightarrow> name list \<Rightarrow> name \<Rightarrow> row list \<Rightarrow> (row list \<times> objectset) io" where
  "export_entries lay rb sub os z [] dir_prefix out = Some (Inr (out, os))"
| "export_entries lay rb sub os z (nm # nms) dir_prefix out =
     io_bind (Some (dirent (map_of z nm))) (\<lambda>(k, v).
     io_bind (ds_getitem lay rb os v) (\<lambda>(e, os1).
     io_bind (Some (case e of None \<Rightarrow> Inr None | Some dn \<Rightarrow> andthen (bonus_zp_size (pn_bonus dn)) (\<lambda>s. Inr (Some s)))) (\<lambda>sz.
     io_bind (if k = CHR ''f'' then Some (Inr (out @ [(v, sz, dir_prefix @ nm)], os1))
       else if k = CHR ''l'' then Some (Inr (out @ [(v, sz, dir_prefix @ nm @ code_points '' -> ...'')], os1))
       else if k = CHR ''d'' then
         sub os1 v (dir_prefix @ nm @ code_points ''/'') (out @ [(v, Some (SA_num 0), dir_prefix @ nm @ code_points ''/'')])
       else Some (Inr (out, os1)))
     (\<lambda>(out1, os2). export_entries lay rb sub os2 z nms dir_prefix out1))))"

fun export_dir ::
    "layouts option \<Rightarrow> decoders \<Rightarrow> nat \<Rightarrow> reader \<Rightarrow> nat \<Rightarrow> objectset \<Rightarrow> nat \<Rightarrow> name \<Rightarrow> row list \<Rightarrow> (row list \<times> objectset) io" where
  "export_dir lay de zdepth rb 0 os dir_id dir_prefix out = Some (Inl Recursion_error)"
| "export_dir lay de zdepth rb (Suc depth) os dir_id dir_prefix out =
     io_bind (ds_getitem lay rb os dir_id) (\<lambda>(d, os1).
     case d of None \<Rightarrow> Some (Inr (out @ [(dir_id, None, dir_prefix)], os1))
     | Some dn \<Rightarrow>
         io_bind (zap_factory de zdepth rb dn) (\<lambda>z.
         case z of None \<Rightarrow> Some (Inr (out, os1))
         | Some z \<Rightarrow> export_entries lay rb (\<lambda>os i p rows. export_dir lay de zdepth rb depth os i p rows)
             os1 z (sort (map fst z)) dir_prefix out))"

definition export_file_list ::
    "layouts option \<Rightarrow> decoders \<Rightarrow> nat \<Rightarrow> reader \<Rightarrow> nat \<Rightarrow> objectset \<Rightarrow> nat \<Rightarrow> nat option \<Rightarrow> (row list \<times> objectset) io" where
  "export_file_list lay de zdepth rb depth os root dir_id =
     export_dir lay de zdepth rb depth os (case dir_id of None \<Rightarrow> root | Some i \<Rightarrow> i) (code_points ''/'') []"

section \<open>A tree of files\<close>

datatype node = File_node bytes bool | Link_node name | Other_node char | Dir_node "(name \<times> nat \<times> node) list"

fun letter :: "node \<Rightarrow> char" where
  "letter (File_node content whole) = CHR ''f''"
| "letter (Link_node target) = CHR ''l''"
| "letter (Other_node c) = c"
| "letter (Dir_node es) = CHR ''d''"

fun node_members :: "nat list \<Rightarrow> name \<Rightarrow> node \<Rightarrow> member list" where
  "node_members skip full (File_node content whole) =
     [M_file (if whole then full else full @ code_points ''._corrupted'') content]"
| "node_members skip full (Link_node target) = [M_link full target]"
| "node_members skip full (Other_node c) = []"
| "node_members skip full (Dir_node es) =
     M_dir full # concat (map (\<lambda>(nm, v, t). if v \<in> set skip then [] else node_members skip (full @ code_points ''/'' @ nm) t) es)"

text \<open>The members below a directory.\<close>

definition dir_members :: "nat list \<Rightarrow> name \<Rightarrow> (name \<times> nat \<times> node) list \<Rightarrow> member list" where
  "dir_members skip dir_prefix es = concat (map (\<lambda>(nm, v, t). if v \<in> set skip then [] else node_members skip (dir_prefix @ nm) t) es)"

text \<open>The target of a link, inline or in its blocks, all of which can be read.\<close>

definition link_at :: "decoders \<Rightarrow> reader \<Rightarrow> py_dnode \<Rightarrow> name \<Rightarrow> bool" where
  "link_at de rb dn target \<longleftrightarrow>
     (\<exists>n inline. bonus_zp_size (pn_bonus dn) = Inr (SA_num n) \<and> bonus_inline (pn_bonus dn) = Inr inline
       \<and> (if n \<le> length inline then target = safe_decode_string de (take n inline)
          else \<exists>content. file_at rb dn content True \<and> length content = n \<and> target = safe_decode_string de content))"

text \<open>What the objects of a set hold, for directories whose nesting fits in \<open>d\<close> calls. Nothing is
  asked of the objects to be skipped.\<close>

inductive node_at ::
    "layouts option \<Rightarrow> decoders \<Rightarrow> nat \<Rightarrow> reader \<Rightarrow> nat list \<Rightarrow> nat \<Rightarrow> bytes list \<Rightarrow> nat \<Rightarrow> nat \<Rightarrow> node \<Rightarrow> bool"
  for lay de zdepth rb skip k blks where
  node_file: "obj_at lay k blks v dn \<Longrightarrow> file_at rb dn content whole \<Longrightarrow>
    node_at lay de zdepth rb skip k blks d v (File_node content whole)"
| node_link: "obj_at lay k blks v dn \<Longrightarrow> bonus_size (pn_bonus dn) = Inr s \<Longrightarrow> link_at de rb dn target \<Longrightarrow>
    node_at lay de zdepth rb skip k blks d v (Link_node target)"
| node_other: "c \<notin> {CHR ''d'', CHR ''f'', CHR ''l''} \<Longrightarrow> node_at lay de zdepth rb skip k blks d v (Other_node c)"
| node_dir: "obj_at lay k blks v dn \<Longrightarrow> bonus_size (pn_bonus dn) = Inr s \<Longrightarrow> zap_factory de zdepth rb dn = Some (Inr (Some z)) \<Longrightarrow>
    map fst es = sort (map fst z) \<Longrightarrow>
    (\<forall>e \<in> set es. dirent (map_of z (fst e)) = Inr (letter (snd (snd e)), fst (snd e))
      \<and> (fst (snd e) \<notin> set skip \<longrightarrow> node_at lay de zdepth rb skip k blks d (fst (snd e)) (snd (snd e)))) \<Longrightarrow>
    node_at lay de zdepth rb skip k blks (Suc d) v (Dir_node es)"

inductive_cases node_at_fileE: "node_at lay de zdepth rb skip k blks d v (File_node content whole)"
inductive_cases node_at_linkE: "node_at lay de zdepth rb skip k blks d v (Link_node target)"
inductive_cases node_at_otherE: "node_at lay de zdepth rb skip k blks d v (Other_node c)"
inductive_cases node_at_dirE: "node_at lay de zdepth rb skip k blks d v (Dir_node es)"

section \<open>The archive of a tree\<close>

lemma FileObj_ok:
  assumes "Py_Tree.leaves (block_ptrs rb) k lv bp0 = Some ls" and "length blks = maxblkid + 1" and "length blks \<le> length ls"
    and "\<And>i. i < length blks \<Longrightarrow> block_content rb zeros bsize (ls ! i) (blks ! i)"
  shows "\<exists>fo. FileObj rb (Suc lv) bp0 maxblkid bsize zeros = Some (Inr fo) \<and> fo_ok rb ls blks fo \<and> fo_rest blks fo = concat blks"
proof -
  obtain bt where "BlockTree rb (Suc lv) bp0 = Some (Inr bt)" "bt_ok rb bt ls" using BlockTree_ok [OF assms(1)] by blast
  then show ?thesis using assms(2-4) by (simp add: FileObj_def fo_ok_def fo_rest_def)
qed

lemma block_content_strict:
  assumes "block_content rb True bsize bp b" and "\<not> lost_block rb bp"
  shows "block_content rb False bsize' bp b"
  using assms(1) by (cases rule: block_content_cases) (use assms(2) in \<open>auto simp: block_content_def\<close>)

lemma link_target_ok:
  assumes "link_at de rb dn target"
  shows "link_target de rb dn = Some (Inr (Some target))"
proof -
  obtain n inline where n: "bonus_zp_size (pn_bonus dn) = Inr (SA_num n)" "bonus_inline (pn_bonus dn) = Inr inline"
    and t: "if n \<le> length inline then target = safe_decode_string de (take n inline)
      else \<exists>content. file_at rb dn content True \<and> length content = n \<and> target = safe_decode_string de content"
    using assms unfolding link_at_def by blast
  show ?thesis
  proof (cases "n \<le> length inline")
    case True
    then show ?thesis using n t by (simp add: link_target_def sa_number_def)
  next
    case False
    then obtain content where c: "file_at rb dn content True" "length content = n" "target = safe_decode_string de content"
      using t by auto
    obtain bp0 bps lv kk ls blks size where d: "pn_blkptr dn = Some (bp0 # bps)" "pn_nlevels dn = Suc lv"
      "Py_Tree.leaves (block_ptrs rb) kk lv bp0 = Some ls" "length blks = pn_maxblkid dn + 1" "length blks \<le> length ls"
      "\<forall>i < length blks. block_content rb True (the (pn_datablksize dn)) (ls ! i) (blks ! i)"
      "content = take size (concat blks)" "True \<longleftrightarrow> size = 0 \<or> (\<forall>i < length blks. \<not> lost_block rb (ls ! i))"
      using c(1) unfolding file_at_def by blast
    have n0: "0 < n" using False by simp
    then have w: "\<forall>i < length blks. \<not> lost_block rb (ls ! i)" using d(7,8) c(2) by auto
    have "block_content rb False (the (pn_datablksize dn)) (ls ! i) (blks ! i)" if "i < length blks" for i
      using d(6) w that block_content_strict by blast
    then obtain fo where fo: "FileObj rb (Suc lv) bp0 (pn_maxblkid dn) (the (pn_datablksize dn)) False = Some (Inr fo)"
      "fo_ok rb ls blks fo" "fo_rest blks fo = concat blks"
      using FileObj_ok d(3-5) by blast
    have ct: "content = take n (concat blks)" "n \<le> length (concat blks)" using d(7) c(2) by (auto simp: min_def)
    obtain fo' where "fo_read rb n fo = Some (Inr (content, fo'))"
      using fo_read_ok [OF fo(2), of n] ct fo(3) by auto
    then show ?thesis using fo(1)
      using False n c(2,3) by (auto simp: link_target_def sa_number_def first_blkptr_def d(1,2) index_def)
  qed
qed

lemma dir_members_Cons:
  "dir_members skip dir_prefix ((nm, v, t) # es) =
     (if v \<in> set skip then [] else node_members skip (dir_prefix @ nm) t) @ dir_members skip dir_prefix es"
  by (simp add: dir_members_def cong: if_cong)

lemma node_members_Dir: "node_members skip full (Dir_node es) = M_dir full # dir_members skip (full @ code_points ''/'') es"
  by (simp add: dir_members_def cong: if_cong)

text \<open>The entries of a directory, when \<open>sub\<close> does what is expected of the directories below.\<close>

lemma archive_entries_ok:
  assumes "\<forall>e \<in> set es. dirent (map_of z (fst e)) = Inr (letter (snd (snd e)), fst (snd e))
      \<and> (fst (snd e) \<notin> set skip \<longrightarrow> node_at lay de zdepth rb skip k blks d (fst (snd e)) (snd (snd e))
        \<and> (\<forall>es'. snd (snd e) = Dir_node es' \<longrightarrow> (\<forall>os p ms. os_ok rb ls blks os \<longrightarrow> dnodes_per_block os = k \<longrightarrow>
            (\<exists>os'. sub os (fst (snd e)) p ms = Some (Inr (ms @ dir_members skip p es', os'))
              \<and> os_ok rb ls blks os' \<and> dnodes_per_block os' = k))))"
    and "os_ok rb ls blks os" and "dnodes_per_block os = k"
  shows "\<exists>os'. archive_entries lay de rb skip sub os z (map fst es) dir_prefix out
      = Some (Inr (out @ dir_members skip dir_prefix es, os')) \<and> os_ok rb ls blks os' \<and> dnodes_per_block os' = k"
  using assms
proof (induction es arbitrary: os out)
  case Nil
  then show ?case by (simp add: dir_members_def)
next
  case (Cons e es)
  obtain nm v t where e: "e = (nm, v, t)" by (cases e) auto
  have de: "dirent (map_of z nm) = Inr (letter t, v)" using Cons.prems(1) by (simp add: e)
  have IH: "\<exists>os'. archive_entries lay de rb skip sub os1 z (map fst es) dir_prefix out1
      = Some (Inr (out1 @ dir_members skip dir_prefix es, os')) \<and> os_ok rb ls blks os' \<and> dnodes_per_block os' = k"
    if "os_ok rb ls blks os1" "dnodes_per_block os1 = k" for os1 out1
    using Cons.IH [OF _ that] Cons.prems(1) by simp
  show ?case
  proof (cases "v \<in> set skip \<or> letter t \<notin> {CHR ''d'', CHR ''f'', CHR ''l''}")
    case True
    then have "v \<in> set skip \<or> node_members skip (dir_prefix @ nm) t = []" by (cases t) auto
    then show ?thesis using True IH [OF Cons.prems(2,3), of out] by (auto simp: e de dir_members_Cons)
  next
    case False
    then have na: "node_at lay de zdepth rb skip k blks d v t" using Cons.prems(1) by (simp add: e)
    from na obtain dn s where dn: "obj_at lay k blks v dn" "bonus_size (pn_bonus dn) = Inr s"
      using False by (cases rule: node_at.cases) (auto simp: file_at_def bonus_bytes_def andthen_Inr)
    obtain os1 where os1: "ds_getitem lay rb os v = Some (Inr (Some dn, os1))" "os_ok rb ls blks os1" "dnodes_per_block os1 = k"
      using ds_getitem_ok [OF Cons.prems(2)] dn(1) Cons.prems(3) by blast
    have one: "\<exists>os2. archive_entries lay de rb skip sub os z (map fst (e # es)) dir_prefix out
        = archive_entries lay de rb skip sub os2 z (map fst es) dir_prefix (out @ node_members skip (dir_prefix @ nm) t)
        \<and> os_ok rb ls blks os2 \<and> dnodes_per_block os2 = k"
    proof (cases t)
      case (File_node content whole)
      then obtain dn' where "obj_at lay k blks v dn'" "file_at rb dn' content whole" using na by (auto elim: node_at_fileE)
      then obtain os2 where "extract_file lay rb os1 v = Some (Inr ((content, whole), os2))" "os_ok rb ls blks os2" "dnodes_per_block os2 = k"
        using extract_file_ok [OF os1(2)] os1(3) by blast
      then show ?thesis using False os1(1) dn(2) by (intro exI [of _ os2]) (simp add: e de File_node)
    next
      case (Link_node target)
      then obtain dn' where "obj_at lay k blks v dn'" "link_at de rb dn' target" using na by (auto elim: node_at_linkE)
      then have "link_target de rb dn = Some (Inr (Some target))" using dn(1) link_target_ok by (simp add: obj_at_def)
      then show ?thesis using False os1 dn(2) by (intro exI [of _ os1]) (simp add: e de Link_node)
    next
      case (Other_node c)
      then show ?thesis using False na by (auto elim: node_at_otherE)
    next
      case (Dir_node es')
      have "\<forall>os p ms. os_ok rb ls blks os \<longrightarrow> dnodes_per_block os = k \<longrightarrow>
          (\<exists>os'. sub os v p ms = Some (Inr (ms @ dir_members skip p es', os')) \<and> os_ok rb ls blks os' \<and> dnodes_per_block os' = k)"
        using Cons.prems(1) False Dir_node by (simp add: e)
      then obtain os2 where "sub os1 v (dir_prefix @ nm @ code_points ''/'') (out @ [M_dir (dir_prefix @ nm)])
          = Some (Inr ((out @ [M_dir (dir_prefix @ nm)]) @ dir_members skip (dir_prefix @ nm @ code_points ''/'') es', os2))"
        "os_ok rb ls blks os2" "dnodes_per_block os2 = k"
        using os1(2,3) by blast
      then show ?thesis using False os1(1) dn(2)
        by (intro exI [of _ os2]) (simp add: e de Dir_node node_members_Dir del: node_members.simps)
    qed
    then obtain os2 where o2: "archive_entries lay de rb skip sub os z (map fst (e # es)) dir_prefix out
        = archive_entries lay de rb skip sub os2 z (map fst es) dir_prefix (out @ node_members skip (dir_prefix @ nm) t)"
      "os_ok rb ls blks os2" "dnodes_per_block os2 = k" by blast
    have "dir_members skip dir_prefix (e # es) = node_members skip (dir_prefix @ nm) t @ dir_members skip dir_prefix es"
      using False by (simp add: e dir_members_Cons)
    then show ?thesis using IH [OF o2(2,3), of "out @ node_members skip (dir_prefix @ nm) t"] unfolding o2(1) by simp
  qed
qed


lemma archive_dir_ok:
  "node_at lay de zdepth rb skip k blks d v t \<Longrightarrow> t = Dir_node es \<Longrightarrow> os_ok rb ls blks os \<Longrightarrow> dnodes_per_block os = k \<Longrightarrow>
   \<exists>os'. archive_dir lay de zdepth rb skip d os v dir_prefix out = Some (Inr (out @ dir_members skip dir_prefix es, os'))
     \<and> os_ok rb ls blks os' \<and> dnodes_per_block os' = k"
proof (induction arbitrary: es os dir_prefix out rule: node_at.induct)
  case (node_dir v dn s z es' d)
  obtain os1 where os1: "ds_getitem lay rb os v = Some (Inr (Some dn, os1))" "os_ok rb ls blks os1" "dnodes_per_block os1 = k"
    using ds_getitem_ok [OF node_dir.prems(2)] node_dir.hyps(1) node_dir.prems(3) by blast
  have "es' = es" using node_dir.prems(1) by simp
  have "\<exists>os'. archive_entries lay de rb skip (\<lambda>os i p ms. archive_dir lay de zdepth rb skip d os i p ms) os1 z (map fst es') dir_prefix out
      = Some (Inr (out @ dir_members skip dir_prefix es', os')) \<and> os_ok rb ls blks os' \<and> dnodes_per_block os' = k"
    by (rule archive_entries_ok [OF _ os1(2,3)]) (use node_dir.IH in blast)
  then show ?case by (simp add: os1(1) node_dir.hyps(3) node_dir.hyps(4) [symmetric] \<open>es' = es\<close>)
qed simp_all

text \<open>
  C6: the archive of a directory is its tree. When the objects below it can be read and
  are nested no deeper than there are calls, the members are, name after name in order, every
  directory, the files with the content their blocks give (under a marked name where a block was
  lost; a file of positive size must have a first pointer that is not a hole) and the links with their targets, at their paths and without the objects to be skipped.
\<close>

theorem archive_tree:
  assumes "os_ok rb ls blks os"
    and "node_at lay de zdepth rb skip (dnodes_per_block os) blks depth dir_id (Dir_node es)"
  shows "\<exists>os'. archive lay de zdepth rb skip depth os root (Some dir_id) = Some (Inr (dir_members skip [] es, os'))"
  using archive_dir_ok [OF assms(2) refl assms(1) refl, of "[]" "[]"] by (auto simp: archive_def)

text \<open>A directory of one file: object 0 has the entry \<open>a\<close> for object 1, whose block holds 7, 8, 9 and
  whose size is 2.\<close>

definition demo_decoders :: decoders where
  "demo_decoders = \<lparr>utf8 = (\<lambda>bs. Some (map unat bs)), cp1251 = (\<lambda>bs. None)\<rparr>"

definition demo_blocks :: "nat \<Rightarrow> bytes" where
  "demo_blocks w =
     (if w = 1 then small_dnode 20 (small_bp 2) (attr_bonus 0) @ small_dnode 19 (small_bp 3) (attr_bonus 2)
      else if w = 2 then ([3, 0, 0, 0, 0, 0, 0, 128] @ replicate 56 0)
        @ concat (map mz_bytes [\<lparr>me_name = [97], me_value = 2 ^ 63 + 1, me_cd = 0\<rparr>])
      else [7, 8, 9])"

lemma demo_zap:
  "choose_zap_factory demo_decoders 1000 (demo_blocks 2) 512 = Inr (Some [([97], ZV_num (2 ^ 63 + 1))])"
proof -
  have d: "safe_decode_string demo_decoders bs = map unat bs" for bs by (simp add: safe_decode_string_def demo_decoders_def)
  show ?thesis
    using micro_zap_reads [of "demo_blocks 2" "[3, 0, 0, 0, 0, 0, 0, 128] @ replicate 56 0"
        "[\<lparr>me_name = [97], me_value = 2 ^ 63 + 1, me_cd = 0\<rparr>]" demo_decoders 1000 512]
    by (simp add: demo_blocks_def slice_def ZBT_MICRO_def mz_ok_def d put_mz_def)
qed

lemma demo_length: "length (small_dnode t (small_bp w) (attr_bonus n)) = 512"
  by (simp add: small_dnode_length attr_bonus_def)

lemma demo_os_ok:
  "os_ok (numbered demo_blocks) [small_ptr 1] [demo_blocks 1] (demo_set 1024)" "dnodes_per_block (demo_set 1024) = 2"
proof -
  have "length (demo_blocks 1) = 512 * 2" by (simp add: demo_blocks_def demo_length)
  from demo_set_ok [of demo_blocks 2 1024, OF this]
  show "os_ok (numbered demo_blocks) [small_ptr 1] [demo_blocks 1] (demo_set 1024)" "dnodes_per_block (demo_set 1024) = 2"
    by simp_all
qed

lemma demo_objects:
  obtains dn fn s where "obj_at (Some size_layout) 2 [demo_blocks 1] 0 dn" "obj_at (Some size_layout) 2 [demo_blocks 1] 1 fn"
    "bonus_size (pn_bonus dn) = Inr s" "file_at (numbered demo_blocks) fn [7, 8] True"
    "zap_factory demo_decoders 1000 (numbered demo_blocks) dn = Some (Inr (Some [([97], ZV_num (2 ^ 63 + 1))]))"
proof -
  let ?rb = "numbered demo_blocks"
  obtain dn where dn: "DNode_parse (Some size_layout) (small_dnode 20 (small_bp 2) (attr_bonus 0)) = Inr dn"
    "pn_nlevels dn = 1" "pn_nblkptr dn = 1" "pn_blkptr dn = Some [small_ptr 2]" "pn_datablksize dn = Some 512"
    "pn_bonus dn = Some (Bonus_sa (BonusSysAttr (Some size_layout) (attr_bonus 0)))"
    "pn_data dn = small_dnode 20 (small_bp 2) (attr_bonus 0)"
    using small_dnode_parse [of 2 20 "attr_bonus 0" "Some size_layout"] by (auto simp: attr_bonus_def)
  obtain fn where fn: "DNode_parse (Some size_layout) (small_dnode 19 (small_bp 3) (attr_bonus 2)) = Inr fn"
    "pn_nlevels fn = 1" "pn_maxblkid fn = 0" "pn_blkptr fn = Some [small_ptr 3]"
    "pn_bonus fn = Some (Bonus_sa (BonusSysAttr (Some size_layout) (attr_bonus 2)))"
    using small_dnode_parse [of 3 19 "attr_bonus 2" "Some size_layout"] by (auto simp: attr_bonus_def)
  have b1: "demo_blocks 1 = small_dnode 20 (small_bp 2) (attr_bonus 0) @ small_dnode 19 (small_bp 3) (attr_bonus 2)"
    by (simp add: demo_blocks_def)
  have at: "obj_at (Some size_layout) 2 [demo_blocks 1] 0 dn" "obj_at (Some size_layout) 2 [demo_blocks 1] 1 fn"
    using dn(1) fn(1) b1 by (simp_all add: obj_at_def slice_def demo_length)
  have "\<exists>s. bonus_size (pn_bonus dn) = Inr s"
    using attr_bonus_size [of 0] by (auto simp: dn(6) bonus_bytes_def andthen_Inr)
  moreover have "file_at ?rb fn [7, 8] True" using small_file_at [of 3 2 fn demo_blocks] fn by (simp add: demo_blocks_def)
  moreover have "BlockPtrArray (slice (pn_data dn) 64 (64 + 1 * 128)) = Inr [small_ptr 2]"
  proof -
    have "slice (pn_data dn) 64 (64 + 1 * 128) = small_bp 2" "length (small_bp 2) = 128"
      unfolding dn(7) small_dnode_def slice_def by (simp_all add: small_bp_def)
    then show ?thesis using small_bp_parse(1) [of 2] by (simp add: BlockPtrArray_def slice_def)
  qed
  then have "zap_factory demo_decoders 1000 ?rb dn = Some (Inr (Some [([97], ZV_num (2 ^ 63 + 1))]))"
    using dn(2-5) by (simp add: zap_factory_def blockptrar_zap_factory_def index_def numbered_small demo_zap)
  ultimately show thesis using that at by blast
qed

lemma demo_dirent: "dirent (Some (ZV_num (2 ^ 63 + 1))) = Inr (CHR ''f'', 1)"
  by (simp add: dirent_def index_def TYPECODES_def)

theorem archive_tree_witness:
  "\<exists>os'. archive (Some size_layout) demo_decoders 1000 (numbered demo_blocks) [] 1 (demo_set 1024) 0 (Some 0)
     = Some (Inr ([M_file [97] [7, 8]], os'))"
proof -
  obtain dn fn s where d: "obj_at (Some size_layout) 2 [demo_blocks 1] 0 dn" "obj_at (Some size_layout) 2 [demo_blocks 1] 1 fn"
    "bonus_size (pn_bonus dn) = Inr s" "file_at (numbered demo_blocks) fn [7, 8] True"
    "zap_factory demo_decoders 1000 (numbered demo_blocks) dn = Some (Inr (Some [([97], ZV_num (2 ^ 63 + 1))]))"
    by (rule demo_objects)
  have "node_at (Some size_layout) demo_decoders 1000 (numbered demo_blocks) [] 2 [demo_blocks 1] (Suc 0) 0
      (Dir_node [([97], 1, File_node [7, 8] True)])"
    by (rule node_dir [OF d(1,3,5)]) (use demo_dirent node_file [OF d(2,4)] in simp_all)
  then show ?thesis
    using archive_tree [OF demo_os_ok(1), of "Some size_layout" demo_decoders 1000 "[]" 1 0 "[([97], 1, File_node [7, 8] True)]" 0]
    by (simp add: demo_os_ok(2) dir_members_def)
qed

section \<open>Links in system attributes\<close>

text \<open>
  C37: a link whose target is a system attribute is lost. The dnode's parser sets the
  target as an attribute, but the archive looks for it behind the attributes and then in the file's
  blocks; the first pointer of such a link is empty, so the link is skipped.
\<close>

theorem sa_symlink_dropped:
  assumes "pn_bonus dn = Some (Bonus_sa s)" and "sa_attr s ''zp_symlink'' = Inr (SA_bytes target)"
    and "sa_attr s ''zp_size'' = Inr (SA_num (length target))" and "ps_inline s = Some inline" and "length inline < length target"
    and "pn_blkptr dn = Some (bp0 # bps)" and "bp_empty bp0" and "pn_nlevels dn = 1"
  shows "link_target de (read_block phys ashift gz) dn = Some (Inr None)"
proof -
  let ?rb = "read_block phys ashift gz"
  let ?bt = "\<lparr>bt_levels = 1, bt_root = Root_bp bp0, bt_blocks_per_level = 0, bt_cache = CTree []\<rparr>"
  have r: "?rb bp0 0 = Some (Inr (None, False))" using assms(7) by (simp add: read_block_def)
  let ?fo = "\<lparr>fo_bt = ?bt, fo_next_blkid = 0, fo_max_blkid = pn_maxblkid dn, fo_datablksize = the (pn_datablksize dn),
       fo_filepos = 0, fo_blkpos = 0, fo_buf = Some [], fo_corrupted = False, fo_bad_as_zeros = False\<rparr>"
  have "\<exists>fo'. fo_round ?rb ?fo = Some (Inr (False, fo'))"
    by (simp add: fo_round_def fo_fetch_def bt_getitem_def r Let_def)
  then obtain fo' where "fo_round ?rb ?fo = Some (Inr (False, fo'))" by blast
  then have "fo_loop ?rb (length target) [] ?fo = Some (Inr ([], fo'))"
    using assms(5) by (subst fo_loop.simps) auto
  then have "\<exists>fo'. fo_read ?rb (length target) ?fo = Some (Inr ([], fo'))"
    by (simp add: fo_read_def slice_def Let_def)
  then show ?thesis
    using assms by (auto simp: link_target_def bonus_zp_size_def bonus_inline_def sa_number_def first_blkptr_def index_def
        FileObj_def BlockTree_def)
qed

theorem sa_symlink_dropped_witness:
  "link_target demo_decoders (read_block (\<lambda>ofs n. None) 9 (\<lambda>d n. Inl Value_error))
     ((dnode_header [])\<lparr>pn_nlevels := 1, pn_blkptr := Some [demo_bp\<lparr>pb_dva0 := py_DVA 0 0\<rparr>],
       pn_bonus := Some (Bonus_sa \<lparr>ps_attrs = [(''zpl_size'', SA_num 2), (''zpl_symlink'', SA_bytes [47, 97])], ps_inline = Some []\<rparr>)\<rparr>)
   = Some (Inr None)"
proof -
  let ?s = "\<lparr>ps_attrs = [(''zpl_size'', SA_num 2), (''zpl_symlink'', SA_bytes [47, 97])], ps_inline = Some []\<rparr>"
  have "sa_attr ?s ''zp_symlink'' = Inr (SA_bytes [47, 97])" "sa_attr ?s ''zp_size'' = Inr (SA_num (length [47 :: u8, 97]))"
    by (simp_all add: sa_attr_def)
  moreover have "bp_empty (demo_bp\<lparr>pb_dva0 := py_DVA 0 0\<rparr>)" by (simp add: bp_empty_def dva_null_def py_DVA_def demo_bp_def)
  ultimately show ?thesis by (intro sa_symlink_dropped [where s = ?s and target = "[47, 97]" and inline = "[]"]) simp_all
qed

end
