(* ===== verification/Py_Fuse.thy ===== *)
theory Py_Fuse
  imports Py_Archive "HOL-Library.Product_Lexorder"
begin

text \<open>
  The mounted dataset in the rescue scripts: \<open>zfsnode\<close> of \<open>src/zfs/dataset.py\<close> and the operations
  \<open>zfsfuse\<close> of \<open>src/zfs/fuse.py\<close>. Nodes are objects that directories and the inode map share, so they
  live in a store and are meant by their place in it. \<open>ino_root\<close> stands for \<open>llfuse.ROOT_INODE\<close>,
  \<open>now\<close> for the time, \<open>tmp\<close> for the temporary name \<open>tempfile\<close> proposes, and \<open>left\<close> for what an
  extraction that raises has left in the file. Logging and the user's ids are left out.
\<close>

section \<open>State\<close>

record fnode =
  fn_node :: zfsnode
  fn_directory :: "nat list option"
  fn_cache_file :: "nat option"

record fuse =
  fs_store :: "fnode list"
  fs_inode_map :: "nat \<rightharpoonup> nat"
  fs_os :: objectset
  fs_files :: "nat \<rightharpoonup> bytes"
  fs_problems :: "name list"

datatype fuse_err = Enoent | Raised py_exc

text \<open>An operation gives its result or error and the state; \<^const>\<open>None\<close> when it does not return.\<close>

type_synonym 'a fop = "((fuse_err + 'a) \<times> fuse) option"

definition new_node :: "zfsnode \<Rightarrow> fnode" where
  "new_node n = \<lparr>fn_node = n, fn_directory = None, fn_cache_file = None\<rparr>"

text \<open>\<open>Dataset.rootdir\<close> and \<open>zfsfuse.__init__\<close>.\<close>

definition rootdir :: "layouts option \<Rightarrow> reader \<Rightarrow> objectset \<Rightarrow> nat \<Rightarrow> nat \<Rightarrow> (zfsnode \<times> objectset) io" where
  "rootdir lay rb os root ino_root =
     io_bind (ds_getitem lay rb os root) (\<lambda>(d, os).
     Some (Inr (\<lparr>zn_dnode = d, zn_stattype = CHR ''d'', zn_mode = SA_none, zn_datasetid = root, zn_size = SA_num 0,
       zn_name = code_points ''/'', zn_inode = ino_root + 0, zn_abspath = []\<rparr>, os)))"

definition zfsfuse_init :: "layouts option \<Rightarrow> reader \<Rightarrow> objectset \<Rightarrow> nat \<Rightarrow> nat \<Rightarrow> fuse io" where
  "zfsfuse_init lay rb os root ino_root =
     io_bind (rootdir lay rb os root ino_root) (\<lambda>(n, os).
     Some (Inr \<lparr>fs_store = [new_node n], fs_inode_map = [zn_inode n \<mapsto> 0], fs_os = os, fs_files = Map.empty, fs_problems = []\<rparr>))"

definition node_at_addr :: "fuse \<Rightarrow> nat \<Rightarrow> fnode" where
  "node_at_addr fs a = fs_store fs ! a"

definition set_node :: "fuse \<Rightarrow> nat \<Rightarrow> fnode \<Rightarrow> fuse" where
  "set_node fs a n = fs\<lparr>fs_store := (fs_store fs)[a := n]\<rparr>"

definition findinode :: "fuse \<Rightarrow> nat \<Rightarrow> fuse_err + nat" where
  "findinode fs i = (case fs_inode_map fs i of None \<Rightarrow> Inl Enoent | Some a \<Rightarrow> Inr a)"

definition with_inode :: "fuse \<Rightarrow> nat \<Rightarrow> (nat \<Rightarrow> 'a fop) \<Rightarrow> 'a fop" where
  "with_inode fs i f = (case findinode fs i of Inl e \<Rightarrow> Some (Inl e, fs) | Inr a \<Rightarrow> f a)"

section \<open>Attributes\<close>

definition node_isdir :: "zfsnode \<Rightarrow> bool" where
  "node_isdir n \<longleftrightarrow> zn_stattype n = CHR ''d''"

definition node_size :: "zfsnode \<Rightarrow> sa_val" where
  "node_size n = (if node_isdir n then SA_num 0 else zn_size n)"

definition node_bonus :: "zfsnode \<Rightarrow> bonus option" where
  "node_bonus n = (case zn_dnode n of None \<Rightarrow> None | Some d \<Rightarrow> pn_bonus d)"

text \<open>\<open>mtime\<close>, \<open>atime\<close>, \<open>ctime\<close>: the first of two numbers, and the present time where there is no such
  attribute or it has no first part. The times of the old attributes are single numbers.\<close>

definition node_time :: "nat \<Rightarrow> string \<Rightarrow> zfsnode \<Rightarrow> nat" where
  "node_time now a n =
     (case node_bonus n of
        Some (Bonus_sa s) \<Rightarrow>
          (case sa_attr s a of
             Inr (SA_pair t _) \<Rightarrow> t
           | Inr (SA_bytes (b # _)) \<Rightarrow> unat b
           | _ \<Rightarrow> now)
      | _ \<Rightarrow> now)"

definition map_st_mode :: "char \<Rightarrow> nat option" where
  "map_st_mode = [CHR ''s'' \<mapsto> 0xC000, CHR ''l'' \<mapsto> 0xA000, CHR ''f'' \<mapsto> 0x8000, CHR ''b'' \<mapsto> 0x6000,
     CHR ''d'' \<mapsto> 0x4000, CHR ''c'' \<mapsto> 0x2000, CHR ''p'' \<mapsto> 0x1000]"

record attributes =
  st_mode :: nat
  st_size :: sa_val
  st_ino :: nat
  st_atime_ns :: nat
  st_ctime_ns :: nat
  st_mtime_ns :: nat

definition node_attr :: "nat \<Rightarrow> zfsnode \<Rightarrow> attributes" where
  "node_attr now n =
     \<lparr>st_mode = 0x1FF + (case map_st_mode (zn_stattype n) of None \<Rightarrow> 0 | Some m \<Rightarrow> m),
      st_size = node_size n, st_ino = zn_inode n,
      st_atime_ns = node_time now ''zp_atime'' n * 10 ^ 9, st_ctime_ns = node_time now ''zp_ctime'' n * 10 ^ 9,
      st_mtime_ns = node_time now ''zp_mtime'' n * 10 ^ 9\<rparr>"

definition getattr :: "nat \<Rightarrow> fuse \<Rightarrow> nat \<Rightarrow> attributes fop" where
  "getattr now fs i = with_inode fs i (\<lambda>a. Some (Inr (node_attr now (fn_node (node_at_addr fs a))), fs))"

section \<open>Directories\<close>

text \<open>\<open>zfsnode.readdir\<close>: the nodes are made once and kept.\<close>

definition node_readdir ::
    "layouts option \<Rightarrow> decoders \<Rightarrow> nat \<Rightarrow> reader \<Rightarrow> nat \<Rightarrow> fuse \<Rightarrow> nat \<Rightarrow> nat list option fop" where
  "node_readdir lay de zdepth rb ino_root fs a =
     (let n = node_at_addr fs a in
      case fn_directory n of
        Some l \<Rightarrow> Some (Inr (Some l), fs)
      | None \<Rightarrow>
          (case readdir lay de zdepth rb (fs_os fs) (zn_datasetid (fn_node n)) ino_root (zn_abspath (fn_node n)) of
             None \<Rightarrow> None
           | Some (Inl e) \<Rightarrow> Some (Inl (Raised e), fs)
           | Some (Inr (None, os)) \<Rightarrow> Some (Inr None, fs\<lparr>fs_os := os\<rparr>)
           | Some (Inr (Some ns, os)) \<Rightarrow>
               let l = [length (fs_store fs)..<length (fs_store fs) + length ns] in
               Some (Inr (Some l),
                 fs\<lparr>fs_store := (fs_store fs)[a := n\<lparr>fn_directory := Some l\<rparr>] @ map new_node ns, fs_os := os\<rparr>)))"

definition lookup ::
    "layouts option \<Rightarrow> decoders \<Rightarrow> nat \<Rightarrow> reader \<Rightarrow> nat \<Rightarrow> nat \<Rightarrow> fuse \<Rightarrow> nat \<Rightarrow> name \<Rightarrow> attributes fop" where
  "lookup lay de zdepth rb ino_root now fs parent nm =
     with_inode fs parent (\<lambda>a.
     case node_readdir lay de zdepth rb ino_root fs a of
       None \<Rightarrow> None
     | Some (Inl e, fs) \<Rightarrow> Some (Inl e, fs)
     | Some (Inr None, fs) \<Rightarrow> Some (Inl Enoent, fs)
     | Some (Inr (Some l), fs) \<Rightarrow>
         (case filter (\<lambda>b. zn_name (fn_node (node_at_addr fs b)) = nm) (rev l) of
            [] \<Rightarrow> Some (Inl Enoent, fs)
          | b # _ \<Rightarrow>
              let attr = node_attr now (fn_node (node_at_addr fs b)) in
              Some (Inr attr, fs\<lparr>fs_inode_map := (fs_inode_map fs)(st_ino attr \<mapsto> b)\<rparr>)))"

text \<open>\<open>zfsfuse.readdir\<close>: the entries after inode \<open>start\<close>, in the order of inodes and names.\<close>

definition fuse_readdir ::
    "layouts option \<Rightarrow> decoders \<Rightarrow> nat \<Rightarrow> reader \<Rightarrow> nat \<Rightarrow> fuse \<Rightarrow> nat \<Rightarrow> nat \<Rightarrow> (nat \<times> name) list fop" where
  "fuse_readdir lay de zdepth rb ino_root fs fh start =
     with_inode fs fh (\<lambda>a.
     case node_readdir lay de zdepth rb ino_root fs a of
       None \<Rightarrow> None
     | Some (Inl e, fs) \<Rightarrow> Some (Inl e, fs)
     | Some (Inr None, fs) \<Rightarrow> Some (Inl (Raised Type_error), fs)
     | Some (Inr (Some l), fs) \<Rightarrow>
         Some (Inr (filter (\<lambda>(ino, nm). start < ino)
           (sort (map (\<lambda>b. let n = fn_node (node_at_addr fs b) in (zn_inode n, zn_name n)) l))), fs))"

section \<open>Files\<close>

text \<open>\<open>extract_file\<close> as the mount calls it: what \<open>Dataset.extract_file\<close> writes into the temporary file and
  into the list of problems. It raises before the file is made when the object cannot be looked
  up.\<close>

definition ds_extract ::
    "layouts option \<Rightarrow> reader \<Rightarrow> bytes \<Rightarrow> nat \<Rightarrow> fuse \<Rightarrow> nat \<Rightarrow> name \<Rightarrow> bool fop" where
  "ds_extract lay rb left tmp fs v path =
     (case ds_getitem lay rb (fs_os fs) v of
        None \<Rightarrow> None
      | Some (Inl e) \<Rightarrow> Some (Inl (Raised e), fs)
      | Some (Inr (None, os)) \<Rightarrow> Some (Inl (Raised Attribute_error), fs\<lparr>fs_os := os, fs_files := (fs_files fs)(tmp \<mapsto> [])\<rparr>)
      | Some (Inr (Some dn, os)) \<Rightarrow>
          (case extract_dnode rb dn of
             None \<Rightarrow> None
           | Some (Inl e) \<Rightarrow> Some (Inl (Raised e), fs\<lparr>fs_os := os, fs_files := (fs_files fs)(tmp \<mapsto> left)\<rparr>)
           | Some (Inr (content, success)) \<Rightarrow>
               Some (Inr success, fs\<lparr>fs_os := os, fs_files := (fs_files fs)(tmp \<mapsto> content),
                 fs_problems := fs_problems fs @
                   (if \<not> success \<and> bp_empty (hd (the (pn_blkptr dn))) then [path] else [])\<rparr>)))"

definition node_extract :: "layouts option \<Rightarrow> reader \<Rightarrow> bytes \<Rightarrow> nat \<Rightarrow> fuse \<Rightarrow> nat \<Rightarrow> unit fop" where
  "node_extract lay rb left tmp fs a =
     (let n = node_at_addr fs a in
      if zn_stattype (fn_node n) \<noteq> CHR ''f'' then Some (Inr (), fs)
      else
        (case ds_extract lay rb left tmp (set_node fs a (n\<lparr>fn_cache_file := Some tmp\<rparr>)) (zn_datasetid (fn_node n))
            (zn_abspath (fn_node n)) of
           None \<Rightarrow> None
         | Some (Inl e, fs) \<Rightarrow> Some (Inr (), fs\<lparr>fs_problems := fs_problems fs @ [zn_abspath (fn_node n)]\<rparr>)
         | Some (Inr success, fs) \<Rightarrow> Some (Inr (), fs)))"

text \<open>The size is printed as a number at the end.\<close>

definition fuse_open :: "layouts option \<Rightarrow> reader \<Rightarrow> bytes \<Rightarrow> nat \<Rightarrow> fuse \<Rightarrow> nat \<Rightarrow> nat fop" where
  "fuse_open lay rb left tmp fs i =
     with_inode fs i (\<lambda>a.
     case node_extract lay rb left tmp fs a of
       None \<Rightarrow> None
     | Some (Inl e, fs) \<Rightarrow> Some (Inl e, fs)
     | Some (Inr _, fs) \<Rightarrow>
         (case sa_number (node_size (fn_node (node_at_addr fs a))) of
            Inl e \<Rightarrow> Some (Inl (Raised e), fs) | Inr n \<Rightarrow> Some (Inr i, fs)))"

text \<open>\<open>zfsnode.read\<close> opens the temporary file, whose name may be missing.\<close>

definition fuse_read :: "fuse \<Rightarrow> nat \<Rightarrow> nat \<Rightarrow> nat \<Rightarrow> bytes fop" where
  "fuse_read fs fh start sz =
     with_inode fs fh (\<lambda>a.
     case fn_cache_file (node_at_addr fs a) of
       None \<Rightarrow> Some (Inl (Raised Type_error), fs)
     | Some t \<Rightarrow>
         (case fs_files fs t of
            None \<Rightarrow> Some (Inl (Raised Os_error), fs)
          | Some content \<Rightarrow> Some (Inr (slice content start (start + sz)), fs)))"

definition fuse_readlink :: "decoders \<Rightarrow> fuse \<Rightarrow> nat \<Rightarrow> name fop" where
  "fuse_readlink de fs i =
     with_inode fs i (\<lambda>a.
     case node_bonus (fn_node (node_at_addr fs a)) of
       Some (Bonus_sa s) \<Rightarrow>
         (case sa_attr s ''zp_symlink'' of
            Inr (SA_bytes b) \<Rightarrow> Some (Inr (safe_decode_string de b), fs)
          | _ \<Rightarrow> Some (Inl Enoent, fs))
     | _ \<Rightarrow> Some (Inl Enoent, fs))"

definition fuse_release :: "fuse \<Rightarrow> nat \<Rightarrow> unit fop" where
  "fuse_release fs fd =
     with_inode fs fd (\<lambda>a.
     case fn_cache_file (node_at_addr fs a) of
       None \<Rightarrow> Some (Inr (), fs)
     | Some t \<Rightarrow>
         (case fs_files fs t of
            None \<Rightarrow> Some (Inl (Raised Os_error), fs)
          | Some _ \<Rightarrow> Some (Inr (), fs\<lparr>fs_files := (fs_files fs)(t := None)\<rparr>)))"

section \<open>The states of a mount\<close>

datatype fuse_op = Op_getattr nat | Op_lookup nat name | Op_readdir nat nat | Op_open bytes nat nat
  | Op_read nat nat nat | Op_readlink nat | Op_release nat

fun run_op :: "layouts option \<Rightarrow> decoders \<Rightarrow> nat \<Rightarrow> reader \<Rightarrow> nat \<Rightarrow> nat \<Rightarrow> fuse_op \<Rightarrow> fuse \<Rightarrow> fuse option" where
  "run_op lay de zdepth rb ino_root now (Op_getattr i) fs = map_option snd (getattr now fs i)"
| "run_op lay de zdepth rb ino_root now (Op_lookup i nm) fs = map_option snd (lookup lay de zdepth rb ino_root now fs i nm)"
| "run_op lay de zdepth rb ino_root now (Op_readdir i start) fs = map_option snd (fuse_readdir lay de zdepth rb ino_root fs i start)"
| "run_op lay de zdepth rb ino_root now (Op_open left tmp i) fs = map_option snd (fuse_open lay rb left tmp fs i)"
| "run_op lay de zdepth rb ino_root now (Op_read i start sz) fs = map_option snd (fuse_read fs i start sz)"
| "run_op lay de zdepth rb ino_root now (Op_readlink i) fs = map_option snd (fuse_readlink de fs i)"
| "run_op lay de zdepth rb ino_root now (Op_release i) fs = map_option snd (fuse_release fs i)"

inductive mounted :: "layouts option \<Rightarrow> decoders \<Rightarrow> nat \<Rightarrow> reader \<Rightarrow> objectset \<Rightarrow> nat \<Rightarrow> nat \<Rightarrow> nat \<Rightarrow> fuse \<Rightarrow> bool"
  for lay de zdepth rb os root ino_root now where
  mount: "zfsfuse_init lay rb os root ino_root = Some (Inr fs) \<Longrightarrow> mounted lay de zdepth rb os root ino_root now fs"
| operation: "mounted lay de zdepth rb os root ino_root now fs \<Longrightarrow> run_op lay de zdepth rb ino_root now op fs = Some fs' \<Longrightarrow>
    mounted lay de zdepth rb os root ino_root now fs'"

text \<open>A node stands for the object its inode is made of; the inode map and the directories lead to nodes,
  the map to one with the inode asked for.\<close>

definition node_ok :: "nat \<Rightarrow> nat \<Rightarrow> zfsnode \<Rightarrow> bool" where
  "node_ok root ino_root n \<longleftrightarrow>
     zn_inode n = ino_root + zn_datasetid n \<or> zn_inode n = ino_root \<and> zn_datasetid n = root"

definition fs_ok :: "nat \<Rightarrow> nat \<Rightarrow> fuse \<Rightarrow> bool" where
  "fs_ok root ino_root fs \<longleftrightarrow>
     (\<forall>n \<in> set (fs_store fs). node_ok root ino_root (fn_node n)
        \<and> (\<forall>l. fn_directory n = Some l \<longrightarrow> (\<forall>b \<in> set l. b < length (fs_store fs))))
     \<and> (\<forall>i a. fs_inode_map fs i = Some a \<longrightarrow> a < length (fs_store fs) \<and> zn_inode (fn_node (node_at_addr fs a)) = i)"

lemma fs_ok_other:
  "fs_ok root ino_root (fs\<lparr>fs_os := os\<rparr>) = fs_ok root ino_root fs"
  "fs_ok root ino_root (fs\<lparr>fs_files := f\<rparr>) = fs_ok root ino_root fs"
  "fs_ok root ino_root (fs\<lparr>fs_problems := p\<rparr>) = fs_ok root ino_root fs"
  by (simp_all add: fs_ok_def node_at_addr_def)

lemma readdir_entries_nodes:
  "readdir_entries lay rb os z ino_root path nms r = Some (Inr (ns, os')) \<Longrightarrow> \<forall>n \<in> set r. node_ok root ino_root n \<Longrightarrow>
   \<forall>n \<in> set ns. node_ok root ino_root n"
proof (induction nms arbitrary: os r)
  case (Cons nm nms)
  then obtain k v d os1 where s: "dirent (map_of z nm) = Inr (k, v)" "ds_getitem lay rb os v = Some (Inr (Some d, os1))"
    by (auto simp: io_bind_Inr split: option.splits)
  obtain sz md where m: "size_mode (pn_bonus d) = (sz, md)" by (cases "size_mode (pn_bonus d)")
  let ?n = "\<lparr>zn_dnode = Some d, zn_stattype = k, zn_mode = md, zn_datasetid = v, zn_size = sz, zn_name = nm,
    zn_inode = ino_root + v, zn_abspath = path @ code_points ''/'' @ nm\<rparr>"
  have "readdir_entries lay rb os1 z ino_root path nms (r @ [?n]) = Some (Inr (ns, os'))"
    using Cons.prems(1) by (simp add: s m)
  moreover have "\<forall>n \<in> set (r @ [?n]). node_ok root ino_root n" using Cons.prems(2) by (auto simp: node_ok_def)
  ultimately show ?case by (rule Cons.IH)
qed simp

lemma readdir_nodes:
  assumes "readdir lay de zdepth rb os v ino_root path = Some (Inr (Some ns, os'))"
  shows "\<forall>n \<in> set ns. node_ok root ino_root n"
proof -
  obtain d os1 where d: "ds_getitem lay rb os v = Some (Inr (d, os1))"
    using assms by (auto simp: readdir_def io_bind_Inr)
  show ?thesis
  proof (cases "\<exists>dn z. d = Some dn \<and> zap_factory de zdepth rb dn = Some (Inr (Some z))")
    case True
    then obtain dn z where z: "d = Some dn" "zap_factory de zdepth rb dn = Some (Inr (Some z))" by blast
    then have "readdir_entries lay rb os1 z ino_root path (sort (map fst z)) [] = Some (Inr (ns, os'))"
      using assms by (auto simp: readdir_def d io_bind_Inr)
    then show ?thesis by (rule readdir_entries_nodes) simp
  next
    case False
    then have "ns = []" using assms by (cases d) (auto simp: readdir_def d split: option.splits sum.splits)
    then show ?thesis by simp
  qed
qed

lemma node_readdir_ok:
  assumes "node_readdir lay de zdepth rb ino_root fs a = Some (r, fs')" and "fs_ok root ino_root fs" and "a < length (fs_store fs)"
  shows "fs_ok root ino_root fs' \<and> length (fs_store fs) \<le> length (fs_store fs')
    \<and> (\<forall>l. r = Inr (Some l) \<longrightarrow> (\<forall>b \<in> set l. b < length (fs_store fs')))"
proof -
  let ?n = "node_at_addr fs a"
  have n: "?n \<in> set (fs_store fs)" using assms(3) by (simp add: node_at_addr_def)
  show ?thesis
  proof (cases "fn_directory ?n")
    case (Some l)
    then show ?thesis using assms n by (auto simp: node_readdir_def Let_def fs_ok_def)
  next
    case None
    consider (same) "fs' = fs" "\<forall>l. r \<noteq> Inr (Some l)"
      | (none) os where "fs' = fs\<lparr>fs_os := os\<rparr>" "\<forall>l. r \<noteq> Inr (Some l)"
      | (new) ns os where "readdir lay de zdepth rb (fs_os fs) (zn_datasetid (fn_node ?n)) ino_root (zn_abspath (fn_node ?n)) = Some (Inr (Some ns, os))"
        "r = Inr (Some [length (fs_store fs)..<length (fs_store fs) + length ns])"
        "fs' = fs\<lparr>fs_store := (fs_store fs)[a := ?n\<lparr>fn_directory := Some [length (fs_store fs)..<length (fs_store fs) + length ns]\<rparr>] @ map new_node ns, fs_os := os\<rparr>"
      using assms(1) None unfolding node_readdir_def Let_def by (auto split: option.splits sum.splits)
    then show ?thesis
    proof cases
      case same
      then show ?thesis using assms(2) by simp
    next
      case none
      then show ?thesis using assms(2) by (simp add: fs_ok_other)
    next
      case new
      have "\<forall>n \<in> set ns. node_ok root ino_root n"
        by (rule readdir_nodes [OF new(1)])
      then show ?thesis
        using assms(2,3) n unfolding new(2,3) fs_ok_def node_at_addr_def
        by (auto simp: new_node_def nth_append nth_list_update dest!: set_update_subset_insert [THEN subsetD] intro: trans_less_add1)
    qed
  qed
qed

lemma with_inode_cases:
  assumes "with_inode fs i f = Some (r, fs')"
  obtains "fs' = fs" | a where "fs_inode_map fs i = Some a" "f a = Some (r, fs')"
  using assms by (auto simp: with_inode_def findinode_def split: option.splits)

lemma fs_ok_set_node:
  assumes "fs_ok root ino_root fs" and "a < length (fs_store fs)" and "fn_node n = fn_node (node_at_addr fs a)"
    and "fn_directory n = fn_directory (node_at_addr fs a)"
  shows "fs_ok root ino_root (set_node fs a n)"
proof -
  have d: "b < length (fs_store fs)" if "Some l = fn_directory (fs_store fs ! a)" "b \<in> set l" for l b
    using assms(1) nth_mem [OF assms(2)] that unfolding fs_ok_def by metis
  show ?thesis using assms unfolding fs_ok_def set_node_def node_at_addr_def
    by (auto simp: nth_list_update dest: d dest!: set_update_subset_insert [THEN subsetD])
qed

lemma ds_extract_ok: "ds_extract lay rb left tmp fs v path = Some (r, fs') \<Longrightarrow> fs_ok root ino_root fs' = fs_ok root ino_root fs"
  by (auto simp: ds_extract_def fs_ok_def node_at_addr_def split: option.splits sum.splits)

lemma node_extract_ok:
  assumes "node_extract lay rb left tmp fs a = Some (r, fs')" and "fs_ok root ino_root fs" and "a < length (fs_store fs)"
  shows "fs_ok root ino_root fs'"
proof -
  let ?fs = "set_node fs a (node_at_addr fs a\<lparr>fn_cache_file := Some tmp\<rparr>)"
  have ok: "fs_ok root ino_root ?fs" by (rule fs_ok_set_node [OF assms(2,3)]) simp_all
  show ?thesis
  proof (cases "zn_stattype (fn_node (node_at_addr fs a)) \<noteq> CHR ''f''")
    case False
    then obtain r' fs1 where e: "ds_extract lay rb left tmp ?fs (zn_datasetid (fn_node (node_at_addr fs a))) (zn_abspath (fn_node (node_at_addr fs a)))
        = Some (r', fs1)"
      using assms(1) by (auto simp: node_extract_def Let_def split: option.splits)
    then have "fs_ok root ino_root fs1" using ds_extract_ok ok by blast
    moreover have "fs' = fs1 \<or> fs' = fs1\<lparr>fs_problems := fs_problems fs1 @ [zn_abspath (fn_node (node_at_addr fs a))]\<rparr>"
      using assms(1) e False by (auto simp: node_extract_def Let_def split: sum.splits)
    ultimately show ?thesis by (auto simp: fs_ok_other)
  qed (use assms in \<open>simp add: node_extract_def Let_def\<close>)
qed

lemma lookup_ok:
  assumes "lookup lay de zdepth rb ino_root now fs i nm = Some (r, fs')" and "fs_ok root ino_root fs"
  shows "fs_ok root ino_root fs'"
  using assms(1) unfolding lookup_def
proof (cases rule: with_inode_cases)
  case (2 a)
  then have a: "a < length (fs_store fs)" using assms(2) by (auto simp: fs_ok_def)
  obtain q fs1 where q: "node_readdir lay de zdepth rb ino_root fs a = Some (q, fs1)"
    using 2(2) by (auto split: option.splits)
  note ok = node_readdir_ok [OF q assms(2) a]
  show ?thesis
  proof (cases "\<exists>l b bs. q = Inr (Some l) \<and> filter (\<lambda>b. zn_name (fn_node (node_at_addr fs1 b)) = nm) (rev l) = b # bs")
    case True
    then obtain l b bs where l: "q = Inr (Some l)" "filter (\<lambda>b. zn_name (fn_node (node_at_addr fs1 b)) = nm) (rev l) = b # bs" by blast
    then have "b \<in> set (filter (\<lambda>b. zn_name (fn_node (node_at_addr fs1 b)) = nm) (rev l))" by simp
    then have "b < length (fs_store fs1)" using ok l(1) by simp
    moreover have "fs' = fs1\<lparr>fs_inode_map := (fs_inode_map fs1)(zn_inode (fn_node (node_at_addr fs1 b)) \<mapsto> b)\<rparr>"
      using 2(2) by (simp add: q l Let_def node_attr_def)
    ultimately show ?thesis using ok by (auto simp: fs_ok_def node_at_addr_def)
  next
    case False
    then have "fs' = fs1" using 2(2) by (auto simp: q split: sum.splits option.splits list.splits)
    then show ?thesis using ok by simp
  qed
qed (use assms(2) in simp)

lemma run_op_ok:
  assumes "run_op lay de zdepth rb ino_root now op fs = Some fs'" and ok: "fs_ok root ino_root fs"
  shows "fs_ok root ino_root fs'"
proof -
  have lt: "a < length (fs_store fs)" if "fs_inode_map fs i = Some a" for i a using that ok by (auto simp: fs_ok_def)
  show ?thesis
  proof (cases op)
    case (Op_lookup i nm)
    then show ?thesis using assms(1) lookup_ok [OF _ ok] by fastforce
  next
    case (Op_readdir i start)
    then obtain r where "fuse_readdir lay de zdepth rb ino_root fs i start = Some (r, fs')" using assms(1) by auto
    then show ?thesis unfolding fuse_readdir_def
    proof (cases rule: with_inode_cases)
      case (2 a)
      then show ?thesis using node_readdir_ok [OF _ ok lt] by (fastforce split: option.splits sum.splits)
    qed (use ok in simp)
  next
    case (Op_open left tmp i)
    then obtain r where "fuse_open lay rb left tmp fs i = Some (r, fs')" using assms(1) by auto
    then show ?thesis unfolding fuse_open_def
    proof (cases rule: with_inode_cases)
      case (2 a)
      then show ?thesis using node_extract_ok [OF _ ok lt] by (fastforce split: option.splits sum.splits)
    qed (use ok in simp)
  qed (use assms in \<open>auto simp: getattr_def fuse_read_def fuse_readlink_def fuse_release_def fs_ok_other
      elim!: with_inode_cases split: option.splits sum.splits sa_val.splits bonus.splits\<close>)
qed

lemma mounted_ok: "mounted lay de zdepth rb os root ino_root now fs \<Longrightarrow> fs_ok root ino_root fs"
proof (induction rule: mounted.induct)
  case (mount fs)
  then show ?case
    by (auto simp: zfsfuse_init_def rootdir_def io_bind_Inr fs_ok_def node_ok_def new_node_def node_at_addr_def split: if_splits)
next
  case (operation fs op fs')
  then show ?case using run_op_ok by blast
qed

text \<open>What operations do to the inode map: at most one new entry, never one less.\<close>

inductive later :: "layouts option \<Rightarrow> decoders \<Rightarrow> nat \<Rightarrow> reader \<Rightarrow> nat \<Rightarrow> nat \<Rightarrow> fuse \<Rightarrow> fuse \<Rightarrow> bool"
  for lay de zdepth rb ino_root now fs where
  now: "later lay de zdepth rb ino_root now fs fs"
| after: "later lay de zdepth rb ino_root now fs fs' \<Longrightarrow> run_op lay de zdepth rb ino_root now op fs' = Some fs'' \<Longrightarrow>
    later lay de zdepth rb ino_root now fs fs''"

lemma node_readdir_map: "node_readdir lay de zdepth rb ino_root fs a = Some (r, fs') \<Longrightarrow> fs_inode_map fs' = fs_inode_map fs"
  by (auto simp: node_readdir_def Let_def split: option.splits sum.splits)

lemma ds_extract_map: "ds_extract lay rb left tmp fs v path = Some (r, fs') \<Longrightarrow> fs_inode_map fs' = fs_inode_map fs"
  by (auto simp: ds_extract_def split: option.splits sum.splits)

lemma node_extract_map: "node_extract lay rb left tmp fs a = Some (r, fs') \<Longrightarrow> fs_inode_map fs' = fs_inode_map fs"
  by (auto simp: node_extract_def set_node_def Let_def dest!: ds_extract_map split: option.splits sum.splits if_splits)

lemma run_op_map:
  assumes "run_op lay de zdepth rb ino_root now op fs = Some fs'"
  shows "dom (fs_inode_map fs) \<subseteq> dom (fs_inode_map fs')"
proof (cases op)
  case (Op_lookup i nm)
  then obtain r where "lookup lay de zdepth rb ino_root now fs i nm = Some (r, fs')" using assms by auto
  then show ?thesis unfolding lookup_def
  proof (cases rule: with_inode_cases)
    case (2 a)
    then show ?thesis
      by (auto simp: Let_def dest!: node_readdir_map split: option.splits sum.splits list.splits)
  qed simp
next
  case (Op_readdir i start)
  then obtain r where "fuse_readdir lay de zdepth rb ino_root fs i start = Some (r, fs')" using assms by auto
  then show ?thesis unfolding fuse_readdir_def
    by (cases rule: with_inode_cases) (auto dest!: node_readdir_map split: option.splits sum.splits)
next
  case (Op_open left tmp i)
  then obtain r where "fuse_open lay rb left tmp fs i = Some (r, fs')" using assms by auto
  then show ?thesis unfolding fuse_open_def
    by (cases rule: with_inode_cases) (auto dest!: node_extract_map split: option.splits sum.splits)
qed (use assms in \<open>auto simp: getattr_def fuse_read_def fuse_readlink_def fuse_release_def
  elim!: with_inode_cases split: option.splits sum.splits sa_val.splits bonus.splits\<close>)

lemma later_map: "later lay de zdepth rb ino_root now fs fs' \<Longrightarrow> dom (fs_inode_map fs) \<subseteq> dom (fs_inode_map fs')"
  by (induction rule: later.induct) (use run_op_map in blast)+

lemma later_mounted:
  "later lay de zdepth rb ino_root now fs fs' \<Longrightarrow> mounted lay de zdepth rb os root ino_root now fs \<Longrightarrow>
   mounted lay de zdepth rb os root ino_root now fs'"
  by (induction rule: later.induct) (auto intro: operation)

lemma mounted_inode:
  assumes "mounted lay de zdepth rb os root ino_root now fs" and "fs_inode_map fs i = Some a"
  shows "a < length (fs_store fs) \<and> zn_inode (fn_node (node_at_addr fs a)) = i
    \<and> (if i = ino_root then zn_datasetid (fn_node (node_at_addr fs a)) \<in> {root, 0}
       else i = ino_root + zn_datasetid (fn_node (node_at_addr fs a)))"
proof -
  have ok: "fs_ok root ino_root fs" by (rule mounted_ok [OF assms(1)])
  then have a: "a < length (fs_store fs)" "zn_inode (fn_node (node_at_addr fs a)) = i" using assms(2) by (auto simp: fs_ok_def)
  then have "node_ok root ino_root (fn_node (node_at_addr fs a))" using ok by (simp add: fs_ok_def node_at_addr_def)
  then show ?thesis using a by (auto simp: node_ok_def)
qed

text \<open>
  C19: in every state a mount can reach, the inode map leads to a node of the store that reports this very
  inode. An inode other than the root's stands for one object, the inode minus the root's: once known it
  stays known, and whatever operations follow, it leads to a node of this object. The root's inode leads to
  a node of the root directory, or of object 0: an entry with object number 0 gets the root's inode too, and
  a lookup of it puts its node in the place of the root.
\<close>

theorem fuse_inodes:
  assumes "mounted lay de zdepth rb os root ino_root now fs" and "fs_inode_map fs i = Some a"
    and "later lay de zdepth rb ino_root now fs fs'"
  shows "a < length (fs_store fs) \<and> getattr now fs i = Some (Inr (node_attr now (fn_node (node_at_addr fs a))), fs)
    \<and> st_ino (node_attr now (fn_node (node_at_addr fs a))) = i
    \<and> (if i = ino_root then zn_datasetid (fn_node (node_at_addr fs a)) \<in> {root, 0}
       else i = ino_root + zn_datasetid (fn_node (node_at_addr fs a)))
    \<and> (\<exists>a'. fs_inode_map fs' i = Some a' \<and> a' < length (fs_store fs')
        \<and> getattr now fs' i = Some (Inr (node_attr now (fn_node (node_at_addr fs' a'))), fs')
        \<and> (i \<noteq> ino_root \<longrightarrow> zn_datasetid (fn_node (node_at_addr fs' a')) = zn_datasetid (fn_node (node_at_addr fs a))))"
proof -
  obtain a' where a': "fs_inode_map fs' i = Some a'" using later_map [OF assms(3)] assms(2) by blast
  note p = mounted_inode [OF assms(1,2)] mounted_inode [OF later_mounted [OF assms(3,1)] a']
  then have "i \<noteq> ino_root \<longrightarrow> zn_datasetid (fn_node (node_at_addr fs' a')) = zn_datasetid (fn_node (node_at_addr fs a))"
    by auto
  then show ?thesis using p a' assms(2)
    by (auto simp: getattr_def with_inode_def findinode_def node_attr_def split: if_splits)
qed

text \<open>The mount of the directory of one file, after a lookup.\<close>

theorem fuse_inodes_witness:
  "\<exists>fs. mounted (Some size_layout) demo_decoders 1000 (numbered demo_blocks) (demo_set 1024) 0 1 77 fs
     \<and> fs_inode_map fs 2 = Some 1 \<and> st_ino (node_attr 77 (fn_node (node_at_addr fs 1))) = 2
     \<and> zn_datasetid (fn_node (node_at_addr fs 1)) = 1
     \<and> (\<exists>a'. fs_inode_map fs 2 = Some a' \<and> zn_datasetid (fn_node (node_at_addr fs a')) = 1)"
proof -
  let ?lay = "Some size_layout" and ?rb = "numbered demo_blocks" and ?ls = "[small_ptr 1]" and ?blks = "[demo_blocks 1]"
  obtain dn fn s where d: "obj_at ?lay 2 ?blks 0 dn" "obj_at ?lay 2 ?blks 1 fn" "bonus_size (pn_bonus dn) = Inr s"
    "file_at ?rb fn [7, 8] True" "zap_factory demo_decoders 1000 ?rb dn = Some (Inr (Some [([97], ZV_num (2 ^ 63 + 1))]))"
    by (rule demo_objects)
  obtain os1 where os1: "ds_getitem ?lay ?rb (demo_set 1024) 0 = Some (Inr (Some dn, os1))" "os_ok ?rb ?ls ?blks os1" "dnodes_per_block os1 = 2"
    using ds_getitem_ok [OF demo_os_ok(1)] d(1) demo_os_ok(2) by force
  obtain os2 where os2: "ds_getitem ?lay ?rb os1 0 = Some (Inr (Some dn, os2))" "os_ok ?rb ?ls ?blks os2" "dnodes_per_block os2 = 2"
    using ds_getitem_ok [OF os1(2)] d(1) os1(3) by force
  obtain os3 where os3: "ds_getitem ?lay ?rb os2 1 = Some (Inr (Some fn, os3))"
    using ds_getitem_ok [OF os2(2)] d(2) os2(3) by force
  obtain sz md where m: "size_mode (pn_bonus fn) = (sz, md)" by (cases "size_mode (pn_bonus fn)")
  define root where "root = \<lparr>zn_dnode = Some dn, zn_stattype = CHR ''d'', zn_mode = SA_none, zn_datasetid = 0, zn_size = SA_num 0,
       zn_name = code_points ''/'', zn_inode = 1, zn_abspath = []\<rparr>"
  define fs where "fs = \<lparr>fs_store = [new_node root], fs_inode_map = [1 \<mapsto> 0], fs_os = os1, fs_files = Map.empty, fs_problems = []\<rparr>"
  have "zfsfuse_init ?lay ?rb (demo_set 1024) 0 1 = Some (Inr fs)"
    by (simp add: zfsfuse_init_def rootdir_def os1(1) fs_def root_def)
  then have m0: "mounted ?lay demo_decoders 1000 ?rb (demo_set 1024) 0 1 77 fs" by (rule mount)
  let ?n = "\<lparr>zn_dnode = Some fn, zn_stattype = CHR ''f'', zn_mode = md, zn_datasetid = 1, zn_size = sz, zn_name = [97],
       zn_inode = 2, zn_abspath = code_points ''/'' @ [97]\<rparr>"
  have r: "readdir ?lay demo_decoders 1000 ?rb os1 0 1 [] = Some (Inr (Some [?n], os3))"
    using demo_dirent by (simp add: readdir_def os2(1) d(5) os3 [simplified] m)
  let ?fs1 = "fs\<lparr>fs_store := [(new_node root)\<lparr>fn_directory := Some [1]\<rparr>, new_node ?n], fs_os := os3\<rparr>"
  have "node_readdir ?lay demo_decoders 1000 ?rb 1 fs 0 = Some (Inr (Some [1]), ?fs1)"
    using r by (simp add: node_readdir_def Let_def fs_def node_at_addr_def new_node_def root_def)
  then have "lookup ?lay demo_decoders 1000 ?rb 1 77 fs 1 [97]
      = Some (Inr (node_attr 77 ?n), ?fs1\<lparr>fs_inode_map := (fs_inode_map fs)(2 \<mapsto> 1)\<rparr>)"
    by (simp add: lookup_def with_inode_def findinode_def fs_def node_at_addr_def new_node_def node_attr_def Let_def)
  then have "run_op ?lay demo_decoders 1000 ?rb 1 77 (Op_lookup 1 [97]) fs = Some (?fs1\<lparr>fs_inode_map := (fs_inode_map fs)(2 \<mapsto> 1)\<rparr>)"
    by simp
  from operation [OF m0 this] have m1: "mounted ?lay demo_decoders 1000 ?rb (demo_set 1024) 0 1 77 (?fs1\<lparr>fs_inode_map := (fs_inode_map fs)(2 \<mapsto> 1)\<rparr>)" .
  have "fs_inode_map (?fs1\<lparr>fs_inode_map := (fs_inode_map fs)(2 \<mapsto> 1)\<rparr>) 2 = Some 1" by simp
  from fuse_inodes [OF m1 this now] m1 show ?thesis
    by (intro exI [of _ "?fs1\<lparr>fs_inode_map := (fs_inode_map fs)(2 \<mapsto> 1)\<rparr>"]) (simp add: node_at_addr_def new_node_def)
qed

section \<open>Opening, reading and releasing\<close>

lemma fuse_open_ok:
  assumes "fs_inode_map fs i = Some a" and "a < length (fs_store fs)" and "zn_stattype (fn_node (node_at_addr fs a)) = CHR ''f''"
    and "sa_number (zn_size (fn_node (node_at_addr fs a))) = Inr n" and "os_ok rb ls blks (fs_os fs)"
    and "obj_at lay (dnodes_per_block (fs_os fs)) blks (zn_datasetid (fn_node (node_at_addr fs a))) dn"
    and "file_at rb dn content whole"
  shows "\<exists>fs1. fuse_open lay rb left tmp fs i = Some (Inr i, fs1) \<and> fs_inode_map fs1 = fs_inode_map fs
    \<and> fs_store fs1 = (fs_store fs)[a := node_at_addr fs a\<lparr>fn_cache_file := Some tmp\<rparr>]
    \<and> fs_files fs1 = (fs_files fs)(tmp \<mapsto> content)
    \<and> os_ok rb ls blks (fs_os fs1) \<and> dnodes_per_block (fs_os fs1) = dnodes_per_block (fs_os fs)"
proof -
  let ?n = "node_at_addr fs a" and ?fs = "set_node fs a (node_at_addr fs a\<lparr>fn_cache_file := Some tmp\<rparr>)"
  obtain os where os: "ds_getitem lay rb (fs_os fs) (zn_datasetid (fn_node ?n)) = Some (Inr (Some dn, os))" "os_ok rb ls blks os"
    "dnodes_per_block os = dnodes_per_block (fs_os fs)"
    using ds_getitem_ok [OF assms(5,6)] by blast
  define ps where "ps = fs_problems fs @ (if \<not> whole \<and> bp_empty (hd (the (pn_blkptr dn))) then [zn_abspath (fn_node ?n)] else [])"
  have e: "ds_extract lay rb left tmp ?fs (zn_datasetid (fn_node ?n)) (zn_abspath (fn_node ?n))
      = Some (Inr whole, ?fs\<lparr>fs_os := os, fs_files := (fs_files fs)(tmp \<mapsto> content), fs_problems := ps\<rparr>)"
    using os(1) extract_dnode_ok [OF assms(7)] by (simp add: ds_extract_def set_node_def ps_def)
  have "node_extract lay rb left tmp fs a = Some (Inr (), ?fs\<lparr>fs_os := os, fs_files := (fs_files fs)(tmp \<mapsto> content), fs_problems := ps\<rparr>)"
    using assms(3) e by (simp add: node_extract_def Let_def)
  moreover have "node_size (fn_node ?n) = zn_size (fn_node ?n)" using assms(3) by (simp add: node_size_def node_isdir_def)
  ultimately show ?thesis
    using assms(1,2,4) os(2,3) by (simp add: fuse_open_def with_inode_def findinode_def set_node_def node_at_addr_def)
qed


definition demo_fuse :: fuse where
  "demo_fuse = \<lparr>fs_store = [new_node \<lparr>zn_dnode = None, zn_stattype = CHR ''f'', zn_mode = SA_none, zn_datasetid = 1, zn_size = SA_num 2,
     zn_name = [97], zn_inode = 2, zn_abspath = [47, 97]\<rparr>], fs_inode_map = [2 \<mapsto> 0], fs_os = demo_set 1024, fs_files = Map.empty,
     fs_problems = []\<rparr>"

lemma demo_fuse_simps:
  "fs_inode_map demo_fuse 2 = Some 0" "0 < length (fs_store demo_fuse)" "zn_stattype (fn_node (node_at_addr demo_fuse 0)) = CHR ''f''"
  "sa_number (zn_size (fn_node (node_at_addr demo_fuse 0))) = Inr 2" "zn_datasetid (fn_node (node_at_addr demo_fuse 0)) = 1"
  "fs_os demo_fuse = demo_set 1024" "fs_files demo_fuse = Map.empty"
  by (simp_all add: demo_fuse_def node_at_addr_def new_node_def sa_number_def)


text \<open>
  C38: a file that is open twice is not released twice. The second open forgets the first
  temporary file: the first release removes the second file, the other one stays for ever and the second
  release raises.
\<close>

theorem fuse_double_open:
  assumes "fs_inode_map fs i = Some a" and "a < length (fs_store fs)" and "zn_stattype (fn_node (node_at_addr fs a)) = CHR ''f''"
    and "sa_number (zn_size (fn_node (node_at_addr fs a))) = Inr n" and "os_ok rb ls blks (fs_os fs)"
    and "obj_at lay (dnodes_per_block (fs_os fs)) blks (zn_datasetid (fn_node (node_at_addr fs a))) dn"
    and "file_at rb dn content whole" and "tmp \<noteq> tmp'"
  shows "\<exists>fs1 fs2 fs3. fuse_open lay rb left tmp fs i = Some (Inr i, fs1) \<and> fuse_open lay rb left tmp' fs1 i = Some (Inr i, fs2)
    \<and> fuse_release fs2 i = Some (Inr (), fs3) \<and> fs_files fs3 tmp = Some content
    \<and> fuse_release fs3 i = Some (Inl (Raised Os_error), fs3)"
proof -
  obtain fs1 where o1: "fuse_open lay rb left tmp fs i = Some (Inr i, fs1)" "fs_inode_map fs1 = fs_inode_map fs"
    "fs_store fs1 = (fs_store fs)[a := node_at_addr fs a\<lparr>fn_cache_file := Some tmp\<rparr>]"
    "fs_files fs1 = (fs_files fs)(tmp \<mapsto> content)" "os_ok rb ls blks (fs_os fs1)"
    "dnodes_per_block (fs_os fs1) = dnodes_per_block (fs_os fs)"
    using fuse_open_ok [OF assms(1-7)] by blast
  have n: "fn_node (node_at_addr fs1 a) = fn_node (node_at_addr fs a)" using assms(2) by (simp add: node_at_addr_def o1(3))
  have "\<exists>fs2. fuse_open lay rb left tmp' fs1 i = Some (Inr i, fs2) \<and> fs_inode_map fs2 = fs_inode_map fs1
    \<and> fs_store fs2 = (fs_store fs1)[a := node_at_addr fs1 a\<lparr>fn_cache_file := Some tmp'\<rparr>]
    \<and> fs_files fs2 = (fs_files fs1)(tmp' \<mapsto> content)"
    using fuse_open_ok [of fs1 i a n rb ls blks lay dn content whole left tmp'] assms o1 n by auto
  then obtain fs2 where o2: "fuse_open lay rb left tmp' fs1 i = Some (Inr i, fs2)" "fs_inode_map fs2 = fs_inode_map fs1"
    "fs_store fs2 = (fs_store fs1)[a := node_at_addr fs1 a\<lparr>fn_cache_file := Some tmp'\<rparr>]"
    "fs_files fs2 = (fs_files fs1)(tmp' \<mapsto> content)" by blast
  have c: "fn_cache_file (node_at_addr fs2 a) = Some tmp'" using assms(2) by (simp add: node_at_addr_def o2(3) o1(3))
  let ?fs3 = "fs2\<lparr>fs_files := (fs_files fs2)(tmp' := None)\<rparr>"
  have "fuse_release fs2 i = Some (Inr (), ?fs3)"
    using assms(1) by (simp add: fuse_release_def with_inode_def findinode_def o1(2) o2(2,4) c)
  moreover have "fs_files ?fs3 tmp = Some content" using assms(8) by (simp add: o1(4) o2(4))
  moreover have "fuse_release ?fs3 i = Some (Inl (Raised Os_error), ?fs3)"
  proof -
    have "fn_cache_file (node_at_addr ?fs3 a) = Some tmp'" using c by (simp add: node_at_addr_def)
    then show ?thesis using assms(1) by (simp add: fuse_release_def with_inode_def findinode_def o1(2) o2(2))
  qed
  ultimately show ?thesis using o1(1) o2(1) by blast
qed

theorem fuse_double_open_witness:
  "\<exists>fs1 fs2 fs3. fuse_open (Some size_layout) (numbered demo_blocks) [] 5 demo_fuse 2 = Some (Inr 2, fs1)
    \<and> fuse_open (Some size_layout) (numbered demo_blocks) [] 6 fs1 2 = Some (Inr 2, fs2)
    \<and> fuse_release fs2 2 = Some (Inr (), fs3) \<and> fs_files fs3 5 = Some [7, 8]
    \<and> fuse_release fs3 2 = Some (Inl (Raised Os_error), fs3)"
proof -
  let ?lay = "Some size_layout" and ?rb = "numbered demo_blocks"
  obtain dn fn s where d: "obj_at ?lay 2 [demo_blocks 1] 1 fn" "file_at ?rb fn [7, 8] True"
    by (rule demo_objects)
  have "os_ok ?rb [small_ptr 1] [demo_blocks 1] (fs_os demo_fuse)"
    "obj_at ?lay (dnodes_per_block (fs_os demo_fuse)) [demo_blocks 1] (zn_datasetid (fn_node (node_at_addr demo_fuse 0))) fn"
    using demo_os_ok d(1) by (simp_all add: demo_fuse_simps)
  from fuse_double_open [OF demo_fuse_simps(1-4) this d(2), of 5 6 "[]"] show ?thesis by simp
qed

end
