(* ===== verification/Spec2Isabelle.thy ===== *)
theory Spec2Isabelle
  imports LZ4_Props LZ4_Steps Blkptr_Props Extractor_Props Zio Gf Dmu Sysmacros
    Zil Send_Stream Zap_Format Sa Packing Zfs_Enums Vdev_Ring Dnode_Space Metaslab Xvattr Znode
    Py_File Py_Label Py_Fuse
begin

text \<open>
  A verification library for the ZFS rescue tools.

  \<^bold>\<open>The program.\<close> The repository recovers data from a damaged RAID-Z pool. \<open>src/extractor\<close>
  is a C++ program that opens the child devices, reads the labels, the uberblocks, the block
  pointers and the object sets behind them; it carries the ZFS headers whose macros and
  structures define the on-disk format (\<open>extractor/include/sys\<close>, \<open>extractor/defs.h\<close>).
  The rescue scripts of \<open>src/zfs\<close> do the same work in Python, over the block server of
  \<open>src/block_server\<close> and the client of \<open>src/block_proxy\<close> when the disks are on another machine.
  \<open>src/de.c\<close> (with the same text in \<open>extractor/lz4.cpp\<close>) decompresses LZ4 blocks, and
  \<open>src/zfs/python-lz4-0.7.0+dfsg.c.bck\<close> wraps it for the Python scripts.

  \<^bold>\<open>Conventions.\<close> Machine integers are words of their width, sizes and indices whose C type
  cannot overflow in the range reached are naturals. A C object is a list of bytes (\<open>Prelude\<close>); an
  access outside it is \<^const>\<open>None\<close>, or, in the layers above the decoder, the outcome
  \<open>Inl Undefined\<close>; a failed assertion is \<open>Inl Assert_failed\<close>. The \<open>int\<close> functions of \<open>zio.cpp\<close> that run off
  their end without a \<open>return\<close> take an argument \<open>std\<close>: by the C++ standard (\<open>True\<close>) the end is
  \<open>Undefined\<close>, in the makefile's build without optimisation (\<open>False\<close>) they come back, with a value
  nothing looks at; the theorems state both. Definitions keep the C names, a structure whose
  layout is described next to its record has the suffix \<open>_layout\<close>, and a second version of a macro
  selected by the data model has the suffix \<open>_lp64\<close>.

  \<^bold>\<open>LZ4.\<close> \<open>LZ4\<close> models \<open>LZ4_uncompress_unknownOutputSize\<close> with its copy macros for both word
  sizes (\<open>arch64\<close>); the destination's address is a parameter because the code compares
  pointers for wrap-around. \<open>LZ4_Copy\<close> and \<open>LZ4_Match\<close> say what the wide, overlapping copies leave in memory.
  \<open>LZ4_Ref\<close> is the specification: the reader \<open>lz4_format\<close> of the block format, which names what is wrong
  with a block, an encoder, and between format and code the lenient reading \<open>lz4_lax\<close> that the
  code's control flow amounts to. \<open>LZ4_Correct\<close> and \<open>LZ4_Block\<close> hold the refinement of one round and of the loop, \<open>LZ4_Steps\<close> the loop as a transition system:
  the decoder has at most one round per byte of input, so no fuel is needed. \<open>LZ4_Wrap\<close> holds
  \<open>lz4_decompress_zfs\<close> and the Python entry points, the LZ4 library of the packaged binding as the locale
  \<open>lz4_library\<close>. \<open>LZ4_Props\<close> states the properties: safety, what an accepted block is in the format (and the
  blocks outside of it that are accepted), round trips on the 64-bit build, and where the 32-bit build and the binding break their promise.

  \<^bold>\<open>The extractor.\<close> \<open>Abd\<close> is its heap of buffers, \<open>Raidz\<close> the function
  \<open>vdev_raidz_map_alloc\<close> of \<open>zio.cpp\<close> with its frees. \<open>Raidz_Spec\<close> is the address map over
  naturals, \<open>Raidz_Map\<close> the proof that the words implement it, \<open>Raidz_Place\<close> reads off the map where
  each sector of a request lies. \<open>Device\<close> is \<open>read_at\<close> and \<open>read_physical\<close>; a child device is a function
  from position and length to the bytes that arrive, which may be fewer. \<open>Extractor\<close> is the rest of
  \<open>Raidz1Device\<close>, \<open>Zap\<close>, \<open>DNode\<close>, \<open>DSLDataset\<close> and the calls of \<open>main\<close>. \<open>Extractor_Props\<close> states
  that the map is right and the read delivers its data, and that no run of \<open>main\<close> produces a result.

  \<^bold>\<open>The rescue scripts.\<close> \<open>Py\<close> holds what the scripts use of Python: exceptions as values, indexing,
  slices, \<open>struct\<close>. The layers above follow the scripts' own. \<open>Block_Proxy\<close> is the server and the client with
  the bytes between them; the locale \<open>block_provider\<close> says what a reader of devices owes its
  user, and is interpreted for the network client and for the one of local files. \<open>Py_Raidz\<close>
  (\<open>RaidzDevice\<close> of \<open>zio.py\<close>) proves that its map is the one of the C extractor, rests its reads on
  that locale, and reconstructs a bad column. \<open>Py_LZ4\<close>, \<open>Py_Lzjb\<close> are the decompressors (the first
  against the C decoder on every block of the encoder, the second with its compressor), \<open>Py_Blkptr\<close> the block
  pointers (against the macros of \<open>spa.h\<close>) and the checksum, \<open>Py_Zio\<close> the reading of a block, with the theorem
  that takes a block from the disks to its data. Above it \<open>Py_Tree\<close> is the tree of indirect
  blocks with its cache, refined to a flat list, and \<open>Py_File\<close> files and object sets, refined to
  flat arrays; their reader of blocks is a parameter. \<open>Py_Nvpair\<close> and \<open>Py_Label\<close> read
  labels: the packed lists (round trip with the encoding), the uberblocks (against \<open>Vdev_Ring\<close>) and the choice of
  the active one. Loops of Python that end for every input are functions with a measure;
  \<open>FileObj.read\<close> may loop on empty blocks and is a partial function, and the loop of the parser of packed
  lists is bounded by the length of its input, which is shown to be enough.

  \<open>Py_Dnode\<close> reads dnodes with their bonus buffers and system attributes (against the records of \<open>Dnode\<close> and
  the macros of \<open>Sa\<close>), \<open>Py_Zap\<close> and \<open>Py_Micro\<close> attribute directories (against the layout of \<open>Zap_Format\<close>:
  every entry of the leaves is found under its name). \<open>Py_Dataset\<close> opens a dataset, builds the tables of
  attributes, splits directory entries (against \<open>Znode\<close>) and writes one file; \<open>Py_Archive\<close> walks the directories:
  the abstract tree of files a set of objects stands for (\<open>node_at\<close>) is shown to be what an
  archive lists, with contents, paths and links. \<open>Py_Fuse\<close> is the mount as a state machine over a
  store of shared nodes: the state is \<open>fuse\<close>, one function per operation, and \<open>mounted\<close> the states that can
  be reached; its properties are the inode invariant (what an inode stands for, now and later), that an open file reads as its content, and what a second open
  breaks. Functions that call themselves along indices on the disk, into directories or into inner lists take the number of
  calls the interpreter has left and raise \<open>Recursion_error\<close> at zero, as Python does on a cycle; the properties
  ask for a number that covers the nesting.

  \<^bold>\<open>Words with fields.\<close> \<open>Sysmacros\<close> (\<open>sysmacros.h\<close>) and \<open>Byteorder\<close> (\<open>byteorder.h\<close>) are
  the arithmetic below; \<open>Bitfield\<close> is the family \<open>BF32_\<close>/\<open>BF64_\<close> of \<open>spa.h\<close> with one rule for reading a
  field of a word after writing others. On it rest \<open>Blkptr\<close> and \<open>Blkptr_Props\<close> (DVAs, block
  pointers, embedded ones, \<open>spa.h\<close>), \<open>Zil\<close> (object ids of log records, \<open>zil.h\<close>), \<open>Send_Stream\<close> (the
  version word, \<open>zfs_ioctl.h\<close>), \<open>Sa\<close> (system attributes, \<open>sa_impl.h\<close>) and \<open>Packing\<close> (space
  maps, deduplication keys, AVL nodes; \<open>space_map.h\<close>, \<open>ddt.h\<close>, \<open>avl_impl.h\<close>), \<open>Metaslab\<close>
  (\<open>metaslab_impl.h\<close>: the order of weights), \<open>Znode\<close> (\<open>zfs_znode.h\<close>, \<open>zfs_fuid.h\<close>) and \<open>Xvattr\<close>
  (\<open>xvattr.h\<close>: the bitmaps of optional attributes as sets). The lemmas are round trips with the exact
  ranges, and the refinement of the plain AVL node by the packed one.
  \<open>Gf\<close> is the field of \<open>vdev_raidz_impl.h\<close> against multiplication of polynomials; its two
  tables are not in the repository, the locale \<open>gf_tables\<close> states what they hold.

  \<^bold>\<open>Structures.\<close> \<open>Codec\<close> is the interface of an encoding, \<open>Ondisk\<close>, \<open>Label\<close> and \<open>Dnode\<close> the
  structures of \<open>defs.h\<close> as records with codecs. \<open>Layout\<close> computes what a C compiler makes of a
  structure for three data models, and shows once, in the locale \<open>packed_struct\<close>, that a
  structure without padding is a codec. \<open>Dnode_Space\<close> (\<open>dnode.h\<close>) and \<open>Vdev_Ring\<close> (\<open>vdev_impl.h\<close>) divide a
  dnode of several slots and the ring of uberblocks; the latter also says for which devices the
  extractor reads the right slots. \<open>Pool_Layout\<close>, \<open>Zil\<close>, \<open>Send_Stream\<close> and \<open>Zap_Format\<close> hold the
  structures of the headers; the properties give sizes, offsets, agreement between machines
  and, for a ZAP leaf, that hash table and chunks share a block without overlap.

  \<^bold>\<open>Enumerations.\<close> \<open>Cenum\<close> evaluates C enumerations (explicit values, aliases, flags) and
  gives laws for enumerations and flags; \<open>Dmu\<close>, \<open>Zio\<close> and \<open>Zfs_Enums\<close> hold the tables: object types,
  I/O flags, pipeline stages and pipelines, and the enumerations of the interfaces.

  \<^bold>\<open>Not modelled.\<close> Most of the headers declare functions of a file system that is not in the repository
  (\<open>arc.h\<close>, \<open>dmu.h\<close>, \<open>spa.h\<close> past its macros, \<open>libzfs.h\<close>): prototypes and in-memory structures that
  nothing here computes with. \<open>u8_textprep_data.h\<close> is generated data. Compatibility
  headers, tracepoints, argument parsing and printing are left out. Of the scripts, the command line
  \<open>zfs_rescue.py\<close> that calls the parts in turn, the start of \<open>llfuse\<close>, the writing of \<open>tar\<close> and CSV files and the
  reading of the tables of paths (\<open>disks.tab\<close>, JSON) are left out; \<open>zlib\<close>, the decoders of names,
  the connection, the time, temporary names and the disks are parameters.
\<close>

end
